(* ===== verification/Prelude.thy ===== *)
theory Prelude
  imports Main "HOL-Library.Char_ord" "HOL-Library.Sublist"
begin

text \<open>
  Shared vocabulary of the development: JavaScript strings as lists of UTF-16 code units, the
  string operations the modelled TypeScript calls (\<open>slice\<close>, \<open>indexOf\<close>, \<open>split\<close>, \<open>join\<close>, \<open>trim\<close>,
  \<open>toUpperCase\<close>, \<open>toLowerCase\<close>), array reads that may be out of range, results of code that may
  throw, and the invariant rule for step relations.

  A JavaScript string is a sequence of code units below 65536.  Case mapping is exact on every
  code unit whose image contains an ASCII character (the ASCII letters, the sharp s, the dotless
  i, the long s, the Latin ligatures, the Kelvin sign and so on).  Any other non-ASCII letter is
  left as it is: the program compares case-mapped text with ASCII words only, so it cannot tell
  the difference.
\<close>

section \<open>Code units and strings\<close>

type_synonym jstr = "int list"

abbreviation ch :: "char \<Rightarrow> int" where
  "ch c \<equiv> of_char c"

definition js :: "string \<Rightarrow> jstr" where
  "js s = map of_char s"

named_theorems js_simps \<open>evaluation of string operations on literals\<close>
named_theorems progress \<open>length bounds of scanners, for termination proofs\<close>

lemma js_Nil [simp]: "js [] = []"
  by (simp add: js_def)

lemma js_Cons [simp]: "js (c # cs) = of_char c # js cs"
  by (simp add: js_def)

lemma js_append: "js (a @ b) = js a @ js b"
  by (simp add: js_def)

lemma js_inject: "js a = js b \<longleftrightarrow> a = b"
proof -
  have "inj (of_char :: char \<Rightarrow> int)"
    by (simp add: inj_on_def)
  then show ?thesis
    by (simp add: js_def inj_map_eq_map)
qed

definition nth_opt :: "'a list \<Rightarrow> nat \<Rightarrow> 'a option" where
  "nth_opt xs i = (if i < length xs then Some (xs ! i) else None)"

lemma nth_opt_Nil [simp]: "nth_opt [] i = None"
  by (simp add: nth_opt_def)

lemma nth_opt_Cons_0 [simp]: "nth_opt (x # xs) 0 = Some x"
  by (simp add: nth_opt_def)

lemma nth_opt_Cons_Suc [simp]: "nth_opt (x # xs) (Suc i) = nth_opt xs i"
  by (simp add: nth_opt_def)

lemma nth_opt_Cons_numeral [simp]:
  "nth_opt (x # xs) (numeral n) = nth_opt xs (pred_numeral n)"
  by (simp add: nth_opt_def numeral_eq_Suc)

lemma nth_opt_Cons_One [simp]: "nth_opt (x # xs) 1 = nth_opt xs 0"
  by (simp add: nth_opt_def)

lemma nth_opt_Some_iff: "nth_opt xs i = Some x \<longleftrightarrow> i < length xs \<and> xs ! i = x"
  by (simp add: nth_opt_def)

lemma nth_opt_in_set: "nth_opt xs i = Some x \<Longrightarrow> x \<in> set xs"
  by (auto simp: nth_opt_Some_iff)

lemma nth_opt_0_Some: "nth_opt xs 0 = Some x \<longleftrightarrow> (\<exists>ys. xs = x # ys)"
  by (cases xs) auto

definition slice :: "'a list \<Rightarrow> nat \<Rightarrow> nat \<Rightarrow> 'a list" where
  "slice xs a b = take (b - a) (drop a xs)"

definition starts_with :: "'a list \<Rightarrow> 'a list \<Rightarrow> bool" where
  "starts_with p s \<longleftrightarrow> take (length p) s = p"

lemma starts_with_prefix: "starts_with p s \<longleftrightarrow> prefix p s"
  unfolding starts_with_def prefix_def by (metis append_eq_conv_conj append_take_drop_id)

definition ends_with :: "'a list \<Rightarrow> 'a list \<Rightarrow> bool" where
  "ends_with p s \<longleftrightarrow> starts_with (rev p) (rev s)"

fun index_of :: "'a \<Rightarrow> 'a list \<Rightarrow> nat option" where
  "index_of c [] = None"
| "index_of c (x # xs) = (if x = c then Some 0 else map_option Suc (index_of c xs))"

text \<open>The first occurrence of \<open>d\<close>: the text before it and the text after it.\<close>

fun cut_at :: "'a list \<Rightarrow> 'a list \<Rightarrow> ('a list \<times> 'a list) option" where
  "cut_at d [] = (if d = [] then Some ([], []) else None)"
| "cut_at d (x # xs) =
     (if starts_with d (x # xs) then Some ([], drop (length d) (x # xs))
      else map_option (\<lambda>(a, b). (x # a, b)) (cut_at d xs))"

lemma cut_at_length [progress]: "cut_at d s = Some (a, b) \<Longrightarrow> length a + length d + length b = length s"
proof (induction d s arbitrary: a rule: cut_at.induct)
  case (1 d)
  then show ?case by (auto split: if_splits)
next
  case (2 d x xs)
  show ?case
  proof (cases "starts_with d (x # xs)")
    case True
    then have "prefix d (x # xs)" by (simp add: starts_with_prefix)
    then have "length d \<le> length (x # xs)" by (rule prefix_length_le)
    with True "2.prems" show ?thesis by auto
  next
    case False
    with "2.prems" "2.IH" show ?thesis by auto
  qed
qed

fun split_on :: "'a \<Rightarrow> 'a list \<Rightarrow> 'a list list" where
  "split_on c [] = [[]]"
| "split_on c (x # xs) =
     (if x = c then [] # split_on c xs
      else (case split_on c xs of [] \<Rightarrow> [[x]] | y # ys \<Rightarrow> (x # y) # ys))"

lemma split_on_not_Nil [simp]: "split_on c s \<noteq> []"
  by (induction c s rule: split_on.induct) (auto split: list.splits)

lemma split_on_parts: "p \<in> set (split_on c s) \<Longrightarrow> c \<notin> set p \<and> set p \<subseteq> set s"
  by (induction c s arbitrary: p rule: split_on.induct) (fastforce split: if_splits list.splits)+

fun join :: "'a list \<Rightarrow> 'a list list \<Rightarrow> 'a list" where
  "join d [] = []"
| "join d [x] = x"
| "join d (x # y # ys) = x @ d @ join d (y # ys)"

lemma join_Cons: "join d (x # xs) = (if xs = [] then x else x @ d @ join d xs)"
  by (cases xs) auto

lemma join_split_on: "join [c] (split_on c s) = s"
proof (induction c s rule: split_on.induct)
  case (1 c)
  then show ?case by simp
next
  case (2 c x xs)
  obtain y ys where y: "split_on c xs = y # ys"
    by (metis list.exhaust split_on_not_Nil)
  show ?case
  proof (cases "x = c")
    case True
    with 2 y show ?thesis by simp
  next
    case False
    with 2 y show ?thesis by (simp add: join_Cons split: if_splits)
  qed
qed

section \<open>Character classes and case mapping\<close>

definition is_digit :: "int \<Rightarrow> bool" where
  "is_digit c \<longleftrightarrow> 48 \<le> c \<and> c \<le> 57"

definition is_alpha :: "int \<Rightarrow> bool" where
  "is_alpha c \<longleftrightarrow> (65 \<le> c \<and> c \<le> 90) \<or> (97 \<le> c \<and> c \<le> 122)"

text \<open>\<open>\s\<close> of a regular expression, and the characters \<open>trim\<close> removes.\<close>

definition is_js_space :: "int \<Rightarrow> bool" where
  "is_js_space c \<longleftrightarrow> (9 \<le> c \<and> c \<le> 13) \<or> c = 32 \<or> c = 160 \<or> c = 5760 \<or> (8192 \<le> c \<and> c \<le> 8202) \<or>
     c = 8232 \<or> c = 8233 \<or> c = 8239 \<or> c = 8287 \<or> c = 12288 \<or> c = 65279"

definition js_trim :: "jstr \<Rightarrow> jstr" where
  "js_trim s = rev (dropWhile is_js_space (rev (dropWhile is_js_space s)))"

definition js_upper_unit :: "int \<Rightarrow> jstr" where
  "js_upper_unit c =
     (if 97 \<le> c \<and> c \<le> 122 then [c - 32]
      else if c = 223 then [83, 83]
      else if c = 305 then [73]
      else if c = 329 then [700, 78]
      else if c = 383 then [83]
      else if c = 496 then [74, 780]
      else if c = 7830 then [72, 817]
      else if c = 7831 then [84, 776]
      else if c = 7832 then [87, 778]
      else if c = 7833 then [89, 778]
      else if c = 7834 then [65, 702]
      else if c = 64256 then [70, 70]
      else if c = 64257 then [70, 73]
      else if c = 64258 then [70, 76]
      else if c = 64259 then [70, 70, 73]
      else if c = 64260 then [70, 70, 76]
      else if c = 64261 then [83, 84]
      else if c = 64262 then [83, 84]
      else [c])"

definition js_upper :: "jstr \<Rightarrow> jstr" where
  "js_upper s = concat (map js_upper_unit s)"

definition js_lower_unit :: "int \<Rightarrow> jstr" where
  "js_lower_unit c =
     (if 65 \<le> c \<and> c \<le> 90 then [c + 32]
      else if c = 304 then [105, 775]
      else if c = 8490 then [107]
      else [c])"

definition js_lower :: "jstr \<Rightarrow> jstr" where
  "js_lower s = concat (map js_lower_unit s)"

lemma js_upper_Nil [simp]: "js_upper [] = []"
  by (simp add: js_upper_def)

lemma js_upper_Cons [simp]: "js_upper (c # s) = js_upper_unit c @ js_upper s"
  by (simp add: js_upper_def)

lemma js_upper_append: "js_upper (s @ t) = js_upper s @ js_upper t"
  by (simp add: js_upper_def)

lemma js_lower_Nil [simp]: "js_lower [] = []"
  by (simp add: js_lower_def)

lemma js_lower_Cons [simp]: "js_lower (c # s) = js_lower_unit c @ js_lower s"
  by (simp add: js_lower_def)

lemma js_upper_unit_nonempty: "js_upper_unit c \<noteq> []"
  by (simp add: js_upper_unit_def)

lemma js_upper_eq_Nil [simp]: "js_upper s = [] \<longleftrightarrow> s = []"
  by (cases s) (simp_all add: js_upper_unit_nonempty)

text \<open>Upper-casing makes no space out of a character that is none.\<close>

lemma js_upper_unit_space: "32 \<in> set (js_upper_unit c) \<Longrightarrow> c = 32"
  by (auto simp: js_upper_unit_def split: if_splits)

lemma js_upper_space: "32 \<in> set (js_upper s) \<Longrightarrow> 32 \<in> set s"
  by (auto simp: js_upper_def dest: js_upper_unit_space)

text \<open>Decimal rendering of a number, as in a template literal.\<close>

fun show_nat :: "nat \<Rightarrow> jstr" where
  "show_nat n = (if n < 10 then [48 + int n] else show_nat (n div 10) @ [48 + int (n mod 10)])"

declare show_nat.simps [simp del]

lemma show_nat_digits: "c \<in> set (show_nat n) \<Longrightarrow> is_digit c"
proof (induction n rule: show_nat.induct)
  case (1 n)
  show ?case
  proof (cases "n < 10")
    case True
    with "1.prems" show ?thesis by (simp add: show_nat.simps [of n] is_digit_def)
  next
    case False
    have "n mod 10 < 10" by simp
    with False "1.prems" "1.IH" show ?thesis
      by (auto simp: show_nat.simps [of n] is_digit_def)
  qed
qed

lemma show_nat_nonempty [simp]: "show_nat n \<noteq> []"
  by (subst show_nat.simps) simp

section \<open>Association lists that keep their order\<close>

text \<open>\<open>Map.set\<close>: a key that is present keeps its place.\<close>

definition setKey :: "'k \<Rightarrow> 'v \<Rightarrow> ('k \<times> 'v) list \<Rightarrow> ('k \<times> 'v) list" where
  "setKey k v m = (if k \<in> fst ` set m then map (\<lambda>(a, b). if a = k then (a, v) else (a, b)) m else m @ [(k, v)])"

lemma in_fst_image: "(a, b) \<in> S \<Longrightarrow> a \<in> fst ` S"
  by (rule image_eqI [of _ _ "(a, b)"]) simp_all

lemma map_of_replace:
  "map_of (map (\<lambda>(a, b). if a = k then (a, v) else (a, b)) m) x = (if x = k then (if k \<in> fst ` set m then Some v else None) else map_of m x)"
proof (induction m)
  case (Cons a m)
  then show ?case by (cases a) (auto simp: image_iff Bex_def)
qed simp

lemma map_of_setKey [simp]: "map_of (setKey k v m) = (map_of m)(k \<mapsto> v)"
proof
  fix x
  show "map_of (setKey k v m) x = ((map_of m)(k \<mapsto> v)) x"
  proof (cases "k \<in> fst ` set m")
    case False
    then have "map_of m k = None" by (simp add: map_of_eq_None_iff)
    with False show ?thesis by (auto simp: setKey_def map_add_def split: option.splits)
  qed (simp add: setKey_def map_of_replace)
qed

lemma fst_setKey: "map fst (setKey k v m) = (if k \<in> fst ` set m then map fst m else map fst m @ [k])"
  by (auto simp: setKey_def split: if_splits)

lemma distinct_setKey: "distinct (map fst m) \<Longrightarrow> distinct (map fst (setKey k v m))"
  by (simp add: fst_setKey)

lemma set_setKey: "x \<in> set (setKey k v m) \<Longrightarrow> x = (k, v) \<or> x \<in> set m"
  by (auto simp: setKey_def split: if_splits)

section \<open>Code that may throw\<close>

text \<open>\<open>Inl e\<close>: the code threw \<open>e\<close>; \<open>Inr v\<close>: it returned \<open>v\<close>.\<close>

definition bindr :: "'e + 'a \<Rightarrow> ('a \<Rightarrow> 'e + 'b) \<Rightarrow> 'e + 'b" where
  "bindr r f = (case r of Inl e \<Rightarrow> Inl e | Inr v \<Rightarrow> f v)"

lemma bindr_Inl [simp]: "bindr (Inl e) f = Inl e"
  by (simp add: bindr_def)

lemma bindr_Inr [simp]: "bindr (Inr v) f = f v"
  by (simp add: bindr_def)

lemma bindr_eq_Inr: "bindr r f = Inr w \<longleftrightarrow> (\<exists>v. r = Inr v \<and> f v = Inr w)"
  by (cases r) auto

lemma bindr_eq_Inl: "bindr r f = Inl e \<longleftrightarrow> r = Inl e \<or> (\<exists>v. r = Inr v \<and> f v = Inl e)"
  by (cases r) auto

lemma bindr_cong [fundef_cong]:
  "r = r' \<Longrightarrow> (\<And>v. r' = Inr v \<Longrightarrow> f v = g v) \<Longrightarrow> bindr r f = bindr r' g"
  by (cases r') auto

text \<open>\<open>xs.map(f)\<close> where \<open>f\<close> may throw: the first throw ends the loop.\<close>

fun mapr :: "('a \<Rightarrow> 'e + 'b) \<Rightarrow> 'a list \<Rightarrow> 'e + 'b list" where
  "mapr f [] = Inr []"
| "mapr f (x # xs) = bindr (f x) (\<lambda>y. bindr (mapr f xs) (\<lambda>ys. Inr (y # ys)))"

lemma mapr_cong [fundef_cong]:
  "xs = ys \<Longrightarrow> (\<And>x. x \<in> set ys \<Longrightarrow> f x = g x) \<Longrightarrow> mapr f xs = mapr g ys"
  by (induction xs arbitrary: ys) auto

lemma mapr_Inr_list_all2: "mapr f xs = Inr ys \<Longrightarrow> list_all2 (\<lambda>x y. f x = Inr y) xs ys"
  by (induction xs arbitrary: ys) (auto simp: bindr_eq_Inr)

lemma mapr_Inr_elem: "mapr f xs = Inr ys \<Longrightarrow> y \<in> set ys \<Longrightarrow> \<exists>x\<in>set xs. f x = Inr y"
  by (induction xs arbitrary: ys) (auto simp: bindr_eq_Inr)

lemma mapr_list_all: "mapr f xs = Inr ys \<Longrightarrow> (\<And>x y. x \<in> set xs \<Longrightarrow> f x = Inr y \<Longrightarrow> P y) \<Longrightarrow> list_all P ys"
  unfolding list_all_iff using mapr_Inr_elem [of f xs ys] by blast

section \<open>Step relations and their invariants\<close>

locale step_system =
  fixes init :: "'s \<Rightarrow> bool"
    and step :: "'s \<Rightarrow> 's \<Rightarrow> bool"
    and inv :: "'s \<Rightarrow> bool"
  assumes init_inv: "init s \<Longrightarrow> inv s"
    and step_inv: "inv s \<Longrightarrow> step s t \<Longrightarrow> inv t"
begin

lemma steps_keep: "step\<^sup>*\<^sup>* s t \<Longrightarrow> inv s \<Longrightarrow> inv t"
  by (induction rule: rtranclp_induct) (auto intro: step_inv)

lemma reachable_inv: "init s \<Longrightarrow> step\<^sup>*\<^sup>* s t \<Longrightarrow> inv t"
  by (blast intro: steps_keep init_inv)

end

end
