(* ===== verification/SqlLexer.thy ===== *)
theory SqlLexer
  imports Prelude
begin

text \<open>
  The SQL lexer of \<open>modules/sql/sql-lexer.ts\<close>: literal decoding, quoted runs, nested comments,
  the tokenizer with its UESCAPE pass, statement splitting and statement classification.

  The source walks an index \<open>i\<close> over the text; here a position is the pair of \<open>i\<close> and the text
  from \<open>i\<close> on, so \<open>sql[i + k]\<close> is \<open>nth_opt s k\<close> (\<open>None\<close> past the end) and a scanner returns the
  text that is left.  The body of the tokenizer's loop is \<open>lexStep\<close>.
\<close>

section \<open>Tokens\<close>

datatype TokenType = TWord | TQident | TString | TNumber | TParam | TOp | TPunct

datatype QuoteKind = QStandard | QEscape | QUnicode | QDollar | QBit

record Token =
  tk_type :: TokenType
  tk_value :: jstr
  tk_upper :: jstr
  tk_start :: nat
  tk_end :: nat
  tk_quote :: "QuoteKind option"

abbreviation SQ :: int where "SQ \<equiv> 39"
abbreviation DQ :: int where "DQ \<equiv> 34"
abbreviation BS :: int where "BS \<equiv> 92"

definition isWordStart :: "int \<Rightarrow> bool" where
  "isWordStart c \<longleftrightarrow> is_alpha c \<or> c = ch CHR ''_'' \<or> (128 \<le> c \<and> c \<le> 65535)"

definition isWordChar :: "int \<Rightarrow> bool" where
  "isWordChar c \<longleftrightarrow> is_alpha c \<or> is_digit c \<or> c = ch CHR ''_'' \<or> c = ch CHR ''$'' \<or> (128 \<le> c \<and> c \<le> 65535)"

definition OP_CHARS :: jstr where
  "OP_CHARS = js ''+-*/<>=~!@#%^&|'' @ [96] @ js ''?''"

definition PUNCT_CHARS :: jstr where
  "PUNCT_CHARS = js ''()[],;.:''"

section \<open>Decoding literals\<close>

definition isHex :: "int \<Rightarrow> bool" where
  "isHex c \<longleftrightarrow> is_digit c \<or> (65 \<le> c \<and> c \<le> 70) \<or> (97 \<le> c \<and> c \<le> 102)"

definition hexDigit :: "int \<Rightarrow> int" where
  "hexDigit c = (if is_digit c then c - 48 else if c \<le> 70 then c - 55 else c - 87)"

text \<open>\<open>parseInt(m, 16)\<close> and \<open>parseInt(m, 8)\<close> of a run of digits.\<close>

definition parseHex :: "jstr \<Rightarrow> int" where
  "parseHex s = foldl (\<lambda>a c. 16 * a + hexDigit c) 0 s"

definition parseOct :: "jstr \<Rightarrow> int" where
  "parseOct s = foldl (\<lambda>a c. 8 * a + (c - 48)) 0 s"

definition isOct :: "int \<Rightarrow> bool" where
  "isOct c \<longleftrightarrow> 48 \<le> c \<and> c \<le> 55"

definition allHex :: "nat \<Rightarrow> jstr \<Rightarrow> bool" where
  "allHex n s \<longleftrightarrow> length s = n \<and> list_all isHex s"

definition safeFromCodePoint :: "int \<Rightarrow> jstr" where
  "safeFromCodePoint cp =
     (if cp > 1114111 then []
      else if cp < 65536 then [cp]
      else [55296 + (cp - 65536) div 1024, 56320 + (cp - 65536) mod 1024])"

fun decodeEscapeString :: "jstr \<Rightarrow> jstr" where
  "decodeEscapeString [] = []"
| "decodeEscapeString [c] = [c]"
| "decodeEscapeString (c # n # r) =
     (if c = SQ \<and> n = SQ then SQ # decodeEscapeString r
      else if c \<noteq> BS then c # decodeEscapeString (n # r)
      else if n = ch CHR ''b'' then 8 # decodeEscapeString r
      else if n = ch CHR ''f'' then 12 # decodeEscapeString r
      else if n = ch CHR ''n'' then 10 # decodeEscapeString r
      else if n = ch CHR ''r'' then 13 # decodeEscapeString r
      else if n = ch CHR ''t'' then 9 # decodeEscapeString r
      else if n = ch CHR ''x'' then
        (let m = take 2 (takeWhile isHex r) in
         if m \<noteq> [] then parseHex m # decodeEscapeString (drop (length m) r)
         else n # decodeEscapeString r)
      else if n = ch CHR ''u'' \<or> n = ch CHR ''U'' then
        (let len = (if n = ch CHR ''u'' then 4 else 8); hex = take len r in
         if allHex len hex then safeFromCodePoint (parseHex hex) @ decodeEscapeString (drop len r)
         else n # decodeEscapeString r)
      else
        (let m = take 3 (takeWhile isOct (n # r)) in
         if m \<noteq> [] then (parseOct m mod 256) # decodeEscapeString (drop (length m - 1) r)
         else n # decodeEscapeString r))"

function decodeUnicode :: "int \<Rightarrow> jstr \<Rightarrow> jstr" where
  "decodeUnicode esc [] = []"
| "decodeUnicode esc (c # cs) =
     (if c \<noteq> esc then c # decodeUnicode esc cs
      else if nth_opt cs 0 = Some esc then esc # decodeUnicode esc (drop 1 cs)
      else if nth_opt cs 0 = Some (ch CHR ''+'') \<and> allHex 6 (slice cs 1 7) then
        safeFromCodePoint (parseHex (slice cs 1 7)) @ decodeUnicode esc (drop 7 cs)
      else if allHex 4 (slice cs 0 4) then
        safeFromCodePoint (parseHex (slice cs 0 4)) @ decodeUnicode esc (drop 4 cs)
      else c # decodeUnicode esc cs)"
  by pat_completeness auto
termination
  by (relation "measure (\<lambda>(esc, s). length s)") auto

text \<open>\<open>replace(/''/g, "'")\<close>, and \<open>split(q + q).join(q)\<close>: doubled quotes, left to right.\<close>

fun undouble :: "int \<Rightarrow> jstr \<Rightarrow> jstr" where
  "undouble q (a # b # s) = (if a = q \<and> b = q then q # undouble q s else a # undouble q (b # s))"
| "undouble q s = s"

section \<open>Quoted runs and comments\<close>

text \<open>The text after an opening quote \<open>q\<close>: the raw body and what follows the closing quote.\<close>

fun readQuoted :: "bool \<Rightarrow> int \<Rightarrow> jstr \<Rightarrow> jstr \<times> jstr" where
  "readQuoted bs q [] = ([], [])"
| "readQuoted bs q [c] = (if bs \<and> c = BS then ([c], []) else if c = q then ([], []) else ([c], []))"
| "readQuoted bs q (c # d # s) =
     (if bs \<and> c = BS then (let (b, r) = readQuoted bs q s in (c # d # b, r))
      else if c = q then
        (if d = q then (let (b, r) = readQuoted bs q s in (c # d # b, r)) else ([], d # s))
      else (let (b, r) = readQuoted bs q (d # s) in (c # b, r)))"

fun skipBlock :: "nat \<Rightarrow> jstr \<Rightarrow> jstr" where
  "skipBlock 0 s = s"
| "skipBlock (Suc d) [] = []"
| "skipBlock (Suc d) [c] = []"
| "skipBlock (Suc d) (a # b # s) =
     (if a = ch CHR ''/'' \<and> b = ch CHR ''*'' then skipBlock (Suc (Suc d)) s
      else if a = ch CHR ''*'' \<and> b = ch CHR ''/'' then skipBlock d s
      else skipBlock (Suc d) (b # s))"

text \<open>The text after the comment that starts here, or \<open>None\<close> when none does.\<close>

definition skipComment :: "jstr \<Rightarrow> jstr option" where
  "skipComment s =
     (if nth_opt s 0 = Some (ch CHR ''-'') \<and> nth_opt s 1 = Some (ch CHR ''-'')
      then Some (drop 1 (dropWhile (\<lambda>c. c \<noteq> 10) s))
      else if nth_opt s 0 = Some (ch CHR ''/'') \<and> nth_opt s 1 = Some (ch CHR ''*'')
      then Some (skipBlock 1 (drop 2 s))
      else None)"

section \<open>The tokenizer\<close>

text \<open>
  A recognizer yields the type, value and quoting of the token and the text after it.  Every
  branch of the loop pushes its token with \<open>start: i\<close> and \<open>end: next\<close> and goes on at \<open>next\<close>;
  \<open>push\<close> does so once for all.  \<open>upper\<close> is the upper-cased text for words, the value otherwise.
\<close>

type_synonym Lexed = "TokenType \<times> jstr \<times> QuoteKind option \<times> jstr"

definition push :: "nat \<Rightarrow> jstr \<Rightarrow> Lexed \<Rightarrow> Token option \<times> jstr" where
  "push i s l =
     (case l of (ty, v, q, r) \<Rightarrow>
        (Some \<lparr>tk_type = ty, tk_value = v, tk_upper = (if ty = TWord then js_upper v else v),
               tk_start = i, tk_end = i + (length s - length r), tk_quote = q\<rparr>, r))"

definition isTagStart :: "int \<Rightarrow> bool" where
  "isTagStart c \<longleftrightarrow> is_alpha c \<or> c = ch CHR ''_'' \<or> (128 \<le> c \<and> c \<le> 65535)"

definition isTagChar :: "int \<Rightarrow> bool" where
  "isTagChar c \<longleftrightarrow> is_alpha c \<or> is_digit c \<or> c = ch CHR ''_'' \<or> (128 \<le> c \<and> c \<le> 65535)"

text \<open>\<open>dollar[0]\<close>: the delimiter \<open>$tag$\<close> at the start of the text, if there is one.\<close>

definition dollarDelim :: "jstr \<Rightarrow> jstr option" where
  "dollarDelim s =
     (case s of [] \<Rightarrow> None
      | c # cs \<Rightarrow>
          (let tag = takeWhile isTagChar cs in
           if c = ch CHR ''$'' \<and> (tag = [] \<or> isTagStart (hd tag))
              \<and> nth_opt cs (length tag) = Some (ch CHR ''$'')
           then Some (c # tag @ [c]) else None))"

definition isNumChar :: "int \<Rightarrow> bool" where
  "isNumChar c \<longleftrightarrow> is_digit c \<or> is_alpha c \<or> c = ch CHR ''_'' \<or> c = ch CHR ''.''"

definition isExp :: "int \<Rightarrow> bool" where
  "isExp c \<longleftrightarrow> c = ch CHR ''e'' \<or> c = ch CHR ''E''"

definition isSign :: "int \<Rightarrow> bool" where
  "isSign c \<longleftrightarrow> c = ch CHR ''+'' \<or> c = ch CHR ''-''"

fun numberRun :: "jstr \<Rightarrow> jstr \<times> jstr" where
  "numberRun [] = ([], [])"
| "numberRun [c] = (if isNumChar c then ([c], []) else ([], [c]))"
| "numberRun (c # d # s) =
     (if isNumChar c then
        (if isExp c \<and> isSign d then (let (a, r) = numberRun s in (c # d # a, r))
         else (let (a, r) = numberRun (d # s) in (c # a, r)))
      else ([], c # d # s))"

definition commentAt :: "jstr \<Rightarrow> bool" where
  "commentAt s \<longleftrightarrow>
     (nth_opt s 0 = Some (ch CHR ''-'') \<and> nth_opt s 1 = Some (ch CHR ''-'')) \<or>
     (nth_opt s 0 = Some (ch CHR ''/'') \<and> nth_opt s 1 = Some (ch CHR ''*''))"

fun opRun :: "jstr \<Rightarrow> jstr \<times> jstr" where
  "opRun [] = ([], [])"
| "opRun (c # s) =
     (if c \<in> set OP_CHARS \<and> \<not> commentAt (c # s) then (let (a, r) = opRun s in (c # a, r))
      else ([], c # s))"

text \<open>Prefixed literals: \<open>E''..''\<close>, \<open>B''..''\<close>, \<open>X''..''\<close>, \<open>N''..''\<close>, \<open>U&''..''\<close> and \<open>U&".."\<close>.\<close>

definition lexPrefixed :: "int \<Rightarrow> jstr \<Rightarrow> Lexed option" where
  "lexPrefixed c cs =
    (if (c = ch CHR ''E'' \<or> c = ch CHR ''e'') \<and> nth_opt cs 0 = Some SQ then
       (let (body, r) = readQuoted True SQ (drop 1 cs) in Some (TString, decodeEscapeString body, Some QEscape, r))
     else if (c = ch CHR ''B'' \<or> c = ch CHR ''b'' \<or> c = ch CHR ''X'' \<or> c = ch CHR ''x'') \<and> nth_opt cs 0 = Some SQ then
       (let (body, r) = readQuoted False SQ (drop 1 cs) in Some (TString, body, Some QBit, r))
     else if (c = ch CHR ''N'' \<or> c = ch CHR ''n'') \<and> nth_opt cs 0 = Some SQ then
       (let (body, r) = readQuoted False SQ (drop 1 cs) in Some (TString, undouble SQ body, Some QStandard, r))
     else if (c = ch CHR ''U'' \<or> c = ch CHR ''u'') \<and> nth_opt cs 0 = Some (ch CHR ''&'')
             \<and> (nth_opt cs 1 = Some SQ \<or> nth_opt cs 1 = Some DQ) then
       (let q = cs ! 1; (body, r) = readQuoted False q (drop 2 cs)
        in Some (if q = SQ then TString else TQident, undouble q body, Some QUnicode, r))
     else None)"

text \<open>\<open>''..''\<close> and \<open>".."\<close>.\<close>

definition lexQuoted :: "int \<Rightarrow> jstr \<Rightarrow> Lexed option" where
  "lexQuoted c cs =
    (if c = SQ then
       (let (body, r) = readQuoted False SQ cs in Some (TString, undouble SQ body, Some QStandard, r))
     else if c = DQ then
       (let (body, r) = readQuoted False DQ cs in Some (TQident, undouble DQ body, None, r))
     else None)"

text \<open>\<open>$tag$ .. $tag$\<close> bodies and \<open>$1\<close> parameters.\<close>

definition lexDollar :: "int \<Rightarrow> jstr \<Rightarrow> Lexed option" where
  "lexDollar c cs =
    (case dollarDelim (c # cs) of
       Some delim \<Rightarrow>
         (let rest = drop (length delim) (c # cs) in
          case cut_at delim rest of
            Some (body, r) \<Rightarrow> Some (TString, body, Some QDollar, r)
          | None \<Rightarrow> Some (TString, rest, Some QDollar, []))
     | None \<Rightarrow>
         (let d = takeWhile is_digit cs in
          if c = ch CHR ''$'' \<and> d \<noteq> [] then Some (TParam, c # d, None, dropWhile is_digit cs) else None))"

text \<open>Words, numbers, punctuation, operators, and any stray character.\<close>

definition lexPlain :: "int \<Rightarrow> jstr \<Rightarrow> Lexed" where
  "lexPlain c cs =
    (if isWordStart c then (TWord, c # takeWhile isWordChar cs, None, dropWhile isWordChar cs)
     else if is_digit c \<or> (c = ch CHR ''.'' \<and> list_ex is_digit (take 1 cs)) then
       (let (a, r) = numberRun cs in (TNumber, c # a, None, r))
     else if c \<in> set PUNCT_CHARS then (TPunct, [c], None, cs)
     else if c \<in> set OP_CHARS then (let (a, r) = opRun cs in (TOp, c # a, None, r))
     else (TOp, [c], None, cs))"

text \<open>One turn of the loop at position \<open>i\<close>: the token pushed, if any, and the text that is left.\<close>

definition lexStep :: "nat \<Rightarrow> int \<Rightarrow> jstr \<Rightarrow> Token option \<times> jstr" where
  "lexStep i c cs =
    (if is_js_space c then (None, cs)
     else case skipComment (c # cs) of Some r \<Rightarrow> (None, r)
     | None \<Rightarrow> (case lexPrefixed c cs of Some l \<Rightarrow> push i (c # cs) l
     | None \<Rightarrow> (case lexQuoted c cs of Some l \<Rightarrow> push i (c # cs) l
     | None \<Rightarrow> (case lexDollar c cs of Some l \<Rightarrow> push i (c # cs) l
     | None \<Rightarrow> push i (c # cs) (lexPlain c cs)))))"

section \<open>Scanners make progress\<close>

text \<open>Every scanner returns a suffix of the text it was given.\<close>

lemma suffix_refl [simp, progress]: "suffix s s"
  by (simp add: suffix_def)

lemma suffix_drop_1 [simp]: "suffix (drop n s) s"
  by (rule suffix_drop)

lemma readQuoted_suffix [progress]: "suffix (snd (readQuoted bs q s)) s"
  by (induction bs q s rule: readQuoted.induct)
     (auto simp: case_prod_unfold Let_def suffix_Cons)

lemma skipBlock_suffix [progress]: "suffix (skipBlock d s) s"
  by (induction d s rule: skipBlock.induct) (auto intro: suffix_ConsI)

lemma numberRun_append: "fst (numberRun s) @ snd (numberRun s) = s"
  by (induction s rule: numberRun.induct) (auto split: prod.splits)

lemma opRun_append: "fst (opRun s) @ snd (opRun s) = s"
  by (induction s rule: opRun.induct) (auto split: prod.splits)

lemma skipComment_suffix:
  assumes "skipComment (c # cs) = Some r"
  shows "suffix r cs"
proof -
  have a: "suffix (drop 1 (dropWhile P (c # cs))) cs" for P
  proof -
    have "suffix (dropWhile P (c # cs)) (c # cs)" by (rule suffix_dropWhile)
    then show ?thesis by (cases "dropWhile P (c # cs)") (auto simp: suffix_Cons intro: suffix_ConsD)
  qed
  have b: "suffix (skipBlock 1 (drop 2 (c # cs))) cs"
    by (rule suffix_order.trans [OF skipBlock_suffix]) (simp add: suffix_drop numeral_2_eq_2)
  from assms a [of "\<lambda>c. c \<noteq> 10"] b show ?thesis by (auto simp: skipComment_def split: if_splits)
qed

lemma cut_at_append: "cut_at d s = Some (a, b) \<Longrightarrow> s = a @ d @ b"
proof (induction d s arbitrary: a rule: cut_at.induct)
  case (1 d)
  then show ?case by (auto split: if_splits)
next
  case (2 d x xs)
  show ?case
  proof (cases "starts_with d (x # xs)")
    case True
    with "2.prems" show ?thesis
      by (auto simp: starts_with_def) (metis append_take_drop_id)
  next
    case False
    with 2 show ?thesis by auto
  qed
qed

lemma dollarDelim_shape:
  assumes "dollarDelim s = Some d"
  shows "\<exists>tag rest. s = d @ rest \<and> d = ch CHR ''$'' # tag @ [ch CHR ''$'']"
proof -
  obtain c cs where s: "s = c # cs" using assms by (cases s) (auto simp: dollarDelim_def)
  let ?tag = "takeWhile isTagChar cs"
  from assms s have c: "c = ch CHR ''$''" and nx: "nth_opt cs (length ?tag) = Some (ch CHR ''$'')"
    and dd: "d = c # ?tag @ [c]"
    by (auto simp: dollarDelim_def Let_def split: if_splits)
  from nx obtain rest where "drop (length ?tag) cs = ch CHR ''$'' # rest"
    by (metis Cons_nth_drop_Suc nth_opt_Some_iff)
  then have "cs = ?tag @ ch CHR ''$'' # rest"
    by (metis append_take_drop_id takeWhile_eq_take)
  with s c dd show ?thesis by auto
qed

text \<open>
  What every recognizer guarantees: it consumes a non-empty piece \<open>u\<close> of the text, and a token
  that is neither a string nor a quoted identifier carries \<open>u\<close> itself as its value.
\<close>

definition literalType :: "TokenType \<Rightarrow> bool" where
  "literalType ty \<longleftrightarrow> ty = TString \<or> ty = TQident"

definition recognized :: "jstr \<Rightarrow> Lexed \<Rightarrow> bool" where
  "recognized s l \<longleftrightarrow>
     (case l of (ty, v, q, r) \<Rightarrow>
        \<exists>u. s = u @ r \<and> u \<noteq> [] \<and> (literalType ty \<or> (v = u \<and> q = None)))"

lemma recognized_suffix: "suffix r cs \<Longrightarrow> literalType ty \<Longrightarrow> recognized (c # cs) (ty, v, q, r)"
  by (auto simp: recognized_def suffix_def)

lemma recognized_readQuoted:
  assumes "literalType ty"
  shows "recognized (c # cs) (ty, v, q, snd (readQuoted bs q' (drop n cs)))"
proof (rule recognized_suffix [OF _ assms])
  show "suffix (snd (readQuoted bs q' (drop n cs))) cs"
    by (rule suffix_order.trans [OF readQuoted_suffix]) simp
qed

lemma literalType_simps [simp]:
  "literalType TString" "literalType TQident" "literalType (if b then TString else TQident)"
  by (simp_all add: literalType_def)

lemma lexPrefixed_recognized: "lexPrefixed c cs = Some l \<Longrightarrow> recognized (c # cs) l"
  unfolding lexPrefixed_def Let_def case_prod_unfold
  by (simp only: option.distinct option.inject split: if_splits)
     (hypsubst, rule recognized_readQuoted, simp only: literalType_simps if_True if_False)+

lemma lexQuoted_recognized: "lexQuoted c cs = Some l \<Longrightarrow> recognized (c # cs) l"
  using recognized_readQuoted [where n = 0]
  by (auto simp: lexQuoted_def case_prod_unfold Let_def split: if_splits)

lemma lexDollar_recognized:
  assumes "lexDollar c cs = Some l"
  shows "recognized (c # cs) l"
proof (cases "dollarDelim (c # cs)")
  case None
  with assms show ?thesis
    by (auto simp: lexDollar_def Let_def recognized_def
        intro!: exI [of _ "c # takeWhile is_digit cs"] split: if_splits)
next
  case (Some d)
  from dollarDelim_shape [OF Some] obtain tag rest where
    cs: "c # cs = d @ rest" and d: "d = ch CHR ''$'' # tag @ [ch CHR ''$'']" by blast
  show ?thesis
  proof (cases "cut_at d rest")
    case None
    with assms Some cs have "l = (TString, rest, Some QDollar, [])"
      by (auto simp: lexDollar_def)
    then show ?thesis by (simp add: recognized_suffix)
  next
    case (Some br)
    obtain b r where br: "br = (b, r)" by (cases br)
    with Some have "rest = b @ d @ r" using cut_at_append by blast
    with cs d have "suffix r cs"
      by (auto simp: suffix_def intro!: exI [of _ "tag @ ch CHR ''$'' # b @ d"])
    moreover from assms \<open>dollarDelim (c # cs) = Some d\<close> cs Some br
    have "l = (TString, b, Some QDollar, r)" by (auto simp: lexDollar_def)
    ultimately show ?thesis by (simp add: recognized_suffix)
  qed
qed

lemma recognized_append: "cs = a @ r \<Longrightarrow> recognized (c # cs) (ty, c # a, None, r)"
  by (auto simp: recognized_def)

lemma lexPlain_recognized: "recognized (c # cs) (lexPlain c cs)"
  using numberRun_append [of cs] opRun_append [of cs]
  by (auto simp: lexPlain_def case_prod_unfold Let_def intro!: recognized_append)

lemma push_spec:
  assumes "push i s l = (t, r)" "recognized s l"
  shows "\<exists>tok u. t = Some tok \<and> s = u @ r \<and> u \<noteq> [] \<and> tk_start tok = i \<and> tk_end tok = i + length u \<and>
           (literalType (tk_type tok) \<or> (tk_value tok = u \<and> tk_quote tok = None))"
  using assms by (auto simp: push_def recognized_def)

lemma lexStep_cases:
  assumes "lexStep i c cs = (t, r)"
  obtains (skip) "t = None" "suffix r cs"
  | (token) l where "push i (c # cs) l = (t, r)" "recognized (c # cs) l"
proof (cases "is_js_space c")
  case True
  with assms skip show ?thesis by (simp add: lexStep_def)
next
  case sp: False
  show ?thesis
  proof (cases "skipComment (c # cs)")
    case (Some r')
    with assms sp skip show ?thesis by (auto simp: lexStep_def dest: skipComment_suffix)
  next
    case None
    with assms sp token [OF _ lexPrefixed_recognized] token [OF _ lexQuoted_recognized]
      token [OF _ lexDollar_recognized] token [OF _ lexPlain_recognized] show ?thesis
      by (simp add: lexStep_def split: option.splits)
  qed
qed

lemma lexStep_token:
  assumes "lexStep i c cs = (Some t, r)"
  shows "\<exists>u. c # cs = u @ r \<and> u \<noteq> [] \<and> tk_start t = i \<and> tk_end t = i + length u \<and>
           (literalType (tk_type t) \<or> (tk_value t = u \<and> tk_quote t = None))"
  using assms by (rule lexStep_cases) (auto dest: push_spec)

lemma lexStep_skip: "lexStep i c cs = (None, r) \<Longrightarrow> suffix r cs"
  by (erule lexStep_cases) (auto dest: push_spec)

lemma lexStep_length: "lexStep i c cs = (t, r) \<Longrightarrow> length r < length (c # cs)"
proof (cases t)
  case None
  assume "lexStep i c cs = (t, r)"
  with None have "suffix r cs" by (simp add: lexStep_skip)
  then show ?thesis using suffix_length_le by fastforce
next
  case (Some tok)
  assume "lexStep i c cs = (t, r)"
  with Some obtain u where "c # cs = u @ r" "u \<noteq> []" by (blast dest: lexStep_token)
  then show ?thesis by (auto simp: Cons_eq_append_conv)
qed

section \<open>The token list\<close>

function tokenizeLoop :: "nat \<Rightarrow> jstr \<Rightarrow> Token list" where
  "tokenizeLoop i [] = []"
| "tokenizeLoop i (c # cs) =
     (case lexStep i c cs of (t, r) \<Rightarrow>
        (let ts = tokenizeLoop (i + (length (c # cs) - length r)) r
         in case t of None \<Rightarrow> ts | Some tok \<Rightarrow> tok # ts))"
  by pat_completeness auto
termination
proof (relation "measure (\<lambda>(i, s). length s)", simp, goal_cases)
  case (1 i c cs t r)
  then show ?case
    using lexStep_length [of i c cs t r] by simp
qed

declare tokenizeLoop.simps [simp del]

text \<open>The second pass: \<open>U&''..''\<close> literals, with the UESCAPE clause after them if there is one.\<close>

definition uescapeClause :: "Token list \<Rightarrow> int option" where
  "uescapeClause ts =
     (case ts of u # lit # _ \<Rightarrow>
        (if tk_type u = TWord \<and> tk_upper u = js ''UESCAPE'' \<and> tk_type lit = TString \<and> length (tk_value lit) = 1
         then Some (hd (tk_value lit)) else None)
      | _ \<Rightarrow> None)"

function resolveUnicode :: "Token list \<Rightarrow> Token list" where
  "resolveUnicode [] = []"
| "resolveUnicode (t # ts) =
     (if tk_quote t = Some QUnicode then
        (let esc = (case uescapeClause ts of Some e \<Rightarrow> e | None \<Rightarrow> BS);
             rest = (case uescapeClause ts of Some e \<Rightarrow> drop 2 ts | None \<Rightarrow> ts);
             v = decodeUnicode esc (tk_value t)
         in t\<lparr>tk_value := v, tk_upper := v\<rparr> # resolveUnicode rest)
      else t # resolveUnicode ts)"
  by pat_completeness auto
termination
  by (relation "measure length") (auto split: option.splits)

definition tokenize :: "jstr \<Rightarrow> Token list" where
  "tokenize sql = resolveUnicode (tokenizeLoop 0 sql)"


section \<open>Statements\<close>

record Statement =
  st_tokens :: "Token list"
  st_text :: jstr
  st_start :: nat
  st_end :: nat

definition isPunct :: "Token option \<Rightarrow> string \<Rightarrow> bool" where
  "isPunct t v = (case t of None \<Rightarrow> False | Some k \<Rightarrow> tk_type k = TPunct \<and> tk_value k = js v)"

definition isWord :: "Token option \<Rightarrow> string \<Rightarrow> bool" where
  "isWord t v = (case t of None \<Rightarrow> False | Some k \<Rightarrow> tk_type k = TWord \<and> tk_upper k = js v)"

definition flush :: "jstr \<Rightarrow> Token list \<Rightarrow> Statement list" where
  "flush sql current =
     (if current = [] then []
      else (let st = tk_start (hd current); en = tk_end (last current) in
            [\<lparr>st_tokens = current, st_text = slice sql st en, st_start = st, st_end = en\<rparr>]))"

text \<open>The loop of \<open>splitStatements\<close>: the tokens left, the statement so far and \<open>beginDepth\<close>.\<close>

fun splitLoop :: "jstr \<Rightarrow> Token list \<Rightarrow> Token list \<Rightarrow> nat \<Rightarrow> Statement list" where
  "splitLoop sql [] current beginDepth = flush sql current"
| "splitLoop sql (t # ts) current beginDepth =
     (if isPunct (Some t) '';'' \<and> beginDepth = 0
      then flush sql current @ splitLoop sql ts [] 0
      else
        (let beginDepth' =
           (if tk_type t = TWord \<and> isWord (nth_opt current 0) ''CREATE'' then
              (if tk_upper t = js ''BEGIN'' \<and> isWord (nth_opt ts 0) ''ATOMIC'' then Suc beginDepth
               else if tk_upper t = js ''CASE'' \<and> beginDepth > 0 then Suc beginDepth
               else if tk_upper t = js ''END'' \<and> beginDepth > 0 then beginDepth - 1
               else beginDepth)
            else beginDepth)
         in splitLoop sql ts (current @ [t]) beginDepth'))"

definition splitStatements :: "jstr \<Rightarrow> Statement list" where
  "splitStatements sql = splitLoop sql (tokenize sql) [] 0"

section \<open>Classification\<close>

datatype StatementKind = KSelect | KSelectWithDml | KDml | KOther

record StatementInfo =
  si_kind :: StatementKind
  hasTopLevelLimit :: bool

definition DML_WORDS :: "jstr list" where
  "DML_WORDS = [js ''INSERT'', js ''UPDATE'', js ''DELETE'', js ''MERGE'']"

definition SELECT_WORDS :: "jstr list" where
  "SELECT_WORDS = [js ''SELECT'', js ''VALUES'', js ''TABLE'']"

definition opens :: "Token \<Rightarrow> bool" where
  "opens t \<longleftrightarrow> isPunct (Some t) ''('' \<or> isPunct (Some t) ''[''"

definition closes :: "Token \<Rightarrow> bool" where
  "closes t \<longleftrightarrow> isPunct (Some t) '')'' \<or> isPunct (Some t) '']''"

text \<open>\<open>closingParen\<close> from index \<open>k\<close> at nesting \<open>depth\<close>.\<close>

function closingParenLoop :: "Token list \<Rightarrow> nat \<Rightarrow> int \<Rightarrow> nat" where
  "closingParenLoop ts k depth =
     (if k < length ts then
        (if opens (ts ! k) then closingParenLoop ts (Suc k) (depth + 1)
         else if closes (ts ! k) then
           (if depth - 1 = 0 then k else closingParenLoop ts (Suc k) (depth - 1))
         else closingParenLoop ts (Suc k) depth)
      else length ts)"
  by pat_completeness auto
termination
  by (relation "measure (\<lambda>(ts, k, depth). length ts - k)") auto

declare closingParenLoop.simps [simp del]

definition closingParen :: "Token list \<Rightarrow> nat \<Rightarrow> nat" where
  "closingParen ts k = closingParenLoop ts k 0"

fun leadingWord :: "Token list \<Rightarrow> Token option" where
  "leadingWord [] = None"
| "leadingWord (t # ts) =
     (if isPunct (Some t) ''('' then leadingWord ts
      else if tk_type t = TWord then Some t else None)"

text \<open>Words at nesting 0 of a token run; \<open>topLevelWords(tokens, from, to)\<close> runs over \<open>slice\<close>.\<close>

fun topLevelLoop :: "Token list \<Rightarrow> int \<Rightarrow> Token list" where
  "topLevelLoop [] depth = []"
| "topLevelLoop (t # ts) depth =
     (if opens t then topLevelLoop ts (depth + 1)
      else if closes t then topLevelLoop ts (depth - 1)
      else if depth = 0 \<and> tk_type t = TWord then t # topLevelLoop ts depth
      else topLevelLoop ts depth)"

definition topLevelWords :: "Token list \<Rightarrow> nat \<Rightarrow> nat \<Rightarrow> Token list" where
  "topLevelWords ts from to = topLevelLoop (slice ts from to) 0"

record WithParts =
  wp_primary :: nat
  wp_bodies :: "Token list list"

text \<open>\<open>while (k < tokens.length && !isWord(tokens[k], 'SET')) k++\<close>.\<close>

function skipToSet :: "Token list \<Rightarrow> nat \<Rightarrow> nat" where
  "skipToSet ts k =
     (if k < length ts \<and> \<not> isWord (nth_opt ts k) ''SET'' then skipToSet ts (Suc k) else k)"
  by pat_completeness auto
termination
  by (relation "measure (\<lambda>(ts, k). length ts - k)") auto

declare skipToSet.simps [simp del]

lemma skipToSet_ge: "k \<le> skipToSet ts k"
proof (induction ts k rule: skipToSet.induct)
  case (1 ts k)
  then show ?case by (subst skipToSet.simps) auto
qed

text \<open>The SEARCH and CYCLE clauses after a CTE body.\<close>

definition searchCycleStep :: "Token list \<Rightarrow> nat \<Rightarrow> nat" where
  "searchCycleStep ts k =
     (let k1 = skipToSet ts k + 2 in
      if isWord (nth_opt ts k) ''CYCLE'' then
        (let k2 = (if isWord (nth_opt ts k1) ''TO'' then k1 + 4 else k1)
         in if isWord (nth_opt ts k2) ''USING'' then k2 + 2 else k2)
      else k1)"

lemma searchCycleStep_gt: "k < searchCycleStep ts k"
  using skipToSet_ge [of k ts] by (auto simp: searchCycleStep_def Let_def)

function skipSearchCycle :: "Token list \<Rightarrow> nat \<Rightarrow> nat" where
  "skipSearchCycle ts k =
     (if isWord (nth_opt ts k) ''SEARCH'' \<or> isWord (nth_opt ts k) ''CYCLE''
      then skipSearchCycle ts (searchCycleStep ts k) else k)"
  by pat_completeness auto
termination
proof (relation "measure (\<lambda>(ts, k). length ts - k)", simp, goal_cases)
  case (1 ts k)
  then have "k < length ts"
    by (auto simp: isWord_def nth_opt_def split: option.splits if_splits)
  with searchCycleStep_gt [of k ts] show ?case by simp
qed

declare skipSearchCycle.simps [simp del]

lemma skipSearchCycle_ge: "k \<le> skipSearchCycle ts k"
proof (induction ts k rule: skipSearchCycle.induct)
  case (1 ts k)
  then show ?case
    using searchCycleStep_gt [of k ts] by (subst skipSearchCycle.simps) auto
qed

lemma closingParenLoop_ge: "k \<le> length ts \<Longrightarrow> k \<le> closingParenLoop ts k d \<and> closingParenLoop ts k d \<le> length ts"
proof (induction ts k d rule: closingParenLoop.induct)
  case (1 ts k d)
  then show ?case by (subst (1 2) closingParenLoop.simps) (auto simp: Let_def)
qed

lemma closingParen_bounds: "k \<le> length ts \<Longrightarrow> k \<le> closingParen ts k \<and> closingParen ts k \<le> length ts"
  by (simp add: closingParen_def closingParenLoop_ge)

text \<open>
  One CTE from index \<open>k\<close>: its body and the index after it, or \<open>None\<close> where the source returns
  null.
\<close>

definition skipColumnList :: "Token list \<Rightarrow> nat \<Rightarrow> nat" where
  "skipColumnList ts k = (if isPunct (nth_opt ts k) ''('' then closingParen ts k + 1 else k)"

definition skipMaterialized :: "Token list \<Rightarrow> nat \<Rightarrow> nat" where
  "skipMaterialized ts k =
     (let k' = (if isWord (nth_opt ts k) ''NOT'' then k + 1 else k)
      in if isWord (nth_opt ts k') ''MATERIALIZED'' then k' + 1 else k')"

definition parseCte :: "Token list \<Rightarrow> nat \<Rightarrow> (Token list \<times> nat) option" where
  "parseCte ts k =
     (case nth_opt ts k of None \<Rightarrow> None | Some t \<Rightarrow>
      if tk_type t \<noteq> TWord \<and> tk_type t \<noteq> TQident then None
      else (let k1 = skipColumnList ts (k + 1)
      in if \<not> isWord (nth_opt ts k1) ''AS'' then None
      else (let k2 = skipMaterialized ts (k1 + 1)
      in if \<not> isPunct (nth_opt ts k2) ''('' then None
      else (let close = closingParen ts k2
            in Some (slice ts (k2 + 1) close, skipSearchCycle ts (close + 1))))))"

lemma isPunct_lt: "isPunct (nth_opt ts k) v \<Longrightarrow> k < length ts"
  by (auto simp: isPunct_def nth_opt_def split: option.splits if_splits)

lemma skipColumnList_ge: "k \<le> skipColumnList ts k"
  using closingParen_bounds [of k ts] isPunct_lt [of ts k "''(''"]
  by (auto simp: skipColumnList_def)

lemma skipMaterialized_ge: "k \<le> skipMaterialized ts k"
  by (auto simp: skipMaterialized_def Let_def)

lemma parseCte_bounds:
  assumes "parseCte ts k = Some (body, k')"
  shows "k < length ts" "k < k'" "length body < length ts - k"
proof -
  from assms show k: "k < length ts"
    by (auto simp: parseCte_def nth_opt_def split: if_splits)
  let ?k1 = "skipColumnList ts (k + 1)" and ?k2 = "skipMaterialized ts (skipColumnList ts (k + 1) + 1)"
  from assms have p: "isPunct (nth_opt ts ?k2) ''(''"
    and body: "body = slice ts (?k2 + 1) (closingParen ts ?k2)"
    and k': "k' = skipSearchCycle ts (closingParen ts ?k2 + 1)"
    by (auto simp: parseCte_def Let_def split: option.splits if_splits)
  have k2: "k < ?k2"
    using skipColumnList_ge [of "k + 1" ts] skipMaterialized_ge [of "?k1 + 1" ts] by linarith
  from p have l: "?k2 < length ts" by (rule isPunct_lt)
  then have c: "?k2 \<le> closingParen ts ?k2" "closingParen ts ?k2 \<le> length ts"
    using closingParen_bounds [of ?k2 ts] by auto
  with k' k2 show "k < k'"
    using skipSearchCycle_ge [of "closingParen ts ?k2 + 1" ts] by linarith
  from body c k2 l show "length body < length ts - k"
    by (auto simp: slice_def)
qed

function parseWithLoop :: "Token list \<Rightarrow> nat \<Rightarrow> Token list list \<Rightarrow> WithParts option" where
  "parseWithLoop ts k bodies =
     (case parseCte ts k of None \<Rightarrow> None
      | Some (body, k') \<Rightarrow>
          if isPunct (nth_opt ts k') '','' then parseWithLoop ts (k' + 1) (bodies @ [body])
          else Some \<lparr>wp_primary = k', wp_bodies = bodies @ [body]\<rparr>)"
  by pat_completeness auto
termination
proof (relation "measure (\<lambda>(ts, k, bodies). length ts - k)", simp, goal_cases)
  case (1 ts k bodies x body k')
  then show ?case using parseCte_bounds [of ts k body k'] by auto
qed

declare parseWithLoop.simps [simp del]

definition parseWith :: "Token list \<Rightarrow> WithParts option" where
  "parseWith ts = parseWithLoop ts (if isWord (nth_opt ts 1) ''RECURSIVE'' then 2 else 1) []"

lemma parseWithLoop_bounds:
  assumes "parseWithLoop ts k bs = Some wp" "\<And>b. b \<in> set bs \<Longrightarrow> length b < length ts"
  shows "k < wp_primary wp \<and> k < length ts \<and> (\<forall>b\<in>set (wp_bodies wp). length b < length ts)"
  using assms
proof (induction ts k bs rule: parseWithLoop.induct)
  case (1 ts k bs)
  from "1.prems"(1) obtain body k' where c: "parseCte ts k = Some (body, k')"
    by (subst (asm) parseWithLoop.simps) (auto split: option.splits)
  note b = parseCte_bounds [OF c]
  show ?case
  proof (cases "isPunct (nth_opt ts k') '',''")
    case True
    with "1.prems"(1) c have "parseWithLoop ts (k' + 1) (bs @ [body]) = Some wp"
      by (subst (asm) parseWithLoop.simps) simp
    with "1.IH" [OF c refl True] "1.prems"(2) b show ?thesis by fastforce
  next
    case False
    with "1.prems"(1) c have "wp = \<lparr>wp_primary = k', wp_bodies = bs @ [body]\<rparr>"
      by (subst (asm) parseWithLoop.simps) simp
    with "1.prems"(2) b show ?thesis by auto
  qed
qed

lemma parseWith_bounds:
  assumes "parseWith ts = Some wp"
  shows "0 < wp_primary wp \<and> ts \<noteq> [] \<and> (\<forall>b\<in>set (wp_bodies wp). length b < length ts)"
proof -
  from assms obtain k where "parseWithLoop ts k [] = Some wp" by (auto simp: parseWith_def)
  then have "k < wp_primary wp \<and> k < length ts \<and> (\<forall>b\<in>set (wp_bodies wp). length b < length ts)"
    using parseWithLoop_bounds [of ts k "[]" wp] by simp
  then show ?thesis by auto
qed

lemma length_dropWhile_less: "length (drop n (dropWhile P xs)) \<le> length xs - n"
  using length_dropWhile_le [of P xs] by simp

text \<open>\<open>start\<close> is the index of the leading word, the first token that is no opening parenthesis.\<close>

function modifiesData :: "Token list \<Rightarrow> bool" where
  "modifiesData ts =
     (case leadingWord ts of None \<Rightarrow> False
      | Some first \<Rightarrow>
          if tk_upper first \<in> set DML_WORDS then True
          else if tk_upper first = js ''WITH'' then
            (let run = dropWhile (\<lambda>t. isPunct (Some t) ''('') ts in
             case parseWith run of None \<Rightarrow> True
             | Some parts \<Rightarrow>
                 list_ex modifiesData (wp_bodies parts) \<or> modifiesData (drop (wp_primary parts) run))
          else False)"
  by pat_completeness auto
termination
proof (relation "measure length", simp, goal_cases)
  case (1 ts w run parts b)
  then have "length b < length run" "length run \<le> length ts"
    using parseWith_bounds [of run parts] length_dropWhile_le [of _ ts] by auto
  then show ?case by simp
next
  case (2 ts w run parts)
  then have "0 < wp_primary parts" "run \<noteq> []" "length run \<le> length ts"
    using parseWith_bounds [of run parts] length_dropWhile_le [of _ ts] by auto
  then show ?case by (cases run) auto
qed

declare modifiesData.simps [simp del]

definition hasLimitAtTop :: "Token list \<Rightarrow> nat \<Rightarrow> bool" where
  "hasLimitAtTop ts from =
     list_ex (\<lambda>w. tk_upper w = js ''LIMIT'' \<or> tk_upper w = js ''OFFSET'' \<or> tk_upper w = js ''FETCH'')
       (topLevelWords ts from (length ts))"

definition hasIntoAtTop :: "Token list \<Rightarrow> nat \<Rightarrow> bool" where
  "hasIntoAtTop ts from = list_ex (\<lambda>w. tk_upper w = js ''INTO'') (topLevelWords ts from (length ts))"

abbreviation leadIn :: "Token option \<Rightarrow> jstr list \<Rightarrow> bool" where
  "leadIn lead ws \<equiv> (case lead of None \<Rightarrow> False | Some w \<Rightarrow> tk_upper w \<in> set ws)"

definition otherInfo :: StatementInfo where
  "otherInfo = \<lparr>si_kind = KOther, hasTopLevelLimit = False\<rparr>"

text \<open>\<open>lead === first\<close> holds when the first token is itself the leading word.\<close>

definition classifyStatement :: "Token list \<Rightarrow> StatementInfo" where
  "classifyStatement ts =
    (case ts of [] \<Rightarrow> otherInfo | first # _ \<Rightarrow>
     if tk_type first = TWord \<and> tk_upper first = js ''WITH'' then
       (case parseWith ts of None \<Rightarrow> otherInfo
        | Some parts \<Rightarrow>
            (let primary = drop (wp_primary parts) ts;
                 lead = leadingWord primary;
                 cteWrites = list_ex modifiesData (wp_bodies parts)
             in if leadIn lead DML_WORDS then \<lparr>si_kind = KDml, hasTopLevelLimit = False\<rparr>
             else (let selectPrimary = leadIn lead SELECT_WORDS \<or> isPunct (nth_opt primary 0) ''(''
             in if \<not> selectPrimary \<or> hasIntoAtTop ts (wp_primary parts) then otherInfo
             else \<lparr>si_kind = (if cteWrites then KSelectWithDml else KSelect),
                    hasTopLevelLimit = hasLimitAtTop ts (wp_primary parts)\<rparr>)))
     else
       (let lead = leadingWord ts in
        if leadIn lead DML_WORDS \<and> \<not> isPunct (Some first) ''('' then \<lparr>si_kind = KDml, hasTopLevelLimit = False\<rparr>
        else if leadIn lead SELECT_WORDS \<or> (leadIn lead [js ''WITH''] \<and> isPunct (Some first) ''('') then
          (if hasIntoAtTop ts 0 then otherInfo
           else if leadIn lead [js ''WITH''] \<and> modifiesData ts then otherInfo
           else \<lparr>si_kind = KSelect, hasTopLevelLimit = hasLimitAtTop ts 0\<rparr>)
        else otherInfo))"

end
