(* ===== verification/SqlTokens.thy ===== *)
theory SqlTokens
  imports SqlLexer
begin

text \<open>
  What the SQL lexer guarantees: tokens cover the text in order and carry its text, comments are
  invisible, a quoted literal never lets its content out, splitting into statements loses nothing
  but the separators, and a statement classified as a plain select writes nothing.
\<close>

section \<open>Spans and text\<close>

fun spans :: "nat \<Rightarrow> nat \<Rightarrow> Token list \<Rightarrow> bool" where
  "spans lo hi [] \<longleftrightarrow> lo \<le> hi"
| "spans lo hi (t # ts) \<longleftrightarrow> lo \<le> tk_start t \<and> tk_start t < tk_end t \<and> spans (tk_end t) hi ts"

definition carriesText :: "jstr \<Rightarrow> Token \<Rightarrow> bool" where
  "carriesText sql t \<longleftrightarrow> literalType (tk_type t) \<or> tk_value t = slice sql (tk_start t) (tk_end t)"

lemma spans_mono: "spans lo hi ts \<Longrightarrow> lo' \<le> lo \<Longrightarrow> spans lo' hi ts"
  by (cases ts) auto

lemma spans_tl: "spans lo hi (t # ts) \<Longrightarrow> spans lo hi ts"
  by (auto intro: spans_mono)

lemma tokenizeLoop_token:
  assumes "lexStep i c cs = (Some t, r)"
  shows "tokenizeLoop i (c # cs) = t # tokenizeLoop (tk_end t) r"
proof -
  from lexStep_token [OF assms] obtain u where u: "c # cs = u @ r" "tk_end t = i + length u" by blast
  then have "length (c # cs) - length r = length u" by (metis add_diff_cancel_right' length_append)
  with u(2) assms show ?thesis by (simp add: tokenizeLoop.simps)
qed

lemma tokenizeLoop_skip:
  assumes "lexStep i c cs = (None, r)"
  shows "tokenizeLoop i (c # cs) = tokenizeLoop (i + (length (c # cs) - length r)) r"
  using assms by (simp add: tokenizeLoop.simps)

lemma tokenizeLoop_Nil [simp]: "tokenizeLoop i [] = []"
  by (simp add: tokenizeLoop.simps)

text \<open>Induction over the loop: end of text, a skipped blank, a token.\<close>

lemma tokenizeLoop_induct [case_names Nil skip token]:
  assumes "\<And>i. P i []"
    and "\<And>i s u r. s = u @ r \<Longrightarrow> u \<noteq> [] \<Longrightarrow> tokenizeLoop i s = tokenizeLoop (i + length u) r \<Longrightarrow>
           P (i + length u) r \<Longrightarrow> P i s"
    and "\<And>i s t u r c cs. s = u @ r \<Longrightarrow> u \<noteq> [] \<Longrightarrow> tk_start t = i \<Longrightarrow> tk_end t = i + length u \<Longrightarrow>
           literalType (tk_type t) \<or> (tk_value t = u \<and> tk_quote t = None) \<Longrightarrow>
           s = c # cs \<Longrightarrow> lexStep i c cs = (Some t, r) \<Longrightarrow>
           tokenizeLoop i s = t # tokenizeLoop (i + length u) r \<Longrightarrow> P (i + length u) r \<Longrightarrow> P i s"
  shows "P i s"
proof (induction "length s" arbitrary: i s rule: less_induct)
  case less
  show ?case
  proof (cases s)
    case Nil
    with assms(1) show ?thesis by simp
  next
    case (Cons c cs)
    obtain t r where st: "lexStep i c cs = (t, r)" by (cases "lexStep i c cs")
    have len: "length r < length s" using lexStep_length [OF st] Cons by simp
    show ?thesis
    proof (cases t)
      case None
      with st obtain u where u: "cs = u @ r" using lexStep_skip [of i c cs r] by (auto simp: suffix_def)
      have "tokenizeLoop i s = tokenizeLoop (i + length (c # u)) r"
        using tokenizeLoop_skip [of i c cs r] st None Cons u by simp
      then show ?thesis
        using assms(2) [of s "c # u" r i] less [OF len] Cons u by simp
    next
      case (Some tok)
      with st lexStep_token obtain u where
        u: "c # cs = u @ r" "u \<noteq> []" "tk_start tok = i" "tk_end tok = i + length u"
          "literalType (tk_type tok) \<or> (tk_value tok = u \<and> tk_quote tok = None)" by metis
      have "tokenizeLoop i s = tok # tokenizeLoop (i + length u) r"
        using tokenizeLoop_token [of i c cs tok r] st Some Cons u(4) by simp
      then show ?thesis
        using assms(3) [of s u r tok i c cs] less [OF len] Cons u st Some by simp
    qed
  qed
qed

lemma tokenizeLoop_spans: "spans i (i + length s) (tokenizeLoop i s)"
proof (induction i s rule: tokenizeLoop_induct)
  case (Nil i)
  then show ?case by simp
next
  case (skip i s u r)
  then show ?case by (auto intro: spans_mono simp: add.assoc)
next
  case (token i s t u r c cs)
  then show ?case by (auto simp: add.assoc)
qed

lemma slice_shift: "i \<le> a \<Longrightarrow> slice (u @ r) (a + length u - i) (b + length u - i) = slice r (a - i) (b - i)"
  by (cases "b \<ge> i") (auto simp: slice_def)

lemma tokenizeLoop_text:
  "t \<in> set (tokenizeLoop i s) \<Longrightarrow>
     i \<le> tk_start t \<and> (literalType (tk_type t) \<or>
       (tk_quote t = None \<and> tk_value t = slice s (tk_start t - i) (tk_end t - i)))"
proof (induction i s rule: tokenizeLoop_induct)
  case (Nil i)
  then show ?case by simp
next
  case (skip i s u r)
  then have h: "i + length u \<le> tk_start t" "literalType (tk_type t) \<or>
       (tk_quote t = None \<and> tk_value t = slice r (tk_start t - (i + length u)) (tk_end t - (i + length u)))" by auto
  have "slice s (tk_start t - i) (tk_end t - i) = slice r (tk_start t - (i + length u)) (tk_end t - (i + length u))"
    using skip.hyps h(1) by (auto simp: slice_def)
  with h show ?case by auto
next
  case (token i s t' u r c cs)
  show ?case
  proof (cases "t = t'")
    case True
    with token.hyps show ?thesis by (auto simp: slice_def)
  next
    case False
    with token have h: "i + length u \<le> tk_start t" "literalType (tk_type t) \<or>
       (tk_quote t = None \<and> tk_value t = slice r (tk_start t - (i + length u)) (tk_end t - (i + length u)))" by auto
    have "slice s (tk_start t - i) (tk_end t - i) = slice r (tk_start t - (i + length u)) (tk_end t - (i + length u))"
      using token.hyps h(1) by (auto simp: slice_def)
    with h show ?thesis by auto
  qed
qed

lemma resolveUnicode_spans: "spans lo hi ts \<Longrightarrow> spans lo hi (resolveUnicode ts)"
proof (induction ts arbitrary: lo rule: resolveUnicode.induct)
  case 1
  then show ?case by simp
next
  case (2 t ts)
  have d: "spans l hi ts \<Longrightarrow> spans l hi (drop 2 ts)" for l
    by (cases ts rule: remdups_adj.cases) (auto intro: spans_mono)
  from 2 d show ?case
    by (auto simp: Let_def split: option.splits)
qed

lemma resolveUnicode_elem:
  "t \<in> set (resolveUnicode ts) \<Longrightarrow>
     \<exists>t'\<in>set ts. tk_type t' = tk_type t \<and> tk_quote t' = tk_quote t \<and> (tk_quote t = Some QUnicode \<or> t' = t)"
proof (induction ts rule: resolveUnicode.induct)
  case 1
  then show ?case by simp
next
  case (2 t' ts)
  define esc where "esc = (case uescapeClause ts of Some e \<Rightarrow> e | None \<Rightarrow> BS)"
  define rest where "rest = (case uescapeClause ts of Some e \<Rightarrow> drop 2 ts | None \<Rightarrow> ts)"
  have sub: "set rest \<subseteq> set ts" by (auto simp: rest_def split: option.splits dest: in_set_dropD)
  show ?case
  proof (cases "tk_quote t' = Some QUnicode")
    case True
    note IH = "2.IH"(1) [OF True esc_def rest_def refl]
    from True "2.prems" have
      "t = t'\<lparr>tk_value := decodeUnicode esc (tk_value t'), tk_upper := decodeUnicode esc (tk_value t')\<rparr>
       \<or> t \<in> set (resolveUnicode rest)"
      by (simp add: Let_def esc_def rest_def)
    then show ?thesis
    proof
      assume "t \<in> set (resolveUnicode rest)"
      from IH [OF this] sub show ?thesis by auto
    qed (use True in auto)
  next
    case False
    with "2.prems" "2.IH"(2) show ?thesis by auto
  qed
qed


section \<open>Positions shift with the text\<close>

definition shift :: "nat \<Rightarrow> Token \<Rightarrow> Token" where
  "shift d t = t\<lparr>tk_start := tk_start t + d, tk_end := tk_end t + d\<rparr>"

lemma shift_sel [simp]:
  "tk_type (shift d t) = tk_type t" "tk_value (shift d t) = tk_value t" "tk_upper (shift d t) = tk_upper t"
  "tk_quote (shift d t) = tk_quote t" "tk_start (shift d t) = tk_start t + d" "tk_end (shift d t) = tk_end t + d"
  by (simp_all add: shift_def)

lemma shift_value [simp]:
  "shift d (t\<lparr>tk_value := v, tk_upper := w\<rparr>) = (shift d t)\<lparr>tk_value := v, tk_upper := w\<rparr>"
  by (simp add: shift_def)

lemma push_shift: "push (i + d) s l = apfst (map_option (shift d)) (push i s l)"
  by (cases l) (simp add: push_def shift_def)

lemma lexStep_shift: "lexStep (i + d) c cs = apfst (map_option (shift d)) (lexStep i c cs)"
  by (simp add: lexStep_def push_shift split: option.splits)

lemma tokenizeLoop_shift: "tokenizeLoop (i + d) s = map (shift d) (tokenizeLoop i s)"
proof (induction i s rule: tokenizeLoop.induct)
  case (1 i)
  then show ?case by simp
next
  case (2 i c cs)
  obtain t r where st: "lexStep i c cs = (t, r)" by (cases "lexStep i c cs")
  have eq: "i + d + (length (c # cs) - length r) = i + (length (c # cs) - length r) + d" by simp
  from "2.IH" [OF st [symmetric]] st show ?case
    by (cases t) (simp_all only: tokenizeLoop.simps lexStep_shift eq apfst_conv prod.case Let_def
      option.case option.map list.map)
qed

lemma uescapeClause_shift: "uescapeClause (map (shift d) ts) = uescapeClause ts"
  by (cases ts rule: remdups_adj.cases) (auto simp: uescapeClause_def)

lemma resolveUnicode_shift: "resolveUnicode (map (shift d) ts) = map (shift d) (resolveUnicode ts)"
proof (induction ts rule: resolveUnicode.induct)
  case 1
  then show ?case by simp
next
  case (2 t ts)
  show ?case
  proof (cases "tk_quote t = Some QUnicode")
    case True
    with "2.IH"(1) [OF True refl refl refl] show ?thesis
      by (cases "uescapeClause ts") (simp_all add: uescapeClause_shift Let_def drop_map)
  next
    case False
    with "2.IH"(2) show ?thesis by simp
  qed
qed

lemma tokenize_loop_at: "resolveUnicode (tokenizeLoop n s) = map (shift n) (tokenize s)"
  using tokenizeLoop_shift [of 0 n s] by (simp add: tokenize_def resolveUnicode_shift)

section \<open>Comments are invisible\<close>

text \<open>The text of a block comment after its opening \<open>/*\<close>, up to and with the matching close.\<close>

inductive commentTail :: "jstr \<Rightarrow> bool" where
  close: "commentTail (js ''*/'')"
| nest: "commentTail u \<Longrightarrow> commentTail v \<Longrightarrow> commentTail (js ''/*'' @ u @ v)"
| plain: "commentTail v \<Longrightarrow> \<not> starts_with (js ''/*'') (c # v) \<Longrightarrow> \<not> starts_with (js ''*/'') (c # v) \<Longrightarrow>
    commentTail (c # v)"

lemma commentTail_nonempty: "commentTail u \<Longrightarrow> u \<noteq> []"
  by (induction rule: commentTail.induct) auto

lemma skipBlock_commentTail: "commentTail u \<Longrightarrow> skipBlock (Suc d) (u @ s) = skipBlock d s"
proof (induction u arbitrary: d s rule: commentTail.induct)
  case close
  then show ?case by simp
next
  case (nest u v)
  then show ?case by simp
next
  case (plain v c)
  then obtain b w where v: "v = b # w" using commentTail_nonempty by (cases v) auto
  with plain show ?case by (auto simp: starts_with_def)
qed

lemma skipComment_block: "commentTail u \<Longrightarrow> skipComment (js ''/*'' @ u @ s) = Some s"
  using skipBlock_commentTail [of u 0 s] by (simp add: skipComment_def)

lemma tokenizeLoop_comment:
  assumes "commentTail u"
  shows "tokenizeLoop i (js ''/*'' @ u @ s) = tokenizeLoop (i + (2 + length u)) s"
  using skipComment_block [OF assms, of s]
  by (subst js_Cons) (simp add: tokenizeLoop.simps lexStep_def is_js_space_def)

text \<open>Words, as the lexer reads them.\<close>

definition wordText :: "jstr \<Rightarrow> bool" where
  "wordText w = (case w of [] \<Rightarrow> False | c # cs \<Rightarrow> isWordStart c \<and> list_all isWordChar cs)"

definition wordTok :: "nat \<Rightarrow> jstr \<Rightarrow> Token" where
  "wordTok i w = \<lparr>tk_type = TWord, tk_value = w, tk_upper = js_upper w, tk_start = i,
     tk_end = i + length w, tk_quote = None\<rparr>"

lemma isWordChar_not:
  "isWordChar c \<Longrightarrow> c \<noteq> SQ \<and> c \<noteq> DQ \<and> c \<noteq> ch CHR ''&''"
  by (auto simp: isWordChar_def is_alpha_def is_digit_def)

lemma isWordStart_not:
  "isWordStart c \<Longrightarrow> c \<noteq> SQ \<and> c \<noteq> DQ \<and> c \<noteq> ch CHR ''$'' \<and> c \<noteq> ch CHR ''-'' \<and> c \<noteq> ch CHR ''/''"
  by (auto simp: isWordStart_def is_alpha_def)

text \<open>A word followed by a character that is no word character, no quote and no \<open>&\<close>.\<close>

definition breaksWord :: "int \<Rightarrow> bool" where
  "breaksWord c \<longleftrightarrow> \<not> isWordChar c \<and> c \<noteq> SQ \<and> c \<noteq> DQ \<and> c \<noteq> ch CHR ''&''"

lemma lexStep_word:
  assumes "wordText w" "r = [] \<or> breaksWord (hd r)" "\<not> is_js_space (hd w)"
  shows "lexStep i (hd w) (tl w @ r) = (Some (wordTok i w), r)"
proof -
  obtain c cs where w: "w = c # cs" and c: "isWordStart c" and cs: "list_all isWordChar cs"
    using assms(1) by (auto simp: wordText_def split: list.splits)
  have nx: "nth_opt (cs @ r) 0 \<noteq> Some SQ \<and> nth_opt (cs @ r) 0 \<noteq> Some (ch CHR ''&'')"
    using cs assms(2) isWordChar_not by (cases cs; cases r) (auto simp: breaksWord_def)
  have tw: "takeWhile isWordChar (cs @ r) = cs" "dropWhile isWordChar (cs @ r) = r"
    using cs assms(2) by (cases r; simp add: list_all_iff breaksWord_def takeWhile_append2 dropWhile_append2)+
  note d = isWordStart_not [OF c]
  have 1: "skipComment (c # cs @ r) = None" using d by (simp add: skipComment_def)
  have 2: "lexPrefixed c (cs @ r) = None" using nx by (simp add: lexPrefixed_def)
  have 3: "lexQuoted c (cs @ r) = None" using d by (simp add: lexQuoted_def)
  have 4: "lexDollar c (cs @ r) = None" using d by (simp add: lexDollar_def dollarDelim_def Let_def)
  have 5: "lexPlain c (cs @ r) = (TWord, w, None, r)" using c tw w by (simp add: lexPlain_def)
  show ?thesis using assms(3) w 1 2 3 4 5 by (simp add: lexStep_def push_def wordTok_def)
qed

text \<open>A space of the language is a word start only above 127; ASCII words have none.\<close>

lemma wordStart_space: "isWordStart c \<Longrightarrow> c < 128 \<Longrightarrow> \<not> is_js_space c"
  by (auto simp: isWordStart_def is_js_space_def is_alpha_def)

lemma tokenizeLoop_word:
  assumes "wordText w" "hd w < 128" "r = [] \<or> breaksWord (hd r)"
  shows "tokenizeLoop i (w @ r) = wordTok i w # tokenizeLoop (i + length w) r"
proof -
  have c: "isWordStart (hd w)" "w \<noteq> []" using assms(1) by (auto simp: wordText_def split: list.splits)
  have "lexStep i (hd w) (tl w @ r) = (Some (wordTok i w), r)"
    using assms c by (intro lexStep_word wordStart_space) auto
  then have "tokenizeLoop i (hd w # tl w @ r) = wordTok i w # tokenizeLoop (tk_end (wordTok i w)) r"
    by (rule tokenizeLoop_token)
  moreover have "tokenizeLoop i (hd w # tl w @ r) = tokenizeLoop i (w @ r)" using c by (cases w) auto
  ultimately show ?thesis by (simp add: wordTok_def)
qed

lemma tokenize_commented_words:
  assumes "wordText w1" "hd w1 < 128" "wordText w2" "hd w2 < 128" "commentTail u"
  shows "tokenize (w1 @ js ''/*'' @ u @ w2) = [wordTok 0 w1, wordTok (length w1 + (2 + length u)) w2]"
proof -
  have b: "js ''/*'' @ u @ w2 = [] \<or> breaksWord (hd (js ''/*'' @ u @ w2))"
    by (simp add: breaksWord_def isWordChar_def is_alpha_def is_digit_def)
  have "tokenizeLoop 0 (w1 @ js ''/*'' @ u @ w2) =
      [wordTok 0 w1, wordTok (length w1 + (2 + length u)) w2]"
    using tokenizeLoop_word [OF assms(1,2) b, of 0] tokenizeLoop_comment [OF assms(5), of "length w1" w2]
      tokenizeLoop_word [OF assms(3,4), of "[]"] by simp
  then show ?thesis by (simp add: tokenize_def wordTok_def)
qed

text \<open>
  C2.  A keyword pair split by a block comment, however deeply nested, is still the same pair of
  keywords: the comment leaves no token and glues nothing together.
\<close>

theorem comment_does_not_hide_keywords:
  assumes "wordText w1" "hd w1 < 128" "wordText w2" "hd w2 < 128" "commentTail u"
  shows "map tk_upper (tokenize (w1 @ js ''/*'' @ u @ w2)) = [js_upper w1, js_upper w2]"
  by (simp only: tokenize_commented_words [OF assms]) (simp add: wordTok_def)

theorem comment_does_not_hide_keywords_witness:
  "map tk_upper (tokenize (js ''DROP'' @ js ''/*'' @ (js ''/*'' @ js ''*/'' @ js ''*/'') @ js ''DATABASE'')) =
     [js ''DROP'', js ''DATABASE'']"
proof -
  have "commentTail (js ''/*'' @ js ''*/'' @ js ''*/'')"
    by (intro commentTail.nest commentTail.close)
  moreover have "wordText (js ''DROP'')" "hd (js ''DROP'') < 128"
    "wordText (js ''DATABASE'')" "hd (js ''DATABASE'') < 128" by code_simp+
  moreover have "js_upper (js ''DROP'') = js ''DROP''" "js_upper (js ''DATABASE'') = js ''DATABASE''"
    by code_simp+
  ultimately show ?thesis
    using comment_does_not_hide_keywords [of "js ''DROP''" "js ''DATABASE''"] by metis
qed

section \<open>Quoted literals\<close>

text \<open>The text of a literal with content \<open>v\<close>: every quote of the content is doubled.\<close>

definition doubled :: "int \<Rightarrow> jstr \<Rightarrow> jstr" where
  "doubled q v = concat (map (\<lambda>c. if c = q then [q, q] else [c]) v)"

lemma doubled_simps [simp]:
  "doubled q [] = []" "doubled q (c # v) = (if c = q then [q, q] else [c]) @ doubled q v"
  by (simp_all add: doubled_def)

lemma undouble_other: "a \<noteq> q \<Longrightarrow> undouble q (a # s) = a # undouble q s"
  by (cases s) auto

lemma undouble_doubled: "undouble q (doubled q v) = v"
  by (induction v) (auto simp: undouble_other)

lemma readQuoted_other: "a \<noteq> q \<Longrightarrow> readQuoted False q (a # s) = apfst (Cons a) (readQuoted False q s)"
  by (cases s) (auto simp: case_prod_unfold prod_eq_iff Let_def)

lemma readQuoted_doubled:
  "r = [] \<or> hd r \<noteq> q \<Longrightarrow> readQuoted False q (doubled q v @ q # r) = (doubled q v, r)"
proof (induction v)
  case Nil
  then show ?case by (cases r) auto
next
  case (Cons c v)
  then show ?case by (simp add: readQuoted_other)
qed

definition quotedTok :: "nat \<Rightarrow> int \<Rightarrow> jstr \<Rightarrow> Token" where
  "quotedTok i q v =
     \<lparr>tk_type = (if q = SQ then TString else TQident), tk_value = v, tk_upper = v, tk_start = i,
      tk_end = i + (length (doubled q v) + 2), tk_quote = (if q = SQ then Some QStandard else None)\<rparr>"

lemma lexStep_quoted:
  assumes "q = SQ \<or> q = DQ" "r = [] \<or> hd r \<noteq> q"
  shows "lexStep i q (doubled q v @ q # r) = (Some (quotedTok i q v), r)"
proof -
  note rq = readQuoted_doubled [OF assms(2), of v]
  have 1: "\<not> is_js_space q" using assms(1) by (auto simp: is_js_space_def)
  have 2: "skipComment (q # doubled q v @ q # r) = None" using assms(1) by (auto simp: skipComment_def)
  have 3: "lexPrefixed q (doubled q v @ q # r) = None" using assms(1) by (auto simp: lexPrefixed_def)
  have 4: "lexQuoted q (doubled q v @ q # r) =
      Some (if q = SQ then TString else TQident, v, if q = SQ then Some QStandard else None, r)"
    using assms(1) rq by (auto simp: lexQuoted_def undouble_doubled)
  show ?thesis using 1 2 3 4 by (simp add: lexStep_def push_def quotedTok_def)
qed

lemma tokenizeLoop_quoted:
  assumes "q = SQ \<or> q = DQ" "r = [] \<or> hd r \<noteq> q"
  shows "tokenizeLoop i (q # doubled q v @ q # r) =
     quotedTok i q v # tokenizeLoop (i + (length (doubled q v) + 2)) r"
  using tokenizeLoop_token [OF lexStep_quoted [OF assms]] by (simp add: quotedTok_def)

text \<open>
  Content written between quotes with its quotes doubled is read back as one token with
  exactly that content, whatever the content is, and the text after it is tokenized as if it stood
  alone: nothing in a quoted literal or a quoted identifier can break out of it.
\<close>

theorem quoted_content_round_trip:
  assumes "q = SQ \<or> q = DQ" "r = [] \<or> hd r \<noteq> q"
  shows "tokenize (q # doubled q v @ q # r) =
     quotedTok 0 q v # map (shift (length (doubled q v) + 2)) (tokenize r)"
proof -
  have "tk_quote (quotedTok 0 q v) \<noteq> Some QUnicode" by (simp add: quotedTok_def)
  then show ?thesis
    using tokenizeLoop_quoted [OF assms, of 0 v] tokenize_loop_at [of "length (doubled q v) + 2" r]
    by (simp add: tokenize_def)
qed

theorem quoted_content_round_trip_witness:
  "map tk_value (tokenize (SQ # doubled SQ (js ''a'' @ SQ # js ''; DROP DATABASE b --'') @ SQ # js ''::text'')) =
     [js ''a'' @ SQ # js ''; DROP DATABASE b --'', js '':'', js '':'', js ''text'']"
proof -
  let ?v = "js ''a'' @ SQ # js ''; DROP DATABASE b --''"
  have "map tk_value (tokenize (js ''::text'')) = [js '':'', js '':'', js ''text'']" by code_simp
  moreover have "map (\<lambda>t. tk_value (shift n t)) ts = map tk_value ts" for n ts by simp
  ultimately show ?thesis
    using quoted_content_round_trip [of SQ "js ''::text''" ?v]
    by (simp add: quotedTok_def o_def)
qed

section \<open>Statement splitting\<close>

lemma splitLoop_keeps:
  "filter (\<lambda>t. \<not> isPunct (Some t) '';'') (concat (map st_tokens (splitLoop sql ts cur d))) =
     filter (\<lambda>t. \<not> isPunct (Some t) '';'') (cur @ ts)"
proof (induction sql ts cur d rule: splitLoop.induct)
  case (1 sql cur d)
  then show ?case by (auto simp: flush_def Let_def)
next
  case (2 sql t ts cur d)
  show ?case
  proof (cases "isPunct (Some t) '';'' \<and> d = 0")
    case True
    with "2.IH"(1) [OF True] show ?thesis by (auto simp: flush_def Let_def)
  next
    case False
    from "2.IH"(2) [OF False refl] False show ?thesis by (simp only: splitLoop.simps Let_def if_False) simp
  qed
qed

definition statementOf :: "jstr \<Rightarrow> Statement \<Rightarrow> bool" where
  "statementOf sql st \<longleftrightarrow>
     st_tokens st \<noteq> [] \<and> st_start st = tk_start (hd (st_tokens st)) \<and> st_end st = tk_end (last (st_tokens st)) \<and>
     st_text st = slice sql (st_start st) (st_end st) \<and>
     (isWord (Some (hd (st_tokens st))) ''CREATE'' \<or> list_all (\<lambda>t. \<not> isPunct (Some t) '';'') (st_tokens st))"

definition openRun :: "Token list \<Rightarrow> nat \<Rightarrow> bool" where
  "openRun cur d \<longleftrightarrow>
     (d > 0 \<longrightarrow> isWord (nth_opt cur 0) ''CREATE'') \<and>
     (isWord (nth_opt cur 0) ''CREATE'' \<or> list_all (\<lambda>t. \<not> isPunct (Some t) '';'') cur)"

lemma flush_statementOf: "openRun cur d \<Longrightarrow> list_all (statementOf sql) (flush sql cur)"
  by (cases cur) (auto simp: flush_def Let_def openRun_def statementOf_def)

lemma splitLoop_statementOf: "openRun cur d \<Longrightarrow> list_all (statementOf sql) (splitLoop sql ts cur d)"
proof (induction sql ts cur d rule: splitLoop.induct)
  case (1 sql cur d)
  then show ?case by (simp add: flush_statementOf)
next
  case (2 sql t ts cur d)
  show ?case
  proof (cases "isPunct (Some t) '';'' \<and> d = 0")
    case True
    have "openRun [] 0" by (simp add: openRun_def)
    with True "2.IH"(1) [OF True] "2.prems" flush_statementOf [of cur d sql] show ?thesis by simp
  next
    case False
    let ?d = "if tk_type t = TWord \<and> isWord (nth_opt cur 0) ''CREATE'' then
              (if tk_upper t = js ''BEGIN'' \<and> isWord (nth_opt ts 0) ''ATOMIC'' then Suc d
               else if tk_upper t = js ''CASE'' \<and> d > 0 then Suc d
               else if tk_upper t = js ''END'' \<and> d > 0 then d - 1 else d) else d"
    have "openRun (cur @ [t]) ?d"
      using "2.prems" False by (cases cur) (auto simp: openRun_def isWord_def split: if_splits)
    from "2.IH"(2) [OF False refl this] False show ?thesis by (simp only: splitLoop.simps Let_def if_False)
  qed
qed

text \<open>
  Splitting loses only separators: the statements together hold every token of the text other
  than semicolons, in order; no statement is empty, each knows its own text and span, and only a
  statement that begins with CREATE (a SQL-standard function body) may keep a semicolon inside.
\<close>

theorem splitStatements_keeps_everything:
  "filter (\<lambda>t. \<not> isPunct (Some t) '';'') (concat (map st_tokens (splitStatements sql))) =
     filter (\<lambda>t. \<not> isPunct (Some t) '';'') (tokenize sql) \<and>
   list_all (statementOf sql) (splitStatements sql)"
  using splitLoop_keeps [of sql "tokenize sql" "[]" 0] splitLoop_statementOf [of "[]" 0 sql "tokenize sql"]
  by (simp add: splitStatements_def openRun_def)

section \<open>Classification\<close>

lemma leadingWord_word: "leadingWord ts = Some w \<Longrightarrow> tk_type w = TWord"
  by (induction ts rule: leadingWord.induct) (auto split: if_splits)

lemma leadingWord_dropWhile:
  "leadingWord ts = Some w \<Longrightarrow> \<exists>us. dropWhile (\<lambda>t. isPunct (Some t) ''('') ts = w # us"
  by (induction ts rule: leadingWord.induct) (auto split: if_splits)

lemma select_words_read: "leadIn (leadingWord ts) SELECT_WORDS \<Longrightarrow> \<not> modifiesData ts"
  by (subst modifiesData.simps) (auto simp: SELECT_WORDS_def DML_WORDS_def split: option.splits)

lemma modifiesData_with:
  assumes "leadingWord ts = Some w" "tk_upper w = js ''WITH''"
  shows "modifiesData ts \<longleftrightarrow>
    (case parseWith (dropWhile (\<lambda>t. isPunct (Some t) ''('') ts) of None \<Rightarrow> True
     | Some parts \<Rightarrow> list_ex modifiesData (wp_bodies parts) \<or>
         modifiesData (drop (wp_primary parts) (dropWhile (\<lambda>t. isPunct (Some t) ''('') ts)))"
  using assms by (subst modifiesData.simps) (simp add: DML_WORDS_def split: option.splits)

lemma not_lead_reads:
  assumes "\<not> leadIn (leadingWord ts) DML_WORDS" "\<not> leadIn (leadingWord ts) [js ''WITH'']"
  shows "\<not> modifiesData ts"
  using assms by (subst modifiesData.simps) (auto split: option.splits)

definition readsOnly :: "Token list \<Rightarrow> bool" where
  "readsOnly ts \<longleftrightarrow> \<not> modifiesData ts \<or>
     (case parseWith ts of None \<Rightarrow> False
      | Some parts \<Rightarrow> isPunct (nth_opt (drop (wp_primary parts) ts) 0) ''('' \<and>
          isWord (leadingWord (drop (wp_primary parts) ts)) ''WITH'')"

lemma with_select_reads:
  assumes "tk_type t = TWord" "tk_upper t = js ''WITH''" "si_kind (classifyStatement (t # ts)) = KSelect"
  shows "readsOnly (t # ts)"
proof -
  have np: "\<not> isPunct (Some t) ''(''" using assms(1) by (simp add: isPunct_def)
  from assms obtain parts where p: "parseWith (t # ts) = Some parts"
    by (auto simp: classifyStatement_def otherInfo_def split: option.splits)
  let ?pr = "drop (wp_primary parts) (t # ts)"
  have lead: "leadingWord (t # ts) = Some t" using assms(1) np by simp
  from assms p have d: "\<not> leadIn (leadingWord ?pr) DML_WORDS" "\<not> list_ex modifiesData (wp_bodies parts)"
    "leadIn (leadingWord ?pr) SELECT_WORDS \<or> isPunct (nth_opt ?pr 0) ''(''"
    by (auto simp: classifyStatement_def otherInfo_def Let_def simp del: drop_Cons' split: if_splits)
  show ?thesis
  proof (cases "leadIn (leadingWord ?pr) [js ''WITH'']")
    case True
    then obtain w where w: "leadingWord ?pr = Some w" "tk_upper w = js ''WITH''"
      by (auto split: option.splits)
    with leadingWord_word [OF w(1)] have "isWord (leadingWord ?pr) ''WITH''" by (simp add: isWord_def)
    moreover from w d(3) have "isPunct (nth_opt ?pr 0) ''(''" by (simp add: SELECT_WORDS_def)
    ultimately show ?thesis by (simp only: readsOnly_def p option.case simp_thms)
  next
    case False
    from not_lead_reads [OF d(1) this] have "\<not> modifiesData ?pr" .
    with d(2) p np modifiesData_with [OF lead assms(2)] have "\<not> modifiesData (t # ts)" by simp
    then show ?thesis by (simp only: readsOnly_def simp_thms)
  qed
qed

lemma plain_select_reads:
  assumes "\<not> (tk_type t = TWord \<and> tk_upper t = js ''WITH'')" "si_kind (classifyStatement (t # ts)) = KSelect"
  shows "\<not> modifiesData (t # ts)"
proof (cases "leadIn (leadingWord (t # ts)) SELECT_WORDS")
  case True
  then show ?thesis by (rule select_words_read)
next
  case False
  with assms show ?thesis
    by (auto simp: classifyStatement_def otherInfo_def Let_def simp del: leadingWord.simps split: if_splits)
qed

text \<open>
  A statement classified as a plain select writes nothing: no CTE and no primary query of it
  modifies data.  The one shape the classification does not look into, and \<open>readsOnly\<close> admits, is
  a parenthesised primary query that opens a WITH of its own.
\<close>

theorem select_classification_reads_only:
  assumes "si_kind (classifyStatement ts) = KSelect"
  shows "readsOnly ts"
proof (cases ts)
  case Nil
  with assms show ?thesis by (simp add: classifyStatement_def otherInfo_def)
next
  case (Cons t us)
  with assms with_select_reads [of t us] plain_select_reads [of t us] show ?thesis
    by (cases "tk_type t = TWord \<and> tk_upper t = js ''WITH''") (auto simp: readsOnly_def)
qed

theorem select_classification_reads_only_witness:
  "readsOnly (tokenize (js ''WITH a AS (SELECT 1) SELECT * FROM a LIMIT 5''))"
  by (rule select_classification_reads_only) code_simp

text \<open>
  The shape of the exception is real: a data-modifying CTE inside a parenthesised primary query is
  classified as a plain select.
\<close>

lemma nested_with_is_called_select:
  "si_kind (classifyStatement (tokenize
      (js ''WITH a AS (SELECT 1) (WITH b AS (INSERT INTO t VALUES (1) RETURNING id) SELECT * FROM b)''))) = KSelect \<and>
   modifiesData (tokenize
      (js ''WITH a AS (SELECT 1) (WITH b AS (INSERT INTO t VALUES (1) RETURNING id) SELECT * FROM b)''))"
  by code_simp

end
