(* ===== verification/SqlGuard.thy ===== *)
theory SqlGuard
  imports SqlTokens
begin

text \<open>
  The SQL denylist of \<open>modules/sql/sql-guard.ts\<close>: token streams with the literals that run as SQL
  of their own, the compiled word patterns, the positional checks, the allowlist of a public key
  and the read-only check.

  A \<open>Map\<close> keeps insertion order, so \<open>strings\<close> is an association list.  A regular expression that
  \<open>compile\<close> builds is a list of parts; \<open>reTest\<close> is its search with backtracking.
\<close>

section \<open>Labels\<close>

definition FORBIDDEN_PATTERNS :: "string list" where
  "FORBIDDEN_PATTERNS =
    [''DROP DATABASE'', ''DROP ROLE'', ''CREATE ROLE'', ''ALTER ROLE'', ''CREATE DATABASE'', ''COPY'',
     ''pg_read_file'', ''pg_write_file'', ''pg_read_binary_file'', ''pg_ls_dir'', ''pg_stat_file'',
     ''lo_import'', ''lo_export'', ''CREATE EXTENSION'', ''LOAD'', ''SET ROLE'',
     ''SET SESSION AUTHORIZATION'', ''GRANT'', ''REVOKE'', ''ALTER DEFAULT PRIVILEGES'', ''CREATE USER'',
     ''ALTER USER'', ''DROP USER'', ''CREATE TABLESPACE'', ''ALTER SYSTEM'', ''PG_READ_SERVER_FILES'',
     ''PG_WRITE_SERVER_FILES'', ''PG_EXECUTE_SERVER_PROGRAM'', ''DBLINK'', ''CREATE FOREIGN'',
     ''CREATE SERVER'', ''CREATE PUBLICATION'', ''CREATE SUBSCRIPTION'']"

definition OWNER_ONLY_PATTERNS :: "string list" where
  "OWNER_ONLY_PATTERNS =
    [''CREATE TABLE'', ''ALTER TABLE'', ''DROP TABLE'', ''TRUNCATE'', ''CREATE SCHEMA'', ''DROP SCHEMA'',
     ''ALTER SCHEMA'', ''CREATE INDEX'', ''DROP INDEX'', ''CREATE VIEW'', ''ALTER VIEW'', ''DROP VIEW'',
     ''CREATE MATERIALIZED VIEW'', ''CREATE POLICY'', ''ALTER POLICY'', ''DROP POLICY'',
     ''ROW LEVEL SECURITY'', ''CREATE FUNCTION'', ''CREATE OR REPLACE FUNCTION'', ''DROP FUNCTION'',
     ''CREATE PROCEDURE'', ''CREATE TRIGGER'', ''DROP TRIGGER'', ''CREATE SEQUENCE'', ''ALTER SEQUENCE'',
     ''CREATE TYPE'', ''DROP TYPE'', ''SECURITY DEFINER'', ''SET LOCAL ROLE'', ''SET request.jwt.*'']"

datatype SqlCallerRole = Owner | ServiceRole | Authenticated | Anon

section \<open>Token streams\<close>

record Stream =
  symbols :: "jstr list"
  strings :: "(nat \<times> Token) list"
  literal :: bool

definition MAX_LITERAL_DEPTH :: nat where
  "MAX_LITERAL_DEPTH = 3"

text \<open>\<open>replace(/\s+/g, '_')\<close>.\<close>

fun foldSpaces :: "jstr \<Rightarrow> jstr" where
  "foldSpaces [] = []"
| "foldSpaces (c # s) =
     (if is_js_space c
      then (if nth_opt s 0 \<noteq> None \<and> is_js_space (hd s) then foldSpaces s else ch CHR ''_'' # foldSpaces s)
      else c # foldSpaces s)"

definition symbolOf :: "Token \<Rightarrow> jstr" where
  "symbolOf t =
     (case tk_type t of
        TWord \<Rightarrow> tk_upper t
      | TQident \<Rightarrow> DQ # foldSpaces (js_upper (tk_value t)) @ [DQ]
      | TString \<Rightarrow> [SQ]
      | TNumber \<Rightarrow> js ''0''
      | TParam \<Rightarrow> js ''$''
      | TOp \<Rightarrow> tk_value t
      | TPunct \<Rightarrow> tk_value t)"

definition toStream :: "Token list \<Rightarrow> bool \<Rightarrow> Stream" where
  "toStream ts lit =
     \<lparr>symbols = map symbolOf ts,
      strings = filter (\<lambda>(i, t). tk_type t = TString) (enumerate 0 ts),
      literal = lit\<rparr>"

definition EXECUTABLE_STRING_HEADS :: "jstr list" where
  "EXECUTABLE_STRING_HEADS = map js [''DO'', ''EXECUTE'', ''PREPARE'', ''CREATE'', ''ALTER'', ''REFRESH'']"

definition CODE_OPENERS :: "jstr list" where
  "CODE_OPENERS = map js ['';'', ''ATOMIC'']"

definition BODY_OPENERS :: "jstr list" where
  "BODY_OPENERS = map js ['';'', ''ATOMIC'', ''BEGIN'', ''THEN'', ''ELSE'', ''LOOP'', ''>>'']"

definition openers :: "bool \<Rightarrow> jstr list" where
  "openers lit = (if lit then BODY_OPENERS else CODE_OPENERS)"

abbreviation symIs :: "jstr list \<Rightarrow> nat \<Rightarrow> string \<Rightarrow> bool" where
  "symIs syms i w \<equiv> nth_opt syms i = Some (js w)"

definition atStatementStart :: "jstr list \<Rightarrow> nat \<Rightarrow> bool \<Rightarrow> bool" where
  "atStatementStart syms i lit \<longleftrightarrow>
     i = 0 \<or> (case nth_opt syms (i - 1) of None \<Rightarrow> False | Some s \<Rightarrow> s \<in> set (openers lit))"

text \<open>\<open>symbol.slice(1, -1)\<close> drops the first and the last code unit.\<close>

definition bareName :: "jstr \<Rightarrow> jstr" where
  "bareName s = (if nth_opt s 0 = Some DQ then butlast (drop 1 s) else s)"

fun statementHeadLoop :: "jstr list \<Rightarrow> jstr list \<Rightarrow> nat \<Rightarrow> jstr option" where
  "statementHeadLoop open syms 0 = nth_opt syms 0"
| "statementHeadLoop open syms (Suc k) =
     (case nth_opt syms k of
        Some s \<Rightarrow> if s \<in> set open then nth_opt syms (Suc k) else statementHeadLoop open syms k
      | None \<Rightarrow> statementHeadLoop open syms k)"

definition statementHead :: "jstr list \<Rightarrow> nat \<Rightarrow> bool \<Rightarrow> jstr option" where
  "statementHead syms i lit = statementHeadLoop (openers lit) syms i"

text \<open>Is the string token at position \<open>at\<close> read as SQL of its own?\<close>

definition runsAsSql :: "jstr list \<Rightarrow> bool \<Rightarrow> nat \<Rightarrow> Token \<Rightarrow> bool" where
  "runsAsSql syms lit at t \<longleftrightarrow>
     tk_quote t \<noteq> Some QBit \<and> js_trim (tk_value t) \<noteq> [] \<and>
     (case statementHead syms at lit of
        None \<Rightarrow> False
      | Some head \<Rightarrow> head \<noteq> [] \<and> bareName head \<in> set EXECUTABLE_STRING_HEADS)"

text \<open>\<open>visit(tokens, literal, depth)\<close> with \<open>MAX_LITERAL_DEPTH - depth\<close> levels left.\<close>

fun visit :: "nat \<Rightarrow> Token list \<Rightarrow> bool \<Rightarrow> Stream list" where
  "visit 0 ts lit = [toStream ts lit]"
| "visit (Suc n) ts lit =
     (let stream = toStream ts lit
      in stream #
         concat (map (\<lambda>(at, t). if runsAsSql (symbols stream) lit at t
                               then visit n (tokenize (tk_value t)) True else [])
                     (strings stream)))"

definition streamsOf :: "jstr \<Rightarrow> Stream list" where
  "streamsOf query = visit MAX_LITERAL_DEPTH (tokenize query) False"

section \<open>Patterns\<close>

text \<open>
  A part of the compiled expression: a required choice or an optional choice of texts.  Texts of
  every part but a leading plain word begin with a space.
\<close>

datatype Part = Alt "jstr list" | Opt "jstr list"

fun words :: "jstr \<Rightarrow> jstr list" where
  "words [] = [[]]"
| "words (c # s) =
     (if is_js_space c then (if nth_opt s 0 \<noteq> None \<and> is_js_space (hd s) then words s else [] # words s)
      else (case words s of [] \<Rightarrow> [[c]] | w # ws \<Rightarrow> (c # w) # ws))"

definition alternatives :: "jstr \<Rightarrow> jstr list" where
  "alternatives grp = map (\<lambda>a. 32 # join [32] (words (js_trim a))) (split_on (ch CHR ''|'') grp)"

text \<open>One bracketed group at the start of the text: its content and what follows the closing bracket.\<close>

definition bracketed :: "int \<Rightarrow> int \<Rightarrow> jstr \<Rightarrow> (jstr \<times> jstr) option" where
  "bracketed op cl s =
     (case s of [] \<Rightarrow> None
      | c # cs \<Rightarrow>
          (let b = takeWhile (\<lambda>x. x \<noteq> cl) cs; r = dropWhile (\<lambda>x. x \<noteq> cl) cs
           in if c = op \<and> b \<noteq> [] \<and> r \<noteq> [] then Some (b, drop 1 r) else None))"

lemma bracketed_length [progress]:
  assumes "bracketed op cl (x # xs) = Some (b, r)" shows "length r \<le> length xs"
proof -
  from assms have "r = drop 1 (dropWhile (\<lambda>x. x \<noteq> cl) xs)"
    by (auto simp: bracketed_def Let_def split: if_splits)
  with length_dropWhile_le [of "\<lambda>x. x \<noteq> cl" xs] show ?thesis by simp
qed

function compileLoop :: "jstr \<Rightarrow> Part list \<Rightarrow> Part list" where
  "compileLoop s parts =
     (case s of [] \<Rightarrow> parts
      | c # cs \<Rightarrow>
          (case bracketed (ch CHR ''['') (ch CHR '']'') s of
             Some (b, r) \<Rightarrow> compileLoop r (parts @ [Opt (alternatives b)])
           | None \<Rightarrow>
          (case bracketed (ch CHR ''{'') (ch CHR ''}'') s of
             Some (b, r) \<Rightarrow> compileLoop r (parts @ [Alt (alternatives b)])
           | None \<Rightarrow>
              if is_js_space c then compileLoop cs parts
              else (let w = c # takeWhile (\<lambda>x. \<not> is_js_space x) cs
                    in compileLoop (dropWhile (\<lambda>x. \<not> is_js_space x) cs)
                         (parts @ [Alt [(if parts = [] then [] else [32]) @ w]])))))"
  by pat_completeness auto
termination
  by (relation "measure (\<lambda>(s, parts). length s)")
     (auto simp: less_Suc_eq_le length_dropWhile_le eq_commute [of "(_, _)"] dest: bracketed_length)

declare compileLoop.simps [simp del]

definition compile :: "string \<Rightarrow> Part list" where
  "compile pattern = compileLoop (js pattern) []"

text \<open>The parts from here on, then \<open>(?= |$)\<close>.\<close>

fun matchParts :: "Part list \<Rightarrow> jstr \<Rightarrow> bool" where
  "matchParts [] s \<longleftrightarrow> s = [] \<or> nth_opt s 0 = Some 32"
| "matchParts (Alt ws # ps) s \<longleftrightarrow>
     list_ex (\<lambda>w. starts_with w s \<and> matchParts ps (drop (length w) s)) ws"
| "matchParts (Opt ws # ps) s \<longleftrightarrow>
     list_ex (\<lambda>w. starts_with w s \<and> matchParts ps (drop (length w) s)) ws \<or> matchParts ps s"

fun reScan :: "Part list \<Rightarrow> jstr \<Rightarrow> bool" where
  "reScan ps [] \<longleftrightarrow> False"
| "reScan ps (c # s) \<longleftrightarrow> (c = 32 \<and> matchParts ps s) \<or> reScan ps s"

definition reTest :: "Part list \<Rightarrow> jstr \<Rightarrow> bool" where
  "reTest ps s \<longleftrightarrow> matchParts ps s \<or> reScan ps s"

definition FORBIDDEN_SEQUENCES :: "(string \<times> Part list) list" where
  "FORBIDDEN_SEQUENCES = map (\<lambda>p. (p, compile p))
     [''DROP DATABASE'', ''CREATE DATABASE'', ''DROP ROLE'', ''CREATE ROLE'', ''ALTER ROLE'',
      ''CREATE USER'', ''ALTER USER'', ''DROP USER'', ''CREATE TABLESPACE'', ''ALTER SYSTEM'',
      ''CREATE EXTENSION'', ''CREATE FOREIGN'', ''CREATE SERVER'', ''CREATE PUBLICATION'',
      ''CREATE SUBSCRIPTION'', ''ALTER DEFAULT PRIVILEGES'']"

definition FORBIDDEN_NAMES :: "(jstr \<times> string) list" where
  "FORBIDDEN_NAMES = map (\<lambda>(k, v). (js k, v))
     [(''PG_READ_FILE'', ''pg_read_file''),
      (''PG_WRITE_FILE'', ''pg_write_file''),
      (''PG_READ_BINARY_FILE'', ''pg_read_binary_file''),
      (''PG_LS_DIR'', ''pg_ls_dir''),
      (''PG_STAT_FILE'', ''pg_stat_file''),
      (''LO_IMPORT'', ''lo_import''),
      (''LO_EXPORT'', ''lo_export''),
      (''PG_READ_SERVER_FILES'', ''PG_READ_SERVER_FILES''),
      (''PG_WRITE_SERVER_FILES'', ''PG_WRITE_SERVER_FILES''),
      (''PG_EXECUTE_SERVER_PROGRAM'', ''PG_EXECUTE_SERVER_PROGRAM'')]"

definition OWNER_ONLY_SEQUENCES :: "(string \<times> Part list) list" where
  "OWNER_ONLY_SEQUENCES = map (\<lambda>(l, p). (l, compile p))
     [(''CREATE TABLE'', ''CREATE [OR REPLACE] [GLOBAL|LOCAL] [TEMP|TEMPORARY|UNLOGGED] TABLE''),
      (''ALTER TABLE'', ''ALTER TABLE''),
      (''DROP TABLE'', ''DROP TABLE''),
      (''CREATE SCHEMA'', ''CREATE SCHEMA''),
      (''DROP SCHEMA'', ''DROP SCHEMA''),
      (''ALTER SCHEMA'', ''ALTER SCHEMA''),
      (''CREATE INDEX'', ''CREATE [UNIQUE] INDEX''),
      (''DROP INDEX'', ''DROP INDEX''),
      (''CREATE VIEW'', ''CREATE [OR REPLACE] [TEMP|TEMPORARY] [RECURSIVE] VIEW''),
      (''ALTER VIEW'', ''ALTER VIEW''),
      (''DROP VIEW'', ''DROP VIEW''),
      (''CREATE MATERIALIZED VIEW'', ''CREATE MATERIALIZED VIEW''),
      (''CREATE POLICY'', ''CREATE POLICY''),
      (''ALTER POLICY'', ''ALTER POLICY''),
      (''DROP POLICY'', ''DROP POLICY''),
      (''ROW LEVEL SECURITY'', ''ROW LEVEL SECURITY''),
      (''CREATE OR REPLACE FUNCTION'', ''CREATE OR REPLACE FUNCTION''),
      (''CREATE FUNCTION'', ''CREATE FUNCTION''),
      (''DROP FUNCTION'', ''DROP FUNCTION''),
      (''CREATE PROCEDURE'', ''CREATE [OR REPLACE] PROCEDURE''),
      (''CREATE TRIGGER'', ''CREATE [OR REPLACE] [CONSTRAINT] TRIGGER''),
      (''DROP TRIGGER'', ''DROP TRIGGER''),
      (''CREATE SEQUENCE'', ''CREATE [TEMP|TEMPORARY|UNLOGGED] SEQUENCE''),
      (''ALTER SEQUENCE'', ''ALTER SEQUENCE''),
      (''CREATE TYPE'', ''CREATE TYPE''),
      (''DROP TYPE'', ''DROP TYPE''),
      (''SECURITY DEFINER'', ''SECURITY DEFINER'')]"

text \<open>\<open>for (const [label, re] of list) if (re.test(joined)) return label\<close>.\<close>

fun firstSequence :: "(string \<times> Part list) list \<Rightarrow> jstr \<Rightarrow> string option" where
  "firstSequence [] joined = None"
| "firstSequence ((label, re) # rest) joined =
     (if reTest re joined then Some label else firstSequence rest joined)"

section \<open>Positional checks\<close>

definition laterInStatement :: "jstr list \<Rightarrow> nat \<Rightarrow> string list \<Rightarrow> bool" where
  "laterInStatement syms i want =
     list_ex (\<lambda>s. s \<in> set (map js want)) (takeWhile (\<lambda>s. s \<noteq> js '';'') (drop (i + 1) syms))"

datatype RoleScope = Session | Local | Authorization

fun closingArg :: "jstr list \<Rightarrow> jstr \<Rightarrow> int \<Rightarrow> RoleScope" where
  "closingArg [] prev depth = Session"
| "closingArg (s # syms) prev depth =
     (if s = js ''('' then closingArg syms s (depth + 1)
      else if s = js '')'' then
        (if depth - 1 = 0 then (if prev = js ''TRUE'' then Local else Session)
         else closingArg syms s (depth - 1))
      else closingArg syms s depth)"

definition isSetConfigCall :: "jstr list \<Rightarrow> nat \<Rightarrow> bool" where
  "isSetConfigCall syms i \<longleftrightarrow>
     (symIs syms i ''SET_CONFIG'' \<or> nth_opt syms i = Some (DQ # js ''SET_CONFIG'' @ [DQ])) \<and>
     symIs syms (i + 1) ''(''"

definition settingName :: "Stream \<Rightarrow> nat \<Rightarrow> jstr option" where
  "settingName stream i = map_option (\<lambda>t. js_lower (js_trim (tk_value t))) (map_of (strings stream) (i + 2))"

definition setConfigRole :: "Stream \<Rightarrow> nat \<Rightarrow> RoleScope option" where
  "setConfigRole stream i =
     (if \<not> isSetConfigCall (symbols stream) i then None
      else if settingName stream i = Some (js ''session_authorization'') then Some Session
      else if settingName stream i = Some (js ''role'')
      then Some (closingArg (drop (i + 1) (symbols stream)) (symbols stream ! i) 0)
      else None)"

function skipDotted :: "jstr list \<Rightarrow> nat \<Rightarrow> nat" where
  "skipDotted syms j =
     (if symIs syms j ''.'' \<and> nth_opt syms (j + 1) \<noteq> None then skipDotted syms (j + 2) else j)"
  by pat_completeness auto
termination
  by (relation "measure (\<lambda>(syms, j). length syms - j)") (auto simp: nth_opt_def split: if_splits)

declare skipDotted.simps [simp del]

text \<open>Does a SET at position \<open>i\<close> open its statement, or configure a CREATE or an ALTER?\<close>

definition isSetCommand :: "jstr list \<Rightarrow> nat \<Rightarrow> bool \<Rightarrow> bool" where
  "isSetCommand syms i lit \<longleftrightarrow>
     symIs syms i ''SET'' \<and>
     (atStatementStart syms i lit \<or> statementHead syms i lit = Some (js ''CREATE'') \<or>
      statementHead syms i lit = Some (js ''ALTER''))"

definition bareAt :: "jstr list \<Rightarrow> nat \<Rightarrow> jstr" where
  "bareAt syms k = (case nth_opt syms k of None \<Rightarrow> bareName [] | Some s \<Rightarrow> bareName s)"

definition setsIdentitySetting :: "jstr list \<Rightarrow> nat \<Rightarrow> bool \<Rightarrow> bool" where
  "setsIdentitySetting syms i lit =
     (if \<not> isSetCommand syms i lit then False
      else (let k = (if symIs syms (i + 1) ''SESSION'' \<or> symIs syms (i + 1) ''LOCAL'' then i + 2 else i + 1) in
            if bareAt syms k \<noteq> js ''REQUEST'' \<or> \<not> symIs syms (k + 1) ''.'' \<or> bareAt syms (k + 2) \<noteq> js ''JWT''
            then False
            else (let j = skipDotted syms (k + 3) in symIs syms j ''='' \<or> symIs syms j ''TO'')))"

definition setConfigIdentitySetting :: "Stream \<Rightarrow> nat \<Rightarrow> bool" where
  "setConfigIdentitySetting stream i \<longleftrightarrow>
     isSetConfigCall (symbols stream) i \<and>
     (case settingName stream i of None \<Rightarrow> False
      | Some name \<Rightarrow> name = js ''request.jwt'' \<or> starts_with (js ''request.jwt.'') name)"

definition setRoleCommand :: "jstr list \<Rightarrow> nat \<Rightarrow> bool \<Rightarrow> RoleScope option" where
  "setRoleCommand syms i lit =
     (if \<not> isSetCommand syms i lit then None
      else
        (let session = symIs syms (i + 1) ''SESSION'' \<and> \<not> symIs syms (i + 2) ''AUTHORIZATION'';
             local = \<not> session \<and> symIs syms (i + 1) ''LOCAL'';
             k = (if session \<or> local then i + 2 else i + 1);
             what = bareAt syms k
         in if what = js ''ROLE'' then Some (if local then Local else Session)
            else if what = js ''SESSION_AUTHORIZATION'' then Some Authorization
            else if what = js ''SESSION'' \<and> symIs syms (k + 1) ''AUTHORIZATION'' then Some Authorization
            else None))"

section \<open>Allowlist and read-only check\<close>

definition CALLER_STATEMENTS :: "jstr list" where
  "CALLER_STATEMENTS =
     map js [''SELECT'', ''WITH'', ''INSERT'', ''UPDATE'', ''DELETE'', ''VALUES'', ''TABLE'', ''EXPLAIN'']"

fun outsideLoop :: "bool \<Rightarrow> jstr list \<Rightarrow> jstr option" where
  "outsideLoop atStart [] = None"
| "outsideLoop atStart (s # syms) =
     (if s = js '';'' then outsideLoop True syms
      else if \<not> atStart then outsideLoop atStart syms
      else if s = js ''('' then outsideLoop atStart syms
      else if bareName s \<notin> set CALLER_STATEMENTS then Some (bareName s)
      else outsideLoop False syms)"

definition firstStatementOutsideAllowlist :: "jstr list \<Rightarrow> jstr option" where
  "firstStatementOutsideAllowlist syms = outsideLoop True syms"

definition READ_STATEMENTS :: "jstr list" where
  "READ_STATEMENTS = map js [''SELECT'', ''WITH'', ''VALUES'', ''TABLE'', ''EXPLAIN'']"

fun nonReadLoop :: "nat \<Rightarrow> bool \<Rightarrow> jstr list \<Rightarrow> jstr option" where
  "nonReadLoop statements atStart [] = (if statements = 0 then Some (js ''an empty query'') else None)"
| "nonReadLoop statements atStart (s # syms) =
     (if s = js '';'' then nonReadLoop statements True syms
      else if \<not> atStart \<or> s = js ''('' then nonReadLoop statements atStart syms
      else if statements + 1 > 1 then Some (js ''more than one statement'')
      else if bareName s \<notin> set READ_STATEMENTS then Some (bareName s)
      else nonReadLoop (statements + 1) False syms)"

definition findNonReadStatement :: "jstr \<Rightarrow> jstr option" where
  "findNonReadStatement query = nonReadLoop 0 True (symbols (hd (streamsOf query)))"

section \<open>The checks\<close>

text \<open>The \<open>switch\<close> on the symbol at position \<open>i\<close>.\<close>

definition forbiddenCommand :: "jstr list \<Rightarrow> nat \<Rightarrow> bool \<Rightarrow> string option" where
  "forbiddenCommand syms i lit =
     (let start = atStatementStart syms i lit in
      if symIs syms i ''COPY'' then
        (if start \<and> (\<not> lit \<or> symIs syms (i + 1) ''('' \<or> laterInStatement syms i [''FROM'', ''TO''])
         then Some ''COPY'' else None)
      else if symIs syms i ''LOAD'' then
        (if start \<and> (\<not> lit \<or> nth_opt syms (i + 1) = Some [SQ]) then Some ''LOAD'' else None)
      else if symIs syms i ''GRANT'' then
        (if \<not> lit \<or> laterInStatement syms i [''TO'', ''ON''] then Some ''GRANT'' else None)
      else if symIs syms i ''REVOKE'' then
        (if start \<and> (\<not> lit \<or> laterInStatement syms i [''FROM'']) then Some ''REVOKE'' else None)
      else None)"

text \<open>The body of the loop of \<open>checkForbidden\<close> at position \<open>i\<close>.\<close>

definition forbiddenAt :: "Stream \<Rightarrow> nat \<Rightarrow> string option" where
  "forbiddenAt stream i =
     (let syms = symbols stream; lit = literal stream; name = bareAt syms i in
      case map_of FORBIDDEN_NAMES name of Some fn \<Rightarrow> Some fn
      | None \<Rightarrow>
         if starts_with (js ''DBLINK'') name then Some ''DBLINK''
         else if setRoleCommand syms i lit = Some Session then Some ''SET ROLE''
         else if setRoleCommand syms i lit = Some Authorization then Some ''SET SESSION AUTHORIZATION''
         else if setConfigRole stream i = Some Session then Some ''SET ROLE''
         else forbiddenCommand syms i lit)"

fun firstHit :: "('a \<Rightarrow> 'b option) \<Rightarrow> 'a list \<Rightarrow> 'b option" where
  "firstHit f [] = None"
| "firstHit f (x # xs) = (case f x of Some v \<Rightarrow> Some v | None \<Rightarrow> firstHit f xs)"

definition checkForbidden :: "Stream \<Rightarrow> string option" where
  "checkForbidden stream =
     (case firstSequence FORBIDDEN_SEQUENCES (join [32] (symbols stream)) of Some label \<Rightarrow> Some label
      | None \<Rightarrow> firstHit (forbiddenAt stream) [0..<length (symbols stream)])"

definition ownerOnlyAt :: "Stream \<Rightarrow> nat \<Rightarrow> string option" where
  "ownerOnlyAt stream i =
     (let syms = symbols stream; lit = literal stream in
      if setRoleCommand syms i lit = Some Local then Some ''SET LOCAL ROLE''
      else if setConfigRole stream i = Some Local then Some ''SET LOCAL ROLE''
      else if setsIdentitySetting syms i lit then Some ''SET request.jwt.*''
      else if setConfigIdentitySetting stream i then Some ''SET request.jwt.*''
      else if symIs syms i ''TRUNCATE'' \<and> (\<not> lit \<or> atStatementStart syms i lit) then Some ''TRUNCATE''
      else None)"

definition checkOwnerOnly :: "Stream \<Rightarrow> string option" where
  "checkOwnerOnly stream =
     (case firstSequence OWNER_ONLY_SEQUENCES (join [32] (symbols stream)) of Some label \<Rightarrow> Some label
      | None \<Rightarrow> firstHit (ownerOnlyAt stream) [0..<length (symbols stream)])"

definition publicKeyMessage :: "jstr \<Rightarrow> jstr" where
  "publicKeyMessage outside = outside @ js
     '' on a public key. This key may only run SELECT, WITH, INSERT, UPDATE, DELETE, VALUES, TABLE and EXPLAIN; schema and session changes need the service key or the dashboard''"

text \<open>\<open>if (outside)\<close> is false for the empty string as well as for null.\<close>

definition truthy :: "jstr option \<Rightarrow> bool" where
  "truthy s \<longleftrightarrow> s \<noteq> None \<and> s \<noteq> Some []"

definition findForbiddenSqlPattern :: "jstr \<Rightarrow> SqlCallerRole \<Rightarrow> jstr option" where
  "findForbiddenSqlPattern query role =
     (let streams = streamsOf query in
      case firstHit checkForbidden streams of Some hit \<Rightarrow> Some (js hit)
      | None \<Rightarrow>
          if role \<noteq> Owner \<and> role \<noteq> ServiceRole then
            (let outside = firstStatementOutsideAllowlist (symbols (hd streams)) in
             if truthy outside then Some (publicKeyMessage (the outside))
             else map_option js (firstHit checkOwnerOnly streams))
          else None)"

end
