(* ===== verification/SqlPolicy.thy ===== *)
theory SqlPolicy
  imports SqlGuard
begin

text \<open>
  What the SQL guard guarantees: its patterns match whole words of the token stream, comments hide
  nothing from it, a public key runs only allowlisted statements, a verdict for the owner is a
  verdict for everyone, string contents are data unless the statement executes strings, and the
  read-only path accepts exactly one read statement.
\<close>

section \<open>The texts a pattern stands for\<close>

fun expansions :: "Part list \<Rightarrow> jstr list" where
  "expansions [] = [[]]"
| "expansions (Alt ws # ps) = [w @ e. w \<leftarrow> ws, e \<leftarrow> expansions ps]"
| "expansions (Opt ws # ps) = [w @ e. w \<leftarrow> ws, e \<leftarrow> expansions ps] @ expansions ps"

definition ends :: "jstr \<Rightarrow> bool" where
  "ends y \<longleftrightarrow> y = [] \<or> hd y = 32"

lemma starts_with_iff: "starts_with w s \<longleftrightarrow> (\<exists>r. s = w @ r)"
  by (simp add: starts_with_prefix prefix_def)

lemma list_ex_starts_with:
  "list_ex (\<lambda>w. starts_with w s \<and> P (drop (length w) s)) ws \<longleftrightarrow> (\<exists>w\<in>set ws. \<exists>r. s = w @ r \<and> P r)"
  unfolding list_ex_iff starts_with_iff by (rule bex_cong [OF refl]) auto

lemma alt_step:
  assumes "\<And>s. matchParts ps s \<longleftrightarrow> (\<exists>e\<in>set (expansions ps). \<exists>y. s = e @ y \<and> ends y)"
  shows "list_ex (\<lambda>w. starts_with w s \<and> matchParts ps (drop (length w) s)) ws \<longleftrightarrow>
     (\<exists>e\<in>set [w @ e. w \<leftarrow> ws, e \<leftarrow> expansions ps]. \<exists>y. s = e @ y \<and> ends y)"
  unfolding list_ex_starts_with [where P = "matchParts ps"] unfolding assms by auto

lemma matchParts_iff: "matchParts ps s \<longleftrightarrow> (\<exists>e\<in>set (expansions ps). \<exists>y. s = e @ y \<and> ends y)"
proof (induction ps arbitrary: s)
  case Nil
  then show ?case by (cases s) (auto simp: ends_def)
next
  case (Cons p ps)
  show ?case
    using alt_step [OF Cons] Cons
    by (cases p) (simp_all only: matchParts.simps expansions.simps set_append bex_Un)
qed

lemma reScan_iff: "reScan ps s \<longleftrightarrow> (\<exists>u v. s = u @ 32 # v \<and> matchParts ps v)"
proof (induction s)
  case (Cons c s)
  have "(\<exists>u v. c # s = u @ 32 # v \<and> matchParts ps v) \<longleftrightarrow>
      (c = 32 \<and> matchParts ps s) \<or> (\<exists>u v. s = u @ 32 # v \<and> matchParts ps v)"
    by (auto simp: Cons_eq_append_conv)
  with Cons show ?case by simp
qed simp

lemma reTest_iff:
  "reTest ps s \<longleftrightarrow>
     (\<exists>e\<in>set (expansions ps). \<exists>x y. s = x @ e @ y \<and> (x = [] \<or> last x = 32) \<and> ends y)"
proof -
  have *: "(\<exists>x y. s = x @ e @ y \<and> (x = [] \<or> last x = 32) \<and> ends y) \<longleftrightarrow>
      (\<exists>y. s = e @ y \<and> ends y) \<or> (\<exists>u v. s = u @ 32 # v \<and> (\<exists>y. v = e @ y \<and> ends y))" (is "?L \<longleftrightarrow> ?R") for e
  proof
    assume ?L
    then obtain x y where "s = x @ e @ y" "x = [] \<or> (\<exists>u. x = u @ [32])" "ends y"
      by (metis append_butlast_last_id)
    then show ?R by auto
  next
    assume ?R
    then obtain u y where "s = e @ y \<or> s = (u @ [32]) @ e @ y" "ends y" by auto
    then show ?L by (metis append_Nil last_snoc)
  qed
  show ?thesis unfolding reTest_def reScan_iff matchParts_iff * by blast
qed

section \<open>Words and their joined text\<close>

lemma split_on_append: "split_on c (a @ c # b) = split_on c a @ split_on c b"
  by (induction a) (auto split: list.splits)

lemma split_on_free: "c \<notin> set s \<Longrightarrow> split_on c s = [s]"
  by (induction s) auto

lemma split_on_join:
  assumes "syms \<noteq> []" "list_all (\<lambda>s. c \<notin> set s) syms"
  shows "split_on c (join [c] syms) = syms"
  using assms
proof (induction syms)
  case (Cons s syms)
  then show ?case
    by (cases syms) (simp_all add: split_on_free split_on_append)
qed simp

lemma join_append: "a \<noteq> [] \<Longrightarrow> b \<noteq> [] \<Longrightarrow> join d (a @ b) = join d a @ d @ join d b"
proof (induction a)
  case (Cons x a)
  then show ?case by (cases a) (simp_all add: join_Cons)
qed simp

lemma bounded_text_is_sublist:
  assumes "x = [] \<or> last x = c" "y = [] \<or> hd y = c"
  shows "sublist (split_on c e) (split_on c (x @ e @ y))"
proof -
  obtain a where a: "split_on c (x @ e @ y) = a @ split_on c (e @ y)"
  proof (cases "x = []")
    case False
    with assms(1) have "x @ e @ y = butlast x @ c # (e @ y)"
      by (metis append_butlast_last_id append.assoc append_Cons append_Nil)
    with that show ?thesis by (simp add: split_on_append)
  qed (use that in auto)
  obtain b where "split_on c (e @ y) = split_on c e @ b"
  proof (cases "y = []")
    case False
    with assms(2) have "e @ y = e @ c # tl y" by (cases y) auto
    with that show ?thesis by (simp add: split_on_append)
  qed (use that in auto)
  with a show ?thesis by (auto simp: sublist_def)
qed

lemma sublist_is_bounded_text:
  assumes "sublist ws syms" "ws \<noteq> []"
  shows "\<exists>x y. join [c] syms = x @ join [c] ws @ y \<and> (x = [] \<or> last x = c) \<and> (y = [] \<or> hd y = c)"
proof -
  obtain a b where ab: "syms = a @ ws @ b" using assms(1) by (auto simp: sublist_def)
  obtain y where y: "join [c] (ws @ b) = join [c] ws @ y" "y = [] \<or> hd y = c"
    using assms(2) by (cases "b = []") (auto simp: join_append)
  have "\<exists>x. join [c] syms = x @ join [c] (ws @ b) \<and> (x = [] \<or> last x = c)"
  proof (cases "a = []")
    case False
    with assms(2) ab have "join [c] syms = (join [c] a @ [c]) @ join [c] (ws @ b)" by (simp add: join_append)
    then show ?thesis by (metis last_snoc)
  qed (use ab in auto)
  with y show ?thesis by auto
qed

lemma reTest_words:
  assumes "list_all (\<lambda>s. 32 \<notin> set s) syms" "[] \<notin> set (expansions ps)"
  shows "reTest ps (join [32] syms) \<longleftrightarrow> (\<exists>e\<in>set (expansions ps). sublist (split_on 32 e) syms)"
proof (cases "syms = []")
  case True
  with assms(2) show ?thesis by (auto simp: reTest_iff)
next
  case False
  note sj = split_on_join [OF False assms(1)]
  have "sublist (split_on 32 e) syms"
    if "join [32] syms = x @ e @ y" "x = [] \<or> last x = 32" "ends y" for e x y
    using bounded_text_is_sublist [of x 32 y e] that sj by (auto simp: ends_def)
  moreover have "\<exists>x y. join [32] syms = x @ e @ y \<and> (x = [] \<or> last x = 32) \<and> ends y"
    if "sublist (split_on 32 e) syms" for e
    using sublist_is_bounded_text [OF that, of 32] by (simp add: join_split_on ends_def)
  ultimately show ?thesis unfolding reTest_iff by (intro bex_cong [OF refl] iffI) (elim exE conjE, blast, blast)
qed

section \<open>Symbols hold no space\<close>

definition plainTok :: "Token \<Rightarrow> bool" where
  "plainTok t \<longleftrightarrow> literalType (tk_type t) \<or>
     32 \<notin> set (tk_upper t) \<and> (tk_type t = TWord \<or> tk_upper t = tk_value t)"

lemma numberRun_chars: "x \<in> set (fst (numberRun s)) \<Longrightarrow> isNumChar x \<or> isSign x"
  by (induction s rule: numberRun.induct) (auto simp: case_prod_unfold Let_def split: if_splits)

lemma opRun_chars: "x \<in> set (fst (opRun s)) \<Longrightarrow> x \<in> set OP_CHARS"
  by (induction s rule: opRun.induct) (auto simp: case_prod_unfold Let_def split: if_splits)

lemma space_no_char:
  "\<not> isWordChar 32" "\<not> is_digit 32" "\<not> (isNumChar 32 \<or> isSign 32)" "32 \<notin> set OP_CHARS"
  by code_simp+

lemma lexPlain_no_space:
  assumes "\<not> is_js_space c" "lexPlain c cs = (ty, v, q, r)"
  shows "32 \<notin> set v"
proof -
  have c: "c \<noteq> 32" using assms(1) by (auto simp: is_js_space_def)
  have w: "32 \<notin> set (takeWhile isWordChar cs)" using space_no_char(1) set_takeWhileD by fast
  have n: "32 \<notin> set (fst (numberRun cs))" using space_no_char(3) numberRun_chars by fast
  have o: "32 \<notin> set (fst (opRun cs))" using space_no_char(4) opRun_chars by fast
  from assms(2) c w n o show ?thesis
    by (auto simp: lexPlain_def case_prod_unfold Let_def split: if_splits)
qed

lemma lexDollar_no_space: "lexDollar c cs = Some (ty, v, q, r) \<Longrightarrow> literalType ty \<or> 32 \<notin> set v"
  using space_no_char(2)
  by (auto simp: lexDollar_def Let_def dest: set_takeWhileD split: option.splits if_splits)

lemma lexPrefixed_literal: "lexPrefixed c cs = Some (ty, v, q, r) \<Longrightarrow> literalType ty"
  unfolding lexPrefixed_def Let_def case_prod_unfold
  by (simp only: option.distinct option.inject prod.inject split: if_splits) (elim conjE, hypsubst, simp)+

lemma lexQuoted_literal: "lexQuoted c cs = Some (ty, v, q, r) \<Longrightarrow> literalType ty"
  by (auto simp: lexQuoted_def case_prod_unfold Let_def split: if_splits)

lemma push_plain:
  "push i s (ty, v, q, r) = (Some t, r') \<Longrightarrow> literalType ty \<or> 32 \<notin> set v \<Longrightarrow> plainTok t"
  by (auto simp: push_def plainTok_def dest: js_upper_space split: if_splits)

lemma lexStep_plain:
  assumes "lexStep i c cs = (Some t, r)"
  shows "plainTok t"
proof -
  from assms have sp: "\<not> is_js_space c" and "skipComment (c # cs) = None"
    by (auto simp: lexStep_def split: if_splits option.splits)
  with assms consider l where "lexPrefixed c cs = Some l" "push i (c # cs) l = (Some t, r)"
    | l where "lexQuoted c cs = Some l" "push i (c # cs) l = (Some t, r)"
    | l where "lexDollar c cs = Some l" "push i (c # cs) l = (Some t, r)"
    | l where "lexPlain c cs = l" "push i (c # cs) l = (Some t, r)"
    by (auto simp: lexStep_def split: option.splits)
  then show ?thesis
    by cases (metis prod_cases4 push_plain lexPrefixed_literal lexQuoted_literal lexDollar_no_space
      lexPlain_no_space sp)+
qed

lemma tokenizeLoop_plain: "list_all plainTok (tokenizeLoop i s)"
proof (induction i s rule: tokenizeLoop_induct)
  case (token i s t u r c cs)
  then show ?case using lexStep_plain by auto
qed simp_all

lemma foldSpaces_no_space: "32 \<notin> set (foldSpaces s)"
  by (induction s rule: foldSpaces.induct) (auto simp: is_js_space_def)

lemma symbolOf_no_space:
  assumes "t \<in> set (tokenize s)"
  shows "32 \<notin> set (symbolOf t)"
proof (cases "literalType (tk_type t)")
  case True
  then show ?thesis by (auto simp: symbolOf_def literalType_def foldSpaces_no_space)
next
  case False
  from assms obtain t' where t': "t' \<in> set (tokenizeLoop 0 s)" "tk_type t' = tk_type t"
      "tk_quote t' = tk_quote t" "tk_quote t = Some QUnicode \<or> t' = t"
    unfolding tokenize_def by (blast dest: resolveUnicode_elem)
  with tokenizeLoop_text [of t' 0 s] False have "t' = t" by auto
  with t' tokenizeLoop_plain [of 0 s] have "plainTok t" by (auto simp: list_all_iff)
  with False show ?thesis by (auto simp: plainTok_def symbolOf_def literalType_def split: TokenType.splits)
qed

lemma visit_symbols: "st \<in> set (visit n (tokenize s) lit) \<Longrightarrow> \<exists>s'. symbols st = map symbolOf (tokenize s')"
proof (induction n arbitrary: s lit st)
  case 0
  then show ?case by (auto simp: toStream_def)
next
  case (Suc n)
  then show ?case
    by (fastforce simp: Let_def toStream_def split: if_splits)
qed

lemma streams_no_space: "st \<in> set (streamsOf q) \<Longrightarrow> list_all (\<lambda>s. 32 \<notin> set s) (symbols st)"
  using visit_symbols [of st MAX_LITERAL_DEPTH q False] symbolOf_no_space
  by (auto simp: streamsOf_def list_all_iff)

lemma streamsOf_hd: "streamsOf q \<noteq> [] \<and> symbols (hd (streamsOf q)) = map symbolOf (tokenize q) \<and>
    literal (hd (streamsOf q)) = False"
  by (simp add: streamsOf_def MAX_LITERAL_DEPTH_def numeral_3_eq_3 Let_def toStream_def)

section \<open>Word patterns\<close>

lemma patterns_nonempty:
  "list_all (\<lambda>(l, p). [] \<notin> set (expansions p)) (FORBIDDEN_SEQUENCES @ OWNER_ONLY_SEQUENCES)"
  by code_simp

text \<open>
  The guard's patterns match whole words: on every stream of a query, a pattern's regular
  expression over the joined symbols succeeds exactly when one of the word sequences it stands for
  occurs as consecutive symbols.  No part of a longer identifier ever counts, and no occurrence is
  missed.
\<close>

theorem patterns_match_whole_words:
  assumes "st \<in> set (streamsOf query)" "(label, p) \<in> set (FORBIDDEN_SEQUENCES @ OWNER_ONLY_SEQUENCES)"
  shows "reTest p (join [32] (symbols st)) \<longleftrightarrow>
    (\<exists>e\<in>set (expansions p). sublist (split_on 32 e) (symbols st))"
proof (rule reTest_words)
  show "list_all (\<lambda>s. 32 \<notin> set s) (symbols st)" by (rule streams_no_space [OF assms(1)])
  show "[] \<notin> set (expansions p)" using patterns_nonempty assms(2) by (auto simp: list_all_iff)
qed

theorem patterns_match_whole_words_witness:
  "reTest (compile ''ALTER TABLE'') (join [32] (symbols (hd (streamsOf (js ''alter table t''))))) \<longleftrightarrow>
    (\<exists>e\<in>set (expansions (compile ''ALTER TABLE'')). sublist (split_on 32 e) (symbols (hd (streamsOf (js ''alter table t'')))))"
proof (rule patterns_match_whole_words)
  show "hd (streamsOf (js ''alter table t'')) \<in> set (streamsOf (js ''alter table t''))"
    using streamsOf_hd by simp
  show "(''ALTER TABLE'', compile ''ALTER TABLE'') \<in> set (FORBIDDEN_SEQUENCES @ OWNER_ONLY_SEQUENCES)"
    by (simp add: OWNER_ONLY_SEQUENCES_def)
qed

lemma firstSequence_None: "firstSequence ps s = None \<longleftrightarrow> (\<forall>(l, p)\<in>set ps. \<not> reTest p s)"
  by (induction ps s rule: firstSequence.induct) auto

lemma firstSequence_Some: "firstSequence ps s = Some l \<Longrightarrow> l \<in> fst ` set ps"
  by (induction ps s rule: firstSequence.induct) (auto split: if_splits)

lemma firstHit_None: "firstHit f xs = None \<longleftrightarrow> (\<forall>x\<in>set xs. f x = None)"
  by (induction xs) (auto split: option.splits)

lemma firstHit_Some: "firstHit f xs = Some v \<Longrightarrow> \<exists>x\<in>set xs. f x = Some v"
  by (induction xs) (auto split: option.splits)

lemma firstHit_cong: "(\<And>x. x \<in> set xs \<Longrightarrow> f x = g x) \<Longrightarrow> firstHit f xs = firstHit g xs"
  by (induction xs) (auto split: option.splits)

lemmas hits = firstSequence_None firstHit_None

text \<open>An accepted query has passed every check that applies to its caller.\<close>

definition publicRole :: "SqlCallerRole \<Rightarrow> bool" where
  "publicRole role \<longleftrightarrow> role = Anon \<or> role = Authenticated"

lemma publicRole_iff: "publicRole role \<longleftrightarrow> role \<noteq> Owner \<and> role \<noteq> ServiceRole"
  by (cases role) (auto simp: publicRole_def)

lemma accepted:
  assumes "findForbiddenSqlPattern q role = None"
  shows "st \<in> set (streamsOf q) \<Longrightarrow> checkForbidden st = None"
    and "publicRole role \<Longrightarrow> st \<in> set (streamsOf q) \<Longrightarrow> checkOwnerOnly st = None"
    and "publicRole role \<Longrightarrow> \<not> truthy (firstStatementOutsideAllowlist (map symbolOf (tokenize q)))"
  using assms streamsOf_hd [of q]
  by (auto simp: findForbiddenSqlPattern_def publicRole_iff Let_def hits split: option.splits if_splits)

text \<open>
  A two-word forbidden command is refused for every caller, whatever the case of its letters
  and whatever comment is written between its words.
\<close>

theorem commented_command_is_refused:
  assumes "wordText w1" "hd w1 < 128" "wordText w2" "hd w2 < 128" "commentTail u"
    and "(label, p) \<in> set FORBIDDEN_SEQUENCES" "js_upper w1 @ 32 # js_upper w2 \<in> set (expansions p)"
    and "32 \<notin> set (js_upper w1)" "32 \<notin> set (js_upper w2)"
  shows "findForbiddenSqlPattern (w1 @ js ''/*'' @ u @ w2) role \<noteq> None"
proof
  let ?q = "w1 @ js ''/*'' @ u @ w2" and ?ws = "[js_upper w1, js_upper w2]"
  assume acc: "findForbiddenSqlPattern ?q role = None"
  have tk: "tokenize ?q = [wordTok 0 w1, wordTok (length w1 + (2 + length u)) w2]"
    by (rule tokenize_commented_words [OF assms(1-5)])
  have sym: "symbols (hd (streamsOf ?q)) = ?ws"
    using streamsOf_hd [of ?q] tk by (simp add: symbolOf_def wordTok_def)
  have in_st: "hd (streamsOf ?q) \<in> set (streamsOf ?q)" using streamsOf_hd by simp
  have "split_on 32 (js_upper w1 @ 32 # js_upper w2) = ?ws"
    using assms(8,9) by (simp add: split_on_append split_on_free)
  then have "\<exists>e\<in>set (expansions p). sublist (split_on 32 e) ?ws" using assms(7) by force
  moreover have "list_all (\<lambda>s. 32 \<notin> set s) ?ws" using assms(8,9) by simp
  moreover have "[] \<notin> set (expansions p)" using patterns_nonempty assms(6) by (auto simp: list_all_iff)
  ultimately have "reTest p (join [32] ?ws)" using reTest_words [of ?ws p] by blast
  with sym assms(6) have "checkForbidden (hd (streamsOf ?q)) \<noteq> None"
    by (auto simp: checkForbidden_def firstSequence_None split: option.splits)
  with accepted(1) [OF acc in_st] show False by simp
qed

theorem commented_command_is_refused_witness:
  "findForbiddenSqlPattern (js ''drop'' @ js ''/*'' @ (js ''x'' @ js ''*/'') @ js ''Database'') Owner \<noteq> None"
proof (rule commented_command_is_refused)
  show "commentTail (js ''x'' @ js ''*/'')"
    using commentTail.plain [OF commentTail.close, of "ch CHR ''x''"] by (simp add: starts_with_def)
  show "(''DROP DATABASE'', compile ''DROP DATABASE'') \<in> set FORBIDDEN_SEQUENCES"
    by (simp add: FORBIDDEN_SEQUENCES_def)
  show "js_upper (js ''drop'') @ 32 # js_upper (js ''Database'') \<in> set (expansions (compile ''DROP DATABASE''))"
    by code_simp
  show "wordText (js ''drop'')" "hd (js ''drop'') < 128" "wordText (js ''Database'')" "hd (js ''Database'') < 128"
    "32 \<notin> set (js_upper (js ''drop''))" "32 \<notin> set (js_upper (js ''Database''))" by code_simp+
qed

section \<open>Statement heads\<close>

text \<open>The first word of every statement: symbols between semicolons, less opening parentheses.\<close>

definition headOf :: "jstr list \<Rightarrow> jstr list" where
  "headOf seg = map bareName (take 1 (dropWhile (\<lambda>s. s = js ''('') seg))"

definition statementHeads :: "jstr list \<Rightarrow> jstr list" where
  "statementHeads syms = concat (map headOf (split_on (js '';'') syms))"

text \<open>The heads still to come when the loop is inside a statement, or at the start of one.\<close>

definition headsFrom :: "bool \<Rightarrow> jstr list \<Rightarrow> jstr list" where
  "headsFrom atStart syms =
     concat (map headOf (if atStart then split_on (js '';'') syms else tl (split_on (js '';'') syms)))"

lemma headsFrom_Nil: "headsFrom b [] = []"
  by (simp add: headsFrom_def headOf_def)

lemma headsFrom_Cons:
  "headsFrom b (s # syms) =
     (if s = js '';'' then headsFrom True syms
      else if \<not> b \<or> s = js ''('' then headsFrom b syms
      else bareName s # headsFrom False syms)"
proof -
  obtain y ys where y: "split_on (js '';'') syms = y # ys" by (metis list.exhaust split_on_not_Nil)
  from y show ?thesis by (cases b) (auto simp: headsFrom_def headOf_def)
qed

lemma outsideLoop_find: "outsideLoop b syms = find (\<lambda>h. h \<notin> set CALLER_STATEMENTS) (headsFrom b syms)"
  by (induction b syms rule: outsideLoop.induct)
     (auto simp: headsFrom_Nil headsFrom_Cons simp del: js_Cons js_Nil)

lemma find_first: "find P xs = Some x \<Longrightarrow> list_all (\<lambda>y. \<not> P y) (takeWhile (\<lambda>y. y \<noteq> x) xs)"
  by (induction xs) (auto split: if_splits)

lemma empty_not_caller: "[] \<notin> set CALLER_STATEMENTS"
  by code_simp

text \<open>
  C8.  What a public key may run: in a query accepted for the anon or authenticated role, every
  statement up to the first that opens with the empty quoted identifier begins with one of the
  eight allowed words, however it is parenthesised.
\<close>

theorem public_key_allowlist:
  assumes "publicRole role" "findForbiddenSqlPattern query role = None"
  shows "list_all (\<lambda>h. h \<in> set CALLER_STATEMENTS)
    (takeWhile (\<lambda>h. h \<noteq> []) (statementHeads (map symbolOf (tokenize query))))"
proof -
  let ?hs = "statementHeads (map symbolOf (tokenize query))"
  have "firstStatementOutsideAllowlist (map symbolOf (tokenize query)) = find (\<lambda>h. h \<notin> set CALLER_STATEMENTS) ?hs"
    by (simp add: firstStatementOutsideAllowlist_def outsideLoop_find headsFrom_def statementHeads_def)
  with accepted(3) [OF assms(2,1)] consider "find (\<lambda>h. h \<notin> set CALLER_STATEMENTS) ?hs = None"
    | "find (\<lambda>h. h \<notin> set CALLER_STATEMENTS) ?hs = Some []"
    by (auto simp: truthy_def)
  then show ?thesis
  proof cases
    case 1
    then show ?thesis by (auto simp: find_None_iff list_all_iff dest: set_takeWhileD)
  next
    case 2
    from find_first [OF this] show ?thesis by simp
  qed
qed

theorem public_key_allowlist_witness:
  "list_all (\<lambda>h. h \<in> set CALLER_STATEMENTS)
    (takeWhile (\<lambda>h. h \<noteq> []) (statementHeads (map symbolOf (tokenize (js ''(select 1) union (select 2); delete from t'')))))"
  by (rule public_key_allowlist [of Anon]) (code_simp)+

text \<open>
  The clause about the empty identifier is needed: it is read as no finding at all, and the
  statements after it go unchecked.
\<close>

lemma empty_identifier_ends_the_check:
  "findForbiddenSqlPattern ([DQ, DQ] @ js ''; RESET ROLE'') Anon = None \<and>
   findForbiddenSqlPattern (js ''RESET ROLE'') Anon \<noteq> None"
  by code_simp

text \<open>
  The verdicts are ordered: what is refused for the owner is refused for every caller with the
  same label, the service role is judged as the owner is, and the two public roles alike.
\<close>

theorem verdicts_are_monotone:
  "(findForbiddenSqlPattern q Owner = Some label \<longrightarrow> findForbiddenSqlPattern q role = Some label) \<and>
   findForbiddenSqlPattern q ServiceRole = findForbiddenSqlPattern q Owner \<and>
   findForbiddenSqlPattern q Authenticated = findForbiddenSqlPattern q Anon"
  by (auto simp: findForbiddenSqlPattern_def Let_def split: option.splits)

theorem verdicts_are_monotone_witness:
  "findForbiddenSqlPattern (js ''copy t to program x'') Authenticated = Some (js ''COPY'')"
  using verdicts_are_monotone [of "js ''copy t to program x''" "js ''COPY''" Authenticated]
  by (rule conjunct1 [THEN mp]) code_simp

section \<open>The read-only path\<close>

lemma nonReadLoop_Suc: "nonReadLoop (Suc n) b syms = None \<longleftrightarrow> headsFrom b syms = []"
  by (induction syms arbitrary: b n) (auto simp: headsFrom_Nil headsFrom_Cons simp del: js_Cons js_Nil)

lemma nonReadLoop_0:
  "nonReadLoop 0 b syms = None \<longleftrightarrow> (\<exists>h. headsFrom b syms = [h] \<and> h \<in> set READ_STATEMENTS)"
  by (induction syms arbitrary: b)
     (auto simp: headsFrom_Nil headsFrom_Cons nonReadLoop_Suc simp del: js_Cons js_Nil)

text \<open>
  The read-only path accepts a query exactly when it holds one statement and that statement
  begins with SELECT, WITH, VALUES, TABLE or EXPLAIN.
\<close>

theorem read_only_accepts_one_read:
  "findNonReadStatement query = None \<longleftrightarrow>
     (\<exists>h. statementHeads (map symbolOf (tokenize query)) = [h] \<and> h \<in> set READ_STATEMENTS)"
  by (simp add: findNonReadStatement_def streamsOf_hd nonReadLoop_0 headsFrom_def statementHeads_def)

section \<open>Strings are data\<close>

lemma statementHeadLoop_in: "statementHeadLoop open syms k = Some h \<Longrightarrow> h \<in> set syms"
  by (induction k) (auto dest: nth_opt_in_set split: option.splits if_splits)

definition runsNoStrings :: "jstr list \<Rightarrow> bool" where
  "runsNoStrings syms \<longleftrightarrow>
     list_all (\<lambda>s. bareName s \<notin> set EXECUTABLE_STRING_HEADS \<and> bareName s \<noteq> js ''SET_CONFIG'') syms"

lemma runsNoStrings_streams:
  assumes "runsNoStrings (map symbolOf (tokenize q))"
  shows "streamsOf q = [toStream (tokenize q) False]"
proof -
  have "\<not> runsAsSql (map symbolOf (tokenize q)) False at t" for at t
    using assms by (auto simp: runsAsSql_def statementHead_def runsNoStrings_def list_all_iff
        dest!: statementHeadLoop_in split: option.splits)
  then show ?thesis
    by (auto simp: streamsOf_def MAX_LITERAL_DEPTH_def numeral_3_eq_3 Let_def toStream_def)
qed

lemma bareName_set_config: "bareName (js ''SET_CONFIG'') = js ''SET_CONFIG''"
  "bareName (DQ # js ''SET_CONFIG'' @ [DQ]) = js ''SET_CONFIG''"
  by code_simp+

lemma no_set_config:
  assumes "runsNoStrings (symbols st)"
  shows "\<not> isSetConfigCall (symbols st) i"
  using assms bareName_set_config
  by (auto simp: isSetConfigCall_def runsNoStrings_def list_all_iff simp del: js_Cons js_Nil dest!: nth_opt_in_set)

lemma checks_see_symbols:
  assumes "symbols a = symbols b" "literal a = literal b" "runsNoStrings (symbols a)"
  shows "checkForbidden a = checkForbidden b" "checkOwnerOnly a = checkOwnerOnly b"
proof -
  note n = no_set_config [OF assms(3)] no_set_config [of b, OF assms(3) [unfolded assms(1)]]
  have at: "forbiddenAt a = forbiddenAt b" "ownerOnlyAt a = ownerOnlyAt b"
    using assms(1,2) n
    by (auto simp: fun_eq_iff forbiddenAt_def ownerOnlyAt_def setConfigRole_def setConfigIdentitySetting_def Let_def
        split: option.splits)
  show "checkForbidden a = checkForbidden b" "checkOwnerOnly a = checkOwnerOnly b"
    by (simp_all only: checkForbidden_def checkOwnerOnly_def assms(1) at)
qed

text \<open>
  C11.  Strings are data: two queries that differ only in the contents of their string literals get
  the same verdict for every caller, unless some word of them runs strings as SQL (DO, EXECUTE,
  PREPARE, CREATE, ALTER, REFRESH) or writes a setting (\<open>set_config\<close>).
\<close>

theorem string_contents_are_data:
  assumes "map symbolOf (tokenize q1) = map symbolOf (tokenize q2)"
    and "runsNoStrings (map symbolOf (tokenize q1))"
  shows "findForbiddenSqlPattern q1 role = findForbiddenSqlPattern q2 role"
proof -
  let ?a = "toStream (tokenize q1) False" and ?b = "toStream (tokenize q2) False"
  have s: "streamsOf q1 = [?a]" "streamsOf q2 = [?b]"
    using assms runsNoStrings_streams by (metis, metis)
  have c: "checkForbidden ?a = checkForbidden ?b" "checkOwnerOnly ?a = checkOwnerOnly ?b"
    using assms by (auto intro!: checks_see_symbols simp: toStream_def)
  have "symbols ?a = symbols ?b" using assms(1) by (simp add: toStream_def)
  then show ?thesis
    by (simp only: findForbiddenSqlPattern_def Let_def s firstHit.simps c list.sel)
qed

theorem string_contents_are_data_witness:
  "findForbiddenSqlPattern (js ''INSERT INTO i18n VALUES ('' @ [SQ] @ js ''copy t to program x'' @ [SQ] @ js '')'') Anon =
   findForbiddenSqlPattern (js ''INSERT INTO i18n VALUES ('' @ [SQ] @ js ''a'' @ [SQ] @ js '')'') Anon"
  by (rule string_contents_are_data) code_simp+

section \<open>Role and identity\<close>

lemma checkForbidden_at: "checkForbidden st = None \<Longrightarrow> i < length (symbols st) \<Longrightarrow> forbiddenAt st i = None"
  by (auto simp: checkForbidden_def hits split: option.splits)

lemma checkOwnerOnly_at: "checkOwnerOnly st = None \<Longrightarrow> i < length (symbols st) \<Longrightarrow> ownerOnlyAt st i = None"
  by (auto simp: checkOwnerOnly_def hits split: option.splits)

lemma closingArg_scope: "closingArg syms prev d \<noteq> Authorization"
  by (induction syms prev d rule: closingArg.induct) auto

lemma setConfigRole_scope: "setConfigRole st i \<noteq> Some Authorization"
  using closingArg_scope by (simp add: setConfigRole_def)

lemma keepsSessionRole:
  fixes r :: "RoleScope option"
  shows "r \<noteq> Some Session \<Longrightarrow> r \<noteq> Some Authorization \<Longrightarrow> r \<in> {None, Some Local}"
  by (cases r) (auto intro: RoleScope.exhaust)

lemma forbiddenAt_role:
  assumes "forbiddenAt st i = None"
  shows "setRoleCommand (symbols st) i (literal st) \<in> {None, Some Local}" "setConfigRole st i \<in> {None, Some Local}"
  using assms setConfigRole_scope [of st i] unfolding forbiddenAt_def Let_def
  by (intro keepsSessionRole; simp split: option.splits if_splits)+

lemma ownerOnlyAt_none:
  assumes "ownerOnlyAt st i = None"
  shows "setRoleCommand (symbols st) i (literal st) \<noteq> Some Local" "setConfigRole st i \<noteq> Some Local"
    "\<not> setsIdentitySetting (symbols st) i (literal st)" "\<not> setConfigIdentitySetting st i"
  using assms unfolding ownerOnlyAt_def Let_def by (simp_all split: if_splits)

text \<open>
  The SET commands that change who the session is, as plain symbols at the start of a statement,
  with their scope, and those that change the JWT claims the row policies read.
\<close>

fun says :: "jstr list \<Rightarrow> nat \<Rightarrow> string list \<Rightarrow> bool" where
  "says syms i [] = True"
| "says syms i (w # ws) = (symIs syms i w \<and> says syms (i + 1) ws)"

definition startsStatement :: "jstr list \<Rightarrow> nat \<Rightarrow> bool" where
  "startsStatement syms i \<longleftrightarrow> i = 0 \<or> symIs syms (i - 1) '';''"

definition identityForms :: "(string list \<times> RoleScope) list" where
  "identityForms =
     [([''SET'', ''ROLE''], Session), ([''SET'', ''SESSION'', ''ROLE''], Session), ([''SET'', ''LOCAL'', ''ROLE''], Local),
      ([''SET'', ''SESSION'', ''AUTHORIZATION''], Authorization),
      ([''SET'', ''LOCAL'', ''SESSION'', ''AUTHORIZATION''], Authorization),
      ([''SET'', ''SESSION'', ''SESSION'', ''AUTHORIZATION''], Authorization)]"

definition claimForms :: "string list list" where
  "claimForms =
     concat (map (\<lambda>scope. map (\<lambda>eq. ''SET'' # scope @ [''REQUEST'', ''.'', ''JWT'', ''.'', ''CLAIMS'', eq]) [''='', ''TO''])
       [[], [''SESSION''], [''LOCAL'']])"

lemma startsStatement_set:
  "startsStatement syms i \<Longrightarrow> symIs syms i ''SET'' \<Longrightarrow> isSetCommand syms i lit"
  by (auto simp: startsStatement_def isSetCommand_def atStatementStart_def openers_def BODY_OPENERS_def CODE_OPENERS_def
      split: if_splits)

lemma identityForms_recognised:
  assumes "startsStatement syms i" "(ws, sc) \<in> set identityForms" "says syms i ws"
  shows "setRoleCommand syms i lit = Some sc"
  using assms startsStatement_set [of syms i lit]
  by (auto simp: identityForms_def setRoleCommand_def Let_def bareAt_def bareName_def add.assoc)

lemma skipDotted_claims:
  assumes "symIs syms j ''.''" "symIs syms (j + 1) ''CLAIMS''" "symIs syms (j + 2) w" "js w \<noteq> js ''.''"
  shows "skipDotted syms j = j + 2"
  using assms by (subst skipDotted.simps, subst skipDotted.simps) (auto simp: nth_opt_Some_iff)

lemma claimForms_recognised:
  assumes "startsStatement syms i" "ws \<in> set claimForms" "says syms i ws"
  shows "setsIdentitySetting syms i lit"
proof -
  have s: "isSetCommand syms i lit" if "symIs syms i ''SET''"
    using startsStatement_set [OF assms(1) that] .
  from assms(2) consider eq where "eq \<in> {''='', ''TO''}" "ws = [''SET'', ''REQUEST'', ''.'', ''JWT'', ''.'', ''CLAIMS'', eq]"
    | eq scope where "eq \<in> {''='', ''TO''}" "scope \<in> {''SESSION'', ''LOCAL''}"
        "ws = [''SET'', scope, ''REQUEST'', ''.'', ''JWT'', ''.'', ''CLAIMS'', eq]"
    by (auto simp: claimForms_def)
  then show ?thesis
  proof cases
    case 1
    with assms(3) have "symIs syms (i + 4) ''.''" "symIs syms (i + 4 + 1) ''CLAIMS''" "symIs syms (i + 4 + 2) eq"
      "js eq \<noteq> js ''.''"
      by (auto simp: numeral_eq_Suc)
    then have "skipDotted syms (i + 4) = i + 4 + 2" by (rule skipDotted_claims)
    with 1 assms(3) s show ?thesis
      by (auto simp: setsIdentitySetting_def Let_def bareAt_def bareName_def numeral_eq_Suc)
  next
    case 2
    with assms(3) have "symIs syms (i + 5) ''.''" "symIs syms (i + 5 + 1) ''CLAIMS''" "symIs syms (i + 5 + 2) eq"
      "js eq \<noteq> js ''.''"
      by (auto simp: numeral_eq_Suc)
    then have "skipDotted syms (i + 5) = i + 5 + 2" by (rule skipDotted_claims)
    with 2 assms(3) s show ?thesis
      by (auto simp: setsIdentitySetting_def Let_def bareAt_def bareName_def numeral_eq_Suc)
  qed
qed

text \<open>Who a query leaves the session as: \<open>Local\<close> changes end with the transaction.\<close>

definition keepsIdentity :: "SqlCallerRole \<Rightarrow> Stream \<Rightarrow> nat \<Rightarrow> bool" where
  "keepsIdentity role st i \<longleftrightarrow>
     (startsStatement (symbols st) i \<longrightarrow>
        list_all (\<lambda>(ws, sc). says (symbols st) i ws \<longrightarrow> sc = Local \<and> \<not> publicRole role) identityForms \<and>
        (publicRole role \<longrightarrow> list_all (\<lambda>ws. \<not> says (symbols st) i ws) claimForms)) \<and>
     (if publicRole role then setConfigRole st i = None \<and> \<not> setConfigIdentitySetting st i
      else setConfigRole st i \<in> {None, Some Local})"

lemma keepsIdentityI:
  assumes "setRoleCommand (symbols st) i (literal st) \<in> (if publicRole role then {None} else {None, Some Local})"
    "publicRole role \<Longrightarrow> \<not> setsIdentitySetting (symbols st) i (literal st)"
    "if publicRole role then setConfigRole st i = None \<and> \<not> setConfigIdentitySetting st i
     else setConfigRole st i \<in> {None, Some Local}"
  shows "keepsIdentity role st i"
proof -
  have a: "sc = Local \<and> \<not> publicRole role"
    if "startsStatement (symbols st) i" "(ws, sc) \<in> set identityForms" "says (symbols st) i ws" for ws sc
    using identityForms_recognised [OF that, of "literal st"] assms(1) by (auto split: if_splits)
  have b: "\<not> says (symbols st) i ws"
    if "startsStatement (symbols st) i" "publicRole role" "ws \<in> set claimForms" for ws
    using claimForms_recognised [OF that(1,3), of "literal st"] assms(2) that(2) by blast
  from a b assms(3) show ?thesis unfolding keepsIdentity_def list_all_iff by blast
qed

lemma keepsIdentity_beyond: "length (symbols st) \<le> i \<Longrightarrow> keepsIdentity role st i"
  by (rule keepsIdentityI)
    (simp_all add: setRoleCommand_def setConfigRole_def setsIdentitySetting_def
      setConfigIdentitySetting_def isSetCommand_def isSetConfigCall_def nth_opt_def)



section \<open>Labels\<close>

lemma forbidden_labels:
  "list_all (\<lambda>(l, p). l \<in> set FORBIDDEN_PATTERNS) FORBIDDEN_SEQUENCES"
  "list_all (\<lambda>(k, l). l \<in> set FORBIDDEN_PATTERNS) FORBIDDEN_NAMES"
  "list_all (\<lambda>(l, p). l \<in> set OWNER_ONLY_PATTERNS) OWNER_ONLY_SEQUENCES"
  "list_all (\<lambda>l. l \<in> set FORBIDDEN_PATTERNS) [''DBLINK'', ''SET ROLE'', ''SET SESSION AUTHORIZATION'', ''COPY'', ''LOAD'', ''GRANT'', ''REVOKE'']"
  "list_all (\<lambda>l. l \<in> set OWNER_ONLY_PATTERNS) [''SET LOCAL ROLE'', ''SET request.jwt.*'', ''TRUNCATE'']"
  by code_simp+

lemma forbiddenCommand_label:
  "forbiddenCommand syms i lit = Some l \<Longrightarrow> l \<in> set [''COPY'', ''LOAD'', ''GRANT'', ''REVOKE'']"
  unfolding forbiddenCommand_def Let_def by (simp split: if_splits)

lemma forbiddenAt_label: "forbiddenAt st i = Some l \<Longrightarrow> l \<in> set FORBIDDEN_PATTERNS"
  using forbidden_labels(2,4) forbiddenCommand_label [of "symbols st" i "literal st" l]
  unfolding forbiddenAt_def Let_def list_all_iff
  by (auto split: option.splits if_splits dest!: map_of_SomeD)

lemma ownerOnlyAt_label: "ownerOnlyAt st i = Some l \<Longrightarrow> l \<in> set OWNER_ONLY_PATTERNS"
  using forbidden_labels(5) unfolding ownerOnlyAt_def Let_def list_all_iff by (auto split: if_splits)

lemma checkForbidden_label: "checkForbidden st = Some l \<Longrightarrow> l \<in> set FORBIDDEN_PATTERNS"
  using forbidden_labels(1)
  by (auto simp: checkForbidden_def list_all_iff dest!: firstSequence_Some firstHit_Some forbiddenAt_label
      split: option.splits)

lemma checkOwnerOnly_label: "checkOwnerOnly st = Some l \<Longrightarrow> l \<in> set OWNER_ONLY_PATTERNS"
  using forbidden_labels(3)
  by (auto simp: checkOwnerOnly_def list_all_iff dest!: firstSequence_Some firstHit_Some ownerOnlyAt_label
      split: option.splits)

text \<open>
  Every refusal is documented: its label is one of \<open>FORBIDDEN_PATTERNS\<close>, or, for a public
  key only, one of \<open>OWNER_ONLY_PATTERNS\<close> or the allowlist message that names the refused word.
\<close>

theorem refusals_are_documented:
  assumes "findForbiddenSqlPattern query role = Some label"
  shows "label \<in> js ` set FORBIDDEN_PATTERNS \<or>
    (publicRole role \<and> (label \<in> js ` set OWNER_ONLY_PATTERNS \<or>
       (\<exists>w. w \<noteq> [] \<and> w \<notin> set CALLER_STATEMENTS \<and> label = publicKeyMessage w)))"
proof (cases "firstHit checkForbidden (streamsOf query)")
  case (Some l)
  with assms show ?thesis
    by (auto simp: findForbiddenSqlPattern_def dest!: firstHit_Some checkForbidden_label)
next
  case None
  with assms have p: "publicRole role"
    by (auto simp: findForbiddenSqlPattern_def publicRole_iff Let_def split: if_splits)
  let ?o = "firstStatementOutsideAllowlist (symbols (hd (streamsOf query)))"
  show ?thesis
  proof (cases "truthy ?o")
    case True
    then obtain w where w: "?o = Some w" "w \<noteq> []" by (auto simp: truthy_def)
    then have "w \<notin> set CALLER_STATEMENTS"
      by (auto simp: firstStatementOutsideAllowlist_def outsideLoop_find find_Some_iff)
    with w assms None p True show ?thesis
      by (auto simp: findForbiddenSqlPattern_def publicRole_iff Let_def)
  next
    case False
    with assms None p have "map_option js (firstHit checkOwnerOnly (streamsOf query)) = Some label"
      by (simp add: findForbiddenSqlPattern_def publicRole_iff Let_def)
    with p show ?thesis by (auto dest!: firstHit_Some checkOwnerOnly_label)
  qed
qed

theorem refusals_are_documented_witness:
  "js ''LOAD'' \<in> js ` set FORBIDDEN_PATTERNS \<or>
    (publicRole Anon \<and> (js ''LOAD'' \<in> js ` set OWNER_ONLY_PATTERNS \<or>
       (\<exists>w. w \<noteq> [] \<and> w \<notin> set CALLER_STATEMENTS \<and> js ''LOAD'' = publicKeyMessage w)))"
  by (rule refusals_are_documented [of "js ''LOAD x''"]) code_simp

end
