(* ===== verification/TopoSort.thy ===== *)
theory TopoSort
  imports Prelude "HOL-Library.Multiset"
begin

text \<open>
  The ordering of provisioning plan actions, \<open>modules/provisioning/provisioning-topo-sort.ts\<close>: the
  dependency graph with its explicit and type-order edges, Kahn's algorithm, and the proof that it
  returns a dependency order exactly when the graph has no cycle.
\<close>

section \<open>The code\<close>

text \<open>What the sort reads of an action; the rest of the action is \<open>'a\<close>, the record's extension.\<close>

record TopoItem =
  resourceType :: jstr
  resourceName :: jstr
  dependencies :: "jstr list option"

text \<open>
  \<open>TYPE_ORDER[t.toLowerCase()] ?? 99\<close>.  The table is a plain object, so the two lower-case members
  it inherits are found too; they are no numbers and compare as NaN does, here \<open>None\<close>.
\<close>

definition TYPE_ORDER :: "(jstr \<times> int option) list" where
  "TYPE_ORDER = [(js ''network'', Some 0), (js ''server'', Some 1), (js ''volume'', Some 2),
                 (js ''constructor'', None), (js ''__proto__'', None)]"

definition typePriority :: "jstr \<Rightarrow> int option" where
  "typePriority t = (case map_of TYPE_ORDER (js_lower t) of Some p \<Rightarrow> p | None \<Rightarrow> Some 99)"

definition lessNum :: "int option \<Rightarrow> int option \<Rightarrow> bool" where
  "lessNum a b = (case (a, b) of (Some x, Some y) \<Rightarrow> x < y | _ \<Rightarrow> False)"

definition key :: "('a) TopoItem_scheme \<Rightarrow> jstr" where
  "key a = js_lower (resourceType a) @ js '':'' @ resourceName a"

text \<open>\<open>new Map(actions.map((a, i) => [key(a), i]))\<close>: the last entry of a key wins.\<close>

definition indexByKey :: "('a) TopoItem_scheme list \<Rightarrow> jstr \<Rightarrow> nat option" where
  "indexByKey actions = map_of (rev (zip (map key actions) [0..<length actions]))"

record Graph =
  adj :: "nat list list"
  inDegree :: "int list"
  seen :: "(nat \<times> nat) list"

definition emptyGraph :: "nat \<Rightarrow> Graph" where
  "emptyGraph n = \<lparr>adj = replicate n [], inDegree = replicate n 0, seen = []\<rparr>"

definition addEdge :: "Graph \<Rightarrow> nat \<times> nat \<Rightarrow> Graph" where
  "addEdge g e =
     (if e \<in> set (seen g) then g
      else case e of (from, to) \<Rightarrow>
        \<lparr>adj = (adj g)[from := adj g ! from @ [to]],
         inDegree = (inDegree g)[to := inDegree g ! to + 1],
         seen = e # seen g\<rparr>)"

text \<open>The calls of \<open>addEdge\<close>, in order: dependencies first, then type order.\<close>

definition explicitEdges :: "('a) TopoItem_scheme list \<Rightarrow> (nat \<times> nat) list" where
  "explicitEdges actions =
     concat (map (\<lambda>i. concat (map (\<lambda>depKey.
        case indexByKey actions (js_lower depKey) of
          None \<Rightarrow> []
        | Some depIdx \<Rightarrow> if depIdx = i then [] else [(depIdx, i)])
        (case dependencies (actions ! i) of None \<Rightarrow> [] | Some ds \<Rightarrow> ds)))
      [0..<length actions])"

definition typeEdges :: "('a) TopoItem_scheme list \<Rightarrow> (nat \<times> nat) list" where
  "typeEdges actions =
     concat (map (\<lambda>i. concat (map (\<lambda>j.
        if i = j then []
        else if lessNum (typePriority (resourceType (actions ! i))) (typePriority (resourceType (actions ! j)))
        then [(i, j)] else [])
      [0..<length actions])) [0..<length actions])"

definition buildGraph :: "('a) TopoItem_scheme list \<Rightarrow> Graph" where
  "buildGraph actions =
     foldl addEdge (emptyGraph (length actions)) (explicitEdges actions @ typeEdges actions)"

text \<open>\<open>for (const next of adj[idx]) if (--inDegree[next] === 0) queue.push(next)\<close>.\<close>

fun relax :: "nat list \<Rightarrow> int list \<Rightarrow> nat list \<Rightarrow> int list \<times> nat list" where
  "relax [] deg queue = (deg, queue)"
| "relax (next # ns) deg queue =
     (let deg' = deg[next := deg ! next - 1]
      in relax ns deg' (if next < length deg \<and> deg' ! next = 0 then queue @ [next] else queue))"

text \<open>How many nodes still wait: what shrinks while the queue is refilled.\<close>

definition waiting :: "int list \<Rightarrow> nat" where
  "waiting deg = length (filter (\<lambda>d. d > 0) deg)"

lemma waiting_update:
  "i < length deg \<Longrightarrow> waiting (deg[i := d]) + (if deg ! i > 0 then 1 else 0) = waiting deg + (if d > 0 then 1 else 0)"
proof (induction deg arbitrary: i)
  case (Cons x deg)
  then show ?case by (cases i) (auto simp: waiting_def)
qed simp

lemma relax_measure:
  "relax ns deg queue = (deg', queue') \<Longrightarrow> waiting deg' + length queue' \<le> waiting deg + length queue"
proof (induction ns deg queue rule: relax.induct)
  case (2 nx ns deg queue)
  let ?deg = "deg[nx := deg ! nx - 1]"
  have "waiting deg' + length queue' \<le>
      waiting ?deg + length (if nx < length deg \<and> ?deg ! nx = 0 then queue @ [nx] else queue)"
    using 2 by (simp add: Let_def)
  also have "\<dots> \<le> waiting deg + length queue"
  proof (cases "nx < length deg")
    case True
    define d where "d = deg ! nx - 1"
    have "deg ! nx = d + 1" by (simp add: d_def)
    with True waiting_update [of nx deg d] show ?thesis by (auto split: if_splits)
  qed (simp add: list_update_beyond)
  finally show ?case .
qed simp

function kahn :: "nat list list \<Rightarrow> nat list \<Rightarrow> int list \<Rightarrow> nat list \<Rightarrow> nat list" where
  "kahn ad [] deg order = order"
| "kahn ad (idx # queue) deg order =
     (case relax (ad ! idx) deg queue of (deg', queue') \<Rightarrow> kahn ad queue' deg' (order @ [idx]))"
  by pat_completeness auto
termination
proof (relation "measure (\<lambda>(ad, queue, deg, order). waiting deg + length queue)", simp, goal_cases)
  case (1 ad idx queue deg order deg' queue')
  with relax_measure [of "ad ! idx" deg queue deg' queue'] show ?case by simp
qed

definition kahnOrder :: "('a) TopoItem_scheme list \<Rightarrow> nat list" where
  "kahnOrder actions =
     (let g = buildGraph actions
      in kahn (adj g) (filter (\<lambda>i. inDegree g ! i = 0) [0..<length actions]) (inDegree g) [])"

datatype TopoError = CircularDependencyError "jstr list"

definition topoSort :: "('a) TopoItem_scheme list \<Rightarrow> TopoError + ('a) TopoItem_scheme list" where
  "topoSort actions =
     (if actions = [] then Inr []
      else (let result = map (\<lambda>idx. actions ! idx) (kahnOrder actions) in
            if length result \<noteq> length actions
            then Inl (CircularDependencyError
                   (map key (filter (\<lambda>a. key a \<notin> set (map key result)) actions)))
            else Inr result))"

section \<open>The graph\<close>

text \<open>The arcs of a graph, and what \<open>addEdge\<close> keeps: degrees count arcs, adjacency has no duplicates.\<close>

definition arcs :: "Graph \<Rightarrow> (nat \<times> nat) set" where
  "arcs g = {(u, v). u < length (adj g) \<and> v \<in> set (adj g ! u)}"

definition graphOk :: "nat \<Rightarrow> Graph \<Rightarrow> bool" where
  "graphOk n g \<longleftrightarrow> length (adj g) = n \<and> length (inDegree g) = n \<and> set (seen g) = arcs g \<and>
     arcs g \<subseteq> {..<n} \<times> {..<n} \<and> (\<forall>u<n. distinct (adj g ! u)) \<and>
     (\<forall>v<n. inDegree g ! v = int (card {u. (u, v) \<in> arcs g}))"

lemma graphOk_empty: "graphOk n (emptyGraph n) \<and> arcs (emptyGraph n) = {}"
  by (auto simp: graphOk_def arcs_def emptyGraph_def)

lemma preds_finite: "A \<subseteq> {..<n} \<times> {..<n} \<Longrightarrow> finite {u. (u, v) \<in> (A :: (nat \<times> nat) set)}"
  by (rule finite_subset [of _ "{..<n}"]) auto

lemma addEdge_arcs:
  assumes "graphOk n g" "u < n" "v < n"
  shows "arcs (addEdge g (u, v)) = insert (u, v) (arcs g)"
  using assms by (auto simp: addEdge_def graphOk_def arcs_def nth_list_update split: if_splits)

lemma addEdge_ok:
  assumes "graphOk n g" "u < n" "v < n"
  shows "graphOk n (addEdge g (u, v))"
proof (cases "(u, v) \<in> set (seen g)")
  case False
  then have new: "(u, v) \<notin> arcs g" "v \<notin> set (adj g ! u)"
    using assms by (auto simp: graphOk_def arcs_def)
  let ?g = "addEdge g (u, v)"
  note arcs = addEdge_arcs [OF assms]
  have deg: "inDegree ?g ! w = int (card {x. (x, w) \<in> arcs ?g})" if "w < n" for w
  proof (cases "w = v")
    case True
    have "{x. (x, v) \<in> arcs ?g} = insert u {x. (x, v) \<in> arcs g}" using arcs by auto
    moreover have "finite {x. (x, v) \<in> arcs g}" using assms(1) by (auto simp: graphOk_def intro: preds_finite)
    ultimately show ?thesis using True new assms False by (simp add: addEdge_def graphOk_def)
  next
    case w: False
    then have "{x. (x, w) \<in> arcs ?g} = {x. (x, w) \<in> arcs g}" using arcs by auto
    then show ?thesis using w that assms False by (simp add: addEdge_def graphOk_def)
  qed
  have "\<forall>w<n. distinct (adj ?g ! w)"
    using assms new False by (auto simp: addEdge_def graphOk_def nth_list_update)
  moreover have "arcs ?g \<subseteq> {..<n} \<times> {..<n}" using arcs assms by (auto simp: graphOk_def)
  moreover have "set (seen ?g) = arcs ?g" using arcs assms False by (auto simp: addEdge_def graphOk_def)
  ultimately show ?thesis
    using deg assms False by (simp add: graphOk_def) (simp add: addEdge_def)
qed (use assms in \<open>simp add: addEdge_def\<close>)

lemma addEdges_ok:
  assumes "graphOk n g" "set es \<subseteq> {..<n} \<times> {..<n}"
  shows "graphOk n (foldl addEdge g es) \<and> arcs (foldl addEdge g es) = arcs g \<union> set es"
  using assms
proof (induction es arbitrary: g)
  case (Cons e es)
  obtain u v where e: "e = (u, v)" by (cases e)
  with Cons.prems have "graphOk n (addEdge g e)" "arcs (addEdge g e) = insert e (arcs g)"
    using addEdge_ok [of n g u v] addEdge_arcs [of n g u v] by simp_all
  with Cons show ?case by auto
qed simp

lemma indexByKey_lt: "indexByKey actions k = Some i \<Longrightarrow> i < length actions \<and> key (actions ! i) = k"
  by (auto simp: indexByKey_def in_set_zip dest!: map_of_SomeD)

definition edges :: "('a) TopoItem_scheme list \<Rightarrow> (nat \<times> nat) set" where
  "edges actions = set (explicitEdges actions) \<union> set (typeEdges actions)"

lemma edges_bounded: "edges actions \<subseteq> {..<length actions} \<times> {..<length actions}"
  by (auto simp: edges_def explicitEdges_def typeEdges_def dest!: indexByKey_lt [OF sym] split: option.splits if_splits)

lemma buildGraph_ok: "graphOk (length actions) (buildGraph actions) \<and> arcs (buildGraph actions) = edges actions"
  using addEdges_ok [of "length actions" "emptyGraph (length actions)" "explicitEdges actions @ typeEdges actions"]
    edges_bounded [of actions] graphOk_empty [of "length actions"]
  by (simp add: buildGraph_def edges_def)

section \<open>Kahn's algorithm\<close>

text \<open>Every predecessor of an entry of the order stands before it.\<close>

definition ordered :: "(nat \<times> nat) set \<Rightarrow> nat list \<Rightarrow> bool" where
  "ordered E order \<longleftrightarrow> (\<forall>i<length order. \<forall>u. (u, order ! i) \<in> E \<longrightarrow> u \<in> set (take i order))"

lemma ordered_snoc: "ordered E (xs @ [x]) \<longleftrightarrow> ordered E xs \<and> (\<forall>u. (u, x) \<in> E \<longrightarrow> u \<in> set xs)"
  by (fastforce simp: ordered_def nth_append less_Suc_eq)

definition openPreds :: "(nat \<times> nat) set \<Rightarrow> nat list \<Rightarrow> nat \<Rightarrow> nat set" where
  "openPreds E order v = {u. (u, v) \<in> E \<and> u \<notin> set order}"

definition kahnInv :: "nat \<Rightarrow> (nat \<times> nat) set \<Rightarrow> nat list \<Rightarrow> int list \<Rightarrow> nat list \<Rightarrow> bool" where
  "kahnInv n E queue deg order \<longleftrightarrow>
     distinct (order @ queue) \<and> set (order @ queue) \<subseteq> {..<n} \<and> length deg = n \<and>
     (\<forall>v<n. deg ! v = int (card (openPreds E order v))) \<and>
     (\<forall>v<n. v \<in> set (order @ queue) \<longleftrightarrow> deg ! v = 0) \<and> ordered E order"

lemma relax_spec:
  "distinct ns \<Longrightarrow> set ns \<subseteq> {..<length deg} \<Longrightarrow> relax ns deg queue = (deg', queue') \<Longrightarrow>
     length deg' = length deg \<and> (\<forall>v<length deg. deg' ! v = deg ! v - (if v \<in> set ns then 1 else 0)) \<and>
     queue' = queue @ filter (\<lambda>v. deg ! v = 1) ns"
proof (induction ns deg queue rule: relax.induct)
  case (2 nx ns deg queue)
  have "filter (\<lambda>v. deg[nx := deg ! nx - 1] ! v = 1) ns = filter (\<lambda>v. deg ! v = 1) ns"
    using "2.prems"(1) by (intro filter_cong refl) (metis distinct.simps(2) nth_list_update_neq)
  with 2 show ?case by (auto simp: Let_def nth_list_update)
qed simp

text \<open>A graph in the form the algorithm walks it: adjacency lists without duplicates.\<close>

locale arc_lists =
  fixes n :: nat and ad :: "nat list list" and E :: "(nat \<times> nat) set"
  assumes bounded: "E \<subseteq> {..<n} \<times> {..<n}"
    and adjacent: "u < n \<Longrightarrow> v \<in> set (ad ! u) \<longleftrightarrow> (u, v) \<in> E"
    and distinct_ad: "u < n \<Longrightarrow> distinct (ad ! u)"
begin

lemma openPreds_finite: "finite (openPreds E order v)"
  by (rule finite_subset [of _ "{..<n}"]) (use bounded in \<open>auto simp: openPreds_def\<close>)

lemma openPreds_step:
  "idx \<notin> set order \<Longrightarrow>
     int (card (openPreds E (order @ [idx]) v)) = int (card (openPreds E order v)) - (if (idx, v) \<in> E then 1 else 0)"
proof -
  assume i: "idx \<notin> set order"
  have eq: "openPreds E (order @ [idx]) v = openPreds E order v - {idx}" by (auto simp: openPreds_def)
  have mem: "idx \<in> openPreds E order v \<longleftrightarrow> (idx, v) \<in> E" using i by (simp add: openPreds_def)
  show ?thesis
  proof (cases "(idx, v) \<in> E")
    case True
    with mem openPreds_finite [of order v] have "card (openPreds E order v) > 0" by (auto simp: card_gt_0_iff)
    with True mem show ?thesis by (simp add: eq card_Diff_singleton of_nat_diff)
  next
    case False
    with mem show ?thesis by (simp add: eq)
  qed
qed

lemma kahn_step:
  assumes "kahnInv n E (idx # queue) deg order" "relax (ad ! idx) deg queue = (deg', queue')"
  shows "kahnInv n E queue' deg' (order @ [idx])"
proof -
  from assms(1) have i: "idx < n" "idx \<notin> set order" "deg ! idx = 0" "length deg = n"
    "distinct (order @ idx # queue)" "set (order @ idx # queue) \<subseteq> {..<n}" "ordered E order"
    and deg: "\<And>v. v < n \<Longrightarrow> deg ! v = int (card (openPreds E order v))"
    and zero: "\<And>v. v < n \<Longrightarrow> v \<in> set (order @ idx # queue) \<longleftrightarrow> deg ! v = 0"
    by (auto simp: kahnInv_def)
  have "set (ad ! idx) \<subseteq> {..<length deg}" using adjacent [OF i(1)] bounded i(4) by auto
  from relax_spec [OF distinct_ad [OF i(1)] this assms(2)] i(4)
  have d': "length deg' = n" "\<And>v. v < n \<Longrightarrow> deg' ! v = deg ! v - (if (idx, v) \<in> E then 1 else 0)"
    and q': "queue' = queue @ filter (\<lambda>v. deg ! v = 1) (ad ! idx)"
    using adjacent [OF i(1)] by auto
  have fresh: "set (filter (\<lambda>v. deg ! v = 1) (ad ! idx)) = {v. v < n \<and> (idx, v) \<in> E \<and> deg ! v = 1}"
    using adjacent [OF i(1)] bounded by auto
  have succ: "deg ! v > 0" if "(idx, v) \<in> E" for v
  proof -
    have "v < n" using that bounded by auto
    moreover have "idx \<in> openPreds E order v" using that i(2) by (simp add: openPreds_def)
    ultimately show ?thesis using deg [of v] openPreds_finite [of order v] by (auto simp: card_gt_0_iff)
  qed
  have preds: "u \<in> set order" if "(u, idx) \<in> E" for u
    using deg [OF i(1)] i(3) openPreds_finite [of order idx] that by (auto simp: openPreds_def)
  have old: "deg ! v = 0" if "v \<in> set (order @ idx # queue)" for v
    using that i(6) zero [of v] by blast
  have "set (order @ idx # queue) \<inter> set (filter (\<lambda>v. deg ! v = 1) (ad ! idx)) = {}"
    using old by fastforce
  then have "distinct ((order @ [idx]) @ queue')"
    using i(5) q' distinct_ad [OF i(1)] by auto
  moreover have "set ((order @ [idx]) @ queue') \<subseteq> {..<n}" using i q' fresh by auto
  moreover have "deg' ! v = int (card (openPreds E (order @ [idx]) v))" if "v < n" for v
    using d'(2) [OF that] deg [OF that] openPreds_step [OF i(2)] by simp
  moreover have "v \<in> set ((order @ [idx]) @ queue') \<longleftrightarrow> deg' ! v = 0" if v: "v < n" for v
  proof -
    have "v \<in> set ((order @ [idx]) @ queue') \<longleftrightarrow> v \<in> set (order @ idx # queue) \<or> ((idx, v) \<in> E \<and> deg ! v = 1)"
      unfolding q' using fresh v by auto
    with zero [OF v] d'(2) [OF v] succ [of v] show ?thesis by auto
  qed
  moreover have "ordered E (order @ [idx])" using i(7) preds by (simp add: ordered_snoc)
  ultimately show ?thesis using d'(1) by (simp add: kahnInv_def)
qed

lemma kahn_inv: "kahnInv n E queue deg order \<Longrightarrow> \<exists>deg'. kahnInv n E [] deg' (kahn ad queue deg order)"
proof (induction "waiting deg + length queue" arbitrary: queue deg order rule: less_induct)
  case less
  show ?case
  proof (cases queue)
    case Nil
    with less.prems show ?thesis by auto
  next
    case (Cons idx rest)
    obtain deg' queue' where r: "relax (ad ! idx) deg rest = (deg', queue')" by (cases "relax (ad ! idx) deg rest")
    with relax_measure [OF r] less.prems Cons have "\<exists>d. kahnInv n E [] d (kahn ad queue' deg' (order @ [idx]))"
      by (intro less.hyps kahn_step [of idx rest deg]) auto
    with Cons r show ?thesis by simp
  qed
qed

text \<open>The order is complete exactly when the graph has no cycle.\<close>

lemma complete_iff_acyclic:
  assumes "kahnInv n E [] deg order"
  shows "length order = n \<longleftrightarrow> acyclic E"
proof -
  from assms have o: "distinct order" "set order \<subseteq> {..<n}" "ordered E order"
    and deg: "\<And>v. v < n \<Longrightarrow> v \<notin> set order \<Longrightarrow> openPreds E order v \<noteq> {}"
    by (auto simp: kahnInv_def)
  have fin: "finite E" using bounded by (rule finite_subset) simp
  have full: "length order = n \<longleftrightarrow> set order = {..<n}"
  proof
    assume "length order = n"
    then have "card (set order) = card {..<n}" using o(1) by (simp add: distinct_card)
    with o(2) show "set order = {..<n}" by (simp add: card_subset_eq)
  next
    assume "set order = {..<n}"
    then have "card (set order) = n" by simp
    with o(1) show "length order = n" by (simp add: distinct_card)
  qed
  show ?thesis
  proof
    assume "length order = n"
    define pos where "pos v = (THE i. i < n \<and> order ! i = v)" for v
    have pos: "pos (order ! i) = i" if "i < n" for i
      unfolding pos_def using that o(1) \<open>length order = n\<close> by (auto simp: nth_eq_iff_index_eq intro!: the_equality)
    have "pos u < pos v" if "(u, v) \<in> E" for u v
    proof -
      have "v \<in> set order" using that bounded full \<open>length order = n\<close> by auto
      then obtain i where i: "i < n" "order ! i = v" using \<open>length order = n\<close> by (auto simp: in_set_conv_nth)
      then have "u \<in> set (take i order)" using o(3) that \<open>length order = n\<close> by (auto simp: ordered_def)
      then obtain j where "j < i" "order ! j = u" using i \<open>length order = n\<close> by (auto simp: in_set_conv_nth)
      with i pos [of i] pos [of j] show ?thesis by auto
    qed
    then have "E \<subseteq> measure pos" by auto
    then show "acyclic E" by (meson wf_acyclic wf_measure wf_subset)
  next
    assume "acyclic E"
    then have wf: "wf E" using fin by (simp add: finite_acyclic_wf)
    have "{..<n} - set order = {}"
    proof (rule ccontr)
      assume "{..<n} - set order \<noteq> {}"
      then obtain v where v: "v \<in> {..<n} - set order" "\<And>u. (u, v) \<in> E \<Longrightarrow> u \<notin> {..<n} - set order"
        using wf by (metis wfE_min ex_in_conv)
      with deg [of v] bounded show False by (auto simp: openPreds_def)
    qed
    with o(2) full show "length order = n" by auto
  qed
qed

end

text \<open>The graph the sort builds is such a graph.\<close>

interpretation tg: arc_lists "length actions" "adj (buildGraph actions)" "edges actions" for actions
proof
  show "edges actions \<subseteq> {..<length actions} \<times> {..<length actions}" by (rule edges_bounded)
  show "v \<in> set (adj (buildGraph actions) ! u) \<longleftrightarrow> (u, v) \<in> edges actions" if "u < length actions" for u v
    using buildGraph_ok [of actions] that by (auto simp: graphOk_def arcs_def)
  show "distinct (adj (buildGraph actions) ! u)" if "u < length actions" for u
    using buildGraph_ok [of actions] that by (auto simp: graphOk_def)
qed

lemma kahn_start:
  "kahnInv (length actions) (edges actions) (filter (\<lambda>i. inDegree (buildGraph actions) ! i = 0) [0..<length actions])
     (inDegree (buildGraph actions)) []"
  using buildGraph_ok [of actions] by (auto simp: kahnInv_def graphOk_def ordered_def openPreds_def)

lemma kahnOrder_inv: "\<exists>deg. kahnInv (length actions) (edges actions) [] deg (kahnOrder actions)"
  unfolding kahnOrder_def Let_def by (rule tg.kahn_inv [OF kahn_start])

section \<open>What the sort guarantees\<close>

text \<open>\<open>ys\<close> lists the actions in an order in which every edge goes forward.\<close>

definition dependencyOrder :: "('a) TopoItem_scheme list \<Rightarrow> ('a) TopoItem_scheme list \<Rightarrow> bool" where
  "dependencyOrder actions ys \<longleftrightarrow>
     (\<exists>p. distinct p \<and> set p = {..<length actions} \<and> ys = map (\<lambda>i. actions ! i) p \<and> ordered (edges actions) p)"

lemma topoSort_cases:
  "(acyclic (edges actions) \<and> topoSort actions = Inr (map (\<lambda>i. actions ! i) (kahnOrder actions)) \<and>
     length (kahnOrder actions) = length actions) \<or>
   (\<not> acyclic (edges actions) \<and> topoSort actions = Inl (CircularDependencyError
      (map key (filter (\<lambda>a. key a \<notin> set (map key (map (\<lambda>i. actions ! i) (kahnOrder actions)))) actions))))"
proof (cases "actions = []")
  case True
  then show ?thesis
    using edges_bounded [of actions] kahnOrder_inv [of actions]
    by (auto simp: topoSort_def kahnInv_def acyclic_def)
next
  case False
  then show ?thesis
    using kahnOrder_inv [of actions] tg.complete_iff_acyclic [of actions] by (auto simp: topoSort_def Let_def)
qed

text \<open>
  C14.  The sort succeeds exactly when the dependency graph has no cycle, and then it returns every
  action exactly once, in an order in which each action comes after everything it depends on,
  explicitly or by its type.
\<close>

theorem topoSort_correct:
  "(acyclic (edges actions) \<longrightarrow> (\<exists>ys. topoSort actions = Inr ys)) \<and>
   (\<not> acyclic (edges actions) \<longrightarrow> (\<exists>c. topoSort actions = Inl (CircularDependencyError c))) \<and>
   (topoSort actions = Inr ys \<longrightarrow> dependencyOrder actions ys \<and> mset ys = mset actions)"
proof -
  have "dependencyOrder actions ys \<and> mset ys = mset actions" if t: "topoSort actions = Inr ys"
  proof -
    let ?p = "kahnOrder actions"
    from t topoSort_cases [of actions] have ys: "ys = map (\<lambda>i. actions ! i) ?p" "length ?p = length actions" by auto
    obtain deg where k: "kahnInv (length actions) (edges actions) [] deg ?p" using kahnOrder_inv by blast
    then have p: "distinct ?p" "set ?p \<subseteq> {..<length actions}" "ordered (edges actions) ?p" by (auto simp: kahnInv_def)
    with ys(2) have sp: "set ?p = {..<length actions}"
      by (metis card_lessThan card_subset_eq distinct_card finite_lessThan)
    then have "mset ?p = mset [0..<length actions]" using p(1) by (metis atLeast_upt distinct_upt set_eq_iff_mset_eq_distinct)
    then have "mset ys = mset (map (\<lambda>i. actions ! i) [0..<length actions])" using ys(1) by (metis mset_map)
    then show ?thesis using p sp ys by (auto simp: dependencyOrder_def map_nth)
  qed
  then show ?thesis using topoSort_cases [of actions] by blast
qed

text \<open>A sample plan: a volume, a server that depends on another server, and a network.\<close>

definition sampleItem :: "string \<Rightarrow> string \<Rightarrow> string list \<Rightarrow> TopoItem" where
  "sampleItem ty nm deps = \<lparr>resourceType = js ty, resourceName = js nm, dependencies = Some (map js deps)\<rparr>"

definition samplePlan :: "TopoItem list" where
  "samplePlan = [sampleItem ''volume'' ''data'' [], sampleItem ''server'' ''api'' [''SERVER:db''],
     sampleItem ''server'' ''db'' [], sampleItem ''network'' ''net'' []]"

definition samplePlanSorted :: "TopoItem list" where
  "samplePlanSorted = [sampleItem ''network'' ''net'' [], sampleItem ''server'' ''db'' [],
     sampleItem ''server'' ''api'' [''SERVER:db''], sampleItem ''volume'' ''data'' []]"

lemma samplePlan_sorted: "topoSort samplePlan = Inr samplePlanSorted"
  by code_simp

theorem topoSort_correct_witness:
  "dependencyOrder samplePlan samplePlanSorted \<and> mset samplePlanSorted = mset samplePlan"
  using topoSort_correct [of samplePlan samplePlanSorted] samplePlan_sorted by blast

lemma typeEdge_in_edges:
  assumes "i < length actions" "j < length actions"
    "lessNum (typePriority (resourceType (actions ! i))) (typePriority (resourceType (actions ! j)))"
  shows "(i, j) \<in> edges actions"
proof -
  have "i \<noteq> j" using assms(3) by (auto simp: lessNum_def split: option.splits)
  with assms show ?thesis by (auto simp: edges_def typeEdges_def)
qed

text \<open>
  Types come in tiers: in a sorted plan no action stands after one of a later type, so every
  network precedes every server, every server every volume, and these everything else, whatever
  dependencies are declared.
\<close>

theorem topoSort_respects_type_order:
  assumes "topoSort actions = Inr ys" "i < j" "j < length ys"
  shows "\<not> lessNum (typePriority (resourceType (ys ! j))) (typePriority (resourceType (ys ! i)))"
proof
  assume l: "lessNum (typePriority (resourceType (ys ! j))) (typePriority (resourceType (ys ! i)))"
  let ?p = "kahnOrder actions"
  from assms(1) topoSort_cases [of actions] have ys: "ys = map (\<lambda>i. actions ! i) ?p" by auto
  obtain deg where "kahnInv (length actions) (edges actions) [] deg ?p" using kahnOrder_inv by blast
  then have p: "distinct ?p" "set ?p \<subseteq> {..<length actions}" "ordered (edges actions) ?p" by (auto simp: kahnInv_def)
  have lt: "i < length ?p" "j < length ?p" using assms ys by auto
  have "(?p ! j, ?p ! i) \<in> edges actions"
    using l lt p(2) ys nth_mem [OF lt(1)] nth_mem [OF lt(2)] by (intro typeEdge_in_edges) (auto simp: subset_iff)
  with p(3) lt have "?p ! j \<in> set (take i ?p)" by (auto simp: ordered_def)
  then obtain k where "k < i" "?p ! k = ?p ! j" using lt by (auto simp: in_set_conv_nth)
  with p(1) lt assms(2) show False by (auto simp: nth_eq_iff_index_eq)
qed

theorem topoSort_respects_type_order_witness:
  "\<not> lessNum (typePriority (resourceType (samplePlanSorted ! 3))) (typePriority (resourceType (samplePlanSorted ! 0)))"
  by (rule topoSort_respects_type_order [OF samplePlan_sorted]) (simp_all add: samplePlanSorted_def)

text \<open>
  A declared dependency counts only when the name it refers to is in lower case: the index keeps
  the case of names, the lookup does not.
\<close>

lemma uppercase_dependency_is_ignored:
  "explicitEdges [sampleItem ''server'' ''api'' [''server:DB''], sampleItem ''server'' ''DB'' []] = [] \<and>
   topoSort [sampleItem ''server'' ''api'' [''server:DB''], sampleItem ''server'' ''DB'' []] =
     Inr [sampleItem ''server'' ''api'' [''server:DB''], sampleItem ''server'' ''DB'' []]"
  by code_simp

end
