(* ===== verification/Json.thy ===== *)
theory Json
  imports Prelude
begin

text \<open>
  JSON values as the program's JSON columns and request bodies hold them.  A number is represented
  by the text JavaScript renders it as; an object by its members in order, with distinct keys.
\<close>

datatype json =
    JNull
  | JBool bool
  | JNum jstr
  | JStr jstr
  | JArr "json list"
  | JObj "(jstr \<times> json) list"

text \<open>\<open>value ?? {}\<close>.\<close>

definition orEmpty :: "json \<Rightarrow> json" where
  "orEmpty v = (if v = JNull then JObj [] else v)"

text \<open>\<open>obj[key]\<close>: \<open>None\<close> is undefined, also for values that are no objects.\<close>

definition jget :: "jstr \<Rightarrow> json \<Rightarrow> json option" where
  "jget k v = (case v of JObj ms \<Rightarrow> map_of ms k | _ \<Rightarrow> None)"

end
