(* ===== verification/Provisioning.thy ===== *)
theory Provisioning
  imports Json
begin

text \<open>
  Infrastructure provisioning, \<open>modules/provisioning\<close>: the service that creates provisioning
  projects and operations (\<open>provisioning.service.ts\<close>), the executor that runs an operation against
  a provider (\<open>provisioning-executor.service.ts\<close>) and the projection of the provider's result onto
  resource rows (\<open>provisioning-resource-projection.service.ts\<close>).

  The database is a record of tables; a table is a list of rows in an arbitrary order, and
  \<open>findFirst\<close> takes the first match of that order.  A handler takes the database and returns its
  result, or the exception it threw, with the database after it.  Generated ids are drawn from the
  counter \<open>db_next\<close>; \<open>now\<close> is the clock as the handler reads it.  A provider is a parameter: the
  function from the execute input to the outcome of \<open>apply\<close>, a result or a thrown error.  Failing
  database calls are not modelled.
\<close>

type_synonym uid = nat

section \<open>Tables\<close>

datatype OpStatus = PENDING | DRY_RUN | RUNNING | COMPLETED | FAILED | PARTIAL_FAILED | ROLLED_BACK

datatype OpType = CREATE | UPDATE | DELETE | ROLLBACK

fun statusName :: "OpStatus \<Rightarrow> string" where
  "statusName PENDING = ''PENDING''"
| "statusName DRY_RUN = ''DRY_RUN''"
| "statusName RUNNING = ''RUNNING''"
| "statusName COMPLETED = ''COMPLETED''"
| "statusName FAILED = ''FAILED''"
| "statusName PARTIAL_FAILED = ''PARTIAL_FAILED''"
| "statusName ROLLED_BACK = ''ROLLED_BACK''"

lemma statusName_inject [simp]: "statusName a = statusName b \<longleftrightarrow> a = b"
  by (cases a; cases b) auto

record Operation =
  op_id :: uid
  op_pp :: uid
  op_type :: OpType
  op_status :: OpStatus
  op_dryRun :: bool
  op_key :: jstr
  op_requestedBy :: uid
  op_input :: json
  op_result :: "(json \<times> nat \<times> nat) option"
  op_errorMessage :: "jstr option"
  op_startedAt :: "nat option"
  op_completedAt :: "nat option"
  op_createdAt :: nat

record Resource =
  rs_id :: uid
  rs_pp :: uid
  rs_kind :: jstr
  rs_name :: jstr
  rs_status :: string
  rs_region :: jstr
  rs_datacenter :: "jstr option"
  rs_externalId :: "jstr option"
  rs_desiredSpec :: json
  rs_actualSpec :: json
  rs_rollbackSpec :: "json option"
  rs_destroyedAt :: "nat option"
  rs_createdAt :: nat

record PProject =
  pp_id :: uid
  pp_projectId :: uid
  pp_status :: string
  pp_provider :: jstr
  pp_region :: jstr
  pp_datacenter :: "jstr option"
  pp_credentialRefId :: uid
  pp_desiredState :: json

record Credential =
  cr_id :: uid
  cr_teamId :: uid
  cr_openbaoPath :: jstr
  cr_revoked :: bool

record AuditEvent =
  ev_pp :: uid
  ev_resource :: "uid option"
  ev_operation :: "uid option"
  ev_kind :: string
  ev_actor :: uid
  ev_from :: "string option"
  ev_to :: string
  ev_detail :: json

record Db =
  db_projects :: "(uid \<times> uid) list"
  db_members :: "(uid \<times> uid) list"
  db_credentials :: "Credential list"
  db_pps :: "PProject list"
  db_ops :: "Operation list"
  db_resources :: "Resource list"
  db_events :: "AuditEvent list"
  db_next :: uid

datatype HttpError =
    NotFoundException jstr
  | ForbiddenException jstr
  | ConflictException jstr
  | BadRequestException jstr

section \<open>Queries and writes\<close>

definition findOp :: "uid \<Rightarrow> Db \<Rightarrow> Operation option" where
  "findOp i db = find (\<lambda>p. op_id p = i) (db_ops db)"

definition findOpByKey :: "uid \<Rightarrow> jstr \<Rightarrow> Db \<Rightarrow> Operation option" where
  "findOpByKey pp k db = find (\<lambda>p. op_pp p = pp \<and> op_key p = k) (db_ops db)"

definition findPP :: "uid \<Rightarrow> Db \<Rightarrow> PProject option" where
  "findPP i db = find (\<lambda>p. pp_id p = i) (db_pps db)"

definition findPPByProject :: "uid \<Rightarrow> Db \<Rightarrow> PProject option" where
  "findPPByProject project db = find (\<lambda>p. pp_projectId p = project) (db_pps db)"

definition findCredential :: "uid \<Rightarrow> Db \<Rightarrow> Credential option" where
  "findCredential i db = find (\<lambda>c. cr_id c = i) (db_credentials db)"

definition teamOf :: "uid \<Rightarrow> Db \<Rightarrow> uid option" where
  "teamOf project db = map_of (db_projects db) project"

definition isMember :: "uid \<Rightarrow> uid \<Rightarrow> Db \<Rightarrow> bool" where
  "isMember team user db \<longleftrightarrow> (team, user) \<in> set (db_members db)"

definition updateOp :: "uid \<Rightarrow> (Operation \<Rightarrow> Operation) \<Rightarrow> Db \<Rightarrow> Db" where
  "updateOp i f db = db\<lparr>db_ops := map (\<lambda>p. if op_id p = i then f p else p) (db_ops db)\<rparr>"

definition updateResourceRow :: "uid \<Rightarrow> (Resource \<Rightarrow> Resource) \<Rightarrow> Db \<Rightarrow> Db" where
  "updateResourceRow i f db = db\<lparr>db_resources := map (\<lambda>r. if rs_id r = i then f r else r) (db_resources db)\<rparr>"

definition writeAuditEvent :: "AuditEvent \<Rightarrow> Db \<Rightarrow> Db" where
  "writeAuditEvent e db = db\<lparr>db_events := db_events db @ [e]\<rparr>"

section \<open>The service\<close>

record CreateProjectDto =
  cp_projectId :: uid
  cp_credentialRefId :: uid
  cp_region :: jstr
  cp_datacenter :: "jstr option"
  cp_provider :: "jstr option"
  cp_desiredSpec :: json
  cp_dryRun :: bool
  cp_idempotencyKey :: jstr

record CreateOperationDto =
  co_projectId :: uid
  co_type :: OpType
  co_idempotencyKey :: jstr
  co_desiredSpec :: json
  co_dryRun :: bool

record OperationResponse =
  or_id :: uid
  or_pp :: uid
  or_type :: OpType
  or_status :: OpStatus
  or_dryRun :: bool
  or_key :: jstr
  or_idempotent :: bool
  or_createdAt :: nat

definition toProvisioningOperationResponse :: "Operation \<Rightarrow> bool \<Rightarrow> OperationResponse" where
  "toProvisioningOperationResponse p idempotent =
     \<lparr>or_id = op_id p, or_pp = op_pp p, or_type = op_type p, or_status = op_status p,
      or_dryRun = op_dryRun p, or_key = op_key p, or_idempotent = idempotent, or_createdAt = op_createdAt p\<rparr>"

record ProjectResponse =
  pr_id :: uid
  pr_provider :: jstr
  pr_status :: string
  pr_operation :: uid
  pr_opStatus :: OpStatus
  pr_dryRun :: bool
  pr_idempotent :: bool

definition toProvisioningProjectCreateResponse :: "PProject \<Rightarrow> Operation \<Rightarrow> bool \<Rightarrow> ProjectResponse" where
  "toProvisioningProjectCreateResponse pp p idempotent =
     \<lparr>pr_id = pp_id pp, pr_provider = pp_provider pp, pr_status = pp_status pp, pr_operation = op_id p,
      pr_opStatus = op_status p, pr_dryRun = op_dryRun p, pr_idempotent = idempotent\<rparr>"

definition initialStatus :: "bool \<Rightarrow> OpStatus" where
  "initialStatus dryRun = (if dryRun then DRY_RUN else PENDING)"

text \<open>The operation row and first audit event that both create handlers write in their transaction.\<close>

definition newOperation :: "uid \<Rightarrow> nat \<Rightarrow> uid \<Rightarrow> OpType \<Rightarrow> bool \<Rightarrow> jstr \<Rightarrow> json \<Rightarrow> uid \<Rightarrow> Operation" where
  "newOperation i now pp ty dryRun k spec userId =
     \<lparr>op_id = i, op_pp = pp, op_type = ty, op_status = initialStatus dryRun, op_dryRun = dryRun, op_key = k,
      op_requestedBy = userId, op_input = spec, op_result = None, op_errorMessage = None,
      op_startedAt = (if dryRun then Some now else None),
      op_completedAt = (if dryRun then Some now else None), op_createdAt = now\<rparr>"

definition createdEvent :: "uid \<Rightarrow> uid \<Rightarrow> string \<Rightarrow> uid \<Rightarrow> bool \<Rightarrow> AuditEvent" where
  "createdEvent pp i kind userId dryRun =
     \<lparr>ev_pp = pp, ev_resource = None, ev_operation = Some i,
      ev_kind = (if dryRun then ''DRY_RUN_COMPLETED'' else kind), ev_actor = userId, ev_from = None,
      ev_to = statusName (initialStatus dryRun),
      ev_detail = (if dryRun then JObj [(js ''dryRun'', JBool True)] else JNull)\<rparr>"

definition newPProject :: "uid \<Rightarrow> CreateProjectDto \<Rightarrow> PProject" where
  "newPProject i dto =
     \<lparr>pp_id = i, pp_projectId = cp_projectId dto, pp_status = ''PENDING'',
      pp_provider = (case cp_provider dto of Some p \<Rightarrow> p | None \<Rightarrow> js ''hetzner''),
      pp_region = cp_region dto, pp_datacenter = cp_datacenter dto,
      pp_credentialRefId = cp_credentialRefId dto, pp_desiredState = cp_desiredSpec dto\<rparr>"

definition createProject :: "nat \<Rightarrow> uid \<Rightarrow> CreateProjectDto \<Rightarrow> Db \<Rightarrow> (HttpError + ProjectResponse) \<times> Db" where
  "createProject now userId dto db =
     (case teamOf (cp_projectId dto) db of
        None \<Rightarrow> (Inl (NotFoundException (js ''Project not found'')), db)
      | Some teamId \<Rightarrow>
      if \<not> isMember teamId userId db then (Inl (ForbiddenException (js ''Not a member of this team'')), db)
      else (case findCredential (cp_credentialRefId dto) db of
        None \<Rightarrow> (Inl (NotFoundException (js ''Credential reference not found'')), db)
      | Some cred \<Rightarrow>
      if cr_teamId cred \<noteq> teamId
      then (Inl (ForbiddenException (js ''Credential reference does not belong to this team'')), db)
      else if cr_revoked cred then (Inl (ConflictException (js ''Credential reference has been revoked'')), db)
      else (case findPPByProject (cp_projectId dto) db of
        Some existing \<Rightarrow>
          (case findOpByKey (pp_id existing) (cp_idempotencyKey dto) db of
             Some existingOp \<Rightarrow> (Inr (toProvisioningProjectCreateResponse existing existingOp True), db)
           | None \<Rightarrow> (Inl (ConflictException (js ''A provisioning project already exists for this platform project. Submit further operations via POST /v1/provisioning/operations.'')), db))
      | None \<Rightarrow>
          (let i = db_next db;
               pp = newPProject i dto;
               p = newOperation (Suc i) now i CREATE (cp_dryRun dto) (cp_idempotencyKey dto) (cp_desiredSpec dto) userId;
               db1 = db\<lparr>db_pps := db_pps db @ [pp], db_ops := db_ops db @ [p], db_next := i + 2\<rparr>
           in (Inr (toProvisioningProjectCreateResponse pp p False),
               writeAuditEvent (createdEvent i (Suc i) ''STATUS_CHANGED'' userId (cp_dryRun dto)) db1)))))"

definition createOperation :: "nat \<Rightarrow> uid \<Rightarrow> CreateOperationDto \<Rightarrow> Db \<Rightarrow> (HttpError + OperationResponse) \<times> Db" where
  "createOperation now userId dto db =
     (case teamOf (co_projectId dto) db of
        None \<Rightarrow> (Inl (NotFoundException (js ''Project not found'')), db)
      | Some teamId \<Rightarrow>
      if \<not> isMember teamId userId db then (Inl (ForbiddenException (js ''Not a member of this team'')), db)
      else (case findPPByProject (co_projectId dto) db of
        None \<Rightarrow> (Inl (NotFoundException (js ''No provisioning project found for this project. Create one via POST /v1/provisioning/projects first.'')), db)
      | Some pp \<Rightarrow>
      (case findOpByKey (pp_id pp) (co_idempotencyKey dto) db of
        Some existing \<Rightarrow>
          if op_type existing \<noteq> co_type dto \<or> op_dryRun existing \<noteq> co_dryRun dto
          then (Inl (ConflictException (js ''An operation with this idempotency key already exists with a different type or dryRun value.'')), db)
          else (Inr (toProvisioningOperationResponse existing True), db)
      | None \<Rightarrow>
          (let i = db_next db;
               p = newOperation i now (pp_id pp) (co_type dto) (co_dryRun dto) (co_idempotencyKey dto) (co_desiredSpec dto) userId;
               db1 = db\<lparr>db_ops := db_ops db @ [p], db_next := Suc i\<rparr>
           in (Inr (toProvisioningOperationResponse p False),
               writeAuditEvent (createdEvent (pp_id pp) i ''OPERATION_STARTED'' userId (co_dryRun dto)) db1)))))"

record OperationView =
  ov_id :: uid
  ov_projectId :: uid
  ov_type :: OpType
  ov_status :: OpStatus
  ov_dryRun :: bool
  ov_input :: json
  ov_result :: "(json \<times> nat \<times> nat) option"
  ov_error :: "jstr option"
  ov_createdAt :: nat
  ov_updatedAt :: nat
  ov_startedAt :: "nat option"
  ov_completedAt :: "nat option"

definition toGetOperationResponse :: "Operation \<Rightarrow> uid \<Rightarrow> OperationView" where
  "toGetOperationResponse p projectId =
     \<lparr>ov_id = op_id p, ov_projectId = projectId, ov_type = op_type p, ov_status = op_status p,
      ov_dryRun = op_dryRun p, ov_input = orEmpty (op_input p), ov_result = op_result p,
      ov_error = (case op_errorMessage p of Some m \<Rightarrow> if m = [] then None else Some m | None \<Rightarrow> None),
      ov_createdAt = op_createdAt p,
      ov_updatedAt = (case op_completedAt p of Some t \<Rightarrow> t
        | None \<Rightarrow> (case op_startedAt p of Some t \<Rightarrow> t | None \<Rightarrow> op_createdAt p)),
      ov_startedAt = op_startedAt p, ov_completedAt = op_completedAt p\<rparr>"

text \<open>The joins of a row: every operation has its project, every project its team (foreign keys).\<close>

definition projectOfOp :: "Operation \<Rightarrow> Db \<Rightarrow> (PProject \<times> uid) option" where
  "projectOfOp p db =
     (case findPP (op_pp p) db of None \<Rightarrow> None
      | Some pp \<Rightarrow> map_option (\<lambda>team. (pp, team)) (teamOf (pp_projectId pp) db))"

definition getOperation :: "uid \<Rightarrow> uid \<Rightarrow> Db \<Rightarrow> HttpError + OperationView" where
  "getOperation userId operationId db =
     (case findOp operationId db of
        None \<Rightarrow> Inl (NotFoundException (js ''Operation not found''))
      | Some p \<Rightarrow>
      (case projectOfOp p db of
        None \<Rightarrow> Inl (NotFoundException (js ''Operation not found''))
      | Some (pp, teamId) \<Rightarrow>
          if \<not> isMember teamId userId db then Inl (NotFoundException (js ''Operation not found''))
          else Inr (toGetOperationResponse p (pp_projectId pp))))"

record ResourceView =
  rv_id :: uid
  rv_projectId :: uid
  rv_type :: jstr
  rv_name :: jstr
  rv_status :: string
  rv_externalId :: "jstr option"
  rv_desiredSpec :: json
  rv_actualSpec :: json
  rv_createdAt :: nat

definition toGetResourceResponse :: "uid \<Rightarrow> Resource \<Rightarrow> ResourceView" where
  "toGetResourceResponse projectId r =
     \<lparr>rv_id = rs_id r, rv_projectId = projectId, rv_type = rs_kind r, rv_name = rs_name r,
      rv_status = rs_status r, rv_externalId = rs_externalId r, rv_desiredSpec = orEmpty (rs_desiredSpec r),
      rv_actualSpec = rs_actualSpec r, rv_createdAt = rs_createdAt r\<rparr>"

text \<open>\<open>orderBy: [kind, name]\<close> is the database's own sort, a parameter.\<close>

definition listResources ::
  "(Resource list \<Rightarrow> Resource list) \<Rightarrow> uid \<Rightarrow> uid \<Rightarrow> bool \<Rightarrow> Db \<Rightarrow> HttpError + ResourceView list" where
  "listResources orderBy userId projectId includeDestroyed db =
     (case teamOf projectId db of
        None \<Rightarrow> Inl (NotFoundException (js ''Project not found''))
      | Some teamId \<Rightarrow>
      if \<not> isMember teamId userId db then Inl (NotFoundException (js ''Project not found''))
      else (case findPPByProject projectId db of
        None \<Rightarrow> Inr []
      | Some pp \<Rightarrow>
          Inr (map (toGetResourceResponse projectId)
            (orderBy (filter (\<lambda>r. rs_pp r = pp_id pp \<and> (includeDestroyed \<or> rs_destroyedAt r = None))
              (db_resources db))))))"

section \<open>Projection\<close>

record ResourceResult =
  rr_externalId :: jstr
  rr_type :: jstr
  rr_name :: jstr
  rr_desiredSpec :: json
  rr_actualSpec :: json

record ProjectionParams =
  pj_operationId :: uid
  pj_pp :: uid
  pj_region :: jstr
  pj_datacenter :: "jstr option"
  pj_resources :: "ResourceResult list"
  pj_deletedExternalIds :: "jstr list"
  pj_actor :: uid

definition findExisting :: "uid \<Rightarrow> ResourceResult \<Rightarrow> Db \<Rightarrow> Resource option" where
  "findExisting pp res db =
     (case find (\<lambda>r. rs_pp r = pp \<and> rs_externalId r = Some (rr_externalId res)) (db_resources db) of
        Some r \<Rightarrow> Some r
      | None \<Rightarrow> find (\<lambda>r. rs_pp r = pp \<and> rs_kind r = js_upper (rr_type res) \<and> rs_name r = rr_name res) (db_resources db))"

definition resourceEvent :: "uid \<Rightarrow> uid \<Rightarrow> uid \<Rightarrow> string \<Rightarrow> uid \<Rightarrow> string option \<Rightarrow> string \<Rightarrow> AuditEvent" where
  "resourceEvent pp r op kind actor from to =
     \<lparr>ev_pp = pp, ev_resource = Some r, ev_operation = Some op, ev_kind = kind, ev_actor = actor,
      ev_from = from, ev_to = to, ev_detail = JNull\<rparr>"

definition createResource :: "nat \<Rightarrow> ProjectionParams \<Rightarrow> ResourceResult \<Rightarrow> Db \<Rightarrow> Db" where
  "createResource now params res db =
     (let i = db_next db;
          r = \<lparr>rs_id = i, rs_pp = pj_pp params, rs_kind = js_upper (rr_type res), rs_name = rr_name res,
               rs_status = ''ACTIVE'', rs_region = pj_region params, rs_datacenter = pj_datacenter params,
               rs_externalId = Some (rr_externalId res), rs_desiredSpec = rr_desiredSpec res,
               rs_actualSpec = rr_actualSpec res, rs_rollbackSpec = None, rs_destroyedAt = None, rs_createdAt = now\<rparr>
      in writeAuditEvent (resourceEvent (pj_pp params) i (pj_operationId params) ''RESOURCE_CREATED'' (pj_actor params) None ''ACTIVE'')
           (db\<lparr>db_resources := db_resources db @ [r], db_next := Suc i\<rparr>))"

definition updateResource :: "Resource \<Rightarrow> ResourceResult \<Rightarrow> uid \<Rightarrow> uid \<Rightarrow> Db \<Rightarrow> Db" where
  "updateResource existing res operationId actor db =
     writeAuditEvent (resourceEvent (rs_pp existing) (rs_id existing) operationId ''RESOURCE_UPDATED'' actor
         (Some (rs_status existing)) ''ACTIVE'')
       (updateResourceRow (rs_id existing)
         (\<lambda>r. r\<lparr>rs_externalId := Some (rr_externalId res), rs_status := ''ACTIVE'',
                rs_desiredSpec := rr_desiredSpec res, rs_actualSpec := rr_actualSpec res,
                rs_rollbackSpec := Some (rs_desiredSpec existing)\<rparr>) db)"

definition projectOne :: "nat \<Rightarrow> ProjectionParams \<Rightarrow> Db \<Rightarrow> ResourceResult \<Rightarrow> Db" where
  "projectOne now params db res =
     (case findExisting (pj_pp params) res db of
        Some existing \<Rightarrow> updateResource existing res (pj_operationId params) (pj_actor params) db
      | None \<Rightarrow> createResource now params res db)"

definition destroyResource :: "nat \<Rightarrow> ProjectionParams \<Rightarrow> Db \<Rightarrow> jstr \<Rightarrow> Db" where
  "destroyResource now params db externalId =
     (case find (\<lambda>r. rs_pp r = pj_pp params \<and> rs_externalId r = Some externalId \<and> rs_destroyedAt r = None) (db_resources db) of
        None \<Rightarrow> db
      | Some r \<Rightarrow>
          writeAuditEvent (resourceEvent (pj_pp params) (rs_id r) (pj_operationId params) ''RESOURCE_DESTROYED''
              (pj_actor params) (Some (rs_status r)) ''DESTROYED'')
            (updateResourceRow (rs_id r) (\<lambda>r. r\<lparr>rs_status := ''DESTROYED'', rs_destroyedAt := Some now\<rparr>) db))"

definition project :: "nat \<Rightarrow> ProjectionParams \<Rightarrow> Db \<Rightarrow> Db" where
  "project now params db =
     foldl (destroyResource now params)
       (foldl (projectOne now params) db (pj_resources params)) (pj_deletedExternalIds params)"

section \<open>The executor\<close>

record CurrentRow =
  cu_id :: uid
  cu_type :: jstr
  cu_name :: jstr
  cu_status :: string
  cu_desiredSpec :: json
  cu_actualSpec :: json
  cu_externalId :: "jstr option"

record ExecuteInput =
  ei_operationId :: uid
  ei_projectId :: uid
  ei_providerType :: jstr
  ei_region :: jstr
  ei_datacenter :: "jstr option"
  ei_desiredSpec :: json
  ei_credentialOpenbaoPath :: jstr
  ei_currentResources :: "CurrentRow list"
  ei_dryRun :: bool

record ExecuteResult =
  er_resources :: "ResourceResult list"
  er_deletedExternalIds :: "jstr list option"
  er_metadata :: "json option"

record FailedAction =
  fa_resourceType :: jstr
  fa_resourceName :: jstr
  fa_action :: jstr
  fa_error :: jstr

text \<open>What \<open>apply\<close> may throw: a partial apply, an object with \<open>code\<close> and \<open>retryable\<close>, anything else.\<close>

datatype ThrownError =
    PartialApplyError "ResourceResult list" "jstr list" "FailedAction list"
  | CodedError jstr jstr bool
  | PlainError jstr

type_synonym Provider = "ExecuteInput \<Rightarrow> ThrownError + ExecuteResult"

record NormalizedError =
  ne_code :: jstr
  ne_message :: jstr
  ne_retryable :: bool

definition partialMessage :: "ResourceResult list \<Rightarrow> FailedAction list \<Rightarrow> jstr" where
  "partialMessage applied failures =
     js ''Partial apply: '' @ show_nat (length applied) @ js '' applied, '' @ show_nat (length failures) @ js '' failed''"

fun normalizeProviderError :: "ThrownError \<Rightarrow> NormalizedError" where
  "normalizeProviderError (PartialApplyError applied deleted failures) =
     \<lparr>ne_code = js ''PARTIAL_APPLY'', ne_message = partialMessage applied failures, ne_retryable = False\<rparr>"
| "normalizeProviderError (CodedError code message retryable) =
     \<lparr>ne_code = code, ne_message = message, ne_retryable = retryable\<rparr>"
| "normalizeProviderError (PlainError message) =
     \<lparr>ne_code = js ''PROVIDER_ERROR'', ne_message = message, ne_retryable = False\<rparr>"

definition currentRow :: "Resource \<Rightarrow> CurrentRow" where
  "currentRow r =
     \<lparr>cu_id = rs_id r, cu_type = rs_kind r, cu_name = rs_name r, cu_status = rs_status r,
      cu_desiredSpec = orEmpty (rs_desiredSpec r), cu_actualSpec = rs_actualSpec r, cu_externalId = rs_externalId r\<rparr>"

definition activeRows :: "uid \<Rightarrow> Db \<Rightarrow> Resource list" where
  "activeRows pp db = filter (\<lambda>r. rs_pp r = pp \<and> rs_destroyedAt r = None) (db_resources db)"

definition executeInput :: "Operation \<Rightarrow> PProject \<Rightarrow> jstr \<Rightarrow> json \<Rightarrow> bool \<Rightarrow> Db \<Rightarrow> ExecuteInput" where
  "executeInput p pp path spec dryRun db =
     \<lparr>ei_operationId = op_id p, ei_projectId = pp_projectId pp, ei_providerType = pp_provider pp,
      ei_region = pp_region pp, ei_datacenter = pp_datacenter pp, ei_desiredSpec = spec,
      ei_credentialOpenbaoPath = path, ei_currentResources = map currentRow (activeRows (op_pp p) db),
      ei_dryRun = dryRun\<rparr>"

definition providerDetail :: "PProject \<Rightarrow> (jstr \<times> json) list" where
  "providerDetail pp = [(js ''providerType'', JStr (pp_provider pp)), (js ''region'', JStr (pp_region pp))]"

text \<open>
  One status change of the executor: the operation's row is updated and the audit event written.
\<close>

definition moveOp ::
  "uid \<Rightarrow> Operation \<Rightarrow> OpStatus \<Rightarrow> OpStatus \<Rightarrow> string \<Rightarrow> (Operation \<Rightarrow> Operation) \<Rightarrow> json \<Rightarrow> Db \<Rightarrow> Db" where
  "moveOp userId p from to kind f detail db =
     writeAuditEvent
       \<lparr>ev_pp = op_pp p, ev_resource = None, ev_operation = Some (op_id p), ev_kind = kind, ev_actor = userId,
        ev_from = Some (statusName from), ev_to = statusName to, ev_detail = detail\<rparr>
       (updateOp (op_id p) (\<lambda>q. f (q\<lparr>op_status := to\<rparr>)) db)"

definition startOp :: "nat \<Rightarrow> uid \<Rightarrow> Operation \<Rightarrow> PProject \<Rightarrow> string \<Rightarrow> Db \<Rightarrow> Db" where
  "startOp now userId p pp kind db =
     moveOp userId p PENDING RUNNING kind (\<lambda>q. q\<lparr>op_startedAt := Some now\<rparr>) (JObj (providerDetail pp)) db"

definition failedDetail :: "PProject \<Rightarrow> NormalizedError \<Rightarrow> json" where
  "failedDetail pp e = JObj (providerDetail pp @ [(js ''error'', JStr (ne_code e)),
     (js ''message'', JStr (ne_message e)), (js ''retryable'', JBool (ne_retryable e))])"

definition failOp :: "nat \<Rightarrow> uid \<Rightarrow> Operation \<Rightarrow> PProject \<Rightarrow> ThrownError \<Rightarrow> Db \<Rightarrow> Db" where
  "failOp now userId p pp err db =
     (let e = normalizeProviderError err in
      moveOp userId p RUNNING FAILED ''OPERATION_FAILED''
        (\<lambda>q. q\<lparr>op_errorMessage := Some (ne_message e), op_completedAt := Some now\<rparr>) (failedDetail pp e) db)"

definition failSummary :: "FailedAction list \<Rightarrow> jstr" where
  "failSummary failures =
     join (js ''; '') (map (\<lambda>f. fa_action f @ js '' '' @ fa_resourceType f @ js '':'' @ fa_resourceName f) failures)"

definition partialDetail :: "PProject \<Rightarrow> ResourceResult list \<Rightarrow> FailedAction list \<Rightarrow> json" where
  "partialDetail pp applied failures = JObj (providerDetail pp @ [(js ''error'', JStr (js ''PARTIAL_APPLY'')),
     (js ''message'', JStr (partialMessage applied failures)),
     (js ''failedActions'', JStr (failSummary failures)), (js ''retryable'', JBool False)])"

definition projectionParams :: "uid \<Rightarrow> Operation \<Rightarrow> PProject \<Rightarrow> ResourceResult list \<Rightarrow> jstr list \<Rightarrow> ProjectionParams" where
  "projectionParams userId p pp resources deleted =
     \<lparr>pj_operationId = op_id p, pj_pp = op_pp p, pj_region = pp_region pp, pj_datacenter = pp_datacenter pp,
      pj_resources = resources, pj_deletedExternalIds = deleted, pj_actor = userId\<rparr>"

definition deletedOf :: "ExecuteResult \<Rightarrow> jstr list" where
  "deletedOf res = (case er_deletedExternalIds res of Some ds \<Rightarrow> ds | None \<Rightarrow> [])"

definition projectIfAny :: "nat \<Rightarrow> ProjectionParams \<Rightarrow> Db \<Rightarrow> Db" where
  "projectIfAny now params db =
     (if pj_resources params \<noteq> [] \<or> pj_deletedExternalIds params \<noteq> [] then project now params db else db)"

definition resultOf :: "ExecuteResult \<Rightarrow> json \<times> nat \<times> nat" where
  "resultOf res = ((case er_metadata res of Some m \<Rightarrow> orEmpty m | None \<Rightarrow> JObj []),
     length (er_resources res), length (deletedOf res))"

definition completeOp ::
  "nat \<Rightarrow> uid \<Rightarrow> Operation \<Rightarrow> PProject \<Rightarrow> OpStatus \<Rightarrow> string \<Rightarrow> ExecuteResult \<Rightarrow> Db \<Rightarrow> Db" where
  "completeOp now userId p pp st kind res db =
     moveOp userId p RUNNING st kind
       (\<lambda>q. q\<lparr>op_result := Some (resultOf res), op_completedAt := Some now\<rparr>) (JObj (providerDetail pp)) db"

text \<open>The forward path, from PENDING to its final status.\<close>

definition executeForward :: "Provider \<Rightarrow> nat \<Rightarrow> uid \<Rightarrow> Operation \<Rightarrow> PProject \<Rightarrow> jstr \<Rightarrow> Db \<Rightarrow> Db" where
  "executeForward apply now userId p pp path db =
     (let dryRun = op_dryRun p;
          input = executeInput p pp path (op_input p) dryRun db;
          db1 = startOp now userId p pp ''STATUS_CHANGED'' db
      in case apply input of
        Inl err \<Rightarrow>
          (case err of
             PartialApplyError applied deleted failures \<Rightarrow>
               if applied \<noteq> [] then
                 moveOp userId p RUNNING PARTIAL_FAILED ''OPERATION_FAILED''
                   (\<lambda>q. q\<lparr>op_errorMessage := Some (partialMessage applied failures), op_completedAt := Some now\<rparr>)
                   (partialDetail pp applied failures)
                   (projectIfAny now (projectionParams userId p pp applied deleted) db1)
               else failOp now userId p pp err db1
           | _ \<Rightarrow> failOp now userId p pp err db1)
      | Inr res \<Rightarrow>
          (let db2 = (if \<not> dryRun then projectIfAny now (projectionParams userId p pp (er_resources res) (deletedOf res)) db1 else db1)
           in completeOp now userId p pp (if dryRun then DRY_RUN else COMPLETED)
                (if dryRun then ''DRY_RUN_COMPLETED'' else ''OPERATION_COMPLETED'') res db2))"

text \<open>The rollback path: the desired state is read off the rows that carry a rollback spec.\<close>

definition rollbackSpec :: "uid \<Rightarrow> Db \<Rightarrow> json" where
  "rollbackSpec pp db =
     JObj [(js ''resources'', JArr (map (\<lambda>r. JObj [(js ''type'', JStr (js_lower (rs_kind r))),
        (js ''name'', JStr (rs_name r)), (js ''spec'', the (rs_rollbackSpec r))])
        (filter (\<lambda>r. rs_pp r = pp \<and> rs_rollbackSpec r \<noteq> None) (db_resources db))))]"

definition markRolledBack :: "uid \<Rightarrow> ResourceResult list \<Rightarrow> Db \<Rightarrow> Db" where
  "markRolledBack pp resources db =
     (if resources = [] then db
      else db\<lparr>db_resources := map (\<lambda>r.
        if rs_pp r = pp \<and> (case rs_externalId r of Some x \<Rightarrow> x \<in> set (map rr_externalId resources) | None \<Rightarrow> False)
        then r\<lparr>rs_status := ''ROLLED_BACK''\<rparr> else r) (db_resources db)\<rparr>)"

definition projectRolledBack :: "uid \<Rightarrow> Db \<Rightarrow> Db" where
  "projectRolledBack pp db =
     db\<lparr>db_pps := map (\<lambda>q. if pp_id q = pp then q\<lparr>pp_status := ''ROLLED_BACK''\<rparr> else q) (db_pps db)\<rparr>"

definition executeRollback :: "Provider \<Rightarrow> nat \<Rightarrow> uid \<Rightarrow> Operation \<Rightarrow> PProject \<Rightarrow> jstr \<Rightarrow> Db \<Rightarrow> Db" where
  "executeRollback apply now userId p pp path db =
     (let input = executeInput p pp path (rollbackSpec (op_pp p) db) False db;
          db1 = startOp now userId p pp ''ROLLBACK_INITIATED'' db
      in case apply input of
        Inl err \<Rightarrow> failOp now userId p pp err db1
      | Inr res \<Rightarrow>
          completeOp now userId p pp ROLLED_BACK ''ROLLBACK_COMPLETED'' res
            (projectRolledBack (op_pp p)
              (markRolledBack (op_pp p) (er_resources res)
                (projectIfAny now (projectionParams userId p pp (er_resources res) (deletedOf res)) db1))))"

text \<open>The provider registry: a map from provider types to providers.\<close>

type_synonym ProviderRegistry = "(jstr \<times> Provider) list"

definition registerProvider :: "jstr \<Rightarrow> Provider \<Rightarrow> ProviderRegistry \<Rightarrow> ProviderRegistry" where
  "registerProvider providerType provider registry =
     (providerType, provider) # filter (\<lambda>(t, _). t \<noteq> providerType) registry"

definition resolveProvider :: "ProviderRegistry \<Rightarrow> jstr \<Rightarrow> HttpError + Provider" where
  "resolveProvider registry providerType =
     (case map_of registry providerType of
        None \<Rightarrow> Inl (BadRequestException (js ''Unknown provider type: '' @ providerType))
      | Some provider \<Rightarrow> Inr provider)"

definition executeOperation ::
  "ProviderRegistry \<Rightarrow> nat \<Rightarrow> uid \<Rightarrow> uid \<Rightarrow> Db \<Rightarrow> (HttpError + Operation option) \<times> Db" where
  "executeOperation registry now userId operationId db =
     (case findOp operationId db of
        None \<Rightarrow> (Inl (NotFoundException (js ''Operation not found'')), db)
      | Some p \<Rightarrow>
      (case projectOfOp p db of
        None \<Rightarrow> (Inl (NotFoundException (js ''Operation not found'')), db)
      | Some (pp, teamId) \<Rightarrow>
      if \<not> isMember teamId userId db then (Inl (ForbiddenException (js ''Not a member of this team'')), db)
      else if op_status p \<noteq> PENDING
      then (Inl (BadRequestException (js ''Operation is in status '' @ js (statusName (op_status p)) @
              js '' and cannot be executed. Only PENDING operations are executable.'')), db)
      else (case resolveProvider registry (pp_provider pp) of
        Inl e \<Rightarrow> (Inl e, db)
      | Inr apply \<Rightarrow>
          (let path = (case findCredential (pp_credentialRefId pp) db of Some c \<Rightarrow> cr_openbaoPath c | None \<Rightarrow> []);
               db' = (if op_type p = ROLLBACK then executeRollback apply now userId p pp path db
                      else executeForward apply now userId p pp path db)
           in (Inr (findOp operationId db'), db')))))"

end
