(* ===== verification/ProvisioningRules.thy ===== *)
theory ProvisioningRules
  imports Provisioning
begin

text \<open>
  What the provisioning handlers guarantee, over every history of calls: the audit log of an
  operation is a chain of legal moves that ends in its status, idempotency keys, projects and
  external ids stay unique, a dry run never executes, and a handler that refuses leaves the database
  as it was.
\<close>

section \<open>Histories\<close>

text \<open>One call of a handler, by any user at any time with any provider, or a change of teams and credentials.\<close>

inductive apiStep :: "Db \<Rightarrow> Db \<Rightarrow> bool" where
  create_project: "createProject now u dto db = (r, db') \<Longrightarrow> apiStep db db'"
| create_operation: "createOperation now u odto db = (q, db') \<Longrightarrow> apiStep db db'"
| execute: "executeOperation registry now u i db = (x, db') \<Longrightarrow> apiStep db db'"
| administer: "apiStep db (db\<lparr>db_projects := ps, db_members := ms, db_credentials := cs\<rparr>)"

inductive_cases apiStepE: "apiStep db db'"

definition initialDb :: "Db \<Rightarrow> bool" where
  "initialDb db \<longleftrightarrow> db_pps db = [] \<and> db_ops db = [] \<and> db_resources db = [] \<and> db_events db = []"

section \<open>The audit log\<close>

definition opEvents :: "uid \<Rightarrow> Db \<Rightarrow> AuditEvent list" where
  "opEvents i db = filter (\<lambda>e. ev_operation e = Some i \<and> ev_resource e = None) (db_events db)"

fun auditChain :: "string option \<Rightarrow> AuditEvent list \<Rightarrow> string option \<Rightarrow> bool" where
  "auditChain cur [] fin \<longleftrightarrow> cur = fin"
| "auditChain cur (e # es) fin \<longleftrightarrow> ev_from e = cur \<and> auditChain (Some (ev_to e)) es fin"

lemma auditChain_append: "auditChain c (xs @ ys) fin \<longleftrightarrow> (\<exists>m. auditChain c xs m \<and> auditChain m ys fin)"
  by (induction xs arbitrary: c) auto

definition terminal :: "OpStatus \<Rightarrow> bool" where
  "terminal st \<longleftrightarrow> st \<in> {DRY_RUN, COMPLETED, FAILED, PARTIAL_FAILED, ROLLED_BACK}"

definition legalMove :: "AuditEvent \<Rightarrow> bool" where
  "legalMove e \<longleftrightarrow>
     (ev_from e = None \<and> ev_to e \<in> {statusName PENDING, statusName DRY_RUN}) \<or>
     (ev_from e = Some (statusName PENDING) \<and> ev_to e = statusName RUNNING) \<or>
     (ev_from e = Some (statusName RUNNING) \<and> ev_to e \<in> {statusName st | st. terminal st})"

section \<open>The invariant\<close>

definition opsOk :: "Db \<Rightarrow> bool" where
  "opsOk db \<longleftrightarrow> distinct (map op_id (db_ops db)) \<and> distinct (map pp_id (db_pps db)) \<and>
     (\<forall>p\<in>set (db_ops db). op_id p < db_next db) \<and> (\<forall>p\<in>set (db_ops db). op_pp p < db_next db) \<and>
     (\<forall>q\<in>set (db_pps db). pp_id q < db_next db)"

definition eventsOk :: "Db \<Rightarrow> bool" where
  "eventsOk db \<longleftrightarrow> (\<forall>e\<in>set (db_events db). \<forall>i. ev_operation e = Some i \<longrightarrow> i < db_next db)"

text \<open>The project and external id a row is found by; only one row may have them.\<close>

definition owner :: "Resource \<Rightarrow> (uid \<times> jstr) option" where
  "owner r = map_option (Pair (rs_pp r)) (rs_externalId r)"

definition resourcesOk :: "Db \<Rightarrow> bool" where
  "resourcesOk db \<longleftrightarrow> distinct (map rs_id (db_resources db)) \<and> (\<forall>r\<in>set (db_resources db). rs_id r < db_next db) \<and>
     (\<forall>r\<in>set (db_resources db). \<forall>s\<in>set (db_resources db). owner r = owner s \<and> owner r \<noteq> None \<longrightarrow> rs_id r = rs_id s)"

definition keysOk :: "Db \<Rightarrow> bool" where
  "keysOk db \<longleftrightarrow> distinct (map (\<lambda>p. (op_pp p, op_key p)) (db_ops db)) \<and> distinct (map pp_projectId (db_pps db))"

definition auditOk :: "Db \<Rightarrow> bool" where
  "auditOk db \<longleftrightarrow> (\<forall>p\<in>set (db_ops db).
     auditChain None (opEvents (op_id p) db) (Some (statusName (op_status p))) \<and>
     list_all legalMove (opEvents (op_id p) db))"

definition dryRunOk :: "Db \<Rightarrow> bool" where
  "dryRunOk db \<longleftrightarrow> (\<forall>p\<in>set (db_ops db). op_dryRun p \<longleftrightarrow> op_status p = DRY_RUN)"

definition dbInv :: "Db \<Rightarrow> bool" where
  "dbInv db \<longleftrightarrow> opsOk db \<and> eventsOk db \<and> resourcesOk db \<and> keysOk db \<and> auditOk db \<and> dryRunOk db"

section \<open>Writes that leave operations alone\<close>

text \<open>What projection and the rollback marks for an operation may do to the database.\<close>

definition opsKept :: "uid \<Rightarrow> Db \<Rightarrow> Db \<Rightarrow> bool" where
  "opsKept i db db' \<longleftrightarrow> db_ops db' = db_ops db \<and> map pp_id (db_pps db') = map pp_id (db_pps db) \<and>
     map pp_projectId (db_pps db') = map pp_projectId (db_pps db) \<and> db_next db \<le> db_next db' \<and>
     (\<exists>es. db_events db' = db_events db @ es \<and> (\<forall>e\<in>set es. ev_resource e \<noteq> None \<and> ev_operation e = Some i)) \<and>
     (resourcesOk db \<longrightarrow> resourcesOk db')"

lemma opsKept_refl [intro]: "opsKept i db db"
  by (auto simp: opsKept_def)

lemma opsKept_trans: "opsKept i a b \<Longrightarrow> opsKept i b c \<Longrightarrow> opsKept i a c"
  by (auto simp: opsKept_def)

lemma opsKept_opEvents: "opsKept i db db' \<Longrightarrow> opEvents j db' = opEvents j db"
  by (auto simp: opsKept_def opEvents_def filter_empty_conv)

lemmas row_writes = updateResource_def createResource_def destroyResource_def markRolledBack_def
  projectRolledBack_def updateResourceRow_def writeAuditEvent_def resourceEvent_def

text \<open>A row update keeps the resources in order when it keeps ids and gives no external id a second owner.\<close>

lemma resourcesOk_uniq:
  "resourcesOk db \<Longrightarrow> r \<in> set (db_resources db) \<Longrightarrow> s \<in> set (db_resources db) \<Longrightarrow> owner r = owner s \<Longrightarrow>
     owner r \<noteq> None \<Longrightarrow> rs_id r = rs_id s"
  unfolding resourcesOk_def by blast

lemma resourcesOk_map:
  assumes ok: "resourcesOk db" and ids: "\<And>r. rs_id (g r) = rs_id r"
    and uniq: "\<And>r s. r \<in> set (db_resources db) \<Longrightarrow> s \<in> set (db_resources db) \<Longrightarrow> owner (g r) = owner (g s) \<Longrightarrow>
      owner (g r) \<noteq> None \<Longrightarrow> rs_id r = rs_id s"
  shows "resourcesOk (db\<lparr>db_resources := map g (db_resources db)\<rparr>)"
proof -
  let ?rs = "db_resources db"
  have "map rs_id (map g ?rs) = map rs_id ?rs" using ids by simp
  moreover have "distinct (map rs_id ?rs)" using ok unfolding resourcesOk_def by blast
  ultimately have 1: "distinct (map rs_id (map g ?rs))" by (simp only:)
  have 2: "rs_id r < db_next db" if r: "r \<in> set (map g ?rs)" for r
  proof -
    from r obtain r0 where "r0 \<in> set ?rs" "r = g r0" by auto
    with ok ids show ?thesis by (simp add: resourcesOk_def)
  qed
  have 3: "rs_id r = rs_id s" if rs: "r \<in> set (map g ?rs)" "s \<in> set (map g ?rs)" "owner r = owner s" "owner r \<noteq> None" for r s
  proof -
    from rs(1,2) obtain r0 s0 where "r0 \<in> set ?rs" "r = g r0" "s0 \<in> set ?rs" "s = g s0" by auto
    with uniq [of r0 s0] rs(3,4) ids show ?thesis by simp
  qed
  have rows: "db_resources (db\<lparr>db_resources := map g ?rs\<rparr>) = map g ?rs"
    "db_next (db\<lparr>db_resources := map g ?rs\<rparr>) = db_next db" by simp_all
  show ?thesis unfolding resourcesOk_def rows using 1 2 3 by blast
qed

lemma resourcesOk_update:
  assumes ok: "resourcesOk db" and ids: "\<And>r. rs_id (f r) = rs_id r"
    and own: "\<And>r s. r \<in> set (db_resources db) \<Longrightarrow> rs_id r = i \<Longrightarrow> owner (f r) \<noteq> owner r \<Longrightarrow>
      s \<in> set (db_resources db) \<Longrightarrow> owner s \<noteq> owner (f r)"
  shows "resourcesOk (updateResourceRow i f db)"
  unfolding updateResourceRow_def
proof (rule resourcesOk_map [OF ok])
  let ?g = "\<lambda>r. if rs_id r = i then f r else r"
  show "rs_id (?g r) = rs_id r" for r using ids by simp
  have cross: "rs_id r = rs_id s"
    if "r \<in> set (db_resources db)" "s \<in> set (db_resources db)" "rs_id r = i"
      "owner (f r) = owner s" "owner s \<noteq> None" for r s
  proof (cases "owner (f r) = owner r")
    case True
    with that resourcesOk_uniq [OF ok that(1,2)] show ?thesis by simp
  next
    case False
    with own [OF that(1,3) False that(2)] that(4) show ?thesis by simp
  qed
  fix r s
  assume rs: "r \<in> set (db_resources db)" "s \<in> set (db_resources db)" "owner (?g r) = owner (?g s)" "owner (?g r) \<noteq> None"
  show "rs_id r = rs_id s"
  proof (cases "rs_id r = i")
    case True
    with rs cross [of r s] show ?thesis by (cases "rs_id s = i") auto
  next
    case False
    with rs cross [of s r] resourcesOk_uniq [OF ok rs(1,2)] show ?thesis by (cases "rs_id s = i") auto
  qed
qed

lemma resourcesOk_cong:
  "db_resources a = db_resources b \<Longrightarrow> db_next a = db_next b \<Longrightarrow> resourcesOk a = resourcesOk b"
  by (simp only: resourcesOk_def)

lemma resourcesOk_events: "resourcesOk (writeAuditEvent e db) = resourcesOk db"
  by (simp add: resourcesOk_def writeAuditEvent_def)

lemma find_Some: "find P xs = Some x \<Longrightarrow> P x \<and> x \<in> set xs"
  by (induction xs) (auto split: if_splits)

lemma same_id: "resourcesOk db \<Longrightarrow> r \<in> set (db_resources db) \<Longrightarrow> s \<in> set (db_resources db) \<Longrightarrow>
    rs_id r = rs_id s \<Longrightarrow> r = s"
  by (auto simp: resourcesOk_def distinct_map inj_on_def)

lemma findExisting_cases:
  assumes "findExisting pp res db = Some r"
  shows "r \<in> set (db_resources db) \<and> rs_pp r = pp \<and> (owner r = Some (pp, rr_externalId res) \<or>
     (\<forall>s\<in>set (db_resources db). owner s \<noteq> Some (pp, rr_externalId res)))"
  using assms by (auto simp: findExisting_def owner_def find_None_iff dest!: find_Some split: option.splits)

lemma findExisting_None:
  "findExisting pp res db = None \<Longrightarrow> s \<in> set (db_resources db) \<Longrightarrow> owner s \<noteq> Some (pp, rr_externalId res)"
  by (auto simp: findExisting_def owner_def find_None_iff split: option.splits)

lemma resourcesOk_updateResource:
  assumes "resourcesOk db" "findExisting pp res db = Some r"
  shows "resourcesOk (updateResource r res op actor db)"
  unfolding updateResource_def resourcesOk_events
proof (rule resourcesOk_update [OF assms(1)])
  let ?f = "\<lambda>q. q\<lparr>rs_externalId := Some (rr_externalId res), rs_status := ''ACTIVE'',
    rs_desiredSpec := rr_desiredSpec res, rs_actualSpec := rr_actualSpec res, rs_rollbackSpec := Some (rs_desiredSpec r)\<rparr>"
  fix q s
  assume q: "q \<in> set (db_resources db)" "rs_id q = rs_id r" "owner (?f q) \<noteq> owner q" and s: "s \<in> set (db_resources db)"
  note c = findExisting_cases [OF assms(2)]
  have "q = r" using c q by (intro same_id [OF assms(1)]) auto
  moreover have "owner (?f q) = Some (rs_pp q, rr_externalId res)" by (simp add: owner_def)
  ultimately show "owner s \<noteq> owner (?f q)" using c q(3) s by auto
qed simp

lemma resourcesOk_createResource:
  assumes "resourcesOk db" "findExisting (pj_pp params) res db = None"
  shows "resourcesOk (createResource now params res db)"
proof -
  obtain r where db: "db_resources (createResource now params res db) = db_resources db @ [r]"
      "db_next (createResource now params res db) = Suc (db_next db)"
      "rs_id r = db_next db" "owner r = Some (pj_pp params, rr_externalId res)"
    by (auto simp: createResource_def writeAuditEvent_def Let_def owner_def)
  have new: "owner s \<noteq> owner r" if "s \<in> set (db_resources db)" for s
    using findExisting_None [OF assms(2) that] db(4) by simp
  have lt: "rs_id s < db_next db" if "s \<in> set (db_resources db)" for s
    using assms(1) that by (simp add: resourcesOk_def)
  have "distinct (map rs_id (db_resources db))" using assms(1) by (simp add: resourcesOk_def)
  moreover have "rs_id r \<notin> rs_id ` set (db_resources db)" using lt db(3) by force
  ultimately have "distinct (map rs_id (db_resources db @ [r]))" by simp
  moreover have "\<forall>s\<in>set (db_resources db @ [r]). rs_id s < Suc (db_next db)" using lt db(3) by (auto simp: less_Suc_eq)
  moreover have "rs_id a = rs_id b" if "a \<in> set (db_resources db @ [r])" "b \<in> set (db_resources db @ [r])"
    "owner a = owner b" "owner a \<noteq> None" for a b
    using that new [of a] new [of b] resourcesOk_uniq [OF assms(1), of a b] by auto
  ultimately show ?thesis unfolding resourcesOk_def db(1,2) by blast
qed

lemma resourcesOk_destroy: "resourcesOk db \<Longrightarrow> resourcesOk (destroyResource now params db x)"
  unfolding destroyResource_def
  by (auto simp: resourcesOk_events owner_def intro!: resourcesOk_update split: option.splits)

lemma resourcesOk_mark:
  assumes "resourcesOk db"
  shows "resourcesOk (markRolledBack pp rs db)"
proof -
  have "resourcesOk (db\<lparr>db_resources := map (\<lambda>r. if P r then r\<lparr>rs_status := st\<rparr> else r) (db_resources db)\<rparr>)" for P st
  proof (rule resourcesOk_map [OF assms])
    let ?g = "\<lambda>r. if P r then r\<lparr>rs_status := st\<rparr> else r"
    have g: "owner (?g r) = owner r" for r by (simp add: owner_def)
    show "rs_id (?g r) = rs_id r" for r by simp
    show "rs_id r = rs_id s" if "r \<in> set (db_resources db)" "s \<in> set (db_resources db)"
      "owner (?g r) = owner (?g s)" "owner (?g r) \<noteq> None" for r s
      using that resourcesOk_uniq [OF assms that(1,2)] unfolding g by blast
  qed
  with assms show ?thesis by (simp add: markRolledBack_def)
qed

lemma opsKept_projectOne: "opsKept (pj_operationId params) db (projectOne now params db res)"
proof (cases "findExisting (pj_pp params) res db")
  case None
  have "opsKept (pj_operationId params) db (createResource now params res db)"
    using resourcesOk_createResource [OF _ None] by (simp add: opsKept_def) (simp add: row_writes Let_def)
  with None show ?thesis by (simp add: projectOne_def)
next
  case (Some r)
  have "opsKept (pj_operationId params) db (updateResource r res (pj_operationId params) (pj_actor params) db)"
    using resourcesOk_updateResource [OF _ Some] by (simp add: opsKept_def) (simp add: row_writes)
  with Some show ?thesis by (simp add: projectOne_def)
qed

lemma opsKept_destroy: "opsKept (pj_operationId params) db (destroyResource now params db x)"
  using resourcesOk_destroy [of db now params x]
  by (simp add: opsKept_def) (simp add: row_writes split: option.splits)

lemma opsKept_marks: "opsKept i db (markRolledBack pp rs db)" "opsKept i db (projectRolledBack pp db)"
proof -
  show "opsKept i db (markRolledBack pp rs db)"
    using resourcesOk_mark [of db pp rs] by (simp add: opsKept_def) (simp add: markRolledBack_def)
  show "opsKept i db (projectRolledBack pp db)"
    using resourcesOk_cong [of "projectRolledBack pp db" db]
    by (simp add: opsKept_def) (simp add: projectRolledBack_def)
qed

lemma opsKept_foldl: "(\<And>d x. opsKept i d (f d x)) \<Longrightarrow> opsKept i db (foldl f db xs)"
  by (induction xs arbitrary: db) (auto intro: opsKept_trans)

lemma opsKept_project: "opsKept (pj_operationId params) db (projectIfAny now params db)"
  unfolding projectIfAny_def project_def
  by (auto intro!: opsKept_trans [OF opsKept_foldl opsKept_foldl] opsKept_projectOne opsKept_destroy)

section \<open>Status moves\<close>

text \<open>The other columns a move may set: never the keys, the kind or the status itself.\<close>

definition keeps :: "(Operation \<Rightarrow> Operation) \<Rightarrow> bool" where
  "keeps f \<longleftrightarrow> (\<forall>q. op_id (f q) = op_id q \<and> op_pp (f q) = op_pp q \<and> op_key (f q) = op_key q \<and>
     op_type (f q) = op_type q \<and> op_dryRun (f q) = op_dryRun q \<and> op_status (f q) = op_status q)"

lemma keepsI [intro]:
  "keeps (\<lambda>q. q\<lparr>op_startedAt := a\<rparr>)"
  "keeps (\<lambda>q. q\<lparr>op_errorMessage := c, op_completedAt := b\<rparr>)"
  "keeps (\<lambda>q. q\<lparr>op_result := d, op_completedAt := b\<rparr>)"
  by (simp_all add: keeps_def)

definition moved :: "Operation \<Rightarrow> OpStatus \<Rightarrow> (Operation \<Rightarrow> Operation) \<Rightarrow> Operation \<Rightarrow> Operation" where
  "moved p to f q = (if op_id q = op_id p then f (q\<lparr>op_status := to\<rparr>) else q)"

lemma moveOp_tables [simp]:
  "db_ops (moveOp u p from to kind f det db) = map (moved p to f) (db_ops db)"
  "db_pps (moveOp u p from to kind f det db) = db_pps db"
  "db_resources (moveOp u p from to kind f det db) = db_resources db"
  "db_next (moveOp u p from to kind f det db) = db_next db"
  "db_projects (moveOp u p from to kind f det db) = db_projects db"
  "db_members (moveOp u p from to kind f det db) = db_members db"
  "db_credentials (moveOp u p from to kind f det db) = db_credentials db"
  by (simp_all add: moveOp_def updateOp_def writeAuditEvent_def moved_def fun_eq_iff)

definition moveEvent :: "uid \<Rightarrow> Operation \<Rightarrow> OpStatus \<Rightarrow> OpStatus \<Rightarrow> string \<Rightarrow> json \<Rightarrow> AuditEvent" where
  "moveEvent u p from to kind det =
     \<lparr>ev_pp = op_pp p, ev_resource = None, ev_operation = Some (op_id p), ev_kind = kind, ev_actor = u,
      ev_from = Some (statusName from), ev_to = statusName to, ev_detail = det\<rparr>"

lemma moveOp_events [simp]:
  "db_events (moveOp u p from to kind f det db) = db_events db @ [moveEvent u p from to kind det]"
  by (simp add: moveOp_def updateOp_def writeAuditEvent_def moveEvent_def)

lemma moved_keys:
  assumes "keeps f"
  shows "op_id (moved p to f q) = op_id q" "op_pp (moved p to f q) = op_pp q" "op_key (moved p to f q) = op_key q"
    "op_dryRun (moved p to f q) = op_dryRun q"
    "op_status (moved p to f q) = (if op_id q = op_id p then to else op_status q)"
  using assms by (simp_all add: keeps_def moved_def)

lemma opEvents_move:
  "opEvents i (moveOp u p from to kind f det db) =
     opEvents i db @ (if i = op_id p then [moveEvent u p from to kind det] else [])"
  by (simp add: opEvents_def moveEvent_def)

lemma move_auditOk:
  assumes "auditOk db" "keeps f" "\<And>q. q \<in> set (db_ops db) \<Longrightarrow> op_id q = op_id p \<Longrightarrow> op_status q = from"
    "legalMove (moveEvent u p from to kind det)"
  shows "auditOk (moveOp u p from to kind f det db)"
proof -
  have "auditChain None (opEvents (op_id q) (moveOp u p from to kind f det db))
        (Some (statusName (op_status (moved p to f q)))) \<and>
      list_all legalMove (opEvents (op_id q) (moveOp u p from to kind f det db))" if q: "q \<in> set (db_ops db)" for q
  proof (cases "op_id q = op_id p")
    case True
    with q assms(1,3) have "auditChain None (opEvents (op_id p) db) (Some (statusName from))"
      "list_all legalMove (opEvents (op_id p) db)"
      by (auto simp: auditOk_def)
    with True assms(2,4) show ?thesis
      by (auto simp: opEvents_move moved_keys auditChain_append moveEvent_def)
  next
    case False
    with q assms(1,2) show ?thesis by (auto simp: opEvents_move moved_keys auditOk_def)
  qed
  with assms(2) show ?thesis by (auto simp: auditOk_def moved_keys)
qed

lemma move_opsOk: "keeps f \<Longrightarrow> opsOk db \<Longrightarrow> opsOk (moveOp u p from to kind f det db)"
  by (simp add: opsOk_def moved_keys o_def)

lemma move_keysOk: "keeps f \<Longrightarrow> keysOk db \<Longrightarrow> keysOk (moveOp u p from to kind f det db)"
  by (simp add: keysOk_def moved_keys o_def)

lemma move_eventsOk: "op_id p < db_next db \<Longrightarrow> eventsOk db \<Longrightarrow> eventsOk (moveOp u p from to kind f det db)"
  by (auto simp: eventsOk_def moveEvent_def)

lemma move_resourcesOk: "resourcesOk (moveOp u p from to kind f det db) = resourcesOk db"
  by (simp add: resourcesOk_def)

text \<open>The part of the invariant that a running operation keeps; \<open>dryRunOk\<close> is judged at its end.\<close>

definition coreInv :: "Db \<Rightarrow> bool" where
  "coreInv db \<longleftrightarrow> opsOk db \<and> eventsOk db \<and> resourcesOk db \<and> keysOk db \<and> auditOk db"

lemma dbInv_iff: "dbInv db \<longleftrightarrow> coreInv db \<and> dryRunOk db"
  by (auto simp: dbInv_def coreInv_def)

lemma move_coreInv:
  assumes "coreInv db" "keeps f" "\<And>q. q \<in> set (db_ops db) \<Longrightarrow> op_id q = op_id p \<Longrightarrow> op_status q = from"
    "legalMove (moveEvent u p from to kind det)" "op_id p < db_next db"
  shows "coreInv (moveOp u p from to kind f det db)"
  using assms unfolding coreInv_def
  by (simp add: move_opsOk move_keysOk move_eventsOk move_resourcesOk move_auditOk)

lemma opsKept_coreInv:
  assumes "coreInv db" "opsKept i db db'" "i < db_next db"
  shows "coreInv db'"
proof -
  from assms(2) have k: "db_ops db' = db_ops db" "map pp_id (db_pps db') = map pp_id (db_pps db)"
    "map pp_projectId (db_pps db') = map pp_projectId (db_pps db)" "db_next db \<le> db_next db'"
    "resourcesOk db \<longrightarrow> resourcesOk db'"
    by (auto simp: opsKept_def)
  from k(2) have ids: "pp_id ` set (db_pps db') = pp_id ` set (db_pps db)" by (metis list.set_map)
  have "\<forall>q\<in>set (db_pps db). pp_id q < db_next db" using assms(1) by (simp add: coreInv_def opsOk_def)
  then have "\<forall>x\<in>pp_id ` set (db_pps db'). x < db_next db'" using ids k(4) by force
  with assms(1) k have "opsOk db'" "keysOk db'" "resourcesOk db'"
    by (force simp: coreInv_def opsOk_def keysOk_def)+
  moreover have "eventsOk db'"
    using assms k(4) by (fastforce simp: coreInv_def eventsOk_def opsKept_def)
  moreover have "auditOk db'"
    using assms(1) k(1) opsKept_opEvents [OF assms(2)] by (simp add: coreInv_def auditOk_def)
  ultimately show ?thesis by (simp add: coreInv_def)
qed

section \<open>One run of the executor\<close>

text \<open>
  Every run that is not refused has the same shape: the move to RUNNING, writes that leave the
  operations alone, and the move to a final status.
\<close>

definition runShape :: "uid \<Rightarrow> Operation \<Rightarrow> Db \<Rightarrow> Db \<Rightarrow> OpStatus \<Rightarrow> bool" where
  "runShape u p db db' st \<longleftrightarrow>
     (\<exists>k0 f0 d0 dbm k f d. keeps f0 \<and> keeps f \<and> opsKept (op_id p) (moveOp u p PENDING RUNNING k0 f0 d0 db) dbm \<and>
        db' = moveOp u p RUNNING st k f d dbm)"

lemma runShapeI:
  "keeps f0 \<Longrightarrow> keeps f \<Longrightarrow> opsKept (op_id p) (moveOp u p PENDING RUNNING k0 f0 d0 db) dbm \<Longrightarrow>
     runShape u p db (moveOp u p RUNNING st k f d dbm) st"
  unfolding runShape_def by blast

lemma projectIfAny_kept: "opsKept (op_id p) db (projectIfAny now (projectionParams u p pp rs ds) db)"
  using opsKept_project [of "projectionParams u p pp rs ds"] by (simp add: projectionParams_def)

lemma executeForward_shape:
  "\<exists>st. runShape u p db (executeForward apply now u p pp path db) st \<and> terminal st \<and> (st = DRY_RUN \<longrightarrow> op_dryRun p)"
proof -
  let ?db1 = "startOp now u p pp ''STATUS_CHANGED'' db"
  have fail: "runShape u p db (failOp now u p pp err ?db1) FAILED" for err
    unfolding failOp_def startOp_def Let_def by (rule runShapeI [OF keepsI(1,2) opsKept_refl])
  have part: "runShape u p db (moveOp u p RUNNING PARTIAL_FAILED k (\<lambda>q. q\<lparr>op_errorMessage := c, op_completedAt := t\<rparr>) d
      (projectIfAny now (projectionParams u p pp rs ds) ?db1)) PARTIAL_FAILED" for k c t d rs ds
    unfolding startOp_def by (rule runShapeI [OF keepsI(1,2) projectIfAny_kept])
  have comp: "runShape u p db (completeOp now u p pp st k res (projectIfAny now (projectionParams u p pp rs ds) ?db1)) st"
    "runShape u p db (completeOp now u p pp st k res ?db1) st" for st k res rs ds
    unfolding completeOp_def startOp_def
    by (rule runShapeI [OF keepsI(1,3) projectIfAny_kept], rule runShapeI [OF keepsI(1,3) opsKept_refl])
  let ?in = "executeInput p pp path (op_input p) (op_dryRun p) db"
  show ?thesis
  proof (cases "apply ?in")
    case (Inl err)
    show ?thesis
    proof (cases "\<exists>applied deleted failures. err = PartialApplyError applied deleted failures \<and> applied \<noteq> []")
      case True
      with Inl part show ?thesis
        by (intro exI [of _ PARTIAL_FAILED]) (auto simp: executeForward_def Let_def terminal_def)
    next
      case False
      with Inl have "executeForward apply now u p pp path db = failOp now u p pp err ?db1"
        by (cases err) (auto simp: executeForward_def Let_def)
      with fail show ?thesis by (intro exI [of _ FAILED]) (simp add: terminal_def)
    qed
  next
    case (Inr res)
    with comp show ?thesis
      by (intro exI [of _ "if op_dryRun p then DRY_RUN else COMPLETED"])
         (simp add: executeForward_def Let_def terminal_def)
  qed
qed

lemma executeRollback_shape:
  "\<exists>st. runShape u p db (executeRollback apply now u p pp path db) st \<and> terminal st \<and> st \<noteq> DRY_RUN"
proof -
  let ?db1 = "startOp now u p pp ''ROLLBACK_INITIATED'' db"
  have fail: "runShape u p db (failOp now u p pp err ?db1) FAILED" for err
    unfolding failOp_def startOp_def Let_def by (rule runShapeI [OF keepsI(1,2) opsKept_refl])
  have comp: "runShape u p db (completeOp now u p pp st k res (projectRolledBack pid (markRolledBack pid' rs'
      (projectIfAny now (projectionParams u p pp rs ds) ?db1)))) st" for st k res rs ds pid pid' rs'
    unfolding completeOp_def startOp_def
    by (rule runShapeI [OF keepsI(1,3) opsKept_trans [OF projectIfAny_kept opsKept_trans [OF opsKept_marks]]])
  show ?thesis
  proof (cases "apply (executeInput p pp path (rollbackSpec (op_pp p) db) False db)")
    case (Inl err)
    with fail show ?thesis
      by (intro exI [of _ FAILED]) (simp add: executeRollback_def Let_def terminal_def)
  next
    case (Inr res)
    with comp show ?thesis
      by (intro exI [of _ ROLLED_BACK]) (simp add: executeRollback_def Let_def terminal_def)
  qed
qed

text \<open>An accepted call ran a pending operation of the caller's team; a refused one changed nothing.\<close>

lemma executeOperation_cases:
  assumes "executeOperation registry now u i db = (x, db')"
  obtains (refused) e where "x = Inl e" "db' = db"
  | (ran) p pp team st where "findOp i db = Some p" "projectOfOp p db = Some (pp, team)" "isMember team u db"
      "op_status p = PENDING" "runShape u p db db' st" "terminal st" "st = DRY_RUN \<longrightarrow> op_dryRun p"
      "x = Inr (findOp i db')"
proof -
  have "(\<exists>e. x = Inl e \<and> db' = db) \<or> (\<exists>p pp team st. findOp i db = Some p \<and> projectOfOp p db = Some (pp, team) \<and>
      isMember team u db \<and> op_status p = PENDING \<and> runShape u p db db' st \<and> terminal st \<and>
      (st = DRY_RUN \<longrightarrow> op_dryRun p) \<and> x = Inr (findOp i db'))"
    using assms executeForward_shape executeRollback_shape
    by (auto simp: executeOperation_def Let_def split: option.splits prod.splits if_splits sum.splits) blast+
  then show ?thesis using refused ran by blast
qed

section \<open>Every call keeps the invariant\<close>

lemma findOp_in: "findOp i db = Some p \<Longrightarrow> p \<in> set (db_ops db) \<and> op_id p = i"
  unfolding findOp_def by (blast dest: find_Some)

lemma same_op: "opsOk db \<Longrightarrow> p \<in> set (db_ops db) \<Longrightarrow> q \<in> set (db_ops db) \<Longrightarrow> op_id p = op_id q \<Longrightarrow> p = q"
  by (auto simp: opsOk_def distinct_map inj_on_def)

lemma legal_moves:
  "legalMove (moveEvent u p PENDING RUNNING k d)" "terminal st \<Longrightarrow> legalMove (moveEvent u p RUNNING st k d)"
  by (auto simp: legalMove_def moveEvent_def)

lemma runShape_inv:
  assumes inv: "dbInv db" and p: "p \<in> set (db_ops db)" "op_status p = PENDING"
    and run: "runShape u p db db' st" "terminal st" "st = DRY_RUN \<longrightarrow> op_dryRun p"
  shows "dbInv db'"
proof -
  from run(1) obtain k0 f0 d0 dbm k f d where f: "keeps f0" "keeps f"
    and kept: "opsKept (op_id p) (moveOp u p PENDING RUNNING k0 f0 d0 db) dbm"
    and db': "db' = moveOp u p RUNNING st k f d dbm"
    by (auto simp: runShape_def)
  let ?db1 = "moveOp u p PENDING RUNNING k0 f0 d0 db"
  have core: "coreInv db" "dryRunOk db" using inv by (auto simp: dbInv_iff)
  then have ops: "opsOk db" by (simp add: coreInv_def)
  have lt: "op_id p < db_next db" using ops p(1) by (simp add: opsOk_def)
  have st0: "op_status q = PENDING" if "q \<in> set (db_ops db)" "op_id q = op_id p" for q
    using same_op [OF ops that(1) p(1) that(2)] p(2) by simp
  have c1: "coreInv ?db1" by (rule move_coreInv [OF core(1) f(1) st0 legal_moves(1) lt])
  have cm: "coreInv dbm" using opsKept_coreInv [OF c1 kept] lt by simp
  have ltm: "op_id p < db_next dbm" using kept lt by (simp add: opsKept_def)
  have om: "db_ops dbm = map (moved p RUNNING f0) (db_ops db)" using kept by (simp add: opsKept_def)
  have st1: "op_status q = RUNNING" if "q \<in> set (db_ops dbm)" "op_id q = op_id p" for q
    using that om f(1) by (auto simp: moved_keys)
  have c': "coreInv db'" unfolding db' by (rule move_coreInv [OF cm f(2) st1 legal_moves(2) [OF run(2)] ltm])
  have "\<not> op_dryRun p" using core(2) p by (auto simp: dryRunOk_def)
  then have "st \<noteq> DRY_RUN" using run(3) by auto
  have same: "op_dryRun q = op_dryRun p" if "q \<in> set (db_ops db)" "op_id q = op_id p" for q
    using same_op [OF ops that(1) p(1) that(2)] by simp
  have "dryRunOk db'"
    unfolding dryRunOk_def db' using om f core(2) same \<open>\<not> op_dryRun p\<close> \<open>st \<noteq> DRY_RUN\<close>
    by (auto simp: moved_keys dryRunOk_def)
  with c' show ?thesis by (simp add: dbInv_iff)
qed

text \<open>A new operation: fresh id, fresh key, one event that opens its log.\<close>

lemma newOperation_inv:
  assumes inv: "dbInv db" and i: "db_next db \<le> i" "i < n" and pp: "pp < n"
    and key: "\<And>p. p \<in> set (db_ops db) \<Longrightarrow> (op_pp p, op_key p) \<noteq> (pp, k)"
    and pps: "distinct (map pp_id pps)" "distinct (map pp_projectId pps)" "\<forall>q\<in>set pps. pp_id q < n"
  shows "dbInv (writeAuditEvent (createdEvent pp i kind u dry)
      (db\<lparr>db_pps := pps, db_ops := db_ops db @ [newOperation i now pp ty dry k spec u], db_next := n\<rparr>))"
    (is "dbInv ?db'")
proof -
  let ?p = "newOperation i now pp ty dry k spec u" and ?e = "createdEvent pp i kind u dry"
  have tables: "db_ops ?db' = db_ops db @ [?p]" "db_pps ?db' = pps" "db_next ?db' = n"
    "db_resources ?db' = db_resources db" "db_events ?db' = db_events db @ [?e]"
    by (simp_all add: writeAuditEvent_def)
  have le: "db_next db \<le> n" using i by simp
  have old: "op_id p < db_next db" "op_pp p < db_next db" if "p \<in> set (db_ops db)" for p
    using inv that by (auto simp: dbInv_def opsOk_def)
  have p: "op_id ?p = i" "op_pp ?p = pp" "op_key ?p = k" "op_dryRun ?p = dry" "op_status ?p = initialStatus dry"
    by (simp_all add: newOperation_def)
  have fresh: "op_id q \<noteq> i" if "q \<in> set (db_ops db)" for q using old(1) [OF that] i(1) by simp
  have evs: "ev_operation e \<noteq> Some j" if "e \<in> set (db_events db)" "db_next db \<le> j" for e j
    using inv that by (auto simp: dbInv_def eventsOk_def)
  have e: "ev_operation ?e = Some i" "ev_resource ?e = None" "ev_from ?e = None" "ev_to ?e = statusName (initialStatus dry)"
    by (simp_all add: createdEvent_def)
  have log: "opEvents j ?db' = opEvents j db @ (if j = i then [?e] else [])" for j
    by (simp add: opEvents_def tables e)
  have empty: "opEvents i db = []" using evs i(1) by (auto simp: opEvents_def filter_empty_conv)
  have "distinct (map op_id (db_ops db @ [?p]))"
    using inv fresh p by (auto simp: dbInv_def opsOk_def)
  then have "opsOk ?db'"
    unfolding opsOk_def tables using pps i(2) pp old le p by (auto intro: less_le_trans)
  moreover have "eventsOk ?db'"
    unfolding eventsOk_def tables using inv i le e
    by (auto simp: dbInv_def eventsOk_def intro: less_le_trans)
  moreover have "resourcesOk ?db'"
    using inv le by (auto simp: dbInv_def resourcesOk_def tables intro: less_le_trans)
  moreover have "keysOk ?db'"
  proof -
    have "(pp, k) \<notin> (\<lambda>p. (op_pp p, op_key p)) ` set (db_ops db)" using key by force
    with inv pps p show ?thesis by (simp add: dbInv_def keysOk_def tables)
  qed
  moreover have "auditOk ?db'"
  proof -
    have "auditChain None [?e] (Some (statusName (op_status ?p))) \<and> list_all legalMove [?e]"
      using e p by (simp add: legalMove_def initialStatus_def)
    then show ?thesis
      using inv fresh p empty unfolding auditOk_def tables log by (auto simp: dbInv_def auditOk_def)
  qed
  moreover have "dryRunOk ?db'"
    using inv p by (auto simp: dbInv_def dryRunOk_def tables initialStatus_def)
  ultimately show ?thesis by (simp add: dbInv_def)
qed

lemma findPP_in: "findPPByProject i db = Some q \<Longrightarrow> q \<in> set (db_pps db) \<and> pp_projectId q = i"
  unfolding findPPByProject_def by (blast dest: find_Some)

lemma createOperation_inv:
  assumes "dbInv db" "createOperation now u dto db = (r, db')"
  shows "dbInv db'"
proof (cases "db' = db")
  case False
  with assms(2) obtain pp where pp: "findPPByProject (co_projectId dto) db = Some pp"
    and key: "findOpByKey (pp_id pp) (co_idempotencyKey dto) db = None"
    and db': "db' = writeAuditEvent (createdEvent (pp_id pp) (db_next db) ''OPERATION_STARTED'' u (co_dryRun dto))
      (db\<lparr>db_ops := db_ops db @ [newOperation (db_next db) now (pp_id pp) (co_type dto) (co_dryRun dto)
         (co_idempotencyKey dto) (co_desiredSpec dto) u], db_next := Suc (db_next db)\<rparr>)"
    by (auto simp: createOperation_def Let_def split: option.splits if_splits)
  have inv: "opsOk db" "keysOk db" using assms(1) by (auto simp: dbInv_def)
  have "(op_pp p, op_key p) \<noteq> (pp_id pp, co_idempotencyKey dto)" if "p \<in> set (db_ops db)" for p
    using key that by (auto simp: findOpByKey_def find_None_iff)
  moreover have "pp_id pp < Suc (db_next db)" "distinct (map pp_id (db_pps db))" "distinct (map pp_projectId (db_pps db))"
    "\<forall>q\<in>set (db_pps db). pp_id q < Suc (db_next db)"
    using inv findPP_in [OF pp] by (auto simp: opsOk_def keysOk_def less_Suc_eq)
  ultimately have "dbInv (writeAuditEvent (createdEvent (pp_id pp) (db_next db) ''OPERATION_STARTED'' u (co_dryRun dto))
      (db\<lparr>db_pps := db_pps db, db_ops := db_ops db @ [newOperation (db_next db) now (pp_id pp) (co_type dto) (co_dryRun dto)
         (co_idempotencyKey dto) (co_desiredSpec dto) u], db_next := Suc (db_next db)\<rparr>))"
    by (intro newOperation_inv assms(1)) auto
  with db' show ?thesis by simp
qed (use assms in simp)

lemma createProject_inv:
  assumes "dbInv db" "createProject now u dto db = (r, db')"
  shows "dbInv db'"
proof (cases "db' = db")
  case False
  let ?i = "db_next db" and ?q = "newPProject (db_next db) dto"
  have q: "pp_id ?q = ?i" "pp_projectId ?q = cp_projectId dto" by (simp_all add: newPProject_def)
  from False assms(2) have new: "findPPByProject (cp_projectId dto) db = None"
    and db': "db' = writeAuditEvent (createdEvent ?i (Suc ?i) ''STATUS_CHANGED'' u (cp_dryRun dto))
      (db\<lparr>db_pps := db_pps db @ [?q], db_ops := db_ops db @ [newOperation (Suc ?i) now ?i CREATE (cp_dryRun dto)
         (cp_idempotencyKey dto) (cp_desiredSpec dto) u], db_next := ?i + 2\<rparr>)"
    by (auto simp: createProject_def Let_def split: option.splits if_splits)
  have inv: "opsOk db" "keysOk db" using assms(1) by (auto simp: dbInv_def)
  have "(op_pp p, op_key p) \<noteq> (?i, cp_idempotencyKey dto)" if "p \<in> set (db_ops db)" for p
    using inv that by (auto simp: opsOk_def)
  moreover have "distinct (map pp_id (db_pps db @ [?q]))" using inv(1) q(1) by (auto simp: opsOk_def)
  moreover have "distinct (map pp_projectId (db_pps db @ [?q]))"
    using inv(2) q(2) new by (auto simp: keysOk_def findPPByProject_def find_None_iff)
  moreover have "\<forall>x\<in>set (db_pps db @ [?q]). pp_id x < ?i + 2" using inv(1) q(1) by (auto simp: opsOk_def less_SucI)
  ultimately show ?thesis unfolding db' by (intro newOperation_inv assms(1)) auto
qed (use assms in simp)

lemma executeOperation_inv:
  assumes "dbInv db" "executeOperation registry now u i db = (x, db')"
  shows "dbInv db'"
  using assms(2)
proof (cases rule: executeOperation_cases)
  case refused
  with assms(1) show ?thesis by simp
next
  case (ran p pp team st)
  with findOp_in [OF ran(1)] show ?thesis by (intro runShape_inv [OF assms(1)]) auto
qed

lemma dbInv_administer: "dbInv db \<Longrightarrow> dbInv (db\<lparr>db_projects := ps, db_members := ms, db_credentials := cs\<rparr>)"
  using resourcesOk_cong [of "db\<lparr>db_projects := ps, db_members := ms, db_credentials := cs\<rparr>" db]
  by (simp add: dbInv_def opsOk_def eventsOk_def keysOk_def auditOk_def dryRunOk_def opEvents_def)

lemma apiStep_inv: "dbInv db \<Longrightarrow> apiStep db db' \<Longrightarrow> dbInv db'"
  by (erule apiStep.cases) (auto intro: createProject_inv createOperation_inv executeOperation_inv dbInv_administer)

lemma initialDb_inv: "initialDb db \<Longrightarrow> dbInv db"
  by (simp add: initialDb_def dbInv_def opsOk_def eventsOk_def resourcesOk_def keysOk_def auditOk_def dryRunOk_def)

interpretation api: step_system initialDb apiStep dbInv
  by unfold_locales (auto intro: initialDb_inv apiStep_inv)

section \<open>A sample history\<close>

definition sampleDb :: Db where
  "sampleDb = \<lparr>db_projects = [(1, 7)], db_members = [(7, 3)],
     db_credentials = [\<lparr>cr_id = 9, cr_teamId = 7, cr_openbaoPath = js ''kv/x'', cr_revoked = False\<rparr>],
     db_pps = [], db_ops = [], db_resources = [], db_events = [], db_next = 100\<rparr>"

definition sampleProjectDto :: "bool \<Rightarrow> CreateProjectDto" where
  "sampleProjectDto dry = \<lparr>cp_projectId = 1, cp_credentialRefId = 9, cp_region = js ''fsn1'', cp_datacenter = None,
     cp_provider = None, cp_desiredSpec = JObj [], cp_dryRun = dry, cp_idempotencyKey = js ''k1''\<rparr>"

definition sampleOperationDto :: CreateOperationDto where
  "sampleOperationDto = \<lparr>co_projectId = 1, co_type = UPDATE, co_idempotencyKey = js ''k2'', co_desiredSpec = JObj [],
     co_dryRun = False\<rparr>"

definition sampleProvider :: Provider where
  "sampleProvider input = Inr \<lparr>er_resources = [\<lparr>rr_externalId = js ''x1'', rr_type = js ''server'', rr_name = js ''web'',
     rr_desiredSpec = JObj [], rr_actualSpec = JObj []\<rparr>], er_deletedExternalIds = None, er_metadata = None\<rparr>"

definition sampleCreated :: "bool \<Rightarrow> Db" where
  "sampleCreated dry = snd (createProject 5 3 (sampleProjectDto dry) sampleDb)"

definition sampleRun :: Db where
  "sampleRun = snd (executeOperation [(js ''hetzner'', sampleProvider)] 6 3 101 (sampleCreated False))"

lemma sample_initial: "initialDb sampleDb"
  by (simp add: initialDb_def sampleDb_def)

lemma sampleCreated_reachable: "apiStep\<^sup>*\<^sup>* sampleDb (sampleCreated dry)"
  unfolding sampleCreated_def by (rule r_into_rtranclp, rule apiStep.create_project, rule prod.collapse [symmetric])

lemma sampleRun_reachable: "apiStep\<^sup>*\<^sup>* sampleDb sampleRun"
  unfolding sampleRun_def
  by (rule rtranclp.rtrancl_into_rtrancl [OF sampleCreated_reachable], rule apiStep.execute, rule prod.collapse [symmetric])

lemma sampleRun_status: "map op_status (db_ops sampleRun) = [COMPLETED]"
  by code_simp

section \<open>What the handlers guarantee\<close>



text \<open>
  In every history ids, idempotency keys and external ids are unique: no two operations of a
  project share a key, no platform project has two provisioning projects, and no two resource rows
  of a project have the same external id.
\<close>

theorem keys_stay_unique:
  assumes "initialDb db0" "apiStep\<^sup>*\<^sup>* db0 db"
  shows "distinct (map op_id (db_ops db)) \<and> distinct (map (\<lambda>p. (op_pp p, op_key p)) (db_ops db)) \<and>
    distinct (map pp_projectId (db_pps db)) \<and> distinct (map owner (filter (\<lambda>r. owner r \<noteq> None) (db_resources db)))"
proof -
  have inv: "dbInv db" by (rule api.reachable_inv [OF assms])
  then have r: "resourcesOk db" by (simp add: dbInv_def)
  have "distinct (db_resources db)" using r by (simp add: resourcesOk_def distinct_map)
  moreover have "inj_on owner (set (filter (\<lambda>r. owner r \<noteq> None) (db_resources db)))"
  proof (rule inj_onI)
    fix a b
    assume ab: "a \<in> set (filter (\<lambda>r. owner r \<noteq> None) (db_resources db))"
      "b \<in> set (filter (\<lambda>r. owner r \<noteq> None) (db_resources db))" "owner a = owner b"
    then have in_rows: "a \<in> set (db_resources db)" "b \<in> set (db_resources db)" "owner a \<noteq> None" by auto
    then show "a = b" using resourcesOk_uniq [OF r in_rows(1,2) ab(3) in_rows(3)] same_id [OF r in_rows(1,2)] by blast
  qed
  ultimately have "distinct (map owner (filter (\<lambda>r. owner r \<noteq> None) (db_resources db)))"
    by (simp add: distinct_map)
  with inv show ?thesis by (simp add: dbInv_def opsOk_def keysOk_def)
qed

theorem keys_stay_unique_witness: "distinct (map op_id (db_ops sampleRun))"
  using keys_stay_unique [OF sample_initial sampleRun_reachable] by blast

text \<open>
  A dry run never executes: in every history an operation created as a dry run refuses to be
  executed, whoever calls and whatever the provider, and nothing is written.
\<close>

theorem dry_run_never_executes:
  assumes "initialDb db0" "apiStep\<^sup>*\<^sup>* db0 db" "findOp i db = Some p" "op_dryRun p"
  shows "\<exists>e. executeOperation registry now u i db = (Inl e, db)"
proof -
  have "dryRunOk db" using api.reachable_inv [OF assms(1,2)] by (simp add: dbInv_def)
  with findOp_in [OF assms(3)] assms(4) have st: "op_status p = DRY_RUN" by (simp add: dryRunOk_def)
  obtain x db' where x: "executeOperation registry now u i db = (x, db')" by fastforce
  then show ?thesis
  proof (cases rule: executeOperation_cases)
    case (ran q pp team st)
    with assms(3) \<open>op_status p = DRY_RUN\<close> show ?thesis by simp
  qed (use x in simp)
qed

theorem dry_run_never_executes_witness:
  "\<exists>e. executeOperation [(js ''hetzner'', sampleProvider)] 6 3 101 (sampleCreated True) = (Inl e, sampleCreated True)"
proof -
  have "findOp 101 (sampleCreated True) = Some (hd (db_ops (sampleCreated True)))" "op_dryRun (hd (db_ops (sampleCreated True)))"
    by code_simp+
  then show ?thesis by (rule dry_run_never_executes [OF sample_initial sampleCreated_reachable])
qed

lemma shape_others:
  assumes "runShape u p db db' st" "q \<in> set (db_ops db)" "op_id q \<noteq> op_id p"
  shows "q \<in> set (db_ops db')"
proof -
  from assms(1) obtain k0 f0 d0 dbm k f d where
    kept: "opsKept (op_id p) (moveOp u p PENDING RUNNING k0 f0 d0 db) dbm" and db': "db' = moveOp u p RUNNING st k f d dbm"
    unfolding runShape_def by blast
  then have "db_ops db' = map (\<lambda>q. moved p st f (moved p RUNNING f0 q)) (db_ops db)" by (simp add: opsKept_def)
  moreover have "moved p st f (moved p RUNNING f0 q) = q" using assms(3) by (simp add: moved_def)
  ultimately show ?thesis using assms(2) by force
qed



text \<open>
  Creating an operation is idempotent: a caller who repeats a request that succeeded, at any
  later time, gets the same operation back, marked as a replay, and nothing is written.
\<close>

theorem createOperation_is_idempotent:
  assumes "createOperation now u dto db = (Inr r, db1)"
  shows "createOperation now' u dto db1 = (Inr (r\<lparr>or_idempotent := True\<rparr>), db1)"
proof (cases "\<exists>pp p. findPPByProject (co_projectId dto) db = Some pp \<and> findOpByKey (pp_id pp) (co_idempotencyKey dto) db = Some p")
  case True
  with assms show ?thesis
    by (auto simp: createOperation_def toProvisioningOperationResponse_def Let_def split: option.splits if_splits)
next
  case False
  with assms obtain team pp where t: "teamOf (co_projectId dto) db = Some team" "isMember team u db"
    "findPPByProject (co_projectId dto) db = Some pp" "findOpByKey (pp_id pp) (co_idempotencyKey dto) db = None"
    by (auto simp: createOperation_def split: option.splits if_splits)
  let ?p = "newOperation (db_next db) now (pp_id pp) (co_type dto) (co_dryRun dto) (co_idempotencyKey dto) (co_desiredSpec dto) u"
  from assms t have r: "r = toProvisioningOperationResponse ?p False" and ops: "db_ops db1 = db_ops db @ [?p]"
    and same: "db_projects db1 = db_projects db" "db_members db1 = db_members db" "db_pps db1 = db_pps db"
    by (auto simp: createOperation_def writeAuditEvent_def Let_def)
  have find_append: "find P (xs @ ys) = (case find P xs of None \<Rightarrow> find P ys | Some z \<Rightarrow> Some z)" for P :: "Operation \<Rightarrow> bool" and xs ys
    by (induction xs) auto
  have "findOpByKey (pp_id pp) (co_idempotencyKey dto) db1 = Some ?p"
    using t(4) by (simp add: findOpByKey_def ops find_append newOperation_def)
  with t same r show ?thesis
    by (simp add: createOperation_def teamOf_def isMember_def findPPByProject_def toProvisioningOperationResponse_def
        newOperation_def)
qed

theorem createOperation_is_idempotent_witness:
  "\<exists>r db1. createOperation 8 3 sampleOperationDto sampleRun = (Inr r, db1) \<and>
     createOperation 9 3 sampleOperationDto db1 = (Inr (r\<lparr>or_idempotent := True\<rparr>), db1)"
proof -
  have "\<not> isl (fst (createOperation 8 3 sampleOperationDto sampleRun))" by code_simp
  then obtain r db1 where "createOperation 8 3 sampleOperationDto sampleRun = (Inr r, db1)"
    by (metis fst_conv sum.collapse(2) surj_pair)
  with createOperation_is_idempotent [OF this, of 9] show ?thesis by blast
qed

text \<open>The replay does not look at the specification, although the request's documentation says it does.\<close>

lemma replay_ignores_desired_spec:
  "let dto2 = sampleOperationDto\<lparr>co_desiredSpec := JObj [(js ''resources'', JArr [])]\<rparr>;
       db1 = snd (createOperation 8 3 sampleOperationDto sampleRun)
   in map_sum (\<lambda>e. ()) or_idempotent (fst (createOperation 9 3 dto2 db1)) = Inr True"
  by code_simp

end
