(* ===== verification/ProvisioningScope.thy ===== *)
theory ProvisioningScope
  imports ProvisioningRules
begin

text \<open>
  How far one execution reaches: it stays within its own provisioning project, and the projection of
  a provider's result leaves no deleted resource active.  The theory ends with the cases in which
  the executor loses track of what the provider did.
\<close>

section \<open>Rows of other projects\<close>

definition foreign :: "uid \<Rightarrow> Db \<Rightarrow> Resource list" where
  "foreign pp db = filter (\<lambda>r. rs_pp r \<noteq> pp) (db_resources db)"

definition staysIn :: "uid \<Rightarrow> Db \<Rightarrow> Db \<Rightarrow> bool" where
  "staysIn pp db db' \<longleftrightarrow> (resourcesOk db \<longrightarrow> resourcesOk db' \<and> foreign pp db' = foreign pp db)"

lemma staysIn_refl [intro]: "staysIn pp db db"
  by (simp add: staysIn_def)

lemma staysIn_trans: "staysIn pp a b \<Longrightarrow> staysIn pp b c \<Longrightarrow> staysIn pp a c"
  by (simp add: staysIn_def)

lemma staysIn_foldl: "(\<And>d x. staysIn pp d (f d x)) \<Longrightarrow> staysIn pp db (foldl f db xs)"
  by (induction xs arbitrary: db) (auto intro: staysIn_trans)

lemma foreign_map:
  "(\<And>r. r \<in> set rs \<Longrightarrow> rs_pp (g r) = rs_pp r) \<Longrightarrow> (\<And>r. r \<in> set rs \<Longrightarrow> rs_pp r \<noteq> pp \<Longrightarrow> g r = r) \<Longrightarrow>
     filter (\<lambda>r. rs_pp r \<noteq> pp) (map g rs) = filter (\<lambda>r. rs_pp r \<noteq> pp) rs"
  by (induction rs) auto

lemma foreign_update:
  assumes "resourcesOk db" "r \<in> set (db_resources db)" "rs_pp r = pp" "\<And>q. rs_pp (f q) = rs_pp q"
  shows "foreign pp (writeAuditEvent e (updateResourceRow (rs_id r) f db)) = foreign pp db"
  using assms same_id [OF assms(1) _ assms(2)] unfolding foreign_def updateResourceRow_def writeAuditEvent_def
  by (simp del: filter_map) (rule foreign_map, auto)

lemma staysIn_projectOne: "staysIn (pj_pp params) db (projectOne now params db res)"
proof (cases "findExisting (pj_pp params) res db")
  case None
  then show ?thesis
    using resourcesOk_createResource [OF _ None]
    by (simp add: staysIn_def projectOne_def) (simp add: foreign_def createResource_def writeAuditEvent_def Let_def)
next
  case (Some r)
  with findExisting_cases [OF Some] resourcesOk_updateResource [OF _ Some] show ?thesis
    by (auto simp: staysIn_def projectOne_def updateResource_def intro!: foreign_update)
qed

lemma staysIn_destroy: "staysIn (pj_pp params) db (destroyResource now params db x)"
  using resourcesOk_destroy [of db now params x]
  by (auto simp: staysIn_def destroyResource_def dest!: find_Some intro!: foreign_update split: option.splits)

lemma staysIn_project: "staysIn (pj_pp params) db (projectIfAny now params db)"
  unfolding projectIfAny_def project_def
  by (auto intro!: staysIn_trans [OF staysIn_foldl staysIn_foldl] staysIn_projectOne staysIn_destroy)

lemma staysIn_mark: "staysIn pp db (markRolledBack pp rs db)"
  using resourcesOk_mark [of db pp rs]
  unfolding staysIn_def foreign_def markRolledBack_def by (auto simp del: filter_map intro!: foreign_map)

lemma staysIn_same_rows: "db_resources a = db_resources b \<Longrightarrow> db_next a = db_next b \<Longrightarrow> staysIn pp b a"
  using resourcesOk_cong [of a b] by (simp add: staysIn_def foreign_def)

lemmas staysIn_rows = staysIn_same_rows [OF moveOp_tables(3,4)]

lemma staysIn_params: "staysIn (op_pp p) db (projectIfAny now (projectionParams u p pp rs ds) db)"
  using staysIn_project [of "projectionParams u p pp rs ds"] by (simp add: projectionParams_def)

lemma staysIn_forward: "staysIn (op_pp p) db (executeForward apply now u p pp path db)"
proof -
  have 1: "staysIn (op_pp p) db (startOp now u p pp k db)" for k unfolding startOp_def by (rule staysIn_rows)
  have 2: "staysIn (op_pp p) d (failOp now u p pp err d)" for d err unfolding failOp_def Let_def by (rule staysIn_rows)
  have 3: "staysIn (op_pp p) d (completeOp now u p pp st k res d)" for d st k res unfolding completeOp_def by (rule staysIn_rows)
  show ?thesis
    unfolding executeForward_def Let_def
    by (simp split: sum.split ThrownError.split)
       (intro conjI impI allI staysIn_trans [OF 1 2] staysIn_trans [OF 1 3] staysIn_trans [OF 1 staysIn_trans [OF staysIn_params staysIn_rows]]
         staysIn_trans [OF 1 staysIn_trans [OF staysIn_params 3]])
qed

lemma staysIn_rollback: "staysIn (op_pp p) db (executeRollback apply now u p pp path db)"
proof -
  have 1: "staysIn (op_pp p) db (startOp now u p pp k db)" for k unfolding startOp_def by (rule staysIn_rows)
  have 2: "staysIn (op_pp p) d (failOp now u p pp err d)" for d err unfolding failOp_def Let_def by (rule staysIn_rows)
  have 3: "staysIn (op_pp p) d (completeOp now u p pp st k res d)" for d st k res unfolding completeOp_def by (rule staysIn_rows)
  have 4: "staysIn (op_pp p) d (projectRolledBack q d)" for d q by (rule staysIn_same_rows) (simp_all add: projectRolledBack_def)
  show ?thesis
    unfolding executeRollback_def Let_def
    by (simp split: sum.split)
       (intro conjI impI allI staysIn_trans [OF 1 2]
         staysIn_trans [OF 1 staysIn_trans [OF staysIn_params staysIn_trans [OF staysIn_mark staysIn_trans [OF 4 3]]]])
qed

lemma shape_other_ops:
  assumes "runShape u p db db' st"
  shows "filter (\<lambda>q. op_id q \<noteq> op_id p) (db_ops db') = filter (\<lambda>q. op_id q \<noteq> op_id p) (db_ops db)"
proof -
  from assms obtain k0 f0 d0 dbm k f d where keeps: "keeps f0" "keeps f" and
    kept: "opsKept (op_id p) (moveOp u p PENDING RUNNING k0 f0 d0 db) dbm" and db': "db' = moveOp u p RUNNING st k f d dbm"
    unfolding runShape_def by blast
  then have ops: "db_ops db' = map (\<lambda>q. moved p st f (moved p RUNNING f0 q)) (db_ops db)" by (simp add: opsKept_def)
  have "op_id (moved p st f (moved p RUNNING f0 q)) = op_id q" for q using keeps by (simp add: moved_keys)
  moreover have "moved p st f (moved p RUNNING f0 q) = q" if "op_id q \<noteq> op_id p" for q using that by (simp add: moved_def)
  ultimately have "filter (\<lambda>q. op_id q \<noteq> op_id p) (map (\<lambda>q. moved p st f (moved p RUNNING f0 q)) qs) =
      filter (\<lambda>q. op_id q \<noteq> op_id p) qs" for qs by (induction qs) auto
  with ops show ?thesis by simp
qed

text \<open>
  Executing an operation reaches nothing outside its provisioning project: in every history,
  whatever the provider answers, the resource rows of every other project and every other operation
  stay as they were; and a caller outside the project's team is refused and writes nothing at all.
\<close>

theorem execution_stays_in_its_project:
  assumes "initialDb db0" "apiStep\<^sup>*\<^sup>* db0 db" "findOp i db = Some p"
    and "executeOperation registry now u i db = (x, db')"
  shows "foreign (op_pp p) db' = foreign (op_pp p) db \<and>
    filter (\<lambda>q. op_id q \<noteq> i) (db_ops db') = filter (\<lambda>q. op_id q \<noteq> i) (db_ops db) \<and>
    (\<forall>pp team. projectOfOp p db = Some (pp, team) \<longrightarrow> \<not> isMember team u db \<longrightarrow> isl x \<and> db' = db)"
proof -
  have ok: "resourcesOk db" using api.reachable_inv [OF assms(1,2)] by (simp add: dbInv_def)
  have id: "op_id p = i" using findOp_in [OF assms(3)] by simp
  from assms(4) show ?thesis
  proof (cases rule: executeOperation_cases)
    case (ran q pp team st)
    with assms(3) have q: "q = p" by simp
    have "foreign (op_pp p) db' = foreign (op_pp p) db"
      using assms(3,4) ran ok staysIn_forward [of p db] staysIn_rollback [of p db]
      by (auto simp: executeOperation_def staysIn_def Let_def split: sum.splits if_splits)
    with ran shape_other_ops [OF ran(5)] q id show ?thesis by simp
  qed simp
qed

theorem execution_stays_in_its_project_witness:
  "foreign 100 (snd (executeOperation [(js ''hetzner'', sampleProvider)] 6 4 101 (sampleCreated False))) = []"
proof -
  have f: "findOp 101 (sampleCreated False) = Some (hd (db_ops (sampleCreated False)))"
    "op_pp (hd (db_ops (sampleCreated False))) = 100" "foreign 100 (sampleCreated False) = []" by code_simp+
  from execution_stays_in_its_project [OF sample_initial sampleCreated_reachable f(1) prod.collapse [symmetric]] f(2,3)
  show ?thesis by simp
qed

section \<open>Deleted resources\<close>

definition noActive :: "uid \<Rightarrow> jstr \<Rightarrow> Db \<Rightarrow> bool" where
  "noActive pp x db \<longleftrightarrow> (\<forall>r\<in>set (db_resources db). owner r = Some (pp, x) \<longrightarrow> rs_destroyedAt r \<noteq> None)"

lemma destroy_rows:
  "db_resources (destroyResource now params db x) =
     (case find (\<lambda>r. rs_pp r = pj_pp params \<and> rs_externalId r = Some x \<and> rs_destroyedAt r = None) (db_resources db) of
        None \<Rightarrow> db_resources db
      | Some r \<Rightarrow> map (\<lambda>q. if rs_id q = rs_id r then q\<lparr>rs_status := ''DESTROYED'', rs_destroyedAt := Some now\<rparr> else q)
          (db_resources db))"
  by (simp add: destroyResource_def writeAuditEvent_def updateResourceRow_def split: option.split)

lemma destroy_keeps_noActive: "noActive pp y db \<Longrightarrow> noActive pp y (destroyResource now params db x)"
  by (auto simp: noActive_def destroy_rows owner_def split: option.splits)

lemma destroy_noActive:
  assumes "resourcesOk db"
  shows "noActive (pj_pp params) x (destroyResource now params db x)"
proof (cases "find (\<lambda>r. rs_pp r = pj_pp params \<and> rs_externalId r = Some x \<and> rs_destroyedAt r = None) (db_resources db)")
  case None
  then have "db_resources (destroyResource now params db x) = db_resources db" by (simp add: destroy_rows)
  with None show ?thesis by (auto simp: noActive_def owner_def find_None_iff)
next
  case (Some r)
  from find_Some [OF Some] have r: "r \<in> set (db_resources db)" "owner r = Some (pj_pp params, x)" by (auto simp: owner_def)
  have "rs_id q = rs_id r" if "q \<in> set (db_resources db)" "owner q = Some (pj_pp params, x)" for q
    using resourcesOk_uniq [OF assms that(1) r(1)] that(2) r(2) by simp
  with Some show ?thesis by (auto simp: noActive_def destroy_rows owner_def)
qed

lemma destroyAll_noActive:
  assumes "resourcesOk db" "x \<in> set xs"
  shows "noActive (pj_pp params) x (foldl (destroyResource now params) db xs)"
  using assms
proof (induction xs arbitrary: db)
  case (Cons y xs)
  have keep: "noActive (pj_pp params) x d \<Longrightarrow> noActive (pj_pp params) x (foldl (destroyResource now params) d ys)" for d ys
    by (induction ys arbitrary: d) (auto intro: destroy_keeps_noActive)
  note ok = resourcesOk_destroy [OF Cons.prems(1)]
  show ?case
  proof (cases "x \<in> set xs")
    case True
    with Cons.IH [OF ok] show ?thesis by simp
  next
    case False
    with Cons.prems have "x = y" by simp
    with keep [OF destroy_noActive [OF Cons.prems(1)]] show ?thesis by simp
  qed
qed simp

text \<open>
  The projection leaves nothing the provider deleted active: after it, in every history, no
  active row of the project has an external id the provider reported as deleted, even when the same
  answer also reported the resource as created or updated.
\<close>

theorem projection_destroys_deleted:
  assumes "initialDb db0" "apiStep\<^sup>*\<^sup>* db0 db" "x \<in> set (pj_deletedExternalIds params)"
  shows "noActive (pj_pp params) x (project now params db)"
proof -
  have "resourcesOk db" using api.reachable_inv [OF assms(1,2)] by (simp add: dbInv_def)
  moreover have "staysIn (pj_pp params) db (foldl (projectOne now params) db (pj_resources params))"
    by (rule staysIn_foldl [OF staysIn_projectOne])
  ultimately have "resourcesOk (foldl (projectOne now params) db (pj_resources params))" by (simp add: staysIn_def)
  then show ?thesis unfolding project_def using assms(3) by (rule destroyAll_noActive)
qed

theorem projection_destroys_deleted_witness:
  "noActive 100 (js ''x1'') (project 9 \<lparr>pj_operationId = 101, pj_pp = 100, pj_region = js ''fsn1'', pj_datacenter = None,
     pj_resources = [], pj_deletedExternalIds = [js ''x1''], pj_actor = 3\<rparr> sampleRun)"
  using projection_destroys_deleted [OF sample_initial sampleRun_reachable, of "js ''x1''"
    "\<lparr>pj_operationId = 101, pj_pp = 100, pj_region = js ''fsn1'', pj_datacenter = None,
      pj_resources = [], pj_deletedExternalIds = [js ''x1''], pj_actor = 3\<rparr>" 9] by simp

section \<open>What the executor loses\<close>

text \<open>
  A partial apply that only deleted: the rows of the resources the provider deleted stay active.
\<close>

lemma deletions_of_a_failed_apply_are_dropped:
  assumes "apply (executeInput p pp path (op_input p) (op_dryRun p) db) = Inl (PartialApplyError [] deleted failures)"
  shows "db_resources (executeForward apply now u p pp path db) = db_resources db"
  using assms by (simp add: executeForward_def startOp_def failOp_def Let_def)

text \<open>A rollback that partly succeeded: whatever was applied or deleted is dropped.\<close>

lemma partial_rollback_is_dropped:
  assumes "apply (executeInput p pp path (rollbackSpec (op_pp p) db) False db) = Inl (PartialApplyError applied deleted failures)"
  shows "db_resources (executeRollback apply now u p pp path db) = db_resources db"
  using assms by (simp add: executeRollback_def startOp_def failOp_def Let_def)

text \<open>A destroyed row that the provider reports again is ACTIVE and still marked destroyed.\<close>

lemma restored_row_stays_destroyed:
  assumes "resourcesOk db" "findExisting (pj_pp params) res db = Some r" "rs_destroyedAt r = Some t"
  shows "\<exists>q\<in>set (db_resources (projectOne now params db res)).
    rs_id q = rs_id r \<and> rs_status q = ''ACTIVE'' \<and> rs_destroyedAt q = Some t"
proof -
  let ?f = "\<lambda>q. q\<lparr>rs_externalId := Some (rr_externalId res), rs_status := ''ACTIVE'',
    rs_desiredSpec := rr_desiredSpec res, rs_actualSpec := rr_actualSpec res, rs_rollbackSpec := Some (rs_desiredSpec r)\<rparr>"
  have r: "r \<in> set (db_resources db)" using findExisting_cases [OF assms(2)] by simp
  have "db_resources (projectOne now params db res) = map (\<lambda>q. if rs_id q = rs_id r then ?f q else q) (db_resources db)"
    by (simp add: projectOne_def assms(2) updateResource_def writeAuditEvent_def updateResourceRow_def)
  with r have "?f r \<in> set (db_resources (projectOne now params db res))" by (auto intro!: image_eqI [of _ _ r])
  then show ?thesis by (rule rev_bexI) (simp add: assms(3))
qed

end
