(* ===== verification/Planner.thy ===== *)
theory Planner
  imports Json "HOL-Library.List_Lexorder"
begin

text \<open>
  The provisioning planner, \<open>modules/provisioning/provisioning-planner.service.ts\<close>: the desired
  resources of an operation's input, their comparison with the current rows by sorted-key JSON text,
  and the plan of actions with its summary; and the proof that a plan, once applied, leaves nothing
  to do.
\<close>

section \<open>JSON text\<close>

definition hexChar :: "int \<Rightarrow> int" where
  "hexChar d = (if d < 10 then 48 + d else 87 + d)"

definition unicodeEscape :: "int \<Rightarrow> jstr" where
  "unicodeEscape c = [92, 117] @ map hexChar [c div 4096 mod 16, c div 256 mod 16, c div 16 mod 16, c mod 16]"

definition escapeUnit :: "int \<Rightarrow> jstr" where
  "escapeUnit c =
     (if c = 34 then [92, 34] else if c = 92 then [92, 92]
      else if c = 8 then [92, 98] else if c = 12 then [92, 102] else if c = 10 then [92, 110]
      else if c = 13 then [92, 114] else if c = 9 then [92, 116]
      else if c < 32 then unicodeEscape c else [c])"

definition highSurrogate :: "int \<Rightarrow> bool" where
  "highSurrogate c \<longleftrightarrow> 55296 \<le> c \<and> c \<le> 56319"

definition lowSurrogate :: "int \<Rightarrow> bool" where
  "lowSurrogate c \<longleftrightarrow> 56320 \<le> c \<and> c \<le> 57343"

text \<open>The body of \<open>JSON.stringify(string)\<close>: a surrogate is kept only as part of a pair.\<close>

fun escapeText :: "jstr \<Rightarrow> jstr" where
  "escapeText [] = []"
| "escapeText [c] = (if highSurrogate c \<or> lowSurrogate c then unicodeEscape c else escapeUnit c)"
| "escapeText (c # d # s) =
     (if highSurrogate c \<and> lowSurrogate d then c # d # escapeText s
      else (if highSurrogate c \<or> lowSurrogate c then unicodeEscape c else escapeUnit c) @ escapeText (d # s))"

definition quoteJson :: "jstr \<Rightarrow> jstr" where
  "quoteJson s = 34 # escapeText s @ [34]"

fun sortedJson :: "json \<Rightarrow> jstr" where
  "sortedJson JNull = js ''null''"
| "sortedJson (JBool b) = (if b then js ''true'' else js ''false'')"
| "sortedJson (JNum n) = n"
| "sortedJson (JStr s) = quoteJson s"
| "sortedJson (JArr vs) = js ''['' @ join (js '','') (map sortedJson vs) @ js '']''"
| "sortedJson (JObj ms) =
     js ''{'' @ join (js '','') (map (\<lambda>(k, v). quoteJson k @ js '':'' @ v)
       (sort_key fst (map (\<lambda>(k, v). (k, sortedJson v)) ms))) @ js ''}''"

definition specChanged :: "json \<Rightarrow> json \<Rightarrow> bool" where
  "specChanged current desired \<longleftrightarrow> sortedJson current \<noteq> sortedJson desired"

section \<open>The plan\<close>

record DesiredResource =
  ds_type :: jstr
  ds_name :: jstr
  ds_spec :: json
  ds_dependsOn :: "json list option"

record CurrentResource =
  cs_id :: nat
  cs_type :: jstr
  cs_name :: jstr
  cs_status :: string
  cs_desiredSpec :: json
  cs_actualSpec :: json
  cs_externalId :: "jstr option"

datatype ActionKind = ACreate | AUpdate | ADelete | ANoop

record PlanAction =
  pa_action :: ActionKind
  pa_type :: jstr
  pa_name :: jstr
  pa_reason :: jstr
  pa_desiredSpec :: "json option"
  pa_currentSpec :: "json option"
  pa_dependencies :: "json list option"

record ProvisioningPlan =
  pl_actions :: "PlanAction list"
  pl_create :: nat
  pl_update :: nat
  pl_delete :: nat
  pl_noop :: nat

record PlannerInput =
  pi_desiredSpec :: json
  pi_currentResources :: "CurrentResource list"

definition extractOne :: "json \<Rightarrow> DesiredResource list" where
  "extractOne item =
     (case (jget (js ''type'') item, jget (js ''name'') item) of
        (Some (JStr ty), Some (JStr nm)) \<Rightarrow>
          [\<lparr>ds_type = ty, ds_name = nm,
            ds_spec = (case jget (js ''spec'') item of Some v \<Rightarrow> orEmpty v | None \<Rightarrow> JObj []),
            ds_dependsOn = (case jget (js ''dependsOn'') item of Some (JArr ds) \<Rightarrow> Some ds | _ \<Rightarrow> None)\<rparr>]
      | _ \<Rightarrow> [])"

definition extractDesiredResources :: "json \<Rightarrow> DesiredResource list" where
  "extractDesiredResources spec =
     (case jget (js ''resources'') spec of Some (JArr raw) \<Rightarrow> concat (map extractOne raw) | _ \<Rightarrow> [])"

definition resourceKey :: "CurrentResource \<Rightarrow> jstr" where
  "resourceKey r = js_upper (cs_type r) @ js '':'' @ cs_name r"

definition findCurrent :: "DesiredResource \<Rightarrow> CurrentResource list \<Rightarrow> CurrentResource option" where
  "findCurrent d rs = find (\<lambda>r. js_upper (cs_type r) = js_upper (ds_type d) \<and> cs_name r = ds_name d) rs"

definition actionFor :: "CurrentResource list \<Rightarrow> DesiredResource \<Rightarrow> PlanAction" where
  "actionFor rs d =
     (case findCurrent d rs of
        None \<Rightarrow> \<lparr>pa_action = ACreate, pa_type = ds_type d, pa_name = ds_name d,
           pa_reason = js ''Resource does not exist in current state'',
           pa_desiredSpec = Some (ds_spec d), pa_currentSpec = None, pa_dependencies = ds_dependsOn d\<rparr>
      | Some cur \<Rightarrow>
          if specChanged (cs_desiredSpec cur) (ds_spec d)
          then \<lparr>pa_action = AUpdate, pa_type = ds_type d, pa_name = ds_name d,
             pa_reason = js ''Desired spec differs from current spec'',
             pa_desiredSpec = Some (ds_spec d), pa_currentSpec = Some (cs_desiredSpec cur),
             pa_dependencies = ds_dependsOn d\<rparr>
          else \<lparr>pa_action = ANoop, pa_type = ds_type d, pa_name = ds_name d,
             pa_reason = js ''No changes detected'',
             pa_desiredSpec = Some (ds_spec d), pa_currentSpec = Some (cs_desiredSpec cur),
             pa_dependencies = ds_dependsOn d\<rparr>)"

text \<open>The keys added to \<open>matched\<close> by the first loop.\<close>

definition matchedKeys :: "CurrentResource list \<Rightarrow> DesiredResource list \<Rightarrow> jstr list" where
  "matchedKeys rs desired =
     concat (map (\<lambda>d. case findCurrent d rs of None \<Rightarrow> [] | Some cur \<Rightarrow> [resourceKey cur]) desired)"

definition deleteFor :: "CurrentResource \<Rightarrow> PlanAction" where
  "deleteFor cur =
     \<lparr>pa_action = ADelete, pa_type = cs_type cur, pa_name = cs_name cur,
      pa_reason = js ''Resource exists in current state but is absent from desired state'',
      pa_desiredSpec = None, pa_currentSpec = Some (cs_desiredSpec cur), pa_dependencies = None\<rparr>"

definition countOf :: "ActionKind \<Rightarrow> PlanAction list \<Rightarrow> nat" where
  "countOf k as = length (filter (\<lambda>a. pa_action a = k) as)"

definition plan :: "PlannerInput \<Rightarrow> ProvisioningPlan" where
  "plan input =
     (let desired = extractDesiredResources (pi_desiredSpec input);
          rs = pi_currentResources input;
          matched = matchedKeys rs desired;
          actions = map (actionFor rs) desired @
            map deleteFor (filter (\<lambda>cur. resourceKey cur \<notin> set matched) rs)
      in \<lparr>pl_actions = actions, pl_create = countOf ACreate actions, pl_update = countOf AUpdate actions,
          pl_delete = countOf ADelete actions, pl_noop = countOf ANoop actions\<rparr>)"

section \<open>Applying a plan\<close>

text \<open>
  The current state after a plan was carried out: created rows with the desired specification,
  updated rows with the new one, deleted rows gone.
\<close>

definition keyOf :: "DesiredResource \<Rightarrow> jstr \<times> jstr" where
  "keyOf d = (js_upper (ds_type d), ds_name d)"

definition curKey :: "CurrentResource \<Rightarrow> jstr \<times> jstr" where
  "curKey r = (js_upper (cs_type r), cs_name r)"

definition createdRow :: "PlanAction \<Rightarrow> CurrentResource" where
  "createdRow a = \<lparr>cs_id = 0, cs_type = pa_type a, cs_name = pa_name a, cs_status = ''ACTIVE'',
     cs_desiredSpec = (case pa_desiredSpec a of Some s \<Rightarrow> s | None \<Rightarrow> JNull), cs_actualSpec = JNull, cs_externalId = None\<rparr>"

definition actKey :: "PlanAction \<Rightarrow> jstr \<times> jstr" where
  "actKey a = (js_upper (pa_type a), pa_name a)"

definition applyAction :: "CurrentResource list \<Rightarrow> PlanAction \<Rightarrow> CurrentResource list" where
  "applyAction rs a =
     (case pa_action a of
        ACreate \<Rightarrow> rs @ [createdRow a]
      | AUpdate \<Rightarrow> map (\<lambda>r. if curKey r = actKey a
          then r\<lparr>cs_desiredSpec := (case pa_desiredSpec a of Some s \<Rightarrow> s | None \<Rightarrow> cs_desiredSpec r)\<rparr> else r) rs
      | ADelete \<Rightarrow> filter (\<lambda>r. curKey r \<noteq> actKey a) rs
      | ANoop \<Rightarrow> rs)"

definition applyPlan :: "ProvisioningPlan \<Rightarrow> CurrentResource list \<Rightarrow> CurrentResource list" where
  "applyPlan pl rs = foldl applyAction rs (pl_actions pl)"

text \<open>A row with this key is up to date, or there is none.\<close>

definition settled :: "CurrentResource list \<Rightarrow> DesiredResource \<Rightarrow> bool" where
  "settled rs d \<longleftrightarrow> (\<exists>r\<in>set rs. curKey r = keyOf d) \<and>
     (\<forall>r\<in>set rs. curKey r = keyOf d \<longrightarrow> \<not> specChanged (cs_desiredSpec r) (ds_spec d))"

lemma findCurrent_None: "findCurrent d rs = None \<longleftrightarrow> (\<forall>r\<in>set rs. curKey r \<noteq> keyOf d)"
  by (auto simp: findCurrent_def find_None_iff curKey_def keyOf_def)

lemma findCurrent_Some: "findCurrent d rs = Some r \<Longrightarrow> r \<in> set rs \<and> curKey r = keyOf d"
  by (auto simp: findCurrent_def find_Some_iff curKey_def keyOf_def)

lemma actKey_actionFor: "actKey (actionFor rs d) = keyOf d"
  by (auto simp: actionFor_def actKey_def keyOf_def split: option.splits)

lemma settled_noop: "settled rs d \<Longrightarrow> pa_action (actionFor rs d) = ANoop"
  using findCurrent_None [of d rs] findCurrent_Some [of d rs]
  by (auto simp: actionFor_def settled_def split: option.splits)

lemma applyAction_keys:
  "curKey ` set (applyAction rs a) \<subseteq> curKey ` set rs \<union> {actKey a}"
  by (auto simp: applyAction_def curKey_def createdRow_def actKey_def split: ActionKind.splits)

lemma applyAction_other:
  assumes "k \<noteq> actKey a"
  shows "filter (\<lambda>r. curKey r = k) (applyAction rs a) = filter (\<lambda>r. curKey r = k) rs"
proof (cases "pa_action a")
  case AUpdate
  let ?g = "\<lambda>r. if curKey r = actKey a
    then r\<lparr>cs_desiredSpec := (case pa_desiredSpec a of Some s \<Rightarrow> s | None \<Rightarrow> cs_desiredSpec r)\<rparr> else r"
  have "filter (\<lambda>r. curKey r = k) (map ?g xs) = filter (\<lambda>r. curKey r = k) xs" for xs
    using assms by (induction xs) (auto simp: curKey_def)
  with AUpdate show ?thesis by (simp add: applyAction_def)
qed (use assms in \<open>auto simp: applyAction_def createdRow_def curKey_def actKey_def filter_empty_conv intro: filter_cong\<close>)

lemma settled_filter: "settled rs d \<longleftrightarrow> settled (filter (\<lambda>r. curKey r = keyOf d) rs) d"
  by (auto simp: settled_def)

lemma settled_after:
  assumes "filter (\<lambda>r. curKey r = keyOf d) cur = filter (\<lambda>r. curKey r = keyOf d) rs" "distinct (map curKey rs)"
  shows "settled (applyAction cur (actionFor rs d)) d"
proof -
  have same: "r \<in> set cur \<and> curKey r = keyOf d \<longleftrightarrow> r \<in> set rs \<and> curKey r = keyOf d" for r
    using arg_cong [OF assms(1), of set] by auto
  show ?thesis
  proof (cases "findCurrent d rs")
    case None
    then have "\<forall>r\<in>set cur. curKey r \<noteq> keyOf d" using same findCurrent_None [of d rs] by blast
    with None show ?thesis
      by (auto simp: settled_def applyAction_def actionFor_def createdRow_def curKey_def keyOf_def specChanged_def)
  next
    case (Some r0)
    note r0 = findCurrent_Some [OF Some]
    have uniq: "r = r0" if "r \<in> set rs" "curKey r = keyOf d" for r
      using that r0 assms(2) by (auto simp: distinct_map inj_on_def)
    have r0c: "r0 \<in> set cur" using same r0 by blast
    show ?thesis
    proof (cases "specChanged (cs_desiredSpec r0) (ds_spec d)")
      case True
      let ?a = "actionFor rs d"
      have a: "pa_action ?a = AUpdate" "pa_desiredSpec ?a = Some (ds_spec d)" "actKey ?a = keyOf d"
        using Some True actKey_actionFor [of rs d] by (simp_all add: actionFor_def)
      let ?g = "\<lambda>r. if curKey r = keyOf d then r\<lparr>cs_desiredSpec := ds_spec d\<rparr> else r"
      have rows: "applyAction cur ?a = map ?g cur" using a by (simp add: applyAction_def)
      have key: "curKey (?g r) = curKey r" for r by (simp add: curKey_def)
      have "?g r0 \<in> set (map ?g cur)" using r0c unfolding set_map by (rule imageI)
      moreover have "curKey (?g r0) = keyOf d" unfolding key using r0 by simp
      moreover have "\<not> specChanged (cs_desiredSpec (?g r)) (ds_spec d)" if "curKey (?g r) = keyOf d" for r
        using that unfolding key by (simp add: specChanged_def)
      then have "\<forall>r\<in>set (map ?g cur). curKey r = keyOf d \<longrightarrow> \<not> specChanged (cs_desiredSpec r) (ds_spec d)"
        unfolding set_map by blast
      ultimately show ?thesis unfolding settled_def rows by (intro conjI bexI)
    next
      case False
      then have "applyAction cur (actionFor rs d) = cur" using Some by (simp add: applyAction_def actionFor_def)
      moreover have "r = r0" if "r \<in> set cur" "curKey r = keyOf d" for r using uniq same that by blast
      ultimately show ?thesis unfolding settled_def using False r0 r0c by metis
    qed
  qed
qed

lemma settled_kept: "keyOf d \<noteq> actKey a \<Longrightarrow> settled (applyAction rs a) d \<longleftrightarrow> settled rs d"
  using applyAction_other [of "keyOf d" a rs] settled_filter [of rs d] settled_filter [of "applyAction rs a" d] by simp

lemma settled_kept_all: "\<forall>a\<in>set as. actKey a \<noteq> keyOf d \<Longrightarrow> settled (foldl applyAction rs as) d \<longleftrightarrow> settled rs d"
proof (induction as arbitrary: rs)
  case (Cons a as)
  then have "keyOf d \<noteq> actKey a" by fastforce
  with Cons show ?case by (simp add: settled_kept)
qed simp

lemma settled_all:
  assumes "distinct (map keyOf ds)" "distinct (map curKey rs)"
    "\<forall>d\<in>set ds. filter (\<lambda>r. curKey r = keyOf d) cur = filter (\<lambda>r. curKey r = keyOf d) rs"
  shows "\<forall>d\<in>set ds. settled (foldl applyAction cur (map (actionFor rs) ds)) d"
  using assms
proof (induction ds arbitrary: cur)
  case (Cons d ds)
  let ?cur = "applyAction cur (actionFor rs d)"
  have ne: "keyOf e \<noteq> keyOf d" if "e \<in> set ds" for e using Cons.prems(1) that by (auto simp: image_iff)
  have "\<forall>e\<in>set ds. filter (\<lambda>r. curKey r = keyOf e) ?cur = filter (\<lambda>r. curKey r = keyOf e) rs"
    using Cons.prems(3) ne by (simp add: applyAction_other actKey_actionFor)
  with Cons have "\<forall>e\<in>set ds. settled (foldl applyAction ?cur (map (actionFor rs) ds)) e" by simp
  moreover have "settled ?cur d" using Cons.prems by (intro settled_after) auto
  then have "settled (foldl applyAction ?cur (map (actionFor rs) ds)) d"
    using ne by (subst settled_kept_all) (auto simp: actKey_actionFor)
  ultimately show ?case by simp
qed simp

text \<open>Kinds hold no colon, so the text key of a row determines its kind and its name.\<close>

definition plainKinds :: "CurrentResource list \<Rightarrow> bool" where
  "plainKinds rs \<longleftrightarrow> list_all (\<lambda>r. ch CHR '':'' \<notin> set (js_upper (cs_type r))) rs"

lemma resourceKey_curKey:
  assumes "plainKinds rs" "r \<in> set rs" "s \<in> set rs"
  shows "resourceKey r = resourceKey s \<longleftrightarrow> curKey r = curKey s"
proof -
  have split: "a @ x # b = a' @ x # b' \<Longrightarrow> x \<notin> set a \<Longrightarrow> x \<notin> set a' \<Longrightarrow> a = a' \<and> b = b'" for a a' b b' :: jstr and x
  proof (induction a arbitrary: a')
    case Nil
    then show ?case by (cases a') auto
  next
    case (Cons y a)
    then show ?case by (cases a') auto
  qed
  have "ch CHR '':'' \<notin> set (js_upper (cs_type r))" "ch CHR '':'' \<notin> set (js_upper (cs_type s))"
    using assms by (simp_all add: plainKinds_def list_all_iff)
  with split [of "js_upper (cs_type r)" "ch CHR '':''" "cs_name r" "js_upper (cs_type s)" "cs_name s"] show ?thesis
    by (auto simp: resourceKey_def curKey_def)
qed

lemma matchedKeys_iff:
  assumes "plainKinds rs" "r \<in> set rs"
  shows "resourceKey r \<in> set (matchedKeys rs ds) \<longleftrightarrow> (\<exists>d\<in>set ds. keyOf d = curKey r)"
proof
  assume "resourceKey r \<in> set (matchedKeys rs ds)"
  then obtain d where d: "d \<in> set ds" "resourceKey r \<in> set (case findCurrent d rs of None \<Rightarrow> [] | Some s \<Rightarrow> [resourceKey s])"
    unfolding matchedKeys_def set_concat set_map by blast
  then obtain s where "findCurrent d rs = Some s" "resourceKey s = resourceKey r"
    by (cases "findCurrent d rs") auto
  note d(1) this
  with findCurrent_Some [of d rs s] resourceKey_curKey [OF assms(1), of s r] assms(2) show "\<exists>d\<in>set ds. keyOf d = curKey r"
    by auto
next
  assume "\<exists>d\<in>set ds. keyOf d = curKey r"
  then obtain d where d: "d \<in> set ds" "keyOf d = curKey r" by blast
  with assms(2) findCurrent_None [of d rs] obtain s where s: "findCurrent d rs = Some s" by fastforce
  with findCurrent_Some [OF s] d resourceKey_curKey [OF assms(1), of s r] assms(2) have "resourceKey s = resourceKey r" by simp
  with s d show "resourceKey r \<in> set (matchedKeys rs ds)"
    by (auto simp: matchedKeys_def intro!: bexI [of _ d])
qed

definition unmatched :: "CurrentResource list \<Rightarrow> DesiredResource list \<Rightarrow> CurrentResource list" where
  "unmatched rs ds = filter (\<lambda>r. resourceKey r \<notin> set (matchedKeys rs ds)) rs"

lemma plan_actions:
  "pl_actions (plan \<lparr>pi_desiredSpec = spec, pi_currentResources = rs\<rparr>) =
     map (actionFor rs) (extractDesiredResources spec) @ map deleteFor (unmatched rs (extractDesiredResources spec))"
  by (simp add: plan_def Let_def unmatched_def)

lemma actKey_deleteFor: "actKey (deleteFor r) = curKey r"
  by (simp add: actKey_def deleteFor_def curKey_def)

lemma deletes_remove: "set (foldl applyAction rs (map deleteFor us)) = {r \<in> set rs. \<forall>u\<in>set us. curKey r \<noteq> curKey u}"
  by (induction us arbitrary: rs) (auto simp: applyAction_def deleteFor_def actKey_def curKey_def)

lemma actions_keys: "r \<in> set (foldl applyAction cur as) \<Longrightarrow> curKey r \<in> curKey ` set cur \<or> curKey r \<in> actKey ` set as"
proof (induction as arbitrary: cur)
  case (Cons a as)
  then have "curKey r \<in> curKey ` set (applyAction cur a) \<or> curKey r \<in> actKey ` set as" by simp
  with applyAction_keys [of cur a] show ?case by auto
qed simp

lemma applied_settled:
  assumes "distinct (map keyOf ds)" "distinct (map curKey rs)" "plainKinds rs"
  shows "\<forall>d\<in>set ds. settled (foldl applyAction rs (map (actionFor rs) ds @ map deleteFor (unmatched rs ds))) d"
proof
  fix d assume d: "d \<in> set ds"
  have "curKey u \<noteq> keyOf d" if "u \<in> set (unmatched rs ds)" for u
    using that d matchedKeys_iff [OF assms(3), of u ds] by (auto simp: unmatched_def)
  then show "settled (foldl applyAction rs (map (actionFor rs) ds @ map deleteFor (unmatched rs ds))) d"
    using settled_all [OF assms(1,2), of rs] d by (simp add: settled_kept_all actKey_deleteFor)
qed

lemma applied_keys:
  assumes "plainKinds rs" "r \<in> set (foldl applyAction rs (map (actionFor rs) ds @ map deleteFor (unmatched rs ds)))"
  shows "\<exists>d\<in>set ds. keyOf d = curKey r"
proof (rule ccontr)
  assume no: "\<not> (\<exists>d\<in>set ds. keyOf d = curKey r)"
  from assms(2) have r: "r \<in> set (foldl applyAction rs (map (actionFor rs) ds))" "\<forall>u\<in>set (unmatched rs ds). curKey r \<noteq> curKey u"
    by (auto simp: deletes_remove)
  have "curKey r \<notin> actKey ` set (map (actionFor rs) ds)" using no by (auto simp: actKey_actionFor)
  with actions_keys [OF r(1)] obtain s where s: "s \<in> set rs" "curKey s = curKey r" by auto
  with no matchedKeys_iff [OF assms(1) s(1), of ds] have "s \<in> set (unmatched rs ds)" by (auto simp: unmatched_def)
  with r(2) s(2) show False by auto
qed

lemma actionFor_shape:
  "pa_type (actionFor rs d) = ds_type d \<and> pa_name (actionFor rs d) = ds_name d \<and>
   pa_desiredSpec (actionFor rs d) = Some (ds_spec d) \<and> pa_dependencies (actionFor rs d) = ds_dependsOn d \<and>
   pa_action (actionFor rs d) \<noteq> ADelete"
  by (simp add: actionFor_def split: option.splits)

lemma unmatched_iff: "plainKinds rs \<Longrightarrow> unmatched rs ds = filter (\<lambda>r. \<forall>d\<in>set ds. keyOf d \<noteq> curKey r) rs"
  unfolding unmatched_def by (rule filter_cong [OF refl]) (simp add: matchedKeys_iff)

lemma countOf_total: "countOf ACreate as + countOf AUpdate as + countOf ADelete as + countOf ANoop as = length as"
proof (induction as)
  case (Cons a as)
  then show ?case by (cases "pa_action a") (simp_all add: countOf_def)
qed (simp add: countOf_def)

lemma plan_counts:
  "pl_create (plan i) = countOf ACreate (pl_actions (plan i))" "pl_update (plan i) = countOf AUpdate (pl_actions (plan i))"
  "pl_delete (plan i) = countOf ADelete (pl_actions (plan i))" "pl_noop (plan i) = countOf ANoop (pl_actions (plan i))"
  by (simp_all add: plan_def Let_def)

text \<open>
  C23.  A plan is complete and exact: its actions begin with one action for each desired resource, in
  order and with its type, name, specification and dependencies; a current row is deleted exactly
  when no desired resource has its kind and name; and the summary counts every action once.
\<close>

theorem plan_is_complete:
  assumes "plainKinds rs" "ds = extractDesiredResources spec"
    and "pl = plan \<lparr>pi_desiredSpec = spec, pi_currentResources = rs\<rparr>"
  shows "map (\<lambda>a. (pa_type a, pa_name a, pa_desiredSpec a, pa_dependencies a)) (take (length ds) (pl_actions pl)) =
      map (\<lambda>d. (ds_type d, ds_name d, Some (ds_spec d), ds_dependsOn d)) ds \<and>
    filter (\<lambda>a. pa_action a = ADelete) (pl_actions pl) =
      map deleteFor (filter (\<lambda>r. \<forall>d\<in>set ds. keyOf d \<noteq> curKey r) rs) \<and>
    pl_create pl + pl_update pl + pl_delete pl + pl_noop pl = length (pl_actions pl)"
proof -
  have acts: "pl_actions pl = map (actionFor rs) ds @ map deleteFor (unmatched rs ds)"
    by (simp add: assms(2,3) plan_actions)
  have none: "filter (\<lambda>a. pa_action a = ADelete) (map (actionFor rs) ds) = []"
    by (auto simp: filter_empty_conv actionFor_shape)
  have all: "filter (\<lambda>a. pa_action a = ADelete) (map deleteFor us) = map deleteFor us" for us
    by (simp add: filter_id_conv deleteFor_def)
  have "filter (\<lambda>a. pa_action a = ADelete) (pl_actions pl) = map deleteFor (unmatched rs ds)"
    unfolding acts filter_append none all by simp
  moreover have "pl_create pl + pl_update pl + pl_delete pl + pl_noop pl = length (pl_actions pl)"
    unfolding assms(3) plan_counts by (rule countOf_total)
  ultimately show ?thesis using acts by (simp add: actionFor_shape unmatched_iff [OF assms(1)])
qed

definition sampleSpec :: json where
  "sampleSpec = JObj [(js ''resources'', JArr [
     JObj [(js ''type'', JStr (js ''server'')), (js ''name'', JStr (js ''web'')), (js ''spec'', JObj [(js ''cores'', JNum (js ''2''))])],
     JObj [(js ''type'', JStr (js ''network'')), (js ''name'', JStr (js ''net''))]])]"

definition sampleRows :: "CurrentResource list" where
  "sampleRows = [
     \<lparr>cs_id = 1, cs_type = js ''SERVER'', cs_name = js ''web'', cs_status = ''ACTIVE'',
       cs_desiredSpec = JObj [(js ''cores'', JNum (js ''1''))], cs_actualSpec = JNull, cs_externalId = None\<rparr>,
     \<lparr>cs_id = 2, cs_type = js ''VOLUME'', cs_name = js ''data'', cs_status = ''ACTIVE'',
       cs_desiredSpec = JObj [], cs_actualSpec = JNull, cs_externalId = None\<rparr>]"

theorem plan_is_complete_witness:
  "filter (\<lambda>a. pa_action a = ADelete) (pl_actions (plan \<lparr>pi_desiredSpec = sampleSpec, pi_currentResources = sampleRows\<rparr>)) =
     map deleteFor (filter (\<lambda>r. \<forall>d\<in>set (extractDesiredResources sampleSpec). keyOf d \<noteq> curKey r) sampleRows)"
proof -
  have "plainKinds sampleRows" by code_simp
  from plan_is_complete [OF this refl refl, of sampleSpec] show ?thesis by blast
qed



end
