(* ===== verification/RestParser.thy ===== *)
theory RestParser
  imports Prelude
begin

text \<open>
  The query language of the REST data API, \<open>modules/projects/postgrest/types.ts\<close> and
  \<open>parser.ts\<close>: select lists with embedded relations, filter conditions and logic groups, ordering and
  paging, parsed from the query string.

  A query string is the list of its entries in JavaScript's order, each with one value or an array
  of values.  \<open>undefined\<close> is \<open>None\<close>; code that would call a string method on an array throws
  \<open>TypeErr\<close>.
\<close>

section \<open>The parsed query\<close>

datatype FilterOp =
    Eq | Neq | Gt | Gte | Lt | Lte | Like | Ilike | Match | Imatch | In | Is | Isdistinct
  | Fts | Plfts | Phfts | Wfts | Cs | Cd | Ov | Sl | Sr | Nxl | Nxr | Adj

definition FILTER_OPS :: "(jstr \<times> FilterOp) list" where
  "FILTER_OPS = map (\<lambda>(n, f). (js n, f))
    [(''eq'', Eq), (''neq'', Neq), (''gt'', Gt), (''gte'', Gte), (''lt'', Lt), (''lte'', Lte),
     (''like'', Like), (''ilike'', Ilike), (''match'', Match), (''imatch'', Imatch),
     (''in'', In), (''is'', Is), (''isdistinct'', Isdistinct), (''fts'', Fts), (''plfts'', Plfts),
     (''phfts'', Phfts), (''wfts'', Wfts), (''cs'', Cs), (''cd'', Cd), (''ov'', Ov), (''sl'', Sl),
     (''sr'', Sr), (''nxl'', Nxl), (''nxr'', Nxr), (''adj'', Adj)]"

datatype Arrow = JsonArrow | TextArrow

record FieldRef =
  fr_column :: jstr
  fr_path :: "(Arrow \<times> jstr) list"

record Condition =
  cd_field :: FieldRef
  cd_op :: FilterOp
  cd_negate :: bool
  cd_value :: jstr
  cd_ftsConfig :: "jstr option"

datatype LogicOp = And | Or

datatype FilterNode = Cond Condition | Logic LogicOp bool "FilterNode list"

text \<open>An embed is its relation, alias, hint, \<open>inner\<close> flag and nested select.\<close>

datatype SelectItem =
    SelColumn FieldRef "jstr option" "jstr option"
  | SelStar
  | SelEmbed "jstr option" "jstr option" "jstr option" bool "SelectItem list"

datatype Nulls = NullsFirst | NullsLast

record OrderTerm =
  ot_field :: FieldRef
  ot_desc :: bool
  ot_nulls :: "Nulls option"

record ParsedQuery =
  pq_select :: "SelectItem list"
  pq_filters :: "(jstr \<times> FilterNode list) list"
  pq_order :: "(jstr \<times> OrderTerm list) list"
  pq_limit :: "(jstr \<times> int) list"
  pq_offset :: "(jstr \<times> int) list"

text \<open>A \<open>PostgrestParseError\<close> has a message, details and a code; \<open>TypeErr\<close> is a string method called on an array.\<close>

datatype ParseError = PostgrestParseError jstr "jstr option" jstr | TypeErr

definition parseErr :: "jstr \<Rightarrow> ParseError" where
  "parseErr message = PostgrestParseError message None (js ''PGRST100'')"

section \<open>Identifiers and field references\<close>

abbreviation quoted :: "jstr \<Rightarrow> jstr" where
  "quoted s \<equiv> [34] @ s @ [34]"

definition isIdentStart :: "int \<Rightarrow> bool" where
  "isIdentStart c \<longleftrightarrow> is_alpha c \<or> c = ch CHR ''_''"

definition isIdentChar :: "int \<Rightarrow> bool" where
  "isIdentChar c \<longleftrightarrow> is_alpha c \<or> is_digit c \<or> c = ch CHR ''_''"

definition isIdent :: "jstr \<Rightarrow> bool" where
  "isIdent s = (case s of [] \<Rightarrow> False | c # cs \<Rightarrow> isIdentStart c \<and> list_all isIdentChar cs)"

definition assertIdent :: "jstr \<Rightarrow> string \<Rightarrow> ParseError + jstr" where
  "assertIdent name what =
     (if isIdent name then Inr name
      else Inl (parseErr (js ''Invalid '' @ js what @ js '': '' @ quoted name)))"

text \<open>\<open>raw.split(/(->>|->)/)\<close>: the text before the first arrow, and each arrow with the text after it.\<close>

fun splitArrows :: "jstr \<Rightarrow> jstr \<times> (Arrow \<times> jstr) list" where
  "splitArrows [] = ([], [])"
| "splitArrows (c # s) =
     (if starts_with (js ''->>'') (c # s) then (case splitArrows (drop 2 s) of (k, rest) \<Rightarrow> ([], (TextArrow, k) # rest))
      else if starts_with (js ''->'') (c # s) then (case splitArrows (drop 1 s) of (k, rest) \<Rightarrow> ([], (JsonArrow, k) # rest))
      else (case splitArrows s of (k, rest) \<Rightarrow> (c # k, rest)))"

definition isQuote :: "int \<Rightarrow> bool" where
  "isQuote c \<longleftrightarrow> c = 34 \<or> c = 39"

text \<open>\<open>key.replace(/^["']|["']$/g, '')\<close>.\<close>

definition stripKeyQuotes :: "jstr \<Rightarrow> jstr" where
  "stripKeyQuotes k =
     (let a = (if k \<noteq> [] \<and> isQuote (hd k) then tl k else k)
      in if a \<noteq> [] \<and> isQuote (last a) then butlast a else a)"

fun jsonSteps :: "jstr \<Rightarrow> (Arrow \<times> jstr) list \<Rightarrow> ParseError + (Arrow \<times> jstr) list" where
  "jsonSteps raw [] = Inr []"
| "jsonSteps raw ((arrow, k) # rest) =
     (if stripKeyQuotes k = [] then Inl (parseErr (js ''Empty JSON key in '' @ quoted raw))
      else bindr (jsonSteps raw rest) (\<lambda>ss. Inr ((arrow, stripKeyQuotes k) # ss)))"

definition parseFieldRef :: "jstr \<Rightarrow> ParseError + FieldRef" where
  "parseFieldRef raw =
     (let parts = splitArrows raw in
      bindr (assertIdent (fst parts) ''column'') (\<lambda>column.
      bindr (jsonSteps raw (snd parts)) (\<lambda>path. Inr \<lparr>fr_column = column, fr_path = path\<rparr>)))"

section \<open>Scanning helpers\<close>

text \<open>The loop of \<open>splitTopLevel\<close>: nesting, open quote, the piece so far.\<close>

fun splitTopLoop :: "int \<Rightarrow> int \<Rightarrow> int option \<Rightarrow> jstr \<Rightarrow> jstr \<Rightarrow> jstr list" where
  "splitTopLoop sep depth quote piece [] = [piece]"
| "splitTopLoop sep depth quote piece (c # s) =
     (case quote of
        Some q \<Rightarrow> splitTopLoop sep depth (if c = q then None else quote) (piece @ [c]) s
      | None \<Rightarrow>
          if isQuote c then splitTopLoop sep depth (Some c) (piece @ [c]) s
          else if c = ch CHR ''('' then splitTopLoop sep (depth + 1) None (piece @ [c]) s
          else if c = ch CHR '')'' then splitTopLoop sep (depth - 1) None (piece @ [c]) s
          else if c = sep \<and> depth = 0 then piece # splitTopLoop sep depth None [] s
          else splitTopLoop sep depth None (piece @ [c]) s)"

definition splitTopLevel :: "jstr \<Rightarrow> int \<Rightarrow> jstr list" where
  "splitTopLevel input sep = filter (\<lambda>s. s \<noteq> []) (splitTopLoop sep 0 None [] input)"

lemma splitTopLoop_length: "p \<in> set (splitTopLoop sep d q piece s) \<Longrightarrow> length p \<le> length piece + length s"
proof (induction s arbitrary: d q piece)
  case (Cons c s)
  have "length p \<le> length piece \<or> (\<exists>d' q'. p \<in> set (splitTopLoop sep d' q' (piece @ [c]) s)) \<or>
      (\<exists>d' q'. p \<in> set (splitTopLoop sep d' q' [] s))"
    using Cons.prems by (simp split: if_splits option.splits) blast+
  then show ?case by (auto dest!: Cons.IH)
qed simp

lemma splitTopLevel_length [progress]: "p \<in> set (splitTopLevel s sep) \<Longrightarrow> length p \<le> length s"
  using splitTopLoop_length [of p sep 0 None "[]" s] by (simp add: splitTopLevel_def)

fun aliasColonLoop :: "nat \<Rightarrow> int option \<Rightarrow> int option \<Rightarrow> jstr \<Rightarrow> nat option" where
  "aliasColonLoop i prev quote [] = None"
| "aliasColonLoop i prev quote (c # s) =
     (case quote of
        Some q \<Rightarrow> aliasColonLoop (Suc i) (Some c) (if c = q then None else quote) s
      | None \<Rightarrow>
          if isQuote c then aliasColonLoop (Suc i) (Some c) (Some c) s
          else if c = ch CHR ''('' then None
          else if c = ch CHR '':'' \<and> nth_opt s 0 \<noteq> Some (ch CHR '':'') \<and> prev \<noteq> Some (ch CHR '':'') then Some i
          else if c = ch CHR '':'' then
            (case s of [] \<Rightarrow> None | d # s' \<Rightarrow> aliasColonLoop (i + 2) (Some d) None s')
          else aliasColonLoop (Suc i) (Some c) None s)"

definition topLevelAliasColon :: "jstr \<Rightarrow> nat option" where
  "topLevelAliasColon input = aliasColonLoop 0 None None input"

lemma trim_length [progress]: "length (js_trim s) \<le> length s"
proof -
  have "length (js_trim s) \<le> length (dropWhile is_js_space s)"
    unfolding js_trim_def by (metis length_dropWhile_le length_rev)
  also have "\<dots> \<le> length s" by (rule length_dropWhile_le)
  finally show ?thesis .
qed

section \<open>Select lists\<close>

text \<open>The head of an embed: its relation (undefined when there is none), hint and \<open>inner\<close> flag.\<close>

fun embedSegments :: "jstr option \<Rightarrow> bool \<Rightarrow> jstr list \<Rightarrow> ParseError + jstr option \<times> bool" where
  "embedSegments hint inner [] = Inr (hint, inner)"
| "embedSegments hint inner (seg # segs) =
     (if seg = js ''inner'' then embedSegments hint True segs
      else bindr (assertIdent seg ''embed hint'') (\<lambda>h. embedSegments (Some h) inner segs))"

definition embedHead :: "jstr \<Rightarrow> ParseError + jstr option \<times> jstr option \<times> bool" where
  "embedHead head =
     (case filter (\<lambda>s. s \<noteq> []) (map js_trim (split_on (ch CHR ''!'') head)) of
        [] \<Rightarrow> Inr (None, None, False)
      | r # segs \<Rightarrow>
          bindr (assertIdent r ''embedded relation'') (\<lambda>relation.
          bindr (embedSegments None False segs) (\<lambda>(hint, inner). Inr (Some relation, hint, inner))))"

definition parseAlias :: "jstr \<Rightarrow> ParseError + jstr option \<times> jstr" where
  "parseAlias token =
     (case topLevelAliasColon token of
        None \<Rightarrow> Inr (None, token)
      | Some i \<Rightarrow> bindr (assertIdent (take i token) ''alias'') (\<lambda>a. Inr (Some a, drop (Suc i) token)))"

definition parseColumn :: "jstr \<Rightarrow> jstr option \<Rightarrow> ParseError + SelectItem" where
  "parseColumn rest alias =
     (case cut_at (js ''::'') rest of
        Some (front, after) \<Rightarrow>
          bindr (assertIdent after ''cast type'') (\<lambda>cast.
          bindr (parseFieldRef front) (\<lambda>f. Inr (SelColumn f alias (Some cast))))
      | None \<Rightarrow> bindr (parseFieldRef rest) (\<lambda>f. Inr (SelColumn f alias None)))"

text \<open>\<open>rest.slice(0, parenIdx)\<close> and \<open>rest.slice(parenIdx + 1, -1)\<close> when the item is an embed.\<close>

definition embedParts :: "jstr \<Rightarrow> (jstr \<times> jstr) option" where
  "embedParts rest =
     (case index_of (ch CHR ''('') rest of
        None \<Rightarrow> None
      | Some p \<Rightarrow> if last rest = ch CHR '')'' then Some (take p rest, butlast (drop (Suc p) rest)) else None)"

lemma index_of_Some: "index_of c s = Some p \<Longrightarrow> p < length s \<and> s ! p = c"
  by (induction c s arbitrary: p rule: index_of.induct) (auto split: if_splits)

lemma embedParts_length [progress]: "embedParts rest = Some (h, i) \<Longrightarrow> length i < length rest"
  by (auto simp: embedParts_def dest!: index_of_Some split: option.splits if_splits)

lemma parseAlias_length [progress]: "parseAlias token = Inr (a, rest) \<Longrightarrow> length rest \<le> length token"
  by (auto simp: parseAlias_def bindr_eq_Inr split: option.splits)

function (sequential) parseSelect :: "jstr \<Rightarrow> ParseError + SelectItem list"
  and parseSelectItem :: "jstr \<Rightarrow> ParseError + SelectItem" where
  "parseSelect input =
     (if js_trim input = [] then Inr [SelStar]
      else bindr (mapr (\<lambda>tok. parseSelectItem (js_trim tok)) (splitTopLevel input (ch CHR '','')))
        (\<lambda>items. if items = [] then Inr [SelStar] else Inr items))"
| "parseSelectItem token =
     (if token = js ''*'' then Inr SelStar
      else bindr (parseAlias token) (\<lambda>ar.
        case embedParts (snd ar) of
          Some hi \<Rightarrow>
            bindr (embedHead (fst hi)) (\<lambda>(relation, hint, inner).
            bindr (parseSelect (snd hi)) (\<lambda>sub. Inr (SelEmbed relation (fst ar) hint inner sub)))
        | None \<Rightarrow> parseColumn (snd ar) (fst ar)))"
  by pat_completeness auto
termination
proof (relation "measure (\<lambda>x. case x of Inl s \<Rightarrow> Suc (2 * length s) | Inr s \<Rightarrow> 2 * length s)", simp, goal_cases)
  case (1 input tok)
  then show ?case using splitTopLevel_length [of tok input] trim_length [of tok] by fastforce
next
  case (2 token ar hi x xa y)
  then show ?case
    using parseAlias_length [of token "fst ar" "snd ar"] embedParts_length [of "snd ar" "fst hi" "snd hi"] by simp
qed

declare parseSelect.simps [simp del] parseSelectItem.simps [simp del]

section \<open>Filters\<close>

text \<open>\<open>/^(fts|plfts|phfts|wfts)\(([A-Za-z_][A-Za-z0-9_]*)\)$/\<close>.\<close>

definition ftsToken :: "jstr \<Rightarrow> (jstr \<times> jstr) option" where
  "ftsToken t =
     (case index_of (ch CHR ''('') t of
        None \<Rightarrow> None
      | Some p \<Rightarrow>
          (let name = take p t; cfg = butlast (drop (Suc p) t) in
           if name \<in> set (map js [''fts'', ''plfts'', ''phfts'', ''wfts'']) \<and> last t = ch CHR '')'' \<and>
              length t > p + 1 \<and> isIdent cfg
           then Some (name, cfg) else None))"

definition stripNot :: "jstr \<Rightarrow> bool \<times> jstr" where
  "stripNot s = (if starts_with (js ''not.'') s then (True, drop 4 s) else (False, s))"

definition parseConditionValue :: "jstr \<Rightarrow> jstr \<Rightarrow> ParseError + Condition" where
  "parseConditionValue column value =
     (let (negate, rest) = stripNot value in
      case index_of (ch CHR ''.'') rest of
        None \<Rightarrow> Inl (parseErr (js ''Filter on '' @ quoted column @ js '' needs an operator: '' @ quoted value))
      | Some dot \<Rightarrow>
          (let opToken = take dot rest;
               operand = drop (Suc dot) rest;
               (name, cfg) = (case ftsToken opToken of Some (n, c) \<Rightarrow> (n, Some c) | None \<Rightarrow> (opToken, None))
           in case map_of FILTER_OPS name of
                None \<Rightarrow> Inl (parseErr (js ''Unknown operator '' @ quoted name @ js '' on '' @ quoted column))
              | Some f \<Rightarrow>
                  bindr (parseFieldRef column) (\<lambda>field.
                    Inr \<lparr>cd_field = field, cd_op = f, cd_negate = negate, cd_value = operand, cd_ftsConfig = cfg\<rparr>)))"

text \<open>\<open>/^(and|or)\s*\(/\<close>.\<close>

definition opensGroup :: "jstr \<Rightarrow> bool" where
  "opensGroup s \<longleftrightarrow>
     (starts_with (js ''and'') s \<and> nth_opt (dropWhile is_js_space (drop 3 s)) 0 = Some (ch CHR ''('')) \<or>
     (starts_with (js ''or'') s \<and> nth_opt (dropWhile is_js_space (drop 2 s)) 0 = Some (ch CHR ''(''))"

text \<open>\<open>/^(and|or)\((.*)\)$/s\<close>: the operator and the body.\<close>

definition groupBody :: "jstr \<Rightarrow> (LogicOp \<times> jstr) option" where
  "groupBody s =
     (if starts_with (js ''and('') s \<and> length s > 4 \<and> last s = ch CHR '')'' then Some (And, butlast (drop 4 s))
      else if starts_with (js ''or('') s \<and> length s > 3 \<and> last s = ch CHR '')'' then Some (Or, butlast (drop 3 s))
      else None)"

definition groupNegation :: "jstr \<Rightarrow> bool \<times> jstr" where
  "groupNegation token =
     (if starts_with (js ''not.'') token \<and> opensGroup (drop 4 token) then (True, drop 4 token) else (False, token))"

lemma groupBody_length [progress]: "groupBody s = Some (b, t) \<Longrightarrow> length t < length s"
  by (auto simp: groupBody_def split: if_splits)

lemma groupNegation_length [progress]: "length (snd (groupNegation t)) \<le> length t"
  by (simp add: groupNegation_def)

definition parseTriple :: "jstr \<Rightarrow> jstr \<Rightarrow> ParseError + FilterNode" where
  "parseTriple token rest =
     (case index_of (ch CHR ''.'') rest of
        None \<Rightarrow> Inl (parseErr (js ''Malformed condition in logic group: '' @ quoted token))
      | Some i \<Rightarrow> bindr (parseConditionValue (take i rest) (drop (Suc i) rest)) (\<lambda>c. Inr (Cond c)))"

function (sequential) parseLogicChildren :: "jstr \<Rightarrow> ParseError + FilterNode list"
  and parseLogicNode :: "jstr \<Rightarrow> ParseError + FilterNode" where
  "parseLogicChildren body = mapr (\<lambda>raw. parseLogicNode (js_trim raw)) (splitTopLevel body (ch CHR '',''))"
| "parseLogicNode token =
     (case groupBody (snd (groupNegation token)) of
        Some ob \<Rightarrow>
          bindr (parseLogicChildren (snd ob)) (\<lambda>cs. Inr (Logic (fst ob) (fst (groupNegation token)) cs))
      | None \<Rightarrow> parseTriple token (snd (groupNegation token)))"
  by pat_completeness auto
termination
proof (relation "measure (\<lambda>x. case x of Inl s \<Rightarrow> Suc (2 * length s) | Inr s \<Rightarrow> 2 * length s)", simp, goal_cases)
  case (1 body raw)
  then show ?case using splitTopLevel_length [of raw body] trim_length [of raw] by fastforce
next
  case (2 token ob)
  then show ?case
    using groupNegation_length [of token] groupBody_length [of "snd (groupNegation token)" "fst ob" "snd ob"] by simp
qed

declare parseLogicChildren.simps [simp del] parseLogicNode.simps [simp del]

section \<open>Order, paging and the whole query\<close>

fun orderModifiers :: "bool \<Rightarrow> Nulls option \<Rightarrow> jstr list \<Rightarrow> ParseError + bool \<times> Nulls option" where
  "orderModifiers desc nulls [] = Inr (desc, nulls)"
| "orderModifiers desc nulls (s # segs) =
     (if s = js ''asc'' then orderModifiers False nulls segs
      else if s = js ''desc'' then orderModifiers True nulls segs
      else if s = js ''nullsfirst'' then orderModifiers desc (Some NullsFirst) segs
      else if s = js ''nullslast'' then orderModifiers desc (Some NullsLast) segs
      else Inl (parseErr (js ''Unknown order modifier '' @ quoted s)))"

definition parseOrderTerm :: "jstr \<Rightarrow> ParseError + OrderTerm" where
  "parseOrderTerm part =
     (let segs = split_on (ch CHR ''.'') (js_trim part) in
      bindr (parseFieldRef (hd segs)) (\<lambda>field.
      bindr (orderModifiers False None (tl segs)) (\<lambda>(desc, nulls).
        Inr \<lparr>ot_field = field, ot_desc = desc, ot_nulls = nulls\<rparr>)))"

definition parseOrder :: "jstr \<Rightarrow> ParseError + OrderTerm list" where
  "parseOrder value = mapr parseOrderTerm (split_on (ch CHR '','') value)"

definition splitEmbeddedKey :: "jstr \<Rightarrow> jstr \<times> jstr" where
  "splitEmbeddedKey k =
     (if ch CHR ''.'' \<in> set k
      then (let leaf = rev (takeWhile (\<lambda>c. c \<noteq> ch CHR ''.'') (rev k))
            in (take (length k - length leaf - 1) k, leaf))
      else ([], k))"

text \<open>\<open>parseInt(s, 10)\<close>: \<open>None\<close> is NaN.\<close>

definition parseInt10 :: "jstr \<Rightarrow> int option" where
  "parseInt10 s =
     (let t = dropWhile is_js_space s;
          neg = nth_opt t 0 = Some (ch CHR ''-'');
          u = (if neg \<or> nth_opt t 0 = Some (ch CHR ''+'') then tl t else t);
          d = takeWhile is_digit u;
          n = foldl (\<lambda>a c. 10 * a + (c - 48)) 0 d
      in if d = [] then None else Some (if neg then - n else n))"

datatype QVal = QOne jstr | QMany "jstr list"

fun valuesOf :: "QVal \<Rightarrow> jstr list" where
  "valuesOf (QOne v) = [v]"
| "valuesOf (QMany vs) = vs"

definition addFilter :: "jstr \<Rightarrow> FilterNode \<Rightarrow> ParsedQuery \<Rightarrow> ParsedQuery" where
  "addFilter path node q =
     q\<lparr>pq_filters := setKey path ((case map_of (pq_filters q) path of Some l \<Rightarrow> l | None \<Rightarrow> []) @ [node]) (pq_filters q)\<rparr>"

definition stripParens :: "jstr \<Rightarrow> jstr" where
  "stripParens v =
     (let a = (if nth_opt v 0 = Some (ch CHR ''('') then tl v else v)
      in if a \<noteq> [] \<and> last a = ch CHR '')'' then butlast a else a)"

fun addLogic :: "jstr \<Rightarrow> LogicOp \<Rightarrow> jstr list \<Rightarrow> ParsedQuery \<Rightarrow> ParseError + ParsedQuery" where
  "addLogic path b [] q = Inr q"
| "addLogic path b (v # vs) q =
     bindr (parseLogicChildren (stripParens v)) (\<lambda>cs. addLogic path b vs (addFilter path (Logic b False cs) q))"

fun addOrders :: "jstr \<Rightarrow> jstr list \<Rightarrow> ParsedQuery \<Rightarrow> ParseError + ParsedQuery" where
  "addOrders path [] q = Inr q"
| "addOrders path (v # vs) q =
     bindr (parseOrder v) (\<lambda>ts. addOrders path vs (q\<lparr>pq_order := setKey path ts (pq_order q)\<rparr>))"

fun addConditions :: "jstr \<Rightarrow> jstr \<Rightarrow> jstr list \<Rightarrow> ParsedQuery \<Rightarrow> ParseError + ParsedQuery" where
  "addConditions path column [] q = Inr q"
| "addConditions path column (v # vs) q =
     bindr (parseConditionValue column v) (\<lambda>c. addConditions path column vs (addFilter path (Cond c) q))"

definition pageNumber :: "jstr list \<Rightarrow> int option" where
  "pageNumber values =
     (case values of [] \<Rightarrow> None
      | v # _ \<Rightarrow> (case parseInt10 v of None \<Rightarrow> None | Some n \<Rightarrow> if n \<ge> 0 then Some n else None))"

definition RESERVED_KEYS :: "jstr list" where
  "RESERVED_KEYS = map js [''select'', ''columns'', ''on_conflict'', ''apikey'']"

text \<open>The body of the loop over the entries.\<close>

definition parseEntry :: "jstr \<times> QVal \<Rightarrow> ParsedQuery \<Rightarrow> ParseError + ParsedQuery" where
  "parseEntry entry q =
     (let rawKey = fst entry; values = valuesOf (snd entry); (path, leaf) = splitEmbeddedKey rawKey in
      if rawKey \<in> set RESERVED_KEYS then Inr q
      else if leaf = js ''or'' then addLogic path Or values q
      else if leaf = js ''and'' then addLogic path And values q
      else if leaf = js ''order'' then addOrders path values q
      else if leaf = js ''limit'' then
        Inr (case pageNumber values of None \<Rightarrow> q | Some n \<Rightarrow> q\<lparr>pq_limit := setKey path (min n 1000) (pq_limit q)\<rparr>)
      else if leaf = js ''offset'' then
        Inr (case pageNumber values of None \<Rightarrow> q | Some n \<Rightarrow> q\<lparr>pq_offset := setKey path n (pq_offset q)\<rparr>)
      else addConditions path leaf values q)"

fun parseEntries :: "(jstr \<times> QVal) list \<Rightarrow> ParsedQuery \<Rightarrow> ParseError + ParsedQuery" where
  "parseEntries [] q = Inr q"
| "parseEntries (e # es) q = bindr (parseEntry e q) (parseEntries es)"

definition selectOf :: "(jstr \<times> QVal) list \<Rightarrow> ParseError + SelectItem list" where
  "selectOf query =
     (case map_of query (js ''select'') of
        None \<Rightarrow> Inr [SelStar]
      | Some (QOne v) \<Rightarrow> parseSelect v
      | Some (QMany vs) \<Rightarrow> Inl TypeErr)"

definition parseQuery :: "(jstr \<times> QVal) list \<Rightarrow> ParseError + ParsedQuery" where
  "parseQuery query =
     bindr (selectOf query) (\<lambda>sel.
       parseEntries query \<lparr>pq_select = sel, pq_filters = [], pq_order = [], pq_limit = [], pq_offset = []\<rparr>)"

end
