(* ===== verification/RestSchema.thy ===== *)
theory RestSchema
  imports RestParser
begin

text \<open>
  The schema cache of the REST data API, \<open>modules/projects/postgrest/schema-cache.ts\<close>: the catalogue
  rows collapsed into tables and foreign keys, the cache with its time to live, and the relationship
  that an embedded resource is resolved to.  The rows of the three catalogue queries are parameters.
\<close>

section \<open>The schema\<close>

record ForeignKey =
  fk_table :: jstr
  fk_columns :: "jstr list"
  fk_foreignTable :: jstr
  fk_foreignColumns :: "jstr list"
  fk_constraint :: jstr

record TableInfo =
  ti_name :: jstr
  ti_columns :: "jstr list"
  ti_primaryKey :: "jstr list"

record ProjectSchema =
  ps_tables :: "(jstr \<times> TableInfo) list"
  ps_foreignKeys :: "ForeignKey list"
  ps_loadedAt :: int

datatype Cardinality = ToOne | ToMany | ManyToMany

record Junction =
  jn_table :: jstr
  jn_parentColumns :: "jstr list"
  jn_childColumns :: "jstr list"

record Relationship =
  rl_cardinality :: Cardinality
  rl_local :: "jstr list"
  rl_foreign :: "jstr list"
  rl_junction :: "Junction option"

section \<open>Loading the catalogue\<close>

text \<open>A row of the foreign key query: one column pair of a constraint.\<close>

record FkRow =
  fr_constraint :: jstr
  fr_table :: jstr
  fr_col :: jstr
  fr_foreignTable :: jstr
  fr_foreignCol :: jstr

definition addColumnRow :: "jstr \<times> jstr \<Rightarrow> (jstr \<times> TableInfo) list \<Rightarrow> (jstr \<times> TableInfo) list" where
  "addColumnRow row tables =
     (let t = (case map_of tables (fst row) of
                 Some t \<Rightarrow> t
               | None \<Rightarrow> \<lparr>ti_name = fst row, ti_columns = [], ti_primaryKey = []\<rparr>)
      in setKey (fst row) (t\<lparr>ti_columns := List.insert (snd row) (ti_columns t)\<rparr>) tables)"

definition addPkRow :: "jstr \<times> jstr \<Rightarrow> (jstr \<times> TableInfo) list \<Rightarrow> (jstr \<times> TableInfo) list" where
  "addPkRow row tables =
     (case map_of tables (fst row) of
        None \<Rightarrow> tables
      | Some t \<Rightarrow> setKey (fst row) (t\<lparr>ti_primaryKey := ti_primaryKey t @ [snd row]\<rparr>) tables)"

definition addFkRow :: "FkRow \<Rightarrow> (jstr \<times> ForeignKey) list \<Rightarrow> (jstr \<times> ForeignKey) list" where
  "addFkRow row m =
     (let fk = (case map_of m (fr_constraint row) of
                  Some fk \<Rightarrow> fk
                | None \<Rightarrow> \<lparr>fk_table = fr_table row, fk_columns = [], fk_foreignTable = fr_foreignTable row,
                            fk_foreignColumns = [], fk_constraint = fr_constraint row\<rparr>)
      in setKey (fr_constraint row)
           (fk\<lparr>fk_columns := fk_columns fk @ [fr_col row],
               fk_foreignColumns := fk_foreignColumns fk @ [fr_foreignCol row]\<rparr>) m)"

definition loadSchema :: "(jstr \<times> jstr) list \<Rightarrow> (jstr \<times> jstr) list \<Rightarrow> FkRow list \<Rightarrow> int \<Rightarrow> ProjectSchema" where
  "loadSchema cols pks fks now =
     \<lparr>ps_tables = fold addPkRow pks (fold addColumnRow cols []),
      ps_foreignKeys = map snd (fold addFkRow fks []),
      ps_loadedAt = now\<rparr>"

section \<open>The cache\<close>

definition TTL_MS :: int where
  "TTL_MS = 60000"

type_synonym schema_cache = "jstr \<rightharpoonup> ProjectSchema"

definition invalidate :: "jstr \<Rightarrow> schema_cache \<Rightarrow> schema_cache" where
  "invalidate projectId cache = cache(projectId := None)"

text \<open>\<open>load\<close> is the schema the catalogue queries would give now; the second result is the cache after the call.\<close>

definition getSchema :: "jstr \<Rightarrow> (unit \<Rightarrow> ProjectSchema) \<Rightarrow> bool \<Rightarrow> int \<Rightarrow> schema_cache \<Rightarrow> ProjectSchema \<times> schema_cache" where
  "getSchema projectId load force now cache =
     (case cache projectId of
        Some existing \<Rightarrow>
          if \<not> force \<and> now - ps_loadedAt existing < TTL_MS then (existing, cache)
          else (load (), cache(projectId \<mapsto> load ()))
      | None \<Rightarrow> (load (), cache(projectId \<mapsto> load ())))"

section \<open>Resolving an embed\<close>

definition toOneOf :: "ForeignKey \<Rightarrow> Relationship" where
  "toOneOf f = \<lparr>rl_cardinality = ToOne, rl_local = fk_columns f, rl_foreign = fk_foreignColumns f, rl_junction = None\<rparr>"

definition toManyOf :: "ForeignKey \<Rightarrow> Relationship" where
  "toManyOf b = \<lparr>rl_cardinality = ToMany, rl_local = fk_foreignColumns b, rl_foreign = fk_columns b, rl_junction = None\<rparr>"

definition manyToManyOf :: "ForeignKey \<times> ForeignKey \<Rightarrow> Relationship" where
  "manyToManyOf c =
     \<lparr>rl_cardinality = ManyToMany, rl_local = fk_foreignColumns (fst c), rl_foreign = fk_foreignColumns (snd c),
      rl_junction = Some \<lparr>jn_table = fk_table (fst c), jn_parentColumns = fk_columns (fst c), jn_childColumns = fk_columns (snd c)\<rparr>\<rparr>"

definition candidatePairs :: "ForeignKey list \<Rightarrow> jstr \<Rightarrow> jstr \<Rightarrow> (ForeignKey \<times> ForeignKey) list" where
  "candidatePairs fks parent child =
     [(toParent, toChild). toParent \<leftarrow> fks, fk_foreignTable toParent = parent,
        toChild \<leftarrow> fks, fk_table toChild = fk_table toParent, fk_foreignTable toChild = child]"

definition candidates :: "ForeignKey list \<Rightarrow> jstr \<Rightarrow> jstr \<Rightarrow> (jstr \<times> ForeignKey \<times> ForeignKey) list" where
  "candidates fks parent child =
     fold (\<lambda>c m. setKey (fk_table (fst c)) c m) (candidatePairs fks parent child) []"

definition resolveManyToMany :: "ProjectSchema \<Rightarrow> jstr \<Rightarrow> jstr \<Rightarrow> jstr option \<Rightarrow> Relationship option" where
  "resolveManyToMany schema parent child junctionHint =
     (let cands = candidates (ps_foreignKeys schema) parent child;
          pinned = (case junctionHint of None \<Rightarrow> None | Some h \<Rightarrow> if h = [] then None else map_of cands h)
      in case pinned of
           Some c \<Rightarrow> Some (manyToManyOf c)
         | None \<Rightarrow> (case cands of [(_, c)] \<Rightarrow> Some (manyToManyOf c) | _ \<Rightarrow> None))"

definition matchesHint :: "jstr \<Rightarrow> ForeignKey \<Rightarrow> bool" where
  "matchesHint hint fk \<longleftrightarrow> fk_constraint fk = hint \<or> hint \<in> set (fk_columns fk)"

definition forwardKeys :: "ProjectSchema \<Rightarrow> jstr \<Rightarrow> jstr \<Rightarrow> ForeignKey list" where
  "forwardKeys schema parent child =
     filter (\<lambda>fk. fk_table fk = parent \<and> fk_foreignTable fk = child) (ps_foreignKeys schema)"

definition byHint :: "ProjectSchema \<Rightarrow> jstr \<Rightarrow> jstr \<Rightarrow> jstr \<Rightarrow> Relationship option" where
  "byHint schema parent child hint =
     (case find (matchesHint hint) (forwardKeys schema parent child) of
        Some f \<Rightarrow> Some (toOneOf f)
      | None \<Rightarrow>
          (case find (matchesHint hint) (forwardKeys schema child parent) of
             Some b \<Rightarrow> Some (toManyOf b)
           | None \<Rightarrow> resolveManyToMany schema parent child (Some hint)))"

definition withoutHint :: "ProjectSchema \<Rightarrow> jstr \<Rightarrow> jstr \<Rightarrow> Relationship option" where
  "withoutHint schema parent child =
     (case (forwardKeys schema parent child, forwardKeys schema child parent) of
        ([f], []) \<Rightarrow> Some (toOneOf f)
      | ([], [b]) \<Rightarrow> Some (toManyOf b)
      | ([f], [b]) \<Rightarrow> None
      | _ \<Rightarrow> resolveManyToMany schema parent child None)"

definition resolveRelationship :: "ProjectSchema \<Rightarrow> jstr \<Rightarrow> jstr \<Rightarrow> jstr option \<Rightarrow> Relationship option" where
  "resolveRelationship schema parent child hint =
     (case (case hint of Some h \<Rightarrow> if h = [] then None else byHint schema parent child h | None \<Rightarrow> None) of
        Some r \<Rightarrow> Some r
      | None \<Rightarrow> withoutHint schema parent child)"

section \<open>What is resolved\<close>

text \<open>The relationships that the foreign keys of a schema justify between two tables.\<close>

definition justified :: "ProjectSchema \<Rightarrow> jstr \<Rightarrow> jstr \<Rightarrow> Relationship \<Rightarrow> bool" where
  "justified schema parent child r \<longleftrightarrow>
     (\<exists>f\<in>set (ps_foreignKeys schema). fk_table f = parent \<and> fk_foreignTable f = child \<and> r = toOneOf f) \<or>
     (\<exists>b\<in>set (ps_foreignKeys schema). fk_table b = child \<and> fk_foreignTable b = parent \<and> r = toManyOf b) \<or>
     (\<exists>p\<in>set (ps_foreignKeys schema). \<exists>c\<in>set (ps_foreignKeys schema).
        fk_table p = fk_table c \<and> fk_foreignTable p = parent \<and> fk_foreignTable c = child \<and> r = manyToManyOf (p, c))"

lemma candidates_sound:
  assumes "(j, p, c) \<in> set (candidates fks parent child)"
  shows "p \<in> set fks \<and> c \<in> set fks \<and> fk_table p = j \<and> fk_table c = j \<and> fk_foreignTable p = parent \<and> fk_foreignTable c = child"
proof -
  have "\<forall>x\<in>set (fold (\<lambda>c m. setKey (fk_table (fst c)) c m) cs m). x \<in> set m \<or> (snd x \<in> set cs \<and> fst x = fk_table (fst (snd x)))" for cs m
    by (induction cs arbitrary: m) (fastforce dest: set_setKey)+
  from this [of "candidatePairs fks parent child" "[]"] assms
  have "(p, c) \<in> set (candidatePairs fks parent child)" "j = fk_table p"
    unfolding candidates_def by fastforce+
  then show ?thesis by (auto simp: candidatePairs_def)
qed

lemma resolveManyToMany_justified: "resolveManyToMany schema parent child h = Some r \<Longrightarrow> justified schema parent child r"
proof -
  assume "resolveManyToMany schema parent child h = Some r"
  then obtain j p c where "(j, p, c) \<in> set (candidates (ps_foreignKeys schema) parent child)" "r = manyToManyOf (p, c)"
    by (auto simp: resolveManyToMany_def Let_def split: option.splits if_splits list.splits dest!: map_of_SomeD)
  then show ?thesis using candidates_sound unfolding justified_def by metis
qed

lemma forwardKeys_iff:
  "f \<in> set (forwardKeys schema parent child) \<longleftrightarrow> f \<in> set (ps_foreignKeys schema) \<and> fk_table f = parent \<and> fk_foreignTable f = child"
  by (auto simp: forwardKeys_def)

lemma forward_justified:
  "f \<in> set (forwardKeys schema parent child) \<Longrightarrow> justified schema parent child (toOneOf f)"
  "b \<in> set (forwardKeys schema child parent) \<Longrightarrow> justified schema parent child (toManyOf b)"
  unfolding justified_def forwardKeys_iff by blast+

lemma byHint_justified: "byHint schema parent child h = Some r \<Longrightarrow> justified schema parent child r"
  by (auto simp: byHint_def find_Some_iff split: option.splits dest!: nth_mem
      intro: forward_justified resolveManyToMany_justified)

lemma withoutHint_justified: "withoutHint schema parent child = Some r \<Longrightarrow> justified schema parent child r"
proof -
  assume w: "withoutHint schema parent child = Some r"
  show ?thesis
  proof (cases "\<exists>f. forwardKeys schema parent child = [f] \<and> forwardKeys schema child parent = []")
    case True
    with w show ?thesis
      using forward_justified(1) [of _ schema parent child] by (auto simp: withoutHint_def)
  next
    case False
    show ?thesis
    proof (cases "\<exists>b. forwardKeys schema child parent = [b] \<and> forwardKeys schema parent child = []")
      case True
      with w show ?thesis
        using forward_justified(2) [of _ schema child parent] by (auto simp: withoutHint_def)
    next
      case b: False
      with w False have "resolveManyToMany schema parent child None = Some r"
        by (auto simp: withoutHint_def split: list.splits)
      then show ?thesis by (rule resolveManyToMany_justified)
    qed
  qed
qed

text \<open>
  An embed is only resolved to a relationship that foreign keys of the schema justify: the
  single row a foreign key of the parent points at, the rows whose foreign key points back, or the rows
  linked through one junction table that has a key to each side.  Without a hint, a single foreign key
  between two tables in one direction decides, and one in each direction is refused as ambiguous.
\<close>

theorem relationships_are_justified:
  "(\<forall>r. resolveRelationship schema parent child hint = Some r \<longrightarrow> justified schema parent child r) \<and>
   (\<forall>f. forwardKeys schema parent child = [f] \<and> forwardKeys schema child parent = [] \<longrightarrow>
      resolveRelationship schema parent child None = Some (toOneOf f)) \<and>
   (\<forall>b. forwardKeys schema parent child = [] \<and> forwardKeys schema child parent = [b] \<longrightarrow>
      resolveRelationship schema parent child None = Some (toManyOf b)) \<and>
   (\<forall>f b. forwardKeys schema parent child = [f] \<and> forwardKeys schema child parent = [b] \<longrightarrow>
      resolveRelationship schema parent child None = None)"
proof (intro conjI allI impI)
  fix r assume "resolveRelationship schema parent child hint = Some r"
  then show "justified schema parent child r"
    by (auto simp: resolveRelationship_def split: option.splits if_splits intro: byHint_justified withoutHint_justified)
qed (auto simp: resolveRelationship_def withoutHint_def)

definition fkAB :: ForeignKey where
  "fkAB = \<lparr>fk_table = js ''posts'', fk_columns = [js ''author_id''], fk_foreignTable = js ''users'',
            fk_foreignColumns = [js ''id''], fk_constraint = js ''posts_author_id_fkey''\<rparr>"

definition blogSchema :: ProjectSchema where
  "blogSchema = \<lparr>ps_tables =
     [(js ''posts'', \<lparr>ti_name = js ''posts'', ti_columns = map js [''id'', ''title'', ''author_id'', ''data''], ti_primaryKey = [js ''id'']\<rparr>),
      (js ''users'', \<lparr>ti_name = js ''users'', ti_columns = map js [''id'', ''name'', ''age''], ti_primaryKey = [js ''id'']\<rparr>)],
     ps_foreignKeys = [fkAB], ps_loadedAt = 0\<rparr>"

theorem relationships_are_justified_witness:
  "justified blogSchema (js ''posts'') (js ''users'') (toOneOf fkAB) \<and>
   resolveRelationship blogSchema (js ''users'') (js ''posts'') None = Some (toManyOf fkAB)"
proof -
  have "resolveRelationship blogSchema (js ''posts'') (js ''users'') (Some (js ''author_id'')) = Some (toOneOf fkAB)"
    by code_simp
  moreover have "forwardKeys blogSchema (js ''users'') (js ''posts'') = [] \<and> forwardKeys blogSchema (js ''posts'') (js ''users'') = [fkAB]"
    by code_simp
  ultimately show ?thesis
    using relationships_are_justified [of blogSchema "js ''posts''" "js ''users''" "Some (js ''author_id'')"]
      relationships_are_justified [of blogSchema "js ''users''" "js ''posts''" None] by blast
qed

text \<open>
  A junction whose two keys reference the same table is not resolved to the two sides: every pair of
  its keys overwrites the one before, and the last pair takes the same key for both sides, so that each
  row is joined to itself.
\<close>

definition followKey :: "string \<Rightarrow> ForeignKey" where
  "followKey c = \<lparr>fk_table = js ''follows'', fk_columns = [js c], fk_foreignTable = js ''users'',
     fk_foreignColumns = [js ''id''], fk_constraint = js (c @ ''_fkey'')\<rparr>"

lemma self_junction_joins_a_row_to_itself:
  "resolveRelationship \<lparr>ps_tables = [], ps_foreignKeys = [followKey ''follower_id'', followKey ''followee_id''], ps_loadedAt = 0\<rparr>
     (js ''users'') (js ''users'') (Some (js ''follows'')) =
   Some (manyToManyOf (followKey ''followee_id'', followKey ''followee_id''))"
  by code_simp

section \<open>What is loaded\<close>

text \<open>The column pairs of a constraint, in the order of its rows.\<close>

definition pairsOf :: "jstr \<Rightarrow> FkRow list \<Rightarrow> (jstr \<times> jstr) list" where
  "pairsOf c rows = map (\<lambda>r. (fr_col r, fr_foreignCol r)) (filter (\<lambda>r. fr_constraint r = c) rows)"

definition fkMapOk :: "FkRow list \<Rightarrow> (jstr \<times> ForeignKey) list \<Rightarrow> bool" where
  "fkMapOk rows m \<longleftrightarrow>
     distinct (map fst m) \<and> set (map fst m) = fr_constraint ` set rows \<and>
     (\<forall>(c, fk)\<in>set m. fk_constraint fk = c \<and> length (fk_columns fk) = length (fk_foreignColumns fk) \<and>
        zip (fk_columns fk) (fk_foreignColumns fk) = pairsOf c rows \<and>
        (\<exists>r\<in>set rows. fr_constraint r = c \<and> fr_table r = fk_table fk \<and> fr_foreignTable r = fk_foreignTable fk))"

lemma pairsOf_snoc: "pairsOf c (rows @ [r]) = pairsOf c rows @ (if fr_constraint r = c then [(fr_col r, fr_foreignCol r)] else [])"
  by (simp add: pairsOf_def)

lemma pairsOf_none: "c \<notin> fr_constraint ` set rows \<Longrightarrow> pairsOf c rows = []"
  by (auto simp: pairsOf_def filter_empty_conv)

lemma addFkRow_ok:
  assumes ok: "fkMapOk rows m"
  shows "fkMapOk (rows @ [r]) (addFkRow r m)"
proof -
  let ?c = "fr_constraint r"
  obtain fk where fk: "addFkRow r m = setKey ?c
      (fk\<lparr>fk_columns := fk_columns fk @ [fr_col r], fk_foreignColumns := fk_foreignColumns fk @ [fr_foreignCol r]\<rparr>) m"
    and c: "fk_constraint fk = ?c" "length (fk_columns fk) = length (fk_foreignColumns fk)"
      "zip (fk_columns fk) (fk_foreignColumns fk) = pairsOf ?c rows"
      "\<exists>x\<in>set (rows @ [r]). fr_constraint x = ?c \<and> fr_table x = fk_table fk \<and> fr_foreignTable x = fk_foreignTable fk"
  proof (cases "map_of m ?c")
    case None
    then have "?c \<notin> fr_constraint ` set rows" using ok by (auto simp: fkMapOk_def map_of_eq_None_iff)
    with None show ?thesis
      by (intro that [of "\<lparr>fk_table = fr_table r, fk_columns = [], fk_foreignTable = fr_foreignTable r,
          fk_foreignColumns = [], fk_constraint = ?c\<rparr>"]) (simp_all add: addFkRow_def pairsOf_none)
  next
    case (Some fk)
    then have "(?c, fk) \<in> set m" by (rule map_of_SomeD)
    with ok have "fk_constraint fk = ?c \<and> length (fk_columns fk) = length (fk_foreignColumns fk) \<and>
        zip (fk_columns fk) (fk_foreignColumns fk) = pairsOf ?c rows \<and>
        (\<exists>x\<in>set rows. fr_constraint x = ?c \<and> fr_table x = fk_table fk \<and> fr_foreignTable x = fk_foreignTable fk)"
      unfolding fkMapOk_def by blast
    with Some show ?thesis by (intro that [of fk]) (auto simp: addFkRow_def)
  qed
  show ?thesis
    unfolding fkMapOk_def
  proof (intro conjI ballI)
    show "distinct (map fst (addFkRow r m))" "set (map fst (addFkRow r m)) = fr_constraint ` set (rows @ [r])"
      using ok by (auto simp: fk fkMapOk_def distinct_setKey fst_setKey)
  next
    fix x assume "x \<in> set (addFkRow r m)"
    then have "x = (?c, fk\<lparr>fk_columns := fk_columns fk @ [fr_col r], fk_foreignColumns := fk_foreignColumns fk @ [fr_foreignCol r]\<rparr>)
        \<or> (x \<in> set m \<and> fst x \<noteq> ?c)"
      unfolding fk setKey_def by (force split: if_splits)
    then show "case x of (c, fk) \<Rightarrow> fk_constraint fk = c \<and> length (fk_columns fk) = length (fk_foreignColumns fk) \<and>
        zip (fk_columns fk) (fk_foreignColumns fk) = pairsOf c (rows @ [r]) \<and>
        (\<exists>x\<in>set (rows @ [r]). fr_constraint x = c \<and> fr_table x = fk_table fk \<and> fr_foreignTable x = fk_foreignTable fk)"
    proof
      assume "x \<in> set m \<and> fst x \<noteq> ?c"
      with ok show ?thesis unfolding fkMapOk_def by (auto simp: pairsOf_snoc)
    qed (use c in \<open>auto simp: pairsOf_snoc\<close>)
  qed
qed

lemma fold_addFkRow_ok: "fkMapOk rows m \<Longrightarrow> fkMapOk (rows @ rs) (fold addFkRow rs m)"
proof (induction rs arbitrary: rows m)
  case (Cons r rs)
  then show ?case using addFkRow_ok [OF Cons.prems, of r] Cons.IH [of "rows @ [r]"] by simp
qed simp

definition tablesOk :: "(jstr \<times> jstr) list \<Rightarrow> (jstr \<times> TableInfo) list \<Rightarrow> bool" where
  "tablesOk cols tables \<longleftrightarrow>
     distinct (map fst tables) \<and> set (map fst tables) = fst ` set cols \<and>
     (\<forall>(n, t)\<in>set tables. ti_name t = n \<and> set (ti_columns t) = {c. (n, c) \<in> set cols})"

lemma tablesOk_lookup:
  "tablesOk cols m \<Longrightarrow> map_of m n = Some t \<Longrightarrow> ti_name t = n \<and> set (ti_columns t) = {c. (n, c) \<in> set cols}"
  unfolding tablesOk_def by (blast dest: map_of_SomeD)

lemma tablesOk_setKey:
  assumes "tablesOk cols m" "ti_name t = n" "set (ti_columns t) = {c. (n, c) \<in> set cols'}"
    "fst ` set cols' = insert n (fst ` set cols)" "\<And>k c. k \<noteq> n \<Longrightarrow> (k, c) \<in> set cols' \<longleftrightarrow> (k, c) \<in> set cols"
  shows "tablesOk cols' (setKey n t m)"
  unfolding tablesOk_def
proof (intro conjI ballI)
  show "distinct (map fst (setKey n t m))" using assms(1) by (auto simp: tablesOk_def distinct_setKey)
  show "set (map fst (setKey n t m)) = fst ` set cols'"
    using assms(1,4) by (auto simp: tablesOk_def fst_setKey)
next
  fix x assume "x \<in> set (setKey n t m)"
  then consider "x = (n, t)" | "x \<in> set m" "fst x \<noteq> n"
    unfolding setKey_def by (force split: if_splits)
  then show "case x of (n, t) \<Rightarrow> ti_name t = n \<and> set (ti_columns t) = {c. (n, c) \<in> set cols'}"
    by cases (use assms in \<open>auto simp: tablesOk_def\<close>)
qed

lemma addColumnRow_ok: "tablesOk cols m \<Longrightarrow> tablesOk (cols @ [r]) (addColumnRow r m)"
proof -
  assume ok: "tablesOk cols m"
  obtain t where t: "addColumnRow r m = setKey (fst r) (t\<lparr>ti_columns := List.insert (snd r) (ti_columns t)\<rparr>) m"
    "ti_name t = fst r" "set (ti_columns t) = {c. (fst r, c) \<in> set cols}"
  proof (cases "map_of m (fst r)")
    case None
    then have "fst r \<notin> fst ` set cols" using ok by (auto simp: tablesOk_def map_of_eq_None_iff)
    then have "{c. (fst r, c) \<in> set cols} = {}" by (auto dest: in_fst_image)
    with None show ?thesis by (intro that [of "\<lparr>ti_name = fst r, ti_columns = [], ti_primaryKey = []\<rparr>"]) (simp_all add: addColumnRow_def)
  next
    case (Some t)
    with tablesOk_lookup [OF ok Some] show ?thesis by (intro that [of t]) (simp_all add: addColumnRow_def)
  qed
  show ?thesis unfolding t(1)
    by (rule tablesOk_setKey [OF ok]) (use t in \<open>auto simp: prod_eq_iff\<close>)
qed

lemma addPkRow_ok: "tablesOk cols m \<Longrightarrow> tablesOk cols (addPkRow r m)"
proof (cases "map_of m (fst r)")
  case (Some t)
  assume ok: "tablesOk cols m"
  have "fst r \<in> fst ` set cols"
    using ok in_fst_image [OF map_of_SomeD [OF Some]] by (simp add: tablesOk_def)
  with Some tablesOk_lookup [OF ok Some] show ?thesis
    unfolding addPkRow_def by simp (rule tablesOk_setKey [OF ok], auto)
qed (simp add: addPkRow_def)

lemma fold_addColumnRow_ok: "tablesOk cols m \<Longrightarrow> tablesOk (cols @ rs) (fold addColumnRow rs m)"
proof (induction rs arbitrary: cols m)
  case (Cons r rs)
  then show ?case using addColumnRow_ok [OF Cons.prems, of r] Cons.IH [of "cols @ [r]"] by simp
qed simp

lemma fold_addPkRow_ok: "tablesOk cols m \<Longrightarrow> tablesOk cols (fold addPkRow rs m)"
  by (induction rs arbitrary: m) (simp_all add: addPkRow_ok)

text \<open>
  The loaded schema has one table per table name of the column query, with exactly its columns,
  and one foreign key per constraint name, whose column pairs are those of the constraint's rows in order
  and whose two tables are those of one of the rows.
\<close>

theorem loaded_schema_matches_catalogue:
  "(let s = loadSchema cols pks fks now in
     tablesOk cols (ps_tables s) \<and>
     distinct (map fk_constraint (ps_foreignKeys s)) \<and>
     set (map fk_constraint (ps_foreignKeys s)) = fr_constraint ` set fks \<and>
     (\<forall>fk\<in>set (ps_foreignKeys s).
        length (fk_columns fk) = length (fk_foreignColumns fk) \<and>
        zip (fk_columns fk) (fk_foreignColumns fk) = pairsOf (fk_constraint fk) fks \<and>
        (\<exists>r\<in>set fks. fr_constraint r = fk_constraint fk \<and> fr_table r = fk_table fk \<and> fr_foreignTable r = fk_foreignTable fk)))"
proof -
  let ?m = "fold addFkRow fks []"
  have "tablesOk [] []" by (simp add: tablesOk_def)
  from fold_addColumnRow_ok [OF this, of cols]
  have t: "tablesOk cols (fold addPkRow pks (fold addColumnRow cols []))" by (auto intro: fold_addPkRow_ok)
  have "fkMapOk [] []" by (simp add: fkMapOk_def)
  from fold_addFkRow_ok [OF this, of fks] have m: "fkMapOk fks ?m" by simp
  then have names: "map fk_constraint (map snd ?m) = map fst ?m" by (auto simp: fkMapOk_def)
  show ?thesis
    unfolding Let_def loadSchema_def ProjectSchema.simps names
    using t m by (auto simp: fkMapOk_def)
qed

definition blogRows :: "FkRow list" where
  "blogRows = [\<lparr>fr_constraint = js ''k'', fr_table = js ''a'', fr_col = js ''x'', fr_foreignTable = js ''b'', fr_foreignCol = js ''id''\<rparr>,
     \<lparr>fr_constraint = js ''k'', fr_table = js ''a'', fr_col = js ''y'', fr_foreignTable = js ''b'', fr_foreignCol = js ''n''\<rparr>]"

theorem loaded_schema_matches_catalogue_witness:
  "fr_constraint ` set blogRows = set (map fk_constraint (ps_foreignKeys (loadSchema [(js ''a'', js ''x'')] [] blogRows 0))) \<and>
   ps_foreignKeys (loadSchema [(js ''a'', js ''x'')] [] blogRows 0) \<noteq> []"
proof -
  have "ps_foreignKeys (loadSchema [(js ''a'', js ''x'')] [] blogRows 0) \<noteq> []" by code_simp
  then show ?thesis
    using loaded_schema_matches_catalogue [of "[(js ''a'', js ''x'')]" "[]" blogRows 0] unfolding Let_def by blast
qed

text \<open>
  Postgres keeps constraint names unique per table only.  Two tables that use one name for a foreign key
  are collapsed into a single key with the columns of both, and the second table has none.
\<close>

lemma same_constraint_name_merges_tables:
  "ps_foreignKeys (loadSchema [] []
     [\<lparr>fr_constraint = js ''fk_user'', fr_table = js ''orders'', fr_col = js ''user_id'', fr_foreignTable = js ''users'', fr_foreignCol = js ''id''\<rparr>,
      \<lparr>fr_constraint = js ''fk_user'', fr_table = js ''posts'', fr_col = js ''author_id'', fr_foreignTable = js ''users'', fr_foreignCol = js ''id''\<rparr>] 0) =
   [\<lparr>fk_table = js ''orders'', fk_columns = [js ''user_id'', js ''author_id''], fk_foreignTable = js ''users'',
      fk_foreignColumns = [js ''id'', js ''id''], fk_constraint = js ''fk_user''\<rparr>]"
  by code_simp

end
