(* ===== verification/RestBuilder.thy ===== *)
theory RestBuilder
  imports RestSchema Json
begin

text \<open>
  The SQL builder of the REST data API, \<open>modules/projects/postgrest/builder.ts\<close>: a parsed query and a
  schema give one statement and its bind parameters.  The builder object's two fields, the parameters so
  far and the alias counter, are the state that every method passes on; a throw ends the build.
\<close>

section \<open>The builder state\<close>

datatype BindValue = BText jstr | BNum int | BJson json

record Builder =
  bs_params :: "BindValue list"
  bs_aliasSeq :: nat

definition newBuilder :: Builder where
  "newBuilder = \<lparr>bs_params = [], bs_aliasSeq = 0\<rparr>"

type_synonym 'a build = "Builder \<Rightarrow> ParseError + 'a \<times> Builder"

definition ret :: "'a \<Rightarrow> 'a build" where
  "ret a b = Inr (a, b)"

definition fail :: "ParseError \<Rightarrow> 'a build" where
  "fail e b = Inl e"

definition bindB :: "'a build \<Rightarrow> ('a \<Rightarrow> 'c build) \<Rightarrow> 'c build" where
  "bindB m f b = bindr (m b) (\<lambda>(a, b'). f a b')"

fun mapB :: "('x \<Rightarrow> 'a build) \<Rightarrow> 'x list \<Rightarrow> 'a list build" where
  "mapB f [] = ret []"
| "mapB f (x # xs) = bindB (f x) (\<lambda>y. bindB (mapB f xs) (\<lambda>ys. ret (y # ys)))"

lemma mapB_cong [fundef_cong]:
  "xs = ys \<Longrightarrow> (\<And>x. x \<in> set ys \<Longrightarrow> f x = g x) \<Longrightarrow> mapB f xs = mapB g ys"
  by (induction xs arbitrary: ys) auto

definition bindParam :: "BindValue \<Rightarrow> jstr build" where
  "bindParam v b =
     Inr (js ''$'' @ show_nat (length (bs_params b) + 1), b\<lparr>bs_params := bs_params b @ [v]\<rparr>)"

definition nextAlias :: "jstr build" where
  "nextAlias b = Inr (js ''_bf'' @ show_nat (bs_aliasSeq b), b\<lparr>bs_aliasSeq := bs_aliasSeq b + 1\<rparr>)"

definition tableB :: "ProjectSchema \<Rightarrow> jstr \<Rightarrow> TableInfo build" where
  "tableB schema name =
     (case map_of (ps_tables schema) name of
        Some info \<Rightarrow> ret info
      | None \<Rightarrow> fail (PostgrestParseError (js ''Relation '' @ quoted name @ js '' not found'') None (js ''PGRST205'')))"

definition assertColumn :: "TableInfo \<Rightarrow> jstr \<Rightarrow> unit build" where
  "assertColumn info column =
     (if column \<in> set (ti_columns info) then ret ()
      else fail (PostgrestParseError (js ''Column '' @ quoted column @ js '' does not exist on '' @ quoted (ti_name info)) None (js ''PGRST204'')))"

section \<open>Fields\<close>

definition arrowText :: "Arrow \<Rightarrow> jstr" where
  "arrowText a = (case a of JsonArrow \<Rightarrow> js ''->'' | TextArrow \<Rightarrow> js ''->>'')"

fun pathSql :: "jstr \<Rightarrow> (Arrow \<times> jstr) list \<Rightarrow> jstr build" where
  "pathSql expr [] = ret expr"
| "pathSql expr ((a, k) # path) = bindB (bindParam (BText k)) (\<lambda>p. pathSql (expr @ arrowText a @ p) path)"

definition fieldSql :: "jstr \<Rightarrow> TableInfo \<Rightarrow> FieldRef \<Rightarrow> jstr build" where
  "fieldSql alias info field =
     bindB (assertColumn info (fr_column field)) (\<lambda>_.
       pathSql (alias @ js ''.'' @ quoted (fr_column field)) (fr_path field))"

section \<open>Filters\<close>

definition likePattern :: "jstr \<Rightarrow> jstr" where
  "likePattern value = map (\<lambda>c. if c = ch CHR ''*'' then ch CHR ''%'' else c) value"

definition isOperand :: "jstr \<Rightarrow> jstr build" where
  "isOperand value =
     (let v = js_lower value in
      if v = js ''null'' then ret (js ''NULL'')
      else if v = js ''true'' then ret (js ''TRUE'')
      else if v = js ''false'' then ret (js ''FALSE'')
      else if v = js ''unknown'' then ret (js ''UNKNOWN'')
      else fail (parseErr (quoted (js ''is'') @ js '' expects null, true, false or unknown, got '' @ quoted value)))"

text \<open>The loop of \<open>inList\<close>: the open quote and the item so far.\<close>

fun inListLoop :: "int option \<Rightarrow> jstr \<Rightarrow> jstr \<Rightarrow> jstr list" where
  "inListLoop quote cur [] = [cur]"
| "inListLoop quote cur (c # s) =
     (case quote of
        Some q \<Rightarrow> if c = q then inListLoop None cur s else inListLoop quote (cur @ [c]) s
      | None \<Rightarrow>
          if isQuote c then inListLoop (Some c) cur s
          else if c = ch CHR '','' then cur # inListLoop None [] s
          else inListLoop None (cur @ [c]) s)"

definition inList :: "jstr \<Rightarrow> jstr list" where
  "inList value =
     (let body = stripParens value
      in if js_trim body = [] then [] else map js_trim (inListLoop None [] body))"

definition ftsFunction :: "FilterOp \<Rightarrow> jstr" where
  "ftsFunction f =
     (case f of Plfts \<Rightarrow> js ''plainto_tsquery'' | Phfts \<Rightarrow> js ''phraseto_tsquery''
      | Wfts \<Rightarrow> js ''websearch_to_tsquery'' | _ \<Rightarrow> js ''to_tsquery'')"

definition ftsSql :: "jstr \<Rightarrow> Condition \<Rightarrow> jstr build" where
  "ftsSql lhs cond =
     (let call = lhs @ js '' @@ '' @ ftsFunction (cd_op cond) @ js ''('';
          plain = bindB (bindParam (BText (cd_value cond))) (\<lambda>v. ret (call @ v @ js '')''))
      in case cd_ftsConfig cond of
           None \<Rightarrow> plain
         | Some cfg \<Rightarrow>
             if cfg = [] then plain
             else bindB (bindParam (BText cfg)) (\<lambda>c.
                  bindB (bindParam (BText (cd_value cond))) (\<lambda>v.
                    ret (call @ c @ js ''::regconfig, '' @ v @ js '')''))))"

text \<open>The operators that bind their operand once.\<close>

definition binaryOp :: "jstr \<Rightarrow> string \<Rightarrow> jstr \<Rightarrow> jstr build" where
  "binaryOp lhs op value = bindB (bindParam (BText value)) (\<lambda>p. ret (lhs @ js '' '' @ js op @ js '' '' @ p))"

definition operatorSql :: "jstr \<Rightarrow> Condition \<Rightarrow> jstr build" where
  "operatorSql lhs cond =
     (let value = cd_value cond in
      case cd_op cond of
        Eq \<Rightarrow> binaryOp lhs ''='' value
      | Neq \<Rightarrow> binaryOp lhs ''<>'' value
      | Gt \<Rightarrow> binaryOp lhs ''>'' value
      | Gte \<Rightarrow> binaryOp lhs ''>='' value
      | Lt \<Rightarrow> binaryOp lhs ''<'' value
      | Lte \<Rightarrow> binaryOp lhs ''<='' value
      | Like \<Rightarrow> binaryOp lhs ''LIKE'' (likePattern value)
      | Ilike \<Rightarrow> binaryOp lhs ''ILIKE'' (likePattern value)
      | Match \<Rightarrow> binaryOp lhs ''~'' value
      | Imatch \<Rightarrow> binaryOp lhs ''~*'' value
      | Is \<Rightarrow> bindB (isOperand value) (\<lambda>v. ret (lhs @ js '' IS '' @ v))
      | Isdistinct \<Rightarrow> binaryOp lhs ''IS DISTINCT FROM'' value
      | In \<Rightarrow>
          (if inList value = [] then ret (js ''FALSE'')
           else bindB (mapB (\<lambda>v. bindParam (BText v)) (inList value)) (\<lambda>ph.
             ret (lhs @ js '' IN ('' @ join (js '', '') ph @ js '')'')))
      | Cs \<Rightarrow> binaryOp lhs ''@>'' value
      | Cd \<Rightarrow> binaryOp lhs ''<@'' value
      | Ov \<Rightarrow> binaryOp lhs ''&&'' value
      | Sl \<Rightarrow> binaryOp lhs ''<<'' value
      | Sr \<Rightarrow> binaryOp lhs ''>>'' value
      | Nxl \<Rightarrow> binaryOp lhs ''&>'' value
      | Nxr \<Rightarrow> binaryOp lhs ''&<'' value
      | Adj \<Rightarrow> binaryOp lhs ''-|-'' value
      | Fts \<Rightarrow> ftsSql lhs cond
      | Plfts \<Rightarrow> ftsSql lhs cond
      | Phfts \<Rightarrow> ftsSql lhs cond
      | Wfts \<Rightarrow> ftsSql lhs cond)"

definition conditionSql :: "jstr \<Rightarrow> TableInfo \<Rightarrow> Condition \<Rightarrow> jstr build" where
  "conditionSql alias info cond =
     bindB (fieldSql alias info (cd_field cond)) (\<lambda>lhs.
     bindB (operatorSql lhs cond) (\<lambda>sql.
       ret (if cd_negate cond then js ''NOT ('' @ sql @ js '')'' else sql)))"

fun filterSql :: "jstr \<Rightarrow> TableInfo \<Rightarrow> FilterNode \<Rightarrow> jstr build" where
  "filterSql alias info (Cond c) = conditionSql alias info c"
| "filterSql alias info (Logic b negate cs) =
     bindB (mapB (filterSql alias info) cs) (\<lambda>parts.
       ret (let joined = js ''('' @ join (case b of And \<Rightarrow> js '' AND '' | Or \<Rightarrow> js '' OR '') parts @ js '')''
            in if negate then js ''NOT '' @ joined else joined))"

definition buildWhere :: "jstr \<Rightarrow> TableInfo \<Rightarrow> ParsedQuery \<Rightarrow> jstr \<Rightarrow> jstr build" where
  "buildWhere alias info query path =
     (case map_of (pq_filters query) path of
        None \<Rightarrow> ret []
      | Some nodes \<Rightarrow> bindB (mapB (filterSql alias info) nodes) (\<lambda>parts. ret (join (js '' AND '') parts)))"

section \<open>Order and paging\<close>

definition nullsText :: "bool \<Rightarrow> OrderTerm \<Rightarrow> jstr" where
  "nullsText postgres t =
     (case ot_nulls t of
        Some NullsFirst \<Rightarrow> js ''NULLS FIRST''
      | Some NullsLast \<Rightarrow> js ''NULLS LAST''
      | None \<Rightarrow> if ot_desc t = postgres then js ''NULLS FIRST'' else js ''NULLS LAST'')"

definition orderTermSql :: "bool \<Rightarrow> jstr \<Rightarrow> TableInfo \<Rightarrow> OrderTerm \<Rightarrow> jstr build" where
  "orderTermSql postgres alias info t =
     bindB (fieldSql alias info (ot_field t)) (\<lambda>expr.
       ret (expr @ js '' '' @ (if ot_desc t then js ''DESC'' else js ''ASC'') @ js '' '' @ nullsText postgres t))"

definition buildOrder :: "bool \<Rightarrow> jstr \<Rightarrow> TableInfo \<Rightarrow> ParsedQuery \<Rightarrow> jstr \<Rightarrow> jstr build" where
  "buildOrder postgres alias info query path =
     (case map_of (pq_order query) path of
        None \<Rightarrow> ret []
      | Some terms \<Rightarrow> bindB (mapB (orderTermSql postgres alias info) terms) (\<lambda>parts. ret (join (js '', '') parts)))"

definition pagingPart :: "string \<Rightarrow> int option \<Rightarrow> jstr list build" where
  "pagingPart word n =
     (case n of
        None \<Rightarrow> ret []
      | Some n \<Rightarrow> bindB (bindParam (BNum n)) (\<lambda>p. ret [js word @ js '' '' @ p]))"

definition buildPaging :: "ParsedQuery \<Rightarrow> jstr \<Rightarrow> jstr build" where
  "buildPaging query path =
     bindB (pagingPart ''LIMIT'' (case map_of (pq_limit query) path of
              Some n \<Rightarrow> Some n | None \<Rightarrow> if path = [] then Some 1000 else None)) (\<lambda>l.
     bindB (pagingPart ''OFFSET'' (map_of (pq_offset query) path)) (\<lambda>o'.
       ret (join (js '' '') (l @ o'))))"

section \<open>Embedded resources\<close>

text \<open>\<open>xs[i]\<close> in a template literal, and \<open>xs[i] ?? xs[0]\<close>.\<close>

definition textAt :: "jstr list \<Rightarrow> nat \<Rightarrow> jstr" where
  "textAt xs i = (case nth_opt xs i of Some x \<Rightarrow> x | None \<Rightarrow> js ''undefined'')"

definition textAtOr0 :: "jstr list \<Rightarrow> nat \<Rightarrow> jstr" where
  "textAtOr0 xs i = (case nth_opt xs i of Some x \<Rightarrow> x | None \<Rightarrow> textAt xs 0)"

definition col :: "jstr \<Rightarrow> jstr \<Rightarrow> jstr" where
  "col alias c = alias @ js ''.'' @ quoted c"

text \<open>\<open>xs.map((x, i) => ...).join(' AND ')\<close>: one equation per column.\<close>

definition equations :: "(jstr \<Rightarrow> nat \<Rightarrow> jstr \<times> jstr) \<Rightarrow> jstr list \<Rightarrow> jstr" where
  "equations sides xs =
     join (js '' AND '') (map (\<lambda>(i, x). fst (sides x i) @ js '' = '' @ snd (sides x i)) (enumerate 0 xs))"

definition embedJoin :: "Relationship \<Rightarrow> jstr \<Rightarrow> jstr \<Rightarrow> jstr" where
  "embedJoin rel parentAlias childAlias =
     (case rl_junction rel of
        Some j \<Rightarrow> equations (\<lambda>jc i. (col (js ''_j'') jc, col childAlias (textAtOr0 (rl_foreign rel) i))) (jn_childColumns j)
      | None \<Rightarrow>
          if rl_cardinality rel = ToOne
          then equations (\<lambda>lc i. (col parentAlias lc, col childAlias (textAt (rl_foreign rel) i))) (rl_local rel)
          else equations (\<lambda>fc i. (col childAlias fc, col parentAlias (textAt (rl_local rel) i))) (rl_foreign rel))"

text \<open>The call sites ask for \<open>junctionFrom\<close> only when there is a junction, and use \<open>''\<close> otherwise.\<close>

definition junctionFrom :: "Relationship \<Rightarrow> jstr \<Rightarrow> jstr" where
  "junctionFrom rel parentAlias =
     (case rl_junction rel of
        None \<Rightarrow> []
      | Some j \<Rightarrow>
          js ''JOIN '' @ quoted (jn_table j) @ js '' _j ON '' @
          equations (\<lambda>pc i. (col (js ''_j'') pc, col parentAlias (textAtOr0 (rl_local rel) i))) (jn_parentColumns j))"

definition joinNonEmpty :: "string \<Rightarrow> jstr list \<Rightarrow> jstr" where
  "joinNonEmpty sep parts = join (js sep) (filter (\<lambda>p. p \<noteq> []) parts)"

definition clause :: "string \<Rightarrow> jstr \<Rightarrow> jstr" where
  "clause word body = (if body = [] then [] else js word @ body)"

definition existsSql :: "jstr \<Rightarrow> jstr \<Rightarrow> jstr \<Rightarrow> jstr \<Rightarrow> jstr" where
  "existsSql relation childAlias fromJunction existsWhere =
     js ''EXISTS (SELECT 1 FROM '' @ quoted relation @ js '' '' @ childAlias @
     clause '' '' fromJunction @ clause '' WHERE '' existsWhere @ js '')''"

definition noRelationship :: "jstr \<Rightarrow> jstr option \<Rightarrow> jstr option \<Rightarrow> ParseError" where
  "noRelationship parent relation hint =
     PostgrestParseError
       (js ''Could not find a relationship between '' @ quoted parent @ js '' and '' @
        quoted (case relation of Some r \<Rightarrow> r | None \<Rightarrow> js ''undefined'') @
        (case hint of Some h \<Rightarrow> if h = [] then [] else js '' using hint '' @ quoted h | None \<Rightarrow> []))
       (Some (js ''Define a foreign key, or disambiguate with a hint.'')) (js ''PGRST200'')"

text \<open>The relationship of an embed; a missing relation name equals no table name.\<close>

definition relationshipB :: "ProjectSchema \<Rightarrow> jstr \<Rightarrow> jstr option \<Rightarrow> jstr option \<Rightarrow> (jstr \<times> Relationship) build" where
  "relationshipB schema parent relation hint =
     (case relation of
        None \<Rightarrow> fail (noRelationship parent relation hint)
      | Some r \<Rightarrow>
          (case resolveRelationship schema parent r hint of
             None \<Rightarrow> fail (noRelationship parent relation hint)
           | Some rel \<Rightarrow> ret (r, rel)))"

definition childPathOf :: "jstr \<Rightarrow> jstr \<Rightarrow> jstr" where
  "childPathOf pathPrefix label = (if pathPrefix = [] then label else pathPrefix @ js ''.'' @ label)"

definition labelOf :: "jstr option \<Rightarrow> jstr \<Rightarrow> jstr" where
  "labelOf alias name = (case alias of Some a \<Rightarrow> a | None \<Rightarrow> name)"

definition columnSql :: "jstr \<Rightarrow> TableInfo \<Rightarrow> FieldRef \<Rightarrow> jstr option \<Rightarrow> jstr option \<Rightarrow> jstr build" where
  "columnSql alias info field as cast =
     bindB (fieldSql alias info field) (\<lambda>expr.
       ret ((case cast of Some t \<Rightarrow> if t = [] then expr else js ''('' @ expr @ js '')::'' @ quoted t | None \<Rightarrow> expr) @
            js '' AS '' @ quoted (labelOf as (fr_column field))))"

text \<open>The text of an embed around its parts.\<close>

definition embedQuery :: "jstr list \<Rightarrow> jstr \<Rightarrow> jstr \<Rightarrow> jstr \<Rightarrow> jstr \<Rightarrow> jstr \<Rightarrow> jstr \<Rightarrow> jstr" where
  "embedQuery cols relation childAlias fromJunction conditions order paging =
     joinNonEmpty '' ''
       [js ''SELECT '' @ join (js '', '') cols, js ''FROM '' @ quoted relation @ js '' '' @ childAlias, fromJunction,
        clause ''WHERE '' conditions, clause ''ORDER BY '' order, paging]"

definition embedResult :: "Cardinality \<Rightarrow> jstr \<Rightarrow> jstr \<Rightarrow> jstr \<Rightarrow> jstr" where
  "embedResult cardinality rowAlias inner label =
     (if cardinality = ToOne
      then js ''(SELECT row_to_json('' @ rowAlias @ js '') FROM ('' @ inner @ js '') '' @ rowAlias @ js '') AS '' @ quoted label
      else js ''(SELECT COALESCE(json_agg('' @ rowAlias @ js ''), '' @ [39] @ js ''[]'' @ [39] @ js ''::json) FROM ('' @ inner @
           js '') '' @ rowAlias @ js '') AS '' @ quoted label)"

text \<open>
  The select list and the \<open>EXISTS\<close> predicates that its \<open>!inner\<close> embeds push for the parent, in the order of
  the pushes.
\<close>

fun buildSelectList :: "ProjectSchema \<Rightarrow> bool \<Rightarrow> jstr \<Rightarrow> jstr \<Rightarrow> TableInfo \<Rightarrow> SelectItem list \<Rightarrow> ParsedQuery \<Rightarrow> jstr \<Rightarrow> (jstr list \<times> jstr list) build"
  and buildSelectItem :: "ProjectSchema \<Rightarrow> bool \<Rightarrow> jstr \<Rightarrow> jstr \<Rightarrow> TableInfo \<Rightarrow> SelectItem \<Rightarrow> ParsedQuery \<Rightarrow> jstr \<Rightarrow> (jstr \<times> jstr list) build" where
  "buildSelectList schema pg table alias info [] query pre = ret ([], [])"
| "buildSelectList schema pg table alias info (item # items) query pre =
     bindB (buildSelectItem schema pg table alias info item query pre) (\<lambda>(e, ps).
     bindB (buildSelectList schema pg table alias info items query pre) (\<lambda>(es, qs). ret (e # es, ps @ qs)))"
| "buildSelectItem schema pg table alias info SelStar query pre = ret (alias @ js ''.*'', [])"
| "buildSelectItem schema pg table alias info (SelColumn field as cast) query pre =
     bindB (columnSql alias info field as cast) (\<lambda>e. ret (e, []))"
| "buildSelectItem schema pg table alias info (SelEmbed relation as hint isInner sub) query pre =
     bindB (relationshipB schema table relation hint) (\<lambda>(r, rel).
     bindB (tableB schema r) (\<lambda>childInfo.
     bindB nextAlias (\<lambda>childAlias.
     (let label = labelOf as r; childPath = childPathOf pre label in
     bindB (buildSelectList schema pg r childAlias childInfo sub query childPath) (\<lambda>(cols, nestedInner).
     bindB (buildWhere childAlias childInfo query childPath) (\<lambda>embedWhere.
     (let conditions = joinNonEmpty '' AND '' (embedJoin rel alias childAlias # embedWhere # nestedInner) in
     bindB (buildOrder pg childAlias childInfo query childPath) (\<lambda>order.
     bindB (buildPaging query childPath) (\<lambda>paging.
     bindB nextAlias (\<lambda>rowAlias.
       ret (embedResult (rl_cardinality rel) rowAlias
              (embedQuery cols r childAlias (junctionFrom rel alias) conditions order paging) label,
            if isInner then [existsSql r childAlias (junctionFrom rel alias) conditions] else []))))))))))) "

fun innerPredicates :: "ProjectSchema \<Rightarrow> jstr \<Rightarrow> jstr \<Rightarrow> SelectItem list \<Rightarrow> ParsedQuery \<Rightarrow> jstr \<Rightarrow> jstr list build"
  and innerPredicate :: "ProjectSchema \<Rightarrow> jstr \<Rightarrow> jstr \<Rightarrow> SelectItem \<Rightarrow> ParsedQuery \<Rightarrow> jstr \<Rightarrow> jstr list build" where
  "innerPredicates schema table alias [] query pre = ret []"
| "innerPredicates schema table alias (item # items) query pre =
     bindB (innerPredicate schema table alias item query pre) (\<lambda>ps.
     bindB (innerPredicates schema table alias items query pre) (\<lambda>qs. ret (ps @ qs)))"
| "innerPredicate schema table alias SelStar query pre = ret []"
| "innerPredicate schema table alias (SelColumn field as cast) query pre = ret []"
| "innerPredicate schema table alias (SelEmbed relation as hint isInner sub) query pre =
     (if \<not> isInner then ret []
      else
        bindB (relationshipB schema table relation hint) (\<lambda>(r, rel).
        bindB (tableB schema r) (\<lambda>childInfo.
        bindB nextAlias (\<lambda>childAlias.
        (let childPath = childPathOf pre (labelOf as r) in
        bindB (buildWhere childAlias childInfo query childPath) (\<lambda>embedWhere.
        bindB (innerPredicates schema r childAlias sub query childPath) (\<lambda>nested.
          ret [existsSql r childAlias (junctionFrom rel alias)
                 (joinNonEmpty '' AND '' (embedJoin rel alias childAlias # embedWhere # nested))])))))))"

section \<open>Statements\<close>

definition selectText :: "jstr list \<Rightarrow> jstr \<Rightarrow> jstr \<Rightarrow> jstr \<Rightarrow> jstr \<Rightarrow> jstr \<Rightarrow> jstr" where
  "selectText cols source alias conditions order paging =
     joinNonEmpty '' ''
       [js ''SELECT '' @ join (js '', '') cols, js ''FROM '' @ source @ js '' '' @ alias,
        clause ''WHERE '' conditions, clause ''ORDER BY '' order, paging]"

definition buildSelectBody :: "ProjectSchema \<Rightarrow> bool \<Rightarrow> jstr \<Rightarrow> jstr \<Rightarrow> TableInfo \<Rightarrow> ParsedQuery \<Rightarrow> jstr \<Rightarrow> jstr option \<Rightarrow> bool \<Rightarrow> jstr build" where
  "buildSelectBody schema pg table alias info query pre from projectionOnly =
     (let source = (case from of Some f \<Rightarrow> f | None \<Rightarrow> quoted table) in
      bindB (buildSelectList schema pg table alias info (pq_select query) query pre) (\<lambda>(cols, inner).
      if projectionOnly
      then ret (js ''SELECT '' @ join (js '', '') cols @ js '' FROM '' @ source @ js '' '' @ alias)
      else
        bindB (buildWhere alias info query pre) (\<lambda>rootWhere.
        bindB (buildOrder pg alias info query pre) (\<lambda>order.
        bindB (buildPaging query pre) (\<lambda>paging.
          ret (selectText cols source alias (joinNonEmpty '' AND '' (rootWhere # inner)) order paging))))))"

definition build :: "ProjectSchema \<Rightarrow> bool \<Rightarrow> jstr \<Rightarrow> ParsedQuery \<Rightarrow> jstr build" where
  "build schema pg table query =
     bindB (tableB schema table) (\<lambda>info.
     bindB nextAlias (\<lambda>alias. buildSelectBody schema pg table alias info query [] None False))"

definition buildCount :: "ProjectSchema \<Rightarrow> jstr \<Rightarrow> ParsedQuery \<Rightarrow> jstr build" where
  "buildCount schema table query =
     bindB (tableB schema table) (\<lambda>info.
     bindB nextAlias (\<lambda>alias.
     bindB (buildWhere alias info query []) (\<lambda>rootWhere.
     bindB (innerPredicates schema table alias (pq_select query) query []) (\<lambda>inner.
       ret (joinNonEmpty '' ''
              [js ''SELECT COUNT(*)::int AS total FROM '' @ quoted table @ js '' '' @ alias,
               clause ''WHERE '' (joinNonEmpty '' AND '' (rootWhere # inner))])))))"

definition buildWriteWhere :: "ProjectSchema \<Rightarrow> jstr \<Rightarrow> ParsedQuery \<Rightarrow> (jstr \<times> jstr) build" where
  "buildWriteWhere schema table query =
     bindB (tableB schema table) (\<lambda>info.
     bindB nextAlias (\<lambda>alias.
     bindB (buildWhere alias info query []) (\<lambda>where'. ret (alias, where'))))"

text \<open>
  \<open>sql.replace(/^SELECT /, ...)\<close>: the projection always starts with \<open>SELECT\<close>, and the name of the raw row is
  taken to hold no \<open>$\<close> (the only caller passes a constant).
\<close>

definition buildProjection :: "ProjectSchema \<Rightarrow> bool \<Rightarrow> jstr \<Rightarrow> ParsedQuery \<Rightarrow> jstr \<Rightarrow> BindValue list \<Rightarrow> jstr option \<Rightarrow> (jstr \<times> jstr) build" where
  "buildProjection schema pg table query source seedParams rawAs b =
     bindB (tableB schema table) (\<lambda>info b0.
       bindB nextAlias (\<lambda>alias.
       bindB (buildSelectBody schema pg table alias info query [] (Some source) True) (\<lambda>sql.
         ret (case rawAs of
                Some raw \<Rightarrow>
                  if raw = [] then sql
                  else if starts_with (js ''SELECT '') sql
                  then js ''SELECT row_to_json('' @ alias @ js '') AS '' @ quoted raw @ js '', '' @ drop 7 sql
                  else sql
              | None \<Rightarrow> sql, alias)))
       (b0\<lparr>bs_params := bs_params b0 @ seedParams\<rparr>)) b"

end
