(* ===== verification/RestQuery.thy ===== *)
theory RestQuery
  imports RestParser
begin

text \<open>
  What the REST query parser guarantees: every name in a parsed query is a plain identifier and every
  page size is bounded, and a filter tree written in the query language parses back to itself.
\<close>

section \<open>Well-formed queries\<close>

definition fieldOk :: "FieldRef \<Rightarrow> bool" where
  "fieldOk f \<longleftrightarrow> isIdent (fr_column f) \<and> list_all (\<lambda>(a, k). k \<noteq> []) (fr_path f)"

definition optIdent :: "jstr option \<Rightarrow> bool" where
  "optIdent x \<longleftrightarrow> (case x of None \<Rightarrow> True | Some n \<Rightarrow> isIdent n)"

definition condOk :: "Condition \<Rightarrow> bool" where
  "condOk c \<longleftrightarrow> fieldOk (cd_field c) \<and> optIdent (cd_ftsConfig c)"

fun nodeOk :: "FilterNode \<Rightarrow> bool" where
  "nodeOk (Cond c) = condOk c"
| "nodeOk (Logic b n cs) = list_all nodeOk cs"

fun selOk :: "SelectItem \<Rightarrow> bool" where
  "selOk (SelColumn f a c) = (fieldOk f \<and> optIdent a \<and> optIdent c)"
| "selOk SelStar = True"
| "selOk (SelEmbed r a h i sub) = (optIdent r \<and> optIdent a \<and> optIdent h \<and> list_all selOk sub)"

definition queryOk :: "ParsedQuery \<Rightarrow> bool" where
  "queryOk q \<longleftrightarrow> list_all selOk (pq_select q) \<and> list_all (\<lambda>(p, ns). list_all nodeOk ns) (pq_filters q) \<and>
     list_all (\<lambda>(p, ts). list_all (\<lambda>t. fieldOk (ot_field t)) ts) (pq_order q) \<and>
     list_all (\<lambda>(p, n). 0 \<le> n \<and> n \<le> 1000) (pq_limit q) \<and> list_all (\<lambda>(p, n). 0 \<le> n) (pq_offset q)"

lemma assertIdent_Inr: "assertIdent name what = Inr x \<longleftrightarrow> x = name \<and> isIdent name"
  by (auto simp: assertIdent_def)

lemma jsonSteps_ok: "jsonSteps raw ss = Inr ts \<Longrightarrow> list_all (\<lambda>(a, k). k \<noteq> []) ts"
  by (induction raw ss arbitrary: ts rule: jsonSteps.induct) (auto simp: bindr_eq_Inr split: if_splits)

lemma parseFieldRef_ok: "parseFieldRef raw = Inr f \<Longrightarrow> fieldOk f"
  by (auto simp: parseFieldRef_def Let_def bindr_eq_Inr assertIdent_Inr fieldOk_def dest: jsonSteps_ok)

lemma parseConditionValue_ok: "parseConditionValue column v = Inr c \<Longrightarrow> condOk c"
  by (auto simp: parseConditionValue_def Let_def bindr_eq_Inr condOk_def optIdent_def ftsToken_def
      dest!: parseFieldRef_ok split: prod.splits option.splits if_splits)

lemma parseTriple_ok: "parseTriple token rest = Inr n \<Longrightarrow> nodeOk n"
  by (auto simp: parseTriple_def bindr_eq_Inr dest!: parseConditionValue_ok split: option.splits)

lemma parseLogic_ok:
  "parseLogicChildren body = Inr ns \<Longrightarrow> list_all nodeOk ns"
  "parseLogicNode token = Inr n \<Longrightarrow> nodeOk n"
proof (induction body and token arbitrary: ns and n rule: parseLogicChildren_parseLogicNode.induct)
  case (1 body)
  then show ?case by (auto simp: parseLogicChildren.simps intro: mapr_list_all)
next
  case (2 token)
  then show ?case
    by (auto simp: parseLogicNode.simps bindr_eq_Inr dest: parseTriple_ok split: option.splits)
qed

lemma embedSegments_ok: "embedSegments h i segs = Inr (h', i') \<Longrightarrow> optIdent h \<Longrightarrow> optIdent h'"
  by (induction h i segs rule: embedSegments.induct) (auto simp: bindr_eq_Inr assertIdent_Inr optIdent_def split: if_splits)

lemma embedHead_ok: "embedHead s = Inr (r, h, i) \<Longrightarrow> optIdent r \<and> optIdent h"
  using embedSegments_ok [of None False]
  by (auto simp: embedHead_def bindr_eq_Inr assertIdent_Inr optIdent_def split: list.splits prod.splits)

lemma parseAlias_ok: "parseAlias t = Inr (a, r) \<Longrightarrow> optIdent a"
  by (auto simp: parseAlias_def bindr_eq_Inr assertIdent_Inr optIdent_def split: option.splits)

lemma parseColumn_ok: "parseColumn r a = Inr x \<Longrightarrow> optIdent a \<Longrightarrow> selOk x"
  by (auto simp: parseColumn_def bindr_eq_Inr assertIdent_Inr optIdent_def split: option.splits)
     (erule parseFieldRef_ok)+

lemma parseSelect_ok:
  "parseSelect input = Inr items \<Longrightarrow> list_all selOk items"
  "parseSelectItem token = Inr x \<Longrightarrow> selOk x"
proof (induction input and token arbitrary: items and x rule: parseSelect_parseSelectItem.induct)
  case (1 input)
  show ?case
  proof (cases "js_trim input = []")
    case True
    with "1.prems" show ?thesis by (auto simp: parseSelect.simps)
  next
    case False
    let ?m = "mapr (\<lambda>tok. parseSelectItem (js_trim tok)) (splitTopLevel input (ch CHR '',''))"
    from False "1.prems" have "bindr ?m (\<lambda>ys. if ys = [] then Inr [SelStar] else Inr ys) = Inr items"
      by (simp add: parseSelect.simps)
    then obtain ys where ys: "?m = Inr ys" "items = (if ys = [] then [SelStar] else ys)"
      unfolding bindr_eq_Inr by (metis sum.inject(2))
    from ys(1) have "list_all selOk ys" by (rule mapr_list_all) (rule "1.IH" [OF False])
    with ys(2) show ?thesis by simp
  qed
next
  case (2 token)
  show ?case
  proof (cases "token = js ''*''")
    case True
    with "2.prems" show ?thesis by (auto simp: parseSelectItem.simps)
  next
    case False
    with "2.prems" obtain a r where ar: "parseAlias token = Inr (a, r)"
      by (auto simp: parseSelectItem.simps bindr_eq_Inr)
    note a = parseAlias_ok [OF ar]
    show ?thesis
    proof (cases "embedParts r")
      case None
      with "2.prems" False ar a show ?thesis by (auto simp: parseSelectItem.simps intro: parseColumn_ok)
    next
      case (Some hi)
      with "2.prems" False ar obtain rel hint inner sub where h: "embedHead (fst hi) = Inr (rel, hint, inner)"
        "parseSelect (snd hi) = Inr sub" "x = SelEmbed rel a hint inner sub"
        by (auto simp: parseSelectItem.simps bindr_eq_Inr split: prod.splits)
      have "list_all selOk sub" using "2.IH" [OF False ar] Some h by simp
      with h embedHead_ok [OF h(1)] a show ?thesis by simp
    qed
  qed
qed

lemma parseOrder_ok: "parseOrder v = Inr ts \<Longrightarrow> list_all (\<lambda>t. fieldOk (ot_field t)) ts"
  unfolding parseOrder_def
  by (erule mapr_list_all) (auto simp: parseOrderTerm_def Let_def bindr_eq_Inr dest: parseFieldRef_ok split: prod.splits)

lemma setKey_all: "list_all (\<lambda>(p, x). P x) m \<Longrightarrow> P v \<Longrightarrow> list_all (\<lambda>(p, x). P x) (setKey k v m)"
  by (auto simp: setKey_def list_all_iff split: if_splits)

lemma map_of_all: "list_all (\<lambda>(p, x). P x) m \<Longrightarrow> map_of m k = Some v \<Longrightarrow> P v"
  by (auto simp: list_all_iff dest!: map_of_SomeD)

lemma addFilter_ok: "queryOk q \<Longrightarrow> nodeOk n \<Longrightarrow> queryOk (addFilter path n q)"
  by (auto simp: queryOk_def addFilter_def intro!: setKey_all dest: map_of_all split: option.splits)

lemma addLogic_ok: "addLogic path b vs q = Inr q' \<Longrightarrow> queryOk q \<Longrightarrow> queryOk q'"
proof (induction path b vs q rule: addLogic.induct)
  case (2 path b v vs q)
  then obtain cs where cs: "parseLogicChildren (stripParens v) = Inr cs"
    "addLogic path b vs (addFilter path (Logic b False cs) q) = Inr q'" by (auto simp: bindr_eq_Inr)
  have "nodeOk (Logic b False cs)" using parseLogic_ok(1) [OF cs(1)] by simp
  then show ?case using "2.IH" [OF cs] "2.prems"(2) addFilter_ok by blast
qed simp

lemma addConditions_ok: "addConditions path c vs q = Inr q' \<Longrightarrow> queryOk q \<Longrightarrow> queryOk q'"
proof (induction path c vs q rule: addConditions.induct)
  case (2 path column v vs q)
  then obtain c where c: "parseConditionValue column v = Inr c"
    "addConditions path column vs (addFilter path (Cond c) q) = Inr q'" by (auto simp: bindr_eq_Inr)
  have "nodeOk (Cond c)" using parseConditionValue_ok [OF c(1)] by simp
  then show ?case using "2.IH" [OF c] "2.prems"(2) addFilter_ok by blast
qed simp

lemma addOrders_ok: "addOrders path vs q = Inr q' \<Longrightarrow> queryOk q \<Longrightarrow> queryOk q'"
proof (induction path vs q rule: addOrders.induct)
  case (2 path v vs q)
  then obtain ts where ts: "parseOrder v = Inr ts"
    "addOrders path vs (q\<lparr>pq_order := setKey path ts (pq_order q)\<rparr>) = Inr q'" by (auto simp: bindr_eq_Inr)
  have "queryOk (q\<lparr>pq_order := setKey path ts (pq_order q)\<rparr>)"
    using "2.prems"(2) parseOrder_ok [OF ts(1)] by (auto simp: queryOk_def intro!: setKey_all)
  then show ?case by (rule "2.IH" [OF ts])
qed simp

lemma pageNumber_ok: "pageNumber vs = Some n \<Longrightarrow> 0 \<le> n"
  by (auto simp: pageNumber_def split: list.splits option.splits if_splits)

lemma parseEntry_ok:
  assumes "parseEntry e q = Inr q'" "queryOk q"
  shows "queryOk q'"
proof -
  obtain path leaf where k: "splitEmbeddedKey (fst e) = (path, leaf)" by fastforce
  have page: "queryOk (q\<lparr>pq_limit := setKey path (min n 1000) (pq_limit q)\<rparr>)"
    "queryOk (q\<lparr>pq_offset := setKey path n (pq_offset q)\<rparr>)" if "0 \<le> n" for n
    using assms(2) that by (auto simp: queryOk_def intro!: setKey_all)
  let ?vs = "valuesOf (snd e)" and ?ok = "\<lambda>r. \<forall>q'. r = Inr q' \<longrightarrow> queryOk q'"
  have limit: "?ok (Inr (case pageNumber ?vs of None \<Rightarrow> q | Some n \<Rightarrow> q\<lparr>pq_limit := setKey path (min n 1000) (pq_limit q)\<rparr>))"
    and offset: "?ok (Inr (case pageNumber ?vs of None \<Rightarrow> q | Some n \<Rightarrow> q\<lparr>pq_offset := setKey path n (pq_offset q)\<rparr>))"
    using assms(2) page pageNumber_ok [of ?vs] by (auto split: option.split)
  have logic: "?ok (addLogic path b ?vs q)" "?ok (addOrders path ?vs q)" "?ok (addConditions path leaf ?vs q)" "?ok (Inr q)" for b
    using assms(2) addLogic_ok addOrders_ok addConditions_ok by blast+
  have "?ok (parseEntry e q)"
    unfolding parseEntry_def Let_def k prod.case using limit offset logic by (simp only: split: if_split) blast
  with assms(1) show ?thesis by blast
qed

lemma parseEntries_ok: "parseEntries es q = Inr q' \<Longrightarrow> queryOk q \<Longrightarrow> queryOk q'"
  by (induction es q rule: parseEntries.induct) (auto simp: bindr_eq_Inr dest: parseEntry_ok)

lemma parseQuery_ok:
  assumes "parseQuery query = Inr q"
  shows "queryOk q"
proof -
  from assms obtain sel where sel: "selectOf query = Inr sel"
    and es: "parseEntries query \<lparr>pq_select = sel, pq_filters = [], pq_order = [], pq_limit = [], pq_offset = []\<rparr> = Inr q"
    by (auto simp: parseQuery_def bindr_eq_Inr)
  from sel have "list_all selOk sel"
    by (auto simp: selectOf_def dest: parseSelect_ok(1) split: option.splits QVal.splits)
  then show ?thesis by (intro parseEntries_ok [OF es]) (simp add: queryOk_def)
qed

text \<open>
  Whatever arrives in the query string, every column, alias, cast, relation, hint and
  text-search configuration of the parsed query is a plain identifier, no JSON key is empty, every
  limit lies between 0 and 1000 and no offset is negative.
\<close>

theorem parsed_query_is_well_formed:
  assumes "parseQuery query = Inr q"
  shows "queryOk q"
  using assms by (rule parseQuery_ok)

definition sampleQuery :: "(jstr \<times> QVal) list" where
  "sampleQuery = [(js ''select'', QOne (js ''id,author:users!inner(name)'')), (js ''age'', QOne (js ''gte.18'')),
     (js ''or'', QOne (js ''(a.eq.1,not.and(b.in.(1,2),c.is.null))'')), (js ''limit'', QOne (js ''5000''))]"

definition sampleParsed :: ParsedQuery where
  "sampleParsed = projr (parseQuery sampleQuery)"

lemma sampleParsed: "parseQuery sampleQuery = Inr sampleParsed"
proof -
  have "\<not> isl (parseQuery sampleQuery)" by code_simp
  then show ?thesis by (simp add: sampleParsed_def)
qed

theorem parsed_query_is_well_formed_witness: "queryOk sampleParsed"
  by (rule parsed_query_is_well_formed [OF sampleParsed])

section \<open>Printing filters\<close>

definition opName :: "FilterOp \<Rightarrow> jstr" where
  "opName f = fst (hd (filter (\<lambda>(n, g). g = f) FILTER_OPS))"

definition renderOp :: "FilterOp \<Rightarrow> jstr option \<Rightarrow> jstr" where
  "renderOp f cfg = opName f @ (case cfg of None \<Rightarrow> [] | Some g \<Rightarrow> js ''('' @ g @ js '')'')"

definition renderValue :: "Condition \<Rightarrow> jstr" where
  "renderValue c = (if cd_negate c then js ''not.'' else []) @ renderOp (cd_op c) (cd_ftsConfig c) @ js ''.'' @ cd_value c"

fun render :: "FilterNode \<Rightarrow> jstr" where
  "render (Cond c) = fr_column (cd_field c) @ js ''.'' @ renderValue c"
| "render (Logic b n cs) =
     (if n then js ''not.'' else []) @ (if b = And then js ''and('' else js ''or('') @ join (js '','') (map render cs) @ js '')''"

text \<open>
  Text that a split at nesting \<open>d\<close> passes through unharmed: parentheses and quotes are balanced and
  no comma stands at nesting 0.
\<close>

fun balanced :: "nat \<Rightarrow> int option \<Rightarrow> jstr \<Rightarrow> (nat \<times> int option) option" where
  "balanced d q [] = Some (d, q)"
| "balanced d q (c # s) =
     (case q of
        Some k \<Rightarrow> balanced d (if c = k then None else q) s
      | None \<Rightarrow>
          if isQuote c then balanced d (Some c) s
          else if c = ch CHR ''('' then balanced (Suc d) None s
          else if c = ch CHR '')'' then (if d = 0 then None else balanced (d - 1) None s)
          else if c = ch CHR '','' \<and> d = 0 then None
          else balanced d None s)"

definition printableCond :: "Condition \<Rightarrow> bool" where
  "printableCond c \<longleftrightarrow> isIdent (fr_column (cd_field c)) \<and> fr_path (cd_field c) = [] \<and>
     (case cd_ftsConfig c of None \<Rightarrow> True | Some g \<Rightarrow> isIdent g \<and> cd_op c \<in> {Fts, Plfts, Phfts, Wfts}) \<and>
     balanced 0 None (cd_value c) = Some (0, None) \<and> (cd_value c \<noteq> [] \<longrightarrow> \<not> is_js_space (last (cd_value c)))"

fun printable :: "FilterNode \<Rightarrow> bool" where
  "printable (Cond c) = printableCond c"
| "printable (Logic b n cs) = list_all printable cs"

lemma balanced_append:
  "balanced d q (s @ r) = (case balanced d q s of None \<Rightarrow> None | Some (d', q') \<Rightarrow> balanced d' q' r)"
proof (induction s arbitrary: d q)
  case (Cons c s)
  then show ?case by (cases q) simp_all
qed simp

lemma balanced_deeper: "balanced d q s = Some (d', q') \<Longrightarrow> balanced (d + k) q s = Some (d' + k, q')"
proof (induction s arbitrary: d q)
  case (Cons c s)
  consider k' where "q = Some k'" | "q = None" "isQuote c" | "q = None" "\<not> isQuote c" "c = ch CHR ''(''"
    | m where "q = None" "\<not> isQuote c" "c = ch CHR '')''" "d = Suc m" | "q = None" "\<not> isQuote c" "c = ch CHR '')''" "d = 0"
    | "q = None" "\<not> isQuote c" "c \<noteq> ch CHR ''(''" "c \<noteq> ch CHR '')''"
    by (cases q; cases "isQuote c"; cases "c = ch CHR ''(''"; cases "c = ch CHR '')''"; cases d) metis+
  then show ?case
  proof cases
    case 6
    then have "\<not> (c = ch CHR '','' \<and> d = 0)" "balanced d None s = Some (d', q')"
      using Cons.prems by (simp_all split: if_splits)
    with 6 Cons.IH show ?thesis by simp
  next
    case 3
    with Cons.prems have "balanced (Suc d) None s = Some (d', q')" by simp
    from Cons.IH [OF this] 3 show ?thesis by simp
  qed (use Cons in \<open>simp_all\<close>)
qed simp

lemma balanced_plain:
  "list_all (\<lambda>c. \<not> isQuote c \<and> c \<noteq> ch CHR ''('' \<and> c \<noteq> ch CHR '')'' \<and> c \<noteq> ch CHR '','') s \<Longrightarrow>
     balanced d None s = Some (d, None)"
  by (induction s) auto

lemma splitTop_balanced:
  "balanced d q s = Some (d', q') \<Longrightarrow>
     splitTopLoop (ch CHR '','') (int d) q piece (s @ r) = splitTopLoop (ch CHR '','') (int d') q' (piece @ s) r"
proof (induction d q s arbitrary: piece rule: balanced.induct)
  case (2 d q c s)
  show ?case
  proof (cases q)
    case None
    with 2 show ?thesis by (auto simp: of_nat_diff add.commute split: if_splits)
  next
    case (Some k)
    with 2 show ?thesis by auto
  qed
qed simp

lemma splitTop_join:
  "ss \<noteq> [] \<Longrightarrow> list_all (\<lambda>s. balanced 0 None s = Some (0, None)) ss \<Longrightarrow>
     splitTopLoop (ch CHR '','') 0 None [] (join (js '','') ss) = ss"
proof (induction ss)
  case (Cons s ss)
  show ?case
  proof (cases "ss = []")
    case True
    with Cons splitTop_balanced [of 0 None s 0 None "[]" "[]"] show ?thesis by simp
  next
    case False
    with Cons splitTop_balanced [of 0 None s 0 None "[]" "js '','' @ join (js '','') ss"] show ?thesis
      by (simp add: join_Cons isQuote_def)
  qed
qed simp

lemma splitTopLevel_join:
  "list_all (\<lambda>s. s \<noteq> [] \<and> balanced 0 None s = Some (0, None)) ss \<Longrightarrow> splitTopLevel (join (js '','') ss) (ch CHR '','') = ss"
proof (cases "ss = []")
  case False
  assume all: "list_all (\<lambda>s. s \<noteq> [] \<and> balanced 0 None s = Some (0, None)) ss"
  then have "list_all (\<lambda>s. balanced 0 None s = Some (0, None)) ss" by (simp add: list_all_iff)
  with False splitTop_join [of ss] have "splitTopLoop (ch CHR '','') 0 None [] (join (js '','') ss) = ss" by simp
  moreover have "filter (\<lambda>s. s \<noteq> []) ss = ss" using all by (simp add: list_all_iff filter_id_conv)
  ultimately show ?thesis by (simp add: splitTopLevel_def)
qed (simp add: splitTopLevel_def)

text \<open>Characters of identifiers and operator names.\<close>

lemma identChar_plain:
  "isIdentChar c \<Longrightarrow> \<not> isQuote c \<and> c \<noteq> ch CHR ''('' \<and> c \<noteq> ch CHR '')'' \<and> c \<noteq> ch CHR '','' \<and> c \<noteq> ch CHR ''.'' \<and>
     c \<noteq> ch CHR ''-'' \<and> \<not> is_js_space c"
  by (auto simp: isIdentChar_def isQuote_def is_alpha_def is_digit_def is_js_space_def)

lemma isIdent_chars: "isIdent s \<Longrightarrow> s \<noteq> [] \<and> list_all isIdentChar s"
  by (auto simp: isIdent_def isIdentStart_def isIdentChar_def split: list.splits)

lemma opName_table: "map_of FILTER_OPS (opName f) = Some f \<and> isIdent (opName f)"
proof -
  have "\<forall>f\<in>set (map snd FILTER_OPS). map_of FILTER_OPS (opName f) = Some f \<and> isIdent (opName f)" by code_simp
  moreover have "f \<in> set (map snd FILTER_OPS)" by (cases f) (simp_all add: FILTER_OPS_def)
  ultimately show ?thesis by blast
qed

lemma index_of_append: "c \<notin> set a \<Longrightarrow> index_of c (a @ c # b) = Some (length a)"
  by (induction a) auto

lemma index_of_None: "c \<notin> set s \<Longrightarrow> index_of c s = None"
  by (induction s) auto

lemma ident_no: "isIdent s \<Longrightarrow> ch CHR ''.'' \<notin> set s \<and> ch CHR ''('' \<notin> set s \<and> ch CHR ''-'' \<notin> set s"
  using isIdent_chars [of s] identChar_plain by (fastforce simp: list_all_iff)

lemma splitArrows_plain: "ch CHR ''-'' \<notin> set s \<Longrightarrow> splitArrows s = (s, [])"
  by (induction s) (auto simp: starts_with_def)

lemma parseFieldRef_ident: "isIdent s \<Longrightarrow> parseFieldRef s = Inr \<lparr>fr_column = s, fr_path = []\<rparr>"
  using ident_no [of s] by (simp add: parseFieldRef_def splitArrows_plain assertIdent_def Let_def)

lemma renderOp_no_dot:
  "(case cfg of None \<Rightarrow> True | Some g \<Rightarrow> isIdent g) \<Longrightarrow> ch CHR ''.'' \<notin> set (renderOp f cfg)"
  using opName_table [of f] ident_no by (auto simp: renderOp_def split: option.splits)

lemma ftsToken_renderOp:
  assumes "case cfg of None \<Rightarrow> True | Some g \<Rightarrow> isIdent g \<and> f \<in> {Fts, Plfts, Phfts, Wfts}"
  shows "(case ftsToken (renderOp f cfg) of Some (n, c) \<Rightarrow> (n, Some c) | None \<Rightarrow> (renderOp f cfg, None)) = (opName f, cfg)"
proof (cases cfg)
  case None
  have "ch CHR ''('' \<notin> set (opName f)" using opName_table ident_no by blast
  with None show ?thesis by (simp add: ftsToken_def renderOp_def index_of_None)
next
  case (Some g)
  have no: "ch CHR ''('' \<notin> set (opName f)" using opName_table ident_no by blast
  have "opName f \<in> set (map js [''fts'', ''plfts'', ''phfts'', ''wfts''])"
    using assms Some by (auto simp: opName_def FILTER_OPS_def)
  with Some assms no show ?thesis
    using index_of_append [OF no, of "g @ js '')''"]
    by (simp add: ftsToken_def renderOp_def Let_def)
qed

lemma opName_prefix:
  "\<not> starts_with (js ''not.'') (opName f @ r)" "\<not> starts_with (js ''and'') (opName f @ r)" "\<not> starts_with (js ''or'') (opName f @ r)"
  by (cases f; simp add: opName_def FILTER_OPS_def starts_with_def)+

lemma parseConditionValue_render:
  assumes "printableCond c"
  shows "parseConditionValue (fr_column (cd_field c)) (renderValue c) = Inr c"
proof -
  let ?o = "renderOp (cd_op c) (cd_ftsConfig c)"
  have strip: "stripNot (renderValue c) = (cd_negate c, ?o @ js ''.'' @ cd_value c)"
  proof (cases "cd_negate c")
    case True
    then show ?thesis by (simp add: stripNot_def renderValue_def starts_with_def)
  next
    case False
    have "\<not> starts_with (js ''not.'') (?o @ js ''.'' @ cd_value c)"
      unfolding renderOp_def append_assoc by (rule opName_prefix(1))
    with False show ?thesis by (simp only: stripNot_def renderValue_def if_False append_Nil)
  qed
  have dot: "index_of 46 (?o @ 46 # cd_value c) = Some (length ?o)"
    using assms renderOp_no_dot [of "cd_ftsConfig c" "cd_op c"]
    by (simp add: printableCond_def index_of_append split: option.splits)
  have fts: "(case ftsToken ?o of Some (n, c) \<Rightarrow> (n, Some c) | None \<Rightarrow> (?o, None)) = (opName (cd_op c), cd_ftsConfig c)"
    using assms by (intro ftsToken_renderOp) (simp add: printableCond_def split: option.splits)
  have f: "parseFieldRef (fr_column (cd_field c)) = Inr (cd_field c)"
    using assms parseFieldRef_ident by (simp add: printableCond_def)
  show ?thesis
    using opName_table [of "cd_op c"] f
    by (simp add: parseConditionValue_def strip dot fts Let_def)
qed

text \<open>Rendered filters are balanced, non-empty and have no white space at either end.\<close>

lemma balanced_ident: "isIdent s \<Longrightarrow> balanced d None s = Some (d, None)"
  using isIdent_chars [of s] identChar_plain by (intro balanced_plain) (simp add: list_all_iff)

lemma balanced_renderOp:
  assumes "case cfg of None \<Rightarrow> True | Some g \<Rightarrow> isIdent g"
  shows "balanced 0 None (renderOp f cfg) = Some (0, None)"
proof (cases cfg)
  case None
  then show ?thesis using opName_table [of f] by (simp add: renderOp_def balanced_ident)
next
  case (Some g)
  with assms show ?thesis using opName_table [of f]
    by (simp add: renderOp_def balanced_append balanced_ident isQuote_def)
qed

lemma balanced_renderValue: "printableCond c \<Longrightarrow> balanced 0 None (renderValue c) = Some (0, None)"
  using balanced_renderOp [of "cd_ftsConfig c" "cd_op c"]
  by (simp add: printableCond_def renderValue_def balanced_append isQuote_def split: option.splits)

lemma balanced_join_deep:
  "\<forall>s\<in>set ss. balanced 0 None s = Some (0, None) \<Longrightarrow> balanced 1 None (join (js '','') ss) = Some (1, None)"
proof (induction ss)
  case (Cons s ss)
  then have "balanced 1 None s = Some (1, None)" using balanced_deeper [of 0 None s 0 None 1] by simp
  with Cons show ?case by (simp add: join_Cons balanced_append isQuote_def)
qed simp

lemma render_balanced: "printable n \<Longrightarrow> balanced 0 None (render n) = Some (0, None)"
proof (induction n)
  case (Cond c)
  then show ?case
    using balanced_renderValue [of c] balanced_ident [of "fr_column (cd_field c)" 0]
    by (simp add: balanced_append isQuote_def printableCond_def)
next
  case (Logic b n cs)
  then have "balanced 1 None (join (js '','') (map render cs)) = Some (1, None)"
    by (intro balanced_join_deep) (auto simp: list_all_iff)
  then show ?case by (cases b; cases n) (simp_all add: balanced_append isQuote_def)
qed

lemma trim_id: "s \<noteq> [] \<Longrightarrow> \<not> is_js_space (hd s) \<Longrightarrow> \<not> is_js_space (last s) \<Longrightarrow> js_trim s = s"
  by (simp add: js_trim_def dropWhile_eq_self_iff [THEN iffD2] hd_rev)

lemma isIdent_hd: "isIdent s \<Longrightarrow> s \<noteq> [] \<and> \<not> is_js_space (hd s)"
  using isIdent_chars [of s] identChar_plain by (cases s) auto

lemma render_trim: "printable n \<Longrightarrow> render n \<noteq> [] \<and> js_trim (render n) = render n"
proof (cases n)
  case (Cond c)
  assume "printable n"
  with Cond have p: "printableCond c" by simp
  then have "last (render n) = (if cd_value c = [] then ch CHR ''.'' else last (cd_value c))"
    using Cond by (simp add: renderValue_def)
  with p have "\<not> is_js_space (last (render n))" by (simp add: printableCond_def is_js_space_def)
  moreover have "render n \<noteq> []" "\<not> is_js_space (hd (render n))"
    using p Cond isIdent_hd [of "fr_column (cd_field c)"] by (simp_all add: printableCond_def)
  ultimately show ?thesis using trim_id by blast
next
  case (Logic b m cs)
  have "render n \<noteq> []" "\<not> is_js_space (hd (render n))" "\<not> is_js_space (last (render n))"
    using Logic by (cases b; cases m; simp add: is_js_space_def)+
  then show ?thesis using trim_id by blast
qed

text \<open>A rendered condition is not a group, a rendered group is.\<close>

lemma ident_dot_no_group:
  assumes "isIdent s"
  shows "groupBody (s @ js ''.'' @ r) = None"
proof -
  have all: "\<forall>c\<in>set s. isIdentChar c" using isIdent_chars [OF assms] by (simp add: list_all_iff)
  have dot: "dropWhile isIdentChar (s @ js ''.'' @ r) = js ''.'' @ r"
    using all by (simp add: dropWhile_append isIdentChar_def is_alpha_def is_digit_def)
  have no: "\<not> starts_with (w @ js ''('') (s @ js ''.'' @ r)" if "\<forall>c\<in>set w. isIdentChar c" for w
  proof
    assume "starts_with (w @ js ''('') (s @ js ''.'' @ r)"
    then obtain u where "s @ js ''.'' @ r = w @ js ''('' @ u" by (auto simp: starts_with_prefix prefix_def)
    moreover have "dropWhile isIdentChar (w @ js ''('' @ u) = js ''('' @ u"
      using that by (simp add: dropWhile_append isIdentChar_def is_alpha_def is_digit_def)
    ultimately show False using dot by simp
  qed
  have "\<forall>c\<in>set (js ''and''). isIdentChar c" "\<forall>c\<in>set (js ''or''). isIdentChar c" by code_simp+
  from no [OF this(1)] no [OF this(2)] show ?thesis by (simp add: groupBody_def)
qed

lemma renderValue_no_group: "\<not> opensGroup (renderValue c)"
proof (cases "cd_negate c")
  case True
  then show ?thesis by (simp add: opensGroup_def renderValue_def starts_with_def)
next
  case False
  have "\<not> starts_with (js ''and'') (renderValue c) \<and> \<not> starts_with (js ''or'') (renderValue c)"
    using opName_prefix(2,3) [of "cd_op c"] False by (simp only: renderValue_def renderOp_def if_False append_Nil append_assoc) blast
  then show ?thesis by (simp add: opensGroup_def)
qed

lemma first_split_unique: "a @ c # x = b @ c # y \<Longrightarrow> c \<notin> set a \<Longrightarrow> c \<notin> set b \<Longrightarrow> a = b \<and> x = y"
proof (induction a arbitrary: b)
  case Nil
  then show ?case by (cases b) auto
next
  case (Cons d a)
  then show ?case by (cases b) auto
qed

lemma groupNegation_cond:
  assumes "isIdent s"
  shows "groupNegation (s @ js ''.'' @ renderValue c) = (False, s @ js ''.'' @ renderValue c)"
proof (cases "starts_with (js ''not.'') (s @ js ''.'' @ renderValue c)")
  case True
  then obtain u where u: "s @ 46 # renderValue c = js ''not'' @ 46 # u" by (auto simp: starts_with_prefix prefix_def)
  have "ch CHR ''.'' \<notin> set s" using ident_no [OF assms] by simp
  moreover have "ch CHR ''.'' \<notin> set (js ''not'')" by code_simp
  ultimately have "s = js ''not'' \<and> renderValue c = u"
    using u by (intro first_split_unique) auto
  then show ?thesis using renderValue_no_group [of c] by (simp add: groupNegation_def)
qed (simp add: groupNegation_def)

lemma group_render:
  "groupNegation (render (Logic b n cs)) = (n, (if b = And then js ''and('' else js ''or('') @ join (js '','') (map render cs) @ js '')'')"
  "groupBody ((if b = And then js ''and('' else js ''or('') @ join (js '','') (map render cs) @ js '')'') = Some (b, join (js '','') (map render cs))"
  by (cases b; cases n; simp add: groupNegation_def opensGroup_def groupBody_def starts_with_def is_js_space_def nth_opt_def)+

lemma mapr_map: "\<forall>x\<in>set xs. f (g x) = Inr x \<Longrightarrow> mapr f (map g xs) = Inr xs"
  by (induction xs) auto


definition sampleFilter :: FilterNode where
  "sampleFilter = Logic Or True
     [Cond \<lparr>cd_field = \<lparr>fr_column = js ''age'', fr_path = []\<rparr>, cd_op = In, cd_negate = True, cd_value = js ''(1,2)'', cd_ftsConfig = None\<rparr>,
      Logic And False
        [Cond \<lparr>cd_field = \<lparr>fr_column = js ''not'', fr_path = []\<rparr>, cd_op = Fts, cd_negate = False, cd_value = js ''cat'', cd_ftsConfig = Some (js ''english'')\<rparr>]]"


end
