(* ===== verification/RestParams.thy ===== *)
theory RestParams
  imports RestBuilder RestQuery
begin

text \<open>
  The parameters of a built statement: the placeholders that occur in its text are exactly the numbers of
  the values it binds.  Postgres refuses a statement that misses a value and one that binds a value it does
  not use.
\<close>

section \<open>Placeholders of a text\<close>

definition digitsValue :: "jstr \<Rightarrow> nat" where
  "digitsValue d = foldl (\<lambda>a c. 10 * a + nat (c - 48)) 0 d"

fun refs :: "jstr \<Rightarrow> nat list" where
  "refs [] = []"
| "refs (c # s) = (if c = ch CHR ''$'' then digitsValue (takeWhile is_digit s) # refs s else refs s)"

definition plain :: "jstr \<Rightarrow> bool" where
  "plain t \<longleftrightarrow> ch CHR ''$'' \<notin> set t"

named_theorems refs_simps \<open>placeholders of concatenated texts\<close>

lemma refs_plain: "plain a \<Longrightarrow> refs (a @ b) = refs b"
  by (induction a) (auto simp: plain_def)

lemma refs_plain_Nil: "plain a \<Longrightarrow> refs a = []"
  using refs_plain [of a "[]"] by simp

lemma refs_append: "b = [] \<or> \<not> is_digit (hd b) \<Longrightarrow> refs (a @ b) = refs a @ refs b"
proof (induction a)
  case (Cons c a)
  have "takeWhile is_digit (a @ b) = takeWhile is_digit a"
    using Cons.prems by (cases b) (auto simp: takeWhile_append takeWhile_eq_all_conv [THEN iffD2])
  with Cons show ?case by simp
qed simp

lemma digitsValue_show_nat: "digitsValue (show_nat n) = n"
proof (induction n rule: show_nat.induct)
  case (1 n)
  show ?case
  proof (cases "n < 10")
    case True
    then show ?thesis by (simp add: show_nat.simps [of n] digitsValue_def)
  next
    case False
    with 1 have "digitsValue (show_nat (n div 10)) = n div 10" by simp
    with False show ?thesis by (simp add: show_nat.simps [of n] digitsValue_def)
  qed
qed

lemma plain_show_nat: "plain (show_nat n)"
  unfolding plain_def using show_nat_digits [of "ch CHR ''$''" n] by (auto simp: is_digit_def)

lemma refs_placeholder: "refs (js ''$'' @ show_nat n) = [n]"
proof -
  have "takeWhile is_digit (show_nat n) = show_nat n"
    unfolding takeWhile_eq_all_conv using show_nat_digits by blast
  then have "digitsValue (takeWhile is_digit (show_nat n)) = n" by (simp only: digitsValue_show_nat)
  then show ?thesis using refs_plain_Nil [OF plain_show_nat] by simp
qed

lemma refs_join:
  "sep \<noteq> [] \<Longrightarrow> \<not> is_digit (hd sep) \<Longrightarrow> plain sep \<Longrightarrow> set (refs (join sep xs)) = (\<Union>x\<in>set xs. set (refs x))"
  by (induction xs) (auto simp: join_Cons refs_append refs_plain)

lemma refs_joinNonEmpty:
  "sep \<noteq> [] \<Longrightarrow> \<not> is_digit (hd (js sep)) \<Longrightarrow> plain (js sep) \<Longrightarrow>
     set (refs (joinNonEmpty sep xs)) = (\<Union>x\<in>set xs. set (refs x))"
  by (subst joinNonEmpty_def, subst refs_join) (cases sep; auto)+

lemma plain_append [simp]: "plain (a @ b) \<longleftrightarrow> plain a \<and> plain b"
  by (auto simp: plain_def)

lemma plain_Cons [simp]: "plain (c # s) \<longleftrightarrow> c \<noteq> ch CHR ''$'' \<and> plain s"
  by (auto simp: plain_def)

lemma plain_Nil [simp]: "plain []"
  by (simp add: plain_def)

lemma plain_join: "plain sep \<Longrightarrow> list_all plain xs \<Longrightarrow> plain (join sep xs)"
  by (induction xs) (auto simp: join_Cons)

lemma isIdent_plain: "isIdent s \<Longrightarrow> plain s"
  using isIdent_chars [of s] by (auto simp: plain_def list_all_iff isIdentChar_def is_alpha_def is_digit_def)

section \<open>Builds that use what they bind\<close>

text \<open>
  \<open>uses S m Q\<close>: when \<open>m\<close> succeeds from a state whose parameters so far are accounted for by \<open>S\<close>, its result
  satisfies \<open>Q\<close> with \<open>S\<close> and the numbers of the parameters that \<open>m\<close> bound.
\<close>

definition uses :: "nat set \<Rightarrow> 'a build \<Rightarrow> ('a \<Rightarrow> nat set \<Rightarrow> bool) \<Rightarrow> bool" where
  "uses S m Q \<longleftrightarrow>
     (\<forall>b a b'. m b = Inr (a, b') \<longrightarrow>
        length (bs_params b) \<le> length (bs_params b') \<and>
        Q a (S \<union> {length (bs_params b) <.. length (bs_params b')}))"

lemma uses_ret: "Q a S \<Longrightarrow> uses S (ret a) Q"
  by (simp add: uses_def ret_def)

lemma uses_fail: "uses S (fail e) Q"
  by (simp add: uses_def fail_def)

lemma uses_bind:
  assumes "uses S m P" "\<And>a T. P a T \<Longrightarrow> uses T (f a) Q"
  shows "uses S (bindB m f) Q"
  unfolding uses_def
proof (intro allI impI)
  fix b c b'' assume "bindB m f b = Inr (c, b'')"
  then obtain a b' where m: "m b = Inr (a, b')" and f: "f a b' = Inr (c, b'')"
    by (auto simp: bindB_def bindr_eq_Inr)
  let ?n = "\<lambda>b. length (bs_params b)"
  from assms(1) m have le: "?n b \<le> ?n b'" and "P a (S \<union> {?n b <.. ?n b'})" by (auto simp: uses_def)
  from assms(2) [OF this(2)] f have "?n b' \<le> ?n b''" "Q c (S \<union> {?n b <.. ?n b'} \<union> {?n b' <.. ?n b''})"
    by (auto simp: uses_def)
  moreover have "{?n b <.. ?n b'} \<union> {?n b' <.. ?n b''} = {?n b <.. ?n b''}" using le calculation(1) by auto
  ultimately show "?n b \<le> ?n b'' \<and> Q c (S \<union> {?n b <.. ?n b''})" using le by (simp add: Un_assoc)
qed

lemma bindB_ret: "bindB (ret a) f = f a"
  by (simp add: bindB_def ret_def fun_eq_iff)

lemma bindB_fail: "bindB (fail e) f = fail e"
  by (simp add: bindB_def fail_def bindr_def fun_eq_iff)

lemma uses_mono: "uses S m P \<Longrightarrow> (\<And>a T. P a T \<Longrightarrow> Q a T) \<Longrightarrow> uses S m Q"
  by (auto simp: uses_def)

definition adds :: "nat set \<Rightarrow> jstr \<Rightarrow> nat set \<Rightarrow> bool" where
  "adds S t T \<longleftrightarrow> T = S \<union> set (refs t)"

lemma uses_bindParam: "uses S (bindParam v) (adds S)"
proof -
  have "{n<..Suc n} = {Suc n}" for n by auto
  then show ?thesis using refs_placeholder by (auto simp: uses_def bindParam_def adds_def)
qed

lemma uses_nextAlias: "uses S nextAlias (\<lambda>t T. plain t \<and> T = S)"
  using plain_show_nat by (simp add: uses_def nextAlias_def)

text \<open>A list of texts.\<close>

definition addsAll :: "nat set \<Rightarrow> jstr list \<Rightarrow> nat set \<Rightarrow> bool" where
  "addsAll S ts T \<longleftrightarrow> T = S \<union> (\<Union>t\<in>set ts. set (refs t))"

lemma uses_mapB:
  "(\<And>x S. x \<in> set xs \<Longrightarrow> uses S (f x) (adds S)) \<Longrightarrow> uses S (mapB f xs) (addsAll S)"
proof (induction xs arbitrary: S)
  case Nil
  then show ?case by (auto simp: addsAll_def intro: uses_ret)
next
  case (Cons x xs)
  show ?case
    unfolding mapB.simps
    by (rule uses_bind [OF Cons.prems], simp, rule uses_bind [OF Cons.IH], rule Cons.prems, simp, rule uses_ret)
      (auto simp: adds_def addsAll_def)
qed

section \<open>Schemas without dollar signs\<close>

definition plainInfo :: "TableInfo \<Rightarrow> bool" where
  "plainInfo info \<longleftrightarrow> list_all plain (ti_columns info)"

definition plainKey :: "ForeignKey \<Rightarrow> bool" where
  "plainKey fk \<longleftrightarrow> plain (fk_table fk) \<and> list_all plain (fk_columns fk) \<and> list_all plain (fk_foreignColumns fk)"

definition plainSchema :: "ProjectSchema \<Rightarrow> bool" where
  "plainSchema schema \<longleftrightarrow>
     list_all (\<lambda>(n, info). plain n \<and> plainInfo info) (ps_tables schema) \<and> list_all plainKey (ps_foreignKeys schema)"

definition plainRel :: "Relationship \<Rightarrow> bool" where
  "plainRel r \<longleftrightarrow> list_all plain (rl_local r) \<and> list_all plain (rl_foreign r) \<and>
     (case rl_junction r of None \<Rightarrow> True
      | Some j \<Rightarrow> plain (jn_table j) \<and> list_all plain (jn_parentColumns j) \<and> list_all plain (jn_childColumns j))"

lemma resolve_plain:
  assumes "plainSchema schema" "resolveRelationship schema parent child hint = Some r"
  shows "plainRel r"
proof -
  have "justified schema parent child r"
    using assms(2) by (auto simp: resolveRelationship_def split: option.splits if_splits intro: byHint_justified withoutHint_justified)
  moreover have "\<forall>fk\<in>set (ps_foreignKeys schema). plainKey fk" using assms(1) by (simp add: plainSchema_def list_all_iff)
  ultimately show ?thesis
    by (auto simp: justified_def plainRel_def plainKey_def toOneOf_def toManyOf_def manyToManyOf_def)
qed

lemma uses_tableB:
  assumes "plainSchema schema"
  shows "uses S (tableB schema n) (\<lambda>info T. plainInfo info \<and> plain n \<and> T = S)"
proof (cases "map_of (ps_tables schema) n")
  case (Some info)
  then have "(n, info) \<in> set (ps_tables schema)" by (rule map_of_SomeD)
  with assms have "plain n \<and> plainInfo info" by (auto simp: plainSchema_def list_all_iff)
  with Some show ?thesis by (auto simp: tableB_def intro: uses_ret)
qed (simp add: tableB_def uses_fail)

lemma uses_relationshipB:
  assumes "plainSchema schema" "optIdent relation"
  shows "uses S (relationshipB schema parent relation hint) (\<lambda>(r, rel) T. plainRel rel \<and> plain r \<and> isIdent r \<and> T = S)"
  using assms by (auto simp: relationshipB_def optIdent_def isIdent_plain split: option.split
      intro!: uses_fail uses_ret intro: resolve_plain)

section \<open>Fields, filters, order and paging\<close>

text \<open>\<open>in\<close> with an empty list is written as \<open>FALSE\<close>, without the column and the JSON keys bound for it.\<close>

definition condUsed :: "Condition \<Rightarrow> bool" where
  "condUsed c \<longleftrightarrow> \<not> (cd_op c = In \<and> inList (cd_value c) = [] \<and> fr_path (cd_field c) \<noteq> [])"

fun nodeUsed :: "FilterNode \<Rightarrow> bool" where
  "nodeUsed (Cond c) = condUsed c"
| "nodeUsed (Logic b n cs) = list_all nodeUsed cs"

definition operandsUsed :: "ParsedQuery \<Rightarrow> bool" where
  "operandsUsed q \<longleftrightarrow> list_all (\<lambda>(p, ns). list_all nodeUsed ns) (pq_filters q)"

lemma uses_pathSql: "uses (S \<union> set (refs e)) (pathSql e p) (adds S)"
proof (induction p arbitrary: e S)
  case Nil
  then show ?case by (auto simp: adds_def intro: uses_ret)
next
  case (Cons s p)
  obtain a k where s: "s = (a, k)" by fastforce
  have "set (refs (e @ arrowText a @ t)) = set (refs e) \<union> set (refs t)" for t
    by (cases a) (simp_all add: arrowText_def refs_append is_digit_def)
  with Cons.IH [of S "e @ arrowText a @ t" for t] show ?case
    unfolding s pathSql.simps
    by (intro uses_bind [OF uses_bindParam]) (simp add: adds_def Un_assoc)
qed

lemma uses_fieldSql:
  assumes "plain al" "fieldOk f"
  shows "uses S (fieldSql al info f) (\<lambda>t T. adds S t T \<and> (fr_path f = [] \<longrightarrow> refs t = []))"
proof -
  let ?e = "al @ js ''.'' @ quoted (fr_column f)"
  have p: "plain ?e" using assms by (simp add: fieldOk_def isIdent_plain)
  have e: "set (refs ?e) = {}" using refs_plain_Nil [OF p] by simp
  have "uses S (pathSql ?e (fr_path f)) (\<lambda>t T. adds S t T \<and> (fr_path f = [] \<longrightarrow> refs t = []))"
  proof (cases "fr_path f")
    case Nil
    then show ?thesis using refs_plain_Nil [OF p] by (auto simp: adds_def intro: uses_ret)
  next
    case Cons
    with uses_pathSql [of S ?e "fr_path f"] e show ?thesis by (simp only: Un_empty_right) simp
  qed
  then show ?thesis
    unfolding fieldSql_def assertColumn_def
    by (cases "fr_column f \<in> set (ti_columns info)") (simp_all only: if_True if_False bindB_ret bindB_fail uses_fail)
qed

lemma uses_binaryOp: "plain (js w) \<Longrightarrow> uses (S \<union> set (refs l)) (binaryOp l w v) (adds S)"
  unfolding binaryOp_def
  by (rule uses_bind [OF uses_bindParam], rule uses_ret)
    (auto simp: adds_def refs_append refs_plain refs_plain_Nil is_digit_def)

lemma uses_isOperand: "uses S (isOperand v) (\<lambda>t T. plain t \<and> T = S)"
  unfolding isOperand_def Let_def by (auto intro!: uses_ret uses_fail)

lemma plain_ftsFunction: "plain (ftsFunction f)"
  by (cases f) (simp_all add: ftsFunction_def)

lemma uses_ftsSql: "uses (S \<union> set (refs l)) (ftsSql l c) (adds S)"
proof -
  let ?call = "l @ js '' @@ '' @ ftsFunction (cd_op c) @ js ''(''"
  have call: "refs (?call @ x) = refs l @ refs x" for x
    using refs_plain [OF plain_ftsFunction] by (simp add: refs_append is_digit_def)
  have one: "uses (S \<union> set (refs l)) (bindB (bindParam (BText (cd_value c))) (\<lambda>v. ret (?call @ v @ js '')''))) (adds S)"
    by (rule uses_bind [OF uses_bindParam], rule uses_ret, unfold call adds_def)
      (auto simp: refs_append is_digit_def)
  have two: "uses (S \<union> set (refs l)) (bindB (bindParam (BText g)) (\<lambda>c'.
      bindB (bindParam (BText (cd_value c))) (\<lambda>v. ret (?call @ c' @ js ''::regconfig, '' @ v @ js '')'')))) (adds S)" for g
    by (rule uses_bind [OF uses_bindParam], rule uses_bind [OF uses_bindParam], rule uses_ret, unfold call adds_def)
      (auto simp: refs_append is_digit_def)
  show ?thesis
    using one two by (simp add: ftsSql_def Let_def split: option.split)
qed

lemma uses_operatorSql:
  assumes "cd_op c = In \<and> inList (cd_value c) = [] \<longrightarrow> refs l = []"
  shows "uses (S \<union> set (refs l)) (operatorSql l c) (adds S)"
proof (cases "cd_op c")
  case In
  have "uses (S \<union> set (refs l)) (bindB (mapB (\<lambda>v. bindParam (BText v)) (inList (cd_value c)))
      (\<lambda>ph. ret (l @ js '' IN ('' @ join (js '', '') ph @ js '')''))) (adds S)"
    by (rule uses_bind [OF uses_mapB], rule uses_bindParam, rule uses_ret)
      (auto simp: adds_def addsAll_def refs_append refs_join is_digit_def)
  with In assms show ?thesis by (auto simp: operatorSql_def Let_def adds_def intro!: uses_ret)
next
  case Is
  have "uses (S \<union> set (refs l)) (bindB (isOperand (cd_value c)) (\<lambda>v. ret (l @ js '' IS '' @ v))) (adds S)"
    by (rule uses_bind [OF uses_isOperand], rule uses_ret)
      (auto simp: adds_def refs_append refs_plain_Nil is_digit_def)
  with Is show ?thesis by (simp add: operatorSql_def)
qed (simp_all add: operatorSql_def uses_binaryOp uses_ftsSql)

lemma uses_conditionSql:
  assumes "plain al" "condOk c" "condUsed c"
  shows "uses S (conditionSql al info c) (adds S)"
  unfolding conditionSql_def
proof (rule uses_bind [OF uses_fieldSql])
  show "plain al" "fieldOk (cd_field c)" using assms by (simp_all add: condOk_def)
next
  fix l T assume l: "adds S l T \<and> (fr_path (cd_field c) = [] \<longrightarrow> refs l = [])"
  then have T: "T = S \<union> set (refs l)" and "cd_op c = In \<and> inList (cd_value c) = [] \<longrightarrow> refs l = []"
    using assms(3) by (auto simp: adds_def condUsed_def)
  from uses_operatorSql [OF this(2), of S]
  show "uses T (bindB (operatorSql l c) (\<lambda>sql. ret (if cd_negate c then js ''NOT ('' @ sql @ js '')'' else sql))) (adds S)"
    unfolding T by (rule uses_bind) (auto intro!: uses_ret simp: adds_def refs_append is_digit_def)
qed

lemma uses_filterSql:
  "plain al \<Longrightarrow> nodeOk n \<Longrightarrow> nodeUsed n \<Longrightarrow> uses S (filterSql al info n) (adds S)"
proof (induction n arbitrary: S)
  case (Cond c)
  then show ?case by (simp add: uses_conditionSql)
next
  case (Logic b n cs)
  then have "uses S (mapB (filterSql al info) cs) (addsAll S)"
    by (intro uses_mapB) (auto simp: list_all_iff)
  then show ?case
    unfolding filterSql.simps Let_def
    by (rule uses_bind) (cases b; cases n; auto intro!: uses_ret simp: adds_def addsAll_def refs_append refs_join is_digit_def)
qed

lemma filters_at:
  "queryOk q \<Longrightarrow> operandsUsed q \<Longrightarrow> map_of (pq_filters q) p = Some ns \<Longrightarrow> n \<in> set ns \<Longrightarrow> nodeOk n \<and> nodeUsed n"
  by (auto simp: queryOk_def operandsUsed_def list_all_iff dest!: map_of_SomeD)

lemma uses_buildWhere:
  assumes "plain al" "queryOk q" "operandsUsed q"
  shows "uses S (buildWhere al info q p) (adds S)"
proof (cases "map_of (pq_filters q) p")
  case (Some ns)
  have "uses S (mapB (filterSql al info) ns) (addsAll S)"
    using assms filters_at [OF assms(2,3) Some] by (intro uses_mapB uses_filterSql) auto
  then have "uses S (bindB (mapB (filterSql al info) ns) (\<lambda>parts. ret (join (js '' AND '') parts))) (adds S)"
    by (rule uses_bind) (auto intro!: uses_ret simp: adds_def addsAll_def refs_join is_digit_def)
  with Some show ?thesis by (simp add: buildWhere_def)
qed (auto simp: buildWhere_def adds_def intro: uses_ret)

lemma uses_orderTermSql:
  assumes "plain al" "fieldOk (ot_field t)"
  shows "uses S (orderTermSql pg al info t) (adds S)"
  unfolding orderTermSql_def
proof (rule uses_bind [OF uses_fieldSql [OF assms]])
  have "plain (nullsText pg t)" by (simp add: nullsText_def split: option.split Nulls.split)
  then have "refs ((if ot_desc t then js ''DESC'' else js ''ASC'') @ js '' '' @ nullsText pg t) = []"
    by (intro refs_plain_Nil) simp
  then show "uses T (ret (e @ js '' '' @ (if ot_desc t then js ''DESC'' else js ''ASC'') @ js '' '' @ nullsText pg t)) (adds S)"
    if "adds S e T \<and> (fr_path (ot_field t) = [] \<longrightarrow> refs e = [])" for e T
    using that by (intro uses_ret) (simp add: adds_def refs_append is_digit_def)
qed

lemma uses_buildOrder:
  assumes "plain al" "queryOk q"
  shows "uses S (buildOrder pg al info q p) (adds S)"
proof (cases "map_of (pq_order q) p")
  case (Some ts)
  then have "\<forall>t\<in>set ts. fieldOk (ot_field t)"
    using assms(2) by (auto simp: queryOk_def list_all_iff dest!: map_of_SomeD)
  then have "uses S (mapB (orderTermSql pg al info) ts) (addsAll S)"
    using assms(1) by (intro uses_mapB uses_orderTermSql) auto
  then have "uses S (bindB (mapB (orderTermSql pg al info) ts) (\<lambda>parts. ret (join (js '', '') parts))) (adds S)"
    by (rule uses_bind) (auto intro!: uses_ret simp: adds_def addsAll_def refs_join is_digit_def)
  with Some show ?thesis by (simp add: buildOrder_def)
qed (auto simp: buildOrder_def adds_def intro: uses_ret)

lemma uses_pagingPart: "plain (js w) \<Longrightarrow> uses S (pagingPart w n) (addsAll S)"
proof (cases n)
  case (Some m)
  assume "plain (js w)"
  then have "uses S (bindB (bindParam (BNum m)) (\<lambda>p. ret [js w @ js '' '' @ p])) (addsAll S)"
    by (intro uses_bind [OF uses_bindParam] uses_ret) (simp add: adds_def addsAll_def refs_plain)
  with Some show ?thesis by (simp add: pagingPart_def)
qed (auto simp: pagingPart_def addsAll_def intro: uses_ret)

lemma uses_buildPaging: "uses S (buildPaging q p) (adds S)"
  unfolding buildPaging_def
  by (rule uses_bind [OF uses_pagingPart], simp, rule uses_bind [OF uses_pagingPart], simp, rule uses_ret)
    (auto simp: adds_def addsAll_def refs_join is_digit_def)

section \<open>Embeds and statements\<close>

lemma plain_textAt: "list_all plain xs \<Longrightarrow> plain (textAt xs i) \<and> plain (textAtOr0 xs i)"
proof -
  assume xs: "list_all plain xs"
  have "plain (textAt xs j)" for j
    using xs by (auto simp: textAt_def nth_opt_def list_all_length)
  with xs show ?thesis by (auto simp: textAtOr0_def nth_opt_def list_all_length)
qed

lemma plain_col: "plain (col al c) \<longleftrightarrow> plain al \<and> plain c"
  by (simp add: col_def)

lemma plain_equations:
  assumes "\<And>x i. x \<in> set xs \<Longrightarrow> plain (fst (sides x i)) \<and> plain (snd (sides x i))"
  shows "plain (equations sides xs)"
  unfolding equations_def
proof (rule plain_join)
  show "list_all plain (map (\<lambda>(i, x). fst (sides x i) @ js '' = '' @ snd (sides x i)) (enumerate 0 xs))"
    using assms by (auto simp: list_all_iff in_set_enumerate_eq)
qed simp

lemma plain_embedJoin: "plainRel rel \<Longrightarrow> plain a \<Longrightarrow> plain c \<Longrightarrow> plain (embedJoin rel a c)"
  by (auto simp: embedJoin_def plainRel_def plain_col plain_textAt list_all_iff split: option.split intro!: plain_equations)

lemma plain_junctionFrom: "plainRel rel \<Longrightarrow> plain a \<Longrightarrow> plain (junctionFrom rel a)"
  by (auto simp: junctionFrom_def plainRel_def plain_col plain_textAt list_all_iff split: option.split intro!: plain_equations)

lemma refs_clause: "plain (js w) \<Longrightarrow> refs (clause w body) = refs body"
  by (simp add: clause_def refs_plain)

lemma refs_existsSql:
  "plain r \<Longrightarrow> plain al \<Longrightarrow> plain j \<Longrightarrow> set (refs (existsSql r al j conditions)) = set (refs conditions)"
proof -
  assume p: "plain r" "plain al" "plain j"
  let ?h = "js ''EXISTS (SELECT 1 FROM '' @ quoted r @ js '' '' @ al @ clause '' '' j"
  have "plain ?h" using p by (simp add: clause_def)
  then have "refs (?h @ clause '' WHERE '' conditions @ js '')'') = refs (clause '' WHERE '' conditions @ js '')'')"
    by (rule refs_plain)
  then show ?thesis
    unfolding existsSql_def by (simp add: refs_append refs_clause is_digit_def)
qed

lemma refs_embedQuery:
  assumes "plain r" "plain al" "plain j"
  shows "set (refs (embedQuery cols r al j conditions order paging)) =
    (\<Union>c\<in>set cols. set (refs c)) \<union> set (refs conditions) \<union> set (refs order) \<union> set (refs paging)"
proof -
  have "plain (js ''FROM '' @ quoted r @ js '' '' @ al)" using assms by simp
  from refs_plain_Nil [OF this] refs_plain_Nil [OF assms(3)] show ?thesis
    unfolding embedQuery_def
    by (subst refs_joinNonEmpty) (auto simp: refs_join refs_clause is_digit_def)
qed

lemma refs_embedResult:
  assumes "plain al" "plain label"
  shows "set (refs (embedResult card' al inner label)) = set (refs inner)"
proof -
  have t: "plain (js '') '' @ al @ js '') AS '' @ quoted label)" using assms by simp
  have "set (refs (h @ inner @ js '') '' @ al @ js '') AS '' @ quoted label)) = set (refs inner)" if "plain h" for h
    using refs_plain [OF that] refs_append [of "js '') '' @ al @ js '') AS '' @ quoted label" inner] refs_plain_Nil [OF t]
    by (simp add: is_digit_def)
  from this [of "js ''(SELECT row_to_json('' @ al @ js '') FROM (''"]
    this [of "js ''(SELECT COALESCE(json_agg('' @ al @ js ''), '' @ [39] @ js ''[]'' @ [39] @ js ''::json) FROM (''"]
  show ?thesis using assms unfolding embedResult_def by simp
qed

lemma refs_joinAnd: "plain (hd (xs @ [[]])) \<Longrightarrow> set (refs (joinNonEmpty '' AND '' xs)) = (\<Union>x\<in>set (tl xs). set (refs x))"
  by (cases xs) (auto simp: refs_joinNonEmpty is_digit_def refs_plain_Nil)

definition addsSel :: "nat set \<Rightarrow> jstr list \<times> jstr list \<Rightarrow> nat set \<Rightarrow> bool" where
  "addsSel S r T \<longleftrightarrow> addsAll S (fst r) T \<and> (\<forall>p\<in>set (snd r). set (refs p) \<subseteq> (\<Union>c\<in>set (fst r). set (refs c)))"

definition addsItem :: "nat set \<Rightarrow> jstr \<times> jstr list \<Rightarrow> nat set \<Rightarrow> bool" where
  "addsItem S r T \<longleftrightarrow> adds S (fst r) T \<and> (\<forall>p\<in>set (snd r). set (refs p) \<subseteq> set (refs (fst r)))"

lemma uses_columnSql:
  assumes "plain al" "fieldOk f" "optIdent lb" "optIdent t"
  shows "uses S (columnSql al info f lb t) (adds S)"
  unfolding columnSql_def
proof (rule uses_bind [OF uses_fieldSql [OF assms(1,2)]])
  fix e T assume e: "adds S e T \<and> (fr_path f = [] \<longrightarrow> refs e = [])"
  have l: "plain (js '' AS '' @ quoted (labelOf lb (fr_column f)))"
    using assms by (auto simp: labelOf_def fieldOk_def optIdent_def isIdent_plain split: option.splits)
  have "refs ((case t of Some t \<Rightarrow> if t = [] then e else js ''('' @ e @ js '')::'' @ quoted t | None \<Rightarrow> e)) = refs e"
    using assms(4) by (auto simp: optIdent_def isIdent_plain refs_append refs_plain refs_plain_Nil is_digit_def split: option.splits)
  then have "refs ((case t of Some t \<Rightarrow> if t = [] then e else js ''('' @ e @ js '')::'' @ quoted t | None \<Rightarrow> e) @
      js '' AS '' @ quoted (labelOf lb (fr_column f))) = refs e"
    using refs_plain_Nil [OF l] by (subst refs_append) (auto simp: is_digit_def)
  then show "uses T (ret ((case t of Some t \<Rightarrow> if t = [] then e else js ''('' @ e @ js '')::'' @ quoted t | None \<Rightarrow> e) @
      js '' AS '' @ quoted (labelOf lb (fr_column f)))) (adds S)"
    using e by (intro uses_ret) (simp only: adds_def)
qed

lemma uses_buildSelect:
  "plainSchema schema \<Longrightarrow> queryOk query \<Longrightarrow> operandsUsed query \<Longrightarrow> plain al \<Longrightarrow> list_all selOk items \<Longrightarrow>
     uses S (buildSelectList schema pg table al info items query pre) (addsSel S)"
  "plainSchema schema \<Longrightarrow> queryOk query \<Longrightarrow> operandsUsed query \<Longrightarrow> plain al \<Longrightarrow> selOk item \<Longrightarrow>
     uses S (buildSelectItem schema pg table al info item query pre) (addsItem S)"
proof (induction schema pg table al info items query pre and schema pg table al info item query pre arbitrary: S and S
    rule: buildSelectList_buildSelectItem.induct)
  case (2 schema pg table al info item items query pre)
  then have item: "uses S (buildSelectItem schema pg table al info item query pre) (addsItem S)" for S by simp
  from 2 have items: "uses S (buildSelectList schema pg table al info items query pre) (addsSel S)" for S by simp
  show ?case
    unfolding buildSelectList.simps
  proof (rule uses_bind [OF item], clarify)
    fix e ps T assume e: "addsItem S (e, ps) T"
    show "uses T (bindB (buildSelectList schema pg table al info items query pre) (\<lambda>(es, qs). ret (e # es, ps @ qs))) (addsSel S)"
    proof (rule uses_bind [OF items], clarify)
      fix es qs U assume "addsSel T (es, qs) U"
      with e show "uses U (ret (e # es, ps @ qs)) (addsSel S)"
        by (intro uses_ret) (fastforce simp: addsItem_def addsSel_def adds_def addsAll_def)
    qed
  qed
next
  case (4 schema pg table al info field lb cast query pre)
  then have "uses S (columnSql al info field lb cast) (adds S)" by (intro uses_columnSql) simp_all
  then show ?case
    unfolding buildSelectItem.simps by (rule uses_bind) (auto intro!: uses_ret simp: addsItem_def)
next
  case (5 schema pg table al info relation lb hint isInner sub query pre)
  have sel: "optIdent relation" "optIdent lb" "list_all selOk sub" using "5.prems" by simp_all
  have sub: "uses T (buildSelectList schema pg r ca ci sub query (childPathOf pre (labelOf lb r))) (addsSel T)" if "plain ca" for r ca ci T
    using "5.IH" [OF refl refl "5.prems"(1-3) that sel(3)] .
  show ?case
    unfolding buildSelectItem.simps Let_def
  proof (rule uses_bind [OF uses_relationshipB [OF "5.prems"(1) sel(1)]], clarify)
    fix r rel assume rel: "plainRel rel" "plain r" "isIdent r"
    let ?p = "childPathOf pre (labelOf lb r)"
    have label: "plain (labelOf lb r)" using rel sel by (auto simp: labelOf_def optIdent_def isIdent_plain split: option.split)
    show "uses S (bindB (tableB schema r) (\<lambda>childInfo. bindB nextAlias (\<lambda>childAlias.
       bindB (buildSelectList schema pg r childAlias childInfo sub query ?p) (\<lambda>(cols, nestedInner).
       bindB (buildWhere childAlias childInfo query ?p) (\<lambda>embedWhere.
       bindB (buildOrder pg childAlias childInfo query ?p) (\<lambda>order.
       bindB (buildPaging query ?p) (\<lambda>paging.
       bindB nextAlias (\<lambda>rowAlias.
         ret (embedResult (rl_cardinality rel) rowAlias
              (embedQuery cols r childAlias (junctionFrom rel al)
                (joinNonEmpty '' AND '' (embedJoin rel al childAlias # embedWhere # nestedInner)) order paging) (labelOf lb r),
            if isInner then [existsSql r childAlias (junctionFrom rel al)
                (joinNonEmpty '' AND '' (embedJoin rel al childAlias # embedWhere # nestedInner))] else []))))))))) (addsItem S)"
    proof (rule uses_bind [OF uses_tableB [OF "5.prems"(1)]], clarify, rule uses_bind [OF uses_nextAlias], clarify,
        rule uses_bind [OF sub], assumption, clarify, rule uses_bind [OF uses_buildWhere], assumption, rule "5.prems", rule "5.prems",
        rule uses_bind [OF uses_buildOrder], assumption, rule "5.prems", rule uses_bind [OF uses_buildPaging],
        rule uses_bind [OF uses_nextAlias], clarify, rule uses_ret)
      fix ca cols nested T w U ord V pag W ra
      assume ca: "plain ca" "plain ra" and T: "addsSel S (cols, nested) T" and U: "adds T w U" and V: "adds U ord V" and W: "adds V pag W"
      let ?c = "joinNonEmpty '' AND '' (embedJoin rel al ca # w # nested)"
      have j: "plain (embedJoin rel al ca)" "plain (junctionFrom rel al)"
        using rel ca "5.prems" by (simp_all add: plain_embedJoin plain_junctionFrom)
      have c: "set (refs ?c) = set (refs w) \<union> (\<Union>x\<in>set nested. set (refs x))" using j by (simp add: refs_joinAnd)
      have q: "set (refs (embedQuery cols r ca (junctionFrom rel al) ?c ord pag)) =
          (\<Union>c\<in>set cols. set (refs c)) \<union> set (refs w) \<union> set (refs ord) \<union> set (refs pag)"
        using refs_embedQuery [OF rel(2) ca(1) j(2), of cols ?c ord pag] c T by (auto simp: addsSel_def)
      have x: "set (refs (existsSql r ca (junctionFrom rel al) ?c)) \<subseteq> (\<Union>c\<in>set cols. set (refs c)) \<union> set (refs w)"
        using refs_existsSql [OF rel(2) ca(1) j(2), of ?c] c T by (auto simp: addsSel_def)
      show "addsItem S (embedResult (rl_cardinality rel) ra (embedQuery cols r ca (junctionFrom rel al) ?c ord pag) (labelOf lb r),
          if isInner then [existsSql r ca (junctionFrom rel al) ?c] else []) W"
        using T U V W x q refs_embedResult [OF ca(2) label]
        by (auto simp: addsItem_def addsSel_def adds_def addsAll_def)
    qed
  qed
qed (auto intro!: uses_ret simp: addsSel_def addsAll_def addsItem_def adds_def refs_append refs_plain_Nil is_digit_def)

lemma uses_innerPredicates:
  "plainSchema schema \<Longrightarrow> queryOk query \<Longrightarrow> operandsUsed query \<Longrightarrow> plain al \<Longrightarrow> list_all selOk items \<Longrightarrow>
     uses S (innerPredicates schema table al items query pre) (addsAll S)"
  "plainSchema schema \<Longrightarrow> queryOk query \<Longrightarrow> operandsUsed query \<Longrightarrow> plain al \<Longrightarrow> selOk item \<Longrightarrow>
     uses S (innerPredicate schema table al item query pre) (addsAll S)"
proof (induction schema table al items query pre and schema table al item query pre arbitrary: S and S
    rule: innerPredicates_innerPredicate.induct)
  case (2 schema table al item items query pre)
  then have item: "uses S (innerPredicate schema table al item query pre) (addsAll S)" for S by simp
  from 2 have items: "uses S (innerPredicates schema table al items query pre) (addsAll S)" for S by simp
  show ?case
    unfolding innerPredicates.simps
    by (rule uses_bind [OF item], rule uses_bind [OF items], rule uses_ret) (auto simp: addsAll_def)
next
  case (5 schema table al relation lb hint isInner sub query pre)
  have sel: "optIdent relation" "list_all selOk sub" using "5.prems" by simp_all
  show ?case
  proof (cases isInner)
    case False
    then show ?thesis by (auto intro!: uses_ret simp: addsAll_def)
  next
    case True
    have sub: "uses T (innerPredicates schema r ca sub query (childPathOf pre (labelOf lb r))) (addsAll T)" if "plain ca" for r ca T
      using "5.IH" [OF _ refl "5.prems"(1-3) that sel(2)] True by simp
    show ?thesis
      unfolding innerPredicate.simps Let_def if_not_P [OF not_not [THEN iffD2, OF True]]
    proof (rule uses_bind [OF uses_relationshipB [OF "5.prems"(1) sel(1)]], clarify,
        rule uses_bind [OF uses_tableB [OF "5.prems"(1)]], clarify, rule uses_bind [OF uses_nextAlias], clarify,
        rule uses_bind [OF uses_buildWhere], assumption, rule "5.prems", rule "5.prems",
        rule uses_bind [OF sub], assumption, rule uses_ret)
      fix r rel ca w T nested U
      assume rel: "plainRel rel" "plain r" "isIdent r" and ca: "plain ca" and T: "adds S w T" and U: "addsAll T nested U"
      have j: "plain (embedJoin rel al ca)" "plain (junctionFrom rel al)"
        using rel ca "5.prems" by (simp_all add: plain_embedJoin plain_junctionFrom)
      show "addsAll S [existsSql r ca (junctionFrom rel al) (joinNonEmpty '' AND '' (embedJoin rel al ca # w # nested))] U"
        using T U j refs_existsSql [OF rel(2) ca j(2)] refs_joinAnd [of "embedJoin rel al ca # w # nested"]
        by (auto simp: addsAll_def adds_def)
    qed
  qed
qed (auto intro!: uses_ret simp: addsAll_def)

lemma refs_selectText:
  assumes "plain source" "plain al"
  shows "set (refs (selectText cols source al conditions order paging)) =
    (\<Union>c\<in>set cols. set (refs c)) \<union> set (refs conditions) \<union> set (refs order) \<union> set (refs paging)"
proof -
  have "plain (js ''FROM '' @ source @ js '' '' @ al)" using assms by simp
  from refs_plain_Nil [OF this] show ?thesis
    unfolding selectText_def
    by (subst refs_joinNonEmpty) (auto simp: refs_join refs_clause is_digit_def)
qed

lemma refs_rootAnd: "set (refs (joinNonEmpty '' AND '' xs)) = (\<Union>x\<in>set xs. set (refs x))"
  by (simp add: refs_joinNonEmpty is_digit_def)

lemma uses_build:
  assumes "plainSchema schema" "queryOk q" "operandsUsed q"
  shows "uses {} (build schema pg table q) (adds {})"
proof -
  have sel: "list_all selOk (pq_select q)" using assms(2) by (simp add: queryOk_def)
  show ?thesis
    unfolding build_def buildSelectBody_def Let_def option.case if_False
  proof (rule uses_bind [OF uses_tableB [OF assms(1)]], clarify, rule uses_bind [OF uses_nextAlias], clarify,
      rule uses_bind [OF uses_buildSelect(1) [OF assms _ sel]], assumption, clarify,
      rule uses_bind [OF uses_buildWhere [OF _ assms(2,3)]], assumption,
      rule uses_bind [OF uses_buildOrder [OF _ assms(2)]], assumption, rule uses_bind [OF uses_buildPaging], rule uses_ret)
    fix info al cols inner T w U ord V pag W
    assume n: "plain table" "plain al" and T: "addsSel {} (cols, inner) T" and U: "adds T w U" and V: "adds U ord V" and W: "adds V pag W"
    have q: "plain (quoted table)" using n by simp
    show "adds {} (selectText cols (quoted table) al (joinNonEmpty '' AND '' (w # inner)) ord pag) W"
      unfolding adds_def refs_selectText [OF q n(2)] refs_rootAnd
      using T U V W by (auto simp: addsSel_def adds_def addsAll_def)
  qed
qed

lemma uses_buildCount:
  assumes "plainSchema schema" "queryOk q" "operandsUsed q"
  shows "uses {} (buildCount schema table q) (adds {})"
proof -
  have sel: "list_all selOk (pq_select q)" using assms(2) by (simp add: queryOk_def)
  show ?thesis
    unfolding buildCount_def
  proof (rule uses_bind [OF uses_tableB [OF assms(1)]], clarify, rule uses_bind [OF uses_nextAlias], clarify,
      rule uses_bind [OF uses_buildWhere [OF _ assms(2,3)]], assumption,
      rule uses_bind [OF uses_innerPredicates(1) [OF assms _ sel]], assumption, rule uses_ret)
    fix info al w T inner U
    assume n: "plain table" "plain al" and T: "adds {} w T" and U: "addsAll T inner U"
    have "plain (js ''SELECT COUNT(*)::int AS total FROM '' @ quoted table @ js '' '' @ al)" using n by simp
    from refs_plain_Nil [OF this] show "adds {} (joinNonEmpty '' '' [js ''SELECT COUNT(*)::int AS total FROM '' @ quoted table @ js '' '' @ al,
        clause ''WHERE '' (joinNonEmpty '' AND '' (w # inner))]) U"
      using T U unfolding adds_def addsAll_def
      by (subst refs_joinNonEmpty) (auto simp: refs_clause refs_rootAnd is_digit_def)
  qed
qed

lemma uses_buildWriteWhere:
  assumes "plainSchema schema" "queryOk q" "operandsUsed q"
  shows "uses {} (buildWriteWhere schema table q) (\<lambda>(al, w) T. adds {} w T)"
  unfolding buildWriteWhere_def
  by (rule uses_bind [OF uses_tableB [OF assms(1)]], clarify, rule uses_bind [OF uses_nextAlias], clarify,
      rule uses_bind [OF uses_buildWhere [OF _ assms(2,3)]], assumption, rule uses_ret) simp

lemma uses_newBuilder: "uses {} m Q \<Longrightarrow> m newBuilder = Inr (a, b) \<Longrightarrow> Q a {1..length (bs_params b)}"
proof -
  assume "uses {} m Q" "m newBuilder = Inr (a, b)"
  then have "Q a {length (bs_params newBuilder) <.. length (bs_params b)}" by (auto simp: uses_def)
  moreover have "{length (bs_params newBuilder) <.. length (bs_params b)} = {1..length (bs_params b)}"
    by (auto simp: newBuilder_def)
  ultimately show ?thesis by simp
qed


definition countedInput :: "(jstr \<times> QVal) list" where
  "countedInput = [(js ''select'', QOne (js ''id,author:users!inner(name)'')), (js ''data->>k'', QOne (js ''eq.1'')),
     (js ''author.age'', QOne (js ''in.(1,2)''))]"


text \<open>An empty \<open>in\<close> list on a JSON path binds the key and then leaves it out of the text.\<close>

lemma empty_in_binds_an_unused_key:
  "case build blogSchema True (js ''posts'') (projr (parseQuery [(js ''data->>k'', QOne (js ''in.()''))])) newBuilder of
     Inr (sql, b) \<Rightarrow> 1 \<notin> set (refs sql) \<and> length (bs_params b) = 2 | Inl e \<Rightarrow> False"
  by code_simp

end
