(* ===== verification/RestErrors.thy ===== *)
theory RestErrors
  imports RestSql
begin

text \<open>
  The error contract of the REST data API, \<open>modules/projects/postgrest/errors.ts\<close>: the HTTP status of a
  parse failure and of a database error, and what the parser and the builder can fail with.
\<close>

section \<open>Bodies and statuses\<close>

record ErrorBody =
  eb_code :: jstr
  eb_message :: jstr
  eb_details :: "jstr option"
  eb_hint :: "jstr option"

record PostgrestHttpError =
  he_status :: int
  he_body :: ErrorBody

definition postgrestBody :: "jstr \<Rightarrow> jstr \<Rightarrow> jstr option \<Rightarrow> jstr option \<Rightarrow> ErrorBody" where
  "postgrestBody code message details hint = \<lparr>eb_code = code, eb_message = message, eb_details = details, eb_hint = hint\<rparr>"

definition PGRST_STATUS :: "(jstr \<times> int) list" where
  "PGRST_STATUS = map (\<lambda>(c, n). (js c, n))
    [(''PGRST100'', 400), (''PGRST102'', 400), (''PGRST103'', 416), (''PGRST105'', 405), (''PGRST106'', 406),
     (''PGRST107'', 415), (''PGRST108'', 400), (''PGRST111'', 500), (''PGRST112'', 500), (''PGRST116'', 406),
     (''PGRST117'', 405), (''PGRST118'', 400), (''PGRST200'', 400), (''PGRST201'', 300), (''PGRST202'', 404),
     (''PGRST203'', 300), (''PGRST204'', 400), (''PGRST205'', 404), (''PGRST300'', 500), (''PGRST301'', 401),
     (''PGRST302'', 401)]"

definition statusOfClass :: "jstr \<Rightarrow> int" where
  "statusOfClass cls =
     (if cls \<in> set (map js [''08'', ''53'']) then 503
      else if cls = js ''54'' then 413
      else if cls \<in> set (map js [''0L'', ''0P'', ''28'']) then 403
      else if cls \<in> set (map js [''09'', ''25'', ''2D'', ''38'', ''39'', ''3B'', ''40'', ''55'', ''57'', ''58'', ''F0'', ''HV'', ''P0'', ''XX'']) then 500
      else 400)"

definition sqlstateStatus :: "jstr option \<Rightarrow> jstr option \<Rightarrow> int" where
  "sqlstateStatus code role =
     (case code of
        None \<Rightarrow> 500
      | Some c \<Rightarrow>
          if c = [] then 500
          else if c = js ''42P01'' \<or> c = js ''42883'' then 404
          else if c = js ''23503'' \<or> c = js ''23505'' then 409
          else if c = js ''42501'' then (if role = Some (js ''anon'') then 401 else 403)
          else if c = js ''25006'' then 405
          else if c = js ''P0001'' then 400
          else if c = js ''42P17'' then 500
          else statusOfClass (take 2 c))"

text \<open>
  What a handler may have caught: an HTTP exception, an object with the fields node-postgres sets (each may
  be missing), or anything else.
\<close>

datatype Thrown =
    ThrownHttp PostgrestHttpError
  | ThrownObject "jstr option" jstr "jstr option" "jstr option"
  | ThrownOther

definition isPgError :: "Thrown \<Rightarrow> bool" where
  "isPgError e =
     (case e of
        ThrownObject (Some code) _ _ _ \<Rightarrow> length code = 5 \<and> list_all (\<lambda>c. is_digit c \<or> (65 \<le> c \<and> c \<le> 90)) code
      | _ \<Rightarrow> False)"

definition pgToPostgrest :: "Thrown \<Rightarrow> jstr option \<Rightarrow> Thrown" where
  "pgToPostgrest e role =
     (case e of
        ThrownObject code message detail hint \<Rightarrow>
          if isPgError e
          then ThrownHttp \<lparr>he_status = sqlstateStatus code role,
                 he_body = postgrestBody (case code of Some c \<Rightarrow> c | None \<Rightarrow> []) message detail hint\<rparr>
          else e
      | _ \<Rightarrow> e)"

definition parseErrorToPostgrest :: "jstr \<Rightarrow> jstr option \<Rightarrow> jstr \<Rightarrow> PostgrestHttpError" where
  "parseErrorToPostgrest message details code =
     \<lparr>he_status = (case map_of PGRST_STATUS code of Some s \<Rightarrow> s | None \<Rightarrow> 400),
      he_body = postgrestBody code message details None\<rparr>"

definition notAcceptableObject :: "nat \<Rightarrow> PostgrestHttpError" where
  "notAcceptableObject n =
     \<lparr>he_status = 406,
      he_body = postgrestBody (js ''PGRST116'') (js ''JSON object requested, multiple (or no) rows returned'')
        (Some (if n = 0 then js ''The result contains 0 rows'' else show_nat n @ js '' rows'')) None\<rparr>"

section \<open>What the parser can fail with\<close>

definition parseFails :: "ParseError + 'a \<Rightarrow> bool" where
  "parseFails r \<longleftrightarrow> (\<forall>e. r = Inl e \<longrightarrow> (\<exists>m. e = parseErr m))"

named_theorems fails_intros \<open>failures of composed code\<close>

lemma parseFails_Inr [fails_intros]: "parseFails (Inr a)"
  by (simp add: parseFails_def)

lemma parseFails_parseErr [fails_intros]: "parseFails (Inl (parseErr m))"
  by (auto simp: parseFails_def)

lemma parseFails_bindr [fails_intros]: "parseFails r \<Longrightarrow> (\<And>a. r = Inr a \<Longrightarrow> parseFails (f a)) \<Longrightarrow> parseFails (bindr r f)"
  by (cases r) (auto simp: parseFails_def)

lemma parseFails_mapr [fails_intros]: "(\<And>x. x \<in> set xs \<Longrightarrow> parseFails (f x)) \<Longrightarrow> parseFails (mapr f xs)"
  by (induction xs) (auto intro!: fails_intros)

lemma parseFails_assertIdent [fails_intros]: "parseFails (assertIdent n w)"
  by (simp add: assertIdent_def fails_intros)

lemma parseFails_jsonSteps [fails_intros]: "parseFails (jsonSteps raw ss)"
  by (induction raw ss rule: jsonSteps.induct) (auto intro!: fails_intros)

lemma parseFails_parseFieldRef [fails_intros]: "parseFails (parseFieldRef raw)"
  unfolding parseFieldRef_def Let_def by (intro fails_intros)

lemma parseFails_parseConditionValue [fails_intros]: "parseFails (parseConditionValue c v)"
  unfolding parseConditionValue_def Let_def by (auto intro!: fails_intros split: prod.split option.split)

lemma parseFails_parseTriple [fails_intros]: "parseFails (parseTriple t r)"
  unfolding parseTriple_def by (auto intro!: fails_intros split: option.split)

lemma parseFails_parseLogic [fails_intros]: "parseFails (parseLogicChildren body)" "parseFails (parseLogicNode token)"
proof (induction body and token rule: parseLogicChildren_parseLogicNode.induct)
  case (1 body)
  then show ?case unfolding parseLogicChildren.simps by (intro fails_intros) blast
next
  case (2 token)
  then show ?case unfolding parseLogicNode.simps by (auto intro!: fails_intros split: option.split)
qed

lemma parseFails_parseAlias [fails_intros]: "parseFails (parseAlias t)"
  unfolding parseAlias_def by (auto intro!: fails_intros split: option.split)

lemma parseFails_parseColumn [fails_intros]: "parseFails (parseColumn r a)"
  unfolding parseColumn_def by (auto intro!: fails_intros split: option.split)

lemma parseFails_embedSegments [fails_intros]: "parseFails (embedSegments h i segs)"
  by (induction h i segs rule: embedSegments.induct) (auto intro!: fails_intros)

lemma parseFails_embedHead [fails_intros]: "parseFails (embedHead h)"
  unfolding embedHead_def by (auto intro!: fails_intros split: list.split)

lemma parseFails_parseSelect [fails_intros]: "parseFails (parseSelect input)" "parseFails (parseSelectItem token)"
proof (induction input and token rule: parseSelect_parseSelectItem.induct)
  case (1 input)
  show ?case
  proof (cases "js_trim input = []")
    case False
    have "parseFails (mapr (\<lambda>tok. parseSelectItem (js_trim tok)) (splitTopLevel input (ch CHR '','')))"
      using "1.IH" [OF False] by (intro fails_intros)
    then show ?thesis unfolding parseSelect.simps by (auto intro!: fails_intros)
  qed (simp add: parseSelect.simps fails_intros)
next
  case (2 token)
  show ?case
  proof (cases "token = js ''*''")
    case False
    have "parseFails (bindr (parseAlias token) (\<lambda>ar. case embedParts (snd ar) of
          Some hi \<Rightarrow> bindr (embedHead (fst hi)) (\<lambda>(relation, hint, inner).
            bindr (parseSelect (snd hi)) (\<lambda>sub. Inr (SelEmbed relation (fst ar) hint inner sub)))
        | None \<Rightarrow> parseColumn (snd ar) (fst ar)))"
      using "2.IH" [OF False] by (auto intro!: fails_intros split: option.split prod.split)
    with False show ?thesis unfolding parseSelectItem.simps by simp
  qed (simp add: parseSelectItem.simps fails_intros)
qed

lemma parseFails_orderModifiers [fails_intros]: "parseFails (orderModifiers d n segs)"
  by (induction d n segs rule: orderModifiers.induct) (auto intro!: fails_intros)

lemma parseFails_parseOrder [fails_intros]: "parseFails (parseOrder v)"
  unfolding parseOrder_def parseOrderTerm_def Let_def by (auto intro!: fails_intros)

lemma parseFails_adders [fails_intros]:
  "parseFails (addLogic p b vs q)" "parseFails (addOrders p vs q)" "parseFails (addConditions p c vs q)"
proof -
  show "parseFails (addLogic p b vs q)" by (induction p b vs q rule: addLogic.induct) (auto intro!: fails_intros)
  show "parseFails (addOrders p vs q)" by (induction p vs q rule: addOrders.induct) (auto intro!: fails_intros)
  show "parseFails (addConditions p c vs q)" by (induction p c vs q rule: addConditions.induct) (auto intro!: fails_intros)
qed

lemma parseFails_parseEntries [fails_intros]: "parseFails (parseEntries es q)"
proof (induction es q rule: parseEntries.induct)
  case (2 e es q)
  have "parseFails (parseEntry e q)"
    unfolding parseEntry_def Let_def by (auto intro!: fails_intros split: prod.split)
  with 2 show ?case by (auto intro!: fails_intros)
qed (simp add: fails_intros)

section \<open>What the builder can fail with\<close>

definition documentedCodes :: "jstr list" where
  "documentedCodes = map js [''PGRST100'', ''PGRST200'', ''PGRST204'', ''PGRST205'']"

definition documented :: "ParseError \<Rightarrow> bool" where
  "documented e \<longleftrightarrow> (\<exists>m d c. e = PostgrestParseError m d c \<and> c \<in> set documentedCodes)"

definition buildFails :: "'a build \<Rightarrow> bool" where
  "buildFails m \<longleftrightarrow> (\<forall>b e. m b = Inl e \<longrightarrow> documented e)"

lemma documented_parseErr: "documented (parseErr m)"
  by (simp add: documented_def parseErr_def documentedCodes_def)

lemma buildFails_ret [fails_intros]: "buildFails (ret a)"
  by (simp add: buildFails_def ret_def)

lemma buildFails_fail: "documented e \<Longrightarrow> buildFails (fail e)"
  by (simp add: buildFails_def fail_def)

lemma buildFails_bind [fails_intros]: "buildFails m \<Longrightarrow> (\<And>a. buildFails (f a)) \<Longrightarrow> buildFails (bindB m f)"
  by (auto simp: buildFails_def bindB_def bindr_eq_Inl)

lemma buildFails_split [fails_intros]: "(\<And>x y. buildFails (f x y)) \<Longrightarrow> buildFails (case p of (x, y) \<Rightarrow> f x y)"
  by (cases p) simp

lemma buildFails_mapB [fails_intros]: "(\<And>x. x \<in> set xs \<Longrightarrow> buildFails (f x)) \<Longrightarrow> buildFails (mapB f xs)"
  by (induction xs) (auto intro!: fails_intros)

lemma buildFails_primitive [fails_intros]: "buildFails (bindParam v)" "buildFails nextAlias"
  by (simp_all add: buildFails_def bindParam_def nextAlias_def)

lemma buildFails_tableB [fails_intros]: "buildFails (tableB schema n)"
  by (auto simp: tableB_def documented_def documentedCodes_def intro: fails_intros buildFails_fail split: option.split)

lemma buildFails_relationshipB [fails_intros]: "buildFails (relationshipB schema p r h)"
  by (auto simp: relationshipB_def noRelationship_def documented_def documentedCodes_def intro!: fails_intros buildFails_fail
      split: option.split)

lemma buildFails_pathSql [fails_intros]: "buildFails (pathSql e p)"
  by (induction e p rule: pathSql.induct) (auto intro!: fails_intros)

lemma buildFails_fieldSql [fails_intros]: "buildFails (fieldSql al info f)"
  unfolding fieldSql_def assertColumn_def
  by (intro fails_intros) (auto simp: documented_def documentedCodes_def intro: fails_intros buildFails_fail)

lemma buildFails_operatorSql [fails_intros]: "buildFails (operatorSql l c)"
proof -
  have "buildFails (binaryOp l w v)" for w v unfolding binaryOp_def by (intro fails_intros)
  moreover have "buildFails (ftsSql l c)" unfolding ftsSql_def Let_def by (auto intro!: fails_intros split: option.split)
  moreover have "buildFails (isOperand v)" for v
    unfolding isOperand_def Let_def by (auto intro!: fails_intros buildFails_fail documented_parseErr)
  ultimately show ?thesis
    by (cases "cd_op c") (auto simp: operatorSql_def Let_def intro!: fails_intros)
qed

lemma buildFails_filterSql [fails_intros]: "buildFails (filterSql al info n)"
  by (induction n) (auto simp: conditionSql_def Let_def intro!: fails_intros)

lemma buildFails_clauses [fails_intros]:
  "buildFails (buildWhere al info q p)" "buildFails (buildOrder pg al info q p)" "buildFails (buildPaging q p)"
  by (auto simp: buildWhere_def buildOrder_def orderTermSql_def buildPaging_def pagingPart_def intro!: fails_intros split: option.split)

lemma buildFails_buildSelect [fails_intros]:
  "buildFails (buildSelectList schema pg table al info items query pre)"
  "buildFails (buildSelectItem schema pg table al info item query pre)"
proof (induction schema pg table al info items query pre and schema pg table al info item query pre
    rule: buildSelectList_buildSelectItem.induct)
  case (5 schema pg table al info relation lb hint isInner sub query pre)
  show ?case unfolding buildSelectItem.simps Let_def by (intro fails_intros "5.IH" [OF refl refl])
qed (auto simp: columnSql_def intro!: fails_intros)

lemma buildFails_innerPredicates [fails_intros]:
  "buildFails (innerPredicates schema table al items query pre)"
  "buildFails (innerPredicate schema table al item query pre)"
proof (induction schema table al items query pre and schema table al item query pre
    rule: innerPredicates_innerPredicate.induct)
  case (5 schema table al relation lb hint isInner sub query pre)
  then show ?case by (cases isInner) (auto simp: Let_def intro!: fails_intros)
qed (auto intro!: fails_intros)

lemma buildFails_statements:
  "buildFails (build schema pg table q)" "buildFails (buildCount schema table q)" "buildFails (buildWriteWhere schema table q)"
  unfolding build_def buildSelectBody_def buildCount_def buildWriteWhere_def Let_def if_False by (intro fails_intros)+

lemma documented_status: "documented (PostgrestParseError m d c) \<Longrightarrow> map_of PGRST_STATUS c = Some (if c = js ''PGRST205'' then 404 else 400)"
proof -
  have "\<forall>c\<in>set documentedCodes. map_of PGRST_STATUS c = Some (if c = js ''PGRST205'' then 404 else 400)" by code_simp
  then show "documented (PostgrestParseError m d c) \<Longrightarrow> ?thesis" by (auto simp: documented_def)
qed

text \<open>
  A request that the parser or the builder refuses is answered with a client error.  The parser fails
  only with \<open>PGRST100\<close> (or, when \<open>select\<close> is sent twice, with the \<open>TypeError\<close> of calling a string method on
  an array), the builder only with \<open>PGRST100\<close>, \<open>200\<close>, \<open>204\<close> or \<open>205\<close>, and the response is 404 for an unknown
  relation and 400 otherwise, with the failure's own code and message.
\<close>

theorem refusals_are_client_errors:
  "(\<forall>e. parseQuery input = Inl e \<longrightarrow>
      (\<exists>m. e = parseErr m) \<or> (e = TypeErr \<and> (\<exists>vs. map_of input (js ''select'') = Some (QMany vs)))) \<and>
   (\<forall>e. build schema pg table q b = Inl e \<or> buildCount schema table q b = Inl e \<or> buildWriteWhere schema table q b = Inl e \<longrightarrow>
      (\<exists>m d c. e = PostgrestParseError m d c \<and> c \<in> set documentedCodes \<and>
         he_status (parseErrorToPostgrest m d c) = (if c = js ''PGRST205'' then 404 else 400) \<and>
         eb_code (he_body (parseErrorToPostgrest m d c)) = c \<and> eb_message (he_body (parseErrorToPostgrest m d c)) = m))"
proof (intro conjI allI impI)
  fix e assume e: "parseQuery input = Inl e"
  show "(\<exists>m. e = parseErr m) \<or> (e = TypeErr \<and> (\<exists>vs. map_of input (js ''select'') = Some (QMany vs)))"
  proof (cases "selectOf input")
    case (Inl e')
    with e have "selectOf input = Inl e" by (simp add: parseQuery_def)
    then show ?thesis using parseFails_parseSelect(1)
      by (auto simp: selectOf_def parseFails_def split: option.splits QVal.splits)
  next
    case (Inr s)
    with e show ?thesis using parseFails_parseEntries by (auto simp: parseQuery_def parseFails_def)
  qed
next
  fix e assume "build schema pg table q b = Inl e \<or> buildCount schema table q b = Inl e \<or> buildWriteWhere schema table q b = Inl e"
  then have d: "documented e" using buildFails_statements unfolding buildFails_def by blast
  then obtain m d c where e: "e = PostgrestParseError m d c" "c \<in> set documentedCodes" by (auto simp: documented_def)
  show "\<exists>m d c. e = PostgrestParseError m d c \<and> c \<in> set documentedCodes \<and>
         he_status (parseErrorToPostgrest m d c) = (if c = js ''PGRST205'' then 404 else 400) \<and>
         eb_code (he_body (parseErrorToPostgrest m d c)) = c \<and> eb_message (he_body (parseErrorToPostgrest m d c)) = m"
    using e documented_status d by (auto simp: parseErrorToPostgrest_def postgrestBody_def)
qed

theorem refusals_are_client_errors_witness:
  "\<exists>m d c. projl (buildCount blogSchema (js ''nope'') (projr (parseQuery [])) newBuilder) = PostgrestParseError m d c \<and>
     he_status (parseErrorToPostgrest m d c) \<in> {400, 404}"
proof -
  let ?r = "buildCount blogSchema (js ''nope'') (projr (parseQuery [])) newBuilder"
  have "isl ?r" by code_simp
  then have "?r = Inl (projl ?r)" by simp
  then show ?thesis
    using refusals_are_client_errors [of "[]" blogSchema True "js ''nope''" "projr (parseQuery [])" newBuilder] by (auto split: if_splits)
qed

text \<open>
  The status of a database error is one of nine error statuses, whatever the SQLSTATE: a failure is
  never reported as a success.  401 is kept for the anonymous role without permission, and an error that is
  already an HTTP exception passes through.
\<close>

theorem database_errors_are_errors:
  "sqlstateStatus code role \<in> {400, 401, 403, 404, 405, 409, 413, 500, 503} \<and>
   (sqlstateStatus code role = 401 \<longleftrightarrow> code = Some (js ''42501'') \<and> role = Some (js ''anon'')) \<and>
   pgToPostgrest (ThrownHttp h) role = ThrownHttp h"
proof (cases code)
  case None
  then show ?thesis by (simp add: sqlstateStatus_def pgToPostgrest_def)
next
  case (Some c)
  have k: "statusOfClass x \<in> {400, 403, 413, 500, 503}" for x by (simp add: statusOfClass_def)
  have "statusOfClass x \<noteq> 401" for x using k [of x] by auto
  then show ?thesis
    using k [of "take 2 c"] unfolding Some sqlstateStatus_def pgToPostgrest_def option.case Thrown.case
    by (cases "c = js ''42501''") auto
qed

end
