(* ===== verification/RestWire.thy ===== *)
theory RestWire
  imports RestParser
begin

text \<open>
  The wire format of the REST data API: the header grammars and paging headers of
  \<open>modules/projects/postgrest/compat.ts\<close>, and the choice of an overload and of the result shape for
  \<open>rpc/<fn>\<close> in \<open>rpc.ts\<close>.  A header is absent, one value or several.
\<close>

section \<open>Headers\<close>

type_synonym header = "QVal option"

text \<open>\<open>v[0] ?? ''\<close> and \<open>v ?? ''\<close>.\<close>

definition first :: "header \<Rightarrow> jstr" where
  "first v = (case v of None \<Rightarrow> [] | Some (QOne s) \<Rightarrow> s | Some (QMany ss) \<Rightarrow> (case ss of [] \<Rightarrow> [] | s # _ \<Rightarrow> s))"

datatype CompatMode = CAuto | COff | CAlways

text \<open>The parameter is the value of \<open>REST_SUPABASE_COMPAT\<close>.\<close>

definition compatMode :: "jstr option \<Rightarrow> CompatMode" where
  "compatMode env =
     (let raw = js_lower (case env of Some s \<Rightarrow> s | None \<Rightarrow> js ''auto'')
      in if raw = js ''off'' then COff else if raw = js ''always'' then CAlways else CAuto)"

text \<open>\<open>/^(supabase-(js|py|dart|swift|kt|csharp)|postgrest-(js|py|dart))/i\<close>.\<close>

definition CLIENT_INFO :: "jstr list" where
  "CLIENT_INFO = map js [''supabase-js'', ''supabase-py'', ''supabase-dart'', ''supabase-swift'', ''supabase-kt'',
     ''supabase-csharp'', ''postgrest-js'', ''postgrest-py'', ''postgrest-dart'']"

definition ascii_lower :: "jstr \<Rightarrow> jstr" where
  "ascii_lower s = map (\<lambda>c. if 65 \<le> c \<and> c \<le> 90 then c + 32 else c) s"

definition starts_with_i :: "jstr \<Rightarrow> jstr \<Rightarrow> bool" where
  "starts_with_i p s \<longleftrightarrow> starts_with p (ascii_lower s)"

record Headers =
  hd_clientInfo :: header
  hd_acceptProfile :: header
  hd_contentProfile :: header
  hd_accept :: header
  hd_compat :: header

definition isSupabaseCompat :: "jstr option \<Rightarrow> Headers \<Rightarrow> bool" where
  "isSupabaseCompat env h =
     (case compatMode env of
        COff \<Rightarrow> False
      | CAlways \<Rightarrow> True
      | CAuto \<Rightarrow>
          list_ex (\<lambda>p. starts_with_i p (first (hd_clientInfo h))) CLIENT_INFO \<or>
          hd_acceptProfile h \<noteq> None \<or> hd_contentProfile h \<noteq> None \<or>
          starts_with_i (js ''application/vnd.pgrst.'') (first (hd_accept h)) \<or>
          js_lower (first (hd_compat h)) = js ''postgrest'')"

section \<open>The Prefer header\<close>

record Prefer =
  pf_return :: "jstr option"
  pf_count :: "jstr option"
  pf_resolution :: "jstr option"
  pf_missing :: "jstr option"
  pf_params :: "jstr option"
  pf_raw :: "(jstr \<times> jstr) list"

definition oneOf :: "string list \<Rightarrow> jstr \<Rightarrow> jstr option \<Rightarrow> jstr option" where
  "oneOf allowed value old = (if value \<in> set (map js allowed) then Some value else old)"

definition setPreference :: "jstr \<Rightarrow> jstr \<Rightarrow> Prefer \<Rightarrow> Prefer" where
  "setPreference k value p =
     (let q = p\<lparr>pf_raw := setKey k value (pf_raw p)\<rparr> in
      if k = js ''return'' then q\<lparr>pf_return := oneOf [''minimal'', ''representation'', ''headers-only''] value (pf_return q)\<rparr>
      else if k = js ''count'' then q\<lparr>pf_count := oneOf [''exact'', ''planned'', ''estimated''] value (pf_count q)\<rparr>
      else if k = js ''resolution'' then q\<lparr>pf_resolution := oneOf [''merge-duplicates'', ''ignore-duplicates''] value (pf_resolution q)\<rparr>
      else if k = js ''missing'' then q\<lparr>pf_missing := oneOf [''default'', ''null''] value (pf_missing q)\<rparr>
      else if k = js ''params'' then q\<lparr>pf_params := oneOf [''single-object'', ''multiple-objects''] value (pf_params q)\<rparr>
      else q)"

definition preferPart :: "jstr \<Rightarrow> Prefer \<Rightarrow> Prefer" where
  "preferPart part p =
     (case index_of (ch CHR ''='') part of
        None \<Rightarrow> p
      | Some eq \<Rightarrow>
          (let k = js_lower (js_trim (take eq part)) in
           if k = [] then p else setPreference k (js_lower (js_trim (drop (Suc eq) part))) p))"

definition noPreference :: Prefer where
  "noPreference = \<lparr>pf_return = None, pf_count = None, pf_resolution = None, pf_missing = None, pf_params = None, pf_raw = []\<rparr>"

definition parsePrefer :: "header \<Rightarrow> Prefer" where
  "parsePrefer h =
     fold preferPart
       (split_on (ch CHR '','') (case h of None \<Rightarrow> [] | Some (QOne s) \<Rightarrow> s | Some (QMany ss) \<Rightarrow> join (js '','') ss))
       noPreference"

section \<open>Media types, ranges and profiles\<close>

definition OBJECT_MEDIA :: jstr where
  "OBJECT_MEDIA = js ''application/vnd.pgrst.object+json''"

definition ARRAY_MEDIA :: jstr where
  "ARRAY_MEDIA = js ''application/vnd.pgrst.array+json''"

definition wantsObject :: "header \<Rightarrow> bool" where
  "wantsObject accept = starts_with OBJECT_MEDIA (js_lower (js_trim (first accept)))"

definition acceptSupported :: "header \<Rightarrow> bool" where
  "acceptSupported accept =
     (let raw = js_trim (first accept) in
      raw = [] \<or>
      list_ex (\<lambda>part. js_lower (js_trim (hd (split_on (ch CHR '';'') part))) \<in>
                 set (map js [''*/*'', ''application/*'', ''application/json''] @ [OBJECT_MEDIA, ARRAY_MEDIA]))
        (split_on (ch CHR '','') raw))"

text \<open>\<open>/^(\d+)-(\d*)$/\<close>.\<close>

definition rangeParts :: "jstr \<Rightarrow> (jstr \<times> jstr) option" where
  "rangeParts raw =
     (let a = takeWhile is_digit raw; b = dropWhile is_digit raw in
      if a \<noteq> [] \<and> nth_opt b 0 = Some (ch CHR ''-'') \<and> list_all is_digit (tl b) then Some (a, tl b) else None)"

definition digitsInt :: "jstr \<Rightarrow> int" where
  "digitsInt d = foldl (\<lambda>a c. 10 * a + (c - 48)) 0 d"

text \<open>The offset and, unless the range is open, the limit.\<close>

definition parseRangeHeader :: "header \<Rightarrow> header \<Rightarrow> (int \<times> int option) option" where
  "parseRangeHeader rng rangeUnit =
     (let unit = js_lower (js_trim (first rangeUnit)); raw = js_trim (first rng) in
      if unit \<noteq> [] \<and> unit \<noteq> js ''items'' then None
      else if raw = [] then None
      else
        (case rangeParts (if starts_with_i (js ''items='') raw then drop 6 raw else raw) of
           None \<Rightarrow> None
         | Some (a, b) \<Rightarrow>
             (let offset = digitsInt a in
              if b = [] then Some (offset, None)
              else if digitsInt b < offset then None
              else Some (offset, Some (digitsInt b - offset + 1)))))"

definition show_int :: "int \<Rightarrow> jstr" where
  "show_int i = (if i < 0 then js ''-'' @ show_nat (nat (- i)) else show_nat (nat i))"

definition contentRange :: "int \<Rightarrow> int \<Rightarrow> int option \<Rightarrow> jstr" where
  "contentRange offset n tot =
     (let count = (case tot of None \<Rightarrow> js ''*'' | Some t \<Rightarrow> show_int t) in
      if n \<le> 0 then js ''*/'' @ count
      else show_int offset @ js ''-'' @ show_int (offset + n - 1) @ js ''/'' @ count)"

definition rangeStatus :: "int \<Rightarrow> int \<Rightarrow> int option \<Rightarrow> int" where
  "rangeStatus offset n tot =
     (case tot of None \<Rightarrow> 200 | Some t \<Rightarrow> if offset > 0 \<or> offset + n < t then 206 else 200)"

definition requestedProfile :: "Headers \<Rightarrow> jstr \<Rightarrow> jstr option" where
  "requestedProfile h meth =
     (let v = js_trim (first (if meth = js ''GET'' \<or> meth = js ''HEAD'' then hd_acceptProfile h else hd_contentProfile h))
      in if v = [] then None else Some v)"

definition stripDoubleQuotes :: "jstr \<Rightarrow> jstr" where
  "stripDoubleQuotes c =
     (let a = (if nth_opt c 0 = Some 34 then tl c else c) in if a \<noteq> [] \<and> last a = 34 then butlast a else a)"

definition parseColumnsParam :: "header \<Rightarrow> jstr list option" where
  "parseColumnsParam raw =
     (let text = js_trim (first raw) in
      if text = [] then None
      else Some (filter (\<lambda>c. c \<noteq> []) (map (\<lambda>c. stripDoubleQuotes (js_trim c)) (split_on (ch CHR '','') text))))"

section \<open>Choosing an overload\<close>

text \<open>An argument name or mode that the catalogue leaves null is \<open>None\<close>.\<close>

record FunctionMeta =
  fm_signature :: jstr
  fm_definer :: bool
  fm_argnames :: "jstr option list"
  fm_argmodes :: "jstr option list"
  fm_argtypes :: "jstr list"
  fm_pronargdefaults :: nat
  fm_proretset :: bool
  fm_typtype :: "jstr option"
  fm_typname :: "jstr option"
  fm_typrelid :: int

record RpcCall =
  rc_meta :: FunctionMeta
  rc_inputs :: "jstr list"
  rc_singleJson :: bool
  rc_jsonType :: jstr

definition INPUT_MODES :: "jstr list" where
  "INPUT_MODES = map js [''i'', ''b'', ''v'']"

definition orEmptyText :: "jstr option \<Rightarrow> jstr" where
  "orEmptyText n = (case n of Some s \<Rightarrow> s | None \<Rightarrow> [])"

definition modeAt :: "FunctionMeta \<Rightarrow> nat \<Rightarrow> jstr" where
  "modeAt meta i = (case nth_opt (fm_argmodes meta) i of Some (Some m) \<Rightarrow> m | _ \<Rightarrow> js ''i'')"

definition inputNames :: "FunctionMeta \<Rightarrow> jstr list" where
  "inputNames meta =
     (if fm_argmodes meta = [] then map orEmptyText (fm_argnames meta)
      else map (\<lambda>(i, n). orEmptyText n) (filter (\<lambda>(i, n). modeAt meta i \<in> set INPUT_MODES) (enumerate 0 (fm_argnames meta))))"

definition singleJsonType :: "FunctionMeta \<Rightarrow> jstr list \<Rightarrow> jstr option" where
  "singleJsonType meta inputs =
     (if length inputs \<noteq> 1 then None
      else case nth_opt (fm_argtypes meta) 0 of
             Some t \<Rightarrow> if t = js ''json'' \<or> t = js ''jsonb'' then Some t else None
           | None \<Rightarrow> None)"

definition candidateCall :: "bool \<Rightarrow> FunctionMeta \<Rightarrow> RpcCall" where
  "candidateCall singleObject meta =
     (let inputs = inputNames meta; json = singleJsonType meta inputs; unnamed = (inputs = [[]]) in
      \<lparr>rc_meta = meta, rc_inputs = inputs, rc_singleJson = (json \<noteq> None \<and> (singleObject \<or> unnamed)),
       rc_jsonType = (case json of Some t \<Rightarrow> t | None \<Rightarrow> js ''json'')\<rparr>)"

definition requiredInputs :: "RpcCall \<Rightarrow> jstr list" where
  "requiredInputs c = take (length (rc_inputs c) - fm_pronargdefaults (rc_meta c)) (rc_inputs c)"

definition callable :: "bool \<Rightarrow> jstr list \<Rightarrow> RpcCall \<Rightarrow> bool" where
  "callable strict keys c \<longleftrightarrow>
     rc_singleJson c \<or>
     (list_all (\<lambda>n. n \<in> set keys) (requiredInputs c) \<and> (strict \<longrightarrow> list_all (\<lambda>k. k \<in> set (rc_inputs c)) keys))"

definition score :: "jstr list \<Rightarrow> RpcCall \<Rightarrow> int" where
  "score keys c = (if rc_singleJson c then -1 else int (length (filter (\<lambda>n. n \<in> set keys) (rc_inputs c))))"

definition exactCall :: "jstr list \<Rightarrow> RpcCall \<Rightarrow> bool" where
  "exactCall keys c \<longleftrightarrow> \<not> rc_singleJson c \<and> length (rc_inputs c) = length keys \<and> list_all (\<lambda>k. k \<in> set (rc_inputs c)) keys"

definition compareCalls :: "jstr list \<Rightarrow> RpcCall \<Rightarrow> RpcCall \<Rightarrow> int" where
  "compareCalls keys a b =
     (if exactCall keys a \<noteq> exactCall keys b then (if exactCall keys a then -1 else 1)
      else score keys b - score keys a)"

text \<open>\<open>Array.prototype.sort\<close> is stable; for a consistent comparator every stable sort gives the same list.\<close>

fun insertBy :: "('a \<Rightarrow> 'a \<Rightarrow> int) \<Rightarrow> 'a \<Rightarrow> 'a list \<Rightarrow> 'a list" where
  "insertBy cmp x [] = [x]"
| "insertBy cmp x (y # ys) = (if cmp x y \<le> 0 then x # y # ys else y # insertBy cmp x ys)"

definition sortBy :: "('a \<Rightarrow> 'a \<Rightarrow> int) \<Rightarrow> 'a list \<Rightarrow> 'a list" where
  "sortBy cmp xs = foldr (insertBy cmp) xs []"

definition chooseOverload :: "FunctionMeta list \<Rightarrow> jstr list \<Rightarrow> bool \<Rightarrow> bool \<Rightarrow> RpcCall option" where
  "chooseOverload metas keys strict singleObject =
     (let calls = map (candidateCall singleObject) metas in
      if singleObject then find rc_singleJson calls
      else
        (let matching = filter (callable strict keys) calls in
         if matching = [] then None else Some (hd (sortBy (compareCalls keys) matching))))"

datatype CallShape = CVoid | CScalar | CComposite

definition callShape :: "FunctionMeta \<Rightarrow> CallShape" where
  "callShape meta =
     (if Some (js ''t'') \<in> set (fm_argmodes meta) \<or> (fm_proretset meta \<and> Some (js ''o'') \<in> set (fm_argmodes meta)) then CComposite
      else if fm_typname meta = Some (js ''void'') then CVoid
      else if fm_typtype meta = Some (js ''c'') then CComposite
      else if fm_typname meta = Some (js ''record'') then CComposite
      else if fm_typrelid meta \<noteq> 0 then CComposite
      else CScalar)"

section \<open>The chosen overload\<close>

lemma set_insertBy [simp]: "set (insertBy cmp x ys) = insert x (set ys)"
  by (induction ys) auto

lemma set_sortBy [simp]: "set (sortBy cmp xs) = set xs"
  unfolding sortBy_def by (induction xs) auto

lemma hd_sortBy:
  assumes total: "\<And>x y. cmp x y \<le> 0 \<or> cmp y x \<le> 0"
    and trans: "\<And>x y z. cmp x y \<le> 0 \<Longrightarrow> cmp y z \<le> 0 \<Longrightarrow> cmp x z \<le> 0"
    and "xs \<noteq> []" "y \<in> set xs"
  shows "cmp (hd (sortBy cmp xs)) y \<le> 0"
proof -
  have refl: "cmp x x \<le> 0" for x using total by blast
  have ins: "cmp (hd (insertBy cmp x zs)) y \<le> 0"
    if "zs \<noteq> [] \<Longrightarrow> \<forall>z\<in>set zs. cmp (hd zs) z \<le> 0" "y \<in> insert x (set zs)" for x y zs
  proof (cases zs)
    case Nil
    with that(2) refl show ?thesis by simp
  next
    case (Cons a l)
    with that(1) have a: "cmp a z \<le> 0" if "z \<in> set zs" for z using that by auto
    show ?thesis
    proof (cases "cmp x a \<le> 0")
      case True
      with Cons that(2) a trans refl show ?thesis by fastforce
    next
      case False
      with total have "cmp a x \<le> 0" by blast
      with False Cons that(2) a show ?thesis by auto
    qed
  qed
  have "\<forall>y\<in>set (sortBy cmp xs). cmp (hd (sortBy cmp xs)) y \<le> 0" if "xs \<noteq> []" for xs
    using that
  proof (induction xs)
    case (Cons x xs)
    have s: "sortBy cmp (x # xs) = insertBy cmp x (sortBy cmp xs)" by (simp add: sortBy_def)
    have IH: "\<forall>z\<in>set (sortBy cmp xs). cmp (hd (sortBy cmp xs)) z \<le> 0" if "sortBy cmp xs \<noteq> []"
      using that Cons.IH by (cases "xs = []") (simp_all add: sortBy_def)
    show ?case
    proof
      fix y assume y: "y \<in> set (sortBy cmp (x # xs))"
      then show "cmp (hd (sortBy cmp (x # xs))) y \<le> 0"
        unfolding s using IH by (intro ins) simp_all
    qed
  qed simp
  with assms(3,4) show ?thesis by simp
qed

lemma compareCalls_total: "compareCalls keys x y \<le> 0 \<or> compareCalls keys y x \<le> 0"
  by (auto simp: compareCalls_def)

lemma compareCalls_trans: "compareCalls keys x y \<le> 0 \<Longrightarrow> compareCalls keys y z \<le> 0 \<Longrightarrow> compareCalls keys x z \<le> 0"
  by (auto simp: compareCalls_def split: if_splits)

text \<open>
  A call is resolved exactly when some overload can take it, and the overload chosen can take it
  and is not worse than any other that can: an overload whose inputs are exactly the keys sent wins over all
  that are not, and otherwise none names more of the keys.
\<close>

theorem chosen_overload_is_best:
  "(chooseOverload metas keys strict False = None \<longleftrightarrow> \<not> (\<exists>m\<in>set metas. callable strict keys (candidateCall False m))) \<and>
   (\<forall>c. chooseOverload metas keys strict False = Some c \<longrightarrow>
      rc_meta c \<in> set metas \<and> c = candidateCall False (rc_meta c) \<and> callable strict keys c \<and>
      (\<forall>m\<in>set metas. callable strict keys (candidateCall False m) \<longrightarrow>
         (exactCall keys (candidateCall False m) \<longrightarrow> exactCall keys c) \<and>
         (exactCall keys (candidateCall False m) = exactCall keys c \<longrightarrow> score keys (candidateCall False m) \<le> score keys c)))"
proof -
  let ?m = "filter (callable strict keys) (map (candidateCall False) metas)"
  have meta: "rc_meta (candidateCall s m) = m" for s m by (simp add: candidateCall_def Let_def)
  have choice: "chooseOverload metas keys strict False = (if ?m = [] then None else Some (hd (sortBy (compareCalls keys) ?m)))"
    by (simp add: chooseOverload_def Let_def)
  have none: "?m = [] \<longleftrightarrow> \<not> (\<exists>m\<in>set metas. callable strict keys (candidateCall False m))"
    by (auto simp: filter_empty_conv)
  show ?thesis
  proof (cases "?m = []")
    case True
    with choice none show ?thesis by auto
  next
    case False
    let ?c = "hd (sortBy (compareCalls keys) ?m)"
    have "set (sortBy (compareCalls keys) ?m) \<noteq> {}" using False by (simp only: set_sortBy set_empty not_False_eq_True)
    then have "?c \<in> set (sortBy (compareCalls keys) ?m)" by (intro hd_in_set) (simp only: set_empty not_False_eq_True)
    then have c: "?c \<in> set ?m" by (simp only: set_sortBy)
    then obtain m where m: "m \<in> set metas" "?c = candidateCall False m" "callable strict keys ?c" by auto
    have best: "compareCalls keys ?c d \<le> 0" if "d \<in> set ?m" for d
      using hd_sortBy [OF compareCalls_total compareCalls_trans False that] .
    have "(exactCall keys d \<longrightarrow> exactCall keys ?c) \<and> (exactCall keys d = exactCall keys ?c \<longrightarrow> score keys d \<le> score keys ?c)"
      if "d \<in> set ?m" for d
      using best [OF that] by (auto simp: compareCalls_def split: if_splits)
    then show ?thesis
      unfolding choice using False none m meta by (simp del: filter_map) blast
  qed
qed

definition addFn :: "string list \<Rightarrow> nat \<Rightarrow> FunctionMeta" where
  "addFn names defaults = \<lparr>fm_signature = js ''add'', fm_definer = False, fm_argnames = map (Some \<circ> js) names, fm_argmodes = [],
     fm_argtypes = map (\<lambda>_. js ''int4'') names, fm_pronargdefaults = defaults, fm_proretset = False, fm_typtype = Some (js ''b''),
     fm_typname = Some (js ''int4''), fm_typrelid = 0\<rparr>"

theorem chosen_overload_is_best_witness:
  "\<exists>c. chooseOverload [addFn [''a'', ''b'', ''c''] 1, addFn [''a'', ''b''] 0] (map js [''a'', ''b'']) True False = Some c \<and>
     exactCall (map js [''a'', ''b'']) c"
proof -
  let ?ms = "[addFn [''a'', ''b'', ''c''] 1, addFn [''a'', ''b''] 0]" and ?k = "map js [''a'', ''b'']"
  have m: "callable True ?k (candidateCall False (addFn [''a'', ''b''] 0))" "exactCall ?k (candidateCall False (addFn [''a'', ''b''] 0))"
    by code_simp+
  have "addFn [''a'', ''b''] 0 \<in> set ?ms" by simp
  with m show ?thesis using chosen_overload_is_best [of ?ms ?k True] by (metis option.exhaust)
qed

section \<open>Ranges\<close>

lemma digitsInt_show_nat: "digitsInt (show_nat n) = int n"
proof (induction n rule: show_nat.induct)
  case (1 n)
  show ?case
  proof (cases "n < 10")
    case True
    then show ?thesis by (simp add: show_nat.simps [of n] digitsInt_def)
  next
    case False
    with 1 have "digitsInt (show_nat (n div 10)) = int (n div 10)" by simp
    with False show ?thesis by (simp add: show_nat.simps [of n] digitsInt_def) (metis mult_div_mod_eq of_nat_add of_nat_mult of_nat_numeral)
  qed
qed

lemma all_digits_show_nat: "list_all is_digit (show_nat n)"
  using show_nat_digits by (auto simp: list_all_iff)

lemma show_nat_ends: "is_digit (hd (show_nat n))" "is_digit (last (show_nat n))"
  using show_nat_digits [of _ n] by (simp_all add: show_nat_nonempty)

lemma digit_not_space: "is_digit c \<Longrightarrow> \<not> is_js_space c \<and> c \<noteq> ch CHR ''i'' \<and> c \<noteq> ch CHR ''/'' \<and> c \<noteq> ch CHR ''-''"
  by (auto simp: is_digit_def is_js_space_def)

text \<open>The range part of a \<open>Content-Range\<close> header, up to the slash.\<close>

definition rangeOf :: "jstr \<Rightarrow> jstr" where
  "rangeOf contentRangeHeader = takeWhile (\<lambda>c. c \<noteq> ch CHR ''/'') contentRangeHeader"

lemma range_text_trim:
  "js_trim (show_nat a @ js ''-'' @ show_nat b) = show_nat a @ js ''-'' @ show_nat b"
proof -
  have "hd (show_nat a @ js ''-'' @ show_nat b) = hd (show_nat a)" "last (show_nat a @ js ''-'' @ show_nat b) = last (show_nat b)"
    by simp_all
  moreover have "is_digit (hd (show_nat a))" "is_digit (last (show_nat b))" by (simp_all add: show_nat_ends)
  ultimately show ?thesis
    using digit_not_space by (simp add: js_trim_def dropWhile_eq_self_iff [THEN iffD2] hd_rev)
qed

lemma rangeParts_text: "rangeParts (show_nat a @ js ''-'' @ show_nat b) = Some (show_nat a, show_nat b)"
  using all_digits_show_nat
  by (simp add: rangeParts_def Let_def takeWhile_append dropWhile_append list_all_iff is_digit_def [of 45]
      takeWhile_eq_all_conv [THEN iffD2])

lemma parse_range_text:
  assumes "a \<le> b"
  shows "parseRangeHeader (Some (QOne (show_nat a @ js ''-'' @ show_nat b))) None = Some (int a, Some (int b - int a + 1))"
proof -
  let ?t = "show_nat a @ js ''-'' @ show_nat b"
  have "is_digit (hd (show_nat a))" by (rule show_nat_ends)
  then have "hd (ascii_lower ?t) \<noteq> ch CHR ''i''"
    by (cases "show_nat a") (auto simp: ascii_lower_def is_digit_def)
  then have "\<not> starts_with_i (js ''items='') ?t"
    by (cases "ascii_lower ?t") (auto simp: starts_with_i_def starts_with_def)
  then show ?thesis
    using assms rangeParts_text [of a b] range_text_trim [of a b]
    by (simp only: parseRangeHeader_def Let_def first_def option.case QVal.case)
      (simp add: digitsInt_show_nat js_trim_def js_lower_def)
qed

text \<open>
  The range of a \<open>Content-Range\<close> response header, sent back as a \<open>Range\<close> request header, asks for
  exactly the page that the response described; and a response with a known total is 206 exactly when rows of
  the total are missing before or after the page.
\<close>

theorem content_range_roundtrip:
  assumes "0 \<le> offset" "0 < n"
  shows "parseRangeHeader (Some (QOne (rangeOf (contentRange offset n tot)))) None = Some (offset, Some n) \<and>
    (\<forall>t. tot = Some t \<and> offset + n \<le> t \<longrightarrow> (rangeStatus offset n tot = 200 \<longleftrightarrow> {offset ..< offset + n} = {0 ..< t}))"
proof -
  let ?a = "nat offset" and ?b = "nat (offset + n - 1)"
  have le: "?a \<le> ?b" using assms by simp
  have "list_all (\<lambda>c. c \<noteq> ch CHR ''/'') (show_nat ?a @ js ''-'' @ show_nat ?b)"
    using all_digits_show_nat digit_not_space by (auto simp: list_all_iff)
  then have "rangeOf (contentRange offset n tot) = show_nat ?a @ js ''-'' @ show_nat ?b"
    using assms by (simp add: rangeOf_def contentRange_def Let_def show_int_def takeWhile_append takeWhile_eq_all_conv [THEN iffD2] list_all_iff)
  then have "parseRangeHeader (Some (QOne (rangeOf (contentRange offset n tot)))) None = Some (offset, Some n)"
    using parse_range_text [OF le] assms by simp
  moreover have "rangeStatus offset n tot = 200 \<longleftrightarrow> {offset ..< offset + n} = {0 ..< t}" if "tot = Some t" "offset + n \<le> t" for t
    using that assms atLeastLessThan_eq_iff [of offset "offset + n" 0 t] by (auto simp: rangeStatus_def)
  ultimately show ?thesis by blast
qed

theorem content_range_roundtrip_witness:
  "parseRangeHeader (Some (QOne (rangeOf (contentRange 20 10 (Some 35))))) None = Some (20, Some 10) \<and> rangeStatus 20 10 (Some 35) \<noteq> 200"
proof -
  have "{20 ..< 30 :: int} \<noteq> {0 ..< 35}" by (simp add: atLeastLessThan_eq_iff)
  then show ?thesis using content_range_roundtrip [of 20 10 "Some 35"] by simp
qed

end
