(* ===== verification/TokenBucket.thy ===== *)
theory TokenBucket
  imports Prelude Complex_Main
begin

text \<open>
  The token bucket of the admission control, \<open>modules/admission/token-bucket.ts\<close>: the in-memory bucket and
  the Lua script that runs in Redis, as two implementations of one contract.

  Numbers are rationals: the rounding of floating-point refills is not modelled.  Times are milliseconds.
  Redis is a map from keys to the two hash fields and the time at which the key expires; a key past that time
  is gone.
\<close>

section \<open>The in-memory bucket\<close>

record BucketLimits =
  bl_rate :: rat
  bl_burst :: rat

record BucketResult =
  br_allowed :: bool
  br_remaining :: int
  br_retryAfterMs :: int
  br_limit :: BucketLimits

type_synonym memory_bucket = "jstr \<rightharpoonup> rat \<times> int"

definition refilled :: "BucketLimits \<Rightarrow> int \<Rightarrow> rat \<times> int \<Rightarrow> rat" where
  "refilled limits now b =
     min (bl_burst limits) (fst b + of_int (max 0 (now - snd b)) / 1000 * bl_rate limits)"

definition memoryTake :: "jstr \<Rightarrow> BucketLimits \<Rightarrow> int \<Rightarrow> rat \<Rightarrow> memory_bucket \<Rightarrow> BucketResult \<times> memory_bucket" where
  "memoryTake key limits now cost buckets =
     (let b = (case buckets key of Some b \<Rightarrow> b | None \<Rightarrow> (bl_burst limits, now));
          tokens = refilled limits now b;
          allowed = (cost \<le> tokens);
          tokens' = (if allowed then tokens - cost else tokens)
      in (\<lparr>br_allowed = allowed, br_remaining = \<lfloor>tokens'\<rfloor>,
           br_retryAfterMs = (if allowed then 0 else \<lceil>(cost - tokens') / bl_rate limits * 1000\<rceil>), br_limit = limits\<rparr>,
          buckets(key \<mapsto> (tokens', now))))"

section \<open>The script\<close>

record RedisHash =
  rh_t :: rat
  rh_ts :: int
  rh_expiresAt :: int

type_synonym redis = "jstr \<rightharpoonup> RedisHash"

definition hmget :: "redis \<Rightarrow> int \<Rightarrow> jstr \<Rightarrow> (rat \<times> int) option" where
  "hmget db serverTime key =
     (case db key of
        Some h \<Rightarrow> if serverTime < rh_expiresAt h then Some (rh_t h, rh_ts h) else None
      | None \<Rightarrow> None)"

text \<open>\<open>TOKEN_BUCKET_LUA\<close>, run at \<open>serverTime\<close>; the reply is the list of three integers.\<close>

definition luaScript :: "jstr \<Rightarrow> rat \<Rightarrow> rat \<Rightarrow> int \<Rightarrow> rat \<Rightarrow> int \<Rightarrow> redis \<Rightarrow> int list \<times> redis" where
  "luaScript key rate burst now cost serverTime db =
     (let (tokens0, ts) = (case hmget db serverTime key of Some d \<Rightarrow> d | None \<Rightarrow> (burst, now));
          elapsed = of_int (max 0 (now - ts)) / 1000;
          tokens1 = min burst (tokens0 + elapsed * rate);
          (tokens, allowed) = (if tokens1 \<ge> cost then (tokens1 - cost, 1) else (tokens1, 0));
          ttl0 = \<lceil>(burst - tokens) / rate + 1\<rceil>;
          ttl = (if ttl0 < 1 then 1 else ttl0);
          retry = (if allowed = 0 then \<lceil>(cost - tokens) / rate * 1000\<rceil> else 0)
      in ([allowed, \<lfloor>tokens\<rfloor>, retry],
          db(key \<mapsto> \<lparr>rh_t = tokens, rh_ts = now, rh_expiresAt = serverTime + ttl * 1000\<rparr>)))"

text \<open>A reply that is not an array counts as the empty one; missing numbers are 0.\<close>

definition parseBucketReply :: "int list option \<Rightarrow> BucketLimits \<Rightarrow> BucketResult" where
  "parseBucketReply reply limits =
     (let arr = (case reply of Some a \<Rightarrow> a | None \<Rightarrow> []); num = (\<lambda>i. case nth_opt arr i of Some n \<Rightarrow> n | None \<Rightarrow> 0)
      in \<lparr>br_allowed = (nth_opt arr 0 = Some 1), br_remaining = num 1, br_retryAfterMs = num 2, br_limit = limits\<rparr>)"

definition redisTake :: "jstr \<Rightarrow> BucketLimits \<Rightarrow> int \<Rightarrow> rat \<Rightarrow> redis \<Rightarrow> BucketResult \<times> redis" where
  "redisTake key limits now cost db =
     (case luaScript key (bl_rate limits) (bl_burst limits) now cost now db of
        (reply, db') \<Rightarrow> (parseBucketReply (Some reply) limits, db'))"

section \<open>The contract\<close>

text \<open>The level of a bucket at a time is what a request of that time finds in it.\<close>

definition levelOf :: "BucketLimits \<Rightarrow> int \<Rightarrow> (rat \<times> int) option \<Rightarrow> rat" where
  "levelOf limits now b = (case b of None \<Rightarrow> bl_burst limits | Some b \<Rightarrow> refilled limits now b)"

definition limitsOk :: "BucketLimits \<Rightarrow> bool" where
  "limitsOk l \<longleftrightarrow> 0 < bl_rate l \<and> 0 < bl_burst l"

text \<open>The requests of one key, in order, at the given times.\<close>

fun serve :: "(int \<Rightarrow> 's \<Rightarrow> BucketResult \<times> 's) \<Rightarrow> int list \<Rightarrow> 's \<Rightarrow> BucketResult list \<times> 's" where
  "serve tk [] s = ([], s)"
| "serve tk (t # ts) s = (case tk t s of (r, s') \<Rightarrow> case serve tk ts s' of (rs, s'') \<Rightarrow> (r # rs, s''))"

locale token_bucket =
  fixes limits :: BucketLimits
    and take_token :: "jstr \<Rightarrow> int \<Rightarrow> 's \<Rightarrow> BucketResult \<times> 's"
    and level :: "jstr \<Rightarrow> int \<Rightarrow> 's \<Rightarrow> rat"
    and upTo :: "jstr \<Rightarrow> int \<Rightarrow> 's \<Rightarrow> bool"
  assumes limits_ok: "upTo k now s \<Longrightarrow> limitsOk limits"
    and level_range: "upTo k now s \<Longrightarrow> 0 \<le> level k now s \<and> level k now s \<le> bl_burst limits"
    and upTo_later: "upTo k now s \<Longrightarrow> now \<le> t \<Longrightarrow> upTo k t s"
    and upTo_take: "upTo k now s \<Longrightarrow> upTo k now (snd (take_token k now s))"
    and allowed_iff: "upTo k now s \<Longrightarrow> br_allowed (fst (take_token k now s)) \<longleftrightarrow> 1 \<le> level k now s"
    and remaining: "upTo k now s \<Longrightarrow> br_remaining (fst (take_token k now s)) = \<lfloor>level k now (snd (take_token k now s))\<rfloor>"
    and retry: "upTo k now s \<Longrightarrow> br_retryAfterMs (fst (take_token k now s)) =
      (if 1 \<le> level k now s then 0 else \<lceil>(1 - level k now s) / bl_rate limits * 1000\<rceil>)"
    and level_take: "upTo k now s \<Longrightarrow>
      level k now (snd (take_token k now s)) = (if 1 \<le> level k now s then level k now s - 1 else level k now s)"
    and level_later: "upTo k now s \<Longrightarrow> now \<le> t \<Longrightarrow>
      level k t s = min (bl_burst limits) (level k now s + of_int (t - now) / 1000 * bl_rate limits)"
    and limit_kept: "br_limit (fst (take_token k now s)) = limits"
begin

lemma admitted_bound:
  "sorted (t0 # ts) \<Longrightarrow> (\<forall>t\<in>set ts. t \<le> t1) \<Longrightarrow> t0 \<le> t1 \<Longrightarrow> upTo k t0 s \<Longrightarrow>
     of_nat (length (filter br_allowed (fst (serve (take_token k) ts s)))) \<le> level k t0 s + of_int (t1 - t0) / 1000 * bl_rate limits"
proof (induction ts arbitrary: t0 s)
  case Nil
  have "0 \<le> level k t0 s" using level_range [OF Nil(4)] by simp
  moreover have "0 \<le> of_int (t1 - t0) / 1000 * bl_rate limits" using Nil(3) limits_ok [OF Nil(4)] by (simp add: limitsOk_def)
  ultimately show ?case by simp
next
  case (Cons t ts)
  let ?s = "snd (take_token k t s)" and ?R = "\<lambda>d::int. of_int d / 1000 * bl_rate limits"
  have t: "t0 \<le> t" "t \<le> t1" and up: "upTo k t s" using Cons.prems upTo_later by auto
  have IH: "of_nat (length (filter br_allowed (fst (serve (take_token k) ts ?s)))) \<le> level k t ?s + ?R (t1 - t)"
    using Cons.prems upTo_take [OF up] t by (intro Cons.IH) auto
  have le: "level k t s \<le> level k t0 s + ?R (t - t0)"
    using level_later [OF Cons.prems(4) t(1)] by simp
  have split: "?R (t1 - t0) = ?R (t1 - t) + ?R (t - t0)" by (simp add: field_simps)
  have "length (filter br_allowed (fst (serve (take_token k) (t # ts) s))) =
      (if 1 \<le> level k t s then 1 else 0) + length (filter br_allowed (fst (serve (take_token k) ts ?s)))"
    using allowed_iff [OF up] by (simp add: case_prod_beta)
  with IH le level_take [OF up] show ?case unfolding split by (simp split: if_splits)
qed

end

text \<open>Two buckets of one contract that start at the same level answer every request alike.\<close>

locale bucket_pair =
  a: token_bucket limits takeA levelA upA + b: token_bucket limits takeB levelB upB
  for limits :: BucketLimits
    and takeA :: "jstr \<Rightarrow> int \<Rightarrow> 's \<Rightarrow> BucketResult \<times> 's" and levelA :: "jstr \<Rightarrow> int \<Rightarrow> 's \<Rightarrow> rat" and upA
    and takeB :: "jstr \<Rightarrow> int \<Rightarrow> 't \<Rightarrow> BucketResult \<times> 't" and levelB :: "jstr \<Rightarrow> int \<Rightarrow> 't \<Rightarrow> rat" and upB
begin

lemma same_answers:
  "sorted (t0 # ts) \<Longrightarrow> upA k t0 s \<Longrightarrow> upB k t0 s' \<Longrightarrow> levelA k t0 s = levelB k t0 s' \<Longrightarrow>
     fst (serve (takeA k) ts s) = fst (serve (takeB k) ts s')"
proof (induction ts arbitrary: t0 s s')
  case (Cons t ts)
  have t: "t0 \<le> t" using Cons.prems by simp
  have up: "upA k t s" "upB k t s'" using Cons.prems t a.upTo_later b.upTo_later by blast+
  have lv: "levelA k t s = levelB k t s'"
    using a.level_later [OF Cons.prems(2) t] b.level_later [OF Cons.prems(3) t] Cons.prems(4) by simp
  have lv': "levelA k t (snd (takeA k t s)) = levelB k t (snd (takeB k t s'))"
    using a.level_take [OF up(1)] b.level_take [OF up(2)] lv by simp
  have "fst (takeA k t s) = fst (takeB k t s')"
    using a.allowed_iff [OF up(1)] b.allowed_iff [OF up(2)] a.remaining [OF up(1)] b.remaining [OF up(2)]
      a.retry [OF up(1)] b.retry [OF up(2)] a.limit_kept [of k t s] b.limit_kept [of k t s'] lv lv'
    by (intro BucketResult.equality) simp_all
  moreover have "fst (serve (takeA k) ts (snd (takeA k t s))) = fst (serve (takeB k) ts (snd (takeB k t s')))"
    using Cons.prems a.upTo_take [OF up(1)] b.upTo_take [OF up(2)] lv' by (intro Cons.IH [of t]) simp_all
  ultimately show ?case by (simp add: case_prod_beta)
qed simp

end

section \<open>Both implementations keep the contract\<close>

definition bucketOk :: "BucketLimits \<Rightarrow> int \<Rightarrow> (rat \<times> int) option \<Rightarrow> bool" where
  "bucketOk l now b \<longleftrightarrow> limitsOk l \<and> (case b of None \<Rightarrow> True | Some (t, ts) \<Rightarrow> 0 \<le> t \<and> t \<le> bl_burst l \<and> ts \<le> now)"

lemma refilled_ge: "0 < bl_rate l \<Longrightarrow> t \<le> bl_burst l \<Longrightarrow> t \<le> refilled l now (t, ts)"
  by (simp add: refilled_def)

lemma levelOf_range: "bucketOk l now b \<Longrightarrow> 0 \<le> levelOf l now b \<and> levelOf l now b \<le> bl_burst l"
  using refilled_ge [of l] by (fastforce simp: bucketOk_def levelOf_def limitsOk_def refilled_def split: option.splits)

lemma bucketOk_later: "bucketOk l now b \<Longrightarrow> now \<le> t \<Longrightarrow> bucketOk l t b"
  by (auto simp: bucketOk_def split: option.splits)

lemma levelOf_later:
  assumes "bucketOk l now b" "now \<le> t"
  shows "levelOf l t b = min (bl_burst l) (levelOf l now b + of_int (t - now) / 1000 * bl_rate l)"
proof -
  have pos: "0 \<le> of_int (t - now) / 1000 * bl_rate l" using assms by (simp add: bucketOk_def limitsOk_def)
  show ?thesis
  proof (cases b)
    case None
    with pos show ?thesis by (simp add: levelOf_def)
  next
    case (Some p)
    obtain x ts where p: "p = (x, ts)" by fastforce
    then have "ts \<le> now" using assms Some by (simp add: bucketOk_def)
    then have "(of_int (max 0 (t - ts)) :: rat) / 1000 * bl_rate l =
        of_int (max 0 (now - ts)) / 1000 * bl_rate l + of_int (t - now) / 1000 * bl_rate l"
      using assms(2) by (simp add: field_simps max_def)
    then have r: "refilled l t (x, ts) =
        min (bl_burst l) (x + (of_int (max 0 (now - ts)) / 1000 * bl_rate l + of_int (t - now) / 1000 * bl_rate l))"
      by (simp only: refilled_def fst_conv snd_conv)
    have "min B (y + (a + c)) = min B (min B (y + a) + c)" if "0 \<le> c" for B y a c :: rat
      using that by (auto simp: min_def)
    from this [OF pos] show ?thesis
      unfolding Some p levelOf_def option.case r by (simp only: refilled_def fst_conv snd_conv)
  qed
qed

text \<open>The number of tokens left in a bucket just served.\<close>

lemma levelOf_now: "0 \<le> x \<Longrightarrow> x \<le> bl_burst l \<Longrightarrow> levelOf l now (Some (x, now)) = x"
  by (simp add: levelOf_def refilled_def)

definition spent :: "BucketLimits \<Rightarrow> int \<Rightarrow> (rat \<times> int) option \<Rightarrow> rat" where
  "spent l now b = (if 1 \<le> levelOf l now b then levelOf l now b - 1 else levelOf l now b)"

lemma spent_ok: "bucketOk l now b \<Longrightarrow> bucketOk l now (Some (spent l now b, now)) \<and> levelOf l now (Some (spent l now b, now)) = spent l now b"
  using levelOf_range [of l now b] levelOf_now [of "spent l now b" l now] by (auto simp: bucketOk_def spent_def)

lemma memoryTake_eq:
  "memoryTake k l now 1 s =
     (\<lparr>br_allowed = (1 \<le> levelOf l now (s k)), br_remaining = \<lfloor>spent l now (s k)\<rfloor>,
       br_retryAfterMs = (if 1 \<le> levelOf l now (s k) then 0 else \<lceil>(1 - levelOf l now (s k)) / bl_rate l * 1000\<rceil>), br_limit = l\<rparr>,
      s(k \<mapsto> (spent l now (s k), now)))"
  by (cases "s k") (simp_all add: memoryTake_def Let_def spent_def levelOf_def refilled_def)

interpretation mem: token_bucket l "\<lambda>k now s. memoryTake k l now 1 s" "\<lambda>k now s. levelOf l now (s k)"
  "\<lambda>k now s. bucketOk l now (s k)" for l
  using levelOf_range bucketOk_later levelOf_later spent_ok
  by unfold_locales (auto simp: memoryTake_eq spent_def bucketOk_def)

definition hashFields :: "RedisHash option \<Rightarrow> (rat \<times> int) option" where
  "hashFields h = map_option (\<lambda>h. (rh_t h, rh_ts h)) h"

text \<open>A hash expires only when its bucket would be full again.\<close>

definition hashOk :: "BucketLimits \<Rightarrow> int \<Rightarrow> RedisHash option \<Rightarrow> bool" where
  "hashOk l now h \<longleftrightarrow> bucketOk l now (hashFields h) \<and>
     (case h of None \<Rightarrow> True | Some h \<Rightarrow> of_int (rh_ts h) + (bl_burst l - rh_t h) / bl_rate l * 1000 \<le> of_int (rh_expiresAt h))"

lemma expired_is_full:
  assumes "hashOk l now h"
  shows "levelOf l now (case h of Some h \<Rightarrow> if now < rh_expiresAt h then Some (rh_t h, rh_ts h) else None | None \<Rightarrow> None) =
    levelOf l now (hashFields h)"
proof (cases h)
  case (Some r)
  show ?thesis
  proof (cases "now < rh_expiresAt r")
    case False
    have ok: "0 < bl_rate l" "rh_ts r \<le> now" "rh_t r \<le> bl_burst l"
      using assms Some by (auto simp: hashOk_def bucketOk_def limitsOk_def hashFields_def)
    have "of_int (rh_ts r) + (bl_burst l - rh_t r) / bl_rate l * 1000 \<le> of_int now"
    proof -
      have "rh_expiresAt r \<le> now" using False by simp
      then have "(of_int (rh_expiresAt r) :: rat) \<le> of_int now" by (simp only: of_int_le_iff)
      moreover have "of_int (rh_ts r) + (bl_burst l - rh_t r) / bl_rate l * 1000 \<le> of_int (rh_expiresAt r)"
        using assms Some by (simp add: hashOk_def)
      ultimately show ?thesis by linarith
    qed
    then have "(bl_burst l - rh_t r) / bl_rate l \<le> of_int (now - rh_ts r) / 1000" by simp
    then have "bl_burst l - rh_t r \<le> of_int (now - rh_ts r) / 1000 * bl_rate l"
      using ok(1) by (simp add: pos_divide_le_eq)
    then show ?thesis using False ok by (simp add: Some hashFields_def levelOf_def refilled_def)
  qed (simp add: Some hashFields_def)
qed (simp add: hashFields_def)

lemma redisTake_eq:
  assumes "hashOk l now (db k)"
  shows "redisTake k l now 1 db =
     (\<lparr>br_allowed = (1 \<le> levelOf l now (hashFields (db k))), br_remaining = \<lfloor>spent l now (hashFields (db k))\<rfloor>,
       br_retryAfterMs = (if 1 \<le> levelOf l now (hashFields (db k)) then 0 else \<lceil>(1 - levelOf l now (hashFields (db k))) / bl_rate l * 1000\<rceil>),
       br_limit = l\<rparr>,
      db(k \<mapsto> \<lparr>rh_t = spent l now (hashFields (db k)), rh_ts = now,
        rh_expiresAt = now + max 1 \<lceil>(bl_burst l - spent l now (hashFields (db k))) / bl_rate l + 1\<rceil> * 1000\<rparr>))"
proof -
  have h: "hmget db now k = (case db k of Some h \<Rightarrow> if now < rh_expiresAt h then Some (rh_t h, rh_ts h) else None | None \<Rightarrow> None)"
    by (simp add: hmget_def)
  from expired_is_full [OF assms] have lv: "levelOf l now (hmget db now k) = levelOf l now (hashFields (db k))" by (simp only: h)
  obtain x ts where d: "(case hmget db now k of Some d \<Rightarrow> d | None \<Rightarrow> (bl_burst l, now)) = (x, ts)" by fastforce
  have tok: "min (bl_burst l) (x + of_int (max 0 (now - ts)) / 1000 * bl_rate l) = levelOf l now (hashFields (db k))"
    using d unfolding lv [symmetric] by (cases "hmget db now k") (simp_all add: levelOf_def refilled_def)
  have ttl: "(if n < 1 then 1 else n) = max 1 n" for n :: int by (simp add: max_def)
  show ?thesis
    unfolding redisTake_def luaScript_def Let_def d prod.case tok ttl
    by (cases "1 \<le> levelOf l now (hashFields (db k))") (simp_all add: parseBucketReply_def spent_def)
qed

lemma hash_after_take:
  assumes "hashOk l now (db k)"
  shows "hashOk l now (snd (redisTake k l now 1 db) k) \<and> hashFields (snd (redisTake k l now 1 db) k) = Some (spent l now (hashFields (db k)), now)"
proof -
  let ?x = "spent l now (hashFields (db k))"
  have ok: "bucketOk l now (Some (?x, now))" using spent_ok assms by (simp add: hashOk_def)
  let ?w = "(bl_burst l - ?x) / bl_rate l"
  have scaled: "of_int now + w * 1000 \<le> (of_int (now + m * 1000) :: rat)" if "w + 1 \<le> of_int m" for w :: rat and m
    using that by simp
  have "?w + 1 \<le> of_int (max 1 \<lceil>?w + 1\<rceil>)" by (meson le_of_int_ceiling max.cobounded2 of_int_le_iff order_trans)
  then have "of_int now + ?w * 1000 \<le> of_int (now + max 1 \<lceil>?w + 1\<rceil> * 1000)"
    using scaled by blast
  with ok show ?thesis by (simp add: redisTake_eq [where db = db, OF assms] hashOk_def hashFields_def)
qed

interpretation redis: token_bucket l "\<lambda>k now db. redisTake k l now 1 db" "\<lambda>k now db. levelOf l now (hashFields (db k))"
  "\<lambda>k now db. hashOk l now (db k)" for l
proof
  fix k now t and s :: redis
  assume h: "hashOk l now (s k)"
  then have b: "bucketOk l now (hashFields (s k))" by (simp add: hashOk_def)
  show "limitsOk l" using b by (simp add: bucketOk_def)
  show "0 \<le> levelOf l now (hashFields (s k)) \<and> levelOf l now (hashFields (s k)) \<le> bl_burst l" using levelOf_range [OF b] .
  show "hashOk l now (snd (redisTake k l now 1 s) k)" using hash_after_take [where db = s, OF h] by blast
  show "br_allowed (fst (redisTake k l now 1 s)) = (1 \<le> levelOf l now (hashFields (s k)))"
    "br_retryAfterMs (fst (redisTake k l now 1 s)) =
      (if 1 \<le> levelOf l now (hashFields (s k)) then 0 else \<lceil>(1 - levelOf l now (hashFields (s k))) / bl_rate l * 1000\<rceil>)"
    by (simp_all add: redisTake_eq [where db = s, OF h])
  show "levelOf l now (hashFields (snd (redisTake k l now 1 s) k)) =
      (if 1 \<le> levelOf l now (hashFields (s k)) then levelOf l now (hashFields (s k)) - 1 else levelOf l now (hashFields (s k)))"
    "br_remaining (fst (redisTake k l now 1 s)) = \<lfloor>levelOf l now (hashFields (snd (redisTake k l now 1 s) k))\<rfloor>"
    using hash_after_take [where db = s, OF h] spent_ok [OF b] by (simp_all add: redisTake_eq [where db = s, OF h] spent_def)
  assume "now \<le> t"
  then show "hashOk l t (s k)" using h bucketOk_later [OF b] by (simp add: hashOk_def)
  show "levelOf l t (hashFields (s k)) = min (bl_burst l) (levelOf l now (hashFields (s k)) + of_int (t - now) / 1000 * bl_rate l)"
    using levelOf_later [OF b \<open>now \<le> t\<close>] .
next
  fix k now and s :: redis
  show "br_limit (fst (redisTake k l now 1 s)) = l"
    by (simp add: redisTake_def parseBucketReply_def Let_def split: prod.split)
qed

interpretation both: bucket_pair l "\<lambda>k now s. memoryTake k l now 1 s" "\<lambda>k now s. levelOf l now (s k)" "\<lambda>k now s. bucketOk l now (s k)"
  "\<lambda>k now db. redisTake k l now 1 db" "\<lambda>k now db. levelOf l now (hashFields (db k))" "\<lambda>k now db. hashOk l now (db k)" for l ..

section \<open>Rate limits\<close>

definition takeMemory :: "BucketLimits \<Rightarrow> jstr \<Rightarrow> int \<Rightarrow> memory_bucket \<Rightarrow> BucketResult \<times> memory_bucket" where
  "takeMemory l k now s = memoryTake k l now 1 s"

definition takeRedis :: "BucketLimits \<Rightarrow> jstr \<Rightarrow> int \<Rightarrow> redis \<Rightarrow> BucketResult \<times> redis" where
  "takeRedis l k now db = redisTake k l now 1 db"

definition admitted :: "BucketResult list \<Rightarrow> nat" where
  "admitted rs = length (filter br_allowed rs)"


definition demoLimits :: BucketLimits where
  "demoLimits = \<lparr>bl_rate = 1, bl_burst = 2\<rparr>"


text \<open>
  C36: the script in Redis and the in-memory reference give the same answers, field by field, to every
  sequence of requests whose clock does not run backwards, from any two stores in which the key has the
  same level.  In particular the expiry of an idle key is never observable.
\<close>

theorem redis_equals_memory:
  assumes "sorted (t0 # ts)" "bucketOk l t0 (s k)" "hashOk l t0 (db k)" "levelOf l t0 (s k) = levelOf l t0 (hashFields (db k))"
  shows "fst (serve (takeRedis l k) ts db) = fst (serve (takeMemory l k) ts s)"
proof -
  have f: "takeMemory l k = (\<lambda>now s. memoryTake k l now 1 s)" "takeRedis l k = (\<lambda>now db. redisTake k l now 1 db)"
    by (simp_all add: fun_eq_iff takeMemory_def takeRedis_def)
  show ?thesis
    unfolding f by (rule both.same_answers [where s = s and s' = db and k = k, OF assms, symmetric])
qed

theorem redis_equals_memory_witness:
  "fst (serve (takeRedis demoLimits (js ''k'')) [0, 0, 0, 1500, 9000] Map.empty) =
   fst (serve (takeMemory demoLimits (js ''k'')) [0, 0, 0, 1500, 9000] Map.empty)"
  by (rule redis_equals_memory [of 0])
    (simp_all add: bucketOk_def hashOk_def hashFields_def limitsOk_def demoLimits_def levelOf_def)

text \<open>
  The times come from the clock of the calling process.  Two processes whose clocks differ by a second share
  the bucket through Redis: each request of the slow one moves the refill time back, and the next of the fast
  one refills the same second again, so that more is admitted than the burst and the rate allow.
\<close>

lemma skewed_clocks_refill_twice:
  "admitted (fst (serve (takeRedis demoLimits (js ''k'')) [1000, 1000, 1000, 0, 1000, 0, 1000, 0, 1000] Map.empty)) = 5 \<and>
   bl_burst demoLimits + of_int (1000 - 0) / 1000 * bl_rate demoLimits = 3"
  by (simp add: admitted_def takeRedis_def redisTake_def luaScript_def hmget_def demoLimits_def Let_def parseBucketReply_def)

end
