(* ===== verification/ConcurrencyGate.thy ===== *)
theory ConcurrencyGate
  imports Prelude "HOL-Library.Multiset"
begin

text \<open>
  The concurrency gate of the admission control, \<open>modules/admission/concurrency-gate.ts\<close>: a bound on the
  requests in flight and a bounded first-in-first-out queue in front of it.

  Every request that asks for a slot gets a number.  The part of \<open>acquire\<close> after its \<open>await\<close> is an operation of
  its own (\<open>resumeWaiter\<close>), because other requests run between the resolution of the promise and its
  continuation: a resolved promise stays in \<open>g_resolved\<close> until then.  The \<open>done\<close> flag of a releaser is
  membership in \<open>g_held\<close>, the requests whose releaser has been handed out and not yet called.  The waiting time
  is not modelled; a timeout may come at any moment.
\<close>

section \<open>The gate\<close>

record GateOptions =
  go_maxInflight :: nat
  go_maxWaiting :: nat
  go_maxWaitMs :: nat

datatype GateDecision = Admit | Queued | ShedFull | ShedTimeout

datatype Resolution = Woken | TimedOut

record Gate =
  g_opts :: GateOptions
  g_inflight :: nat
  g_waiters :: "nat list"
  g_admitted :: nat
  g_queued :: nat
  g_shed :: nat
  g_resolved :: "(nat \<times> Resolution) list"
  g_held :: "nat list"
  g_next :: nat

definition newGate :: "GateOptions \<Rightarrow> Gate" where
  "newGate opts = \<lparr>g_opts = opts, g_inflight = 0, g_waiters = [], g_admitted = 0, g_queued = 0, g_shed = 0,
     g_resolved = [], g_held = [], g_next = 0\<rparr>"

text \<open>An option that is \<open>None\<close> keeps its value.\<close>

definition configure :: "nat option \<Rightarrow> nat option \<Rightarrow> nat option \<Rightarrow> Gate \<Rightarrow> Gate" where
  "configure inflight waiting waitMs g =
     g\<lparr>g_opts := \<lparr>go_maxInflight = (case inflight of Some n \<Rightarrow> n | None \<Rightarrow> go_maxInflight (g_opts g)),
                 go_maxWaiting = (case waiting of Some n \<Rightarrow> n | None \<Rightarrow> go_maxWaiting (g_opts g)),
                 go_maxWaitMs = (case waitMs of Some n \<Rightarrow> n | None \<Rightarrow> go_maxWaitMs (g_opts g))\<rparr>\<rparr>"

text \<open>\<open>acquire\<close> up to its \<open>await\<close>: \<open>None\<close> means that the request waits.\<close>

definition acquire :: "Gate \<Rightarrow> GateDecision option \<times> Gate" where
  "acquire g =
     (let i = g_next g; g = g\<lparr>g_next := i + 1\<rparr> in
      if g_inflight g < go_maxInflight (g_opts g) then
        (Some Admit, g\<lparr>g_inflight := g_inflight g + 1, g_admitted := g_admitted g + 1, g_held := g_held g @ [i]\<rparr>)
      else if length (g_waiters g) \<ge> go_maxWaiting (g_opts g) then
        (Some ShedFull, g\<lparr>g_shed := g_shed g + 1\<rparr>)
      else (None, g\<lparr>g_queued := g_queued g + 1, g_waiters := g_waiters g @ [i]\<rparr>))"

text \<open>The timer of a waiter; resolving a promise that is resolved already has no effect.\<close>

definition waiterTimeout :: "nat \<Rightarrow> Gate \<Rightarrow> Gate" where
  "waiterTimeout i g =
     (if i \<in> set (g_waiters g)
      then g\<lparr>g_waiters := remove1 i (g_waiters g), g_resolved := g_resolved g @ [(i, TimedOut)]\<rparr>
      else g)"

text \<open>\<open>acquire\<close> after its \<open>await\<close>.\<close>

definition resumeWaiter :: "nat \<Rightarrow> Gate \<Rightarrow> GateDecision option \<times> Gate" where
  "resumeWaiter i g =
     (let rest = g\<lparr>g_resolved := filter (\<lambda>r. fst r \<noteq> i) (g_resolved g)\<rparr> in
      case map_of (g_resolved g) i of
        Some Woken \<Rightarrow> (Some Queued, rest\<lparr>g_admitted := g_admitted g + 1, g_held := g_held g @ [i]\<rparr>)
      | Some TimedOut \<Rightarrow> (Some ShedTimeout, rest\<lparr>g_shed := g_shed g + 1\<rparr>)
      | None \<Rightarrow> (None, g))"

text \<open>The loop of \<open>wakeNext\<close>: the slots in use and the requests woken.\<close>

fun wakeLoop :: "nat \<Rightarrow> nat \<Rightarrow> nat list \<Rightarrow> nat \<times> nat list \<times> nat list" where
  "wakeLoop maxInflight inflight [] = (inflight, [], [])"
| "wakeLoop maxInflight inflight (w # ws) =
     (if inflight < maxInflight
      then (case wakeLoop maxInflight (inflight + 1) ws of (n, woken, rest) \<Rightarrow> (n, w # woken, rest))
      else (inflight, [], w # ws))"

definition wakeNext :: "Gate \<Rightarrow> Gate" where
  "wakeNext g =
     (case wakeLoop (go_maxInflight (g_opts g)) (g_inflight g) (g_waiters g) of
        (n, woken, rest) \<Rightarrow>
          g\<lparr>g_inflight := n, g_waiters := rest, g_resolved := g_resolved g @ map (\<lambda>w. (w, Woken)) woken\<rparr>)"

definition releaser :: "nat \<Rightarrow> Gate \<Rightarrow> Gate" where
  "releaser i g =
     (if i \<notin> set (g_held g) then g
      else wakeNext (g\<lparr>g_held := remove1 i (g_held g), g_inflight := g_inflight g - 1\<rparr>))"

definition admitForLogging :: "Gate \<Rightarrow> GateDecision \<times> Gate" where
  "admitForLogging g =
     (let i = g_next g; m = go_maxInflight (g_opts g);
          wouldBe = (if g_inflight g \<ge> m
                     then (if g_inflight g - m \<ge> go_maxWaiting (g_opts g) then ShedFull else Queued)
                     else Admit)
      in (wouldBe, g\<lparr>g_next := i + 1, g_inflight := g_inflight g + 1, g_admitted := g_admitted g + 1, g_held := g_held g @ [i]\<rparr>))"

record GateStats =
  gs_inflight :: nat
  gs_waiting :: nat
  gs_admitted :: nat
  gs_queued :: nat
  gs_shed :: nat
  gs_maxInflight :: nat
  gs_maxWaiting :: nat

definition stats :: "Gate \<Rightarrow> GateStats" where
  "stats g = \<lparr>gs_inflight = g_inflight g, gs_waiting = length (g_waiters g), gs_admitted = g_admitted g,
     gs_queued = g_queued g, gs_shed = g_shed g, gs_maxInflight = go_maxInflight (g_opts g), gs_maxWaiting = go_maxWaiting (g_opts g)\<rparr>"

section \<open>Histories\<close>

text \<open>
  One operation of a gate.  \<open>logging\<close> says whether requests may be let through by \<open>admitForLogging\<close>, which
  only observes; a releaser may be called again, by any request at any time.
\<close>

inductive gateStep :: "bool \<Rightarrow> Gate \<Rightarrow> Gate \<Rightarrow> bool" for logging where
  Acquire: "gateStep logging g (snd (acquire g))"
| Timeout: "gateStep logging g (waiterTimeout i g)"
| Resume: "gateStep logging g (snd (resumeWaiter i g))"
| Release: "gateStep logging g (releaser i g)"
| Log: "logging \<Longrightarrow> gateStep logging g (snd (admitForLogging g))"

inductive_cases gateStepE: "gateStep logging g g'"

definition woken :: "Gate \<Rightarrow> nat" where
  "woken g = length (filter (\<lambda>r. snd r = Woken) (g_resolved g))"

text \<open>The requests that the gate knows: slot holders, resolved waiters and waiters.\<close>

definition known :: "Gate \<Rightarrow> nat list" where
  "known g = g_held g @ map fst (g_resolved g) @ g_waiters g"

definition idsOk :: "Gate \<Rightarrow> bool" where
  "idsOk g \<longleftrightarrow> distinct (known g) \<and> (\<forall>i\<in>set (known g). i < g_next g) \<and> sorted (g_waiters g)"

definition countsOk :: "Gate \<Rightarrow> bool" where
  "countsOk g \<longleftrightarrow> g_inflight g = length (g_held g) + woken g \<and>
     g_next g = g_admitted g + g_shed g + length (g_resolved g) + length (g_waiters g)"

definition boundsOk :: "bool \<Rightarrow> Gate \<Rightarrow> bool" where
  "boundsOk logging g \<longleftrightarrow>
     length (g_waiters g) \<le> go_maxWaiting (g_opts g) \<and>
     (g_waiters g \<noteq> [] \<longrightarrow> go_maxInflight (g_opts g) \<le> g_inflight g) \<and>
     (\<not> logging \<longrightarrow> g_inflight g \<le> go_maxInflight (g_opts g))"

definition gateInv :: "bool \<Rightarrow> Gate \<Rightarrow> bool" where
  "gateInv logging g \<longleftrightarrow> idsOk g \<and> countsOk g \<and> boundsOk logging g"

lemma idsOk_new:
  assumes "idsOk g" "mset (known g') = mset (g_next g # known g)" "g_next g' = g_next g + 1" "sorted (g_waiters g')"
  shows "idsOk g'"
proof -
  have "set (known g') = insert (g_next g) (set (known g))" using mset_eq_setD [OF assms(2)] by simp
  moreover have "distinct (known g')" using mset_eq_imp_distinct_iff [OF assms(2)] assms(1) by (auto simp: idsOk_def)
  ultimately show ?thesis using assms by (auto simp: idsOk_def less_Suc_eq)
qed

lemma idsOk_sub:
  assumes "idsOk g" "mset (known g') \<subseteq># mset (known g)" "g_next g \<le> g_next g'" "sorted (g_waiters g')"
  shows "idsOk g'"
proof -
  have "set (known g') \<subseteq> set (known g)" using set_mset_mono [OF assms(2)] by simp
  moreover have "distinct (known g')"
    unfolding distinct_count_atmost_1
  proof
    fix a
    have "count (mset (known g')) a \<le> count (mset (known g)) a" using assms(2) by (rule mset_subset_eq_count)
    also have "\<dots> \<le> 1" using assms(1) by (simp add: idsOk_def distinct_count_atmost_1)
    finally have "count (mset (known g')) a \<le> 1" .
    moreover have "count (mset (known g')) a = 0 \<longleftrightarrow> a \<notin> set (known g')" by (simp add: count_eq_zero_iff)
    ultimately show "count (mset (known g')) a = (if a \<in> set (known g') then 1 else 0)" by (simp add: le_Suc_eq split: if_splits)
  qed
  ultimately show ?thesis using assms by (fastforce simp: idsOk_def)
qed

lemma newGate_inv: "gateInv logging (newGate opts)"
  by (simp add: gateInv_def idsOk_def countsOk_def boundsOk_def known_def newGate_def woken_def)

lemma known_less: "idsOk g \<Longrightarrow> i \<in> set (known g) \<Longrightarrow> i < g_next g"
  by (simp add: idsOk_def)

lemma acquire_inv:
  assumes "gateInv logging g"
  shows "gateInv logging (snd (acquire g))"
proof -
  have ids: "idsOk g" and c: "countsOk g" and b: "boundsOk logging g" using assms by (simp_all add: gateInv_def)
  have "\<forall>w\<in>set (g_waiters g). w \<le> g_next g"
    by (auto intro!: less_imp_le known_less [OF ids] simp: known_def)
  then have w: "sorted (g_waiters g @ [g_next g])" using ids by (simp add: idsOk_def sorted_append)
  show ?thesis
  proof (cases "g_inflight g < go_maxInflight (g_opts g)")
    case True
    then have "idsOk (snd (acquire g))"
      using ids by (intro idsOk_new [OF ids]) (simp_all add: acquire_def known_def idsOk_def Let_def)
    with True c b show ?thesis
      by (auto simp: gateInv_def countsOk_def boundsOk_def acquire_def woken_def Let_def)
  next
    case False
    note full = this
    show ?thesis
    proof (cases "go_maxWaiting (g_opts g) \<le> length (g_waiters g)")
      case True
      then have "idsOk (snd (acquire g))"
        using ids full by (intro idsOk_sub [OF ids]) (simp_all add: acquire_def known_def idsOk_def Let_def)
      with True full c b show ?thesis
        by (auto simp: gateInv_def countsOk_def boundsOk_def acquire_def woken_def Let_def)
    next
      case False
      then have "idsOk (snd (acquire g))"
        using w full by (intro idsOk_new [OF ids]) (simp_all add: acquire_def known_def Let_def)
      with False full c b show ?thesis
        by (auto simp: gateInv_def countsOk_def boundsOk_def acquire_def woken_def Let_def)
    qed
  qed
qed

lemma admitForLogging_inv:
  assumes "gateInv True g"
  shows "gateInv True (snd (admitForLogging g))"
proof -
  have ids: "idsOk g" and c: "countsOk g" and b: "boundsOk True g" using assms by (simp_all add: gateInv_def)
  have "idsOk (snd (admitForLogging g))"
    using ids by (intro idsOk_new [OF ids]) (simp_all add: admitForLogging_def known_def idsOk_def Let_def)
  with c b show ?thesis
    by (auto simp: gateInv_def countsOk_def boundsOk_def admitForLogging_def woken_def Let_def)
qed

lemma waiterTimeout_inv:
  assumes "gateInv logging g"
  shows "gateInv logging (waiterTimeout i g)"
proof (cases "i \<in> set (g_waiters g)")
  case True
  have ids: "idsOk g" and c: "countsOk g" and b: "boundsOk logging g" using assms by (simp_all add: gateInv_def)
  have "idsOk (waiterTimeout i g)"
    using True ids by (intro idsOk_sub [OF ids]) (auto simp: waiterTimeout_def known_def idsOk_def sorted_remove1)
  moreover have "length (g_waiters g) \<noteq> 0" "g_waiters g \<noteq> []" using True by auto
  ultimately show ?thesis
    using True c b by (auto simp: gateInv_def countsOk_def boundsOk_def waiterTimeout_def woken_def length_remove1)
qed (use assms in \<open>simp add: waiterTimeout_def\<close>)

lemma remove_resolved:
  assumes "distinct (map fst rs)" "map_of rs i = Some d"
  shows "mset rs = add_mset (i, d) (mset (filter (\<lambda>r. fst r \<noteq> i) rs))"
  using assms
proof (induction rs)
  case (Cons r rs)
  show ?case
  proof (cases "fst r = i")
    case True
    then have "i \<notin> fst ` set rs" using Cons.prems by simp
    then have "\<forall>x\<in>set rs. fst x \<noteq> i" by blast
    then have "filter (\<lambda>r. fst r \<noteq> i) rs = rs" by (simp add: filter_id_conv)
    with True Cons.prems show ?thesis by (cases r) auto
  next
    case False
    with Cons show ?thesis by (cases r) auto
  qed
qed simp

lemma resumeWaiter_inv:
  assumes "gateInv logging g"
  shows "gateInv logging (snd (resumeWaiter i g))"
proof (cases "map_of (g_resolved g) i")
  case (Some d)
  have ids: "idsOk g" and c: "countsOk g" and b: "boundsOk logging g" using assms by (simp_all add: gateInv_def)
  have r: "mset (g_resolved g) = add_mset (i, d) (mset (filter (\<lambda>r. fst r \<noteq> i) (g_resolved g)))"
    using ids by (intro remove_resolved Some) (simp add: idsOk_def known_def)
  from arg_cong [OF this, of size] arg_cong [OF this, of "\<lambda>m. size (filter_mset (\<lambda>r. snd r = Woken) m)"]
    arg_cong [OF this, of "image_mset fst"]
  have k: "length (g_resolved g) = Suc (length (filter (\<lambda>r. fst r \<noteq> i) (g_resolved g)))"
    "woken g = length (filter (\<lambda>r. snd r = Woken) (filter (\<lambda>r. fst r \<noteq> i) (g_resolved g))) + (if d = Woken then 1 else 0)"
    "mset (map fst (g_resolved g)) = add_mset i (mset (map fst (filter (\<lambda>r. fst r \<noteq> i) (g_resolved g))))"
    by (simp_all add: woken_def flip: mset_filter size_mset)
  have "idsOk (snd (resumeWaiter i g))"
    using ids k(3) Some by (intro idsOk_sub [OF ids]) (cases d; auto simp: resumeWaiter_def known_def idsOk_def Let_def)+
  with k(1,2) c b Some show ?thesis
    by (cases d) (auto simp: gateInv_def countsOk_def boundsOk_def resumeWaiter_def woken_def Let_def)
qed (use assms in \<open>simp add: resumeWaiter_def Let_def\<close>)

lemma wakeLoop_spec:
  "wakeLoop m n ws = (n', wk, rest) \<Longrightarrow>
     ws = wk @ rest \<and> n' = n + length wk \<and> (rest \<noteq> [] \<longrightarrow> m \<le> n') \<and> (wk \<noteq> [] \<longrightarrow> n' \<le> m)"
  by (induction m n ws arbitrary: n' wk rest rule: wakeLoop.induct) (fastforce split: if_splits prod.splits)+

lemma wakeNext_spec:
  obtains wk where "g_waiters g = wk @ g_waiters (wakeNext g)" "g_inflight (wakeNext g) = g_inflight g + length wk"
    "g_resolved (wakeNext g) = g_resolved g @ map (\<lambda>w. (w, Woken)) wk"
    "g_waiters (wakeNext g) \<noteq> [] \<longrightarrow> go_maxInflight (g_opts g) \<le> g_inflight (wakeNext g)"
    "wk \<noteq> [] \<longrightarrow> g_inflight (wakeNext g) \<le> go_maxInflight (g_opts g)"
    "g_held (wakeNext g) = g_held g" "g_next (wakeNext g) = g_next g" "g_opts (wakeNext g) = g_opts g"
    "g_admitted (wakeNext g) = g_admitted g" "g_shed (wakeNext g) = g_shed g"
proof -
  obtain n wk rest where w: "wakeLoop (go_maxInflight (g_opts g)) (g_inflight g) (g_waiters g) = (n, wk, rest)"
    by (cases "wakeLoop (go_maxInflight (g_opts g)) (g_inflight g) (g_waiters g)") auto
  have e: "wakeNext g = g\<lparr>g_inflight := n, g_waiters := rest, g_resolved := g_resolved g @ map (\<lambda>w. (w, Woken)) wk\<rparr>"
    by (simp add: wakeNext_def w)
  show ?thesis using wakeLoop_spec [OF w] by (intro that [of wk]) (auto simp: e)
qed

lemma releaser_inv:
  assumes "gateInv logging g"
  shows "gateInv logging (releaser i g)"
proof (cases "i \<in> set (g_held g)")
  case True
  have ids: "idsOk g" and c: "countsOk g" and b: "boundsOk logging g" using assms by (simp_all add: gateInv_def)
  define h where "h = g\<lparr>g_held := remove1 i (g_held g), g_inflight := g_inflight g - 1\<rparr>"
  have r: "releaser i g = wakeNext h" using True by (simp add: releaser_def h_def)
  obtain m where pos: "length (g_held g) = Suc m" using True by (cases "g_held g") auto
  obtain wk where wk: "g_waiters g = wk @ g_waiters (wakeNext h)" "g_inflight (wakeNext h) = g_inflight g - 1 + length wk"
    "g_resolved (wakeNext h) = g_resolved g @ map (\<lambda>w. (w, Woken)) wk"
    "g_waiters (wakeNext h) \<noteq> [] \<longrightarrow> go_maxInflight (g_opts g) \<le> g_inflight (wakeNext h)"
    "wk \<noteq> [] \<longrightarrow> g_inflight (wakeNext h) \<le> go_maxInflight (g_opts g)"
    "g_held (wakeNext h) = remove1 i (g_held g)" "g_next (wakeNext h) = g_next g" "g_opts (wakeNext h) = g_opts g"
    "g_admitted (wakeNext h) = g_admitted g" "g_shed (wakeNext h) = g_shed g"
    by (rule wakeNext_spec [of h]) (simp_all add: h_def)
  have held: "mset (g_held g) = add_mset i (mset (remove1 i (g_held g)))" using True by simp
  have "sorted (g_waiters (wakeNext h))" using ids wk(1) by (simp add: idsOk_def sorted_append)
  moreover have "mset (known (wakeNext h)) \<subseteq># mset (known g)"
  proof -
    have "mset (known (wakeNext h)) = mset (remove1 i (g_held g)) + (mset (map fst (g_resolved g)) + mset wk + mset (g_waiters (wakeNext h)))"
      by (simp add: known_def wk(3,6) o_def del: mset_remove1)
    moreover have "mset (g_waiters g) = mset wk + mset (g_waiters (wakeNext h))" using wk(1) by (metis mset_append)
    then have "mset (known g) = add_mset i (mset (remove1 i (g_held g))) + (mset (map fst (g_resolved g)) + mset wk + mset (g_waiters (wakeNext h)))"
      using held by (simp only: known_def mset_append add.assoc)
    ultimately show ?thesis by simp
  qed
  ultimately have i: "idsOk (wakeNext h)" using wk(7) by (intro idsOk_sub [OF ids]) simp_all
  have len: "length (g_waiters g) = length wk + length (g_waiters (wakeNext h))" using wk(1) by (metis length_append)
  have "woken (wakeNext h) = woken g + length wk" by (simp add: woken_def wk(3) filter_map o_def)
  with c pos len wk have "countsOk (wakeNext h)" using True by (simp add: countsOk_def length_remove1)
  moreover have "boundsOk logging (wakeNext h)" using b len wk(2,4,5,8) by (cases "wk = []") (auto simp: boundsOk_def)
  ultimately show ?thesis using i by (simp add: r gateInv_def)
qed (use assms in \<open>simp add: releaser_def\<close>)

lemma gateStep_inv: "gateInv logging g \<Longrightarrow> gateStep logging g g' \<Longrightarrow> gateInv logging g'"
proof (erule gateStepE)
  assume inv: "gateInv logging g" and l: logging and g': "g' = snd (admitForLogging g)"
  from l have t: "logging = True" by simp
  show "gateInv logging g'" unfolding t g' by (rule admitForLogging_inv) (use inv t in simp)
qed (simp_all add: acquire_inv waiterTimeout_inv resumeWaiter_inv releaser_inv)

definition isNewGate :: "Gate \<Rightarrow> bool" where
  "isNewGate g \<longleftrightarrow> (\<exists>opts. g = newGate opts)"

interpretation gate: step_system isNewGate "gateStep logging" "gateInv logging" for logging
  by unfold_locales (auto simp: isNewGate_def newGate_inv intro: gateStep_inv)

section \<open>What the gate guarantees\<close>

text \<open>
  C37: in every history of a gate without log mode no more than \<open>maxInflight\<close> requests are in flight and no
  more than \<open>maxWaiting\<close> wait, and a request waits only while every slot is taken.  The in-flight counter is the
  number of requests that hold a slot or have been woken to take one, and every request that asked is counted
  exactly once as admitted, shed, woken, timed out or waiting.
\<close>

theorem gate_is_bounded_and_exact:
  assumes "(gateStep False)\<^sup>*\<^sup>* (newGate opts) g"
  shows "g_inflight g \<le> go_maxInflight (g_opts g) \<and> length (g_waiters g) \<le> go_maxWaiting (g_opts g) \<and>
    (g_waiters g = [] \<or> g_inflight g = go_maxInflight (g_opts g)) \<and>
    g_inflight g = length (g_held g) + woken g \<and>
    g_next g = g_admitted g + g_shed g + length (g_resolved g) + length (g_waiters g)"
proof -
  have "isNewGate (newGate opts)" by (auto simp: isNewGate_def)
  from gate.reachable_inv [OF this assms] show ?thesis
    by (auto simp: gateInv_def countsOk_def boundsOk_def)
qed

definition smallGate :: Gate where
  "smallGate = newGate \<lparr>go_maxInflight = 1, go_maxWaiting = 1, go_maxWaitMs = 100\<rparr>"

definition busyGate :: Gate where
  "busyGate = snd (acquire (snd (acquire (snd (acquire smallGate)))))"

lemma busyGate_reachable: "(gateStep False)\<^sup>*\<^sup>* smallGate busyGate"
proof -
  have step: "(gateStep False)\<^sup>*\<^sup>* smallGate g \<Longrightarrow> (gateStep False)\<^sup>*\<^sup>* smallGate (snd (acquire g))" for g
    by (rule rtranclp.rtrancl_into_rtrancl) (auto intro: gateStep.Acquire)
  show ?thesis unfolding busyGate_def by (intro step rtranclp.rtrancl_refl)
qed

lemma busyGate: "g_inflight busyGate = 1" "g_waiters busyGate = [1]" "g_held busyGate = [0]" "g_shed busyGate = 1" "g_resolved busyGate = []"
  by (simp_all add: busyGate_def smallGate_def newGate_def acquire_def Let_def)

theorem gate_is_bounded_and_exact_witness:
  "g_inflight busyGate \<le> go_maxInflight (g_opts busyGate) \<and> length (g_waiters busyGate) = 1 \<and> g_next busyGate = 3"
  using gate_is_bounded_and_exact [OF busyGate_reachable [unfolded smallGate_def]] busyGate
  by (simp add: busyGate_def smallGate_def newGate_def acquire_def Let_def)

text \<open>
  C38: slots are handed on in the order of arrival.  In every history without log mode, when a request
  that holds a slot is released while others wait, exactly the one that has waited longest is woken, the slot
  count stays the same, and calling the releaser again changes nothing.
\<close>

theorem freed_slot_goes_to_oldest_waiter:
  assumes "(gateStep False)\<^sup>*\<^sup>* (newGate opts) g" "i \<in> set (g_held g)" "g_waiters g = w # ws" "0 < go_maxInflight (g_opts g)"
  shows "g_waiters (releaser i g) = ws \<and> g_resolved (releaser i g) = g_resolved g @ [(w, Woken)] \<and>
    g_inflight (releaser i g) = g_inflight g \<and> (\<forall>v\<in>set ws. w < v) \<and> releaser i (releaser i g) = releaser i g"
proof -
  have new: "isNewGate (newGate opts)" by (auto simp: isNewGate_def)
  have inv: "gateInv False g" using gate.reachable_inv [OF new assms(1)] .
  define h where "h = g\<lparr>g_held := remove1 i (g_held g), g_inflight := g_inflight g - 1\<rparr>"
  have full: "g_inflight g = go_maxInflight (g_opts g)" using inv assms(3) by (simp add: gateInv_def boundsOk_def)
  have d: "distinct (g_held g)" "distinct (g_waiters g)" "sorted (g_waiters g)" using inv by (auto simp: gateInv_def idsOk_def known_def)
  have r: "releaser i g = wakeNext h" using assms(2) by (simp add: releaser_def h_def)
  have stop: "wakeLoop m m ws = (m, [], ws)" for m by (cases ws) simp_all
  have "wakeLoop (go_maxInflight (g_opts g)) (go_maxInflight (g_opts g) - 1) (w # ws) = (go_maxInflight (g_opts g), [w], ws)"
    using assms(4) stop [of "go_maxInflight (g_opts g)"] by simp
  then have s: "wakeNext h = h\<lparr>g_inflight := g_inflight g, g_waiters := ws, g_resolved := g_resolved g @ [(w, Woken)]\<rparr>"
    using assms(3) full by (simp add: wakeNext_def h_def)
  have "\<forall>v\<in>set ws. w < v" using d assms(3) by (auto simp: le_less)
  moreover have "i \<notin> set (g_held (releaser i g))" unfolding r s using d by (simp add: h_def)
  then have "releaser i (releaser i g) = releaser i g" by (subst releaser_def) simp
  ultimately show ?thesis unfolding r s by (simp add: h_def)
qed

theorem freed_slot_goes_to_oldest_waiter_witness:
  "g_resolved (releaser 0 busyGate) = [(1, Woken)] \<and> g_inflight (releaser 0 busyGate) = 1"
proof -
  have "go_maxInflight (g_opts busyGate) = 1" by (simp add: busyGate_def smallGate_def newGate_def acquire_def Let_def)
  then show ?thesis
    using freed_slot_goes_to_oldest_waiter [OF busyGate_reachable [unfolded smallGate_def], of 0 1 "[]"] busyGate by simp
qed

end
