(* ===== verification/JsNumber.thy ===== *)
theory JsNumber
  imports Prelude Complex_Main
begin

text \<open>
  JavaScript numbers as exact rationals: rounding a decimal to the nearest double, as \<open>Number\<close> does
  with a literal, and the text a template literal renders a double as.  The sign of zero is not kept
  (the program compares and prints the two zeros alike); NaN and the infinities are no values: where
  the program can meet one, an operation answers \<open>None\<close>.
\<close>

section \<open>Rounding to a double\<close>

definition pow2 :: "int \<Rightarrow> rat" where
  "pow2 e = (if 0 \<le> e then 2 ^ nat e else 1 / 2 ^ nat (- e))"

definition pow10 :: "int \<Rightarrow> rat" where
  "pow10 e = (if 0 \<le> e then 10 ^ nat e else 1 / 10 ^ nat (- e))"

fun bitLength :: "nat \<Rightarrow> nat" where
  "bitLength n = (if n = 0 then 0 else Suc (bitLength (n div 2)))"

declare bitLength.simps [simp del]

text \<open>The exponent of the leading bit of a positive number.\<close>

definition leadingBit :: "rat \<Rightarrow> int" where
  "leadingBit x =
     (case quotient_of x of (a, b) \<Rightarrow>
        let e = int (bitLength (nat a)) - int (bitLength (nat b)) in if pow2 e \<le> x then e else e - 1)"

definition roundEven :: "rat \<Rightarrow> int" where
  "roundEven x =
     (let f = \<lfloor>x\<rfloor>; d = x - of_int f
      in if d < 1 / 2 then f else if 1 / 2 < d then f + 1 else if even f then f else f + 1)"

text \<open>The nearest double, ties to even; \<open>None\<close> is an infinity.\<close>

definition toDouble :: "rat \<Rightarrow> rat option" where
  "toDouble x =
     (if x = 0 then Some 0
      else (let e = max (leadingBit \<bar>x\<bar> - 52) (- 1074);
                y = of_int (roundEven (\<bar>x\<bar> / pow2 e)) * pow2 e
            in if pow2 1024 \<le> y then None else Some (if x < 0 then - y else y)))"

section \<open>The text of a number\<close>

text \<open>
  \<open>Number::toString\<close>: the fewest digits that still round to the number, then one of the four layouts
  by the position \<open>n\<close> of the decimal point.  The result of \<open>shortest\<close> is the digits and \<open>n\<close>.
\<close>

definition pointAt :: "rat \<Rightarrow> int" where
  "pointAt v =
     (case quotient_of v of (a, b) \<Rightarrow>
        let e = int (length (show_nat (nat a))) - int (length (show_nat (nat b)))
        in if pow10 e \<le> v then e + 1 else e)"

definition withDigits :: "rat \<Rightarrow> int \<Rightarrow> nat \<Rightarrow> nat option" where
  "withDigits v n k =
     (let q = v / pow10 (n - int k); lo = \<lfloor>q\<rfloor>; hi = \<lceil>q\<rceil>;
          ok = (\<lambda>s. toDouble (of_int s * pow10 (n - int k)) = Some v)
      in if ok lo \<and> (q - of_int lo \<le> of_int hi - q \<or> \<not> ok hi) then Some (nat lo)
         else if ok hi then Some (nat hi) else None)"

definition shortest :: "rat \<Rightarrow> jstr \<times> int" where
  "shortest v =
     (let n = pointAt v;
          k = (case find (\<lambda>k. withDigits v n k \<noteq> None) [1..<18] of Some k \<Rightarrow> k | None \<Rightarrow> 17);
          s = (case withDigits v n k of Some s \<Rightarrow> s | None \<Rightarrow> nat (roundEven (v / pow10 (n - int k))))
      in if s = 10 ^ k then (js ''1'', n + 1) else (show_nat s, n))"

definition layout :: "jstr \<Rightarrow> int \<Rightarrow> jstr" where
  "layout ds n =
     (let k = int (length ds); zeros = (\<lambda>i. replicate (nat i) (ch CHR ''0''));
          e = (if 0 < n then js ''e+'' @ show_nat (nat (n - 1)) else js ''e-'' @ show_nat (nat (1 - n)))
      in if k \<le> n \<and> n \<le> 21 then ds @ zeros (n - k)
         else if 0 < n \<and> n \<le> 21 then take (nat n) ds @ js ''.'' @ drop (nat n) ds
         else if - 6 < n \<and> n \<le> 0 then js ''0.'' @ zeros (- n) @ ds
         else if k = 1 then ds @ e
         else take 1 ds @ js ''.'' @ drop 1 ds @ e)"

definition show_number :: "rat \<Rightarrow> jstr" where
  "show_number x =
     (if x = 0 then js ''0''
      else (case shortest \<bar>x\<bar> of (ds, n) \<Rightarrow> (if x < 0 then js ''-'' else []) @ layout ds n))"

definition isInteger :: "rat \<Rightarrow> bool" where
  "isInteger x \<longleftrightarrow> of_int \<lfloor>x\<rfloor> = x"

section \<open>Numbers from text\<close>

definition digitsIn :: "int \<Rightarrow> jstr \<Rightarrow> int option" where
  "digitsIn base s =
     (let val = (\<lambda>c. if is_digit c then c - 48 else if 97 \<le> c \<and> c \<le> 102 then c - 87 else if 65 \<le> c \<and> c \<le> 70 then c - 55 else 99)
      in if s \<noteq> [] \<and> list_all (\<lambda>c. val c < base) s then Some (foldl (\<lambda>a c. base * a + val c) 0 s) else None)"

definition signOf :: "jstr \<Rightarrow> int \<times> jstr" where
  "signOf s = (if nth_opt s 0 = Some (ch CHR ''-'') then (-1, tl s) else if nth_opt s 0 = Some (ch CHR ''+'') then (1, tl s) else (1, s))"

definition exponentOf :: "jstr \<Rightarrow> int option" where
  "exponentOf s =
     (if s = [] then Some 0
      else if hd s = ch CHR ''e'' \<or> hd s = ch CHR ''E''
      then map_option (\<lambda>n. fst (signOf (tl s)) * n) (digitsIn 10 (snd (signOf (tl s)))) else None)"

definition decimalOf :: "jstr \<Rightarrow> rat option" where
  "decimalOf s =
     (let whole = takeWhile is_digit s; rest = dropWhile is_digit s;
          dotted = (nth_opt rest 0 = Some (ch CHR ''.''));
          frac = (if dotted then takeWhile is_digit (tl rest) else []);
          rest' = (if dotted then dropWhile is_digit (tl rest) else rest)
      in case (digitsIn 10 (whole @ frac), exponentOf rest') of
           (Some m, Some e) \<Rightarrow>
             (let k = e - int (length frac) in
              Some (if 0 \<le> k then of_int m * 10 ^ nat k else of_int m / 10 ^ nat (- k)))
         | _ \<Rightarrow> None)"

text \<open>\<open>Number(s)\<close>; \<open>None\<close> is NaN or an infinity.\<close>

definition js_number :: "jstr \<Rightarrow> rat option" where
  "js_number s =
     (let t = js_trim s; p = js_lower (take 2 t) in
      if t = [] then Some 0
      else if p = js ''0x'' then map_option of_int (digitsIn 16 (drop 2 t))
      else if p = js ''0o'' then map_option of_int (digitsIn 8 (drop 2 t))
      else if p = js ''0b'' then map_option of_int (digitsIn 2 (drop 2 t))
      else map_option (\<lambda>d. of_int (fst (signOf t)) * d) (decimalOf (snd (signOf t))))"

end
