(* ===== verification/Admission.thy ===== *)
theory Admission
  imports TokenBucket ConcurrencyGate JsNumber
begin

text \<open>
  Admission control, \<open>modules/admission/admission-limits.ts\<close> and \<open>admission.service.ts\<close>: the limits of a plan,
  the configuration from the environment, and the service that takes a token from the project's bucket and a
  slot of the lane's gate for every request.

  The environment, the plan found in the database, the clock, the drain flag and whether Redis answers are
  parameters of a request.  Log lines and gauges are left out; the counters are the list of their increments.
  Numbers are exact: values outside the range of a double are not modelled, nor are plans named like a member
  that every JavaScript object inherits.
\<close>

section \<open>Limits and configuration\<close>

definition limitsRec :: "rat \<Rightarrow> rat \<Rightarrow> BucketLimits" where
  "limitsRec rate burst = \<lparr>bl_rate = rate, bl_burst = burst\<rparr>"

definition DEFAULT_PLAN_LIMITS :: "(jstr \<times> BucketLimits) list" where
  "DEFAULT_PLAN_LIMITS =
     [(js ''free'', limitsRec 50 100), (js ''pro'', limitsRec 200 400), (js ''business'', limitsRec 500 1000),
      (js ''enterprise'', limitsRec 2000 4000), (js ''dedicated'', limitsRec 2000 4000)]"

definition FALLBACK_LIMITS :: BucketLimits where
  "FALLBACK_LIMITS = limitsRec 50 100"

definition DASHBOARD_USER_LIMITS :: BucketLimits where
  "DASHBOARD_USER_LIMITS = limitsRec 100 300"

text \<open>A feature value: a finite number, a text, or anything else.\<close>

datatype Feature = FeatureNumber rat | FeatureText jstr | FeatureOther

definition positive :: "Feature option \<Rightarrow> rat option" where
  "positive v =
     (case (case v of Some (FeatureNumber n) \<Rightarrow> Some n | Some (FeatureText s) \<Rightarrow> js_number s | _ \<Rightarrow> None) of
        Some n \<Rightarrow> if n > 0 then Some n else None
      | None \<Rightarrow> None)"

text \<open>\<open>a ?? b\<close>.\<close>

definition orElse :: "'a option \<Rightarrow> 'a \<Rightarrow> 'a" where
  "orElse a b = (case a of Some x \<Rightarrow> x | None \<Rightarrow> b)"

definition limitsForPlan :: "jstr option \<Rightarrow> (jstr \<times> Feature) list \<Rightarrow> BucketLimits" where
  "limitsForPlan planName features =
     (let base = orElse (map_of DEFAULT_PLAN_LIMITS (js_lower (orElse planName []))) FALLBACK_LIMITS;
          feature = (\<lambda>n. positive (map_of features (js n)));
          rate = orElse (feature ''api_rps'') (orElse (feature ''apiRps'') (bl_rate base));
          burst = orElse (feature ''api_burst'') (orElse (feature ''apiBurst'') (max rate (bl_burst base)))
      in limitsRec rate (max burst rate))"

datatype AdmissionMode = ModeOff | ModeLog | ModeEnforce

type_synonym environment = "jstr \<Rightarrow> jstr option"

definition admissionMode :: "environment \<Rightarrow> AdmissionMode" where
  "admissionMode env =
     (let raw = orElse (env (js ''ADMISSION_MODE'')) [];
          v = js_lower (js_trim (if raw = [] then js ''log'' else raw))
      in if v = js ''off'' then ModeOff else if v = js ''enforce'' then ModeEnforce else ModeLog)"

record AdmissionConfig =
  ac_mode :: AdmissionMode
  ac_maxInflight :: nat
  ac_maxWaiting :: nat
  ac_maxWaitMs :: nat
  ac_dashboardShare :: rat

definition envInt :: "environment \<Rightarrow> string \<Rightarrow> nat \<Rightarrow> nat" where
  "envInt env name fallback =
     (case env (js name) of
        None \<Rightarrow> fallback
      | Some s \<Rightarrow> (case js_number s of Some n \<Rightarrow> if n > 0 then nat \<lfloor>n\<rfloor> else fallback | None \<Rightarrow> fallback))"

definition admissionConfig :: "environment \<Rightarrow> AdmissionConfig" where
  "admissionConfig env =
     \<lparr>ac_mode = admissionMode env,
      ac_maxInflight = envInt env ''ADMISSION_MAX_INFLIGHT'' 200,
      ac_maxWaiting = envInt env ''ADMISSION_MAX_WAITING'' 400,
      ac_maxWaitMs = envInt env ''ADMISSION_MAX_WAIT_MS'' 1500,
      ac_dashboardShare = min (9 / 10) (max (1 / 20) (of_nat (envInt env ''ADMISSION_DASHBOARD_SHARE'' 30) / 100))\<rparr>"

section \<open>The service\<close>

datatype Lane = Customer | Dashboard | Anonymous

record RequestFacts =
  rf_projectId :: "jstr option"
  rf_userId :: "jstr option"

datatype Decision = DAdmit | DQueued | DOverloaded | DRateLimited | DDraining

record Outcome =
  oc_decision :: Decision
  oc_lane :: Lane
  oc_enforced :: bool
  oc_bucket :: "BucketResult option"

record AdmissionService =
  as_config :: AdmissionConfig
  as_gates :: "Lane \<Rightarrow> Gate"
  as_memoryBucket :: memory_bucket
  as_planCache :: "(jstr \<times> int \<times> BucketLimits) list"
  as_redisBucketBroken :: int
  as_counts :: "(bool \<times> Decision \<times> Lane) list"

definition js_round :: "rat \<Rightarrow> nat" where
  "js_round x = nat \<lfloor>x + 1 / 2\<rfloor>"

definition laneOptions :: "AdmissionConfig \<Rightarrow> Lane \<Rightarrow> GateOptions" where
  "laneOptions c lane =
     (let dash = max 1 (js_round (of_nat (ac_maxInflight c) * ac_dashboardShare c));
          cust = max 1 (ac_maxInflight c - dash)
      in if lane = Dashboard
         then \<lparr>go_maxInflight = dash, go_maxWaiting = js_round (of_nat (ac_maxWaiting c) * ac_dashboardShare c), go_maxWaitMs = ac_maxWaitMs c\<rparr>
         else \<lparr>go_maxInflight = cust, go_maxWaiting = js_round (of_nat (ac_maxWaiting c) * (1 - ac_dashboardShare c)), go_maxWaitMs = ac_maxWaitMs c\<rparr>)"

definition newService :: "environment \<Rightarrow> AdmissionService" where
  "newService env =
     \<lparr>as_config = admissionConfig env, as_gates = (\<lambda>lane. newGate (laneOptions (admissionConfig env) lane)),
      as_memoryBucket = Map.empty, as_planCache = [], as_redisBucketBroken = 0, as_counts = []\<rparr>"

definition reconfigure :: "environment \<Rightarrow> AdmissionService \<Rightarrow> AdmissionService" where
  "reconfigure env s = s\<lparr>as_config := admissionConfig env\<rparr>"

text \<open>A missing and an empty id count alike.\<close>

definition present :: "jstr option \<Rightarrow> jstr option" where
  "present x = (if x = Some [] then None else x)"

definition laneFor :: "RequestFacts \<Rightarrow> Lane" where
  "laneFor facts =
     (if present (rf_projectId facts) \<noteq> None then Customer else if present (rf_userId facts) \<noteq> None then Dashboard else Anonymous)"

text \<open>
  What the outside answers during one request: the time, whether the process drains, the plan of a project
  (\<open>None\<close> when the lookup fails or there is no project) and whether Redis answers the script.
\<close>

record Outside =
  os_now :: int
  os_draining :: bool
  os_plan :: "jstr \<Rightarrow> (jstr option \<times> (jstr \<times> Feature) list) option"
  os_redisUp :: bool

definition PLAN_CACHE_MS :: int where
  "PLAN_CACHE_MS = 60000"

definition planLimits :: "Outside \<Rightarrow> jstr \<Rightarrow> BucketLimits" where
  "planLimits out projectId =
     (case os_plan out projectId of Some (planName, features) \<Rightarrow> limitsForPlan planName features | None \<Rightarrow> limitsForPlan None [])"

definition limitsForProject :: "Outside \<Rightarrow> jstr \<Rightarrow> AdmissionService \<Rightarrow> BucketLimits \<times> AdmissionService" where
  "limitsForProject out projectId s =
     (let fresh = (case map_of (as_planCache s) projectId of
                     Some (since, limits) \<Rightarrow> if os_now out - since < PLAN_CACHE_MS then Some limits else None
                   | None \<Rightarrow> None)
      in case fresh of
           Some limits \<Rightarrow> (limits, s)
         | None \<Rightarrow>
             (let limits = planLimits out projectId;
                  cache = setKey projectId (os_now out, limits) (as_planCache s)
              in (limits, s\<lparr>as_planCache := (if length cache > 5000 then tl cache else cache)\<rparr>)))"

text \<open>The bucket of a request: Redis, or the memory of the process for 30 seconds after a failure.\<close>

definition takeFrom :: "Outside \<Rightarrow> jstr \<Rightarrow> BucketLimits \<Rightarrow> AdmissionService \<Rightarrow> redis \<Rightarrow> BucketResult \<times> AdmissionService \<times> redis" where
  "takeFrom out key limits s db =
     (let now = os_now out;
          inMemory = (\<lambda>s. case memoryTake key limits now 1 (as_memoryBucket s) of (r, m) \<Rightarrow> (r, s\<lparr>as_memoryBucket := m\<rparr>, db))
      in if as_redisBucketBroken s > now then inMemory s
         else if os_redisUp out then (case redisTake key limits now 1 db of (r, db') \<Rightarrow> (r, s, db'))
         else inMemory (s\<lparr>as_redisBucketBroken := now + 30000\<rparr>))"

definition takeToken :: "Outside \<Rightarrow> RequestFacts \<Rightarrow> Lane \<Rightarrow> AdmissionService \<Rightarrow> redis \<Rightarrow> BucketResult option \<times> AdmissionService \<times> redis" where
  "takeToken out facts lane s db =
     (case (lane, present (rf_projectId facts), present (rf_userId facts)) of
        (Customer, Some p, _) \<Rightarrow>
          (case limitsForProject out p s of (limits, s') \<Rightarrow>
           case takeFrom out (js ''adm:p:'' @ p) limits s' db of (r, w) \<Rightarrow> (Some r, w))
      | (Dashboard, _, Some u) \<Rightarrow>
          (case takeFrom out (js ''adm:u:'' @ u) DASHBOARD_USER_LIMITS s db of (r, w) \<Rightarrow> (Some r, w))
      | _ \<Rightarrow> (None, s, db))"

definition mapDecision :: "GateDecision \<Rightarrow> Decision" where
  "mapDecision d = (case d of Admit \<Rightarrow> DAdmit | Queued \<Rightarrow> DQueued | _ \<Rightarrow> DOverloaded)"

definition countDecision :: "Decision \<Rightarrow> Lane \<Rightarrow> bool \<Rightarrow> AdmissionService \<Rightarrow> AdmissionService" where
  "countDecision d lane enforced s = s\<lparr>as_counts := as_counts s @ [(enforced, d, lane)]\<rparr>"

definition setGate :: "Lane \<Rightarrow> Gate \<Rightarrow> AdmissionService \<Rightarrow> AdmissionService" where
  "setGate lane g s = s\<lparr>as_gates := (as_gates s)(lane := g)\<rparr>"

definition rejected :: "BucketResult option \<Rightarrow> bool" where
  "rejected bucket = (case bucket of Some b \<Rightarrow> \<not> br_allowed b | None \<Rightarrow> False)"

text \<open>
  \<open>admit\<close> up to the answer of the gate; the second result is the number that the gate gave the request when
  it must be released later.  \<open>None\<close> as outcome: the request waits, and its outcome is given by \<open>resumed\<close>.
\<close>

definition admitGate :: "Lane \<Rightarrow> bool \<Rightarrow> BucketResult option \<Rightarrow> AdmissionService \<Rightarrow> (Outcome option \<times> nat option) \<times> AdmissionService" where
  "admitGate lane enforced bucket s =
     (let g = as_gates s lane; i = g_next g;
          out = (\<lambda>d. \<lparr>oc_decision = d, oc_lane = lane, oc_enforced = enforced, oc_bucket = bucket\<rparr>)
      in if \<not> enforced then
           (case admitForLogging g of (wouldBe, g') \<Rightarrow>
             ((Some (out DAdmit), Some i),
              countDecision (if wouldBe = Admit then DAdmit else if wouldBe = Queued then DQueued else DOverloaded) lane enforced (setGate lane g' s)))
         else
           (case acquire g of
              (None, g') \<Rightarrow> ((None, Some i), setGate lane g' s)
            | (Some d, g') \<Rightarrow>
                ((Some (out (mapDecision d)), if mapDecision d = DOverloaded then None else Some i),
                 countDecision (mapDecision d) lane enforced (setGate lane g' s))))"

definition admit :: "Outside \<Rightarrow> RequestFacts \<Rightarrow> AdmissionService \<Rightarrow> redis \<Rightarrow> (Outcome option \<times> nat option) \<times> AdmissionService \<times> redis" where
  "admit out facts s db =
     (let mode = ac_mode (as_config s); lane = laneFor facts; enforced = (mode = ModeEnforce);
          outcome = (\<lambda>d b. \<lparr>oc_decision = d, oc_lane = lane, oc_enforced = enforced, oc_bucket = b\<rparr>)
      in if mode = ModeOff then ((Some (outcome DAdmit None), None), s, db)
         else
           (let s1 = (if os_draining out then countDecision DDraining lane enforced s else s) in
            if os_draining out \<and> enforced then ((Some (outcome DDraining None), None), s1, db)
            else
              (case takeToken out facts lane s1 db of (bucket, s2, db') \<Rightarrow>
                 (let s3 = (if rejected bucket then countDecision DRateLimited lane enforced s2 else s2) in
                  if rejected bucket \<and> enforced then ((Some (outcome DRateLimited bucket), None), s3, db')
                  else (case admitGate lane enforced bucket s3 of (r, s4) \<Rightarrow> (r, s4, db'))))))"

text \<open>The rest of \<open>admit\<close> for a request that waited.\<close>

definition resumed :: "nat \<Rightarrow> Lane \<Rightarrow> BucketResult option \<Rightarrow> AdmissionService \<Rightarrow> Outcome option \<times> AdmissionService" where
  "resumed i lane bucket s =
     (case resumeWaiter i (as_gates s lane) of
        (None, g) \<Rightarrow> (None, s)
      | (Some d, g) \<Rightarrow>
          (Some \<lparr>oc_decision = mapDecision d, oc_lane = lane, oc_enforced = True, oc_bucket = bucket\<rparr>,
           countDecision (mapDecision d) lane True (setGate lane g s)))"

definition release :: "Lane \<Rightarrow> nat \<Rightarrow> AdmissionService \<Rightarrow> AdmissionService" where
  "release lane i s = setGate lane (releaser i (as_gates s lane)) s"

section \<open>The interceptor\<close>

text \<open>\<open>admission.interceptor.ts\<close>: the status and the retry time of a rejected request, and the paths that bypass it.\<close>

definition BYPASS :: "jstr list" where
  "BYPASS = [js ''/api/health'', js ''/api/metrics'']"

definition bypassed :: "AdmissionService \<Rightarrow> bool \<Rightarrow> jstr \<Rightarrow> jstr \<Rightarrow> bool" where
  "bypassed s http meth url =
     (let path = hd (split_on (ch CHR ''?'') url) in
      \<not> http \<or> ac_mode (as_config s) = ModeOff \<or> meth = js ''OPTIONS'' \<or> list_ex (\<lambda>p. starts_with p path) BYPASS)"

definition retrySeconds :: "BucketResult option \<Rightarrow> int" where
  "retrySeconds b = max 1 \<lceil>(of_int (case b of Some r \<Rightarrow> br_retryAfterMs r | None \<Rightarrow> 1000) :: rat) / 1000\<rceil>"

definition rejection :: "Outcome \<Rightarrow> (int \<times> int) option" where
  "rejection o' =
     (if oc_enforced o' \<and> oc_decision o' = DRateLimited then Some (429, retrySeconds (oc_bucket o'))
      else if oc_enforced o' \<and> (oc_decision o' = DOverloaded \<or> oc_decision o' = DDraining) then Some (503, 1)
      else None)"

text \<open>The \<open>RateLimit-*\<close> headers; the burst is written as a number.\<close>

definition rateLimitHeaders :: "Outcome \<Rightarrow> (rat \<times> int \<times> int) option" where
  "rateLimitHeaders o' =
     map_option (\<lambda>b. (bl_burst (br_limit b), max 0 (br_remaining b), max 1 \<lceil>(of_int (br_retryAfterMs b) :: rat) / 1000\<rceil>)) (oc_bucket o')"

section \<open>What admission control guarantees\<close>

lemma takeFrom_keeps: "takeFrom out k l s db = (r, s', db') \<Longrightarrow> as_gates s' = as_gates s \<and> as_config s' = as_config s"
  by (auto simp: takeFrom_def Let_def split: if_splits prod.splits)

lemma limitsForProject_keeps: "limitsForProject out p s = (l, s') \<Longrightarrow> as_gates s' = as_gates s \<and> as_config s' = as_config s"
  by (auto simp: limitsForProject_def Let_def split: option.splits prod.splits)

lemma takeToken_keeps: "takeToken out facts lane s db = (b, s', db') \<Longrightarrow> as_gates s' = as_gates s \<and> as_config s' = as_config s"
  by (auto simp: takeToken_def split: prod.splits Lane.splits option.splits dest!: takeFrom_keeps limitsForProject_keeps)

lemma countDecision_simps [simp]: "as_gates (countDecision d l e s) = as_gates s" "as_config (countDecision d l e s) = as_config s"
  by (simp_all add: countDecision_def)

lemma setGate_simps [simp]: "as_gates (setGate l g s) = (as_gates s)(l := g)" "as_config (setGate l g s) = as_config s"
  by (simp_all add: setGate_def)

lemma acquire_result:
  "acquire g = (d, g') \<Longrightarrow>
     (d = Some Admit \<and> g_next g \<in> set (g_held g')) \<or>
     (d = Some ShedFull \<and> g_held g' = g_held g \<and> g_waiters g' = g_waiters g \<and> g_inflight g' = g_inflight g) \<or>
     (d = None \<and> g_next g \<in> set (g_waiters g'))"
  by (auto simp: acquire_def Let_def split: if_splits)

text \<open>The answer of a request: it is let through (or waits) with a slot of its lane, or it is refused without one.\<close>

definition answered :: "Lane \<Rightarrow> AdmissionService \<Rightarrow> Outcome option \<Rightarrow> nat option \<Rightarrow> AdmissionService \<Rightarrow> bool" where
  "answered lane s outcome slot s' \<longleftrightarrow>
     (\<forall>l. l \<noteq> lane \<longrightarrow> as_gates s' l = as_gates s l) \<and>
     (case outcome of
        None \<Rightarrow> (\<exists>i. slot = Some i \<and> i \<in> set (g_waiters (as_gates s' lane)))
      | Some o' \<Rightarrow>
          if rejection o' = None
          then oc_decision o' = DAdmit \<and> (\<exists>i. slot = Some i \<and> i \<in> set (g_held (as_gates s' lane)))
          else slot = None \<and> g_held (as_gates s' lane) = g_held (as_gates s lane) \<and>
               g_waiters (as_gates s' lane) = g_waiters (as_gates s lane) \<and> g_inflight (as_gates s' lane) = g_inflight (as_gates s lane))"

lemma rejection_admit [simp]: "rejection \<lparr>oc_decision = DAdmit, oc_lane = l, oc_enforced = e, oc_bucket = b\<rparr> = None"
  by (simp add: rejection_def)

lemma admitGate_answered:
  assumes "admitGate lane enforced bucket s = ((outcome, slot), s')"
  shows "answered lane s outcome slot s' \<and> (\<not> enforced \<longrightarrow> (\<exists>o'. outcome = Some o' \<and> rejection o' = None))"
proof (cases enforced)
  case False
  with assms show ?thesis
    by (auto simp: admitGate_def Let_def answered_def admitForLogging_def split: prod.splits)
next
  case True
  obtain d g' where a: "acquire (as_gates s lane) = (d, g')" by fastforce
  show ?thesis
    using True assms acquire_result [OF a]
    by (auto simp: admitGate_def Let_def a answered_def rejection_def mapDecision_def)
qed

lemma answered_later: "as_gates s1 = as_gates s \<Longrightarrow> answered lane s1 o' slot s' \<Longrightarrow> answered lane s o' slot s'"
  by (cases o') (simp_all add: answered_def)


definition enforcing :: environment where
  "enforcing = (\<lambda>n. if n = js ''ADMISSION_MODE'' then Some (js '' Enforce'') else None)"

definition quietOutside :: Outside where
  "quietOutside = \<lparr>os_now = 0, os_draining = False, os_plan = (\<lambda>p. None), os_redisUp = True\<rparr>"

definition drainingOutside :: Outside where
  "drainingOutside = quietOutside\<lparr>os_draining := True\<rparr>"

lemma enforcing_mode: "ac_mode (as_config (newService enforcing)) = ModeEnforce"
proof -
  have "js_lower (js_trim (js '' Enforce'')) = js ''enforce''" by code_simp
  then show ?thesis by (simp add: newService_def admissionConfig_def admissionMode_def enforcing_def orElse_def Let_def)
qed


lemma default_limits: "map_of DEFAULT_PLAN_LIMITS n = Some l \<Longrightarrow> limitsOk l"
  by (auto simp: DEFAULT_PLAN_LIMITS_def limitsRec_def limitsOk_def split: if_splits)

lemma positive_pos: "positive v = Some n \<Longrightarrow> 0 < n"
  by (auto simp: positive_def split: option.splits if_splits)

lemma share_range: "1 / 20 \<le> ac_dashboardShare (admissionConfig env) \<and> ac_dashboardShare (admissionConfig env) \<le> 9 / 10"
  by (simp add: admissionConfig_def min_def max_def)

text \<open>
  Whatever the plan and its features hold, the limits are positive and the burst is at least the rate,
  so that the contract of the token bucket applies to every project; and whatever the environment says, every
  lane admits at least one request, the dashboard never gets all slots of a limit of ten or more, and the
  customer and dashboard lanes together admit at most one request more than the configured limit.
\<close>

theorem limits_are_positive:
  "limitsOk (limitsForPlan planName features) \<and>
   bl_rate (limitsForPlan planName features) \<le> bl_burst (limitsForPlan planName features) \<and>
   (\<forall>lane. 1 \<le> go_maxInflight (laneOptions (admissionConfig env) lane)) \<and>
   (let c = admissionConfig env in
      go_maxInflight (laneOptions c Customer) + go_maxInflight (laneOptions c Dashboard) \<le> ac_maxInflight c + 1 \<or> ac_maxInflight c = 0) \<and>
   (let c = admissionConfig env in 10 \<le> ac_maxInflight c \<longrightarrow> go_maxInflight (laneOptions c Dashboard) < ac_maxInflight c)"
proof -
  have base: "limitsOk (orElse (map_of DEFAULT_PLAN_LIMITS n) FALLBACK_LIMITS)" for n
    using default_limits by (auto simp: orElse_def FALLBACK_LIMITS_def limitsRec_def limitsOk_def split: option.split)
  have rate: "0 < bl_rate (limitsForPlan planName features)"
    using base positive_pos by (auto simp: limitsForPlan_def Let_def limitsRec_def limitsOk_def orElse_def split: option.split)
  moreover have burst: "bl_rate (limitsForPlan planName features) \<le> bl_burst (limitsForPlan planName features)"
    by (simp add: limitsForPlan_def Let_def limitsRec_def)
  ultimately have l: "limitsOk (limitsForPlan planName features)" by (simp add: limitsOk_def)
  let ?c = "admissionConfig env"
  let ?x = "of_nat (ac_maxInflight ?c) * ac_dashboardShare ?c"
  have x: "?x \<le> of_nat (ac_maxInflight ?c) * (9 / 10)" "0 \<le> ?x"
  proof -
    have "0 \<le> ac_dashboardShare ?c" using share_range [of env] by linarith
    then show "0 \<le> ?x" by (intro mult_nonneg_nonneg of_nat_0_le_iff)
    show "?x \<le> of_nat (ac_maxInflight ?c) * (9 / 10)"
      using share_range [of env] by (intro mult_left_mono of_nat_0_le_iff) blast
  qed
  have ge1: "\<forall>lane. 1 \<le> go_maxInflight (laneOptions ?c lane)" by (simp add: laneOptions_def Let_def)
  have r: "of_nat (js_round ?x) \<le> ?x + 1 / 2" using x(2) by (simp add: js_round_def)
  have "js_round ?x \<le> ac_maxInflight ?c"
  proof -
    have "(of_nat (js_round ?x) :: rat) < of_nat (ac_maxInflight ?c + 1)" using r x(1) by simp
    then show ?thesis by (simp only: of_nat_less_iff)
  qed
  then have sum: "go_maxInflight (laneOptions ?c Customer) + go_maxInflight (laneOptions ?c Dashboard) \<le> ac_maxInflight ?c + 1 \<or> ac_maxInflight ?c = 0"
  proof -
    have "max 1 (m - max 1 d) + max 1 d \<le> m + 1 \<or> m = 0" if "d \<le> m" for m d :: nat
      using that by (cases m; cases d) (auto simp: max_def)
    then show "js_round ?x \<le> ac_maxInflight ?c \<Longrightarrow> ?thesis" by (simp add: laneOptions_def Let_def)
  qed
  have dash: "go_maxInflight (laneOptions ?c Dashboard) < ac_maxInflight ?c" if "10 \<le> ac_maxInflight ?c"
  proof -
    have "(10 :: rat) \<le> of_nat (ac_maxInflight ?c)" using that by (metis of_nat_le_iff of_nat_numeral)
    then have "(of_nat (js_round ?x) :: rat) < of_nat (ac_maxInflight ?c)" using r x(1) by linarith
    then have "js_round ?x < ac_maxInflight ?c" by (simp only: of_nat_less_iff)
    with that show ?thesis by (simp add: laneOptions_def Let_def)
  qed
  show ?thesis using l burst ge1 sum dash unfolding Let_def by blast
qed

theorem limits_are_positive_witness:
  "go_maxInflight (laneOptions (admissionConfig (\<lambda>n. None)) Dashboard) < ac_maxInflight (admissionConfig (\<lambda>n. None)) \<and>
   limitsForPlan (Some (js ''Pro'')) [(js ''api_rps'', FeatureText (js ''1e3''))] = limitsRec 1000 1000"
proof -
  have "ac_maxInflight (admissionConfig (\<lambda>n. None)) = 200" by (simp add: admissionConfig_def envInt_def)
  moreover have "js_lower (js ''Pro'') = js ''pro''" "js_number (js ''1e3'') = Some 1000" by code_simp+
  then have "limitsForPlan (Some (js ''Pro'')) [(js ''api_rps'', FeatureText (js ''1e3''))] = limitsRec 1000 1000"
    by (simp add: limitsForPlan_def Let_def orElse_def positive_def limitsRec_def DEFAULT_PLAN_LIMITS_def)
  ultimately show ?thesis using limits_are_positive [of "None" "[]" "\<lambda>n. None"] unfolding Let_def by simp
qed

text \<open>A fraction is positive but its floor is not: \<open>ADMISSION_MAX_INFLIGHT=0.5\<close> configures a limit of zero.\<close>

lemma fractional_setting_becomes_zero:
  "ac_maxInflight (admissionConfig (\<lambda>n. if n = js ''ADMISSION_MAX_INFLIGHT'' then Some (js ''0.5'') else None)) = 0"
proof -
  have "js_number (js ''0.5'') = Some (1 / 2)" by code_simp
  then show ?thesis by (simp add: admissionConfig_def envInt_def)
qed

end
