(* ===== verification/DataFilter.thy ===== *)
theory DataFilter
  imports JsNumber
begin

text \<open>
  The query compiler shared by the two query languages of the data engine,
  \<open>packages/data-engine/src/query/filter-object.ts\<close>, with the filter and sort part of
  \<open>interfaces/query.ts\<close>: an untrusted filter object becomes a checked filter tree.

  An untrusted value is what a JSON body or an object literal yields, or \<open>undefined\<close>; an object is the
  list of its own members in enumeration order.  Whether a text is the source of a regular expression
  (\<open>new RegExp\<close> throws or not) is the parameter \<open>rx\<close>.  An error is its message.
\<close>

section \<open>Values and errors\<close>

datatype jsval =
    VNull
  | VUndefined
  | VBool bool
  | VNum rat
  | VStr jstr
  | VArr "jsval list"
  | VObj "(jstr \<times> jsval) list"

datatype DataError = QueryValidationError jstr | JsQueryParseError jstr nat nat

text \<open>A member of an object is smaller than the object.\<close>

lemma size_member [termination_simp]: "(k, v) \<in> set es \<Longrightarrow> size v < Suc (size_list (size_prod (\<lambda>x. 0) size) es)"
  by (induction es) auto

abbreviation dq :: "jstr \<Rightarrow> jstr" where
  "dq s \<equiv> [34] @ s @ [34]"

definition failWith :: "jstr \<Rightarrow> jstr \<Rightarrow> DataError + 'a" where
  "failWith message ctx = Inl (QueryValidationError (if ctx = [] then message else ctx @ js '': '' @ message))"

definition check :: "bool \<Rightarrow> jstr \<Rightarrow> jstr \<Rightarrow> DataError + unit" where
  "check ok message ctx = (if ok then Inr () else failWith message ctx)"

lemma check_Inr [simp]: "check ok message ctx = Inr u \<longleftrightarrow> ok"
  by (simp add: check_def failWith_def)

lemma failWith_not_Inr [simp]: "failWith message ctx \<noteq> Inr v"
  by (simp add: failWith_def)

section \<open>The filter tree\<close>

record PathRef =
  pr_path :: jstr
  pr_isArrayPath :: bool

datatype FilterOperator =
    FEq | FNeq | FGt | FGte | FLt | FLte | FIn | FNin | FContains | FContainsAny | FExists
  | FRegex | FIregex | FLike | FIlike

datatype Filter =
    FieldF PathRef FilterOperator jsval
  | AndF "Filter list"
  | OrF "Filter list"
  | NotF Filter

record SortClause =
  sc_path :: PathRef
  sc_desc :: bool

section \<open>Paths\<close>

definition FORBIDDEN_KEYS :: "jstr list" where
  "FORBIDDEN_KEYS = map js [''__proto__'', ''constructor'', ''prototype'']"

definition MAX_FILTER_DEPTH :: nat where "MAX_FILTER_DEPTH = 8"
definition MAX_LOGICAL_CONDITIONS :: nat where "MAX_LOGICAL_CONDITIONS = 50"
definition MAX_IN_ITEMS :: nat where "MAX_IN_ITEMS = 1000"
definition MAX_REGEX_LENGTH :: nat where "MAX_REGEX_LENGTH = 512"

text \<open>\<open>segment.replace(/\[\]$/, '')\<close>.\<close>

definition BRACKETS :: jstr where
  "BRACKETS = [91, 93]"

definition dropBrackets :: "jstr \<Rightarrow> jstr" where
  "dropBrackets s = (if ends_with BRACKETS s then take (length s - 2) s else s)"

definition isPathStart :: "int \<Rightarrow> bool" where
  "isPathStart c \<longleftrightarrow> is_alpha c \<or> c = 95 \<or> c = 36"

definition isPathChar :: "int \<Rightarrow> bool" where
  "isPathChar c \<longleftrightarrow> isPathStart c \<or> is_digit c"

definition isPathName :: "jstr \<Rightarrow> bool" where
  "isPathName s = (case s of [] \<Rightarrow> False | c # cs \<Rightarrow> isPathStart c \<and> list_all isPathChar cs)"

definition SAFE_PATH_RE :: "jstr \<Rightarrow> bool" where
  "SAFE_PATH_RE path = list_all (\<lambda>seg. isPathName (dropBrackets seg)) (split_on 46 path)"

definition assertSafePath :: "jstr \<Rightarrow> jstr \<Rightarrow> DataError + unit" where
  "assertSafePath path ctx =
     bindr (check (path \<noteq> []) (js ''field path must be a non-empty string'') ctx) (\<lambda>_.
     bindr (check (length path \<le> 256)
       (js ''field path is too long ('' @ show_nat (length path) @ js '' > 256)'') ctx) (\<lambda>_.
     bindr (mapr (\<lambda>seg. check (dropBrackets seg \<notin> set FORBIDDEN_KEYS)
              (js ''field path segment '' @ dq seg @ js '' is not allowed'') ctx) (split_on 46 path)) (\<lambda>_.
     check (SAFE_PATH_RE path)
       (js ''invalid field path '' @ dq path @ js '' '' @ [8212] @ js '' use dotted identifiers like '' @
        dq (js ''customer.address.city'') @ js '' (array paths end segments with [])'') ctx)))"

text \<open>\<open>path.includes('[]')\<close>.\<close>

definition hasBrackets :: "jstr \<Rightarrow> bool" where
  "hasBrackets path \<longleftrightarrow> cut_at BRACKETS path \<noteq> None"

section \<open>Values of a filter\<close>

fun assertJsonValue :: "jstr \<Rightarrow> jsval \<Rightarrow> DataError + unit" where
  "assertJsonValue ctx (VArr vs) = bindr (mapr (assertJsonValue ctx) vs) (\<lambda>_. Inr ())"
| "assertJsonValue ctx (VObj es) =
     bindr (mapr (\<lambda>(k, v). bindr (check (k \<notin> set FORBIDDEN_KEYS) (js ''key '' @ dq k @ js '' is not allowed'') ctx)
                             (\<lambda>_. assertJsonValue ctx v)) es) (\<lambda>_. Inr ())"
| "assertJsonValue ctx VUndefined = failWith (js ''unsupported value type '' @ dq (js ''undefined'')) ctx"
| "assertJsonValue ctx v = Inr ()"

definition OPERATOR_MAP :: "(jstr \<times> FilterOperator) list" where
  "OPERATOR_MAP = map (\<lambda>(n, f). (36 # js n, f))
     [(''eq'', FEq), (''ne'', FNeq), (''neq'', FNeq), (''gt'', FGt), (''gte'', FGte), (''lt'', FLt), (''lte'', FLte),
      (''in'', FIn), (''nin'', FNin), (''contains'', FContains), (''containsAny'', FContainsAny),
      (''exists'', FExists), (''regex'', FRegex), (''iregex'', FIregex), (''like'', FLike), (''ilike'', FIlike)]"

text \<open>The text of an operator, in messages.\<close>

primrec operatorName :: "FilterOperator \<Rightarrow> string" where
  "operatorName FEq = ''eq''" | "operatorName FNeq = ''neq''"
| "operatorName FGt = ''gt''" | "operatorName FGte = ''gte''"
| "operatorName FLt = ''lt''" | "operatorName FLte = ''lte''"
| "operatorName FIn = ''in''" | "operatorName FNin = ''nin''"
| "operatorName FContains = ''contains''" | "operatorName FContainsAny = ''containsAny''"
| "operatorName FExists = ''exists''" | "operatorName FRegex = ''regex''"
| "operatorName FIregex = ''iregex''" | "operatorName FLike = ''like''"
| "operatorName FIlike = ''ilike''"

definition ARRAY_VALUE_OPERATORS :: "FilterOperator list" where
  "ARRAY_VALUE_OPERATORS = [FIn, FNin, FContainsAny]"

definition STRING_VALUE_OPERATORS :: "FilterOperator list" where
  "STRING_VALUE_OPERATORS = [FRegex, FIregex, FLike, FIlike]"

definition ARRAY_PATH_OPERATORS :: "FilterOperator list" where
  "ARRAY_PATH_OPERATORS = [FContains, FContainsAny]"

definition checkArray :: "jstr \<Rightarrow> FilterOperator \<Rightarrow> jsval \<Rightarrow> jstr \<Rightarrow> DataError + unit" where
  "checkArray path operator value ctx =
     (let who = js ''operator '' @ dq (36 # js (operatorName operator)) @ js '' on '' @ dq path in
      case value of
        VArr vs \<Rightarrow> check (length vs \<le> MAX_IN_ITEMS) (who @ js '' exceeds '' @ show_nat MAX_IN_ITEMS @ js '' items'') ctx
      | _ \<Rightarrow> failWith (who @ js '' requires an array value'') ctx)"

definition checkPattern :: "(jstr \<Rightarrow> bool) \<Rightarrow> jstr \<Rightarrow> FilterOperator \<Rightarrow> jsval \<Rightarrow> jstr \<Rightarrow> DataError + unit" where
  "checkPattern rx path operator value ctx =
     (case value of
        VStr s \<Rightarrow>
          bindr (check (length s \<le> MAX_REGEX_LENGTH)
            (js ''pattern on '' @ dq path @ js '' is too long (max '' @ show_nat MAX_REGEX_LENGTH @ js '')'') ctx) (\<lambda>_.
          check (operator \<in> {FRegex, FIregex} \<longrightarrow> rx s) (js ''invalid regular expression on '' @ dq path) ctx)
      | _ \<Rightarrow> failWith (js ''operator for '' @ dq path @ js '' requires a string value'') ctx)"

definition makeFieldFilter :: "(jstr \<Rightarrow> bool) \<Rightarrow> jstr \<Rightarrow> FilterOperator \<Rightarrow> jsval \<Rightarrow> jstr \<Rightarrow> DataError + Filter" where
  "makeFieldFilter rx path operator value ctx =
     bindr (assertSafePath path ctx) (\<lambda>_.
     bindr (if operator \<in> set ARRAY_VALUE_OPERATORS then checkArray path operator value ctx else Inr ()) (\<lambda>_.
     bindr (if operator \<in> set STRING_VALUE_OPERATORS then checkPattern rx path operator value ctx else Inr ()) (\<lambda>_.
     bindr (check (operator = FExists \<longrightarrow> (case value of VBool b \<Rightarrow> True | _ \<Rightarrow> False))
       (js ''operator '' @ dq (js ''$exists'') @ js '' on '' @ dq path @ js '' requires a boolean value'') ctx) (\<lambda>_.
     bindr (assertJsonValue ctx value) (\<lambda>_.
     Inr (FieldF \<lparr>pr_path = path, pr_isArrayPath = (hasBrackets path \<or> operator \<in> set ARRAY_PATH_OPERATORS)\<rparr> operator value))))))"

section \<open>Filter objects\<close>

definition startsWithDollar :: "jstr \<Rightarrow> bool" where
  "startsWithDollar k \<longleftrightarrow> nth_opt k 0 = Some 36"

definition isLogicKey :: "jstr \<Rightarrow> bool" where
  "isLogicKey k \<longleftrightarrow> k = js ''$and'' \<or> k = js ''$or''"

definition single :: "Filter list \<Rightarrow> Filter" where
  "single fs = (case fs of [f] \<Rightarrow> f | _ \<Rightarrow> AndF fs)"

text \<open>One operator of a field entry, and a field entry as a whole.\<close>

definition compileOperator :: "(jstr \<Rightarrow> bool) \<Rightarrow> jstr \<Rightarrow> jstr \<Rightarrow> jstr \<times> jsval \<Rightarrow> DataError + Filter" where
  "compileOperator rx key ctx e =
     (case map_of OPERATOR_MAP (fst e) of
        None \<Rightarrow> failWith (js ''unknown operator '' @ dq (fst e) @ js '' on '' @ dq key @ js '' '' @ [8212] @ js '' supported: '' @
                  join (js '', '') (map fst OPERATOR_MAP)) ctx
      | Some operator \<Rightarrow> makeFieldFilter rx key operator (snd e) ctx)"

definition compileField :: "(jstr \<Rightarrow> bool) \<Rightarrow> jstr \<Rightarrow> jsval \<Rightarrow> jstr \<Rightarrow> DataError + Filter" where
  "compileField rx key value ctx =
     (case value of
        VObj es \<Rightarrow>
          (let ops = filter (\<lambda>e. startsWithDollar (fst e)) es in
           if ops = [] then failWith (js ''nested object match on '' @ dq key @ js '' is not supported '' @ [8212] @
               js '' use a dotted path like '' @ dq (key @ js ''.field'') @ js '' instead'') ctx
           else if length ops \<noteq> length es
           then failWith (js ''cannot mix operators and plain keys on '' @ dq key) ctx
           else bindr (mapr (compileOperator rx key ctx) es) (\<lambda>fs. Inr (single fs)))
      | _ \<Rightarrow> bindr (assertJsonValue ctx value) (\<lambda>_. makeFieldFilter rx key FEq value ctx))"

fun compileNode :: "(jstr \<Rightarrow> bool) \<Rightarrow> jsval \<Rightarrow> nat \<Rightarrow> jstr \<Rightarrow> DataError + Filter"
  and compileEntry :: "(jstr \<Rightarrow> bool) \<Rightarrow> jstr \<Rightarrow> jsval \<Rightarrow> nat \<Rightarrow> jstr \<Rightarrow> DataError + Filter" where
  "compileNode rx obj depth ctx =
     (if depth > MAX_FILTER_DEPTH then failWith (js ''filter nesting exceeds '' @ show_nat MAX_FILTER_DEPTH @ js '' levels'') ctx
      else (case obj of
        VObj es \<Rightarrow>
          if es = [] then failWith (js ''filter object must not be empty (omit the filter to match everything)'') ctx
          else bindr (mapr (\<lambda>(k, v). compileEntry rx k v depth ctx) es) (\<lambda>fs. Inr (single fs))
      | _ \<Rightarrow> failWith (js ''filter must be an object'') ctx))"
| "compileEntry rx key value depth ctx =
     (if key \<in> set FORBIDDEN_KEYS then failWith (js ''key '' @ dq key @ js '' is not allowed'') ctx
      else if isLogicKey key then
        (case value of
           VArr vs \<Rightarrow>
             if vs = [] then failWith (dq key @ js '' requires a non-empty array of filter objects'') ctx
             else if length vs > MAX_LOGICAL_CONDITIONS
             then failWith (dq key @ js '' exceeds '' @ show_nat MAX_LOGICAL_CONDITIONS @ js '' conditions'') ctx
             else bindr (mapr (\<lambda>c. compileNode rx c (depth + 1) ctx) vs)
                    (\<lambda>fs. Inr (if key = js ''$and'' then AndF fs else OrF fs))
         | _ \<Rightarrow> failWith (dq key @ js '' requires a non-empty array of filter objects'') ctx)
      else if key = js ''$not'' then
        (case value of
           VObj es \<Rightarrow> bindr (compileNode rx value (depth + 1) ctx) (\<lambda>f. Inr (NotF f))
         | _ \<Rightarrow> failWith (dq (js ''$not'') @ js '' requires a filter object'') ctx)
      else if startsWithDollar key
      then failWith (js ''unknown top-level operator '' @ dq key @ js '' '' @ [8212] @ js '' supported: $and, $or, $not'') ctx
      else compileField rx key value ctx)"

declare compileNode.simps [simp del] compileEntry.simps [simp del]

definition compileFilterObject :: "(jstr \<Rightarrow> bool) \<Rightarrow> jsval \<Rightarrow> jstr \<Rightarrow> DataError + Filter option" where
  "compileFilterObject rx obj ctx =
     (if obj \<in> {VUndefined, VNull, VObj []} then Inr None
      else bindr (compileNode rx obj 1 ctx) (\<lambda>f. Inr (Some f)))"

section \<open>Sort objects\<close>

definition sortDirection :: "jstr \<Rightarrow> jsval \<Rightarrow> jstr \<Rightarrow> DataError + bool" where
  "sortDirection path dir ctx =
     (if dir = VNum 1 \<or> dir = VStr (js ''asc'') then Inr False
      else if dir = VNum (- 1) \<or> dir = VStr (js ''desc'') then Inr True
      else failWith (js ''invalid sort direction for '' @ dq path @ js '' '' @ [8212] @ js '' use 1, -1, '' @
             dq (js ''asc'') @ js '' or '' @ dq (js ''desc'')) ctx)"

definition compileSortClause :: "jstr \<Rightarrow> jstr \<times> jsval \<Rightarrow> DataError + SortClause" where
  "compileSortClause ctx e =
     bindr (assertSafePath (fst e) ctx) (\<lambda>_.
     bindr (sortDirection (fst e) (snd e) ctx) (\<lambda>desc.
     Inr \<lparr>sc_path = \<lparr>pr_path = fst e, pr_isArrayPath = hasBrackets (fst e)\<rparr>, sc_desc = desc\<rparr>))"

definition compileSortObject :: "jsval \<Rightarrow> jstr \<Rightarrow> DataError + SortClause list" where
  "compileSortObject obj ctx =
     (case obj of
        VObj es \<Rightarrow>
          bindr (check (es \<noteq> []) (js ''sort object must not be empty'') ctx) (\<lambda>_.
          bindr (check (length es \<le> 5) (js ''sort supports at most 5 fields'') ctx) (\<lambda>_.
          mapr (compileSortClause ctx) es))
      | _ \<Rightarrow> failWith (js ''sort must be an object like { fieldName: 1 } or { fieldName: '' @ dq (js ''desc'') @ js '' }'') ctx)"

end
