(* ===== verification/DataAggregation.thy ===== *)
theory DataAggregation
  imports DataFilter
begin

text \<open>
  The aggregation language of the data engine, \<open>packages/data-engine/src/query/aggregation-validator.ts\<close>
  with the stage types of \<open>interfaces/query.ts\<close>: an untrusted pipeline becomes a checked one.  The
  members of a record built here keep the order of insertion.
\<close>

section \<open>Stages\<close>

datatype AccumulatorOp = ACount | ASum | AAvg | AMin | AMax

record Accumulator =
  ac_op :: AccumulatorOp
  ac_path :: "PathRef option"

datatype ProjectValue = Include | Exclude | Reference jstr | Literal jsval

datatype GroupId = WholeGroup | ByPath PathRef | ByPaths "PathRef list"

datatype AggregationStage =
    MatchS Filter
  | ProjectS "(jstr \<times> ProjectValue) list"
  | UnwindS PathRef "bool option"
  | GroupS GroupId "(jstr \<times> Accumulator) list"
  | SortS "SortClause list"
  | LimitS rat
  | SkipS rat

record EntityAggregation =
  ea_entity :: jstr
  ea_pipeline :: "AggregationStage list"

definition BLOCKED_AGGREGATION_STAGES :: "jstr list" where
  "BLOCKED_AGGREGATION_STAGES = map js [''$lookup'', ''$out'', ''$merge'', ''$function'', ''$where'', ''$accumulator'']"

definition ALLOWED_AGGREGATION_STAGES :: "jstr list" where
  "ALLOWED_AGGREGATION_STAGES = map js [''$match'', ''$project'', ''$unwind'', ''$group'', ''$sort'', ''$limit'', ''$skip'']"

definition ALLOWED_ACCUMULATORS :: "(jstr \<times> AccumulatorOp) list" where
  "ALLOWED_ACCUMULATORS = map (\<lambda>(n, a). (js n, a))
     [(''$count'', ACount), (''$sum'', ASum), (''$avg'', AAvg), (''$min'', AMin), (''$max'', AMax)]"

definition MAX_PIPELINE_STAGES :: nat where "MAX_PIPELINE_STAGES = 20"
definition MAX_PROJECT_FIELDS :: nat where "MAX_PROJECT_FIELDS = 50"
definition MAX_GROUP_ID_PATHS :: nat where "MAX_GROUP_ID_PATHS = 5"
definition MAX_GROUP_ACCUMULATORS :: nat where "MAX_GROUP_ACCUMULATORS = 20"
definition MAX_LIMIT :: nat where "MAX_LIMIT = 1000"
definition MAX_SKIP :: nat where "MAX_SKIP = 100000"

definition isPlainName :: "jstr \<Rightarrow> bool" where
  "isPlainName s =
     (case s of [] \<Rightarrow> False
      | c # cs \<Rightarrow> (is_alpha c \<or> c = 95) \<and> list_all (\<lambda>d. is_alpha d \<or> d = 95 \<or> is_digit d) cs)"

definition toPathRef :: "jstr \<Rightarrow> jstr \<Rightarrow> DataError + PathRef" where
  "toPathRef path ctx =
     bindr (assertSafePath path ctx) (\<lambda>_. Inr \<lparr>pr_path = path, pr_isArrayPath = hasBrackets path\<rparr>)"

fun assertJsonLiteral :: "jstr \<Rightarrow> jsval \<Rightarrow> DataError + unit" where
  "assertJsonLiteral ctx (VArr vs) = bindr (mapr (assertJsonLiteral ctx) vs) (\<lambda>_. Inr ())"
| "assertJsonLiteral ctx (VObj es) =
     bindr (mapr (\<lambda>(k, v). bindr (check (k \<notin> set FORBIDDEN_KEYS) (js ''key '' @ dq k @ js '' is not allowed'') ctx)
                             (\<lambda>_. assertJsonLiteral ctx v)) es) (\<lambda>_. Inr ())"
| "assertJsonLiteral ctx VUndefined =
     failWith (js ''unsupported value type '' @ dq (js ''undefined'') @ js '' '' @ [8212] @ js '' only JSON values are allowed'') ctx"
| "assertJsonLiteral ctx v = Inr ()"

section \<open>Stage compilers\<close>

definition compileMatchStage :: "(jstr \<Rightarrow> bool) \<Rightarrow> jsval \<Rightarrow> jstr \<Rightarrow> DataError + AggregationStage" where
  "compileMatchStage rx value ctx =
     bindr (compileFilterObject rx value ctx) (\<lambda>f. case f of
       None \<Rightarrow> failWith (js ''empty $match '' @ [8212] @ js '' remove the stage'') ctx
     | Some t \<Rightarrow> Inr (MatchS t))"

definition projectValue :: "jstr \<Rightarrow> jstr \<times> jsval \<Rightarrow> DataError + (jstr \<times> ProjectValue)" where
  "projectValue ctx e =
     (let key = fst e in
      bindr (assertSafePath key ctx) (\<lambda>_.
      case snd e of
        VStr s \<Rightarrow> bindr (assertSafePath s ctx) (\<lambda>_. Inr (key, Reference s))
      | VObj ms \<Rightarrow>
          if map fst ms \<noteq> [js ''$literal'']
          then failWith (js ''invalid object value for $project field '' @ dq key @ js '' '' @ [8212] @ js '' only { '' @
                 dq (js ''$literal'') @ js '': <value> } is supported'') ctx
          else bindr (assertJsonLiteral (ctx @ js '' $project '' @ dq key @ js '' $literal'') (snd (hd ms)))
                 (\<lambda>_. Inr (key, Literal (snd (hd ms))))
      | v \<Rightarrow>
          if v = VNum 0 then Inr (key, Exclude)
          else if v = VNum 1 then Inr (key, Include)
          else failWith (js ''invalid value for $project field '' @ dq key @ js '' '' @ [8212] @
                 js '' use 0, 1, a field path string, or { '' @ dq (js ''$literal'') @ js '': <value> }'') ctx))"

definition compileProjectStage :: "jsval \<Rightarrow> jstr \<Rightarrow> DataError + AggregationStage" where
  "compileProjectStage value ctx =
     (case value of
        VObj es \<Rightarrow>
          bindr (check (es \<noteq> []) (js ''$project must include at least one field'') ctx) (\<lambda>_.
          bindr (check (length es \<le> MAX_PROJECT_FIELDS)
            (js ''$project has '' @ show_nat (length es) @ js '' fields '' @ [8212] @ js '' maximum is '' @ show_nat MAX_PROJECT_FIELDS) ctx) (\<lambda>_.
          bindr (mapr (projectValue ctx) es) (\<lambda>ps. Inr (ProjectS ps))))
      | _ \<Rightarrow> failWith (js ''$project must be a plain object like { '' @ dq (js ''title'') @ js '': 1, '' @ dq (js ''alias'') @
               js '': '' @ dq (js ''field.path'') @ js '' }'') ctx)"

text \<open>The options of \<open>$unwind\<close>; a missing member is undefined.\<close>

definition member :: "string \<Rightarrow> (jstr \<times> jsval) list \<Rightarrow> jsval" where
  "member k es = (case map_of es (js k) of Some v \<Rightarrow> v | None \<Rightarrow> VUndefined)"

definition unwindOptions :: "(jstr \<times> jsval) list \<Rightarrow> jstr \<Rightarrow> DataError + AggregationStage" where
  "unwindOptions es ctx =
     bindr (mapr (\<lambda>e. check (fst e \<in> {js ''path'', js ''preserveNullAndEmpty''})
       (js ''unknown $unwind option '' @ dq (fst e) @ js '' '' @ [8212] @ js '' supported: path, preserveNullAndEmpty'') ctx) es) (\<lambda>_.
     case member ''path'' es of
       VStr p \<Rightarrow>
         (case member ''preserveNullAndEmpty'' es of
            VUndefined \<Rightarrow> bindr (toPathRef p ctx) (\<lambda>ref. Inr (UnwindS ref None))
          | VBool b \<Rightarrow> bindr (toPathRef p ctx) (\<lambda>ref. Inr (UnwindS ref (Some b)))
          | _ \<Rightarrow> failWith (js ''$unwind option '' @ dq (js ''preserveNullAndEmpty'') @ js '' must be a boolean'') ctx)
     | _ \<Rightarrow> failWith (js ''$unwind requires a '' @ dq (js ''path'') @ js '' string'') ctx)"

definition compileUnwindStage :: "jsval \<Rightarrow> jstr \<Rightarrow> DataError + AggregationStage" where
  "compileUnwindStage value ctx =
     (case value of
        VStr p \<Rightarrow> bindr (toPathRef p ctx) (\<lambda>ref. Inr (UnwindS ref None))
      | VObj es \<Rightarrow> unwindOptions es ctx
      | _ \<Rightarrow> failWith (js ''$unwind must be a path string or { '' @ dq (js ''path'') @ js '': '' @ dq (js ''field[]'') @ js '', '' @
               dq (js ''preserveNullAndEmpty'') @ js ''?: boolean }'') ctx)"

definition groupIdPath :: "jstr \<Rightarrow> jsval \<Rightarrow> DataError + PathRef" where
  "groupIdPath ctx p =
     (case p of VStr s \<Rightarrow> toPathRef s ctx
      | _ \<Rightarrow> failWith (js ''$group '' @ dq (js ''_id'') @ js '' array items must be field path strings'') ctx)"

definition compileGroupId :: "jsval \<Rightarrow> jstr \<Rightarrow> DataError + GroupId" where
  "compileGroupId gid ctx =
     (let who = js ''$group '' @ dq (js ''_id'') in
      case gid of
        VNull \<Rightarrow> Inr WholeGroup
      | VStr s \<Rightarrow> bindr (toPathRef s ctx) (\<lambda>ref. Inr (ByPath ref))
      | VArr ps \<Rightarrow>
          bindr (check (ps \<noteq> []) (who @ js '' array must contain at least one path string (or use null to group everything)'') ctx) (\<lambda>_.
          bindr (check (length ps \<le> MAX_GROUP_ID_PATHS)
            (who @ js '' array has '' @ show_nat (length ps) @ js '' paths '' @ [8212] @ js '' maximum is '' @ show_nat MAX_GROUP_ID_PATHS) ctx) (\<lambda>_.
          bindr (mapr (groupIdPath ctx) ps) (\<lambda>refs. Inr (ByPaths refs))))
      | _ \<Rightarrow> failWith (who @ js '' must be null, a field path string, or an array of field path strings'') ctx)"

definition accumulate :: "jstr \<Rightarrow> jstr \<Rightarrow> jsval \<Rightarrow> jstr \<Rightarrow> DataError + Accumulator" where
  "accumulate key opName opValue ctx =
     (case map_of ALLOWED_ACCUMULATORS opName of
        None \<Rightarrow> failWith (js ''unknown accumulator '' @ dq opName @ js '' on '' @ dq key @ js '' '' @ [8212] @ js '' supported: '' @
                  join (js '', '') (map fst ALLOWED_ACCUMULATORS)) ctx
      | Some ACount \<Rightarrow>
          bindr (check (opValue = VNull) (js ''accumulator '' @ dq (js ''$count'') @ js '' on '' @ dq key @ js '' takes null, e.g. { '' @
                   dq (js ''$count'') @ js '': null }'') ctx)
            (\<lambda>_. Inr \<lparr>ac_op = ACount, ac_path = None\<rparr>)
      | Some a \<Rightarrow>
          (case opValue of
             VStr p \<Rightarrow> bindr (toPathRef p ctx) (\<lambda>ref. Inr \<lparr>ac_op = a, ac_path = Some ref\<rparr>)
           | _ \<Rightarrow> failWith (js ''accumulator '' @ dq opName @ js '' on '' @ dq key @ js '' requires a field path string'') ctx))"

definition compileAccumulator :: "jstr \<Rightarrow> jsval \<Rightarrow> jstr \<Rightarrow> DataError + Accumulator" where
  "compileAccumulator key value ctx =
     (case value of
        VObj [(opName, opValue)] \<Rightarrow> accumulate key opName opValue ctx
      | VObj es \<Rightarrow> failWith (js ''accumulator '' @ dq key @ js '' must have exactly one operator key, found '' @ show_nat (length es)) ctx
      | _ \<Rightarrow> failWith (js ''accumulator '' @ dq key @ js '' must be an object with exactly one operator, e.g. { '' @
               dq (js ''$sum'') @ js '': '' @ dq (js ''stats.views'') @ js '' }'') ctx)"

definition groupField :: "jstr \<Rightarrow> jstr \<times> jsval \<Rightarrow> DataError + (jstr \<times> Accumulator)" where
  "groupField ctx e =
     bindr (check (fst e \<notin> set FORBIDDEN_KEYS) (js ''$group output field '' @ dq (fst e) @ js '' is not allowed'') ctx) (\<lambda>_.
     bindr (check (isPlainName (fst e)) (js ''invalid $group output field name '' @ dq (fst e) @ js '' '' @ [8212] @
       js '' use letters, digits and underscores, starting with a letter or underscore'') ctx) (\<lambda>_.
     bindr (compileAccumulator (fst e) (snd e) ctx) (\<lambda>a. Inr (fst e, a))))"

definition compileGroupStage :: "jsval \<Rightarrow> jstr \<Rightarrow> DataError + AggregationStage" where
  "compileGroupStage value ctx =
     (case value of
        VObj es \<Rightarrow>
          (case map_of es (js ''_id'') of
             None \<Rightarrow> failWith (js ''$group requires an '' @ dq (js ''_id'') @
                       js '' key (null, a field path string, or an array of field path strings)'') ctx
           | Some gid \<Rightarrow>
               bindr (compileGroupId gid ctx) (\<lambda>groupId.
               let fields = filter (\<lambda>e. fst e \<noteq> js ''_id'') es in
               bindr (check (fields \<noteq> []) (js ''$group requires at least one accumulator field besides '' @ dq (js ''_id'')) ctx) (\<lambda>_.
               bindr (check (length fields \<le> MAX_GROUP_ACCUMULATORS) (js ''$group has '' @ show_nat (length fields) @
                 js '' accumulator fields '' @ [8212] @ js '' maximum is '' @ show_nat MAX_GROUP_ACCUMULATORS) ctx) (\<lambda>_.
               bindr (mapr (groupField ctx) fields) (\<lambda>accs. Inr (GroupS groupId accs))))))
      | _ \<Rightarrow> failWith (js ''$group must be a plain object with '' @ dq (js ''_id'') @ js '' and at least one accumulator field'') ctx)"

definition compileSortStage :: "jsval \<Rightarrow> jstr \<Rightarrow> DataError + AggregationStage" where
  "compileSortStage value ctx = bindr (compileSortObject value ctx) (\<lambda>cs. Inr (SortS cs))"

definition numberIn :: "rat \<Rightarrow> rat \<Rightarrow> jsval \<Rightarrow> rat option" where
  "numberIn lo hi value =
     (case value of VNum n \<Rightarrow> if isInteger n \<and> lo \<le> n \<and> n \<le> hi then Some n else None | _ \<Rightarrow> None)"

definition compileLimitStage :: "jsval \<Rightarrow> jstr \<Rightarrow> DataError + AggregationStage" where
  "compileLimitStage value ctx =
     (case numberIn 1 (of_nat MAX_LIMIT) value of
        Some n \<Rightarrow> Inr (LimitS n)
      | None \<Rightarrow> failWith (js ''$limit must be an integer between 1 and '' @ show_nat MAX_LIMIT) ctx)"

definition compileSkipStage :: "jsval \<Rightarrow> jstr \<Rightarrow> DataError + AggregationStage" where
  "compileSkipStage value ctx =
     (case numberIn 0 (of_nat MAX_SKIP) value of
        Some n \<Rightarrow> Inr (SkipS n)
      | None \<Rightarrow> failWith (js ''$skip must be an integer between 0 and '' @ show_nat MAX_SKIP) ctx)"

section \<open>The pipeline\<close>

text \<open>\<open>compileStage\<close> after the checks on the shape of the stage.\<close>

definition dispatchStage :: "(jstr \<Rightarrow> bool) \<Rightarrow> jstr \<Rightarrow> jsval \<Rightarrow> jstr \<Rightarrow> DataError + AggregationStage" where
  "dispatchStage rx key value ctx =
     (if key \<notin> set ALLOWED_AGGREGATION_STAGES
      then (if key \<in> set BLOCKED_AGGREGATION_STAGES then failWith (js ''stage '' @ dq key @ js '' is blocked'') ctx
            else failWith (js ''unknown stage '' @ dq key @ js '' '' @ [8212] @ js '' supported: '' @
                   join (js '', '') ALLOWED_AGGREGATION_STAGES) ctx)
      else if key = js ''$match'' then compileMatchStage rx value ctx
      else if key = js ''$project'' then compileProjectStage value ctx
      else if key = js ''$unwind'' then compileUnwindStage value ctx
      else if key = js ''$group'' then compileGroupStage value ctx
      else if key = js ''$sort'' then compileSortStage value ctx
      else if key = js ''$limit'' then compileLimitStage value ctx
      else if key = js ''$skip'' then compileSkipStage value ctx
      else failWith (js ''unknown stage '' @ dq key) ctx)"

definition compileStage :: "(jstr \<Rightarrow> bool) \<Rightarrow> nat \<times> jsval \<Rightarrow> DataError + AggregationStage" where
  "compileStage rx s =
     (let ctx = js ''pipeline['' @ show_nat (fst s) @ js '']'' in
      case snd s of
        VObj [(key, value)] \<Rightarrow> dispatchStage rx key value ctx
      | VObj es \<Rightarrow>
          if es = [] then failWith (js ''stage object is empty '' @ [8212] @ js '' expected exactly one stage key'') ctx
          else failWith (js ''stage must have exactly one key, found '' @ show_nat (length es) @ js '' ('' @
                 join (js '', '') (map fst es) @ js '') '' @ [8212] @ js '' split into separate stages'') ctx
      | _ \<Rightarrow> failWith (js ''each stage must be a plain object with exactly one key, e.g. { '' @ dq (js ''$match'') @
               js '': { ... } }'') ctx)"

text \<open>The entity name is a string; another value is answered with the same refusal.\<close>

definition validateAggregation :: "(jstr \<Rightarrow> bool) \<Rightarrow> jstr \<Rightarrow> jsval \<Rightarrow> DataError + EntityAggregation" where
  "validateAggregation rx entity pipeline =
     bindr (check (entity \<notin> set FORBIDDEN_KEYS \<and> isPlainName entity) (js ''invalid entity name '' @ dq entity @ js '' '' @ [8212] @
       js '' use letters, digits and underscores, starting with a letter or underscore'') []) (\<lambda>_.
     case pipeline of
       VArr stages \<Rightarrow>
         bindr (check (stages \<noteq> []) (js ''pipeline must contain at least one stage'') []) (\<lambda>_.
         bindr (check (length stages \<le> MAX_PIPELINE_STAGES) (js ''pipeline has '' @ show_nat (length stages) @ js '' stages '' @ [8212] @
           js '' maximum is '' @ show_nat MAX_PIPELINE_STAGES) []) (\<lambda>_.
         bindr (mapr (compileStage rx) (zip [0..<length stages] stages)) (\<lambda>ss.
         Inr \<lparr>ea_entity = entity, ea_pipeline = ss\<rparr>)))
     | _ \<Rightarrow> failWith (js ''pipeline must be an array of stage objects'') [])"

end
