(* ===== verification/MongoTranslate.thy ===== *)
theory MongoTranslate
  imports DataAggregation
begin

text \<open>
  The MongoDB translation of checked filters and pipelines,
  \<open>packages/data-engine/src/providers/mongodb/mongo-translate.ts\<close>.  A MongoDB document is the value of
  \<open>DataFilter\<close> that the driver is handed.

  A table that the code reads with \<open>table[key]\<close> is a plain object, so a key it does not have is looked
  up in \<open>Object.prototype\<close>: \<open>INHERITED\<close> lists the names found there with the text of their values.
\<close>

section \<open>Paths\<close>

definition ENVELOPE_PATHS :: "(jstr \<times> jstr) list" where
  "ENVELOPE_PATHS = map (\<lambda>(k, v). (js k, js v))
     [(''_id'', ''_id''), (''_entity'', ''envelope.entity''), (''_projectId'', ''envelope.projectId''),
      (''_schemaVersion'', ''envelope.schemaVersion''), (''_version'', ''envelope.version''),
      (''_lastEventId'', ''envelope.lastEventId''), (''_eventSequence'', ''envelope.eventSequence''),
      (''_status'', ''envelope.status''), (''_createdAt'', ''envelope.createdAt''),
      (''_updatedAt'', ''envelope.updatedAt''), (''_createdBy'', ''envelope.createdBy''),
      (''_deletedAt'', ''envelope.deletedAt'')]"

definition nativeCode :: "string \<Rightarrow> jstr" where
  "nativeCode f = js ''function '' @ js f @ js ''() { [native code] }''"

definition INHERITED :: "(jstr \<times> jstr) list" where
  "INHERITED =
     (js ''constructor'', nativeCode ''Object'') # (js ''__proto__'', js ''[object Object]'') #
     map (\<lambda>f. (js f, nativeCode f))
       [''hasOwnProperty'', ''isPrototypeOf'', ''propertyIsEnumerable'', ''toLocaleString'', ''toString'', ''valueOf'',
        ''__defineGetter__'', ''__defineSetter__'', ''__lookupGetter__'', ''__lookupSetter__'']"

text \<open>\<open>path.replace(/\[\]/g, '')\<close>.\<close>

fun withoutBrackets :: "jstr \<Rightarrow> jstr" where
  "withoutBrackets [] = []"
| "withoutBrackets [c] = [c]"
| "withoutBrackets (c # d # s) =
     (if c = 91 \<and> d = 93 then withoutBrackets s else c # withoutBrackets (d # s))"

definition toStoredPath :: "jstr \<Rightarrow> bool \<Rightarrow> jstr" where
  "toStoredPath path reshaped =
     (let clean = withoutBrackets path in
      if reshaped then clean
      else (case map_of (ENVELOPE_PATHS @ INHERITED) clean of
              Some envelope \<Rightarrow> envelope
            | None \<Rightarrow> js ''data.'' @ clean))"

section \<open>Filters\<close>

definition REGEX_SPECIALS :: jstr where
  "REGEX_SPECIALS = js ''.*+?^${}()|[]'' @ [92]"

definition likeUnit :: "int \<Rightarrow> jstr" where
  "likeUnit c =
     (if c = ch CHR ''%'' then js ''.*'' else if c = ch CHR ''_'' then js ''.''
      else if c \<in> set REGEX_SPECIALS then [92, c] else [c])"

definition likeToRegexSource :: "jstr \<Rightarrow> jstr" where
  "likeToRegexSource pattern = js ''^'' @ concat (map likeUnit pattern) @ js ''$''"

text \<open>\<open>String(v)\<close>; a list prints its members separated by commas, null and undefined as nothing.\<close>

fun stringOf :: "jsval \<Rightarrow> jstr" where
  "stringOf VNull = js ''null''"
| "stringOf VUndefined = js ''undefined''"
| "stringOf (VBool b) = js (if b then ''true'' else ''false'')"
| "stringOf (VNum n) = show_number n"
| "stringOf (VStr s) = s"
| "stringOf (VArr vs) = join (js '','') (map (\<lambda>v. if v = VNull \<or> v = VUndefined then [] else stringOf v) vs)"
| "stringOf (VObj es) = js ''[object Object]''"

definition asArray :: "jsval \<Rightarrow> jsval" where
  "asArray v = (case v of VArr vs \<Rightarrow> v | _ \<Rightarrow> VArr [v])"

definition operatorDoc :: "FilterOperator \<Rightarrow> jsval \<Rightarrow> (jstr \<times> jsval) list" where
  "operatorDoc operator v =
     (let insensitive = (js ''$options'', VStr (js ''i'')) in
      case operator of
        FEq \<Rightarrow> [(js ''$eq'', v)]
      | FNeq \<Rightarrow> [(js ''$ne'', v)]
      | FGt \<Rightarrow> [(js ''$gt'', v)]
      | FGte \<Rightarrow> [(js ''$gte'', v)]
      | FLt \<Rightarrow> [(js ''$lt'', v)]
      | FLte \<Rightarrow> [(js ''$lte'', v)]
      | FIn \<Rightarrow> [(js ''$in'', asArray v)]
      | FNin \<Rightarrow> [(js ''$nin'', asArray v)]
      | FContains \<Rightarrow> [(js ''$all'', VArr [v])]
      | FContainsAny \<Rightarrow> [(js ''$in'', asArray v)]
      | FExists \<Rightarrow> [(js ''$exists'', VBool (v \<noteq> VBool False))]
      | FRegex \<Rightarrow> [(js ''$regex'', VStr (stringOf v))]
      | FIregex \<Rightarrow> [(js ''$regex'', VStr (stringOf v)), insensitive]
      | FLike \<Rightarrow> [(js ''$regex'', VStr (likeToRegexSource (stringOf v)))]
      | FIlike \<Rightarrow> [(js ''$regex'', VStr (likeToRegexSource (stringOf v))), insensitive])"

definition fieldToMongo :: "PathRef \<Rightarrow> FilterOperator \<Rightarrow> jsval \<Rightarrow> bool \<Rightarrow> jsval" where
  "fieldToMongo ref operator v reshaped =
     VObj [(toStoredPath (pr_path ref) reshaped, VObj (operatorDoc operator v))]"

fun filterToMongo :: "Filter \<Rightarrow> bool \<Rightarrow> jsval" where
  "filterToMongo (FieldF ref operator v) r = fieldToMongo ref operator v r"
| "filterToMongo (AndF fs) r = VObj [(js ''$and'', VArr (map (\<lambda>f. filterToMongo f r) fs))]"
| "filterToMongo (OrF fs) r = VObj [(js ''$or'', VArr (map (\<lambda>f. filterToMongo f r) fs))]"
| "filterToMongo (NotF f) r = VObj [(js ''$nor'', VArr [filterToMongo f r])]"

section \<open>Sort and projection\<close>

definition sortToMongo :: "SortClause list \<Rightarrow> bool \<Rightarrow> (jstr \<times> jsval) list" where
  "sortToMongo clauses reshaped =
     foldl (\<lambda>out c. setKey (toStoredPath (pr_path (sc_path c)) reshaped) (VNum (if sc_desc c then - 1 else 1)) out) [] clauses"

definition selectToMongo :: "PathRef list \<Rightarrow> (jstr \<times> jsval) list" where
  "selectToMongo refs =
     foldl (\<lambda>out ref. setKey (toStoredPath (pr_path ref) False) (VNum 1) out) [(js ''envelope'', VNum 1)] refs"

section \<open>Stages\<close>

definition dollar :: "jstr \<Rightarrow> bool \<Rightarrow> jsval" where
  "dollar path reshaped = VStr (36 # toStoredPath path reshaped)"

definition lastSegment :: "jstr \<Rightarrow> jstr" where
  "lastSegment path = last (split_on 46 (withoutBrackets path))"

definition groupIdToMongo :: "GroupId \<Rightarrow> bool \<Rightarrow> jsval" where
  "groupIdToMongo gid reshaped =
     (case gid of
        WholeGroup \<Rightarrow> VNull
      | ByPaths refs \<Rightarrow>
          VObj (foldl (\<lambda>c ref. setKey (lastSegment (pr_path ref)) (dollar (pr_path ref) reshaped) c) [] refs)
      | ByPath ref \<Rightarrow> dollar (pr_path ref) reshaped)"

definition projectToMongo :: "bool \<Rightarrow> jstr \<times> ProjectValue \<Rightarrow> jsval" where
  "projectToMongo reshaped e =
     (case snd e of
        Include \<Rightarrow> if reshaped then VNum 1 else dollar (fst e) reshaped
      | Exclude \<Rightarrow> VNum 0
      | Reference p \<Rightarrow> dollar p reshaped
      | Literal v \<Rightarrow> VObj [(js ''$literal'', v)])"

primrec accumulatorName :: "AccumulatorOp \<Rightarrow> string" where
  "accumulatorName ACount = ''$count''" | "accumulatorName ASum = ''$sum''"
| "accumulatorName AAvg = ''$avg''" | "accumulatorName AMin = ''$min''"
| "accumulatorName AMax = ''$max''"

definition accumulatorToMongo :: "bool \<Rightarrow> jstr \<times> Accumulator \<Rightarrow> DataError + (jstr \<times> jsval)" where
  "accumulatorToMongo reshaped e =
     (let acc = snd e; op = js (accumulatorName (ac_op acc)) in
      if ac_op acc = ACount then Inr (fst e, VObj [(js ''$sum'', VNum 1)])
      else (case ac_path acc of
        None \<Rightarrow> Inl (QueryValidationError (js ''Accumulator '' @ dq (fst e) @ js '' ('' @ op @ js '') requires a path''))
      | Some ref \<Rightarrow> Inr (fst e, VObj [(op, dollar (pr_path ref) reshaped)])))"

definition setAll :: "(jstr \<times> jsval) list \<Rightarrow> (jstr \<times> jsval) list \<Rightarrow> (jstr \<times> jsval) list" where
  "setAll = foldl (\<lambda>out e. setKey (fst e) (snd e) out)"

text \<open>A stage and whether the documents are reshaped after it.\<close>

definition stageToMongo :: "AggregationStage \<Rightarrow> bool \<Rightarrow> DataError + (jsval \<times> bool)" where
  "stageToMongo stage reshaped =
     (case stage of
        MatchS f \<Rightarrow> Inr (VObj [(js ''$match'', filterToMongo f reshaped)], reshaped)
      | ProjectS ps \<Rightarrow>
          Inr (VObj [(js ''$project'', VObj (setAll [] (map (\<lambda>e. (fst e, projectToMongo reshaped e)) ps)))], True)
      | UnwindS ref preserve \<Rightarrow>
          Inr (VObj [(js ''$unwind'', VObj [(js ''path'', dollar (pr_path ref) reshaped),
                 (js ''preserveNullAndEmptyArrays'', VBool (preserve = Some True))])], reshaped)
      | GroupS gid accs \<Rightarrow>
          bindr (mapr (accumulatorToMongo reshaped) accs) (\<lambda>ds.
          Inr (VObj [(js ''$group'', VObj (setAll [(js ''_id'', groupIdToMongo gid reshaped)] ds))], True))
      | SortS cs \<Rightarrow> Inr (VObj [(js ''$sort'', VObj (sortToMongo cs reshaped))], reshaped)
      | LimitS n \<Rightarrow> Inr (VObj [(js ''$limit'', VNum n)], reshaped)
      | SkipS n \<Rightarrow> Inr (VObj [(js ''$skip'', VNum n)], reshaped))"

fun stagesToMongo :: "AggregationStage list \<Rightarrow> bool \<Rightarrow> DataError + (jsval list \<times> bool)" where
  "stagesToMongo [] reshaped = Inr ([], reshaped)"
| "stagesToMongo (s # ss) reshaped =
     bindr (stageToMongo s reshaped) (\<lambda>(d, r). bindr (stagesToMongo ss r) (\<lambda>(ds, r'). Inr (d # ds, r')))"

definition scopeMatch :: "jstr \<Rightarrow> jstr \<Rightarrow> jsval" where
  "scopeMatch projectId entity =
     VObj [(js ''$match'', VObj [(js ''envelope.projectId'', VStr projectId), (js ''envelope.entity'', VStr entity),
       (js ''envelope.status'', VObj [(js ''$ne'', VStr (js ''deleted''))])])]"

definition aggregationToMongoPipeline :: "EntityAggregation \<Rightarrow> jstr \<Rightarrow> jstr \<Rightarrow> DataError + (jsval list \<times> bool)" where
  "aggregationToMongoPipeline aggregation projectId entity =
     bindr (stagesToMongo (ea_pipeline aggregation) False)
       (\<lambda>(ds, reshaped). Inr (scopeMatch projectId entity # ds, reshaped))"

end
