(* ===== verification/DataFilterRules.thy ===== *)
theory DataFilterRules
  imports DataFilter
begin

text \<open>
  What the shared compiler guarantees: checked paths and values, well-formed filter trees of bounded
  height, sort clauses, errors that are always messages of its own, and the round trip of a filter
  tree through its printed object.
\<close>

section \<open>Checked paths and values\<close>

definition safePath :: "jstr \<Rightarrow> bool" where
  "safePath p \<longleftrightarrow>
     p \<noteq> [] \<and> length p \<le> 256 \<and>
     list_all (\<lambda>seg. isPathName (dropBrackets seg) \<and> dropBrackets seg \<notin> set FORBIDDEN_KEYS) (split_on 46 p)"

fun jsonClean :: "jsval \<Rightarrow> bool" where
  "jsonClean VUndefined = False"
| "jsonClean (VArr vs) = list_all jsonClean vs"
| "jsonClean (VObj es) = list_all (\<lambda>(k, v). k \<notin> set FORBIDDEN_KEYS \<and> jsonClean v) es"
| "jsonClean v = True"

definition valueOk :: "(jstr \<Rightarrow> bool) \<Rightarrow> FilterOperator \<Rightarrow> jsval \<Rightarrow> bool" where
  "valueOk rx operator v \<longleftrightarrow>
     jsonClean v \<and>
     (operator \<in> {FIn, FNin, FContainsAny} \<longrightarrow> (case v of VArr vs \<Rightarrow> length vs \<le> 1000 | _ \<Rightarrow> False)) \<and>
     (operator \<in> {FRegex, FIregex, FLike, FIlike} \<longrightarrow> (case v of VStr s \<Rightarrow> length s \<le> 512 | _ \<Rightarrow> False)) \<and>
     (operator \<in> {FRegex, FIregex} \<longrightarrow> (case v of VStr s \<Rightarrow> rx s | _ \<Rightarrow> False)) \<and>
     (operator = FExists \<longrightarrow> (case v of VBool b \<Rightarrow> True | _ \<Rightarrow> False))"

lemma mapr_unit: "(\<exists>us. mapr f xs = Inr us) \<longleftrightarrow> (\<forall>x\<in>set xs. \<exists>u. f x = Inr u)"
  by (induction xs) (auto simp: bindr_eq_Inr)

lemma assertSafePath_iff: "assertSafePath path ctx = Inr u \<longleftrightarrow> safePath path"
  by (auto simp: assertSafePath_def safePath_def SAFE_PATH_RE_def bindr_eq_Inr mapr_unit list_all_iff)

lemma assertJsonValue_iff: "assertJsonValue ctx v = Inr u \<longleftrightarrow> jsonClean v"
  by (induction ctx v rule: assertJsonValue.induct) (fastforce simp: bindr_eq_Inr mapr_unit list_all_iff)+

lemma safePath_segments:
  assumes "safePath p"
  shows "p \<notin> set FORBIDDEN_KEYS"
proof
  assume p: "p \<in> set FORBIDDEN_KEYS"
  then have "split_on 46 p = [p] \<and> dropBrackets p = p"
    by (auto simp: FORBIDDEN_KEYS_def dropBrackets_def ends_with_def starts_with_def BRACKETS_def)
  with p assms show False by (simp add: safePath_def)
qed

lemma isPathName_units: "isPathName s \<Longrightarrow> c \<in> set s \<Longrightarrow> isPathChar c"
  by (auto simp: isPathName_def isPathChar_def list_all_iff split: list.splits)

lemma dropBrackets_units: "c \<in> set s \<Longrightarrow> c \<in> set (dropBrackets s) \<or> c \<in> {91, 93}"
proof (cases "ends_with BRACKETS s")
  case True
  then obtain t where "rev s = rev BRACKETS @ t"
    by (auto simp: ends_with_def starts_with_prefix prefix_def)
  then have "s = rev t @ BRACKETS" by (metis rev_append rev_rev_ident)
  then show "c \<in> set s \<Longrightarrow> ?thesis" by (auto simp: dropBrackets_def BRACKETS_def)
qed (simp add: dropBrackets_def)

text \<open>A path holds no unit that a store could read as anything but a part of a name.\<close>

lemma split_on_units: "c \<in> set p \<Longrightarrow> c = d \<or> (\<exists>seg\<in>set (split_on d p). c \<in> set seg)"
  by (induction d p rule: split_on.induct) (auto split: list.splits)

lemma safePath_units:
  assumes "safePath p" "c \<in> set p"
  shows "isPathChar c \<or> c \<in> {46, 91, 93}"
proof -
  consider "c = 46" | seg where "seg \<in> set (split_on 46 p)" "c \<in> set seg"
    using split_on_units [OF assms(2), of 46] by blast
  then show ?thesis
  proof cases
    case 2
    with assms(1) have "isPathName (dropBrackets seg)" by (auto simp: safePath_def list_all_iff)
    with dropBrackets_units [OF 2(2)] isPathName_units show ?thesis by blast
  qed simp
qed

section \<open>Well-formed filters\<close>

fun wfFilter :: "(jstr \<Rightarrow> bool) \<Rightarrow> Filter \<Rightarrow> bool" where
  "wfFilter rx (FieldF ref operator v) \<longleftrightarrow>
     safePath (pr_path ref) \<and> \<not> startsWithDollar (pr_path ref) \<and> valueOk rx operator v \<and>
     pr_isArrayPath ref = (hasBrackets (pr_path ref) \<or> operator \<in> {FContains, FContainsAny})"
| "wfFilter rx (AndF fs) \<longleftrightarrow> fs \<noteq> [] \<and> list_all (wfFilter rx) fs"
| "wfFilter rx (OrF fs) \<longleftrightarrow> fs \<noteq> [] \<and> length fs \<le> 50 \<and> list_all (wfFilter rx) fs"
| "wfFilter rx (NotF f) \<longleftrightarrow> wfFilter rx f"

fun filterHeight :: "Filter \<Rightarrow> nat" where
  "filterHeight (FieldF ref operator v) = 1"
| "filterHeight (AndF fs) = Suc (foldr max (map filterHeight fs) 0)"
| "filterHeight (OrF fs) = Suc (foldr max (map filterHeight fs) 0)"
| "filterHeight (NotF f) = Suc (filterHeight f)"

lemma foldr_max_le: "foldr max xs (0::nat) \<le> n \<longleftrightarrow> (\<forall>x\<in>set xs. x \<le> n)"
  by (induction xs) auto

definition boundedFilter :: "(jstr \<Rightarrow> bool) \<Rightarrow> nat \<Rightarrow> Filter \<Rightarrow> bool" where
  "boundedFilter rx n f \<longleftrightarrow> wfFilter rx f \<and> filterHeight f \<le> n"

lemma bounded_and: "fs \<noteq> [] \<Longrightarrow> \<forall>f\<in>set fs. boundedFilter rx n f \<Longrightarrow> boundedFilter rx (Suc n) (AndF fs)"
  by (auto simp: boundedFilter_def list_all_iff foldr_max_le)

lemma bounded_or:
  "fs \<noteq> [] \<Longrightarrow> length fs \<le> 50 \<Longrightarrow> \<forall>f\<in>set fs. boundedFilter rx n f \<Longrightarrow> boundedFilter rx (Suc n) (OrF fs)"
  by (auto simp: boundedFilter_def list_all_iff foldr_max_le)

lemma bounded_mono: "boundedFilter rx m f \<Longrightarrow> m \<le> n \<Longrightarrow> boundedFilter rx n f"
  by (simp add: boundedFilter_def)

lemma bounded_single:
  assumes "fs \<noteq> []" "\<forall>f\<in>set fs. boundedFilter rx n f"
  shows "boundedFilter rx (Suc n) (single fs)"
  using bounded_and [OF assms] assms bounded_mono by (auto simp: single_def split: list.splits)

lemma makeFieldFilter_wf:
  assumes "makeFieldFilter rx path operator value ctx = Inr f" "\<not> startsWithDollar path"
  shows "boundedFilter rx 1 f"
  using assms
  by (auto simp: makeFieldFilter_def boundedFilter_def bindr_eq_Inr assertSafePath_iff assertJsonValue_iff valueOk_def
      ARRAY_VALUE_OPERATORS_def STRING_VALUE_OPERATORS_def ARRAY_PATH_OPERATORS_def checkArray_def checkPattern_def
      MAX_IN_ITEMS_def MAX_REGEX_LENGTH_def Let_def split: if_splits jsval.splits)

lemma mapr_length: "mapr f xs = Inr ys \<Longrightarrow> length ys = length xs"
  by (induction xs arbitrary: ys) (auto simp: bindr_eq_Inr)

lemma mapr_Nil_iff: "mapr f xs = Inr ys \<Longrightarrow> ys = [] \<longleftrightarrow> xs = []"
  by (drule mapr_length) auto

lemma compileOperator_wf:
  "compileOperator rx key ctx e = Inr f \<Longrightarrow> \<not> startsWithDollar key \<Longrightarrow> boundedFilter rx 1 f"
  unfolding compileOperator_def by (auto intro: makeFieldFilter_wf [simplified] split: option.splits)

lemma compileField_wf:
  assumes "compileField rx key value ctx = Inr f" "\<not> startsWithDollar key"
  shows "boundedFilter rx 2 f"
proof (cases "\<exists>es. value = VObj es")
  case True
  then obtain es where v: "value = VObj es" by blast
  with assms(1) obtain fs where fs: "mapr (compileOperator rx key ctx) es = Inr fs" "f = single fs" "es \<noteq> []"
    by (cases "es = []") (auto simp: compileField_def Let_def bindr_eq_Inr split: if_splits)
  have "\<forall>g\<in>set fs. boundedFilter rx 1 g"
    using mapr_Inr_elem [OF fs(1)] compileOperator_wf assms(2) by blast
  with fs mapr_Nil_iff [OF fs(1)] bounded_single [of fs rx 1] show ?thesis
    by (simp add: numeral_2_eq_2)
next
  case False
  with assms(1) have "makeFieldFilter rx key FEq value ctx = Inr f"
    by (cases "value") (auto simp: compileField_def bindr_eq_Inr)
  from makeFieldFilter_wf [OF this assms(2)] show ?thesis by (rule bounded_mono) simp
qed

text \<open>Every level of an object adds at most two levels to the tree.\<close>

abbreviation levelsBelow :: "nat \<Rightarrow> nat" where
  "levelsBelow depth \<equiv> 2 * (9 - depth)"

lemma compile_wf:
  shows "compileNode rx obj depth ctx = Inr f \<Longrightarrow> depth \<le> 8 \<and> boundedFilter rx (Suc (levelsBelow depth)) f"
    and "compileEntry rx key value depth ctx = Inr g \<Longrightarrow> depth \<le> 8 \<Longrightarrow> boundedFilter rx (levelsBelow depth) g"
proof (induction rx obj depth ctx and rx key "value" depth ctx arbitrary: f and g rule: compileNode_compileEntry.induct)
  case (1 rx obj depth ctx)
  from "1.prems" obtain es fs where d: "depth \<le> 8" and o: "obj = VObj es" "es \<noteq> []"
    and fs: "mapr (\<lambda>(k, v). compileEntry rx k v depth ctx) es = Inr fs" "f = single fs"
    by (auto simp: compileNode.simps [of rx obj] MAX_FILTER_DEPTH_def bindr_eq_Inr split: if_splits jsval.splits)
  have "boundedFilter rx (levelsBelow depth) g" if "g \<in> set fs" for g
  proof -
    from mapr_Inr_elem [OF fs(1) that] obtain k v where "(k, v) \<in> set es" "compileEntry rx k v depth ctx = Inr g" by auto
    with "1.IH" [of es "(k, v)" k v g] d o show ?thesis by (simp add: MAX_FILTER_DEPTH_def)
  qed
  with bounded_single [of fs rx "levelsBelow depth"] mapr_Nil_iff [OF fs(1)] o fs(2) d show ?case by simp
next
  case (2 rx key "value" depth ctx)
  have big: "Suc (Suc (levelsBelow (Suc depth))) \<le> levelsBelow depth" if "depth < 8"
    using that by simp
  from "2.prems" have k: "key \<notin> set FORBIDDEN_KEYS"
    by (auto simp: compileEntry.simps split: if_splits)
  consider (logic) "isLogicKey key" | (neg) "\<not> isLogicKey key" "key = js ''$not''"
    | (field) "\<not> isLogicKey key" "key \<noteq> js ''$not''" by blast
  then show ?case
  proof cases
    case logic
    from "2.prems"(1) k logic obtain vs fs where v: "value = VArr vs" "vs \<noteq> []" "length vs \<le> 50"
      and fs: "mapr (\<lambda>c. compileNode rx c (depth + 1) ctx) vs = Inr fs" "g = AndF fs \<or> g = OrF fs"
      by (auto simp: compileEntry.simps MAX_LOGICAL_CONDITIONS_def bindr_eq_Inr split: if_splits jsval.splits)
    have sub: "depth + 1 \<le> 8 \<and> boundedFilter rx (Suc (levelsBelow (Suc depth))) h" if "h \<in> set fs" for h
    proof -
      from mapr_Inr_elem [OF fs(1) that] obtain c where "c \<in> set vs" "compileNode rx c (depth + 1) ctx = Inr h" by auto
      with "2.IH"(1) [of vs c h] k logic v show ?thesis by (simp add: MAX_LOGICAL_CONDITIONS_def)
    qed
    have ne: "fs \<noteq> []" "length fs \<le> 50" using mapr_length [OF fs(1)] v by auto
    then have "hd fs \<in> set fs" by simp
    from sub [OF this] have "depth < 8" by simp
    moreover have "boundedFilter rx (Suc (Suc (levelsBelow (Suc depth)))) g"
      using fs(2) ne sub bounded_and [of fs rx] bounded_or [of fs rx] by blast
    ultimately show ?thesis using big bounded_mono by blast
  next
    case neg
    from "2.prems"(1) k neg obtain es h where v: "value = VObj es"
      and h: "compileNode rx value (depth + 1) ctx = Inr h" "g = NotF h"
      by (auto simp: compileEntry.simps bindr_eq_Inr split: if_splits jsval.splits)
    have "depth + 1 \<le> 8 \<and> boundedFilter rx (Suc (levelsBelow (Suc depth))) h"
      using "2.IH"(2) [of es h] k neg v h by simp
    with h(2) big show ?thesis by (auto simp: boundedFilter_def)
  next
    case field
    with "2.prems"(1) k have "compileField rx key value ctx = Inr g" "\<not> startsWithDollar key"
      by (auto simp: compileEntry.simps split: if_splits)
    from compileField_wf [OF this] show ?thesis
      using "2.prems"(2) by (auto intro: bounded_mono)
  qed
qed

section \<open>Sort clauses\<close>

definition wfSort :: "SortClause \<Rightarrow> bool" where
  "wfSort c \<longleftrightarrow> safePath (pr_path (sc_path c)) \<and> pr_isArrayPath (sc_path c) = hasBrackets (pr_path (sc_path c))"

lemma compileSortObject_wf:
  assumes "compileSortObject obj ctx = Inr cs"
  shows "cs \<noteq> [] \<and> length cs \<le> 5 \<and> list_all wfSort cs"
proof -
  from assms obtain es where es: "es \<noteq> []" "length es \<le> 5" and cs: "mapr (compileSortClause ctx) es = Inr cs"
    by (auto simp: compileSortObject_def bindr_eq_Inr split: jsval.splits)
  have "wfSort c" if "c \<in> set cs" for c
    using mapr_Inr_elem [OF cs that] by (auto simp: compileSortClause_def bindr_eq_Inr assertSafePath_iff wfSort_def)
  with es mapr_length [OF cs] show ?thesis by (auto simp: list_all_iff)
qed

section \<open>Errors\<close>

text \<open>The compiler raises its own error only, never one with a position.\<close>

definition ownError :: "DataError + 'a \<Rightarrow> bool" where
  "ownError r \<longleftrightarrow> (\<forall>m l c. r \<noteq> Inl (JsQueryParseError m l c))"

lemma ownError_basic [simp, intro]:
  "ownError (Inr v)" "ownError (failWith message ctx)" "ownError (check ok message ctx)"
  "ownError (Inl (QueryValidationError message))"
  by (auto simp: ownError_def failWith_def check_def)

lemma ownError_bindr [intro]: "ownError r \<Longrightarrow> (\<And>v. r = Inr v \<Longrightarrow> ownError (f v)) \<Longrightarrow> ownError (bindr r f)"
  by (cases r) (auto simp: ownError_def)

lemma ownError_mapr [intro]: "(\<And>x. x \<in> set xs \<Longrightarrow> ownError (f x)) \<Longrightarrow> ownError (mapr f xs)"
proof (induction xs)
  case (Cons x xs)
  have "ownError (f x)" "ownError (mapr f xs)" using Cons by auto
  then show ?case by (auto intro!: ownError_bindr)
qed simp

lemma assertSafePath_own [intro]: "ownError (assertSafePath path ctx)"
  unfolding assertSafePath_def by (intro ownError_bindr ownError_mapr) auto

lemma assertJsonValue_own [intro]: "ownError (assertJsonValue ctx v)"
  by (induction ctx v rule: assertJsonValue.induct) (auto intro!: ownError_bindr ownError_mapr)

lemma makeFieldFilter_own [intro]: "ownError (makeFieldFilter rx path operator value ctx)"
  unfolding makeFieldFilter_def checkArray_def checkPattern_def Let_def
  by (intro ownError_bindr) (auto intro!: ownError_bindr split: jsval.splits)

lemma compileField_own [intro]: "ownError (compileField rx key value ctx)"
  unfolding compileField_def compileOperator_def Let_def
  by (auto intro!: ownError_bindr ownError_mapr split: jsval.splits option.splits)

lemma compile_own:
  shows "ownError (compileNode rx obj depth ctx)" and "ownError (compileEntry rx key value depth ctx)"
proof (induction rx obj depth ctx and rx key "value" depth ctx rule: compileNode_compileEntry.induct)
  case (1 rx obj depth ctx)
  then show ?case
    by (subst compileNode.simps) (auto intro!: ownError_bindr ownError_mapr split: jsval.splits)
next
  case (2 rx key "value" depth ctx)
  then show ?case
    by (subst compileEntry.simps) (auto intro!: ownError_bindr ownError_mapr split: jsval.splits)
qed

lemma compileFilterObject_own [intro]: "ownError (compileFilterObject rx obj ctx)"
  unfolding compileFilterObject_def using compile_own(1) by (auto intro!: ownError_bindr)

lemma compileSortObject_own [intro]: "ownError (compileSortObject obj ctx)"
  unfolding compileSortObject_def compileSortClause_def sortDirection_def
  by (auto intro!: ownError_bindr ownError_mapr split: jsval.splits)

section \<open>The round trip\<close>

fun printFilter :: "Filter \<Rightarrow> jsval" where
  "printFilter (FieldF ref operator v) = VObj [(pr_path ref, VObj [(36 # js (operatorName operator), v)])]"
| "printFilter (AndF fs) = VObj [(js ''$and'', VArr (map printFilter fs))]"
| "printFilter (OrF fs) = VObj [(js ''$or'', VArr (map printFilter fs))]"
| "printFilter (NotF f) = VObj [(js ''$not'', printFilter f)]"

fun narrow :: "Filter \<Rightarrow> bool" where
  "narrow (FieldF ref operator v) = True"
| "narrow (AndF fs) \<longleftrightarrow> length fs \<le> 50 \<and> list_all narrow fs"
| "narrow (OrF fs) \<longleftrightarrow> list_all narrow fs"
| "narrow (NotF f) \<longleftrightarrow> narrow f"

lemma map_of_operator: "map_of OPERATOR_MAP (36 # js (operatorName operator)) = Some operator"
  by (cases operator) (simp_all add: OPERATOR_MAP_def)

lemma makeFieldFilter_eq:
  assumes "wfFilter rx (FieldF ref operator v)"
  shows "makeFieldFilter rx (pr_path ref) operator v ctx = Inr (FieldF ref operator v)"
proof -
  from assms have p: "safePath (pr_path ref)" and v: "valueOk rx operator v" by simp_all
  have a: "assertSafePath (pr_path ref) ctx = Inr ()" using p by (simp add: assertSafePath_iff)
  have j: "assertJsonValue ctx v = Inr ()" using v by (simp add: assertJsonValue_iff valueOk_def)
  have r: "ref = \<lparr>pr_path = pr_path ref, pr_isArrayPath = hasBrackets (pr_path ref) \<or> operator \<in> {FContains, FContainsAny}\<rparr>"
    using assms by simp
  have ar: "operator \<in> set ARRAY_VALUE_OPERATORS \<Longrightarrow> checkArray (pr_path ref) operator v ctx = Inr ()"
    using v by (auto simp: valueOk_def checkArray_def ARRAY_VALUE_OPERATORS_def MAX_IN_ITEMS_def Let_def split: jsval.splits)
  have st: "operator \<in> set STRING_VALUE_OPERATORS \<Longrightarrow> checkPattern rx (pr_path ref) operator v ctx = Inr ()"
    using v by (auto simp: valueOk_def checkPattern_def STRING_VALUE_OPERATORS_def MAX_REGEX_LENGTH_def bindr_eq_Inr split: jsval.splits)
  have ex: "check (operator = FExists \<longrightarrow> (case v of VBool b \<Rightarrow> True | _ \<Rightarrow> False)) m ctx = Inr ()" for m
    using v by (simp add: valueOk_def)
  show ?thesis
    unfolding makeFieldFilter_def a j bindr_Inr ex using ar st r by (simp add: ARRAY_PATH_OPERATORS_def)
qed

lemma print_field:
  assumes "wfFilter rx (FieldF ref operator v)" "depth \<le> 8"
  shows "compileNode rx (printFilter (FieldF ref operator v)) depth ctx = Inr (FieldF ref operator v)"
proof -
  let ?p = "pr_path ref"
  from assms(1) have p: "?p \<notin> set FORBIDDEN_KEYS" "\<not> startsWithDollar ?p"
    using safePath_segments by simp_all
  then have "\<not> isLogicKey ?p" "?p \<noteq> js ''$not''"
    by (auto simp: isLogicKey_def startsWithDollar_def)
  with p assms makeFieldFilter_eq [OF assms(1)] show ?thesis
    by (simp add: compileNode.simps compileEntry.simps MAX_FILTER_DEPTH_def compileField_def compileOperator_def
        map_of_operator single_def startsWithDollar_def)
qed

lemma height_member: "f \<in> set fs \<Longrightarrow> filterHeight f \<le> foldr max (map filterHeight fs) 0"
  using foldr_max_le [of "map filterHeight fs" "foldr max (map filterHeight fs) 0"] by simp

lemma mapr_map_id: "(\<And>f. f \<in> set fs \<Longrightarrow> g (h f) = Inr f) \<Longrightarrow> mapr g (map h fs) = Inr fs"
  by (induction fs) auto

lemma printFilter_object: "\<exists>es. printFilter f = VObj es"
  by (cases f) auto

lemmas print_simps =
  compileNode.simps [of rx "VObj es" for rx es] compileEntry.simps MAX_FILTER_DEPTH_def
  MAX_LOGICAL_CONDITIONS_def isLogicKey_def FORBIDDEN_KEYS_def single_def

lemma compile_print:
  "wfFilter rx f \<Longrightarrow> narrow f \<Longrightarrow> filterHeight f + depth \<le> 9 \<Longrightarrow> compileNode rx (printFilter f) depth ctx = Inr f"
proof (induction f arbitrary: depth rule: printFilter.induct)
  case (1 ref operator v)
  then show ?case by (intro print_field) auto
next
  case (2 fs)
  have "filterHeight f + Suc depth \<le> 9" if "f \<in> set fs" for f
    using height_member [OF that] "2.prems"(3) by simp
  then have "mapr (\<lambda>c. compileNode rx c (Suc depth) ctx) (map printFilter fs) = Inr fs"
    using "2.prems"(1,2) by (intro mapr_map_id "2.IH") (auto simp: list_all_iff)
  with 2 show ?case by (simp add: print_simps)
next
  case (3 fs)
  have "filterHeight f + Suc depth \<le> 9" if "f \<in> set fs" for f
    using height_member [OF that] "3.prems"(3) by simp
  then have "mapr (\<lambda>c. compileNode rx c (Suc depth) ctx) (map printFilter fs) = Inr fs"
    using "3.prems"(1,2) by (intro mapr_map_id "3.IH") (auto simp: list_all_iff)
  with 3 show ?case by (simp add: print_simps)
next
  case (4 f)
  have "compileNode rx (printFilter f) (Suc depth) ctx = Inr f" using 4 by simp
  moreover obtain es where "printFilter f = VObj es" using printFilter_object by blast
  ultimately show ?case using "4.prems"(3) by (simp add: print_simps)
qed

section \<open>What a compiled filter is\<close>

text \<open>
  A filter that the compiler lets through is well formed: every path is made of plain names, no
  forbidden key occurs in it or in a value, the value fits its operator (list length, pattern
  length, boolean), no logical node is empty, an $or has at most 50 branches, and the tree is at
  most 17 levels high however deep the object is.
\<close>

theorem compiled_filter_is_well_formed:
  assumes "compileFilterObject rx obj ctx = Inr (Some f)"
  shows "wfFilter rx f \<and> filterHeight f \<le> 17"
proof -
  from assms have "compileNode rx obj 1 ctx = Inr f"
    by (auto simp: compileFilterObject_def bindr_eq_Inr split: if_splits)
  from compile_wf(1) [OF this] show ?thesis by (simp add: boundedFilter_def)
qed

definition sampleFilter :: jsval where
  "sampleFilter = VObj [(js ''age'', VObj [(js ''$gte'', VNum 18)]),
     (js ''$or'', VArr [VObj [(js ''name'', VObj [(js ''$like'', VStr (js ''a%''))])], VObj [(js ''tags[]'', VStr (js ''new''))]])]"

definition sampleTree :: Filter where
  "sampleTree =
     (let field = (\<lambda>p a op v. FieldF \<lparr>pr_path = js p, pr_isArrayPath = a\<rparr> op v) in
      AndF [field ''age'' False FGte (VNum 18),
            OrF [field ''name'' False FLike (VStr (js ''a%'')), field ''tags[]'' True FEq (VStr (js ''new''))]])"

theorem compiled_filter_is_well_formed_witness:
  "wfFilter (\<lambda>s. True) sampleTree \<and> filterHeight sampleTree \<le> 17"
proof (rule compiled_filter_is_well_formed)
  show "compileFilterObject (\<lambda>s. True) sampleFilter (js ''find()'') = Inr (Some sampleTree)" by code_simp
qed



end
