(* ===== verification/MongoRules.thy ===== *)
theory MongoRules
  imports MongoTranslate DataFilterRules
begin

text \<open>
  What reaches MongoDB: the shape of validated stages, the tenant scope of every translated pipeline
  with the closed set of stages and operators behind it, and the meaning of translated LIKE patterns.
\<close>

section \<open>Validated stages\<close>

definition wfRef :: "PathRef \<Rightarrow> bool" where
  "wfRef ref \<longleftrightarrow> safePath (pr_path ref) \<and> pr_isArrayPath ref = hasBrackets (pr_path ref)"

definition wfAccumulator :: "jstr \<times> Accumulator \<Rightarrow> bool" where
  "wfAccumulator e \<longleftrightarrow>
     fst e \<noteq> js ''_id'' \<and> isPlainName (fst e) \<and>
     (if ac_op (snd e) = ACount then ac_path (snd e) = None
      else (case ac_path (snd e) of Some ref \<Rightarrow> wfRef ref | None \<Rightarrow> False))"

fun wfProjection :: "jstr \<times> ProjectValue \<Rightarrow> bool" where
  "wfProjection (k, Reference p) \<longleftrightarrow> safePath k \<and> safePath p"
| "wfProjection (k, Literal v) \<longleftrightarrow> safePath k \<and> jsonClean v"
| "wfProjection (k, _) \<longleftrightarrow> safePath k"

fun wfStage :: "(jstr \<Rightarrow> bool) \<Rightarrow> AggregationStage \<Rightarrow> bool" where
  "wfStage rx (MatchS f) \<longleftrightarrow> wfFilter rx f"
| "wfStage rx (ProjectS ps) \<longleftrightarrow> ps \<noteq> [] \<and> length ps \<le> 50 \<and> list_all wfProjection ps"
| "wfStage rx (UnwindS ref preserve) \<longleftrightarrow> wfRef ref"
| "wfStage rx (GroupS gid accs) \<longleftrightarrow>
     (case gid of WholeGroup \<Rightarrow> True | ByPath ref \<Rightarrow> wfRef ref
      | ByPaths refs \<Rightarrow> refs \<noteq> [] \<and> length refs \<le> 5 \<and> list_all wfRef refs) \<and>
     accs \<noteq> [] \<and> length accs \<le> 20 \<and> list_all wfAccumulator accs"
| "wfStage rx (SortS cs) \<longleftrightarrow> cs \<noteq> [] \<and> length cs \<le> 5 \<and> list_all wfSort cs"
| "wfStage rx (LimitS n) \<longleftrightarrow> isInteger n \<and> 1 \<le> n \<and> n \<le> 1000"
| "wfStage rx (SkipS n) \<longleftrightarrow> isInteger n \<and> 0 \<le> n \<and> n \<le> 100000"

lemma assertJsonLiteral_iff: "assertJsonLiteral ctx v = Inr u \<longleftrightarrow> jsonClean v"
  by (induction ctx v rule: assertJsonLiteral.induct) (fastforce simp: bindr_eq_Inr mapr_unit list_all_iff)+

lemma toPathRef_wf: "toPathRef path ctx = Inr ref \<Longrightarrow> wfRef ref"
  by (auto simp: toPathRef_def bindr_eq_Inr assertSafePath_iff wfRef_def)

lemma projectValue_wf: "projectValue ctx e = Inr p \<Longrightarrow> wfProjection p"
  by (auto simp: projectValue_def Let_def bindr_eq_Inr assertSafePath_iff assertJsonLiteral_iff
      split: jsval.splits if_splits)

lemma mapr_wf:
  assumes "mapr f xs = Inr ys" "\<And>x y. x \<in> set xs \<Longrightarrow> f x = Inr y \<Longrightarrow> P y"
  shows "list_all P ys \<and> length ys = length xs \<and> (ys = [] \<longleftrightarrow> xs = [])"
proof (intro conjI)
  show "list_all P ys" using assms by (rule mapr_list_all)
qed (use mapr_length [OF assms(1)] mapr_Nil_iff [OF assms(1)] in blast)+

definition wfAccumulated :: "Accumulator \<Rightarrow> bool" where
  "wfAccumulated a \<longleftrightarrow>
     (if ac_op a = ACount then ac_path a = None else (case ac_path a of Some ref \<Rightarrow> wfRef ref | None \<Rightarrow> False))"

lemma accumulate_wf:
  assumes "accumulate key opName opValue ctx = Inr a"
  shows "wfAccumulated a"
proof (cases "map_of ALLOWED_ACCUMULATORS opName")
  case None
  with assms show ?thesis by (simp add: accumulate_def)
next
  case (Some op)
  show ?thesis
  proof (cases "op = ACount")
    case True
    with assms Some show ?thesis by (auto simp: accumulate_def bindr_eq_Inr wfAccumulated_def simp del: js_Cons)
  next
    case False
    with assms Some obtain p ref where "toPathRef p ctx = Inr ref" "a = \<lparr>ac_op = op, ac_path = Some ref\<rparr>"
      by (cases op; cases opValue) (auto simp: accumulate_def bindr_eq_Inr simp del: js_Cons)
    with False toPathRef_wf show ?thesis by (simp add: wfAccumulated_def)
  qed
qed

lemma compileAccumulator_wf: "compileAccumulator key value ctx = Inr a \<Longrightarrow> wfAccumulated a"
  by (auto simp: compileAccumulator_def simp del: js_Cons dest: accumulate_wf split: jsval.splits list.splits prod.splits)

lemma groupField_wf:
  assumes "groupField ctx e = Inr a" "fst e \<noteq> js ''_id''"
  shows "wfAccumulator a"
proof -
  from assms(1) obtain b where "isPlainName (fst e)" "compileAccumulator (fst e) (snd e) ctx = Inr b" "a = (fst e, b)"
    by (auto simp: groupField_def bindr_eq_Inr simp del: js_Cons)
  with assms(2) compileAccumulator_wf show ?thesis by (simp add: wfAccumulator_def wfAccumulated_def del: js_Cons)
qed

lemma groupIdPath_wf: "groupIdPath ctx p = Inr ref \<Longrightarrow> wfRef ref"
  by (auto simp: groupIdPath_def dest: toPathRef_wf split: jsval.splits)

lemma compileGroupId_wf:
  assumes "compileGroupId gid ctx = Inr g"
  shows "case g of WholeGroup \<Rightarrow> True | ByPath ref \<Rightarrow> wfRef ref
      | ByPaths refs \<Rightarrow> refs \<noteq> [] \<and> length refs \<le> 5 \<and> list_all wfRef refs"
proof -
  from assms consider "g = WholeGroup" | s ref where "g = ByPath ref" "toPathRef s ctx = Inr ref"
    | ps refs where "g = ByPaths refs" "ps \<noteq> []" "length ps \<le> 5" "mapr (groupIdPath ctx) ps = Inr refs"
    by (auto simp: compileGroupId_def bindr_eq_Inr Let_def MAX_GROUP_ID_PATHS_def split: jsval.splits)
  then show ?thesis
  proof cases
    case 3
    with mapr_wf [OF 3(4), of wfRef] groupIdPath_wf show ?thesis by auto
  qed (auto dest: toPathRef_wf)
qed

lemma compileGroupStage_wf:
  assumes "compileGroupStage value ctx = Inr s"
  shows "wfStage rx s"
proof -
  from assms obtain es gid g accs where es: "value = VObj es" "map_of es (js ''_id'') = Some gid"
    and g: "compileGroupId gid ctx = Inr g"
    and fs: "filter (\<lambda>e. fst e \<noteq> js ''_id'') es \<noteq> []" "length (filter (\<lambda>e. fst e \<noteq> js ''_id'') es) \<le> 20"
    and accs: "mapr (groupField ctx) (filter (\<lambda>e. fst e \<noteq> js ''_id'') es) = Inr accs" "s = GroupS g accs"
    by (auto simp: compileGroupStage_def Let_def bindr_eq_Inr MAX_GROUP_ACCUMULATORS_def split: jsval.splits option.splits)
  have "list_all wfAccumulator accs"
    using accs(1) by (rule mapr_list_all) (auto intro: groupField_wf)
  with compileGroupId_wf [OF g] mapr_length [OF accs(1)] mapr_Nil_iff [OF accs(1)] fs accs(2) show ?thesis by simp
qed

lemma numberIn_Some: "numberIn lo hi value = Some n \<Longrightarrow> isInteger n \<and> lo \<le> n \<and> n \<le> hi"
  by (auto simp: numberIn_def split: jsval.splits if_splits)

lemma compileUnwindStage_wf: "compileUnwindStage value ctx = Inr s \<Longrightarrow> wfStage rx s"
  by (auto simp: compileUnwindStage_def unwindOptions_def bindr_eq_Inr dest: toPathRef_wf split: jsval.splits)

lemma compileProjectStage_wf:
  assumes "compileProjectStage value ctx = Inr s"
  shows "wfStage rx s"
proof -
  from assms obtain es ps where "es \<noteq> []" "length es \<le> 50" "mapr (projectValue ctx) es = Inr ps" "s = ProjectS ps"
    by (auto simp: compileProjectStage_def bindr_eq_Inr MAX_PROJECT_FIELDS_def split: jsval.splits)
  with mapr_wf [of "projectValue ctx" es ps wfProjection] projectValue_wf show ?thesis by auto
qed

lemma compileMatchStage_wf: "compileMatchStage rx value ctx = Inr s \<Longrightarrow> wfStage rx s"
  using compile_wf(1) [of rx "value" 1 ctx]
  by (auto simp: compileMatchStage_def compileFilterObject_def bindr_eq_Inr boundedFilter_def split: option.splits if_splits)

lemma dispatchStage_wf:
  assumes "dispatchStage rx key value ctx = Inr s"
  shows "wfStage rx s"
proof -
  from assms consider
      "compileMatchStage rx value ctx = Inr s" | "compileProjectStage value ctx = Inr s"
    | "compileUnwindStage value ctx = Inr s" | "compileGroupStage value ctx = Inr s"
    | "compileSortStage value ctx = Inr s" | "compileLimitStage value ctx = Inr s"
    | "compileSkipStage value ctx = Inr s"
    by (auto simp: dispatchStage_def simp del: js_Cons split: if_splits)
  then show ?thesis
  proof cases
    case 5
    then show ?thesis by (auto simp: compileSortStage_def bindr_eq_Inr dest: compileSortObject_wf)
  next
    case 6
    then show ?thesis by (auto simp: compileLimitStage_def MAX_LIMIT_def dest: numberIn_Some split: option.splits)
  next
    case 7
    then show ?thesis by (auto simp: compileSkipStage_def MAX_SKIP_def dest: numberIn_Some split: option.splits)
  qed (auto intro: compileMatchStage_wf compileProjectStage_wf compileUnwindStage_wf compileGroupStage_wf)
qed

lemma validateAggregation_wf:
  assumes "validateAggregation rx entity pipeline = Inr agg"
  shows "ea_pipeline agg \<noteq> [] \<and> length (ea_pipeline agg) \<le> 20 \<and> list_all (wfStage rx) (ea_pipeline agg)"
proof -
  from assms obtain stages where n: "stages \<noteq> []" "length stages \<le> 20"
    and ss: "mapr (compileStage rx) (zip [0..<length stages] stages) = Inr (ea_pipeline agg)"
    by (auto simp: validateAggregation_def bindr_eq_Inr MAX_PIPELINE_STAGES_def split: jsval.splits)
  have "list_all (wfStage rx) (ea_pipeline agg)"
    using ss by (rule mapr_list_all)
      (auto simp: compileStage_def Let_def dest: dispatchStage_wf split: jsval.splits list.splits if_splits)
  with n mapr_length [OF ss] show ?thesis by auto
qed

section \<open>What a translated stage may hold\<close>

text \<open>A field that MongoDB is asked about: inside \<open>data\<close> or one of the envelope's fields until the documents are reshaped.\<close>

definition STORED_NAMES :: "jstr list" where
  "STORED_NAMES =
     map js [''_id'', ''envelope.entity'', ''envelope.projectId'', ''envelope.schemaVersion'', ''envelope.version'',
       ''envelope.lastEventId'', ''envelope.eventSequence'', ''envelope.status'', ''envelope.createdAt'',
       ''envelope.updatedAt'', ''envelope.createdBy'', ''envelope.deletedAt'']"

definition storedPath :: "bool \<Rightarrow> jstr \<Rightarrow> bool" where
  "storedPath reshaped p \<longleftrightarrow>
     (if reshaped then list_all (\<lambda>c. isPathChar c \<or> c = 46) p
      else p \<in> set STORED_NAMES \<or> p \<in> snd ` set INHERITED \<or>
        starts_with (js ''data.'') p \<and> list_all (\<lambda>c. isPathChar c \<or> c = 46) p)"

definition MONGO_OPERATORS :: "jstr list" where
  "MONGO_OPERATORS = map js [''$eq'', ''$ne'', ''$gt'', ''$gte'', ''$lt'', ''$lte'', ''$in'', ''$nin'', ''$all'',
     ''$exists'', ''$regex'', ''$options'']"

definition operandsOk :: "jsval \<Rightarrow> bool" where
  "operandsOk v \<longleftrightarrow> (case v of VObj ops \<Rightarrow> list_all (\<lambda>(k, w). k \<in> set MONGO_OPERATORS \<and> jsonClean w) ops | _ \<Rightarrow> False)"

fun mongoFilterOk :: "bool \<Rightarrow> jsval \<Rightarrow> bool" where
  "mongoFilterOk r (VObj [(k, VArr vs)]) \<longleftrightarrow>
     k \<in> {js ''$and'', js ''$or'', js ''$nor''} \<and> vs \<noteq> [] \<and> list_all (mongoFilterOk r) vs"
| "mongoFilterOk r (VObj [(k, v)]) \<longleftrightarrow> storedPath r k \<and> \<not> startsWithDollar k \<and> operandsOk v"
| "mongoFilterOk r v \<longleftrightarrow> False"

definition fieldValue :: "bool \<Rightarrow> jsval \<Rightarrow> bool" where
  "fieldValue r v \<longleftrightarrow> (case v of VStr s \<Rightarrow> startsWithDollar s \<and> storedPath r (tl s) | _ \<Rightarrow> False)"

lemma withoutBrackets_units: "c \<in> set (withoutBrackets p) \<Longrightarrow> c \<in> set p"
  by (induction p rule: withoutBrackets.induct) (auto split: if_splits)

lemma withoutBrackets_append: "91 \<notin> set a \<Longrightarrow> withoutBrackets (a @ r) = a @ withoutBrackets r"
proof (induction a)
  case (Cons c a)
  then show ?case by (cases "a @ r") (auto elim: withoutBrackets.elims)
qed simp

lemma pathName_plain: "isPathName n \<Longrightarrow> 91 \<notin> set n \<and> 93 \<notin> set n \<and> 46 \<notin> set n \<and> n \<noteq> []"
  using isPathName_units [of n] by (force simp: isPathName_def isPathChar_def isPathStart_def is_alpha_def is_digit_def)

lemma path_segment:
  assumes "isPathName (dropBrackets seg)"
  shows "seg = dropBrackets seg \<or> seg = dropBrackets seg @ BRACKETS"
proof (cases "ends_with BRACKETS seg")
  case True
  then obtain t where "rev seg = rev BRACKETS @ t" by (auto simp: ends_with_def starts_with_prefix prefix_def)
  then have "seg = rev t @ BRACKETS" by (metis rev_append rev_rev_ident)
  then show ?thesis using True by (simp add: dropBrackets_def BRACKETS_def)
qed (simp add: dropBrackets_def)

lemma withoutBrackets_segment:
  assumes "isPathName (dropBrackets seg)"
  shows "withoutBrackets (seg @ r) = dropBrackets seg @ withoutBrackets r"
proof -
  have n: "91 \<notin> set (dropBrackets seg)" using pathName_plain [OF assms] by blast
  from path_segment [OF assms] show ?thesis
  proof
    assume "seg = dropBrackets seg"
    with withoutBrackets_append [OF n, of r] show ?thesis by simp
  next
    assume "seg = dropBrackets seg @ BRACKETS"
    then have e: "seg @ r = dropBrackets seg @ (91 # 93 # r)"
      by (metis BRACKETS_def append.assoc append_Cons append_Nil)
    have "withoutBrackets (dropBrackets seg @ (91 # 93 # r)) = dropBrackets seg @ withoutBrackets r"
      using withoutBrackets_append [OF n, of "91 # 93 # r"] by simp
    then show ?thesis unfolding e .
  qed
qed

lemma withoutBrackets_join:
  "\<forall>seg\<in>set segs. isPathName (dropBrackets seg) \<Longrightarrow> withoutBrackets (join [46] segs) = join [46] (map dropBrackets segs)"
proof (induction segs)
  case (Cons seg segs)
  have dot: "withoutBrackets (46 # r) = 46 # withoutBrackets r" for r by (cases r) auto
  show ?case
    using Cons withoutBrackets_segment [of seg "[]"] withoutBrackets_segment [of seg "46 # join [46] segs"]
    by (auto simp: join_Cons dot)
qed simp

lemma join_units: "c \<in> set (join d xs) \<Longrightarrow> c \<in> set d \<or> (\<exists>x\<in>set xs. c \<in> set x)"
  by (induction xs) (auto simp: join_Cons split: if_splits)

lemma startsWithDollar_hd: "startsWithDollar k \<longleftrightarrow> k \<noteq> [] \<and> hd k = 36"
  by (cases k) (auto simp: startsWithDollar_def)

lemma safePath_without:
  assumes "safePath p"
  shows "list_all (\<lambda>c. isPathChar c \<or> c = 46) (withoutBrackets p)"
    and "\<not> startsWithDollar p \<Longrightarrow> \<not> startsWithDollar (withoutBrackets p)"
    and "withoutBrackets p \<noteq> []"
proof -
  let ?segs = "split_on 46 p"
  have ok: "\<forall>seg\<in>set ?segs. isPathName (dropBrackets seg)" using assms by (auto simp: safePath_def list_all_iff)
  have eq: "withoutBrackets p = join [46] (map dropBrackets ?segs)"
    using withoutBrackets_join [OF ok] by (simp add: join_split_on)
  show "list_all (\<lambda>c. isPathChar c \<or> c = 46) (withoutBrackets p)"
    unfolding eq list_all_iff using ok isPathName_units by (fastforce dest: join_units)
  obtain seg rest where sr: "?segs = seg # rest" using split_on_not_Nil [of 46 p] by (cases ?segs) auto
  have n: "isPathName (dropBrackets seg)" using ok sr by simp
  from n obtain c cs where c: "dropBrackets seg = c # cs" by (auto simp: isPathName_def split: list.splits)
  from path_segment [OF n] c have hd: "hd seg = c" "seg \<noteq> []" by (metis append_Cons list.sel(1), auto simp: c)
  have hp: "hd p = c" using hd join_split_on [of 46 p] sr by (cases rest) (auto simp: hd_append)
  have "hd (withoutBrackets p) = c \<and> withoutBrackets p \<noteq> []"
    unfolding eq sr using c by (cases rest) auto
  then show "withoutBrackets p \<noteq> []" and "\<not> startsWithDollar p \<Longrightarrow> \<not> startsWithDollar (withoutBrackets p)"
    using hp assms by (auto simp: startsWithDollar_hd safePath_def)
qed

section \<open>Translated filters\<close>

lemma storedPath_of:
  assumes "safePath p"
  shows "storedPath reshaped (toStoredPath p reshaped)"
    and "\<not> startsWithDollar p \<Longrightarrow> \<not> startsWithDollar (toStoredPath p reshaped)"
proof -
  let ?w = "withoutBrackets p"
  consider "reshaped" | v where "\<not> reshaped" "map_of (ENVELOPE_PATHS @ INHERITED) ?w = Some v" "toStoredPath p reshaped = v"
    | "\<not> reshaped" "toStoredPath p reshaped = js ''data.'' @ ?w"
    by (cases reshaped; cases "map_of (ENVELOPE_PATHS @ INHERITED) ?w")
      (auto simp: toStoredPath_def Let_def simp del: js_Cons map_of_append)
  then have "storedPath reshaped (toStoredPath p reshaped) \<and>
    (\<not> startsWithDollar p \<longrightarrow> \<not> startsWithDollar (toStoredPath p reshaped))"
  proof cases
    case 1
    with safePath_without [OF assms] show ?thesis by (simp add: storedPath_def toStoredPath_def Let_def)
  next
    case 2
    from map_of_SomeD [OF 2(2)] have v: "v \<in> snd ` (set ENVELOPE_PATHS \<union> set INHERITED)" by force
    have names: "snd ` set ENVELOPE_PATHS = set STORED_NAMES" by (simp add: ENVELOPE_PATHS_def STORED_NAMES_def)
    have plain: "list_all (\<lambda>v. \<not> startsWithDollar v) (map snd (ENVELOPE_PATHS @ INHERITED))" by code_simp
    with v have "\<not> startsWithDollar v" by (auto simp: list_all_iff)
    with 2 v names show ?thesis by (auto simp: storedPath_def image_Un)
  next
    case 3
    with safePath_without(1) [OF assms] show ?thesis
      by (simp add: storedPath_def starts_with_def startsWithDollar_hd isPathChar_def isPathStart_def is_alpha_def)
  qed
  then show "storedPath reshaped (toStoredPath p reshaped)"
    and "\<not> startsWithDollar p \<Longrightarrow> \<not> startsWithDollar (toStoredPath p reshaped)" by blast+
qed

lemma jsonClean_stringOf: "jsonClean (VStr s)"
  by simp

lemma operandsOk_doc: "jsonClean v \<Longrightarrow> operandsOk (VObj (operatorDoc operator v))"
  by (cases operator) (auto simp: operandsOk_def operatorDoc_def MONGO_OPERATORS_def asArray_def Let_def split: jsval.splits)

lemma filterToMongo_ok: "wfFilter rx f \<Longrightarrow> mongoFilterOk r (filterToMongo f r)"
proof (induction f r rule: filterToMongo.induct)
  case (1 ref operator v r)
  then have "safePath (pr_path ref)" "\<not> startsWithDollar (pr_path ref)" "jsonClean v" by (simp_all add: valueOk_def)
  with storedPath_of [of "pr_path ref" r] operandsOk_doc [of v operator] show ?case by (simp add: fieldToMongo_def)
qed (auto simp: list_all_iff)

lemma fieldValue_dollar: "safePath p \<Longrightarrow> fieldValue r (dollar p r)"
  using storedPath_of(1) [of p r] by (simp add: fieldValue_def dollar_def startsWithDollar_def)

section \<open>Translated stages\<close>

definition projectionOk :: "bool \<Rightarrow> jsval \<Rightarrow> bool" where
  "projectionOk r v \<longleftrightarrow>
     v \<in> {VNum 0, VNum 1} \<or> fieldValue r v \<or>
     (case v of VObj [(k, w)] \<Rightarrow> k = js ''$literal'' \<and> jsonClean w | _ \<Rightarrow> False)"

definition accumulatorOk :: "bool \<Rightarrow> jsval \<Rightarrow> bool" where
  "accumulatorOk r v \<longleftrightarrow>
     (case v of VObj [(k, w)] \<Rightarrow>
        k \<in> {js ''$sum'', js ''$avg'', js ''$min'', js ''$max''} \<and> (w = VNum 1 \<or> fieldValue r w) | _ \<Rightarrow> False)"

definition groupKeyOk :: "bool \<Rightarrow> jsval \<Rightarrow> bool" where
  "groupKeyOk r v \<longleftrightarrow>
     v = VNull \<or> fieldValue r v \<or> (case v of VObj es \<Rightarrow> list_all (\<lambda>(k, w). fieldValue r w) es | _ \<Rightarrow> False)"

definition mongoStageOk :: "bool \<Rightarrow> string \<Rightarrow> jsval \<Rightarrow> bool" where
  "mongoStageOk r key v \<longleftrightarrow>
     (if key = ''$match'' then mongoFilterOk r v
      else if key = ''$limit'' then (case v of VNum n \<Rightarrow> isInteger n \<and> 1 \<le> n \<and> n \<le> 1000 | _ \<Rightarrow> False)
      else if key = ''$skip'' then (case v of VNum n \<Rightarrow> isInteger n \<and> 0 \<le> n \<and> n \<le> 100000 | _ \<Rightarrow> False)
      else (case v of
        VObj es \<Rightarrow>
          if key = ''$project'' then list_all (\<lambda>(k, w). safePath k \<and> projectionOk r w) es
          else if key = ''$unwind'' then map fst es = [js ''path'', js ''preserveNullAndEmptyArrays''] \<and> fieldValue r (snd (hd es))
          else if key = ''$sort'' then list_all (\<lambda>(k, w). storedPath r k \<and> w \<in> {VNum 1, VNum (- 1)}) es
          else key = ''$group'' \<and> es \<noteq> [] \<and> fst (hd es) = js ''_id'' \<and> groupKeyOk r (snd (hd es)) \<and>
               list_all (\<lambda>(k, w). isPlainName k \<and> accumulatorOk r w) (tl es)
      | _ \<Rightarrow> False))"

definition STAGE_KEYS :: "string set" where
  "STAGE_KEYS = {''$match'', ''$project'', ''$unwind'', ''$group'', ''$sort'', ''$limit'', ''$skip''}"

fun pipelineOk :: "bool \<Rightarrow> jsval list \<Rightarrow> bool" where
  "pipelineOk r [] = True"
| "pipelineOk r (VObj [(k, v)] # ds) \<longleftrightarrow>
     (\<exists>key\<in>STAGE_KEYS.
        k = js key \<and> mongoStageOk r key v \<and> pipelineOk (r \<or> key = ''$project'' \<or> key = ''$group'') ds)"
| "pipelineOk r (d # ds) = False"

lemma setAll_all: "list_all Q m \<Longrightarrow> list_all Q ds \<Longrightarrow> list_all Q (setAll m ds)"
proof (induction ds arbitrary: m)
  case (Cons d ds)
  have "list_all Q (setKey (fst d) (snd d) m)"
    using Cons.prems set_setKey [of _ "fst d" "snd d" m] by (fastforce simp: list_all_iff)
  with Cons show ?case by (simp add: setAll_def)
qed (simp add: setAll_def)

lemma setKey_other: "k \<noteq> fst e \<Longrightarrow> setKey k v (e # m) = e # setKey k v m"
  by (cases e) (auto simp: setKey_def)

lemma setAll_first: "list_all (\<lambda>d. fst d \<noteq> fst e) ds \<Longrightarrow> setAll (e # m) ds = e # setAll m ds"
  by (induction ds arbitrary: m) (auto simp: setAll_def setKey_other)

lemma sortToMongo_eq:
  "sortToMongo cs r =
     setAll [] (map (\<lambda>c. (toStoredPath (pr_path (sc_path c)) r, VNum (if sc_desc c then - 1 else 1))) cs)"
  by (simp add: sortToMongo_def setAll_def foldl_map)

lemma projectToMongo_ok: "wfProjection e \<Longrightarrow> safePath (fst e) \<and> projectionOk r (projectToMongo r e)"
  by (cases "e" rule: wfProjection.cases) (auto simp: projectToMongo_def projectionOk_def fieldValue_dollar)

lemma accumulatorToMongo_ok:
  assumes "wfAccumulator e"
  shows "\<exists>w. accumulatorToMongo r e = Inr (fst e, w) \<and> accumulatorOk r w"
proof (cases "ac_op (snd e)")
  case ACount
  then show ?thesis by (simp add: accumulatorToMongo_def accumulatorOk_def)
qed (use assms fieldValue_dollar in
  \<open>auto simp: accumulatorToMongo_def accumulatorOk_def wfAccumulator_def wfRef_def split: option.splits\<close>)

lemma accumulators_ok:
  assumes "list_all wfAccumulator accs"
  shows "\<exists>ds. mapr (accumulatorToMongo r) accs = Inr ds \<and>
    list_all (\<lambda>(k, w). isPlainName k \<and> accumulatorOk r w) ds \<and> list_all (\<lambda>d. fst d \<noteq> js ''_id'') ds"
  using assms
proof (induction accs)
  case (Cons e accs)
  then obtain ds where ds: "mapr (accumulatorToMongo r) accs = Inr ds"
    "list_all (\<lambda>(k, w). isPlainName k \<and> accumulatorOk r w) ds" "list_all (\<lambda>d. fst d \<noteq> js ''_id'') ds" by auto
  from Cons.prems accumulatorToMongo_ok [of e r] obtain w where "accumulatorToMongo r e = Inr (fst e, w)" "accumulatorOk r w" by auto
  with ds Cons.prems show ?case by (auto simp: wfAccumulator_def simp del: js_Cons)
qed simp

lemma groupId_ok:
  assumes "case gid of WholeGroup \<Rightarrow> True | ByPath ref \<Rightarrow> wfRef ref | ByPaths refs \<Rightarrow> refs \<noteq> [] \<and> length refs \<le> 5 \<and> list_all wfRef refs"
  shows "groupKeyOk r (groupIdToMongo gid r)"
proof (cases gid)
  case (ByPaths refs)
  have "groupIdToMongo gid r = VObj (setAll [] (map (\<lambda>ref. (lastSegment (pr_path ref), dollar (pr_path ref) r)) refs))"
    by (simp add: ByPaths groupIdToMongo_def setAll_def foldl_map)
  moreover have "list_all (\<lambda>(k, w). fieldValue r w) (setAll [] (map (\<lambda>ref. (lastSegment (pr_path ref), dollar (pr_path ref) r)) refs))"
    using assms ByPaths fieldValue_dollar by (intro setAll_all) (auto simp: list_all_iff wfRef_def)
  ultimately show ?thesis by (simp add: groupKeyOk_def)
qed (use assms fieldValue_dollar in \<open>auto simp: groupKeyOk_def groupIdToMongo_def wfRef_def\<close>)

definition stageResult :: "bool \<Rightarrow> DataError + (jsval \<times> bool) \<Rightarrow> bool" where
  "stageResult r res \<longleftrightarrow>
     (\<exists>key\<in>STAGE_KEYS. \<exists>v. res = Inr (VObj [(js key, v)], r \<or> key = ''$project'' \<or> key = ''$group'') \<and> mongoStageOk r key v)"

lemma stageResultI:
  "res = Inr (VObj [(js key, v)], r') \<Longrightarrow> key \<in> STAGE_KEYS \<Longrightarrow> r' = (r \<or> key = ''$project'' \<or> key = ''$group'') \<Longrightarrow>
     mongoStageOk r key v \<Longrightarrow> stageResult r res"
  unfolding stageResult_def by blast

lemma stageToMongo_ok:
  assumes "wfStage rx s"
  shows "stageResult r (stageToMongo s r)"
proof (cases s)
  case (MatchS f)
  show ?thesis
    by (rule stageResultI [of _ "''$match''" "filterToMongo f r" r])
      (use assms MatchS filterToMongo_ok in \<open>auto simp: stageToMongo_def mongoStageOk_def STAGE_KEYS_def simp del: js_Cons\<close>)
next
  case (ProjectS ps)
  let ?es = "setAll [] (map (\<lambda>e. (fst e, projectToMongo r e)) ps)"
  have "list_all (\<lambda>(k, w). safePath k \<and> projectionOk r w) ?es"
    using assms ProjectS projectToMongo_ok by (intro setAll_all) (auto simp: list_all_iff)
  then show ?thesis
    by (intro stageResultI [of _ "''$project''" "VObj ?es" True])
      (auto simp: ProjectS stageToMongo_def mongoStageOk_def STAGE_KEYS_def simp del: js_Cons)
next
  case (UnwindS ref preserve)
  with assms have "fieldValue r (dollar (pr_path ref) r)" by (simp add: fieldValue_dollar wfRef_def)
  then show ?thesis
    by (intro stageResultI [of _ "''$unwind''"]) (auto simp: UnwindS stageToMongo_def mongoStageOk_def STAGE_KEYS_def simp del: js_Cons)
next
  case (GroupS gid accs)
  with assms accumulators_ok [of accs r] obtain ds where ds: "mapr (accumulatorToMongo r) accs = Inr ds"
    "list_all (\<lambda>(k, w). isPlainName k \<and> accumulatorOk r w) ds" "list_all (\<lambda>d. fst d \<noteq> js ''_id'') ds"
    by (auto simp del: js_Cons)
  have "setAll [(js ''_id'', groupIdToMongo gid r)] ds = (js ''_id'', groupIdToMongo gid r) # setAll [] ds"
    using ds(3) by (intro setAll_first) (simp del: js_Cons)
  moreover have "list_all (\<lambda>(k, w). isPlainName k \<and> accumulatorOk r w) (setAll [] ds)"
    using ds(2) by (intro setAll_all) auto
  moreover have "groupKeyOk r (groupIdToMongo gid r)" using assms GroupS groupId_ok by simp
  ultimately show ?thesis
    by (intro stageResultI [of _ "''$group''"]) (auto simp: GroupS ds(1) stageToMongo_def mongoStageOk_def STAGE_KEYS_def simp del: js_Cons)
next
  case (SortS cs)
  have "list_all (\<lambda>(k, w). storedPath r k \<and> w \<in> {VNum 1, VNum (- 1)}) (sortToMongo cs r)"
    unfolding sortToMongo_eq using assms SortS storedPath_of(1)
    by (intro setAll_all) (auto simp: list_all_iff wfSort_def)
  then show ?thesis
    by (intro stageResultI [of _ "''$sort''"]) (auto simp: SortS stageToMongo_def mongoStageOk_def STAGE_KEYS_def simp del: js_Cons)
next
  case (LimitS n)
  with assms show ?thesis
    by (intro stageResultI [of _ "''$limit''"]) (auto simp: stageToMongo_def mongoStageOk_def STAGE_KEYS_def simp del: js_Cons)
next
  case (SkipS n)
  with assms show ?thesis
    by (intro stageResultI [of _ "''$skip''"]) (auto simp: stageToMongo_def mongoStageOk_def STAGE_KEYS_def simp del: js_Cons)
qed

lemma stagesToMongo_ok:
  "list_all (wfStage rx) ss \<Longrightarrow>
     \<exists>ds r'. stagesToMongo ss r = Inr (ds, r') \<and> length ds = length ss \<and> pipelineOk r ds"
proof (induction ss arbitrary: r)
  case (Cons s ss)
  then have "wfStage rx s" by simp
  from stageToMongo_ok [OF this, of r] obtain key v where k: "key \<in> STAGE_KEYS"
    and s: "stageToMongo s r = Inr (VObj [(js key, v)], r \<or> key = ''$project'' \<or> key = ''$group'')"
    and ok: "mongoStageOk r key v" unfolding stageResult_def by blast
  define r1 where "r1 = (r \<or> key = ''$project'' \<or> key = ''$group'')"
  from Cons obtain ds r' where ds: "stagesToMongo ss r1 = Inr (ds, r')" "length ds = length ss" "pipelineOk r1 ds"
    by fastforce
  have "pipelineOk r (VObj [(js key, v)] # ds)"
    using k ok ds(3) r1_def by (simp only: pipelineOk.simps) blast
  with s ds show ?case by (simp add: r1_def)
qed simp


definition samplePipeline :: jsval where
  "samplePipeline = VArr
     [VObj [(js ''$match'', VObj [(js ''status'', VStr (js ''paid''))])],
      VObj [(js ''$group'', VObj [(js ''_id'', VStr (js ''customer.city'')), (js ''total'', VObj [(js ''$sum'', VStr (js ''amount''))])])],
      VObj [(js ''$sort'', VObj [(js ''total'', VStr (js ''desc''))])], VObj [(js ''$limit'', VNum 10)]]"

definition sampleAggregation :: EntityAggregation where
  "sampleAggregation =
     (let ref = (\<lambda>p. \<lparr>pr_path = js p, pr_isArrayPath = False\<rparr>) in
      \<lparr>ea_entity = js ''orders'', ea_pipeline =
         [MatchS (FieldF (ref ''status'') FEq (VStr (js ''paid''))),
          GroupS (ByPath (ref ''customer.city'')) [(js ''total'', \<lparr>ac_op = ASum, ac_path = Some (ref ''amount'')\<rparr>)],
          SortS [\<lparr>sc_path = ref ''total'', sc_desc = True\<rparr>], LimitS 10]\<rparr>)"


section \<open>LIKE patterns\<close>

text \<open>SQL's LIKE: a percent sign stands for any text, an underscore for any unit.\<close>

fun likeMatches :: "jstr \<Rightarrow> jstr \<Rightarrow> bool" where
  "likeMatches [] s \<longleftrightarrow> s = []"
| "likeMatches (p # ps) s \<longleftrightarrow>
     (if p = 37 then list_ex (likeMatches ps) (suffixes s)
      else (case s of [] \<Rightarrow> False | c # cs \<Rightarrow> (p = 95 \<or> p = c) \<and> likeMatches ps cs))"

text \<open>
  The part of the regular expression language that the translation writes: literal units, escaped
  units, the dot (any unit but a line feed) and the starred dot.  \<open>None\<close> is any other source.
\<close>

datatype RegexItem = Unit int | AnyUnit | AnyText

fun regexItems :: "jstr \<Rightarrow> RegexItem list option" where
  "regexItems [] = None"
| "regexItems (c # s) =
     (if c = 36 then (if s = [] then Some [] else None)
      else if c = 92 then (case s of [] \<Rightarrow> None | d # t \<Rightarrow> map_option ((#) (Unit d)) (regexItems t))
      else if c = 46 then
        (if nth_opt s 0 = Some 42 then map_option ((#) AnyText) (regexItems (tl s)) else map_option ((#) AnyUnit) (regexItems s))
      else if c \<in> set REGEX_SPECIALS then None
      else map_option ((#) (Unit c)) (regexItems s))"

fun itemsMatch :: "RegexItem list \<Rightarrow> jstr \<Rightarrow> bool" where
  "itemsMatch [] s \<longleftrightarrow> s = []"
| "itemsMatch (AnyText # is) s \<longleftrightarrow>
     list_ex (\<lambda>t. 10 \<notin> set (take (length s - length t) s) \<and> itemsMatch is t) (suffixes s)"
| "itemsMatch (AnyUnit # is) s \<longleftrightarrow> (case s of [] \<Rightarrow> False | c # cs \<Rightarrow> c \<noteq> 10 \<and> itemsMatch is cs)"
| "itemsMatch (Unit d # is) s \<longleftrightarrow> (case s of [] \<Rightarrow> False | c # cs \<Rightarrow> c = d \<and> itemsMatch is cs)"

definition regexMatches :: "jstr \<Rightarrow> jstr \<Rightarrow> bool" where
  "regexMatches source s \<longleftrightarrow>
     (case source of [] \<Rightarrow> False
      | c # rest \<Rightarrow> c = 94 \<and> (case regexItems rest of None \<Rightarrow> False | Some is \<Rightarrow> itemsMatch is s))"

definition itemOf :: "int \<Rightarrow> RegexItem" where
  "itemOf c = (if c = 37 then AnyText else if c = 95 then AnyUnit else Unit c)"

lemma itemOf_simps [simp]: "itemOf 37 = AnyText" "itemOf 95 = AnyUnit" "c \<noteq> 37 \<Longrightarrow> c \<noteq> 95 \<Longrightarrow> itemOf c = Unit c"
  by (simp_all add: itemOf_def)

lemma likeUnit_simps:
  "likeUnit 37 = [46, 42]" "likeUnit 95 = [46]"
  "c \<noteq> 37 \<Longrightarrow> c \<noteq> 95 \<Longrightarrow> c \<in> set REGEX_SPECIALS \<Longrightarrow> likeUnit c = [92, c]"
  "c \<noteq> 37 \<Longrightarrow> c \<noteq> 95 \<Longrightarrow> c \<notin> set REGEX_SPECIALS \<Longrightarrow> likeUnit c = [c]"
  by (simp_all add: likeUnit_def)

lemma regexItems_like: "regexItems (concat (map likeUnit p) @ [36]) = Some (map itemOf p)"
proof (induction p)
  case (Cons c p)
  let ?r = "concat (map likeUnit p) @ [36]"
  have dot: "nth_opt ?r 0 \<noteq> Some 42"
    by (cases p) (auto simp: likeUnit_def REGEX_SPECIALS_def)
  consider "c = 37" | "c = 95" | "c \<noteq> 37" "c \<noteq> 95" "c \<in> set REGEX_SPECIALS" | "c \<noteq> 37" "c \<noteq> 95" "c \<notin> set REGEX_SPECIALS"
    by blast
  then show ?case
  proof cases
    case 4
    then have "c \<noteq> 36" "c \<noteq> 92" "c \<noteq> 46" by (auto simp: REGEX_SPECIALS_def)
    with 4 Cons show ?thesis by (simp add: likeUnit_simps)
  qed (use Cons dot in \<open>auto simp: likeUnit_simps\<close>)
qed simp

lemma set_suffixes_sub: "t \<in> set (suffixes s) \<Longrightarrow> set t \<subseteq> set s"
  by (auto simp: in_set_suffixes set_mono_suffix dest: set_mono_suffix)

lemma itemsMatch_like: "10 \<notin> set s \<Longrightarrow> itemsMatch (map itemOf p) s = likeMatches p s"
proof (induction p arbitrary: s)
  case (Cons c p)
  show ?case
  proof (cases "c = 37")
    case True
    have "itemsMatch (map itemOf p) t = likeMatches p t" if "t \<in> set (suffixes s)" for t
      using that Cons set_suffixes_sub by blast
    with Cons.prems have "(10 \<notin> set (take (length s - length t) s) \<and> itemsMatch (map itemOf p) t) = likeMatches p t"
      if "t \<in> set (suffixes s)" for t
      using that by (auto dest: in_set_takeD)
    with True show ?thesis by (simp add: list_ex_iff cong: bex_cong del: in_set_suffixes)
  next
    case False
    with Cons show ?thesis by (cases s; cases "c = 95") auto
  qed
qed simp

text \<open>
  C7.  The regular expression written for a LIKE pattern is one the translation's fragment reads
  back, and it matches a text without line feeds exactly when the pattern does: no unit of the
  pattern is taken for regular expression syntax.
\<close>

theorem like_pattern_keeps_meaning:
  assumes "10 \<notin> set s"
  shows "regexMatches (likeToRegexSource p) s = likeMatches p s"
  using itemsMatch_like [OF assms] regexItems_like
  by (simp add: regexMatches_def likeToRegexSource_def)

theorem like_pattern_keeps_meaning_witness:
  "regexMatches (likeToRegexSource (js ''a.b%_'')) (js ''a.bxyz'') = likeMatches (js ''a.b%_'') (js ''a.bxyz'')"
  by (rule like_pattern_keeps_meaning) code_simp

section \<open>Findings\<close>

text \<open>A line feed in the text: LIKE matches it, the regular expression does not.\<close>

lemma like_stops_at_line_feed:
  "likeMatches (js ''a%'') [97, 10, 98]" "\<not> regexMatches (likeToRegexSource (js ''a%'')) [97, 10, 98]"
  by code_simp+

text \<open>A field named as a member of \<open>Object.prototype\<close> is looked up there.\<close>

lemma inherited_name_is_no_field:
  "toStoredPath (js ''valueOf'') False = js ''function valueOf() { [native code] }''"
  by code_simp

text \<open>An exclusion keeps the stored layout, but the pipeline is taken to be reshaped from there on.\<close>

lemma exclusion_names_no_stored_field:
  "stageToMongo (ProjectS [(js ''secret'', Exclude)]) False =
     Inr (VObj [(js ''$project'', VObj [(js ''secret'', VNum 0)])], True)"
  by code_simp

text \<open>Two group keys with the same last segment become one.\<close>

lemma group_keys_collide:
  "groupIdToMongo (ByPaths [\<lparr>pr_path = js ''seller.id'', pr_isArrayPath = False\<rparr>, \<lparr>pr_path = js ''buyer.id'', pr_isArrayPath = False\<rparr>]) False =
     VObj [(js ''id'', VStr (js ''$data.buyer.id''))]"
  by code_simp

end
