(* ===== verification/JsQueryLexer.thy ===== *)
theory JsQueryLexer
  imports DataFilter
begin

text \<open>
  The tokenizer of the SDK-style query text, the first half of
  \<open>packages/data-engine/src/query/js-query-parser.ts\<close>.  The rest of the source stands for the index
  \<open>i\<close>; line and column are carried along.  \<open>None\<close> is an index past the end.
\<close>

section \<open>Limits and tokens\<close>

definition MAX_SOURCE_LENGTH :: nat where "MAX_SOURCE_LENGTH = 100000"
definition MAX_NESTING :: nat where "MAX_NESTING = 32"
definition MAX_ENTITY_NAME_LENGTH :: nat where "MAX_ENTITY_NAME_LENGTH = 128"
definition MAX_TOTAL_SORT_FIELDS :: nat where "MAX_TOTAL_SORT_FIELDS = 5"

datatype JTok = QStr jstr | QNum rat | QIdent jstr | QPunct int | QEof

record JToken =
  jt_tok :: JTok
  jt_line :: nat
  jt_col :: nat

definition jsError :: "jstr \<Rightarrow> nat \<Rightarrow> nat \<Rightarrow> DataError" where
  "jsError message l c =
     JsQueryParseError (message @ js '' (line '' @ show_nat l @ js '', col '' @ show_nat c @ js '')'') l c"

definition PUNCTUATION :: jstr where
  "PUNCTUATION = js ''.(){}[]:,;''"

definition STRING_ESCAPES :: "(int \<times> int) list" where
  "STRING_ESCAPES = [(92, 92), (39, 39), (34, 34), (ch CHR ''n'', 10), (ch CHR ''t'', 9)]"

definition isIdentPart :: "int \<Rightarrow> bool" where
  "isIdentPart c \<longleftrightarrow> isPathStart c \<or> is_digit c"

definition digitAt :: "jstr \<Rightarrow> nat \<Rightarrow> bool" where
  "digitAt s i = (case nth_opt s i of Some c \<Rightarrow> is_digit c | None \<Rightarrow> False)"

definition identStartAt :: "jstr \<Rightarrow> nat \<Rightarrow> bool" where
  "identStartAt s i = (case nth_opt s i of Some c \<Rightarrow> isPathStart c | None \<Rightarrow> False)"

definition labelOfToken :: "JToken \<Rightarrow> jstr" where
  "labelOfToken t =
     (case jt_tok t of
        QEof \<Rightarrow> js ''end of input''
      | QStr s \<Rightarrow> js ''string '' @ dq (if length s > 40 then take 40 s @ [8230] else s)
      | QNum n \<Rightarrow> js ''number '' @ show_number n
      | QIdent w \<Rightarrow> dq w
      | QPunct c \<Rightarrow> dq [c])"

section \<open>Scanners\<close>

text \<open>After the opening of a block comment: the text behind its end, or \<open>None\<close> when it has none.\<close>

fun blockComment :: "jstr \<Rightarrow> nat \<Rightarrow> nat \<Rightarrow> (jstr \<times> nat \<times> nat) option" where
  "blockComment [] l c = None"
| "blockComment (x # s) l c =
     (if x = ch CHR ''*'' \<and> nth_opt s 0 = Some (ch CHR ''/'') then Some (tl s, l, c + 2)
      else if x = 10 then blockComment s (l + 1) 1
      else blockComment s l (c + 1))"

text \<open>After the opening quote at \<open>(l, c0)\<close>: the value of the string, the text behind it and its column.\<close>

fun stringBody :: "int \<Rightarrow> nat \<Rightarrow> nat \<Rightarrow> jstr \<Rightarrow> nat \<Rightarrow> DataError + (jstr \<times> jstr \<times> nat)" where
  "stringBody q l c0 [] c = Inl (jsError (js ''unterminated string literal'') l c0)"
| "stringBody q l c0 (x # s) c =
     (if x = 10 \<or> x = 13
      then Inl (jsError (js ''unterminated string literal '' @ [8212] @ js '' strings cannot span lines'') l c0)
      else if x = 92 then
        (case s of
           [] \<Rightarrow> Inl (jsError (js ''unterminated string literal'') l c0)
         | e # s' \<Rightarrow>
             (case map_of STRING_ESCAPES e of
                None \<Rightarrow> Inl (jsError (js ''unsupported escape sequence '' @ dq [92, e] @ js '' in string '' @ [8212] @
                          js '' supported: '' @ [92, 92, 32, 92, 39, 32, 92, 34, 32, 92] @ js ''n '' @ [92] @ js ''t'') l c)
              | Some m \<Rightarrow> bindr (stringBody q l c0 s' (c + 2)) (\<lambda>(v, r). Inr (m # v, r))))
      else if x = q then Inr ([], s, c + 1)
      else bindr (stringBody q l c0 s (c + 1)) (\<lambda>(v, r). Inr (x # v, r)))"

definition digitsValue :: "jstr \<Rightarrow> int" where
  "digitsValue = foldl (\<lambda>n d. 10 * n + (d - 48)) 0"

text \<open>The value of a literal, exactly; \<open>Number\<close> rounds it.\<close>

definition decimalValue :: "bool \<Rightarrow> jstr \<Rightarrow> jstr \<Rightarrow> bool \<Rightarrow> jstr \<Rightarrow> rat" where
  "decimalValue negative whole fraction smaller exponent =
     (let m = of_int (digitsValue (whole @ fraction));
          e = (if smaller then - digitsValue exponent else digitsValue exponent) - int (length fraction)
      in (if negative then - 1 else 1) * m * pow10 e)"

text \<open>
  The marks of a number that starts the text: the ends of its whole part and of its fraction, the
  start of the exponent's digits and the end of the literal.
\<close>

definition signLength :: "jstr \<Rightarrow> nat" where
  "signLength s = (if nth_opt s 0 = Some 45 then 1 else 0)"

definition wholeEnd :: "jstr \<Rightarrow> nat" where
  "wholeEnd s = signLength s + length (takeWhile is_digit (drop (signLength s) s))"

definition dotted :: "jstr \<Rightarrow> bool" where
  "dotted s \<longleftrightarrow> nth_opt s (wholeEnd s) = Some 46"

definition fractionEnd :: "jstr \<Rightarrow> nat" where
  "fractionEnd s =
     (if dotted s then wholeEnd s + 1 + length (takeWhile is_digit (drop (wholeEnd s + 1) s)) else wholeEnd s)"

definition powered :: "jstr \<Rightarrow> bool" where
  "powered s \<longleftrightarrow> nth_opt s (fractionEnd s) = Some 101 \<or> nth_opt s (fractionEnd s) = Some 69"

definition exponentStart :: "jstr \<Rightarrow> nat" where
  "exponentStart s =
     (if nth_opt s (fractionEnd s + 1) = Some 43 \<or> nth_opt s (fractionEnd s + 1) = Some 45
      then fractionEnd s + 2 else fractionEnd s + 1)"

definition numberEnd :: "jstr \<Rightarrow> nat" where
  "numberEnd s =
     (if powered s then exponentStart s + length (takeWhile is_digit (drop (exponentStart s) s)) else fractionEnd s)"

definition literalValue :: "jstr \<Rightarrow> rat" where
  "literalValue s =
     decimalValue (signLength s = 1) (slice s (signLength s) (wholeEnd s)) (slice s (wholeEnd s + 1) (fractionEnd s))
       (nth_opt s (fractionEnd s + 1) = Some 45) (slice s (exponentStart s) (numberEnd s))"

definition lexNumber :: "jstr \<Rightarrow> nat \<Rightarrow> nat \<Rightarrow> DataError + (rat \<times> nat)" where
  "lexNumber s l c =
     (if dotted s \<and> \<not> digitAt s (wholeEnd s + 1)
      then Inl (jsError (js ''invalid number '' @ [8212] @ js '' expected digits after the decimal point'') l (c + wholeEnd s))
      else if powered s \<and> \<not> digitAt s (exponentStart s)
      then Inl (jsError (js ''invalid number '' @ [8212] @ js '' expected digits in the exponent'') l (c + exponentStart s))
      else if identStartAt s (numberEnd s)
      then Inl (jsError (js ''invalid number '' @ [8212] @ js '' unexpected character '' @
             dq (slice s (numberEnd s) (numberEnd s + 1)) @ js '' after a number'') l (c + numberEnd s))
      else (case toDouble (literalValue s) of
              None \<Rightarrow> Inl (jsError (js ''number '' @ dq (take (numberEnd s) s) @ js '' is too large'') l c)
            | Some v \<Rightarrow> Inr (v, numberEnd s)))"

section \<open>The loop\<close>

definition tokenAt :: "JTok \<Rightarrow> nat \<Rightarrow> nat \<Rightarrow> JToken" where
  "tokenAt tok l c = \<lparr>jt_tok = tok, jt_line = l, jt_col = c\<rparr>"

definition refuse :: "jstr \<Rightarrow> nat \<Rightarrow> nat \<Rightarrow> DataError" where
  "refuse s l c =
     (if nth_opt s 0 = Some 96
      then jsError (js ''template literals are not supported '' @ [8212] @ js '' use single or double quotes for strings'') l c
      else if nth_opt s 0 = Some (ch CHR ''='') \<and> nth_opt s 1 = Some (ch CHR ''>'')
      then jsError (js ''arrow functions are not supported in queries '' @ [8212] @
             js '' pass a filter object like { field: { $gt: 5 } } instead'') l c
      else jsError (js ''unexpected character '' @ dq (take 1 s) @ js '' '' @ [8212] @
             js '' arrow functions and expressions are not supported in queries'') l c)"

type_synonym lexed = "JToken option \<times> jstr \<times> nat \<times> nat"

definition lexComment :: "jstr \<Rightarrow> nat \<Rightarrow> nat \<Rightarrow> DataError + lexed" where
  "lexComment s l c =
     (case blockComment (drop 2 s) l (c + 2) of
        None \<Rightarrow> Inl (jsError (js ''unterminated block comment'') l c)
      | Some (s', l', c') \<Rightarrow> Inr (None, s', l', c'))"

text \<open>One round of the loop on a non-empty text \<open>x # s\<close>.\<close>

definition lexRound :: "int \<Rightarrow> jstr \<Rightarrow> nat \<Rightarrow> nat \<Rightarrow> DataError + lexed" where
  "lexRound x s l c =
     (if x = 10 then Inr (None, s, l + 1, 1)
      else if x = 32 \<or> x = 9 \<or> x = 13 then Inr (None, s, l, c + 1)
      else if x = ch CHR ''/'' \<and> nth_opt s 0 = Some (ch CHR ''/'')
      then Inr (None, dropWhile (\<lambda>d. d \<noteq> 10) (x # s), l, c + length (takeWhile (\<lambda>d. d \<noteq> 10) (x # s)))
      else if x = ch CHR ''/'' \<and> nth_opt s 0 = Some (ch CHR ''*'') then lexComment (x # s) l c
      else if x = 34 \<or> x = 39
      then bindr (stringBody x l c s (c + 1)) (\<lambda>(v, s', c'). Inr (Some (tokenAt (QStr v) l c), s', l, c'))
      else if is_digit x \<or> x = 45 \<and> digitAt s 0
      then bindr (lexNumber (x # s) l c) (\<lambda>(v, n). Inr (Some (tokenAt (QNum v) l c), drop n (x # s), l, c + n))
      else if isPathStart x
      then (let w = takeWhile isIdentPart (x # s) in
            Inr (Some (tokenAt (QIdent w) l c), dropWhile isIdentPart (x # s), l, c + length w))
      else if x \<in> set PUNCTUATION then Inr (Some (tokenAt (QPunct x) l c), s, l, c + 1)
      else Inl (refuse (x # s) l c))"

lemma blockComment_shorter [progress]: "blockComment s l c = Some (s', l', c') \<Longrightarrow> length s' < length s"
proof (induction s l c rule: blockComment.induct)
  case (2 x s l c)
  then show ?case by (cases s) (auto split: if_splits)
qed simp

lemma stringBody_shorter [progress]: "stringBody q l c0 s c = Inr (v, s', c') \<Longrightarrow> length s' < length s"
proof (induction q l c0 s c arbitrary: v rule: stringBody.induct)
  case (2 q l c0 x s c)
  then show ?case
    by (auto simp: bindr_eq_Inr split: if_splits list.splits option.splits) fastforce+
qed simp

lemma lexNumber_length: "lexNumber s l c = Inr (v, n) \<Longrightarrow> digitAt s 0 \<or> nth_opt s 0 = Some 45 \<Longrightarrow> 0 < n"
  by (cases s)
    (auto simp: lexNumber_def digitAt_def numberEnd_def exponentStart_def fractionEnd_def wholeEnd_def signLength_def
      split: if_splits option.splits)

lemma lexRound_shorter [progress]: "lexRound x s l c = Inr (t, s', l', c') \<Longrightarrow> length s' < length (x # s)"
  unfolding lexRound_def lexComment_def Let_def
  using length_dropWhile_le [of "\<lambda>d. d \<noteq> 10" s] length_dropWhile_le [of isIdentPart s]
  by (auto simp: bindr_eq_Inr isIdentPart_def digitAt_def split: if_splits option.splits
      dest!: blockComment_shorter stringBody_shorter dest: lexNumber_length)

function lexLoop :: "jstr \<Rightarrow> nat \<Rightarrow> nat \<Rightarrow> DataError + JToken list" where
  "lexLoop [] l c = Inr [tokenAt QEof l c]"
| "lexLoop (x # s) l c =
     (case lexRound x s l c of
        Inl e \<Rightarrow> Inl e
      | Inr (t, s', l', c') \<Rightarrow>
          bindr (lexLoop s' l' c') (\<lambda>ts. Inr (case t of None \<Rightarrow> ts | Some u \<Rightarrow> u # ts)))"
  by pat_completeness auto
termination
  by (relation "measure (\<lambda>(s, l, c). length s)") (auto dest: lexRound_shorter)

definition tokenizeQuery :: "jstr \<Rightarrow> DataError + JToken list" where
  "tokenizeQuery source = lexLoop source 1 1"

end
