(* ===== verification/JsQueryParser.thy ===== *)
theory JsQueryParser
  imports JsQueryLexer DataAggregation
begin

text \<open>
  The recursive-descent parser of the SDK-style query text, the second half of
  \<open>packages/data-engine/src/query/js-query-parser.ts\<close>.  The tokens from \<open>pos\<close> on stand for the
  parser's position.  A function that recurses takes fuel; \<open>None\<close> means that it ran out, which
  \<open>JsQueryRules\<close> proves impossible for the fuel \<open>parseJsQuery\<close> gives.
\<close>

section \<open>Parsing with fuel\<close>

type_synonym 'a parsing = "(DataError + 'a \<times> JToken list) option"

definition bindP :: "'a parsing \<Rightarrow> ('a \<Rightarrow> JToken list \<Rightarrow> 'b parsing) \<Rightarrow> 'b parsing" where
  "bindP m f = (case m of None \<Rightarrow> None | Some (Inl e) \<Rightarrow> Some (Inl e) | Some (Inr (v, ts)) \<Rightarrow> f v ts)"

abbreviation okP :: "'a \<Rightarrow> JToken list \<Rightarrow> 'a parsing" where
  "okP v ts \<equiv> Some (Inr (v, ts))"

definition failAt :: "jstr \<Rightarrow> JToken \<Rightarrow> 'a parsing" where
  "failAt message t = Some (Inl (jsError message (jt_line t) (jt_col t)))"

text \<open>\<open>next\<close> never moves past the token that ends the input.\<close>

definition peekT :: "JToken list \<Rightarrow> JToken" where
  "peekT ts = (case ts of [] \<Rightarrow> tokenAt QEof 0 0 | t # us \<Rightarrow> t)"

definition nextT :: "JToken list \<Rightarrow> JToken list" where
  "nextT ts = (if jt_tok (peekT ts) = QEof then ts else tl ts)"

definition isPunctT :: "JToken \<Rightarrow> char \<Rightarrow> bool" where
  "isPunctT t c \<longleftrightarrow> jt_tok t = QPunct (of_char c)"

definition expectPunct :: "char \<Rightarrow> jstr \<Rightarrow> JToken list \<Rightarrow> unit parsing" where
  "expectPunct c context ts =
     (let t = peekT ts in
      if isPunctT t c then okP () (nextT ts)
      else failAt (js ''expected '' @ dq [of_char c] @ js '' '' @ context @ js '' but found '' @ labelOfToken t) t)"

text \<open>\<open>delegate\<close>: a refusal of the shared compiler is placed at a token.\<close>

definition delegate :: "DataError + 'a \<Rightarrow> JToken \<Rightarrow> JToken list \<Rightarrow> 'a parsing" where
  "delegate r t ts =
     (case r of
        Inr v \<Rightarrow> okP v ts
      | Inl (QueryValidationError m) \<Rightarrow> failAt m t
      | Inl e \<Rightarrow> Some (Inl e))"

section \<open>Literals\<close>

text \<open>
  The members of an object are enumerated with the array indices first, in ascending order, then the
  other keys in the order they were added.
\<close>

definition isIndexKey :: "jstr \<Rightarrow> bool" where
  "isIndexKey k \<longleftrightarrow>
     k \<noteq> [] \<and> list_all is_digit k \<and> (hd k \<noteq> 48 \<or> length k = 1) \<and> length k \<le> 10 \<and> digitsValue k < 4294967295"

definition enumerated :: "(jstr \<times> jsval) list \<Rightarrow> (jstr \<times> jsval) list" where
  "enumerated es =
     sort_key (\<lambda>e. digitsValue (fst e)) (filter (\<lambda>e. isIndexKey (fst e)) es) @ filter (\<lambda>e. \<not> isIndexKey (fst e)) es"

text \<open>
  The loops take fuel \<open>n\<close> for their rounds and the parser of a member's value; \<open>parseValue\<close> takes fuel
  \<open>d\<close> for the nesting.
\<close>

definition keyOf :: "JToken \<Rightarrow> jstr option" where
  "keyOf t = (case jt_tok t of QIdent w \<Rightarrow> Some w | QStr w \<Rightarrow> Some w | _ \<Rightarrow> None)"

definition expected :: "char \<Rightarrow> jstr \<Rightarrow> JToken \<Rightarrow> 'a parsing" where
  "expected c what t =
     failAt (js ''expected '' @ dq (js '','') @ js '' or '' @ dq [of_char c] @ js '' in '' @ what @ js '' literal but found '' @
       labelOfToken t) t"

text \<open>One member, up to and including its value.\<close>

definition objectMember :: "(JToken list \<Rightarrow> jsval parsing) \<Rightarrow> (jstr \<times> jsval) list \<Rightarrow> JToken list \<Rightarrow> (jstr \<times> jsval) parsing" where
  "objectMember pv obj ts =
     (let t = peekT ts in
      case keyOf t of
        None \<Rightarrow> failAt (js ''expected a property name (identifier or quoted string) but found '' @ labelOfToken t) t
      | Some key \<Rightarrow>
          if key \<in> set FORBIDDEN_KEYS then failAt (js ''key '' @ dq key @ js '' is not allowed'') t
          else if key \<in> fst ` set obj then failAt (js ''duplicate key '' @ dq key @ js '' in object literal'') t
          else bindP (expectPunct CHR '':'' (js ''after key '' @ dq key) (nextT ts)) (\<lambda>_ us.
               bindP (pv us) (\<lambda>v vs. okP (key, v) vs)))"

primrec objectLoop :: "nat \<Rightarrow> (JToken list \<Rightarrow> jsval parsing) \<Rightarrow> (jstr \<times> jsval) list \<Rightarrow> JToken list \<Rightarrow> jsval parsing" where
  "objectLoop 0 pv obj ts = None"
| "objectLoop (Suc n) pv obj ts =
     bindP (objectMember pv obj ts) (\<lambda>e us.
       let t = peekT us; vs = nextT us; obj' = obj @ [e] in
       if isPunctT t CHR '','' then
         (if isPunctT (peekT vs) CHR ''}'' then okP (VObj (enumerated obj')) (nextT vs) else objectLoop n pv obj' vs)
       else if isPunctT t CHR ''}'' then okP (VObj (enumerated obj')) vs
       else expected CHR ''}'' (js ''object'') t)"

definition parseObjectLiteral :: "nat \<Rightarrow> (JToken list \<Rightarrow> jsval parsing) \<Rightarrow> JToken list \<Rightarrow> jsval parsing" where
  "parseObjectLiteral n pv ts =
     bindP (expectPunct CHR ''{'' (js ''to open an object literal'') ts) (\<lambda>_ us.
       if isPunctT (peekT us) CHR ''}'' then okP (VObj []) (nextT us) else objectLoop n pv [] us)"

primrec arrayLoop :: "nat \<Rightarrow> (JToken list \<Rightarrow> jsval parsing) \<Rightarrow> jsval list \<Rightarrow> JToken list \<Rightarrow> jsval parsing" where
  "arrayLoop 0 pv vs ts = None"
| "arrayLoop (Suc n) pv vs ts =
     bindP (pv ts) (\<lambda>v us.
       let t = peekT us; ws = nextT us; vs' = vs @ [v] in
       if isPunctT t CHR '','' then
         (if isPunctT (peekT ws) CHR '']'' then okP (VArr vs') (nextT ws) else arrayLoop n pv vs' ws)
       else if isPunctT t CHR '']'' then okP (VArr vs') ws
       else expected CHR '']'' (js ''array'') t)"

definition parseArrayLiteral :: "nat \<Rightarrow> (JToken list \<Rightarrow> jsval parsing) \<Rightarrow> JToken list \<Rightarrow> jsval parsing" where
  "parseArrayLiteral n pv ts =
     bindP (expectPunct CHR ''['' (js ''to open an array literal'') ts) (\<lambda>_ us.
       if isPunctT (peekT us) CHR '']'' then okP (VArr []) (nextT us) else arrayLoop n pv [] us)"

definition keyword :: "jstr \<Rightarrow> jsval option" where
  "keyword w =
     (if w = js ''true'' then Some (VBool True) else if w = js ''false'' then Some (VBool False)
      else if w = js ''null'' then Some VNull else None)"

primrec parseValue :: "nat \<Rightarrow> nat \<Rightarrow> nat \<Rightarrow> JToken list \<Rightarrow> jsval parsing" where
  "parseValue 0 n depth ts = None"
| "parseValue (Suc d) n depth ts =
     (let t = peekT ts in
      if depth > MAX_NESTING
      then failAt (js ''literal nesting is too deep (max '' @ show_nat MAX_NESTING @ js '' levels)'') t
      else (case jt_tok t of
        QStr s \<Rightarrow> okP (VStr s) (nextT ts)
      | QNum v \<Rightarrow> okP (VNum v) (nextT ts)
      | QIdent w \<Rightarrow>
          (case keyword w of
             Some v \<Rightarrow> okP v (nextT ts)
           | None \<Rightarrow> failAt (js ''unexpected identifier '' @ dq w @ js '' '' @ [8212] @
                       js '' only string, number, boolean, null, object and array literals are allowed as values'') t)
      | _ \<Rightarrow>
          if isPunctT t CHR ''{'' then parseObjectLiteral n (parseValue d n (depth + 1)) ts
          else if isPunctT t CHR ''['' then parseArrayLiteral n (parseValue d n (depth + 1)) ts
          else failAt (js ''expected a value but found '' @ labelOfToken t) t))"

text \<open>The object literal that a method takes, \<open>parseObjectLiteral(1)\<close>.\<close>

definition argumentLiteral :: "nat \<Rightarrow> JToken list \<Rightarrow> jsval parsing" where
  "argumentLiteral n ts = parseObjectLiteral n (parseValue MAX_NESTING n 2) ts"

section \<open>The chain of methods\<close>

record EntityQuery =
  eq_entity :: jstr
  eq_filter :: "Filter option"
  eq_sort :: "SortClause list option"
  eq_limit :: "rat option"
  eq_offset :: "rat option"
  eq_select :: "PathRef list option"

datatype QueryAction = FindAction | CountAction

record ParsedJsQuery =
  pj_entity :: jstr
  pj_action :: QueryAction
  pj_query :: EntityQuery

record ChainState =
  cs_hasFind :: bool
  cs_filter :: "Filter option"
  cs_sort :: "SortClause list"
  cs_limit :: "rat option"
  cs_offset :: "rat option"
  cs_select :: "PathRef list option"
  cs_action :: QueryAction

definition emptyChain :: ChainState where
  "emptyChain = \<lparr>cs_hasFind = False, cs_filter = None, cs_sort = [], cs_limit = None, cs_offset = None,
     cs_select = None, cs_action = FindAction\<rparr>"

definition checkEntity :: "jstr \<Rightarrow> JToken \<Rightarrow> JToken list \<Rightarrow> jstr parsing" where
  "checkEntity entity t ts =
     (if length entity > MAX_ENTITY_NAME_LENGTH
      then failAt (js ''entity name is too long ('' @ show_nat (length entity) @ js '' > '' @ show_nat MAX_ENTITY_NAME_LENGTH @
             js '' characters)'') t
      else if \<not> isPlainName entity
      then failAt (js ''invalid entity name '' @ dq entity @ js '' '' @ [8212] @
             js '' use letters, digits and underscores, starting with a letter or underscore'') t
      else okP entity ts)"

definition parseRoot :: "JToken list \<Rightarrow> jstr parsing" where
  "parseRoot ts =
     (let t = peekT ts in
      if jt_tok t = QEof
      then failAt (js ''query is empty '' @ [8212] @ js '' start with collection('' @ dq (js ''entity'') @ js '') or db.entity'') t
      else if jt_tok t = QIdent (js ''collection'') then
        bindP (expectPunct CHR ''('' (js ''after '' @ dq (js ''collection'')) (nextT ts)) (\<lambda>_ us.
          let name = peekT us in
          case jt_tok name of
            QStr s \<Rightarrow> bindP (expectPunct CHR '')'' (js ''after the entity name'') (nextT us)) (\<lambda>_ vs. checkEntity s name vs)
          | _ \<Rightarrow> failAt (js ''collection() requires a string literal entity name, e.g. collection('' @ dq (js ''orders'') @ js '')'') name)
      else if jt_tok t = QIdent (js ''db'') then
        bindP (expectPunct CHR ''.'' (js ''after '' @ dq (js ''db'')) (nextT ts)) (\<lambda>_ us.
          let name = peekT us in
          case jt_tok name of
            QIdent s \<Rightarrow> checkEntity s name (nextT us)
          | _ \<Rightarrow> failAt (js ''expected a collection name after '' @ dq (js ''db.'') @ js '', e.g. db.orders'') name)
      else failAt (js ''queries must start with collection('' @ dq (js ''entity'') @ js '') or db.entity '' @ [8212] @
             js '' found '' @ labelOfToken t) t)"

text \<open>The optional argument of \<open>find\<close>: \<open>None\<close> when the call is empty.\<close>

definition findArgument :: "nat \<Rightarrow> jstr \<Rightarrow> JToken list \<Rightarrow> jsval option parsing" where
  "findArgument n name ts =
     (let t = peekT ts in
      if isPunctT t CHR '')'' then okP None ts
      else if \<not> isPunctT t CHR ''{''
      then failAt (name @ js ''() requires an object literal argument like { status: '' @ dq (js ''active'') @ js '' }'') t
      else bindP (argumentLiteral n ts) (\<lambda>obj us. okP (Some obj) us))"

definition parseFind :: "(jstr \<Rightarrow> bool) \<Rightarrow> nat \<Rightarrow> jstr \<Rightarrow> JToken \<Rightarrow> ChainState \<Rightarrow> JToken list \<Rightarrow> ChainState parsing" where
  "parseFind rx n name nameToken st ts =
     (if cs_hasFind st
      then failAt (js ''duplicate find()/where() '' @ [8212] @ js '' pass all conditions in a single filter object'') nameToken
      else bindP (expectPunct CHR ''('' (js ''after '' @ dq name) ts) (\<lambda>_ us.
           bindP (findArgument n name us) (\<lambda>arg vs.
           bindP (expectPunct CHR '')'' (js ''to close '' @ name @ js ''(...)'') vs) (\<lambda>_ ws.
             case arg of
               None \<Rightarrow> okP (st\<lparr>cs_hasFind := True\<rparr>) ws
             | Some obj \<Rightarrow>
                 bindP (delegate (compileFilterObject rx obj (name @ js ''()'')) (peekT us) ws)
                   (\<lambda>f xs. okP (st\<lparr>cs_hasFind := True, cs_filter := f\<rparr>) xs)))))"

definition sortClauses :: "nat \<Rightarrow> JToken list \<Rightarrow> SortClause list parsing" where
  "sortClauses n us =
     (let t = peekT us in
      case jt_tok t of
        QStr path \<Rightarrow>
          bindP (expectPunct CHR '','' (js ''between the sort path and its direction'') (nextT us)) (\<lambda>_ vs.
            let d = peekT vs in
            case jt_tok d of
              QStr dir \<Rightarrow>
                if dir \<noteq> js ''asc'' \<and> dir \<noteq> js ''desc''
                then failAt (js ''invalid sort direction '' @ dq dir @ js '' '' @ [8212] @ js '' use '' @ dq (js ''asc'') @
                       js '' or '' @ dq (js ''desc'')) d
                else delegate (compileSortObject (VObj [(path, VStr dir)]) (js ''sort()'')) t (nextT vs)
            | _ \<Rightarrow> failAt (js ''sort() direction must be the string '' @ dq (js ''asc'') @ js '' or '' @ dq (js ''desc'')) d)
      | _ \<Rightarrow>
          if isPunctT t CHR ''{''
          then bindP (argumentLiteral n us) (\<lambda>obj vs. delegate (compileSortObject obj (js ''sort()'')) t vs)
          else failAt (js ''sort() requires an object like { field: 1 } or two strings like sort('' @ dq (js ''field'') @
                 js '', '' @ dq (js ''desc'') @ js '')'') t)"

definition parseSort :: "nat \<Rightarrow> JToken \<Rightarrow> ChainState \<Rightarrow> JToken list \<Rightarrow> ChainState parsing" where
  "parseSort n nameToken st ts =
     bindP (expectPunct CHR ''('' (js ''after '' @ dq (js ''sort'')) ts) (\<lambda>_ us.
     bindP (sortClauses n us) (\<lambda>clauses vs.
     bindP (expectPunct CHR '')'' (js ''to close sort(...)'') vs) (\<lambda>_ ws.
       if length (cs_sort st @ clauses) > MAX_TOTAL_SORT_FIELDS
       then failAt (js ''sort supports at most '' @ show_nat MAX_TOTAL_SORT_FIELDS @ js '' fields in total across all sort() calls'') nameToken
       else okP (st\<lparr>cs_sort := cs_sort st @ clauses\<rparr>) ws)))"

definition parseLimitOrSkip :: "jstr \<Rightarrow> JToken \<Rightarrow> ChainState \<Rightarrow> JToken list \<Rightarrow> ChainState parsing" where
  "parseLimitOrSkip name nameToken st ts =
     (let isLimit = (name = js ''limit'') in
      if (if isLimit then cs_limit st \<noteq> None else cs_offset st \<noteq> None)
      then failAt (if isLimit then js ''duplicate limit() '' @ [8212] @ js '' limit may be set only once''
             else js ''duplicate skip()/offset() '' @ [8212] @ js '' the row offset may be set only once'') nameToken
      else bindP (expectPunct CHR ''('' (js ''after '' @ dq name) ts) (\<lambda>_ us.
        let t = peekT us in
        case jt_tok t of
          QNum v \<Rightarrow>
            if \<not> isInteger v \<or> v < 0
            then failAt (name @ js ''() must be a non-negative integer (got '' @ show_number v @ js '')'') t
            else bindP (expectPunct CHR '')'' (js ''to close '' @ name @ js ''(...)'') (nextT us)) (\<lambda>_ vs.
              okP (if isLimit then st\<lparr>cs_limit := Some v\<rparr> else st\<lparr>cs_offset := Some v\<rparr>) vs)
        | _ \<Rightarrow> failAt (name @ js ''() requires a non-negative integer argument, e.g. '' @ name @ js ''(10) '' @ [8212] @ js '' found '' @
                 labelOfToken t) t))"

definition selectEntry :: "jstr \<times> jsval \<Rightarrow> DataError + PathRef" where
  "selectEntry e =
     (if snd e = VNum 0
      then Inl (QueryValidationError (js ''exclusion projections are not supported '' @ [8212] @ js '' list the fields you want with 1''))
      else if snd e \<noteq> VNum 1
      then Inl (QueryValidationError (js ''invalid select value for '' @ dq (fst e) @ js '' '' @ [8212] @ js '' use 1 to include a field''))
      else bindr (assertSafePath (fst e) (js ''select()'')) (\<lambda>_. Inr \<lparr>pr_path = fst e, pr_isArrayPath = hasBrackets (fst e)\<rparr>))"

definition parseSelectCall :: "nat \<Rightarrow> JToken \<Rightarrow> ChainState \<Rightarrow> JToken list \<Rightarrow> ChainState parsing" where
  "parseSelectCall n nameToken st ts =
     (if cs_select st \<noteq> None
      then failAt (js ''duplicate select() '' @ [8212] @ js '' list all fields in a single select() object'') nameToken
      else bindP (expectPunct CHR ''('' (js ''after '' @ dq (js ''select'')) ts) (\<lambda>_ us.
        let t = peekT us in
        if \<not> isPunctT t CHR ''{''
        then failAt (js ''select() requires an object literal like { name: 1, '' @ dq (js ''customer.city'') @ js '': 1 }'') t
        else bindP (argumentLiteral n us) (\<lambda>obj vs.
             bindP (expectPunct CHR '')'' (js ''to close select(...)'') vs) (\<lambda>_ ws.
               case obj of
                 VObj es \<Rightarrow>
                   if es = [] then failAt (js ''select() requires at least one field, e.g. select({ name: 1 })'') t
                   else bindP (delegate (mapr selectEntry es) t ws) (\<lambda>refs xs. okP (st\<lparr>cs_select := Some refs\<rparr>) xs)
               | _ \<Rightarrow> okP st ws))))"

definition parseCount :: "JToken \<Rightarrow> ChainState \<Rightarrow> JToken list \<Rightarrow> ChainState parsing" where
  "parseCount nameToken st ts =
     bindP (expectPunct CHR ''('' (js ''after '' @ dq (js ''count'')) ts) (\<lambda>_ us.
       if \<not> isPunctT (peekT us) CHR '')'' then failAt (js ''count() takes no arguments'') (peekT us)
       else (let vs = nextT us in
         if cs_sort st \<noteq> [] \<or> cs_limit st \<noteq> None \<or> cs_offset st \<noteq> None \<or> cs_select st \<noteq> None
         then failAt (js ''count() cannot be combined with sort/limit/skip/select'') nameToken
         else if isPunctT (peekT vs) CHR ''.'' then failAt (js ''count() must be the last method in the chain'') (peekT vs)
         else okP (st\<lparr>cs_action := CountAction\<rparr>) vs))"

definition parseMethod :: "(jstr \<Rightarrow> bool) \<Rightarrow> nat \<Rightarrow> ChainState \<Rightarrow> JToken list \<Rightarrow> ChainState parsing" where
  "parseMethod rx n st ts =
     (let t = peekT ts; us = nextT ts in
      case jt_tok t of
        QIdent name \<Rightarrow>
          if name = js ''find'' \<or> name = js ''where'' then parseFind rx n name t st us
          else if name = js ''sort'' then parseSort n t st us
          else if name = js ''limit'' \<or> name = js ''skip'' \<or> name = js ''offset'' then parseLimitOrSkip name t st us
          else if name = js ''select'' then parseSelectCall n t st us
          else if name = js ''count'' then parseCount t st us
          else failAt (js ''unknown method '' @ dq name @ js ''() '' @ [8212] @
                 js '' supported: find, where, sort, limit, skip, offset, select, count'') t
      | _ \<Rightarrow> failAt (js ''expected a method name after '' @ dq (js ''.'') @ js '' but found '' @ labelOfToken t) t)"

text \<open>The fuel of the loop is the number of methods it may still read, \<open>n\<close> that of a literal.\<close>

fun methodLoop :: "nat \<Rightarrow> (jstr \<Rightarrow> bool) \<Rightarrow> nat \<Rightarrow> ChainState \<Rightarrow> JToken list \<Rightarrow> ChainState parsing" where
  "methodLoop 0 rx n st ts = None"
| "methodLoop (Suc m) rx n st ts =
     (if isPunctT (peekT ts) CHR ''.''
      then bindP (parseMethod rx n st (nextT ts)) (methodLoop m rx n)
      else okP st ts)"

definition buildResult :: "jstr \<Rightarrow> ChainState \<Rightarrow> ParsedJsQuery" where
  "buildResult entity st =
     (let base = \<lparr>eq_entity = entity, eq_filter = cs_filter st, eq_sort = None, eq_limit = None, eq_offset = None, eq_select = None\<rparr> in
      if cs_action st = CountAction then \<lparr>pj_entity = entity, pj_action = CountAction, pj_query = base\<rparr>
      else \<lparr>pj_entity = entity, pj_action = FindAction,
        pj_query = base\<lparr>eq_sort := (if cs_sort st = [] then None else Some (cs_sort st)),
          eq_limit := cs_limit st, eq_offset := cs_offset st, eq_select := cs_select st\<rparr>\<rparr>)"

text \<open>\<open>parse\<close>, with fuel \<open>n\<close> for every loop.\<close>

definition parseTokens :: "(jstr \<Rightarrow> bool) \<Rightarrow> nat \<Rightarrow> JToken list \<Rightarrow> (DataError + ParsedJsQuery) option" where
  "parseTokens rx n ts =
     map_option (\<lambda>r. bindr r (\<lambda>(q, us). Inr q))
       (bindP (parseRoot ts) (\<lambda>entity us.
        bindP (methodLoop n rx n emptyChain us) (\<lambda>st vs.
          let ws = (if isPunctT (peekT vs) CHR '';'' then nextT vs else vs) in
          if jt_tok (peekT ws) \<noteq> QEof
          then failAt (js ''unexpected '' @ labelOfToken (peekT ws) @ js '' after the query '' @ [8212] @ js '' expected end of input'') (peekT ws)
          else okP (buildResult entity st) ws)))"

definition parseJsQuery :: "(jstr \<Rightarrow> bool) \<Rightarrow> jstr \<Rightarrow> (DataError + ParsedJsQuery) option" where
  "parseJsQuery rx source =
     (if length source > MAX_SOURCE_LENGTH
      then Some (Inl (jsError (js ''query text is too long ('' @ show_nat (length source) @ js '' > '' @ show_nat MAX_SOURCE_LENGTH @
             js '' characters)'') 1 1))
      else (case tokenizeQuery source of
              Inl e \<Rightarrow> Some (Inl e)
            | Inr ts \<Rightarrow> parseTokens rx (length ts + 1) ts))"

end
