(* ===== verification/JsQueryRules.thy ===== *)
theory JsQueryRules
  imports JsQueryParser DataFilterRules
begin

text \<open>
  What parsing query text guarantees: the fuel given is enough, every error lies in the text, and a
  parsed query is well formed.  One judgement carries all three through the parser.
\<close>

section \<open>Positions\<close>

definition advance :: "jstr \<Rightarrow> nat \<times> nat \<Rightarrow> nat \<times> nat" where
  "advance s p = foldl (\<lambda>(l, c) x. if x = 10 then (l + 1, 1) else (l, c + 1)) p s"

text \<open>The positions from \<open>p\<close> to the end of the text \<open>s\<close>.\<close>

definition places :: "jstr \<Rightarrow> nat \<times> nat \<Rightarrow> (nat \<times> nat) set" where
  "places s p = (\<lambda>i. advance (take i s) p) ` {..length s}"

lemma advance_Nil [simp]: "advance [] p = p"
  by (simp add: advance_def)

lemma advance_append: "advance (a @ b) p = advance b (advance a p)"
  by (simp add: advance_def)

lemma advance_Cons: "advance (x # s) (l, c) = advance s (if x = 10 then (l + 1, 1) else (l, c + 1))"
  by (simp add: advance_def)

lemma advance_line: "10 \<notin> set s \<Longrightarrow> advance s (l, c) = (l, c + length s)"
  by (induction s arbitrary: c) (auto simp: advance_Cons)

lemma places_here [simp]: "p \<in> places s p"
  by (force simp: places_def)

lemma places_append: "places b (advance a p) \<subseteq> places (a @ b) p"
proof
  fix q
  assume "q \<in> places b (advance a p)"
  then obtain i where i: "i \<le> length b" "q = advance (take i b) (advance a p)" by (auto simp: places_def)
  then have "q = advance (take (length a + i) (a @ b)) p" by (simp add: advance_append)
  with i(1) show "q \<in> places (a @ b) p" unfolding places_def by (intro image_eqI [of _ _ "length a + i"]) auto
qed

lemma places_line:
  assumes "10 \<notin> set (take n s)" "n \<le> length s"
  shows "(l, c + n) \<in> places s (l, c)"
proof -
  have "(l, c + n) = advance (take n s) (l, c)" using advance_line [OF assms(1)] assms(2) by simp
  with assms(2) show ?thesis unfolding places_def by (intro image_eqI [of _ _ n]) auto
qed

section \<open>The tokenizer\<close>

definition placed :: "(nat \<times> nat) set \<Rightarrow> DataError \<Rightarrow> bool" where
  "placed P e \<longleftrightarrow> (\<exists>m l c. e = jsError m l c \<and> (l, c) \<in> P)"

lemma placed_jsError [simp]: "placed P (jsError m l c) \<longleftrightarrow> (l, c) \<in> P"
  by (auto simp: placed_def jsError_def)

lemma placed_mono: "placed P e \<Longrightarrow> P \<subseteq> Q \<Longrightarrow> placed Q e"
  by (auto simp: placed_def)

text \<open>What a scanner that reads \<open>s\<close> from \<open>p\<close> and leaves \<open>s'\<close> at \<open>p'\<close> has done.\<close>

definition scanned :: "jstr \<Rightarrow> nat \<times> nat \<Rightarrow> jstr \<Rightarrow> nat \<times> nat \<Rightarrow> bool" where
  "scanned s p s' p' \<longleftrightarrow> (\<exists>a. s = a @ s' \<and> p' = advance a p)"

lemma scannedI: "s = a @ s' \<Longrightarrow> p' = advance a p \<Longrightarrow> scanned s p s' p'"
  unfolding scanned_def by blast

lemma scanned_places: "scanned s p s' p' \<Longrightarrow> places s' p' \<subseteq> places s p"
  unfolding scanned_def using places_append by blast

lemma scanned_trans: "scanned s p s' p' \<Longrightarrow> scanned s' p' s'' p'' \<Longrightarrow> scanned s p s'' p''"
  unfolding scanned_def by (metis advance_append append.assoc)

lemma scanned_Cons: "scanned (x # s) (l, c) s (if x = 10 then (l + 1, 1) else (l, c + 1))"
  by (rule scannedI [of _ "[x]"]) (auto simp: advance_Cons)

lemma scanned_line: "10 \<notin> set a \<Longrightarrow> scanned (a @ s) (l, c) s (l, c + length a)"
  by (rule scannedI [of _ a]) (simp_all add: advance_line)

lemma blockComment_scanned: "blockComment s l c = Some (s', l', c') \<Longrightarrow> scanned s (l, c) s' (l', c')"
proof (induction s l c rule: blockComment.induct)
  case (2 x s l c)
  consider "x = 42" "nth_opt s 0 = Some 47" | "\<not> (x = 42 \<and> nth_opt s 0 = Some 47)" by auto
  then show ?case
  proof cases
    case 1
    then obtain t where "s = 47 # t" by (auto simp: nth_opt_0_Some)
    with 1 "2.prems" show ?thesis by (intro scannedI [of _ "[42, 47]"]) (auto simp: advance_Cons)
  next
    case 2
    with "2.prems" "2.IH" have "scanned s (if x = 10 then (l + 1, 1) else (l, c + 1)) s' (l', c')"
      by (auto split: if_splits)
    with scanned_Cons show ?thesis by (rule scanned_trans)
  qed
qed simp

lemma scanned_two: "a \<noteq> 10 \<Longrightarrow> b \<noteq> 10 \<Longrightarrow> scanned (a # b # s) (l, c) s (l, c + 2)"
  by (rule scannedI [of _ "[a, b]"]) (auto simp: advance_Cons)

lemma escape_no_line: "map_of STRING_ESCAPES e = Some m \<Longrightarrow> e \<noteq> 10"
  by (auto simp: STRING_ESCAPES_def split: if_splits)

lemma stringBody_scanned: "stringBody q l c0 s c = Inr (v, s', c') \<Longrightarrow> scanned s (l, c) s' (l, c')"
proof (induction q l c0 s c arbitrary: v rule: stringBody.induct)
  case (2 q l c0 x s c)
  from "2.prems" have x: "x \<noteq> 10" "x \<noteq> 13" by (auto split: if_splits)
  consider e t m w where "x = 92" "s = e # t" "map_of STRING_ESCAPES e = Some m" "stringBody q l c0 t (c + 2) = Inr (w, s', c')"
    | "x \<noteq> 92" "x = q" "s' = s" "c' = c + 1"
    | w where "x \<noteq> 92" "x \<noteq> q" "stringBody q l c0 s (c + 1) = Inr (w, s', c')"
    using "2.prems" x by (auto simp: bindr_eq_Inr split: if_splits list.splits option.splits)
  then show ?case
  proof cases
    case 1
    with "2.IH"(1) x have "scanned t (l, c + 2) s' (l, c')" by simp
    with scanned_two [of 92 e t l c] escape_no_line 1 show ?thesis by (auto intro: scanned_trans)
  next
    case 2
    with x scanned_Cons [of x s l c] show ?thesis by simp
  next
    case 3
    with "2.IH"(2) x have "scanned s (l, c + 1) s' (l, c')" by simp
    with scanned_Cons [of x s l c] x show ?thesis by (auto intro: scanned_trans)
  qed
qed simp

lemma stringBody_placed: "stringBody q l c0 s c = Inl e \<Longrightarrow> placed (insert (l, c0) (places s (l, c))) e"
proof (induction q l c0 s c rule: stringBody.induct)
  case (2 q l c0 x s c)
  have step: "placed (insert (l, c0) (places (x # s) (l, c))) e"
    if "placed (insert (l, c0) (places t p)) e" "scanned (x # s) (l, c) t p" for t p
    using that scanned_places [OF that(2)] by (auto intro: placed_mono)
  consider "e = jsError (js ''unterminated string literal '' @ [8212] @ js '' strings cannot span lines'') l c0"
    | "e = jsError (js ''unterminated string literal'') l c0"
    | m where "e = jsError m l c"
    | d t m where "x \<noteq> 10" "x \<noteq> 13" "x = 92" "s = d # t" "map_of STRING_ESCAPES d = Some m" "stringBody q l c0 t (c + 2) = Inl e"
    | "x \<noteq> 10" "x \<noteq> 13" "x \<noteq> 92" "x \<noteq> q" "stringBody q l c0 s (c + 1) = Inl e"
    using "2.prems" by (auto simp: bindr_eq_Inl split: if_splits list.splits option.splits)
  then show ?case
  proof cases
    case 4
    with "2.IH"(1) have "placed (insert (l, c0) (places t (l, c + 2))) e" by simp
    moreover have "scanned (x # s) (l, c) t (l, c + 2)" using scanned_two escape_no_line 4 by simp
    ultimately show ?thesis by (rule step)
  next
    case 5
    with "2.IH"(2) have "placed (insert (l, c0) (places s (l, c + 1))) e" by simp
    then show ?thesis using scanned_Cons [of x s l c] 5 by (auto intro: step)
  qed simp_all
qed auto

lemma digits_no_line: "10 \<notin> set (takeWhile is_digit s)"
  by (auto simp: is_digit_def dest: set_takeWhileD)

text \<open>The units of a number literal up to a length: no line feed among them.\<close>

lemma take_split: "n \<le> m \<Longrightarrow> take m s = take n s @ take (m - n) (drop n s)"
  by (metis le_add_diff_inverse take_add)

lemma take_takeWhile: "take (length (takeWhile P s)) s = takeWhile P s"
  by (metis append_eq_conv_conj takeWhile_dropWhile_id)

definition oneLine :: "jstr \<Rightarrow> nat \<Rightarrow> bool" where
  "oneLine s n \<longleftrightarrow> n \<le> length s \<and> 10 \<notin> set (take n s)"

lemma oneLine_0 [simp]: "oneLine s 0"
  by (simp add: oneLine_def)

lemma oneLine_unit: "oneLine s n \<Longrightarrow> nth_opt s n = Some c \<Longrightarrow> c \<noteq> 10 \<Longrightarrow> oneLine s (n + 1)"
  by (auto simp: oneLine_def nth_opt_def take_Suc_conv_app_nth split: if_splits)

lemma oneLine_digits: "oneLine s n \<Longrightarrow> oneLine s (n + length (takeWhile is_digit (drop n s)))"
  using digits_no_line [of "drop n s"] length_takeWhile_le [of is_digit "drop n s"]
  by (auto simp: oneLine_def take_add take_takeWhile)

lemma oneLine_place: "oneLine s n \<Longrightarrow> (l, c + n) \<in> places s (l, c)"
  by (simp add: oneLine_def places_line)

lemma oneLine_scanned: "oneLine s n \<Longrightarrow> scanned s (l, c) (drop n s) (l, c + n)"
  using scanned_line [of "take n s" "drop n s" l c] by (simp add: oneLine_def)

lemma number_marks:
  "oneLine s (wholeEnd s)" "oneLine s (fractionEnd s)" "powered s \<Longrightarrow> oneLine s (exponentStart s)" "oneLine s (numberEnd s)"
proof -
  have o0: "oneLine s (signLength s)" using oneLine_unit [of s 0 45] by (auto simp: signLength_def)
  show o1: "oneLine s (wholeEnd s)" unfolding wholeEnd_def by (rule oneLine_digits [OF o0])
  show o2: "oneLine s (fractionEnd s)"
    unfolding fractionEnd_def using oneLine_unit [OF o1] oneLine_digits [of s "wholeEnd s + 1"] o1 by (auto simp: dotted_def)
  show oq: "oneLine s (exponentStart s)" if "powered s"
    using that oneLine_unit [OF o2] oneLine_unit [of s "fractionEnd s + 1"] by (auto simp: exponentStart_def powered_def)
  show "oneLine s (numberEnd s)" unfolding numberEnd_def using oneLine_digits [OF oq] o2 by auto
qed

lemma lexNumber_placed: "lexNumber s l c = Inl e \<Longrightarrow> placed (places s (l, c)) e"
  using number_marks [of s] by (auto simp: lexNumber_def oneLine_place split: if_splits option.splits)

lemma lexNumber_scanned: "lexNumber s l c = Inr (v, n) \<Longrightarrow> scanned s (l, c) (drop n s) (l, c + n)"
  using number_marks(4) [of s] by (auto simp: lexNumber_def oneLine_scanned split: if_splits option.splits)

lemma takeWhile_scanned:
  assumes "\<And>x. P x \<Longrightarrow> x \<noteq> 10"
  shows "scanned s (l, c) (dropWhile P s) (l, c + length (takeWhile P s))"
proof -
  have "10 \<notin> set (takeWhile P s)" using assms by (auto dest: set_takeWhileD)
  from scanned_line [OF this, of "dropWhile P s"] show ?thesis by simp
qed

definition tokenPlaced :: "(nat \<times> nat) set \<Rightarrow> JToken \<Rightarrow> bool" where
  "tokenPlaced P t \<longleftrightarrow> (jt_line t, jt_col t) \<in> P"

lemma tokenPlaced_at [simp]: "tokenPlaced P (tokenAt tok l c) \<longleftrightarrow> (l, c) \<in> P"
  by (simp add: tokenPlaced_def tokenAt_def)

lemma if_cases: "(if b then u else v) = w \<Longrightarrow> (b \<Longrightarrow> u = w \<Longrightarrow> R) \<Longrightarrow> (\<not> b \<Longrightarrow> v = w \<Longrightarrow> R) \<Longrightarrow> R"
  by (cases b) auto

definition roundOk :: "int \<Rightarrow> jstr \<Rightarrow> nat \<Rightarrow> nat \<Rightarrow> lexed \<Rightarrow> bool" where
  "roundOk x s l c r \<longleftrightarrow>
     (case r of (t, s', l', c') \<Rightarrow>
        scanned (x # s) (l, c) s' (l', c') \<and> (\<forall>u. t = Some u \<longrightarrow> tokenPlaced {(l, c)} u))"

lemma lexComment_ok:
  assumes "lexComment (47 # 42 # s) l c = Inr r"
  shows "roundOk 47 (42 # s) l c r"
proof -
  from assms obtain s' l' c' where b: "blockComment s l (c + 2) = Some (s', l', c')" "r = (None, s', l', c')"
    by (auto simp: lexComment_def split: option.splits)
  have "scanned (47 # 42 # s) (l, c) s (l, c + 2)" by (rule scanned_two) simp_all
  from scanned_trans [OF this blockComment_scanned [OF b(1)]] b(2) show ?thesis by (simp add: roundOk_def)
qed

lemma lexRound_scanned:
  assumes "lexRound x s l c = Inr r"
  shows "roundOk x s l c r"
  using assms unfolding lexRound_def
proof (elim if_cases)
  assume "x = 10" "Inr (None, s, l + 1, 1) = Inr r"
  with scanned_Cons [of x s l c] show ?thesis by (auto simp: roundOk_def)
next
  assume "x \<noteq> 10" "Inr (None, s, l, c + 1) = Inr r"
  with scanned_Cons [of x s l c] show ?thesis by (auto simp: roundOk_def)
next
  assume "Inr (None, dropWhile (\<lambda>d. d \<noteq> 10) (x # s), l, c + length (takeWhile (\<lambda>d. d \<noteq> 10) (x # s))) = Inr r"
  with takeWhile_scanned [of "\<lambda>d. d \<noteq> 10" "x # s" l c] show ?thesis
    by (auto simp: roundOk_def simp del: dropWhile.simps takeWhile.simps)
next
  assume "x = ch CHR ''/'' \<and> nth_opt s 0 = Some (ch CHR ''*'')" "lexComment (x # s) l c = Inr r"
  moreover from this(1) obtain ys where "x = 47" "s = 42 # ys" by (auto simp: nth_opt_0_Some)
  ultimately show ?thesis using lexComment_ok [of ys l c r] by simp
next
  assume "x \<noteq> 10" "bindr (stringBody x l c s (c + 1)) (\<lambda>(v, s', c'). Inr (Some (tokenAt (QStr v) l c), s', l, c')) = Inr r"
  then obtain v s' c' where sb: "stringBody x l c s (c + 1) = Inr (v, s', c')" "r = (Some (tokenAt (QStr v) l c), s', l, c')"
    by (auto simp: bindr_eq_Inr)
  have "scanned (x # s) (l, c) s (l, c + 1)" using scanned_Cons [of x s l c] \<open>x \<noteq> 10\<close> by simp
  from scanned_trans [OF this stringBody_scanned [OF sb(1)]] sb(2) show ?thesis by (simp add: roundOk_def)
next
  assume "bindr (lexNumber (x # s) l c) (\<lambda>(v, n). Inr (Some (tokenAt (QNum v) l c), drop n (x # s), l, c + n)) = Inr r"
  then obtain v n where "lexNumber (x # s) l c = Inr (v, n)" "r = (Some (tokenAt (QNum v) l c), drop n (x # s), l, c + n)"
    by (auto simp: bindr_eq_Inr)
  with lexNumber_scanned show ?thesis by (simp add: roundOk_def)
next
  assume "(let w = takeWhile isIdentPart (x # s) in
    Inr (Some (tokenAt (QIdent w) l c), dropWhile isIdentPart (x # s), l, c + length w)) = Inr r"
  moreover have "isIdentPart y \<Longrightarrow> y \<noteq> 10" for y by (auto simp: isIdentPart_def isPathStart_def is_alpha_def is_digit_def)
  ultimately show ?thesis using takeWhile_scanned [of isIdentPart "x # s" l c]
    by (auto simp: roundOk_def Let_def simp del: dropWhile.simps takeWhile.simps)
next
  assume "x \<noteq> 10" "Inr (Some (tokenAt (QPunct x) l c), s, l, c + 1) = Inr r"
  with scanned_Cons [of x s l c] show ?thesis by (auto simp: roundOk_def)
qed simp

lemma lexRound_placed:
  assumes "lexRound x s l c = Inl e"
  shows "placed (places (x # s) (l, c)) e"
  using assms unfolding lexRound_def
proof (elim if_cases)
  assume "lexComment (x # s) l c = Inl e"
  then show ?thesis by (auto simp: lexComment_def split: option.splits)
next
  assume "x \<noteq> 10" "bindr (stringBody x l c s (c + 1)) (\<lambda>(v, s', c'). Inr (Some (tokenAt (QStr v) l c), s', l, c')) = Inl e"
  then have sb: "stringBody x l c s (c + 1) = Inl e" by (auto simp: bindr_eq_Inl)
  have "scanned (x # s) (l, c) s (l, c + 1)" using scanned_Cons [of x s l c] \<open>x \<noteq> 10\<close> by simp
  from scanned_places [OF this] stringBody_placed [OF sb] show ?thesis by (auto intro: placed_mono)
next
  assume "bindr (lexNumber (x # s) l c) (\<lambda>(v, n). Inr (Some (tokenAt (QNum v) l c), drop n (x # s), l, c + n)) = Inl e"
  then show ?thesis by (auto simp: bindr_eq_Inl lexNumber_placed)
next
  assume "Inl (refuse (x # s) l c) = Inl e"
  then show ?thesis by (auto simp: refuse_def split: if_splits)
qed (simp_all add: Let_def)

text \<open>The tokens of a text lie in it and end with the only token that ends the input.\<close>

definition tokensIn :: "(nat \<times> nat) set \<Rightarrow> JToken list \<Rightarrow> bool" where
  "tokensIn P ts \<longleftrightarrow> ts \<noteq> [] \<and> jt_tok (last ts) = QEof \<and> list_all (tokenPlaced P) ts"

lemma tokensIn_mono: "tokensIn P ts \<Longrightarrow> P \<subseteq> Q \<Longrightarrow> tokensIn Q ts"
  by (auto simp: tokensIn_def list_all_iff tokenPlaced_def)

lemma lexLoop_placed:
  "case lexLoop s l c of Inl e \<Rightarrow> placed (places s (l, c)) e | Inr ts \<Rightarrow> tokensIn (places s (l, c)) ts"
proof (induction s l c rule: lexLoop.induct)
  case (1 l c)
  then show ?case by (simp add: tokensIn_def) (simp add: tokenAt_def)
next
  case (2 x s l c)
  show ?case
  proof (cases "lexRound x s l c")
    case (Inl e)
    with lexRound_placed show ?thesis by simp
  next
    case (Inr r)
    obtain t s' l' c' where r: "r = (t, s', l', c')" by (cases r) auto
    from lexRound_scanned [OF Inr]
    have sc: "scanned (x # s) (l, c) s' (l', c')" and t: "\<forall>u. t = Some u \<longrightarrow> tokenPlaced {(l, c)} u"
      by (auto simp: roundOk_def r)
    from scanned_places [OF sc] have sub: "places s' (l', c') \<subseteq> places (x # s) (l, c)" .
    have IH: "case lexLoop s' l' c' of Inl e \<Rightarrow> placed (places s' (l', c')) e | Inr ts \<Rightarrow> tokensIn (places s' (l', c')) ts"
      using "2.IH" Inr r by blast
    show ?thesis
    proof (cases "lexLoop s' l' c'")
      case (Inl e)
      with IH sub \<open>lexRound x s l c = Inr r\<close> r show ?thesis by (auto intro: placed_mono)
    next
      case (Inr ts)
      with IH sub have ts: "tokensIn (places (x # s) (l, c)) ts" by (auto intro: tokensIn_mono)
      have "tokensIn (places (x # s) (l, c)) (case t of None \<Rightarrow> ts | Some u \<Rightarrow> u # ts)"
        using ts t by (auto simp: tokensIn_def tokenPlaced_def split: option.splits)
      with Inr \<open>lexRound x s l c = Inr r\<close> r show ?thesis by simp
    qed
  qed
qed

section \<open>The judgement\<close>

text \<open>
  A parser's result within the positions \<open>P\<close>: it is there, an error lies in \<open>P\<close>, a value satisfies \<open>Q\<close>
  and leaves at most \<open>k\<close> of the tokens of \<open>P\<close>.
\<close>

definition yields :: "(nat \<times> nat) set \<Rightarrow> nat \<Rightarrow> ('a \<Rightarrow> bool) \<Rightarrow> 'a parsing \<Rightarrow> bool" where
  "yields P k Q r \<longleftrightarrow>
     (case r of None \<Rightarrow> False
      | Some (Inl e) \<Rightarrow> placed P e
      | Some (Inr (v, us)) \<Rightarrow> Q v \<and> tokensIn P us \<and> length us \<le> k)"

lemma yields_ok [simp]: "yields P k Q (okP v us) \<longleftrightarrow> Q v \<and> tokensIn P us \<and> length us \<le> k"
  by (simp add: yields_def)

lemma yields_fail [simp]: "yields P k Q (failAt m t) \<longleftrightarrow> tokenPlaced P t"
  by (simp add: yields_def failAt_def tokenPlaced_def)

lemma yields_bind:
  assumes "yields P k Q m" "\<And>v us. Q v \<Longrightarrow> tokensIn P us \<Longrightarrow> length us \<le> k \<Longrightarrow> yields P k' R (f v us)"
  shows "yields P k' R (bindP m f)"
proof (cases m)
  case (Some r)
  with assms show ?thesis
    by (cases r) (auto simp: yields_def bindP_def)
qed (use assms in \<open>simp add: yields_def\<close>)

lemma yields_mono: "yields P k Q r \<Longrightarrow> k \<le> k' \<Longrightarrow> (\<And>v. Q v \<Longrightarrow> R v) \<Longrightarrow> yields P k' R r"
  by (auto simp: yields_def split: option.splits sum.splits)

lemma peek_placed [simp]: "tokensIn P ts \<Longrightarrow> tokenPlaced P (peekT ts)"
  by (cases ts) (auto simp: tokensIn_def peekT_def)

lemma next_in [simp]: "tokensIn P ts \<Longrightarrow> tokensIn P (nextT ts)"
  by (cases ts) (auto simp: tokensIn_def peekT_def nextT_def split: if_splits)

lemma next_length [simp]: "length (nextT ts) \<le> length ts"
  by (simp add: nextT_def)

lemma next_le: "length ts \<le> k \<Longrightarrow> length (nextT ts) \<le> k"
  using next_length [of ts] by linarith

lemma next_shorter: "jt_tok (peekT ts) \<noteq> QEof \<Longrightarrow> length ts \<le> Suc k \<Longrightarrow> length (nextT ts) \<le> k"
  by (cases ts) (auto simp: peekT_def nextT_def tokenAt_def)

lemma yields_expect:
  "tokensIn P ts \<Longrightarrow> length ts \<le> Suc k \<Longrightarrow> yields P k (\<lambda>_. True) (expectPunct c context ts)"
  using next_shorter [of ts k] by (auto simp: expectPunct_def Let_def isPunctT_def)

lemma yields_delegate:
  assumes "ownError r" "tokenPlaced P t" "tokensIn P ts" "length ts \<le> k" "\<And>v. r = Inr v \<Longrightarrow> Q v"
  shows "yields P k Q (delegate r t ts)"
proof (cases r)
  case (Inl e)
  with assms(1,2) show ?thesis by (cases e) (auto simp: delegate_def ownError_def)
qed (use assms in \<open>simp add: delegate_def\<close>)

section \<open>Literals\<close>

definition valueParser :: "(nat \<times> nat) set \<Rightarrow> nat \<Rightarrow> (JToken list \<Rightarrow> jsval parsing) \<Rightarrow> bool" where
  "valueParser P n pv \<longleftrightarrow> (\<forall>ts. tokensIn P ts \<longrightarrow> length ts < n \<longrightarrow> yields P (length ts) (\<lambda>_. True) (pv ts))"

abbreviation isObject :: "jsval \<Rightarrow> bool" where
  "isObject v \<equiv> \<exists>es. v = VObj es"

lemma valueParserD: "valueParser P n pv \<Longrightarrow> tokensIn P ts \<Longrightarrow> length ts < n \<Longrightarrow> length ts \<le> k \<Longrightarrow> yields P k (\<lambda>_. True) (pv ts)"
  unfolding valueParser_def by (blast intro: yields_mono)

lemma yields_expected [simp]: "yields P k Q (expected c what t) \<longleftrightarrow> tokenPlaced P t"
  by (simp add: expected_def)

lemma objectMember_yields:
  assumes pv: "valueParser P n pv" and ts: "tokensIn P ts" "length ts \<le> Suc k" "k < n"
  shows "yields P k (\<lambda>_. True) (objectMember pv obj ts)"
proof (cases "keyOf (peekT ts)")
  case None
  with ts show ?thesis by (simp add: objectMember_def Let_def)
next
  case (Some key)
  then have "jt_tok (peekT ts) \<noteq> QEof" by (auto simp: keyOf_def split: JTok.splits)
  with ts have n: "tokensIn P (nextT ts)" "length (nextT ts) \<le> Suc k" by (auto intro: next_shorter le_SucI)
  have "yields P k (\<lambda>_. True) (bindP (expectPunct CHR '':'' ctx (nextT ts)) (\<lambda>_ us. bindP (pv us) (\<lambda>v vs. okP (key, v) vs)))" for ctx
    by (rule yields_bind [OF yields_expect [OF n]], rule yields_bind [OF valueParserD [OF pv]]) (use ts(3) in auto)
  with Some ts show ?thesis by (simp add: objectMember_def Let_def)
qed

lemma objectLoop_yields:
  "valueParser P n0 pv \<Longrightarrow> tokensIn P ts \<Longrightarrow> length ts \<le> k \<Longrightarrow> length ts < n \<Longrightarrow> length ts \<le> n0 \<Longrightarrow>
     yields P k isObject (objectLoop n pv obj ts)"
proof (induction n arbitrary: obj ts k)
  case (Suc n)
  have ne: "ts \<noteq> []" using Suc.prems(2) by (simp add: tokensIn_def)
  then obtain j where j: "length ts = Suc j" by (cases ts) auto
  have m: "yields P j (\<lambda>_. True) (objectMember pv obj ts)"
    using Suc.prems j by (intro objectMember_yields [where n = n0]) auto
  show ?case
    unfolding objectLoop.simps
  proof (rule yields_bind [OF m])
    fix e us
    assume us: "tokensIn P us" "length us \<le> j"
    let ?vs = "nextT us"
    have vs: "tokensIn P ?vs" "length ?vs \<le> j" "tokensIn P (nextT ?vs)" "length (nextT ?vs) \<le> j"
      using us next_le [of us j] next_le [of ?vs j] by simp_all
    have "yields P k isObject (objectLoop n pv (obj @ [e]) ?vs)"
      using Suc.prems j vs by (intro Suc.IH) auto
    with vs us Suc.prems(3) j show "yields P k isObject
      (let t = peekT us; vs = nextT us; obj' = obj @ [e] in
       if isPunctT t CHR '','' then
         (if isPunctT (peekT vs) CHR ''}'' then okP (VObj (enumerated obj')) (nextT vs) else objectLoop n pv obj' vs)
       else if isPunctT t CHR ''}'' then okP (VObj (enumerated obj')) vs
       else expected CHR ''}'' (js ''object'') t)"
      by (simp add: Let_def)
  qed
qed simp

lemma parseObjectLiteral_yields:
  assumes "valueParser P n0 pv" "tokensIn P ts" "length ts \<le> k" "length ts \<le> n" "length ts \<le> n0"
  shows "yields P k isObject (parseObjectLiteral n pv ts)"
proof -
  obtain j where j: "length ts = Suc j" using assms(2) by (cases ts) (auto simp: tokensIn_def)
  show ?thesis
    unfolding parseObjectLiteral_def
  proof (rule yields_bind [OF yields_expect [OF assms(2), of j]])
    fix us
    assume us: "tokensIn P us" "length us \<le> j"
    then have "yields P k isObject (objectLoop n pv [] us)"
      using assms j by (intro objectLoop_yields [OF assms(1)]) auto
    with us assms j next_le [of us k] show "yields P k isObject
      (if isPunctT (peekT us) CHR ''}'' then okP (VObj []) (nextT us) else objectLoop n pv [] us)" by simp
  qed (use j in simp)
qed

lemma arrayLoop_yields:
  "valueParser P n0 pv \<Longrightarrow> tokensIn P ts \<Longrightarrow> length ts \<le> k \<Longrightarrow> length ts < n \<Longrightarrow> length ts < n0 \<Longrightarrow>
     yields P k (\<lambda>_. True) (arrayLoop n pv vs ts)"
proof (induction n arbitrary: vs ts k)
  case (Suc n)
  show ?case
    unfolding arrayLoop.simps
  proof (rule yields_bind [OF valueParserD [OF Suc.prems(1,2,5)]])
    fix v us
    assume us: "tokensIn P us" "length us \<le> length ts"
    let ?ws = "nextT us"
    have ws: "tokensIn P ?ws" "tokensIn P (nextT ?ws)" "length (nextT ?ws) \<le> k" "length ?ws \<le> k"
      using us Suc.prems(3) next_le [of us k] next_le [of ?ws k] by simp_all
    have rec: "yields P k (\<lambda>_. True) (arrayLoop n pv (vs @ [v]) ?ws)" if "isPunctT (peekT us) CHR '',''"
    proof -
      obtain j where j: "length ts = Suc j" using Suc.prems(2) by (cases ts) (auto simp: tokensIn_def)
      have "length ?ws \<le> j" using that us j by (intro next_shorter) (auto simp: isPunctT_def)
      with j Suc.prems ws show ?thesis by (intro Suc.IH) auto
    qed
    from rec ws us show "yields P k (\<lambda>_. True)
      (let t = peekT us; ws = nextT us; vs' = vs @ [v] in
       if isPunctT t CHR '','' then
         (if isPunctT (peekT ws) CHR '']'' then okP (VArr vs') (nextT ws) else arrayLoop n pv vs' ws)
       else if isPunctT t CHR '']'' then okP (VArr vs') ws
       else expected CHR '']'' (js ''array'') t)"
      by (simp add: Let_def)
  qed (use Suc.prems in simp)
qed simp

lemma parseArrayLiteral_yields:
  assumes "valueParser P n0 pv" "tokensIn P ts" "length ts \<le> k" "length ts \<le> n" "length ts \<le> n0"
  shows "yields P k (\<lambda>_. True) (parseArrayLiteral n pv ts)"
proof -
  obtain j where j: "length ts = Suc j" using assms(2) by (cases ts) (auto simp: tokensIn_def)
  show ?thesis
    unfolding parseArrayLiteral_def
  proof (rule yields_bind [OF yields_expect [OF assms(2), of j]])
    fix us
    assume us: "tokensIn P us" "length us \<le> j"
    then have "yields P k (\<lambda>_. True) (arrayLoop n pv [] us)"
      using assms j by (intro arrayLoop_yields [OF assms(1)]) auto
    with us assms j next_le [of us k] show "yields P k (\<lambda>_. True)
      (if isPunctT (peekT us) CHR '']'' then okP (VArr []) (nextT us) else arrayLoop n pv [] us)" by simp
  qed (use j in simp)
qed

lemma parseValue_yields: "depth \<le> 33 \<Longrightarrow> 34 \<le> depth + d \<Longrightarrow> valueParser P n (parseValue d n depth)"
proof (induction d arbitrary: depth)
  case (Suc d)
  show ?case
    unfolding valueParser_def
  proof (intro allI impI)
    fix ts
    assume ts: "tokensIn P ts" "length ts < n"
    have sub: "valueParser P n (parseValue d n (depth + 1))" if "\<not> MAX_NESTING < depth"
      using that Suc by (auto simp: MAX_NESTING_def)
    have obj: "yields P (length ts) (\<lambda>_. True) (parseObjectLiteral n (parseValue d n (depth + 1)) ts)"
      if "\<not> MAX_NESTING < depth"
      by (rule yields_mono [OF parseObjectLiteral_yields [OF sub [OF that] ts(1) order_refl]]) (use ts in auto)
    have arr: "yields P (length ts) (\<lambda>_. True) (parseArrayLiteral n (parseValue d n (depth + 1)) ts)"
      if "\<not> MAX_NESTING < depth"
      by (rule parseArrayLiteral_yields [OF sub [OF that] ts(1) order_refl]) (use ts in auto)
    from ts obj arr show "yields P (length ts) (\<lambda>_. True) (parseValue (Suc d) n depth ts)"
      by (cases "jt_tok (peekT ts)") (auto simp: Let_def split: option.splits)
  qed
qed simp

lemma argumentLiteral_yields:
  "tokensIn P ts \<Longrightarrow> length ts \<le> k \<Longrightarrow> length ts \<le> n \<Longrightarrow> yields P k isObject (argumentLiteral n ts)"
  unfolding argumentLiteral_def
  by (rule parseObjectLiteral_yields [OF parseValue_yields]) (auto simp: MAX_NESTING_def)

section \<open>Methods\<close>

definition wfSelect :: "PathRef \<Rightarrow> bool" where
  "wfSelect ref \<longleftrightarrow> safePath (pr_path ref) \<and> pr_isArrayPath ref = hasBrackets (pr_path ref)"

definition wfCount :: "rat option \<Rightarrow> bool" where
  "wfCount n \<longleftrightarrow> (case n of None \<Rightarrow> True | Some v \<Rightarrow> isInteger v \<and> 0 \<le> v)"

definition wfFilterOption :: "(jstr \<Rightarrow> bool) \<Rightarrow> Filter option \<Rightarrow> bool" where
  "wfFilterOption rx f \<longleftrightarrow> (case f of None \<Rightarrow> True | Some g \<Rightarrow> boundedFilter rx 17 g)"

definition wfSelectOption :: "PathRef list option \<Rightarrow> bool" where
  "wfSelectOption refs \<longleftrightarrow> (case refs of None \<Rightarrow> True | Some rs \<Rightarrow> rs \<noteq> [] \<and> list_all wfSelect rs)"

definition wfChain :: "(jstr \<Rightarrow> bool) \<Rightarrow> ChainState \<Rightarrow> bool" where
  "wfChain rx st \<longleftrightarrow>
     wfFilterOption rx (cs_filter st) \<and> length (cs_sort st) \<le> 5 \<and> list_all wfSort (cs_sort st) \<and>
     wfCount (cs_limit st) \<and> wfCount (cs_offset st) \<and> wfSelectOption (cs_select st)"

lemma wfFilterOption_compiled: "compileFilterObject rx obj ctx = Inr f \<Longrightarrow> wfFilterOption rx f"
  using compile_wf(1) [of rx obj 1 ctx]
  by (auto simp: compileFilterObject_def wfFilterOption_def bindr_eq_Inr boundedFilter_def split: if_splits)

text \<open>Steps that keep the bound.\<close>

lemma bind_expect:
  assumes "tokensIn P ts" "length ts \<le> k" "\<And>us. tokensIn P us \<Longrightarrow> length us \<le> k \<Longrightarrow> yields P k R (f () us)"
  shows "yields P k R (bindP (expectPunct c context ts) f)"
  by (rule yields_bind [OF yields_expect [of P ts k]]) (use assms in auto)

lemma bind_argument:
  assumes "tokensIn P ts" "length ts \<le> k" "k \<le> n" "\<And>es us. tokensIn P us \<Longrightarrow> length us \<le> k \<Longrightarrow> yields P k R (f (VObj es) us)"
  shows "yields P k R (bindP (argumentLiteral n ts) f)"
  by (rule yields_bind [OF argumentLiteral_yields [of P ts k n]]) (use assms in auto)

lemma bind_delegate:
  assumes "ownError r" "tokenPlaced P t" "tokensIn P ts" "length ts \<le> k" "\<And>v. r = Inr v \<Longrightarrow> yields P k R (f v ts)"
  shows "yields P k R (bindP (delegate r t ts) f)"
proof (cases r)
  case (Inl e)
  with assms(1,2) show ?thesis by (cases e) (auto simp: delegate_def ownError_def bindP_def failAt_def yields_def tokenPlaced_def)
qed (use assms in \<open>simp add: delegate_def bindP_def\<close>)

lemma bind_ok [simp]: "bindP (okP v us) f = f v us"
  by (simp add: bindP_def)

lemma bind_fail [simp]: "bindP (failAt m t) f = failAt m t"
  by (simp add: bindP_def failAt_def)

lemma bind_assoc: "bindP (bindP m f) g = bindP m (\<lambda>v us. bindP (f v us) g)"
  by (auto simp: bindP_def split: option.splits sum.splits)

lemma next_le' [simp]: "length ts \<le> k \<Longrightarrow> length (nextT ts) \<le> k"
  by (rule next_le)

lemmas parser_steps = bind_expect bind_argument bind_delegate

lemma parseFind_yields:
  assumes "wfChain rx st" "tokensIn P ts" "length ts \<le> k" "k \<le> n" "tokenPlaced P t"
  shows "yields P k (wfChain rx) (parseFind rx n name t st ts)"
  using assms unfolding parseFind_def findArgument_def Let_def
  by (auto intro!: parser_steps compileFilterObject_own dest!: wfFilterOption_compiled simp: bind_assoc wfChain_def
      simp del: js_Cons)

lemma sortClauses_yields:
  assumes "tokensIn P ts" "length ts \<le> k" "k \<le> n"
  shows "yields P k (list_all wfSort) (sortClauses n ts)"
  using assms compileSortObject_wf unfolding sortClauses_def Let_def
  by (auto intro!: parser_steps yields_delegate split: JTok.splits)

lemma parseSort_yields:
  assumes "wfChain rx st" "tokensIn P ts" "length ts \<le> k" "k \<le> n" "tokenPlaced P t"
  shows "yields P k (wfChain rx) (parseSort n t st ts)"
  unfolding parseSort_def
proof (rule bind_expect [OF assms(2,3)])
  fix us
  assume "tokensIn P us" "length us \<le> k"
  from sortClauses_yields [OF this assms(4)]
  show "yields P k (wfChain rx) (bindP (sortClauses n us) (\<lambda>clauses vs.
     bindP (expectPunct CHR '')'' (js ''to close sort(...)'') vs) (\<lambda>_ ws.
       if length (cs_sort st @ clauses) > MAX_TOTAL_SORT_FIELDS
       then failAt (js ''sort supports at most '' @ show_nat MAX_TOTAL_SORT_FIELDS @ js '' fields in total across all sort() calls'') t
       else okP (st\<lparr>cs_sort := cs_sort st @ clauses\<rparr>) ws)))"
    by (rule yields_bind) (use assms in \<open>auto intro!: parser_steps simp: wfChain_def MAX_TOTAL_SORT_FIELDS_def\<close>)
qed

lemma parseLimitOrSkip_yields:
  assumes "wfChain rx st" "tokensIn P ts" "length ts \<le> k" "tokenPlaced P t"
  shows "yields P k (wfChain rx) (parseLimitOrSkip name t st ts)"
  using assms unfolding parseLimitOrSkip_def Let_def
  by (auto intro!: parser_steps simp: wfChain_def wfCount_def simp del: js_Cons split: JTok.splits)

lemma selectEntry_ok:
  "ownError (selectEntry e)" "selectEntry e = Inr ref \<Longrightarrow> wfSelect ref"
  by (auto simp: selectEntry_def bindr_eq_Inr assertSafePath_iff wfSelect_def intro!: ownError_bindr split: if_splits)

lemma selectEntries_ok: "mapr selectEntry es = Inr refs \<Longrightarrow> es \<noteq> [] \<Longrightarrow> wfSelectOption (Some refs)"
  using mapr_Nil_iff [of selectEntry es refs] mapr_list_all [of selectEntry es refs wfSelect] selectEntry_ok(2)
  by (simp add: wfSelectOption_def)

lemma parseSelectCall_yields:
  assumes "wfChain rx st" "tokensIn P ts" "length ts \<le> k" "k \<le> n" "tokenPlaced P t"
  shows "yields P k (wfChain rx) (parseSelectCall n t st ts)"
  using assms selectEntries_ok selectEntry_ok(1) unfolding parseSelectCall_def Let_def
  by (auto intro!: parser_steps ownError_mapr simp: wfChain_def simp del: js_Cons)

lemma parseCount_yields:
  assumes "wfChain rx st" "tokensIn P ts" "length ts \<le> k" "tokenPlaced P t"
  shows "yields P k (wfChain rx) (parseCount t st ts)"
  using assms unfolding parseCount_def Let_def
  by (auto intro!: parser_steps simp: wfChain_def simp del: js_Cons)

lemma parseMethod_yields:
  assumes "wfChain rx st" "tokensIn P ts" "length ts \<le> k" "k \<le> n"
  shows "yields P k (wfChain rx) (parseMethod rx n st ts)"
  using assms parseFind_yields parseSort_yields parseLimitOrSkip_yields parseSelectCall_yields parseCount_yields
  unfolding parseMethod_def Let_def
  by (auto simp del: js_Cons split: JTok.splits)

lemma methodLoop_yields:
  "wfChain rx st \<Longrightarrow> tokensIn P ts \<Longrightarrow> length ts \<le> k \<Longrightarrow> length ts \<le> m \<Longrightarrow> k \<le> n \<Longrightarrow>
     yields P k (wfChain rx) (methodLoop m rx n st ts)"
proof (induction m arbitrary: st ts k)
  case 0
  then show ?case by (simp add: tokensIn_def)
next
  case (Suc m)
  show ?case
  proof (cases "isPunctT (peekT ts) CHR ''.''")
    case True
    obtain j where j: "length ts = Suc j" using Suc.prems(2) by (cases ts) (auto simp: tokensIn_def)
    with True have n: "length (nextT ts) \<le> j" by (intro next_shorter) (auto simp: isPunctT_def)
    have "yields P j (wfChain rx) (parseMethod rx n st (nextT ts))"
      using Suc.prems j n by (intro parseMethod_yields) auto
    then have "yields P k (wfChain rx) (bindP (parseMethod rx n st (nextT ts)) (methodLoop m rx n))"
      by (rule yields_bind) (use Suc.prems j in \<open>auto intro!: Suc.IH\<close>)
    with True show ?thesis by simp
  qed (use Suc.prems in simp)
qed

definition wfEntity :: "jstr \<Rightarrow> bool" where
  "wfEntity e \<longleftrightarrow> isPlainName e \<and> length e \<le> 128"

lemma parseRoot_yields:
  assumes "tokensIn P ts" "length ts \<le> k"
  shows "yields P k wfEntity (parseRoot ts)"
  using assms unfolding parseRoot_def checkEntity_def Let_def
  by (auto intro!: parser_steps simp: wfEntity_def MAX_ENTITY_NAME_LENGTH_def simp del: js_Cons split: JTok.splits)

section \<open>What a parsed query is\<close>

definition wfQuery :: "(jstr \<Rightarrow> bool) \<Rightarrow> ParsedJsQuery \<Rightarrow> bool" where
  "wfQuery rx p \<longleftrightarrow>
     (let q = pj_query p in
      eq_entity q = pj_entity p \<and> isPlainName (pj_entity p) \<and> length (pj_entity p) \<le> 128 \<and>
      (case eq_filter q of None \<Rightarrow> True | Some f \<Rightarrow> wfFilter rx f \<and> filterHeight f \<le> 17) \<and>
      (case eq_sort q of None \<Rightarrow> True | Some cs \<Rightarrow> cs \<noteq> [] \<and> length cs \<le> 5 \<and> list_all wfSort cs) \<and>
      list_all (\<lambda>n. case n of None \<Rightarrow> True | Some v \<Rightarrow> isInteger v \<and> 0 \<le> v) [eq_limit q, eq_offset q] \<and>
      (case eq_select q of None \<Rightarrow> True | Some rs \<Rightarrow> rs \<noteq> [] \<and> list_all wfSelect rs) \<and>
      (pj_action p = CountAction \<longrightarrow> eq_sort q = None \<and> eq_limit q = None \<and> eq_offset q = None \<and> eq_select q = None))"

lemma buildResult_wf: "wfEntity e \<Longrightarrow> wfChain rx st \<Longrightarrow> wfQuery rx (buildResult e st)"
  by (auto simp: buildResult_def wfQuery_def wfEntity_def wfChain_def wfFilterOption_def wfSelectOption_def wfCount_def
      boundedFilter_def Let_def split: option.splits)

lemma emptyChain_wf: "wfChain rx emptyChain"
  by (simp add: emptyChain_def wfChain_def wfFilterOption_def wfSelectOption_def wfCount_def)

lemma parseTokens_outcome:
  assumes "tokensIn P ts"
  shows "case parseTokens rx (length ts + 1) ts of
    None \<Rightarrow> False | Some (Inl e) \<Rightarrow> placed P e | Some (Inr q) \<Rightarrow> wfQuery rx q"
proof -
  let ?k = "length ts"
  define r where "r = bindP (parseRoot ts) (\<lambda>entity us.
        bindP (methodLoop (?k + 1) rx (?k + 1) emptyChain us) (\<lambda>st vs.
          let ws = (if isPunctT (peekT vs) CHR '';'' then nextT vs else vs) in
          if jt_tok (peekT ws) \<noteq> QEof
          then failAt (js ''unexpected '' @ labelOfToken (peekT ws) @ js '' after the query '' @ [8212] @ js '' expected end of input'') (peekT ws)
          else okP (buildResult entity st) ws))"
  have "yields P ?k (wfQuery rx) r"
    unfolding r_def
  proof (rule yields_bind [OF parseRoot_yields [OF assms order_refl]])
    fix entity us
    assume us: "wfEntity entity" "tokensIn P us" "length us \<le> ?k"
    have "yields P ?k (wfChain rx) (methodLoop (?k + 1) rx (?k + 1) emptyChain us)"
      using us emptyChain_wf by (intro methodLoop_yields) auto
    then show "yields P ?k (wfQuery rx) (bindP (methodLoop (?k + 1) rx (?k + 1) emptyChain us) (\<lambda>st vs.
          let ws = (if isPunctT (peekT vs) CHR '';'' then nextT vs else vs) in
          if jt_tok (peekT ws) \<noteq> QEof
          then failAt (js ''unexpected '' @ labelOfToken (peekT ws) @ js '' after the query '' @ [8212] @ js '' expected end of input'') (peekT ws)
          else okP (buildResult entity st) ws))"
      by (rule yields_bind) (use us buildResult_wf in \<open>auto simp: Let_def simp del: js_Cons\<close>)
  qed
  then show ?thesis
    unfolding parseTokens_def r_def [symmetric] by (auto simp: yields_def split: option.splits sum.splits)
qed

lemma parseJsQuery_outcome:
  "case parseJsQuery rx source of
     None \<Rightarrow> False | Some (Inl e) \<Rightarrow> placed (places source (1, 1)) e | Some (Inr q) \<Rightarrow> wfQuery rx q"
  using lexLoop_placed [of source 1 1] parseTokens_outcome [of "places source (1, 1)" _ rx]
  by (auto simp: parseJsQuery_def tokenizeQuery_def split: sum.splits)

section \<open>Evaluation\<close>

text \<open>Rules to run the parser on concrete tokens: a step is evaluated before what follows it.\<close>

lemma bindP_weak: "m = m' \<Longrightarrow> bindP m f = bindP m' f"
  by simp

lemma bindr_weak: "m = m' \<Longrightarrow> bindr m f = bindr m' f"
  by simp

lemma map_option_weak: "m = m' \<Longrightarrow> map_option f m = map_option f m'"
  by simp

lemma bind_Inl [simp]: "bindP (Some (Inl e)) f = Some (Inl e)"
  by (simp add: bindP_def)

lemmas loop_numerals =
  objectLoop.simps(2) [of "pred_numeral k" for k, folded numeral_eq_Suc]
  arrayLoop.simps(2) [of "pred_numeral k" for k, folded numeral_eq_Suc]
  parseValue.simps(2) [of "pred_numeral k" for k, folded numeral_eq_Suc]
  methodLoop.simps(2) [of "pred_numeral k" for k, folded numeral_eq_Suc]

lemmas run_parser =
  loop_numerals MAX_SOURCE_LENGTH_def parseTokens_def parseRoot_def Let_def peekT_def nextT_def tokenAt_def
  expectPunct_def isPunctT_def failAt_def checkEntity_def MAX_ENTITY_NAME_LENGTH_def isPlainName_def is_alpha_def
  is_digit_def parseMethod_def parseFind_def findArgument_def argumentLiteral_def parseObjectLiteral_def
  objectMember_def keyOf_def FORBIDDEN_KEYS_def MAX_NESTING_def enumerated_def isIndexKey_def delegate_def
  parseSort_def sortClauses_def emptyChain_def buildResult_def MAX_TOTAL_SORT_FIELDS_def

section \<open>The theorems\<close>

text \<open>
  C40.  Parsing terminates: on every text the fuel handed to the parser's loops, one more than the
  number of tokens, and to the nesting, the limit of 32 levels, is enough, so there is always a
  query or an error.
\<close>

theorem parser_always_answers: "parseJsQuery rx source \<noteq> None"
  using parseJsQuery_outcome [where rx = rx and source = source] by (auto split: option.splits)

text \<open>
  Every refusal is a parse error that names a position of the text: the line and column that
  reading the text up to some offset leads to, which its message repeats.
\<close>

theorem parse_errors_point_into_the_text:
  assumes "parseJsQuery rx source = Some (Inl e)"
  shows "\<exists>m i l c. i \<le> length source \<and>
    foldl (\<lambda>(l, c) x. if x = 10 then (l + 1, 1) else (l, c + 1)) (1, 1) (take i source) = (l, c) \<and>
    e = JsQueryParseError (m @ js '' (line '' @ show_nat l @ js '', col '' @ show_nat c @ js '')'') l c"
proof -
  from parseJsQuery_outcome [where rx = rx and source = source] assms have "placed (places source (1, 1)) e" by simp
  then obtain m l c i where "e = jsError m l c" "i \<le> length source" "(l, c) = advance (take i source) (1, 1)"
    by (auto simp: placed_def places_def)
  then show ?thesis by (metis advance_def jsError_def)
qed

lemma sample_error_tokens:
  "tokenizeQuery (js ''db.('') =
     Inr [tokenAt (QIdent (js ''db'')) 1 1, tokenAt (QPunct 46) 1 3, tokenAt (QPunct 40) 1 4, tokenAt QEof 1 5]"
  by code_simp

theorem parse_errors_point_into_the_text_witness:
  "\<exists>m i l c. i \<le> length (js ''db.('') \<and>
    foldl (\<lambda>(l, c) x. if x = 10 then (l + 1, 1) else (l, c + 1)) (1, 1) (take i (js ''db.('')) = (l, c) \<and>
    jsError (js ''expected a collection name after '' @ dq (js ''db.'') @ js '', e.g. db.orders'') 1 4 =
      JsQueryParseError (m @ js '' (line '' @ show_nat l @ js '', col '' @ show_nat c @ js '')'') l c"
proof (rule parse_errors_point_into_the_text)
  show "parseJsQuery (\<lambda>s. True) (js ''db.('') =
    Some (Inl (jsError (js ''expected a collection name after '' @ dq (js ''db.'') @ js '', e.g. db.orders'') 1 4))"
    unfolding parseJsQuery_def sample_error_tokens
    by (simp add: run_parser cong: let_weak_cong bindP_weak bindr_weak map_option_weak)
qed

text \<open>
  A parsed query is well formed: its entity is a plain name of at most 128 units, its filter is
  well formed and at most 17 levels high, it sorts by at most five safe paths and selects safe paths,
  its limit and offset are non-negative integers, and a count carries nothing but the filter.
\<close>

theorem parsed_js_query_is_well_formed:
  assumes "parseJsQuery rx source = Some (Inr q)"
  shows "wfQuery rx q"
  using parseJsQuery_outcome [where rx = rx and source = source] assms by simp

definition sampleQuery :: ParsedJsQuery where
  "sampleQuery =
     \<lparr>pj_entity = js ''orders'', pj_action = FindAction,
      pj_query = \<lparr>eq_entity = js ''orders'',
        eq_filter = Some (FieldF \<lparr>pr_path = js ''name'', pr_isArrayPath = False\<rparr> FLike (VStr (js ''a%''))),
        eq_sort = Some [\<lparr>sc_path = \<lparr>pr_path = js ''age'', pr_isArrayPath = False\<rparr>, sc_desc = True\<rparr>],
        eq_limit = None, eq_offset = None, eq_select = None\<rparr>\<rparr>"

definition sampleText :: jstr where
  "sampleText = js ''db.orders.find({name: {$like: \"a%\"}}).sort({age: \"desc\"});''"

definition sampleTokens :: "JToken list" where
  "sampleTokens = map (\<lambda>(t, c). tokenAt t 1 c)
     [(QIdent (js ''db''), 1), (QPunct 46, 3), (QIdent (js ''orders''), 4), (QPunct 46, 10), (QIdent (js ''find''), 11),
      (QPunct 40, 15), (QPunct 123, 16), (QIdent (js ''name''), 17), (QPunct 58, 21), (QPunct 123, 23),
      (QIdent (js ''$like''), 24), (QPunct 58, 29), (QStr (js ''a%''), 31), (QPunct 125, 35), (QPunct 125, 36),
      (QPunct 41, 37), (QPunct 46, 38), (QIdent (js ''sort''), 39), (QPunct 40, 43), (QPunct 123, 44),
      (QIdent (js ''age''), 45), (QPunct 58, 48), (QStr (js ''desc''), 50), (QPunct 125, 56), (QPunct 41, 57),
      (QPunct 59, 58), (QEof, 59)]"

lemma sample_tokens: "tokenizeQuery sampleText = Inr sampleTokens"
  by code_simp

lemma sample_filter:
  "compileFilterObject (\<lambda>s. True) (VObj [(js ''name'', VObj [(js ''$like'', VStr (js ''a%''))])]) (js ''find()'') =
     Inr (Some (FieldF \<lparr>pr_path = js ''name'', pr_isArrayPath = False\<rparr> FLike (VStr (js ''a%''))))"
  by code_simp

lemma sample_sort:
  "compileSortObject (VObj [(js ''age'', VStr (js ''desc''))]) (js ''sort()'') =
     Inr [\<lparr>sc_path = \<lparr>pr_path = js ''age'', pr_isArrayPath = False\<rparr>, sc_desc = True\<rparr>]"
  by code_simp

theorem parsed_js_query_is_well_formed_witness: "wfQuery (\<lambda>s. True) sampleQuery"
proof (rule parsed_js_query_is_well_formed)
  have "length sampleText = 58" by (simp add: sampleText_def)
  then show "parseJsQuery (\<lambda>s. True) sampleText = Some (Inr sampleQuery)"
    unfolding parseJsQuery_def sample_tokens sampleTokens_def sampleQuery_def
    by (simp add: run_parser sample_filter [simplified] sample_sort [simplified]
        cong: let_weak_cong bindP_weak bindr_weak map_option_weak)
qed

end
