(* ===== verification/StorageAccess.thy ===== *)
theory StorageAccess
  imports MongoTranslate
begin

text \<open>
  The access rules of object storage, \<open>modules/storage/storage-caller.ts\<close> and
  \<open>modules/storage/storage-access.service.ts\<close>: who is asking, which rule of a project applies to a
  key, what the caller may do under it, and the narrowing of listings.

  The rows of the rule table and what the store reports about an object are arguments.  A value whose
  JavaScript type is not fixed (a claim, a metadata entry, a request field) is a value of \<open>DataFilter\<close>.
\<close>

section \<open>Errors\<close>

datatype StorageError =
    BadRequest jstr
  | Forbidden jstr
  | NotFound jstr
  | Conflict jstr
  | OffsetMismatch int
  | Gone jstr
  | PayloadTooLarge jstr
  | ServiceUnavailable jstr
  | InternalServerError jstr
  | StoreFailed jstr

section \<open>Callers\<close>

datatype StorageCaller = ServiceKey | Dashboard jstr | Authenticated jstr | Anon

record ApiKeyPayload =
  ak_role :: jstr
  ak_dbRole :: jstr
  ak_claims :: "(jstr \<times> jsval) list"

record StorageRequest =
  sr_apiKeyPayload :: "ApiKeyPayload option"
  sr_userSub :: jsval

definition storageCaller :: "StorageRequest \<Rightarrow> StorageCaller" where
  "storageCaller req =
     (case sr_apiKeyPayload req of
        Some payload \<Rightarrow>
          if ak_role payload = js ''service'' then ServiceKey
          else (case member ''sub'' (ak_claims payload) of
                  VStr sub \<Rightarrow> if ak_dbRole payload = js ''authenticated'' \<and> sub \<noteq> [] then Authenticated sub else Anon
                | _ \<Rightarrow> Anon)
      | None \<Rightarrow>
          (case sr_userSub req of
             VStr sub \<Rightarrow> if sub \<noteq> [] then Dashboard sub else Anon
           | _ \<Rightarrow> Anon))"

definition isPrivileged :: "StorageCaller \<Rightarrow> bool" where
  "isPrivileged caller = (case caller of ServiceKey \<Rightarrow> True | Dashboard _ \<Rightarrow> True | _ \<Rightarrow> False)"

definition ownerTag :: "StorageCaller \<Rightarrow> jstr option" where
  "ownerTag caller = (case caller of Authenticated sub \<Rightarrow> Some sub | Dashboard sub \<Rightarrow> Some sub | _ \<Rightarrow> None)"

definition OWNER_META_HEADER :: string where
  "OWNER_META_HEADER = ''x-amz-meta-owner''"

definition ownerMeta :: "StorageCaller \<Rightarrow> (jstr \<times> jstr) list" where
  "ownerMeta caller =
     (case ownerTag caller of
        Some owner \<Rightarrow> if owner = [] then [] else [(js OWNER_META_HEADER, owner)]
      | None \<Rightarrow> [])"

text \<open>\<open>a ?? b\<close>.\<close>

definition coalesce :: "jsval \<Rightarrow> jsval \<Rightarrow> jsval" where
  "coalesce a b = (if a = VNull \<or> a = VUndefined then b else a)"

record ObjectStat =
  os_metaData :: "(jstr \<times> jsval) list option"
  os_size :: int

definition ownerOf :: "ObjectStat option \<Rightarrow> jstr option" where
  "ownerOf stat =
     (case Option.bind stat os_metaData of
        None \<Rightarrow> None
      | Some meta \<Rightarrow>
          (case coalesce (member ''owner'' meta) (coalesce (member OWNER_META_HEADER meta) (member ''Owner'' meta)) of
             VStr value \<Rightarrow> if value \<noteq> [] then Some value else None
           | _ \<Rightarrow> None))"

section \<open>Rules\<close>

datatype StoragePolicyMode = PublicRead | AuthenticatedRead | OwnerOnly

definition STORAGE_POLICY_MODES :: "(jstr \<times> StoragePolicyMode) list" where
  "STORAGE_POLICY_MODES =
     [(js ''public-read'', PublicRead), (js ''authenticated-read'', AuthenticatedRead), (js ''owner-only'', OwnerOnly)]"

text \<open>\<open>isPolicyMode\<close>, with the mode that the text names.\<close>

definition policyMode :: "jsval \<Rightarrow> StoragePolicyMode option" where
  "policyMode v = (case v of VStr s \<Rightarrow> map_of STORAGE_POLICY_MODES s | _ \<Rightarrow> None)"

datatype AccessDecision = Allow | DenyAnon | DenyOwner

datatype AccessVerb = Read | Delete | Overwrite | Move

primrec verbName :: "AccessVerb \<Rightarrow> jstr" where
  "verbName Read = js ''read''"
| "verbName Delete = js ''delete''"
| "verbName Overwrite = js ''overwrite''"
| "verbName Move = js ''move''"

definition decide :: "StorageCaller \<Rightarrow> StoragePolicyMode option \<Rightarrow> jstr option \<Rightarrow> AccessDecision" where
  "decide caller mode ownerSub =
     (if mode = None \<or> mode = Some PublicRead then Allow
      else if isPrivileged caller then Allow
      else if mode = Some AuthenticatedRead then (case caller of Authenticated _ \<Rightarrow> Allow | _ \<Rightarrow> DenyAnon)
      else (case caller of
              Authenticated sub \<Rightarrow> if ownerSub = Some sub then Allow else DenyOwner
            | _ \<Rightarrow> DenyAnon))"

record StoragePolicy =
  sp_projectId :: jstr
  sp_bucket :: jstr
  sp_pathPrefix :: jstr
  sp_mode :: jstr

text \<open>\<open>raw.replace(/^\/+/, '')\<close>.\<close>

definition cleanKey :: "jstr \<Rightarrow> jstr" where
  "cleanKey key = dropWhile (\<lambda>c. c = 47) key"

definition hasPart :: "jstr \<Rightarrow> jstr \<Rightarrow> bool" where
  "hasPart part s \<longleftrightarrow> cut_at part s \<noteq> None"

definition normalisePrefix :: "jsval \<Rightarrow> StorageError + jstr" where
  "normalisePrefix raw =
     (let value = cleanKey (js_trim (stringOf (coalesce raw (VStr []))))
      in if hasPart (js ''..'') value \<or> 0 \<in> set value then Inl (BadRequest (js ''Invalid path prefix''))
         else Inr value)"

definition ruleMatches :: "jstr \<Rightarrow> jstr \<Rightarrow> StoragePolicy \<Rightarrow> bool" where
  "ruleMatches bucket key row \<longleftrightarrow> sp_bucket row = bucket \<and> (sp_pathPrefix row = [] \<or> starts_with (sp_pathPrefix row) key)"

definition betterRule :: "jstr \<Rightarrow> jstr \<Rightarrow> StoragePolicy option \<Rightarrow> StoragePolicy \<Rightarrow> StoragePolicy option" where
  "betterRule bucket key best row =
     (if \<not> ruleMatches bucket key row then best
      else (case best of
              None \<Rightarrow> Some row
            | Some b \<Rightarrow> if length (sp_pathPrefix row) > length (sp_pathPrefix b) then Some row else best))"

definition resolveModeFromRows :: "StoragePolicy list \<Rightarrow> jstr \<Rightarrow> jstr \<Rightarrow> StoragePolicyMode option" where
  "resolveModeFromRows rows bucket key =
     Option.bind (foldl (betterRule bucket (cleanKey key)) None rows) (\<lambda>best. policyMode (VStr (sp_mode best)))"

section \<open>The table and the cache of one instance\<close>

definition CACHE_TTL_MS :: int where
  "CACHE_TTL_MS = 30000"

definition STAT_BATCH :: nat where
  "STAT_BATCH = 25"

record CachedRules =
  cr_at :: int
  cr_rows :: "StoragePolicy list"

type_synonym rule_cache = "jstr \<Rightarrow> CachedRules option"

definition sameRule :: "jstr \<Rightarrow> jstr \<Rightarrow> jstr \<Rightarrow> StoragePolicy \<Rightarrow> bool" where
  "sameRule projectId bucket pathPrefix row \<longleftrightarrow>
     sp_projectId row = projectId \<and> sp_bucket row = bucket \<and> sp_pathPrefix row = pathPrefix"

definition setPolicy :: "jstr \<Rightarrow> jstr \<Rightarrow> jsval \<Rightarrow> jsval \<Rightarrow> StoragePolicy list \<Rightarrow> rule_cache \<Rightarrow>
    StorageError + (StoragePolicy list \<times> rule_cache)" where
  "setPolicy projectId bucket mode prefixInput table cache =
     (if policyMode mode = None
      then Inl (BadRequest (js ''mode must be one of '' @ join (js '', '') (map fst STORAGE_POLICY_MODES)))
      else bindr (normalisePrefix prefixInput) (\<lambda>pathPrefix.
        let row = \<lparr>sp_projectId = projectId, sp_bucket = bucket, sp_pathPrefix = pathPrefix, sp_mode = stringOf mode\<rparr>
        in Inr (if \<exists>r\<in>set table. sameRule projectId bucket pathPrefix r
                then map (\<lambda>r. if sameRule projectId bucket pathPrefix r then row else r) table
                else table @ [row],
              cache(projectId := None))))"

definition removePolicy :: "jstr \<Rightarrow> jstr \<Rightarrow> jsval \<Rightarrow> StoragePolicy list \<Rightarrow> rule_cache \<Rightarrow>
    StorageError + (nat \<times> StoragePolicy list \<times> rule_cache)" where
  "removePolicy projectId bucket prefixInput table cache =
     bindr (normalisePrefix prefixInput) (\<lambda>pathPrefix.
       Inr (length (filter (sameRule projectId bucket pathPrefix) table),
         filter (\<lambda>r. \<not> sameRule projectId bucket pathPrefix r) table, cache(projectId := None)))"

definition policiesFor :: "jstr \<Rightarrow> int \<Rightarrow> StoragePolicy list \<Rightarrow> rule_cache \<Rightarrow> StoragePolicy list \<times> rule_cache" where
  "policiesFor projectId now table cache =
     (case cache projectId of
        Some hit \<Rightarrow> if now - cr_at hit < CACHE_TTL_MS then (cr_rows hit, cache)
          else (let rows = filter (\<lambda>r. sp_projectId r = projectId) table
                in (rows, cache(projectId := Some \<lparr>cr_at = now, cr_rows = rows\<rparr>)))
      | None \<Rightarrow> (let rows = filter (\<lambda>r. sp_projectId r = projectId) table
                 in (rows, cache(projectId := Some \<lparr>cr_at = now, cr_rows = rows\<rparr>))))"

definition resolveMode :: "jstr \<Rightarrow> jstr \<Rightarrow> jstr \<Rightarrow> int \<Rightarrow> StoragePolicy list \<Rightarrow> rule_cache \<Rightarrow>
    StoragePolicyMode option \<times> rule_cache" where
  "resolveMode projectId bucket key now table cache =
     (case policiesFor projectId now table cache of
        (rows, cache') \<Rightarrow> (if rows = [] then None else resolveModeFromRows rows bucket key, cache'))"

section \<open>Checks\<close>

definition refuseAccess :: "AccessDecision \<Rightarrow> AccessVerb \<Rightarrow> jstr \<Rightarrow> StorageError" where
  "refuseAccess decision verb key =
     (if decision = DenyAnon
      then Forbidden (js ''This location requires a signed-in user to '' @ verbName verb @ js '' '' @ dq key @
             js ''. Send the user'' @ [39] @ js ''s access token as a Bearer token alongside the anon key.'')
      else Forbidden (js ''Only the owner of '' @ dq key @ js '' can '' @ verbName verb @ js '' it.''))"

definition assertAllowed :: "AccessVerb \<Rightarrow> StorageCaller \<Rightarrow> StoragePolicyMode option \<Rightarrow> ObjectStat option \<Rightarrow> jstr \<Rightarrow>
    StorageError + unit" where
  "assertAllowed verb caller mode stat key =
     (let decision = decide caller mode (ownerOf stat)
      in if decision = Allow then Inr () else Inl (refuseAccess decision verb key))"

definition assertCanRead :: "StorageCaller \<Rightarrow> StoragePolicyMode option \<Rightarrow> ObjectStat option \<Rightarrow> jstr \<Rightarrow> StorageError + unit" where
  "assertCanRead = assertAllowed Read"

definition assertCanDelete :: "StorageCaller \<Rightarrow> StoragePolicyMode option \<Rightarrow> ObjectStat option \<Rightarrow> jstr \<Rightarrow> StorageError + unit" where
  "assertCanDelete = assertAllowed Delete"

definition assertCanOverwrite :: "StorageCaller \<Rightarrow> StoragePolicyMode option \<Rightarrow> ObjectStat option \<Rightarrow> jstr \<Rightarrow> StorageError + unit" where
  "assertCanOverwrite caller mode existing key =
     (if mode \<noteq> Some OwnerOnly \<or> existing = None then Inr () else assertAllowed Overwrite caller mode existing key)"

text \<open>One key of \<open>assertCanModifyAll\<close>; the store's answer to a look-up is an argument and may be an error.\<close>

definition assertCanModify :: "StorageCaller \<Rightarrow> StoragePolicy list \<Rightarrow> jstr \<Rightarrow> (jstr \<Rightarrow> StorageError + ObjectStat option) \<Rightarrow>
    AccessVerb \<Rightarrow> jstr \<Rightarrow> StorageError + unit" where
  "assertCanModify caller rows bucket statFn verb raw =
     (let key = cleanKey raw; mode = resolveModeFromRows rows bucket key in
      if key = [] \<or> mode \<noteq> Some OwnerOnly then Inr ()
      else if ends_with [47] key
      then Inl (Forbidden (dq key @ js '' is a folder in an owner-only location; '' @ verbName verb @ js '' its files individually.''))
      else bindr (statFn key) (\<lambda>stat.
        if stat = None then Inr ()
        else bindr (assertCanDelete caller mode stat key) (\<lambda>_.
          if verb = Move then assertAllowed Move caller mode stat key else Inr ())))"

definition assertCanModifyAll :: "StorageCaller \<Rightarrow> StoragePolicy list \<Rightarrow> jstr \<Rightarrow> jstr list \<Rightarrow>
    (jstr \<Rightarrow> StorageError + ObjectStat option) \<Rightarrow> AccessVerb \<Rightarrow> StorageError + unit" where
  "assertCanModifyAll caller rows bucket keys statFn verb =
     (if isPrivileged caller \<or> \<not> (\<exists>r\<in>set rows. sp_bucket r = bucket) then Inr ()
      else bindr (mapr (assertCanModify caller rows bucket statFn verb) keys) (\<lambda>_. Inr ()))"

section \<open>Listings\<close>

record ListedObject =
  lo_name :: jstr
  lo_prefix :: "jstr option"

definition isFolder :: "ListedObject \<Rightarrow> bool" where
  "isFolder o1 \<longleftrightarrow> lo_prefix o1 \<noteq> None \<and> lo_prefix o1 \<noteq> Some []"

definition statOrNull :: "(jstr \<Rightarrow> StorageError + ObjectStat option) \<Rightarrow> jstr \<Rightarrow> ObjectStat option" where
  "statOrNull statFn key = (case statFn key of Inr stat \<Rightarrow> stat | Inl _ \<Rightarrow> None)"

text \<open>The files are looked up \<open>STAT_BATCH\<close> at a time; \<open>ownKeys\<close> is the set \<open>keep\<close> in the order it grows.\<close>

function ownKeys :: "(jstr \<Rightarrow> StorageError + ObjectStat option) \<Rightarrow> jstr \<Rightarrow> ListedObject list \<Rightarrow> jstr list" where
  "ownKeys statFn sub [] = []"
| "ownKeys statFn sub (f # files) =
     (let batch = take STAT_BATCH (f # files)
      in map lo_name (filter (\<lambda>o1. ownerOf (statOrNull statFn (lo_name o1)) = Some sub) batch) @
         ownKeys statFn sub (drop STAT_BATCH (f # files)))"
  by pat_completeness auto
termination by (relation "measure (\<lambda>(_, _, files). length files)") (auto simp: STAT_BATCH_def)

definition filterListing :: "StorageCaller \<Rightarrow> StoragePolicyMode option \<Rightarrow> ListedObject list \<Rightarrow>
    (jstr \<Rightarrow> StorageError + ObjectStat option) \<Rightarrow> ListedObject list" where
  "filterListing caller mode objects statFn =
     (if mode \<noteq> Some OwnerOnly \<or> isPrivileged caller then objects
      else (case caller of
              Authenticated sub \<Rightarrow>
                (let keep = ownKeys statFn sub (filter (\<lambda>o1. \<not> isFolder o1 \<and> lo_name o1 \<noteq> []) objects)
                 in filter (\<lambda>o1. isFolder o1 \<or> lo_name o1 \<in> set keep) objects)
            | _ \<Rightarrow> filter isFolder objects))"

end
