(* ===== verification/StorageObjects.thy ===== *)
theory StorageObjects
  imports StorageAccess
begin

text \<open>
  Deleting and moving objects, \<open>modules/storage/storage.service.ts\<close> with the routes of
  \<open>storage.controller.ts\<close> that check the access rules first, and the names of the physical buckets.

  The object store is a parameter: what it answers to a request may depend on the requests it has
  carried out before.  A handler returns its result with the requests it made, in order; a request that
  fails ends it.
\<close>

section \<open>Physical bucket names\<close>

definition isBucketUnit :: "int \<Rightarrow> bool" where
  "isBucketUnit c \<longleftrightarrow> 97 \<le> c \<and> c \<le> 122 \<or> is_digit c \<or> c = 45"

definition bucketText :: "jstr \<Rightarrow> jstr" where
  "bucketText s = map (\<lambda>c. if isBucketUnit c then c else 45) (js_lower s)"

definition minioBucketName :: "jstr \<Rightarrow> jstr \<Rightarrow> jstr \<Rightarrow> jstr" where
  "minioBucketName bucketPrefix projectSlug bucketName = bucketText (bucketPrefix @ projectSlug @ js ''-'' @ bucketName)"

definition minioProjectPrefix :: "jstr \<Rightarrow> jstr \<Rightarrow> jstr" where
  "minioProjectPrefix bucketPrefix projectSlug = bucketText (bucketPrefix @ projectSlug @ js ''-'')"

record StorageProject =
  pj_id :: jstr
  pj_slug :: jstr
  pj_storagePrefix :: "jstr option"

definition prefixSeed :: "StorageProject \<Rightarrow> jstr" where
  "prefixSeed p = (case pj_storagePrefix p of Some s \<Rightarrow> s | None \<Rightarrow> pj_slug p)"

definition longerOwner :: "jstr \<Rightarrow> jstr \<Rightarrow> (StorageProject \<times> nat) option \<Rightarrow> StorageProject \<Rightarrow> (StorageProject \<times> nat) option" where
  "longerOwner bucketPrefix name best p =
     (let pref = minioProjectPrefix bucketPrefix (prefixSeed p) in
      if \<not> starts_with pref name then best
      else (case best of
              None \<Rightarrow> Some (p, length pref)
            | Some (_, prefixLen) \<Rightarrow> if length pref > prefixLen then Some (p, length pref) else best))"

definition resolveMinioBucketOwner :: "jstr \<Rightarrow> jstr \<Rightarrow> StorageProject list \<Rightarrow> StorageProject option" where
  "resolveMinioBucketOwner bucketPrefix name projects = map_option fst (foldl (longerOwner bucketPrefix name) None projects)"

definition physicalBucketName :: "jstr \<Rightarrow> StorageProject \<Rightarrow> jstr \<Rightarrow> jstr" where
  "physicalBucketName bucketPrefix p bucketName = minioBucketName bucketPrefix (prefixSeed p) bucketName"

section \<open>Requests to the store\<close>

datatype StoreRequest = CopyObject jstr jstr | RemoveObject jstr | RemoveObjects "jstr list"

record Store =
  st_keysUnder :: "StoreRequest list \<Rightarrow> jstr \<Rightarrow> StorageError + jstr list"
  st_perform :: "StoreRequest list \<Rightarrow> StoreRequest \<Rightarrow> StorageError + unit"

type_synonym 'a storing = "(StorageError + 'a) \<times> StoreRequest list"

definition thenDo :: "'a storing \<Rightarrow> ('a \<Rightarrow> StoreRequest list \<Rightarrow> 'b storing) \<Rightarrow> 'b storing" where
  "thenDo m f = (case m of (Inl e, done) \<Rightarrow> (Inl e, done) | (Inr v, done) \<Rightarrow> f v done)"

definition perform :: "Store \<Rightarrow> StoreRequest \<Rightarrow> StoreRequest list \<Rightarrow> unit storing" where
  "perform store r done = (case st_perform store done r of Inl e \<Rightarrow> (Inl e, done) | Inr _ \<Rightarrow> (Inr (), done @ [r]))"

section \<open>Deleting\<close>

definition addKey :: "jstr list \<Rightarrow> jstr \<Rightarrow> jstr list" where
  "addKey keys k = (if k \<in> set keys then keys else keys @ [k])"

fun expandPaths :: "Store \<Rightarrow> bool \<Rightarrow> jstr list \<Rightarrow> jstr list \<Rightarrow> StorageError + jstr list" where
  "expandPaths store expandFolders keys [] = Inr keys"
| "expandPaths store expandFolders keys (raw # names) =
     (let name = cleanKey raw in
      if name = [] then expandPaths store expandFolders keys names
      else if ends_with [47] name \<and> expandFolders
      then bindr (st_keysUnder store [] name) (\<lambda>ks. expandPaths store expandFolders (foldl addKey keys ks) names)
      else expandPaths store expandFolders (addKey keys name) names)"

definition deleteObjects :: "Store \<Rightarrow> bool \<Rightarrow> jstr list \<Rightarrow> nat storing" where
  "deleteObjects store expandFolders objectNames =
     (case expandPaths store expandFolders [] objectNames of
        Inl e \<Rightarrow> (Inl e, [])
      | Inr keys \<Rightarrow> thenDo (perform store (RemoveObjects keys) []) (\<lambda>_ done. (Inr (length keys), done)))"

definition deleteRequest :: "Store \<Rightarrow> (jstr \<Rightarrow> StorageError + ObjectStat option) \<Rightarrow> StoragePolicy list \<Rightarrow> StorageCaller \<Rightarrow>
    jstr \<Rightarrow> jstr list \<Rightarrow> nat storing" where
  "deleteRequest store statFn rows caller bucket paths =
     (case assertCanModifyAll caller rows bucket paths statFn Delete of
        Inl e \<Rightarrow> (Inl e, [])
      | Inr _ \<Rightarrow> deleteObjects store True paths)"

section \<open>Moving\<close>

text \<open>\<open>s.split('/').pop()\<close>; an empty text gives the alternative.\<close>

definition lastPart :: "jstr \<Rightarrow> jstr \<Rightarrow> jstr" where
  "lastPart s alternative = (let p = last (split_on 47 s) in if p = [] then alternative else p)"

definition dropLastSlash :: "jstr \<Rightarrow> jstr" where
  "dropLastSlash s = (if ends_with [47] s then butlast s else s)"

definition destinationFolder :: "jstr \<Rightarrow> StorageError + jstr" where
  "destinationFolder destFolder =
     (let destRaw = cleanKey destFolder in
      if hasPart (js ''..'') destRaw then Inl (BadRequest (js ''Invalid destination''))
      else Inr (if destRaw \<noteq> [] \<and> \<not> ends_with [47] destRaw then destRaw @ [47] else destRaw))"

definition moveKey :: "Store \<Rightarrow> jstr \<Rightarrow> jstr \<Rightarrow> StoreRequest list \<Rightarrow> unit storing" where
  "moveKey store newKey key done =
     thenDo (perform store (CopyObject newKey key) done) (\<lambda>_ done'. perform store (RemoveObject key) done')"

fun moveKeys :: "Store \<Rightarrow> jstr \<Rightarrow> jstr \<Rightarrow> nat \<Rightarrow> jstr list \<Rightarrow> StoreRequest list \<Rightarrow> nat storing" where
  "moveKeys store newBase src moved [] done = (Inr moved, done)"
| "moveKeys store newBase src moved (key # keys) done =
     thenDo (moveKey store (newBase @ drop (length src) key) key done) (\<lambda>_ done'.
       moveKeys store newBase src (moved + 1) keys done')"

definition moveSource :: "Store \<Rightarrow> jstr \<Rightarrow> nat \<Rightarrow> jstr \<Rightarrow> StoreRequest list \<Rightarrow> nat storing" where
  "moveSource store dest moved raw done =
     (let src = cleanKey raw in
      if src = [] then (Inr moved, done)
      else if ends_with [47] src then
        (let newBase = dest @ lastPart (dropLastSlash src) [] @ [47] in
         if newBase = src then (Inr moved, done)
         else if starts_with src newBase then (Inl (BadRequest (js ''Cannot move a folder into itself'')), done)
         else (case st_keysUnder store done src of
                 Inl e \<Rightarrow> (Inl e, done)
               | Inr keys \<Rightarrow> moveKeys store newBase src moved keys done))
      else
        (let newKey = dest @ lastPart src src in
         if newKey = src then (Inr moved, done)
         else thenDo (moveKey store newKey src done) (\<lambda>_ done'. (Inr (moved + 1), done'))))"

fun moveSources :: "Store \<Rightarrow> jstr \<Rightarrow> nat \<Rightarrow> jstr list \<Rightarrow> StoreRequest list \<Rightarrow> nat storing" where
  "moveSources store dest moved [] done = (Inr moved, done)"
| "moveSources store dest moved (raw # sources) done =
     thenDo (moveSource store dest moved raw done) (\<lambda>moved' done'. moveSources store dest moved' sources done')"

definition moveObjects :: "Store \<Rightarrow> jstr list \<Rightarrow> jstr \<Rightarrow> nat storing" where
  "moveObjects store sources destFolder =
     (case destinationFolder destFolder of
        Inl e \<Rightarrow> (Inl e, [])
      | Inr dest \<Rightarrow> moveSources store dest 0 sources [])"

definition moveRequest :: "Store \<Rightarrow> (jstr \<Rightarrow> StorageError + ObjectStat option) \<Rightarrow> StoragePolicy list \<Rightarrow> StorageCaller \<Rightarrow>
    jstr \<Rightarrow> jstr list \<Rightarrow> jstr \<Rightarrow> nat storing" where
  "moveRequest store statFn rows caller bucket sources destFolder =
     (case assertCanModifyAll caller rows bucket sources statFn Move of
        Inl e \<Rightarrow> (Inl e, [])
      | Inr _ \<Rightarrow> moveObjects store sources destFolder)"

end
