(* ===== verification/StorageRules.thy ===== *)
theory StorageRules
  imports StorageObjects "HOL-Library.Multiset"
begin

text \<open>
  What the access rules of object storage guarantee: the longest rule decides whatever order the rows
  come in, a listing shows the files that may be read, a deletion reaches only the caller's own files,
  and a physical bucket belongs to the project with the longest prefix.  The concrete cases at the end
  show where a rule can be walked around.
\<close>

section \<open>The rule that applies\<close>

lemma best_from_rows:
  "foldl (betterRule bucket key) best rows = Some b \<Longrightarrow> best = Some b \<or> b \<in> set rows \<and> ruleMatches bucket key b"
proof (induction rows arbitrary: best)
  case (Cons x rows)
  then have "betterRule bucket key best x = Some b \<or> b \<in> set rows \<and> ruleMatches bucket key b" by simp
  then show ?case by (auto simp: betterRule_def split: if_splits option.splits)
qed simp

lemma betterRule_grows:
  "best = Some a \<or> ruleMatches bucket key x \<and> a = x \<Longrightarrow>
     \<exists>b. betterRule bucket key best x = Some b \<and> length (sp_pathPrefix a) \<le> length (sp_pathPrefix b)"
  by (cases best) (auto simp: betterRule_def)

lemma best_grows:
  "best = Some a \<Longrightarrow> \<exists>b. foldl (betterRule bucket key) best rows = Some b \<and> length (sp_pathPrefix a) \<le> length (sp_pathPrefix b)"
proof (induction rows arbitrary: best a)
  case (Cons x rows)
  obtain a' where "betterRule bucket key best x = Some a'" "length (sp_pathPrefix a) \<le> length (sp_pathPrefix a')"
    using betterRule_grows [of best a bucket key x] Cons.prems by blast
  with Cons.IH [of "betterRule bucket key best x" a'] show ?case by force
qed simp

lemma best_is_longest:
  "x \<in> set rows \<Longrightarrow> ruleMatches bucket key x \<Longrightarrow>
     \<exists>b. foldl (betterRule bucket key) best rows = Some b \<and> length (sp_pathPrefix x) \<le> length (sp_pathPrefix b)"
proof (induction rows arbitrary: best)
  case (Cons y rows)
  show ?case
  proof (cases "x = y")
    case True
    obtain a where a: "betterRule bucket key best y = Some a" "length (sp_pathPrefix y) \<le> length (sp_pathPrefix a)"
      using betterRule_grows [of best y bucket key y] Cons.prems(2) True by blast
    from best_grows [OF a(1), of bucket key rows] a(2) True show ?thesis by force
  next
    case False
    with Cons show ?thesis by simp
  qed
qed simp

lemma ruleMatches_prefix: "ruleMatches bucket key a \<Longrightarrow> sp_bucket a = bucket \<and> sp_pathPrefix a = take (length (sp_pathPrefix a)) key"
  unfolding ruleMatches_def starts_with_def by auto

lemma matching_prefix:
  "ruleMatches bucket key a \<Longrightarrow> ruleMatches bucket key b \<Longrightarrow> length (sp_pathPrefix a) = length (sp_pathPrefix b) \<Longrightarrow>
     sp_bucket a = sp_bucket b \<and> sp_pathPrefix a = sp_pathPrefix b"
  using ruleMatches_prefix by metis

lemma longest_rule:
  assumes "distinct (map (\<lambda>r. (sp_bucket r, sp_pathPrefix r)) rows)"
    and "row \<in> set rows" "ruleMatches bucket (cleanKey key) row"
    and "\<And>r. r \<in> set rows \<Longrightarrow> ruleMatches bucket (cleanKey key) r \<Longrightarrow> length (sp_pathPrefix r) \<le> length (sp_pathPrefix row)"
  shows "resolveModeFromRows rows bucket key = policyMode (VStr (sp_mode row))"
proof -
  obtain b where b: "foldl (betterRule bucket (cleanKey key)) None rows = Some b" "b \<in> set rows"
      "ruleMatches bucket (cleanKey key) b" "length (sp_pathPrefix row) \<le> length (sp_pathPrefix b)"
    using best_is_longest [OF assms(2,3), of None] best_from_rows [of bucket "cleanKey key" None rows] by blast
  with assms(3,4) matching_prefix [of bucket "cleanKey key" b row]
  have "(sp_bucket b, sp_pathPrefix b) = (sp_bucket row, sp_pathPrefix row)" by (simp add: le_antisym)
  with assms(1,2) b(2) have "b = row" by (auto simp: distinct_map dest: inj_onD)
  with b(1) show ?thesis by (simp add: resolveModeFromRows_def)
qed

lemma no_rule: "(\<And>r. r \<in> set rows \<Longrightarrow> \<not> ruleMatches bucket (cleanKey key) r) \<Longrightarrow> resolveModeFromRows rows bucket key = None"
  using best_from_rows [of bucket "cleanKey key" None rows]
  by (cases "foldl (betterRule bucket (cleanKey key)) None rows") (auto simp: resolveModeFromRows_def)

section \<open>Listings\<close>

lemma ownKeys_iff:
  "k \<in> set (ownKeys statFn sub files) \<longleftrightarrow> (\<exists>o1\<in>set files. lo_name o1 = k \<and> ownerOf (statOrNull statFn k) = Some sub)"
proof (induction statFn sub files rule: ownKeys.induct)
  case (2 statFn sub f files)
  have split: "set (f # files) = set (take STAT_BATCH (f # files)) \<union> set (drop STAT_BATCH (f # files))"
    by (metis append_take_drop_id set_append)
  have "k \<in> set (ownKeys statFn sub (f # files)) \<longleftrightarrow>
      (\<exists>o1\<in>set (take STAT_BATCH (f # files)). lo_name o1 = k \<and> ownerOf (statOrNull statFn k) = Some sub) \<or>
      (\<exists>o1\<in>set (drop STAT_BATCH (f # files)). lo_name o1 = k \<and> ownerOf (statOrNull statFn k) = Some sub)"
    unfolding ownKeys.simps Let_def using "2.IH" [OF refl] by auto
  then show ?case unfolding split by blast
qed simp

definition mayRead :: "StorageCaller \<Rightarrow> (jstr \<Rightarrow> StorageError + ObjectStat option) \<Rightarrow> jstr \<Rightarrow> bool" where
  "mayRead caller statFn key \<longleftrightarrow> (\<exists>stat. statFn key = Inr stat \<and> assertCanRead caller (Some OwnerOnly) stat key = Inr ())"

lemma ownerOf_None [simp]: "ownerOf None = None"
  by (simp add: ownerOf_def)

lemma mayRead_iff:
  "mayRead caller statFn key \<longleftrightarrow>
     (\<exists>stat. statFn key = Inr stat) \<and> isPrivileged caller \<or> (\<exists>sub. caller = Authenticated sub \<and> ownerOf (statOrNull statFn key) = Some sub)"
  by (cases caller; cases "statFn key")
    (auto simp: mayRead_def assertCanRead_def assertAllowed_def Let_def decide_def isPrivileged_def statOrNull_def)

section \<open>Deletions\<close>

lemma addKeys_set: "set (foldl addKey keys ks) = set keys \<union> set ks"
  by (induction ks arbitrary: keys) (auto simp: addKey_def)

lemma expandPaths_keys:
  "expandPaths store True keys names = Inr all \<Longrightarrow> k \<in> set all \<Longrightarrow>
     k \<in> set keys \<or>
     (\<exists>raw\<in>set names. cleanKey raw \<noteq> [] \<and>
        (if ends_with [47] (cleanKey raw) then \<exists>ks. st_keysUnder store [] (cleanKey raw) = Inr ks \<and> k \<in> set ks
         else k = cleanKey raw))"
proof (induction store "True" keys names rule: expandPaths.induct)
  case (2 store keys raw names)
  show ?case
  proof (cases "cleanKey raw = []")
    case True
    with 2 show ?thesis by auto
  next
    case nonempty: False
    show ?thesis
    proof (cases "ends_with [47] (cleanKey raw)")
      case True
      with "2.prems" nonempty obtain ks where ks: "st_keysUnder store [] (cleanKey raw) = Inr ks"
          and all: "expandPaths store True (foldl addKey keys ks) names = Inr all"
        by (auto simp: bindr_eq_Inr)
      from "2.hyps"(2) [OF refl nonempty _ ks all "2.prems"(2)] True have
        "k \<in> set keys \<or> k \<in> set ks \<or> (\<exists>raw\<in>set names. cleanKey raw \<noteq> [] \<and>
           (if ends_with [47] (cleanKey raw) then \<exists>ks. st_keysUnder store [] (cleanKey raw) = Inr ks \<and> k \<in> set ks
            else k = cleanKey raw))"
        by (auto simp: addKeys_set)
      with nonempty True ks show ?thesis by auto
    next
      case False
      with "2.prems"(1) nonempty have all: "expandPaths store True (addKey keys (cleanKey raw)) names = Inr all" by simp
      with "2.hyps"(3) [OF refl nonempty _ all "2.prems"(2)] nonempty False show ?thesis
        by (auto simp: addKey_def split: if_splits)
    qed
  qed
qed simp

lemma mapr_unit_all: "bindr (mapr f xs) (\<lambda>_. Inr ()) = Inr u \<longleftrightarrow> (\<forall>x\<in>set xs. \<exists>v. f x = Inr v)"
  by (induction xs) (auto simp: bindr_eq_Inr)

definition ownedBy :: "StorageCaller \<Rightarrow> ObjectStat option \<Rightarrow> bool" where
  "ownedBy caller stat \<longleftrightarrow> stat = None \<or> (\<exists>sub. caller = Authenticated sub \<and> ownerOf stat = Some sub)"

lemma allowed_owner_only:
  "assertAllowed verb caller (Some OwnerOnly) stat key = Inr () \<Longrightarrow> \<not> isPrivileged caller \<Longrightarrow> ownedBy caller stat"
  by (cases caller) (auto simp: assertAllowed_def Let_def decide_def isPrivileged_def ownedBy_def split: if_splits)

lemma modify_owner_only:
  assumes "assertCanModify caller rows bucket statFn verb raw = Inr ()" "\<not> isPrivileged caller"
    "resolveModeFromRows rows bucket (cleanKey raw) = Some OwnerOnly" "cleanKey raw \<noteq> []"
  shows "\<not> ends_with [47] (cleanKey raw) \<and> (\<exists>stat. statFn (cleanKey raw) = Inr stat \<and> ownedBy caller stat)"
proof -
  have folder: "\<not> ends_with [47] (cleanKey raw)" using assms by (auto simp: assertCanModify_def Let_def)
  with assms obtain stat where stat: "statFn (cleanKey raw) = Inr stat"
      and owner: "stat = None \<or> assertCanDelete caller (Some OwnerOnly) stat (cleanKey raw) = Inr ()"
    by (auto simp: assertCanModify_def Let_def bindr_eq_Inr split: if_splits)
  from owner have "ownedBy caller stat"
    using allowed_owner_only [of Delete caller stat "cleanKey raw"] assms(2) by (auto simp: assertCanDelete_def ownedBy_def)
  with folder stat show ?thesis by blast
qed

lemma cleanKey_idem [simp]: "cleanKey (cleanKey key) = cleanKey key"
  by (induction key) (auto simp: cleanKey_def)

lemma rule_for_clean_key [simp]: "resolveModeFromRows rows bucket (cleanKey key) = resolveModeFromRows rows bucket key"
  by (simp add: resolveModeFromRows_def)

lemma modifyAll_each:
  assumes "assertCanModifyAll caller rows bucket keys statFn verb = Inr ()" "\<not> isPrivileged caller"
    "\<exists>r\<in>set rows. sp_bucket r = bucket" "raw \<in> set keys"
  shows "assertCanModify caller rows bucket statFn verb raw = Inr ()"
  using assms by (auto simp: assertCanModifyAll_def mapr_unit_all)

lemma mode_needs_rule: "resolveModeFromRows rows bucket key = Some mode \<Longrightarrow> \<exists>r\<in>set rows. sp_bucket r = bucket"
  using no_rule [of rows bucket key] by (auto simp: ruleMatches_def)

text \<open>No rule begins strictly below a folder: all keys of the folder are under the folder's own rule.\<close>

definition nothingBelow :: "StoragePolicy list \<Rightarrow> jstr \<Rightarrow> jstr \<Rightarrow> bool" where
  "nothingBelow rows bucket folder \<longleftrightarrow>
     list_all (\<lambda>r. sp_bucket r = bucket \<longrightarrow> starts_with folder (sp_pathPrefix r) \<longrightarrow> sp_pathPrefix r = folder) rows"

lemma same_rules_below:
  assumes "nothingBelow rows bucket folder" "starts_with folder key" "r \<in> set rows"
  shows "ruleMatches bucket key r \<longleftrightarrow> ruleMatches bucket folder r"
proof -
  have "prefix (sp_pathPrefix r) key \<longleftrightarrow> prefix (sp_pathPrefix r) folder" if "sp_bucket r = bucket"
  proof
    assume "prefix (sp_pathPrefix r) key"
    with assms(2) have "prefix (sp_pathPrefix r) folder \<or> prefix folder (sp_pathPrefix r)"
      by (auto simp: starts_with_prefix dest: prefix_same_cases)
    with assms(1,3) that show "prefix (sp_pathPrefix r) folder"
      by (auto simp: nothingBelow_def list_all_iff starts_with_prefix)
  next
    assume "prefix (sp_pathPrefix r) folder"
    with assms(2) show "prefix (sp_pathPrefix r) key" by (auto simp: starts_with_prefix dest: prefix_order.trans)
  qed
  then show ?thesis by (auto simp: ruleMatches_def starts_with_prefix)
qed

lemma foldl_cong_rules:
  "(\<And>r. r \<in> set rows \<Longrightarrow> ruleMatches bucket a r \<longleftrightarrow> ruleMatches bucket b r) \<Longrightarrow>
     foldl (betterRule bucket a) best rows = foldl (betterRule bucket b) best rows"
  by (intro foldl_cong refl) (auto simp: betterRule_def)

lemma folder_rule:
  assumes "nothingBelow rows bucket folder" "starts_with folder key" "cleanKey folder = folder" "folder \<noteq> []"
  shows "resolveModeFromRows rows bucket key = resolveModeFromRows rows bucket folder"
proof -
  have "hd folder \<noteq> 47"
  proof
    assume "hd folder = 47"
    with assms(4) have "length (cleanKey folder) \<le> length (tl folder)"
      by (cases folder) (simp_all add: cleanKey_def length_dropWhile_le)
    with assms(3,4) show False by (cases folder) simp_all
  qed
  moreover obtain rest where "key = folder @ rest" using assms(2) by (auto simp: starts_with_prefix prefix_def)
  ultimately have "cleanKey key = key" using assms(4) by (cases folder) (auto simp: cleanKey_def)
  with assms foldl_cong_rules [of rows bucket key folder None] same_rules_below [OF assms(1,2)] show ?thesis
    by (simp add: resolveModeFromRows_def)
qed

section \<open>The properties\<close>

definition sampleRules :: "StoragePolicy list" where
  "sampleRules =
     [\<lparr>sp_projectId = js ''p'', sp_bucket = js ''b'', sp_pathPrefix = [], sp_mode = js ''public-read''\<rparr>,
      \<lparr>sp_projectId = js ''p'', sp_bucket = js ''b'', sp_pathPrefix = js ''private/'', sp_mode = js ''owner-only''\<rparr>]"

definition objectOf :: "string \<Rightarrow> ObjectStat" where
  "objectOf owner = \<lparr>os_metaData = Some [(js ''owner'', VStr (js owner))], os_size = 1\<rparr>"

text \<open>What the store reports in the examples: a file whose name begins with a is Ann's, the rest Bob's.\<close>

definition sampleStat :: "jstr \<Rightarrow> StorageError + ObjectStat option" where
  "sampleStat key = Inr (Some (objectOf (if hasPart (js ''/a'') key then ''ann'' else ''bob'')))"

definition sampleStore :: Store where
  "sampleStore =
     \<lparr>st_keysUnder = (\<lambda>_ folder. Inr (filter (starts_with folder) [js ''docs/x'', js ''private/a'', js ''private/b''])),
      st_perform = (\<lambda>_ _. Inr ())\<rparr>"

lemmas storage_evaluation =
  sampleRules_def objectOf_def sampleStat_def sampleStore_def js_def starts_with_def ends_with_def cleanKey_def hasPart_def
  resolveModeFromRows_def betterRule_def ruleMatches_def policyMode_def STORAGE_POLICY_MODES_def isPrivileged_def
  assertCanModifyAll_def assertCanModify_def assertCanDelete_def assertAllowed_def decide_def ownerOf_def member_def
  coalesce_def OWNER_META_HEADER_def deleteRequest_def deleteObjects_def addKey_def thenDo_def perform_def
  nothingBelow_def ownedBy_def

text \<open>Among the rules of a project whose prefix a key has, the longest decides, in whatever order the
  table returns the rows (a prefix occurs once per bucket, as the table's unique index says).\<close>

theorem longest_rule_wins:
  assumes "distinct (map (\<lambda>r. (sp_bucket r, sp_pathPrefix r)) rows)"
    and "row \<in> set rows" "ruleMatches bucket (cleanKey key) row"
    and "\<forall>r\<in>set rows. ruleMatches bucket (cleanKey key) r \<longrightarrow> length (sp_pathPrefix r) \<le> length (sp_pathPrefix row)"
    and "mset rows' = mset rows"
  shows "resolveModeFromRows rows' bucket key = policyMode (VStr (sp_mode row))"
proof (rule longest_rule)
  show "distinct (map (\<lambda>r. (sp_bucket r, sp_pathPrefix r)) rows')"
    using assms(1,5) by (metis mset_map mset_eq_imp_distinct_iff)
qed (use assms mset_eq_setD [OF assms(5)] in auto)

theorem longest_rule_wins_witness:
  "resolveModeFromRows (rev sampleRules) (js ''b'') (js ''private/x'') = Some OwnerOnly"
  using longest_rule_wins [of sampleRules "sampleRules ! 1" "js ''b''" "js ''private/x''" "rev sampleRules"]
  by (simp add: storage_evaluation)

text \<open>C4.  In an owner-only location a restricted caller's listing keeps the folders and exactly the files
  that the caller may read, in their order; a file the store fails to report on is hidden.\<close>

theorem listing_shows_readable_files:
  assumes "\<not> isPrivileged caller"
  shows "filterListing caller (Some OwnerOnly) objects statFn =
    filter (\<lambda>o1. isFolder o1 \<or> lo_name o1 \<noteq> [] \<and> mayRead caller statFn (lo_name o1)) objects"
proof (cases caller)
  case (Authenticated sub)
  have "lo_name o1 \<in> set (ownKeys statFn sub (filter (\<lambda>o1. \<not> isFolder o1 \<and> lo_name o1 \<noteq> []) objects)) \<longleftrightarrow>
      lo_name o1 \<noteq> [] \<and> mayRead caller statFn (lo_name o1)" if "o1 \<in> set objects" "\<not> isFolder o1" for o1
    using that Authenticated assms by (auto simp: ownKeys_iff mayRead_iff)
  with Authenticated assms show ?thesis by (auto simp: filterListing_def Let_def intro!: filter_cong)
qed (use assms in \<open>auto simp: filterListing_def mayRead_iff isPrivileged_def intro!: filter_cong\<close>)

theorem listing_shows_readable_files_witness:
  "filterListing (Authenticated (js ''ann'')) (Some OwnerOnly)
     [\<lparr>lo_name = js ''private/a'', lo_prefix = None\<rparr>, \<lparr>lo_name = js ''private/b'', lo_prefix = None\<rparr>,
      \<lparr>lo_name = [], lo_prefix = Some (js ''private/c/'')\<rparr>] sampleStat =
   [\<lparr>lo_name = js ''private/a'', lo_prefix = None\<rparr>, \<lparr>lo_name = [], lo_prefix = Some (js ''private/c/'')\<rparr>]"
  using listing_shows_readable_files [of "Authenticated (js ''ann'')"]
  by (simp add: storage_evaluation isFolder_def mayRead_iff statOrNull_def)

text \<open>C18.  A deletion by a restricted caller removes no object of an owner-only location that belongs to
  somebody else, provided that no rule begins strictly below a folder that the caller names.\<close>

theorem delete_respects_owners:
  assumes caller: "\<not> isPrivileged caller"
    and run: "deleteRequest store statFn rows caller bucket paths = (result, done)"
    and key: "RemoveObjects keys \<in> set done" "key \<in> set keys"
    and mode: "resolveModeFromRows rows bucket key = Some OwnerOnly"
    and listing: "\<forall>folder ks. st_keysUnder store [] folder = Inr ks \<longrightarrow> list_all (starts_with folder) ks"
    and folders: "\<forall>raw\<in>set paths. ends_with [47] (cleanKey raw) \<longrightarrow> nothingBelow rows bucket (cleanKey raw)"
  shows "\<exists>stat. statFn key = Inr stat \<and> ownedBy caller stat"
proof -
  from run key(1) have checked: "assertCanModifyAll caller rows bucket paths statFn Delete = Inr ()"
    by (auto simp: deleteRequest_def split: sum.splits)
  with run key(1) have "expandPaths store True [] paths = Inr keys"
    by (auto simp: deleteRequest_def deleteObjects_def thenDo_def perform_def split: sum.splits)
  from expandPaths_keys [OF this key(2)] obtain raw where raw: "raw \<in> set paths" "cleanKey raw \<noteq> []"
      "if ends_with [47] (cleanKey raw) then \<exists>ks. st_keysUnder store [] (cleanKey raw) = Inr ks \<and> key \<in> set ks else key = cleanKey raw"
    by auto
  note modify = modifyAll_each [OF checked caller mode_needs_rule [OF mode] raw(1)]
  have "resolveModeFromRows rows bucket (cleanKey raw) = Some OwnerOnly"
  proof (cases "ends_with [47] (cleanKey raw)")
    case True
    with raw listing have "starts_with (cleanKey raw) key" by (auto simp: list_all_iff)
    with folder_rule [of rows bucket "cleanKey raw" key] True raw folders mode show ?thesis by simp
  qed (use raw mode in simp)
  from modify_owner_only [OF modify caller this raw(2)] raw(3) show ?thesis by auto
qed

lemma sample_listing: "st_keysUnder sampleStore [] folder = Inr ks \<Longrightarrow> list_all (starts_with folder) ks"
  by (auto simp: sampleStore_def list_all_iff simp del: filter.simps js_Cons)

lemma sample_deletion:
  "deleteRequest sampleStore sampleStat sampleRules (Authenticated (js ''ann'')) (js ''b'') [js ''docs/'', js ''/private/a''] =
   (Inr 2, [RemoveObjects [js ''docs/x'', js ''private/a'']])"
  by (simp add: storage_evaluation)

theorem delete_respects_owners_witness:
  "\<exists>stat. sampleStat (js ''private/a'') = Inr stat \<and> ownedBy (Authenticated (js ''ann'')) stat"
proof (rule delete_respects_owners [OF _ sample_deletion])
  show "resolveModeFromRows sampleRules (js ''b'') (js ''private/a'') = Some OwnerOnly" by (simp add: storage_evaluation)
  show "\<forall>raw\<in>set [js ''docs/'', js ''/private/a'']. ends_with [47] (cleanKey raw) \<longrightarrow>
      nothingBelow sampleRules (js ''b'') (cleanKey raw)" by (simp add: storage_evaluation)
  show "\<forall>folder ks. st_keysUnder sampleStore [] folder = Inr ks \<longrightarrow> list_all (starts_with folder) ks"
    using sample_listing by blast
  show "js ''private/a'' \<in> set [js ''docs/x'', js ''private/a'']" by (simp only: list.set insert_iff simp_thms)
qed (simp_all add: isPrivileged_def)

section \<open>Ways around a rule\<close>

text \<open>Naming a folder above an owner-only prefix deletes what lies below it, whoever owns it.\<close>

lemma folder_above_a_rule_deletes_foreign_files:
  "deleteRequest sampleStore sampleStat
     [\<lparr>sp_projectId = js ''p'', sp_bucket = js ''b'', sp_pathPrefix = js ''private/b'', sp_mode = js ''owner-only''\<rparr>]
     (Authenticated (js ''ann'')) (js ''b'') [js ''private/''] =
   (Inr 2, [RemoveObjects [js ''private/a'', js ''private/b'']])"
  by (simp add: storage_evaluation)

text \<open>A move checks its sources only: it writes over another user's file at the destination.\<close>

lemma move_overwrites_a_foreign_file:
  "moveRequest sampleStore (\<lambda>key. Inr (Some (objectOf (if key = js ''in/b'' then ''ann'' else ''bob'')))) sampleRules
     (Authenticated (js ''ann'')) (js ''b'') [js ''in/b''] (js ''private'') =
   (Inr 1, [CopyObject (js ''private/b'') (js ''in/b''), RemoveObject (js ''in/b'')])"
  by (simp add: storage_evaluation moveRequest_def moveObjects_def destinationFolder_def moveSource_def lastPart_def
      moveKey_def Let_def)

text \<open>Two projects can have one physical bucket; the lister gives it to the one with the longer prefix, but
  the other still reaches it by name.\<close>

lemma two_projects_one_bucket:
  "let p = \<lparr>pj_id = js ''1'', pj_slug = js ''shop'', pj_storagePrefix = None\<rparr>;
       q = \<lparr>pj_id = js ''2'', pj_slug = js ''shop_dev'', pj_storagePrefix = None\<rparr>;
       name = physicalBucketName (js ''bf-'') p (js ''dev-files'')
   in name = physicalBucketName (js ''bf-'') q (js ''files'') \<and> resolveMinioBucketOwner (js ''bf-'') name [p, q] = Some q"
  by (simp add: physicalBucketName_def minioBucketName_def bucketText_def prefixSeed_def js_def js_lower_def js_lower_unit_def
      isBucketUnit_def is_digit_def resolveMinioBucketOwner_def longerOwner_def minioProjectPrefix_def starts_with_def Let_def)

end
