(* ===== verification/UploadSession.thy ===== *)
theory UploadSession
  imports StorageAccess
begin

text \<open>
  Resumable uploads, \<open>modules/storage/upload-session.service.ts\<close>: a session is one multipart upload on
  the object store; chunks arrive with an offset, each becomes a part, \<open>complete\<close> assembles them.

  The table of sessions, the Redis locks and the requests that wait for the store form the state.  A
  handler that awaits the store is two operations, the one up to the request and the one after its
  answer, so that any other operation may come between.  What the store, the project look-up, the quota
  and the clock answer are arguments.  A number is a rational; log lines and the catalog are left out.
\<close>

section \<open>Limits\<close>

definition MIN_CHUNK_BYTES :: int where
  "MIN_CHUNK_BYTES = 5 * 1024 * 1024"

definition MAX_CHUNK_BYTES :: int where
  "MAX_CHUNK_BYTES = 64 * 1024 * 1024"

definition LOCK_TTL_SECONDS :: int where
  "LOCK_TTL_SECONDS = 60"

definition FINISHED_RETENTION_MS :: int where
  "FINISHED_RETENTION_MS = 7 * 24 * 60 * 60 * 1000"

definition EXPIRE_BATCH :: nat where
  "EXPIRE_BATCH = 200"

text \<open>\<open>Number(v)\<close>; \<open>None\<close> is not finite.\<close>

definition numberOf :: "jsval \<Rightarrow> rat option" where
  "numberOf v =
     (case v of
        VNum n \<Rightarrow> Some n
      | VNull \<Rightarrow> Some 0
      | VUndefined \<Rightarrow> None
      | VBool b \<Rightarrow> Some (if b then 1 else 0)
      | _ \<Rightarrow> Option.bind (js_number (stringOf v)) toDouble)"

definition positiveOr :: "jsval \<Rightarrow> rat \<Rightarrow> rat" where
  "positiveOr raw fallback = (case numberOf raw of Some n \<Rightarrow> if n > 0 then n else fallback | None \<Rightarrow> fallback)"

record UploadConfig =
  uc_defaultChunkBytes :: int
  uc_maxTotalBytes :: int
  uc_ttlMs :: int

text \<open>A product of doubles; \<open>None\<close> is an infinity.\<close>

definition times :: "rat option \<Rightarrow> rat \<Rightarrow> rat option" where
  "times x y = Option.bind x (\<lambda>v. toDouble (v * y))"

definition newUploadSessionService :: "jsval \<Rightarrow> jsval \<Rightarrow> jsval \<Rightarrow> UploadConfig option" where
  "newUploadSessionService chunkMb maxMb ttlHours =
     (case (times (times (Some (positiveOr chunkMb 8)) 1024) 1024,
            times (times (Some (positiveOr maxMb 5120)) 1024) 1024,
            times (times (times (Some (positiveOr ttlHours 24)) 60) 60) 1000) of
        (Some c, Some m, Some t) \<Rightarrow>
          Some \<lparr>uc_defaultChunkBytes = min MAX_CHUNK_BYTES (max MIN_CHUNK_BYTES \<lfloor>c\<rfloor>), uc_maxTotalBytes = \<lfloor>m\<rfloor>, uc_ttlMs = \<lfloor>t\<rfloor>\<rparr>
      | _ \<Rightarrow> None)"

definition chunkSizeFor :: "UploadConfig \<Rightarrow> int \<Rightarrow> jsval \<Rightarrow> int" where
  "chunkSizeFor cfg bytes requested =
     (if bytes \<le> MIN_CHUNK_BYTES then bytes
      else (let want = (case numberOf requested of
                          Some n \<Rightarrow> if n > 0 then \<lfloor>n\<rfloor> else uc_defaultChunkBytes cfg
                        | None \<Rightarrow> uc_defaultChunkBytes cfg)
            in min (min MAX_CHUNK_BYTES (max MIN_CHUNK_BYTES want)) bytes))"

section \<open>Sessions\<close>

record UploadPart =
  pt_part :: int
  pt_etag :: jstr
  pt_size :: int

datatype UploadStatus = UActive | UCompleted | UAborted | UExpired

primrec uploadStatusName :: "UploadStatus \<Rightarrow> jstr" where
  "uploadStatusName UActive = js ''active''"
| "uploadStatusName UCompleted = js ''completed''"
| "uploadStatusName UAborted = js ''aborted''"
| "uploadStatusName UExpired = js ''expired''"

record StorageUploadSession =
  us_id :: jstr
  us_projectId :: jstr
  us_bucket :: jstr
  us_objectKey :: jstr
  us_contentType :: jstr
  us_totalSize :: int
  us_uploadedSize :: int
  us_chunkSize :: int
  us_uploadId :: jstr
  us_parts :: "UploadPart list"
  us_ownerSub :: "jstr option"
  us_status :: UploadStatus
  us_expiresAt :: int
  us_updatedAt :: int

record UploadSessionView =
  uv_id :: jstr
  uv_bucket :: jstr
  uv_path :: jstr
  uv_offset :: int
  uv_size :: int
  uv_chunkSize :: int
  uv_contentType :: jstr
  uv_status :: UploadStatus
  uv_expiresAt :: int

definition sessionView :: "StorageUploadSession \<Rightarrow> UploadSessionView" where
  "sessionView row =
     \<lparr>uv_id = us_id row, uv_bucket = us_bucket row, uv_path = us_objectKey row, uv_offset = us_uploadedSize row,
      uv_size = us_totalSize row, uv_chunkSize = us_chunkSize row, uv_contentType = us_contentType row,
      uv_status = us_status row, uv_expiresAt = us_expiresAt row\<rparr>"

definition assertActive :: "int \<Rightarrow> StorageUploadSession \<Rightarrow> StorageError + unit" where
  "assertActive now row =
     (if us_status row \<noteq> UActive then Inl (Gone (js ''Upload session is '' @ uploadStatusName (us_status row)))
      else if us_expiresAt row < now then Inl (Gone (js ''Upload session has expired''))
      else Inr ())"

definition findSession :: "jstr \<Rightarrow> StorageUploadSession list \<Rightarrow> StorageUploadSession option" where
  "findSession sessionId rows = find (\<lambda>r. us_id r = sessionId) rows"

definition loadOwned :: "jstr \<Rightarrow> jstr \<Rightarrow> jstr \<Rightarrow> StorageCaller \<Rightarrow> StorageUploadSession list \<Rightarrow> StorageError + StorageUploadSession" where
  "loadOwned projectId bucket sessionId caller rows =
     (case findSession sessionId rows of
        None \<Rightarrow> Inl (NotFound (js ''Upload session not found''))
      | Some row \<Rightarrow>
          if us_projectId row \<noteq> projectId \<or> us_bucket row \<noteq> bucket then Inl (NotFound (js ''Upload session not found''))
          else if isPrivileged caller then Inr row
          else (case caller of
                  Authenticated sub \<Rightarrow>
                    if us_ownerSub row \<noteq> Some [] \<and> us_ownerSub row = Some sub then Inr row
                    else Inl (Forbidden (js ''This upload session belongs to another user''))
                | _ \<Rightarrow> Inl (Forbidden (js ''This upload session belongs to another user''))))"

section \<open>The state\<close>

datatype Flight =
    Appending StorageUploadSession int int int
  | Completing StorageUploadSession
  | Aborting StorageUploadSession

primrec flightRow :: "Flight \<Rightarrow> StorageUploadSession" where
  "flightRow (Appending row offset len part) = row"
| "flightRow (Completing row) = row"
| "flightRow (Aborting row) = row"

record UploadState =
  up_sessions :: "StorageUploadSession list"
  up_locks :: "jstr \<Rightarrow> int option"
  up_flights :: "(nat \<times> Flight) list"
  up_next :: nat

definition updateSession :: "(StorageUploadSession \<Rightarrow> bool) \<Rightarrow> (StorageUploadSession \<Rightarrow> StorageUploadSession) \<Rightarrow> UploadState \<Rightarrow> UploadState" where
  "updateSession where change st = st\<lparr>up_sessions := map (\<lambda>r. if where r then change r else r) (up_sessions st)\<rparr>"

definition addFlight :: "Flight \<Rightarrow> UploadState \<Rightarrow> nat \<times> UploadState" where
  "addFlight f st = (up_next st, st\<lparr>up_flights := up_flights st @ [(up_next st, f)], up_next := up_next st + 1\<rparr>)"

definition endFlight :: "nat \<Rightarrow> UploadState \<Rightarrow> UploadState" where
  "endFlight i st = st\<lparr>up_flights := filter (\<lambda>f. fst f \<noteq> i) (up_flights st)\<rparr>"

definition dropLock :: "jstr \<Rightarrow> UploadState \<Rightarrow> UploadState" where
  "dropLock sessionId st = st\<lparr>up_locks := (up_locks st)(sessionId := None)\<rparr>"

text \<open>\<open>SET key 1 EX 60 NX\<close>.\<close>

definition takeLock :: "int \<Rightarrow> jstr \<Rightarrow> UploadState \<Rightarrow> bool \<times> UploadState" where
  "takeLock now sessionId st =
     (case up_locks st sessionId of
        Some expiry \<Rightarrow> if now < expiry then (False, st)
          else (True, st\<lparr>up_locks := (up_locks st)(sessionId \<mapsto> now + LOCK_TTL_SECONDS * 1000)\<rparr>)
      | None \<Rightarrow> (True, st\<lparr>up_locks := (up_locks st)(sessionId \<mapsto> now + LOCK_TTL_SECONDS * 1000)\<rparr>))"

section \<open>Opening\<close>

record CreateUploadSessionInput =
  ci_path :: jsval
  ci_size :: jsval
  ci_contentType :: "jstr option"
  ci_chunkSize :: jsval

record CreateAnswers =
  ca_bucket :: "StorageError + unit"
  ca_quota :: "StorageError + unit"
  ca_mode :: "StoragePolicyMode option"
  ca_existing :: "StorageError + ObjectStat option"
  ca_uploadId :: "StorageError + jstr"
  ca_id :: jstr

definition pathOf :: "jsval \<Rightarrow> StorageError + jstr" where
  "pathOf raw =
     (let path = cleanKey (stringOf (coalesce raw (VStr []))) in
      if path = [] \<or> ends_with [47] path then Inl (BadRequest (js ''path must name a file''))
      else if hasPart (js ''..'') path \<or> 0 \<in> set path then Inl (BadRequest (js ''Invalid path''))
      else Inr path)"

definition sizeOf :: "UploadConfig \<Rightarrow> jsval \<Rightarrow> StorageError + int" where
  "sizeOf cfg raw =
     (case numberOf raw of
        Some bytes \<Rightarrow>
          if \<not> isInteger bytes \<or> bytes \<le> 0
          then Inl (BadRequest (js ''size must be a positive integer (use the regular upload for empty files)''))
          else if bytes > of_int (uc_maxTotalBytes cfg)
          then Inl (PayloadTooLarge (js ''size exceeds the resumable upload limit of '' @
                 show_nat (nat (uc_maxTotalBytes cfg div (1024 * 1024))) @ js '' MB''))
          else Inr \<lfloor>bytes\<rfloor>
      | None \<Rightarrow> Inl (BadRequest (js ''size must be a positive integer (use the regular upload for empty files)'')))"

definition checkExisting :: "StorageCaller \<Rightarrow> CreateAnswers \<Rightarrow> jstr \<Rightarrow> StorageError + unit" where
  "checkExisting caller answers path =
     (if ca_mode answers = Some OwnerOnly \<and> \<not> isPrivileged caller
      then bindr (ca_existing answers) (\<lambda>existing. assertCanOverwrite caller (ca_mode answers) existing path)
      else Inr ())"

definition newSession :: "UploadConfig \<Rightarrow> int \<Rightarrow> jstr \<Rightarrow> StorageCaller \<Rightarrow> jstr \<Rightarrow> CreateUploadSessionInput \<Rightarrow> jstr \<Rightarrow>
    jstr \<Rightarrow> int \<Rightarrow> jstr \<Rightarrow> StorageUploadSession" where
  "newSession cfg now projectId caller bucket input sessionId path bytes uploadId =
     \<lparr>us_id = sessionId, us_projectId = projectId, us_bucket = bucket, us_objectKey = path,
      us_contentType =
        (case ci_contentType input of
           Some t \<Rightarrow> if t = [] then js ''application/octet-stream'' else take 255 t
         | None \<Rightarrow> js ''application/octet-stream''),
      us_totalSize = bytes, us_uploadedSize = 0, us_chunkSize = chunkSizeFor cfg bytes (ci_chunkSize input),
      us_uploadId = uploadId, us_parts = [], us_ownerSub = ownerTag caller, us_status = UActive,
      us_expiresAt = now + uc_ttlMs cfg, us_updatedAt = now\<rparr>"

definition createUploadSession :: "UploadConfig \<Rightarrow> int \<Rightarrow> jstr \<Rightarrow> StorageCaller \<Rightarrow> jstr \<Rightarrow> CreateUploadSessionInput \<Rightarrow>
    CreateAnswers \<Rightarrow> UploadState \<Rightarrow> (StorageError + UploadSessionView) \<times> UploadState" where
  "createUploadSession cfg now projectId caller bucket input answers st =
     (case bindr (pathOf (ci_path input)) (\<lambda>path.
           bindr (sizeOf cfg (ci_size input)) (\<lambda>bytes.
           bindr (ca_bucket answers) (\<lambda>_.
           bindr (ca_quota answers) (\<lambda>_.
           bindr (checkExisting caller answers path) (\<lambda>_.
           bindr (ca_uploadId answers) (\<lambda>uploadId.
             Inr (newSession cfg now projectId caller bucket input (ca_id answers) path bytes uploadId))))))) of
        Inl e \<Rightarrow> (Inl e, st)
      | Inr row \<Rightarrow> (Inr (sessionView row), st\<lparr>up_sessions := up_sessions st @ [row]\<rparr>))"

definition getSession :: "StorageError + unit \<Rightarrow> jstr \<Rightarrow> StorageCaller \<Rightarrow> jstr \<Rightarrow> jstr \<Rightarrow> UploadState \<Rightarrow> StorageError + UploadSessionView" where
  "getSession project projectId caller bucket sessionId st =
     bindr project (\<lambda>_.
     bindr (loadOwned projectId bucket sessionId caller (up_sessions st)) (\<lambda>row. Inr (sessionView row)))"

section \<open>Appending\<close>

text \<open>The checks of a chunk against the session: the number of its part, or the refusal.\<close>

definition chunkPart :: "StorageUploadSession \<Rightarrow> rat \<Rightarrow> int \<Rightarrow> StorageError + int" where
  "chunkPart row offset len =
     (if offset \<noteq> of_int (us_uploadedSize row) then Inl (OffsetMismatch (us_uploadedSize row))
      else if len = 0 then Inl (BadRequest (js ''Empty chunk''))
      else if len > us_chunkSize row
      then Inl (PayloadTooLarge (js ''Chunk exceeds the session chunk size of '' @ show_nat (nat (us_chunkSize row)) @ js '' bytes''))
      else if \<lfloor>offset\<rfloor> + len > us_totalSize row then Inl (BadRequest (js ''Chunk runs past the declared size''))
      else if \<lfloor>offset\<rfloor> + len \<noteq> us_totalSize row \<and> len \<noteq> us_chunkSize row
      then Inl (BadRequest (js ''Every chunk except the last must be exactly '' @ show_nat (nat (us_chunkSize row)) @ js '' bytes''))
      else Inr (\<lfloor>offset\<rfloor> div us_chunkSize row + 1))"

definition beginAppend :: "int \<Rightarrow> StorageError + unit \<Rightarrow> jstr option \<Rightarrow> jstr \<Rightarrow> StorageCaller \<Rightarrow> jstr \<Rightarrow> jstr \<Rightarrow> rat \<Rightarrow> nat \<Rightarrow>
    UploadState \<Rightarrow> (StorageError + nat) \<times> UploadState" where
  "beginAppend now project redisError projectId caller bucket sessionId offset len st =
     (if \<not> isInteger offset \<or> offset < 0
      then (Inl (BadRequest (js ''Upload-Offset must be a non-negative integer'')), st)
      else (case project of
        Inl e \<Rightarrow> (Inl e, st)
      | Inr _ \<Rightarrow>
          if redisError \<noteq> None
          then (Inl (ServiceUnavailable (js ''Upload coordination unavailable: '' @ the redisError)), st)
          else (case takeLock now sessionId st of
            (False, _) \<Rightarrow> (Inl (Conflict (js ''Another chunk of this upload is in flight; retry shortly'')), st)
          | (True, st') \<Rightarrow>
              (case bindr (loadOwned projectId bucket sessionId caller (up_sessions st')) (\<lambda>row.
                    bindr (assertActive now row) (\<lambda>_.
                    bindr (chunkPart row offset (int len)) (\<lambda>part. Inr (row, part)))) of
                 Inl e \<Rightarrow> (Inl e, dropLock sessionId st')
               | Inr (row, part) \<Rightarrow> (case addFlight (Appending row \<lfloor>offset\<rfloor> (int len) part) st' of (i, st'') \<Rightarrow> (Inr i, st''))))))"

definition sameVersion :: "StorageUploadSession \<Rightarrow> StorageUploadSession \<Rightarrow> bool" where
  "sameVersion row r \<longleftrightarrow> us_id r = us_id row \<and> us_uploadedSize r = us_uploadedSize row \<and> us_status r = UActive"

definition appended :: "int \<Rightarrow> StorageUploadSession \<Rightarrow> int \<Rightarrow> int \<Rightarrow> int \<Rightarrow> jstr \<Rightarrow> StorageUploadSession \<Rightarrow> StorageUploadSession" where
  "appended now row offset len part etag r =
     r\<lparr>us_uploadedSize := offset + len, us_parts := us_parts row @ [\<lparr>pt_part = part, pt_etag = etag, pt_size = len\<rparr>],
       us_updatedAt := now\<rparr>"

definition endAppend :: "int \<Rightarrow> nat \<Rightarrow> StorageError + jstr \<Rightarrow> UploadState \<Rightarrow> (StorageError + UploadSessionView) \<times> UploadState" where
  "endAppend now i answer st =
     (case map_of (up_flights st) i of
        Some (Appending row offset len part) \<Rightarrow>
          (let st' = dropLock (us_id row) (endFlight i st) in
           case answer of
             Inl e \<Rightarrow> (Inl e, st')
           | Inr etag \<Rightarrow>
               if \<exists>r\<in>set (up_sessions st). sameVersion row r
               then (Inr (sessionView (row\<lparr>us_uploadedSize := offset + len\<rparr>)),
                     updateSession (sameVersion row) (appended now row offset len part etag) st')
               else (Inl (OffsetMismatch (us_uploadedSize row)), st'))
      | _ \<Rightarrow> (Inl (InternalServerError (js ''no such request'')), st))"

section \<open>Completing and aborting\<close>

record CompletedUpload =
  cu_name :: jstr
  cu_size :: int
  cu_sessionId :: jstr

definition beginComplete :: "int \<Rightarrow> StorageError + unit \<Rightarrow> jstr \<Rightarrow> StorageCaller \<Rightarrow> jstr \<Rightarrow> jstr \<Rightarrow> UploadState \<Rightarrow>
    (StorageError + nat) \<times> UploadState" where
  "beginComplete now project projectId caller bucket sessionId st =
     (case bindr project (\<lambda>_.
           bindr (loadOwned projectId bucket sessionId caller (up_sessions st)) (\<lambda>row.
           bindr (assertActive now row) (\<lambda>_.
             if us_uploadedSize row \<noteq> us_totalSize row
             then Inl (BadRequest (js ''Upload incomplete: '' @ show_nat (nat (us_uploadedSize row)) @ js '' of '' @
                    show_nat (nat (us_totalSize row)) @ js '' bytes received''))
             else Inr row))) of
        Inl e \<Rightarrow> (Inl e, st)
      | Inr row \<Rightarrow> (case addFlight (Completing row) st of (i, st') \<Rightarrow> (Inr i, st')))"

text \<open>The parts named in the request that assembles the object.\<close>

definition finishParts :: "StorageUploadSession \<Rightarrow> (int \<times> jstr) list" where
  "finishParts row = map (\<lambda>p. (pt_part p, pt_etag p)) (sort_key pt_part (us_parts row))"

definition setStatus :: "int \<Rightarrow> jstr \<Rightarrow> UploadStatus \<Rightarrow> UploadState \<Rightarrow> StorageError + UploadState" where
  "setStatus now sessionId status st =
     (if \<exists>r\<in>set (up_sessions st). us_id r = sessionId
      then Inr (updateSession (\<lambda>r. us_id r = sessionId) (\<lambda>r. r\<lparr>us_status := status, us_updatedAt := now\<rparr>) st)
      else Inl (InternalServerError (js ''Record to update not found.'')))"

definition endComplete :: "int \<Rightarrow> nat \<Rightarrow> StorageError + unit \<Rightarrow> StorageError + ObjectStat option \<Rightarrow> UploadState \<Rightarrow>
    (StorageError + CompletedUpload) \<times> UploadState" where
  "endComplete now i finish stat st =
     (case map_of (up_flights st) i of
        Some (Completing row) \<Rightarrow>
          (case bindr finish (\<lambda>_.
                bindr stat (\<lambda>s.
                case s of
                  None \<Rightarrow> Inl (InternalServerError (js ''The assembled object could not be read back''))
                | Some o1 \<Rightarrow>
                    if os_size o1 \<noteq> us_totalSize row
                    then Inl (InternalServerError (js ''Assembled object is '' @ show_nat (nat (os_size o1)) @ js '' bytes, expected '' @
                           show_nat (nat (us_totalSize row))))
                    else setStatus now (us_id row) UCompleted (endFlight i st))) of
             Inl e \<Rightarrow> (Inl e, endFlight i st)
           | Inr st' \<Rightarrow> (Inr \<lparr>cu_name = us_objectKey row, cu_size = us_totalSize row, cu_sessionId = us_id row\<rparr>, st'))
      | _ \<Rightarrow> (Inl (InternalServerError (js ''no such request'')), st))"

text \<open>\<open>None\<close>: the session is not active and nothing is left to do.\<close>

definition beginAbort :: "StorageError + unit \<Rightarrow> jstr \<Rightarrow> StorageCaller \<Rightarrow> jstr \<Rightarrow> jstr \<Rightarrow> UploadState \<Rightarrow>
    (StorageError + nat option) \<times> UploadState" where
  "beginAbort project projectId caller bucket sessionId st =
     (case bindr project (\<lambda>_. loadOwned projectId bucket sessionId caller (up_sessions st)) of
        Inl e \<Rightarrow> (Inl e, st)
      | Inr row \<Rightarrow>
          if us_status row \<noteq> UActive then (Inr None, st)
          else (case addFlight (Aborting row) st of (i, st') \<Rightarrow> (Inr (Some i), st')))"

definition endAbort :: "int \<Rightarrow> nat \<Rightarrow> StorageError + unit \<Rightarrow> UploadState \<Rightarrow> (StorageError + unit) \<times> UploadState" where
  "endAbort now i answer st =
     (case map_of (up_flights st) i of
        Some (Aborting row) \<Rightarrow>
          (case bindr answer (\<lambda>_. setStatus now (us_id row) UAborted (endFlight i st)) of
             Inl e \<Rightarrow> (Inl e, endFlight i st)
           | Inr st' \<Rightarrow> (Inr (), st'))
      | _ \<Rightarrow> (Inl (InternalServerError (js ''no such request'')), st))"

section \<open>Housekeeping\<close>

definition staleSessions :: "int \<Rightarrow> UploadState \<Rightarrow> StorageUploadSession list" where
  "staleSessions now st = take EXPIRE_BATCH (filter (\<lambda>r. us_status r = UActive \<and> us_expiresAt r < now) (up_sessions st))"

definition expireOne :: "int \<Rightarrow> jstr \<Rightarrow> UploadState \<Rightarrow> UploadState" where
  "expireOne now sessionId =
     updateSession (\<lambda>r. us_id r = sessionId \<and> us_status r = UActive) (\<lambda>r. r\<lparr>us_status := UExpired, us_updatedAt := now\<rparr>)"

definition purgeable :: "int \<Rightarrow> StorageUploadSession \<Rightarrow> bool" where
  "purgeable now r \<longleftrightarrow> us_status r \<noteq> UActive \<and> us_updatedAt r < now - FINISHED_RETENTION_MS"

definition purge :: "int \<Rightarrow> UploadState \<Rightarrow> UploadState" where
  "purge now st = st\<lparr>up_sessions := filter (\<lambda>r. \<not> purgeable now r) (up_sessions st)\<rparr>"

text \<open>The sweep when nothing comes between its writes: the sessions expired and purged.\<close>

definition expireStaleSessions :: "int \<Rightarrow> UploadState \<Rightarrow> (nat \<times> nat) \<times> UploadState" where
  "expireStaleSessions now st =
     (let st' = foldl (\<lambda>s r. expireOne now (us_id r) s) st (staleSessions now st)
      in ((length (staleSessions now st), length (filter (purgeable now) (up_sessions st'))), purge now st'))"

section \<open>Histories\<close>

text \<open>
  The service as its clients see it: any operation at any time, by any caller.  A lock may vanish at any
  time, because it expired or because another request's clean-up removed it.  Ids are never used twice.
\<close>

definition knownIds :: "UploadState \<Rightarrow> jstr set" where
  "knownIds st = us_id ` set (up_sessions st) \<union> (\<lambda>f. us_id (flightRow (snd f))) ` set (up_flights st)"

inductive uploadStep :: "UploadConfig \<Rightarrow> UploadState \<Rightarrow> UploadState \<Rightarrow> bool" for cfg where
  create: "ca_id answers \<notin> knownIds st \<Longrightarrow>
     uploadStep cfg st (snd (createUploadSession cfg now projectId caller bucket input answers st))"
| append: "uploadStep cfg st (snd (beginAppend now project redisError projectId caller bucket sessionId offset len st))"
| appended: "uploadStep cfg st (snd (endAppend now i etag st))"
| complete: "uploadStep cfg st (snd (beginComplete now project projectId caller bucket sessionId st))"
| completed: "uploadStep cfg st (snd (endComplete now i finish stat st))"
| abort: "uploadStep cfg st (snd (beginAbort project projectId caller bucket sessionId st))"
| aborted: "uploadStep cfg st (snd (endAbort now i done st))"
| expire: "r \<in> set (staleSessions now st) \<Longrightarrow> uploadStep cfg st (expireOne now (us_id r) st)"
| purge: "uploadStep cfg st (purge now st)"
| unlock: "uploadStep cfg st (dropLock sessionId st)"

definition noUploads :: "UploadState \<Rightarrow> bool" where
  "noUploads st \<longleftrightarrow> up_sessions st = [] \<and> up_flights st = []"

end
