(* ===== verification/UploadRules.thy ===== *)
theory UploadRules
  imports UploadSession
begin

text \<open>
  What resumable uploads guarantee over every interleaving of requests, also when locks are lost: the
  recorded parts tile the object, a completed session is complete, and no operation takes back a chunk it
  has acknowledged or revives a session.  The concrete cases at the end show what a lost lock still breaks.
\<close>

inductive_cases uploadStepE: "uploadStep cfg st st'"

section \<open>Well-formed sessions\<close>

definition partsTile :: "int \<Rightarrow> int \<Rightarrow> UploadPart list \<Rightarrow> bool" where
  "partsTile chunk whole parts \<longleftrightarrow>
     map pt_part parts = [1..int (length parts)] \<and>
     (let uploaded = sum_list (map pt_size parts) in
        uploaded \<le> whole \<and> (uploaded < whole \<longrightarrow> list_all (\<lambda>p. pt_size p = chunk) parts)) \<and>
     list_all (\<lambda>p. pt_size p = chunk) (butlast parts) \<and>
     list_all (\<lambda>p. 0 < pt_size p \<and> pt_size p \<le> chunk) parts"

definition chunkOk :: "int \<Rightarrow> int \<Rightarrow> bool" where
  "chunkOk chunk whole \<longleftrightarrow> 0 < chunk \<and> chunk \<le> whole \<and> chunk \<le> MAX_CHUNK_BYTES \<and> (MIN_CHUNK_BYTES \<le> chunk \<or> chunk = whole)"

definition sessionOk :: "StorageUploadSession \<Rightarrow> bool" where
  "sessionOk r \<longleftrightarrow>
     chunkOk (us_chunkSize r) (us_totalSize r) \<and> partsTile (us_chunkSize r) (us_totalSize r) (us_parts r) \<and>
     us_uploadedSize r = sum_list (map pt_size (us_parts r)) \<and>
     (us_status r = UCompleted \<longrightarrow> us_uploadedSize r = us_totalSize r)"

definition evolves :: "StorageUploadSession \<Rightarrow> StorageUploadSession \<Rightarrow> bool" where
  "evolves r r' \<longleftrightarrow>
     us_id r' = us_id r \<and> us_projectId r' = us_projectId r \<and> us_bucket r' = us_bucket r \<and> us_objectKey r' = us_objectKey r \<and>
     us_contentType r' = us_contentType r \<and> us_totalSize r' = us_totalSize r \<and> us_chunkSize r' = us_chunkSize r \<and>
     us_uploadId r' = us_uploadId r \<and> us_ownerSub r' = us_ownerSub r \<and> us_expiresAt r' = us_expiresAt r \<and>
     prefix (us_parts r) (us_parts r') \<and> (us_status r \<noteq> UActive \<longrightarrow> us_status r' \<noteq> UActive)"

lemma evolves_refl [simp]: "evolves r r"
  by (simp add: evolves_def)

lemma evolves_trans: "evolves a b \<Longrightarrow> evolves b c \<Longrightarrow> evolves a c"
  by (auto simp: evolves_def dest: prefix_order.trans)

lemma sum_positive: "list_all (\<lambda>p. 0 < pt_size p \<and> pt_size p \<le> chunk) ps \<Longrightarrow> ps \<noteq> [] \<Longrightarrow> 0 < sum_list (map pt_size ps)"
proof (induction ps)
  case (Cons p ps)
  then show ?case by (cases "ps = []") auto
qed simp

lemma sum_nonneg: "list_all (\<lambda>p. 0 < pt_size p \<and> pt_size p \<le> chunk) ps \<Longrightarrow> 0 \<le> sum_list (map pt_size ps)"
  by (cases "ps = []") (auto dest: sum_positive)

lemma sum_equal: "list_all (\<lambda>p. pt_size p = chunk) ps \<Longrightarrow> sum_list (map pt_size ps) = chunk * int (length ps)"
  by (induction ps) (auto simp: algebra_simps)

lemma evolved_size:
  assumes "evolves r r'" "sessionOk r" "sessionOk r'"
  shows "us_uploadedSize r \<le> us_uploadedSize r'" "us_uploadedSize r = us_uploadedSize r' \<Longrightarrow> us_parts r' = us_parts r"
proof -
  obtain ps where ps: "us_parts r' = us_parts r @ ps" using assms(1) by (auto simp: evolves_def prefix_def)
  with assms(3) have pos: "list_all (\<lambda>p. 0 < pt_size p \<and> pt_size p \<le> us_chunkSize r') ps"
    by (auto simp: sessionOk_def partsTile_def)
  with ps assms sum_nonneg [OF pos] show "us_uploadedSize r \<le> us_uploadedSize r'" by (simp add: sessionOk_def)
  show "us_uploadedSize r = us_uploadedSize r' \<Longrightarrow> us_parts r' = us_parts r"
    using ps assms sum_positive [OF pos] by (cases "ps = []") (simp_all add: sessionOk_def)
qed

section \<open>Requests that wait for the store\<close>

primrec flightOk :: "Flight \<Rightarrow> bool" where
  "flightOk (Appending row offset len part) \<longleftrightarrow>
     offset = us_uploadedSize row \<and> 0 < len \<and> len \<le> us_chunkSize row \<and> offset + len \<le> us_totalSize row \<and>
     (offset + len = us_totalSize row \<or> len = us_chunkSize row) \<and> part = int (length (us_parts row)) + 1"
| "flightOk (Completing row) \<longleftrightarrow> us_uploadedSize row = us_totalSize row"
| "flightOk (Aborting row) \<longleftrightarrow> True"

definition flightInv :: "StorageUploadSession list \<Rightarrow> Flight \<Rightarrow> bool" where
  "flightInv rows f \<longleftrightarrow> sessionOk (flightRow f) \<and> flightOk f \<and>
     (\<forall>r\<in>set rows. us_id r = us_id (flightRow f) \<longrightarrow> evolves (flightRow f) r)"

definition uploadInv :: "UploadState \<Rightarrow> bool" where
  "uploadInv st \<longleftrightarrow>
     distinct (map us_id (up_sessions st)) \<and> (\<forall>r\<in>set (up_sessions st). sessionOk r) \<and>
     (\<forall>f\<in>set (up_flights st). flightInv (up_sessions st) (snd f))"

lemma uploadInvD:
  assumes "uploadInv st"
  shows "r \<in> set (up_sessions st) \<Longrightarrow> sessionOk r"
    and "f \<in> set (up_flights st) \<Longrightarrow> flightInv (up_sessions st) (snd f)"
    and "r \<in> set (up_sessions st) \<Longrightarrow> r' \<in> set (up_sessions st) \<Longrightarrow> us_id r = us_id r' \<Longrightarrow> r = r'"
  using assms by (auto simp: uploadInv_def distinct_map dest: inj_onD)

text \<open>Every operation changes rows by \<open>evolves\<close>, drops rows, or drops requests.\<close>

definition moves :: "UploadState \<Rightarrow> UploadState \<Rightarrow> bool" where
  "moves st st' \<longleftrightarrow> (\<forall>r'\<in>set (up_sessions st'). \<forall>r\<in>set (up_sessions st). us_id r = us_id r' \<longrightarrow> evolves r r')"

definition keeps :: "UploadState \<Rightarrow> UploadState \<Rightarrow> bool" where
  "keeps st st' \<longleftrightarrow> uploadInv st' \<and> moves st st'"

lemma same_rows_keep:
  "uploadInv st \<Longrightarrow> up_sessions st' = up_sessions st \<Longrightarrow> \<forall>f\<in>set (up_flights st'). flightInv (up_sessions st) (snd f) \<Longrightarrow> keeps st st'"
  by (auto simp: keeps_def moves_def uploadInv_def distinct_map dest: inj_onD)

lemma keeps_refl: "uploadInv st \<Longrightarrow> keeps st st"
  by (rule same_rows_keep) (auto simp: uploadInv_def)

lemma keeps_later:
  assumes "uploadInv st" "up_sessions st1 = up_sessions st" "set (up_flights st1) \<subseteq> set (up_flights st)"
    and "uploadInv st1 \<Longrightarrow> keeps st1 st2"
  shows "keeps st st2"
proof -
  have "keeps st st1" by (rule same_rows_keep) (use assms in \<open>auto simp: uploadInv_def\<close>)
  with assms show ?thesis by (auto simp: keeps_def moves_def)
qed

lemma updateSession_simps:
  "up_sessions (updateSession where change st) = map (\<lambda>r. if where r then change r else r) (up_sessions st)"
  "up_flights (updateSession where change st) = up_flights st"
  by (simp_all add: updateSession_def)

lemma update_keeps:
  assumes inv: "uploadInv st"
    and change: "\<And>r. r \<in> set (up_sessions st) \<Longrightarrow> where r \<Longrightarrow> evolves r (change r) \<and> sessionOk (change r)"
  shows "keeps st (updateSession where change st)"
proof -
  let ?g = "\<lambda>r. if where r then change r else r"
  have g: "evolves r (?g r)" "sessionOk (?g r)" if "r \<in> set (up_sessions st)" for r
    using change [OF that] uploadInvD(1) [OF inv that] by auto
  then have ids: "map us_id (map ?g (up_sessions st)) = map us_id (up_sessions st)"
    by (auto simp: evolves_def)
  have "flightInv (map ?g (up_sessions st)) (snd f)" if "f \<in> set (up_flights st)" for f
  proof -
    have "evolves (flightRow (snd f)) (?g r)" if "r \<in> set (up_sessions st)" "us_id (?g r) = us_id (flightRow (snd f))" for r
      using uploadInvD(2) [OF inv \<open>f \<in> set (up_flights st)\<close>] that g(1) [OF that(1)]
      by (auto simp: flightInv_def evolves_def dest: prefix_order.trans)
    then have "\<forall>r\<in>set (map ?g (up_sessions st)). us_id r = us_id (flightRow (snd f)) \<longrightarrow> evolves (flightRow (snd f)) r"
      unfolding set_map by blast
    with uploadInvD(2) [OF inv that] show ?thesis by (simp only: flightInv_def)
  qed
  moreover have "distinct (map us_id (map ?g (up_sessions st)))" using inv unfolding ids by (simp add: uploadInv_def)
  moreover have "\<forall>r\<in>set (map ?g (up_sessions st)). sessionOk r" 
    unfolding set_map ball_simps by (intro ballI g(2))
  ultimately have "uploadInv (updateSession where change st)"
    unfolding uploadInv_def updateSession_simps by blast
  moreover have "evolves r r'" if "r \<in> set (up_sessions st)" "r' \<in> set (map ?g (up_sessions st))" "us_id r = us_id r'" for r r'
  proof -
    from that(2) obtain x where x: "x \<in> set (up_sessions st)" "r' = ?g x" unfolding set_map by blast
    from g(1) [OF x(1)] x(2) that(3) have "us_id r = us_id x" by (simp only: evolves_def)
    with uploadInvD(3) [OF inv that(1) x(1)] have "r = x" .
    with g(1) [OF x(1)] x(2) show ?thesis by (simp only:)
  qed
  then have "moves st (updateSession where change st)"
    unfolding moves_def updateSession_simps by blast
  ultimately show ?thesis by (simp add: keeps_def)
qed

section \<open>The operations\<close>

lemma dropLock_simps [simp]:
  "up_sessions (dropLock i st) = up_sessions st" "up_flights (dropLock i st) = up_flights st" "up_next (dropLock i st) = up_next st"
  by (simp_all add: dropLock_def)

lemma endFlight_simps [simp]:
  "up_sessions (endFlight i st) = up_sessions st" "up_flights (endFlight i st) = filter (\<lambda>f. fst f \<noteq> i) (up_flights st)"
  by (simp_all add: endFlight_def)

lemma takeLock_simps: "takeLock now i st = (b, st') \<Longrightarrow> up_sessions st' = up_sessions st \<and> up_flights st' = up_flights st"
  by (auto simp: takeLock_def split: option.splits if_splits)

lemma flight_in: "map_of (up_flights st) i = Some f \<Longrightarrow> uploadInv st \<Longrightarrow> flightInv (up_sessions st) f"
  using uploadInvD(2) [of st "(i, f)"] by (auto dest: map_of_SomeD)

lemma find_in: "findSession i rows = Some r \<Longrightarrow> r \<in> set rows \<and> us_id r = i"
  by (auto simp: findSession_def find_Some_iff)

lemma loadOwned_in: "loadOwned projectId bucket i caller rows = Inr r \<Longrightarrow> r \<in> set rows \<and> us_id r = i"
  by (auto simp: loadOwned_def dest: find_in split: option.splits if_splits StorageCaller.splits)

lemma new_flight_ok:
  assumes "uploadInv st" "row \<in> set (up_sessions st)" "flightRow f = row" "flightOk f"
  shows "flightInv (up_sessions st) f"
proof -
  have "evolves (flightRow f) r" if "r \<in> set (up_sessions st)" "us_id r = us_id (flightRow f)" for r
    using uploadInvD(3) [OF assms(1) that(1) assms(2)] that(2) assms(3) by simp
  with assms(2-4) uploadInvD(1) [OF assms(1,2)] show ?thesis by (simp add: flightInv_def)
qed

lemma addFlight_keeps:
  assumes "uploadInv st" "row \<in> set (up_sessions st)" "flightRow f = row" "flightOk f"
  shows "keeps st (snd (addFlight f st))"
  by (rule same_rows_keep) (use assms new_flight_ok [OF assms] in \<open>auto simp: addFlight_def dest: uploadInvD(2)\<close>)

lemma chunkSizeFor_ok: "0 < bytes \<Longrightarrow> chunkOk (chunkSizeFor cfg bytes requested) bytes"
  by (auto simp: chunkOk_def chunkSizeFor_def Let_def MIN_CHUNK_BYTES_def MAX_CHUNK_BYTES_def)

lemma sizeOf_positive: "sizeOf cfg raw = Inr n \<Longrightarrow> 0 < n"
  by (auto simp: sizeOf_def isInteger_def less_le split: option.splits if_splits)

lemma create_keeps:
  assumes inv: "uploadInv st" and fresh: "ca_id answers \<notin> knownIds st"
  shows "keeps st (snd (createUploadSession cfg now projectId caller bucket input answers st))"
proof (cases "fst (createUploadSession cfg now projectId caller bucket input answers st)")
  case (Inl e)
  then have "snd (createUploadSession cfg now projectId caller bucket input answers st) = st"
    by (auto simp: createUploadSession_def split: sum.splits)
  with inv keeps_refl show ?thesis by simp
next
  case (Inr v)
  then obtain path bytes uploadId where bytes: "sizeOf cfg (ci_size input) = Inr bytes"
      and st': "snd (createUploadSession cfg now projectId caller bucket input answers st) =
        st\<lparr>up_sessions := up_sessions st @ [newSession cfg now projectId caller bucket input (ca_id answers) path bytes uploadId]\<rparr>"
    by (auto simp: createUploadSession_def bindr_eq_Inr split: sum.splits)
  define row where "row = newSession cfg now projectId caller bucket input (ca_id answers) path bytes uploadId"
  have row: "us_id row = ca_id answers" "sessionOk row"
    using sizeOf_positive [OF bytes] chunkSizeFor_ok [of bytes]
    by (simp_all add: row_def newSession_def sessionOk_def partsTile_def)
  have "flightInv (up_sessions st @ [row]) (snd f)" if "f \<in> set (up_flights st)" for f
    using uploadInvD(2) [OF inv that] fresh row(1) that by (auto simp: flightInv_def knownIds_def)
  with inv row fresh have "uploadInv (st\<lparr>up_sessions := up_sessions st @ [row]\<rparr>)"
    by (auto simp: uploadInv_def knownIds_def)
  moreover have "us_id r \<noteq> us_id row" if "r \<in> set (up_sessions st)" for r
    using fresh row(1) that by (metis UnI1 imageI knownIds_def)
  then have "moves st (st\<lparr>up_sessions := up_sessions st @ [row]\<rparr>)"
    using inv by (auto simp: moves_def dest: uploadInvD(3))
  ultimately show ?thesis unfolding st' keeps_def row_def by blast
qed

lemma chunkPart_ok:
  assumes "sessionOk row" "chunkPart row offset (int len) = Inr part"
  shows "flightOk (Appending row \<lfloor>offset\<rfloor> (int len) part)"
proof -
  have off: "\<lfloor>offset\<rfloor> = us_uploadedSize row" and len: "0 < int len" "int len \<le> us_chunkSize row"
    and bound: "us_uploadedSize row + int len \<le> us_totalSize row"
    and last: "us_uploadedSize row + int len = us_totalSize row \<or> int len = us_chunkSize row"
    and part: "part = us_uploadedSize row div us_chunkSize row + 1"
    using assms(2) by (auto simp: chunkPart_def split: if_splits)
  have "list_all (\<lambda>p. pt_size p = us_chunkSize row) (us_parts row)"
    using assms(1) bound len by (auto simp: sessionOk_def partsTile_def Let_def)
  from sum_equal [OF this] assms(1) have "us_uploadedSize row div us_chunkSize row = int (length (us_parts row))"
    by (auto simp: sessionOk_def chunkOk_def)
  with off len bound last part show ?thesis by simp
qed

lemma beginAppend_keeps:
  assumes inv: "uploadInv st"
  shows "keeps st (snd (beginAppend now project redisError projectId caller bucket sessionId offset len st))"
proof -
  obtain b st1 where lock: "takeLock now sessionId st = (b, st1)" by (cases "takeLock now sessionId st")
  have inv1: "uploadInv st1" using inv takeLock_simps [OF lock] by (simp add: uploadInv_def)
  have keep1: "keeps st1 st2 \<Longrightarrow> keeps st st2" for st2
    by (rule keeps_later [OF inv, of st1]) (use takeLock_simps [OF lock] in auto)
  have drop: "keeps st (dropLock sessionId st1)"
    by (rule keep1, rule same_rows_keep [OF inv1]) (use inv1 in \<open>auto simp: uploadInv_def\<close>)
  have add: "keeps st st2"
    if "loadOwned projectId bucket sessionId caller (up_sessions st1) = Inr row" "chunkPart row offset (int len) = Inr part"
      "addFlight (Appending row \<lfloor>offset\<rfloor> (int len) part) st1 = (i, st2)" for row part i st2
  proof (rule keep1)
    have row: "row \<in> set (up_sessions st1)" using loadOwned_in [OF that(1)] by simp
    from addFlight_keeps [OF inv1 row _ chunkPart_ok [OF uploadInvD(1) [OF inv1 row] that(2)]] that(3)
    show "keeps st1 st2" by simp
  qed
  show ?thesis
    using keeps_refl [OF inv] drop by (auto simp: beginAppend_def lock bindr_def dest: add split: sum.splits bool.splits prod.splits)
qed

lemma appended_ok:
  assumes row: "sessionOk row" "flightOk (Appending row offset len part)" and r: "sessionOk r" "evolves row r" "sameVersion row r"
  shows "evolves r (appended now row offset len part etag r) \<and> sessionOk (appended now row offset len part etag r)"
proof -
  have parts: "us_parts r = us_parts row"
    using evolved_size(2) [OF r(2) row(1) r(1)] r(3) by (simp add: sameVersion_def)
  have same: "us_chunkSize r = us_chunkSize row" "us_totalSize r = us_totalSize row" using r(2) by (auto simp: evolves_def)
  have full: "list_all (\<lambda>p. pt_size p = us_chunkSize row) (us_parts row)"
    using row by (auto simp: sessionOk_def partsTile_def Let_def)
  have upto: "[1..1 + int (length (us_parts row))] = [1..int (length (us_parts row))] @ [int (length (us_parts row)) + 1]"
    by (simp add: upto_rec2)
  have "sessionOk (appended now row offset len part etag r)"
    using row r full unfolding sessionOk_def appended_def partsTile_def Let_def
    by (auto simp: same parts upto sameVersion_def)
  moreover have "evolves r (appended now row offset len part etag r)"
    using parts r(3) by (auto simp: evolves_def appended_def sameVersion_def)
  ultimately show ?thesis by blast
qed

text \<open>A request that leaves the table as it was may end and drop its lock.\<close>

lemma fewer_flights:
  "uploadInv st \<Longrightarrow> up_sessions st' = up_sessions st \<Longrightarrow> set (up_flights st') \<subseteq> set (up_flights st) \<Longrightarrow> keeps st st'"
  by (rule same_rows_keep) (auto simp: uploadInv_def)

lemma fewer_flights_inv:
  "uploadInv st \<Longrightarrow> up_sessions st' = up_sessions st \<Longrightarrow> set (up_flights st') \<subseteq> set (up_flights st) \<Longrightarrow> uploadInv st'"
  using fewer_flights [of st st'] by (simp add: keeps_def)

lemma endAppend_keeps:
  assumes inv: "uploadInv st"
  shows "keeps st (snd (endAppend now i answer st))"
proof (cases "\<exists>row offset len part. map_of (up_flights st) i = Some (Appending row offset len part)")
  case True
  then obtain row offset len part where f: "map_of (up_flights st) i = Some (Appending row offset len part)" by blast
  let ?st = "dropLock (us_id row) (endFlight i st)"
  from flight_in [OF f inv] have row: "sessionOk row" "flightOk (Appending row offset len part)"
    and later: "\<And>r. r \<in> set (up_sessions st) \<Longrightarrow> us_id r = us_id row \<Longrightarrow> evolves row r"
    by (auto simp: flightInv_def)
  have "keeps ?st (updateSession (sameVersion row) (appended now row offset len part etag) ?st)" if "uploadInv ?st" for etag
  proof (rule update_keeps [OF that])
    fix r assume r: "r \<in> set (up_sessions ?st)" "sameVersion row r"
    then have "evolves row r" using later by (simp add: sameVersion_def)
    with appended_ok [OF row _ _ r(2)] uploadInvD(1) [OF inv] r(1)
    show "evolves r (appended now row offset len part etag r) \<and> sessionOk (appended now row offset len part etag r)" by simp
  qed
  then have "keeps st (updateSession (sameVersion row) (appended now row offset len part etag) ?st)" for etag
    by (rule keeps_later [OF inv, of ?st, rotated 2]) auto
  moreover have "keeps st ?st" by (rule fewer_flights [OF inv]) auto
  ultimately show ?thesis by (auto simp: endAppend_def f Let_def split: sum.splits)
next
  case False
  then have "snd (endAppend now i answer st) = st" by (auto simp: endAppend_def split: option.splits Flight.splits)
  with keeps_refl [OF inv] show ?thesis by simp
qed

lemma setStatus_keeps:
  assumes inv: "uploadInv st" and set: "setStatus now sessionId status st = Inr st'" and status: "status \<noteq> UActive"
    and whole: "status = UCompleted \<Longrightarrow>
      (\<And>r. r \<in> set (up_sessions st) \<Longrightarrow> us_id r = sessionId \<Longrightarrow> us_uploadedSize r = us_totalSize r)"
  shows "keeps st st'"
proof -
  from set have "st' = updateSession (\<lambda>r. us_id r = sessionId) (\<lambda>r. r\<lparr>us_status := status, us_updatedAt := now\<rparr>) st"
    by (simp add: setStatus_def split: if_splits)
  moreover have "sessionOk (r\<lparr>us_status := status, us_updatedAt := now\<rparr>)"
    if "r \<in> set (up_sessions st)" "us_id r = sessionId" for r
    using uploadInvD(1) [OF inv that(1)] whole [OF _ that] by (auto simp: sessionOk_def)
  ultimately show ?thesis using update_keeps [OF inv] status by (auto simp: evolves_def)
qed

lemma beginComplete_keeps:
  assumes inv: "uploadInv st"
  shows "keeps st (snd (beginComplete now project projectId caller bucket sessionId st))"
proof -
  have "keeps st st'" if "loadOwned projectId bucket sessionId caller (up_sessions st) = Inr row"
      "us_uploadedSize row = us_totalSize row" "addFlight (Completing row) st = (i, st')" for row i st'
    using addFlight_keeps [OF inv, of row "Completing row"] loadOwned_in [OF that(1)] that(2,3) by simp
  with keeps_refl [OF inv] show ?thesis
    by (auto simp: beginComplete_def bindr_def split: sum.splits prod.splits if_splits)
qed

lemma endComplete_keeps:
  assumes inv: "uploadInv st"
  shows "keeps st (snd (endComplete now i finish stat st))"
proof (cases "\<exists>row. map_of (up_flights st) i = Some (Completing row)")
  case True
  then obtain row where f: "map_of (up_flights st) i = Some (Completing row)" by blast
  from flight_in [OF f inv] have row: "sessionOk row" "us_uploadedSize row = us_totalSize row"
    and later: "\<And>r. r \<in> set (up_sessions st) \<Longrightarrow> us_id r = us_id row \<Longrightarrow> evolves row r"
    by (auto simp: flightInv_def)
  have full: "us_uploadedSize r = us_totalSize r" if r: "r \<in> set (up_sessions st)" "us_id r = us_id row" for r
    using evolved_size(1) [OF later [OF r] row(1) uploadInvD(1) [OF inv r(1)]] later [OF r] row(2) uploadInvD(1) [OF inv r(1)]
    by (auto simp: evolves_def sessionOk_def partsTile_def Let_def)
  have "keeps st st'" if "setStatus now (us_id row) UCompleted (endFlight i st) = Inr st'" for st'
  proof (rule keeps_later [OF inv, of "endFlight i st"])
    assume "uploadInv (endFlight i st)"
    then show "keeps (endFlight i st) st'" using setStatus_keeps [OF _ that] full by simp
  qed auto
  moreover have "keeps st (endFlight i st)" by (rule fewer_flights [OF inv]) auto
  ultimately show ?thesis
    by (auto simp: endComplete_def f bindr_def split: sum.splits option.splits if_splits)
next
  case False
  then have "snd (endComplete now i finish stat st) = st" by (auto simp: endComplete_def split: option.splits Flight.splits)
  with keeps_refl [OF inv] show ?thesis by simp
qed

lemma beginAbort_keeps:
  assumes inv: "uploadInv st"
  shows "keeps st (snd (beginAbort project projectId caller bucket sessionId st))"
proof -
  have "keeps st st'" if "loadOwned projectId bucket sessionId caller (up_sessions st) = Inr row"
      "addFlight (Aborting row) st = (i, st')" for row i st'
    using addFlight_keeps [OF inv, of row "Aborting row"] loadOwned_in [OF that(1)] that(2) by simp
  with keeps_refl [OF inv] show ?thesis
    by (auto simp: beginAbort_def bindr_def split: sum.splits prod.splits if_splits)
qed

lemma endAbort_keeps:
  assumes inv: "uploadInv st"
  shows "keeps st (snd (endAbort now i answer st))"
proof -
  have "keeps st st'" if "setStatus now sessionId UAborted (endFlight i st) = Inr st'" for sessionId st'
  proof (rule keeps_later [OF inv, of "endFlight i st"])
    assume "uploadInv (endFlight i st)"
    then show "keeps (endFlight i st) st'" using setStatus_keeps [OF _ that] by simp
  qed auto
  moreover have "keeps st (endFlight i st)" by (rule fewer_flights [OF inv]) auto
  ultimately show ?thesis using keeps_refl [OF inv]
    by (auto simp: endAbort_def bindr_def split: option.splits Flight.splits sum.splits)
qed

lemma expireOne_keeps: "uploadInv st \<Longrightarrow> keeps st (expireOne now sessionId st)"
  unfolding expireOne_def
  by (rule update_keeps) (auto simp: evolves_def sessionOk_def dest: uploadInvD(1))

lemma purge_keeps:
  assumes inv: "uploadInv st"
  shows "keeps st (purge now st)"
proof -
  have "distinct (map us_id (filter (\<lambda>r. \<not> purgeable now r) (up_sessions st)))"
    using inv by (simp add: uploadInv_def distinct_map_filter)
  with inv show ?thesis
    by (auto simp: keeps_def moves_def purge_def flightInv_def uploadInv_def dest: uploadInvD(3) [OF inv])
qed

lemma uploadStep_keeps: "uploadInv st \<Longrightarrow> uploadStep cfg st st' \<Longrightarrow> keeps st st'"
  by (auto elim!: uploadStepE intro: create_keeps beginAppend_keeps endAppend_keeps beginComplete_keeps endComplete_keeps
      beginAbort_keeps endAbort_keeps expireOne_keeps purge_keeps fewer_flights)

lemma noUploads_inv: "noUploads st \<Longrightarrow> uploadInv st"
  by (simp add: noUploads_def uploadInv_def)

interpretation uploads: step_system noUploads "uploadStep cfg" uploadInv for cfg
  by unfold_locales (auto dest: noUploads_inv uploadStep_keeps simp: keeps_def)

section \<open>An upload in two chunks\<close>

definition sampleConfig :: UploadConfig where
  "sampleConfig = \<lparr>uc_defaultChunkBytes = 8388608, uc_maxTotalBytes = 5368709120, uc_ttlMs = 86400000\<rparr>"

definition noneYet :: UploadState where
  "noneYet = \<lparr>up_sessions = [], up_locks = (\<lambda>_. None), up_flights = [], up_next = 0\<rparr>"

definition opened :: UploadState where
  "opened = snd (createUploadSession sampleConfig 0 (js ''p'') ServiceKey (js ''b'')
     \<lparr>ci_path = VStr (js ''/film''), ci_size = VNum 6291456, ci_contentType = None, ci_chunkSize = VNum 100\<rparr>
     \<lparr>ca_bucket = Inr (), ca_quota = Inr (), ca_mode = None, ca_existing = Inr None, ca_uploadId = Inr (js ''u''), ca_id = js ''s''\<rparr> noneYet)"

definition sampleRow :: StorageUploadSession where
  "sampleRow =
     \<lparr>us_id = js ''s'', us_projectId = js ''p'', us_bucket = js ''b'', us_objectKey = js ''film'',
      us_contentType = js ''application/octet-stream'', us_totalSize = 6291456, us_uploadedSize = 0, us_chunkSize = 5242880,
      us_uploadId = js ''u'', us_parts = [], us_ownerSub = None, us_status = UActive, us_expiresAt = 86400000, us_updatedAt = 0\<rparr>"

lemma opened_eq: "opened = noneYet\<lparr>up_sessions := [sampleRow]\<rparr>"
  by (simp add: opened_def createUploadSession_def pathOf_def coalesce_def cleanKey_def ends_with_def starts_with_def
      hasPart_def sizeOf_def numberOf_def isInteger_def sampleConfig_def checkExisting_def newSession_def chunkSizeFor_def
      MIN_CHUNK_BYTES_def MAX_CHUNK_BYTES_def Let_def ownerTag_def sampleRow_def noneYet_def)

text \<open>A chunk, sent and stored at once.\<close>

definition chunkAt :: "int \<Rightarrow> rat \<Rightarrow> nat \<Rightarrow> jstr \<Rightarrow> UploadState \<Rightarrow> UploadState" where
  "chunkAt now offset len etag st =
     (case beginAppend now (Inr ()) None (js ''p'') ServiceKey (js ''b'') (js ''s'') offset len st of
        (Inl e, st') \<Rightarrow> st'
      | (Inr i, st') \<Rightarrow> snd (endAppend now i (Inr etag) st'))"

lemma chunkAt_steps: "(uploadStep cfg)\<^sup>*\<^sup>* st (chunkAt now offset len etag st)"
proof -
  obtain r st' where r: "beginAppend now (Inr ()) None (js ''p'') ServiceKey (js ''b'') (js ''s'') offset len st = (r, st')"
    by (cases "beginAppend now (Inr ()) None (js ''p'') ServiceKey (js ''b'') (js ''s'') offset len st")
  then have "uploadStep cfg st st'" using uploadStep.append [of cfg st now "Inr ()" None "js ''p''" ServiceKey "js ''b''" "js ''s''" offset len] by simp
  with r show ?thesis
    by (cases r) (auto simp: chunkAt_def intro: uploadStep.appended rtranclp.rtrancl_into_rtrancl)
qed

definition uploadedTwo :: UploadState where
  "uploadedTwo = chunkAt 2 5242880 1048576 (js ''e2'') (chunkAt 1 0 5242880 (js ''e1'') opened)"

lemma opened_reachable: "uploadStep sampleConfig noneYet opened"
  unfolding opened_def by (rule uploadStep.create) (simp add: knownIds_def noneYet_def)

lemma uploadedTwo_reachable: "(uploadStep sampleConfig)\<^sup>*\<^sup>* noneYet uploadedTwo"
  unfolding uploadedTwo_def using opened_reachable chunkAt_steps
  by (meson r_into_rtranclp rtranclp_trans)

lemmas upload_evaluation =
  chunkAt_def beginAppend_def endAppend_def takeLock_def loadOwned_def findSession_def isPrivileged_def assertActive_def
  chunkPart_def isInteger_def addFlight_def endFlight_def dropLock_def sameVersion_def updateSession_def appended_def
  sampleRow_def noneYet_def LOCK_TTL_SECONDS_def sessionView_def

lemma uploadedTwo_rows:
  "up_sessions uploadedTwo =
     [sampleRow\<lparr>us_uploadedSize := 6291456, us_updatedAt := 2,
        us_parts := [\<lparr>pt_part = 1, pt_etag = js ''e1'', pt_size = 5242880\<rparr>, \<lparr>pt_part = 2, pt_etag = js ''e2'', pt_size = 1048576\<rparr>]\<rparr>]"
  by (simp add: uploadedTwo_def opened_eq upload_evaluation)

section \<open>The properties\<close>

lemma reached_ok: "noUploads st \<Longrightarrow> (uploadStep cfg)\<^sup>*\<^sup>* st st' \<Longrightarrow> r \<in> set (up_sessions st') \<Longrightarrow> sessionOk r"
  using uploads.reachable_inv uploadInvD(1) by blast

lemma sorted_parts:
  assumes "partsTile chunk whole parts"
  shows "sort_key pt_part parts = parts"
proof (rule sort_key_id_if_sorted)
  show "sorted (map pt_part parts)" using assms by (simp add: partsTile_def)
qed

lemma early_parts_big:
  assumes "chunkOk chunk whole" "partsTile chunk whole parts" "p \<in> set (butlast parts)"
  shows "MIN_CHUNK_BYTES \<le> pt_size p"
proof -
  have parts: "parts \<noteq> []" using assms(3) by auto
  then obtain q where q: "parts = butlast parts @ [q]" by (metis append_butlast_last_id)
  have pos: "list_all (\<lambda>p. 0 < pt_size p \<and> pt_size p \<le> chunk) (butlast parts @ [q])" using assms(2) q by (simp add: partsTile_def)
  obtain xs ys where xy: "butlast parts = xs @ p # ys" using assms(3) by (meson split_list)
  have "sum_list (map pt_size parts) = sum_list (map pt_size xs) + pt_size p + sum_list (map pt_size ys) + pt_size q"
    by (subst q) (simp add: xy)
  moreover have "0 \<le> sum_list (map pt_size xs)" "0 \<le> sum_list (map pt_size ys)" "0 < pt_size q"
    using pos sum_nonneg [of chunk xs] sum_nonneg [of chunk ys] by (auto simp: xy)
  ultimately have "pt_size p < whole" using assms(2) by (auto simp: partsTile_def Let_def)
  moreover have "pt_size p = chunk" using assms(2,3) by (auto simp: partsTile_def list_all_iff)
  ultimately show ?thesis using assms(1) by (auto simp: chunkOk_def)
qed

text \<open>C22.  In every history the recorded parts of a session tile the object: they are numbered from 1
  without gaps, their sizes add up to the acknowledged bytes and never exceed the declared size, every
  part but the last has the session's chunk size and at least the 5 MiB that the store requires, a
  completed session has all its bytes, and the request that assembles the object names the parts in
  this order.\<close>

theorem parts_tile_the_object:
  assumes "noUploads st" "(uploadStep cfg)\<^sup>*\<^sup>* st st'" "r \<in> set (up_sessions st')"
  shows "map pt_part (us_parts r) = [1..int (length (us_parts r))] \<and>
    sum_list (map pt_size (us_parts r)) = us_uploadedSize r \<and> us_uploadedSize r \<le> us_totalSize r \<and>
    list_all (\<lambda>p. pt_size p = us_chunkSize r \<and> MIN_CHUNK_BYTES \<le> pt_size p) (butlast (us_parts r)) \<and>
    list_all (\<lambda>p. 0 < pt_size p \<and> pt_size p \<le> us_chunkSize r) (us_parts r) \<and>
    (us_status r = UCompleted \<longrightarrow> us_uploadedSize r = us_totalSize r) \<and>
    finishParts r = map (\<lambda>p. (pt_part p, pt_etag p)) (us_parts r)"
proof -
  note ok = reached_ok [OF assms]
  then have tile: "partsTile (us_chunkSize r) (us_totalSize r) (us_parts r)" and chunk: "chunkOk (us_chunkSize r) (us_totalSize r)"
    by (simp_all add: sessionOk_def)
  have "list_all (\<lambda>p. pt_size p = us_chunkSize r \<and> MIN_CHUNK_BYTES \<le> pt_size p) (butlast (us_parts r))"
    using tile early_parts_big [OF chunk tile] by (auto simp: partsTile_def list_all_iff)
  moreover have "finishParts r = map (\<lambda>p. (pt_part p, pt_etag p)) (us_parts r)"
    by (simp add: finishParts_def sorted_parts [OF tile])
  ultimately show ?thesis using ok by (auto simp: sessionOk_def partsTile_def Let_def)
qed

theorem parts_tile_the_object_witness:
  "\<exists>st' r. (uploadStep sampleConfig)\<^sup>*\<^sup>* noneYet st' \<and> r \<in> set (up_sessions st') \<and> us_uploadedSize r = 6291456 \<and>
     map pt_part (us_parts r) = [1, 2] \<and> finishParts r = [(1, js ''e1''), (2, js ''e2'')]"
proof (intro exI conjI)
  let ?r = "hd (up_sessions uploadedTwo)"
  show "(uploadStep sampleConfig)\<^sup>*\<^sup>* noneYet uploadedTwo" by (rule uploadedTwo_reachable)
  have "noUploads noneYet" by (simp add: noUploads_def noneYet_def)
  note tile = parts_tile_the_object [OF this uploadedTwo_reachable, of ?r]
  show "?r \<in> set (up_sessions uploadedTwo)" "us_uploadedSize ?r = 6291456" by (simp_all add: uploadedTwo_rows)
  with tile show "map pt_part (us_parts ?r) = [1, 2]" "finishParts ?r = [(1, js ''e1''), (2, js ''e2'')]"
    by (simp_all add: uploadedTwo_rows upto_rec1)
qed

text \<open>C20.  No operation takes back a chunk it has acknowledged, changes what a session is for or makes a
  session active again, whatever requests are in flight and whatever locks are lost.\<close>

theorem acknowledged_chunks_stay:
  assumes "noUploads st" "(uploadStep cfg)\<^sup>*\<^sup>* st st'" "uploadStep cfg st' st''"
    and "r \<in> set (up_sessions st')" "r'' \<in> set (up_sessions st'')" "us_id r'' = us_id r"
  shows "prefix (us_parts r) (us_parts r'') \<and> us_uploadedSize r \<le> us_uploadedSize r'' \<and>
    (us_status r \<noteq> UActive \<longrightarrow> us_status r'' \<noteq> UActive) \<and>
    us_objectKey r'' = us_objectKey r \<and> us_totalSize r'' = us_totalSize r \<and> us_uploadId r'' = us_uploadId r"
proof -
  have "uploadInv st'" using assms(1,2) uploads.reachable_inv by blast
  from uploadStep_keeps [OF this assms(3)] assms(4-6) have "evolves r r''" by (simp add: keeps_def moves_def)
  moreover have "sessionOk r''" using reached_ok [OF assms(1) _ assms(5)] assms(2,3) by (meson rtranclp.rtrancl_into_rtrancl)
  ultimately show ?thesis
    using evolved_size(1) [of r r''] reached_ok [OF assms(1,2,4)] by (simp add: evolves_def)
qed

theorem acknowledged_chunks_stay_witness:
  "us_uploadedSize (hd (up_sessions uploadedTwo)) \<le> us_uploadedSize (hd (up_sessions (dropLock (js ''s'') uploadedTwo)))"
proof -
  have "noUploads noneYet" by (simp add: noUploads_def noneYet_def)
  from acknowledged_chunks_stay [OF this uploadedTwo_reachable uploadStep.unlock,
      of "hd (up_sessions uploadedTwo)" "hd (up_sessions (dropLock (js ''s'') uploadedTwo))" "js ''s''"]
  show ?thesis by (simp add: uploadedTwo_rows)
qed

section \<open>What a lost lock breaks\<close>

text \<open>
  The first request of two has its lock expire while the store is still writing.  The second sends the
  same part again; the store keeps whichever came last, the session records the etag of the first to
  answer.  When the first ends, it removes the lock of the second.
\<close>

lemma expired_lock_sends_a_part_twice:
  "let (r1, st1) = beginAppend 0 (Inr ()) None (js ''p'') ServiceKey (js ''b'') (js ''s'') 0 5242880 opened;
       (r2, st2) = beginAppend 60000 (Inr ()) None (js ''p'') ServiceKey (js ''b'') (js ''s'') 0 5242880 st1;
       (r3, st3) = endAppend 60001 0 (Inr (js ''first'')) st2;
       (r4, st4) = endAppend 60002 1 (Inr (js ''second'')) st3
   in map snd (up_flights st2) = [Appending sampleRow 0 5242880 1, Appending sampleRow 0 5242880 1] \<and>
      length (up_flights st3) = 1 \<and> up_locks st3 (js ''s'') = None \<and> r4 = Inl (OffsetMismatch 0) \<and>
      map pt_etag (us_parts (hd (up_sessions st4))) = [js ''first'']"
  by (simp add: opened_eq upload_evaluation)

text \<open>An abort that was on its way while the upload completed marks the finished session as aborted.\<close>

lemma finished_session_is_marked_aborted:
  "let (r1, st1) = beginComplete 3 (Inr ()) (js ''p'') ServiceKey (js ''b'') (js ''s'') uploadedTwo;
       (r2, st2) = beginAbort (Inr ()) (js ''p'') ServiceKey (js ''b'') (js ''s'') st1;
       (r3, st3) = endComplete 4 (up_next uploadedTwo) (Inr ()) (Inr (Some \<lparr>os_metaData = None, os_size = 6291456\<rparr>)) st2;
       (r4, st4) = endAbort 5 (up_next uploadedTwo + 1) (Inr ()) st3
   in r3 = Inr \<lparr>cu_name = js ''film'', cu_size = 6291456, cu_sessionId = js ''s''\<rparr> \<and>
      map us_status (up_sessions st3) = [UCompleted] \<and> map us_status (up_sessions st4) = [UAborted]"
  by (simp add: uploadedTwo_def opened_eq upload_evaluation beginComplete_def beginAbort_def endComplete_def endAbort_def setStatus_def)

end
