(* ===== verification/RagChunker.thy ===== *)
theory RagChunker
  imports Prelude Json
begin

text \<open>
  The text chunker of retrieval, \<open>modules/rag/rag-chunker.ts\<close> and \<open>rag-chunk-builder.ts\<close>: the text of a
  document is cut into atoms by one of three patterns, oversized atoms are cut again, and runs of atoms
  become chunks that share a tail with the chunk before.

  Sizes are integers, as the request's validation demands.  A pattern with the flag \<open>g\<close> is its \<open>exec\<close>:
  the match at or after an index.  \<open>JSON.parse\<close>, the digest and the embedding of a chunk are arguments.
\<close>

section \<open>Options and results\<close>

datatype RagGranularity = ByWord | BySentence | ByContext

record NormalizedDoc =
  nd_text :: jstr
  nd_format :: jstr
  nd_keys :: "nat option"

record RawChunk =
  rc_index :: nat
  rc_content :: jstr
  rc_startOffset :: nat
  rc_endOffset :: nat
  rc_overlapChars :: nat

record ChunkOptions =
  co_chunkSize :: "int option"
  co_chunkOverlap :: "int option"
  co_granularity :: "RagGranularity option"

record Atom =
  at_start :: nat
  at_end :: nat

definition atomOf :: "nat \<Rightarrow> nat \<Rightarrow> Atom" where
  "atomOf s e = \<lparr>at_start = s, at_end = e\<rparr>"

definition atomLength :: "Atom \<Rightarrow> nat" where
  "atomLength a = at_end a - at_start a"

definition DEFAULT_CHUNK_SIZE :: int where "DEFAULT_CHUNK_SIZE = 1000"
definition DEFAULT_CHUNK_OVERLAP :: int where "DEFAULT_CHUNK_OVERLAP = 200"
definition MIN_CHUNK_SIZE :: int where "MIN_CHUNK_SIZE = 100"
definition MAX_CHUNK_SIZE :: int where "MAX_CHUNK_SIZE = 8000"

definition clamp :: "int \<Rightarrow> int \<Rightarrow> int \<Rightarrow> int" where
  "clamp n lo hi = max lo (min hi n)"

definition estimateTokens :: "jstr \<Rightarrow> nat" where
  "estimateTokens text = (length text + 3) div 4"

section \<open>Normalizing a document\<close>

fun collectStrings :: "json \<Rightarrow> jstr list" where
  "collectStrings (JStr s) = (let t = js_trim s in if t = [] then [] else [t])"
| "collectStrings (JArr vs) = concat (map collectStrings vs)"
| "collectStrings (JObj es) = concat (map (\<lambda>e. collectStrings (snd e)) es)"
| "collectStrings _ = []"

text \<open>\<open>Object.keys(parsed ?? {}).length\<close>; the keys of a string are its indices.\<close>

definition keyCount :: "json \<Rightarrow> nat" where
  "keyCount v = (case v of JArr vs \<Rightarrow> length vs | JObj es \<Rightarrow> length es | JStr s \<Rightarrow> length s | _ \<Rightarrow> 0)"

definition looksJson :: "jstr \<Rightarrow> jstr \<Rightarrow> bool" where
  "looksJson ct raw \<longleftrightarrow> cut_at (js ''json'') ct \<noteq> None \<or>
     (case dropWhile is_js_space (take 64 raw) of c # _ \<Rightarrow> c = ch CHR ''['' \<or> c = ch CHR ''{'' | [] \<Rightarrow> False)"

definition normalizeToJson :: "(jstr \<Rightarrow> json option) \<Rightarrow> jstr \<Rightarrow> jstr option \<Rightarrow> NormalizedDoc" where
  "normalizeToJson parse raw contentType =
     (let ct = js_lower (case contentType of Some t \<Rightarrow> t | None \<Rightarrow> []);
          textual = \<lparr>nd_text = raw,
            nd_format = (if cut_at (js ''markdown'') ct \<noteq> None \<or> cut_at (js ''md'') ct \<noteq> None then js ''markdown'' else js ''text''),
            nd_keys = None\<rparr>
      in if looksJson ct raw
         then (case parse raw of
                 Some v \<Rightarrow> \<lparr>nd_text = join [10] (collectStrings v), nd_format = js ''json'', nd_keys = Some (keyCount v)\<rparr>
               | None \<Rightarrow> textual)
         else textual)"

section \<open>Patterns\<close>

definition visible :: "jstr \<Rightarrow> bool" where
  "visible s \<longleftrightarrow> js_trim s \<noteq> []"

definition isMark :: "int \<Rightarrow> bool" where
  "isMark c \<longleftrightarrow> c = ch CHR ''.'' \<or> c = ch CHR ''!'' \<or> c = ch CHR ''?''"

text \<open>The length of the match of \<open>[\s\S]*?(?:[.!?]+(?:\s+|$)|$)\<close> at the start of a text.\<close>

fun sentenceLength :: "jstr \<Rightarrow> nat" where
  "sentenceLength [] = 0"
| "sentenceLength (c # s) =
     (let run = takeWhile isMark (c # s); rest = dropWhile isMark (c # s) in
      if isMark c \<and> (rest = [] \<or> is_js_space (hd rest)) then length run + length (takeWhile is_js_space rest)
      else 1 + sentenceLength s)"

text \<open>The length of \<open>\n\s*\n\<close> after its first line feed, and of \<open>[\s\S]+?(?:\n\s*\n|$)\<close>.\<close>

definition blankLines :: "jstr \<Rightarrow> nat" where
  "blankLines s = length (dropWhile (\<lambda>d. d \<noteq> 10) (rev (takeWhile is_js_space s)))"

fun paragraphRest :: "jstr \<Rightarrow> nat" where
  "paragraphRest [] = 0"
| "paragraphRest (c # s) = (if c = 10 \<and> blankLines s > 0 then 1 + blankLines s else 1 + paragraphRest s)"

definition paragraphLength :: "jstr \<Rightarrow> nat" where
  "paragraphLength s = (case s of [] \<Rightarrow> 0 | c # t \<Rightarrow> 1 + paragraphRest t)"

datatype AtomPattern = WordPattern | SentencePattern | ParagraphPattern

fun execAt :: "AtomPattern \<Rightarrow> jstr \<Rightarrow> nat \<Rightarrow> (nat \<times> nat) option" where
  "execAt WordPattern text p =
     (let s = p + length (takeWhile is_js_space (drop p text)); rest = drop s text;
          word = takeWhile (\<lambda>c. \<not> is_js_space c) rest
      in if word = [] then None else Some (s, s + length word + length (takeWhile is_js_space (drop (length word) rest))))"
| "execAt SentencePattern text p = (if length text < p then None else Some (p, p + sentenceLength (drop p text)))"
| "execAt ParagraphPattern text p = (if length text \<le> p then None else Some (p, p + paragraphLength (drop p text)))"

lemma sentenceLength_le: "sentenceLength s \<le> length s"
proof (induction s rule: sentenceLength.induct)
  case (2 c s)
  have "length (takeWhile isMark (c # s)) + length (takeWhile is_js_space (dropWhile isMark (c # s))) \<le> length (c # s)"
    by (metis add_left_mono length_append length_takeWhile_le takeWhile_dropWhile_id)
  with 2 show ?case by (simp add: Let_def del: takeWhile.simps dropWhile.simps)
qed simp

lemma blankLines_le: "blankLines s \<le> length s"
  unfolding blankLines_def by (metis length_dropWhile_le length_rev length_takeWhile_le order_trans)

lemma paragraphRest_le: "paragraphRest s \<le> length s"
  by (induction s) (simp_all add: blankLines_le)

lemma execAt_bounds:
  "execAt pat text p = Some (s, e) \<Longrightarrow> p \<le> s \<and> s \<le> e \<and> e \<le> length text"
proof (cases pat)
  case WordPattern
  assume "execAt pat text p = Some (s, e)"
  with WordPattern have s: "s = p + length (takeWhile is_js_space (drop p text))"
    and e: "e = s + length (takeWhile (\<lambda>c. \<not> is_js_space c) (drop s text)) +
        length (takeWhile is_js_space (drop (length (takeWhile (\<lambda>c. \<not> is_js_space c) (drop s text))) (drop s text)))"
    and word: "takeWhile (\<lambda>c. \<not> is_js_space c) (drop s text) \<noteq> []"
    by (auto simp: Let_def split: if_splits)
  let ?w = "takeWhile (\<lambda>c. \<not> is_js_space c) (drop s text)"
  have "s < length text" using word by (cases "s < length text") simp_all
  moreover have "length (takeWhile is_js_space (drop (length ?w) (drop s text))) \<le> length (drop s text) - length ?w"
    by (metis length_drop length_takeWhile_le)
  moreover have "length ?w \<le> length (drop s text)" by (rule length_takeWhile_le)
  ultimately show ?thesis using s e by simp
next
  case SentencePattern
  assume "execAt pat text p = Some (s, e)"
  with SentencePattern sentenceLength_le [of "drop p text"] show ?thesis by (auto split: if_splits)
next
  case ParagraphPattern
  assume *: "execAt pat text p = Some (s, e)"
  have "paragraphLength (drop p text) \<le> length (drop p text)"
    using paragraphRest_le [of "tl (drop p text)"] by (cases "drop p text") (simp_all add: paragraphLength_def)
  with * ParagraphPattern show ?thesis by (auto split: if_splits)
qed

section \<open>Atoms\<close>

function boundaryLoop :: "AtomPattern \<Rightarrow> jstr \<Rightarrow> nat \<Rightarrow> Atom list" where
  "boundaryLoop pat text p =
     (if length text < p then []
      else (case execAt pat text p of
              None \<Rightarrow> []
            | Some (s, e) \<Rightarrow>
                if e = s then boundaryLoop pat text (e + 1)
                else (if visible (slice text s e) then [atomOf s e] else []) @
                  (if length text \<le> e then [] else boundaryLoop pat text e)))"
  by pat_completeness auto
termination
  by (relation "measure (\<lambda>(pat, text, p). length text + 1 - p)") (auto dest: execAt_bounds)

declare boundaryLoop.simps [simp del]

definition boundaryAtoms :: "jstr \<Rightarrow> AtomPattern \<Rightarrow> Atom list" where
  "boundaryAtoms text pat =
     (let atoms = boundaryLoop pat text 0 in
      if atoms \<noteq> [] \<and> at_end (last atoms) < length text \<and> visible (drop (at_end (last atoms)) text)
      then atoms @ [atomOf (at_end (last atoms)) (length text)] else atoms)"

definition sentenceAtoms :: "jstr \<Rightarrow> Atom list" where
  "sentenceAtoms text =
     (let sentences = boundaryAtoms text SentencePattern in
      if sentences \<noteq> [] then sentences else boundaryAtoms text WordPattern)"

definition splitAtoms :: "jstr \<Rightarrow> RagGranularity \<Rightarrow> Atom list" where
  "splitAtoms text granularity =
     (if text = [] then []
      else (case granularity of
              ByWord \<Rightarrow> boundaryAtoms text WordPattern
            | ByContext \<Rightarrow>
                (let paras = boundaryAtoms text ParagraphPattern in
                 if length paras > 1 then paras else sentenceAtoms text)
            | BySentence \<Rightarrow> sentenceAtoms text))"

definition shiftAtom :: "nat \<Rightarrow> Atom \<Rightarrow> Atom" where
  "shiftAtom d a = atomOf (d + at_start a) (d + at_end a)"

definition wordAtomsInRange :: "jstr \<Rightarrow> nat \<Rightarrow> nat \<Rightarrow> Atom list" where
  "wordAtomsInRange text s e =
     (let res = map (shiftAtom s) (boundaryLoop WordPattern (slice text s e) 0) in if res = [] then [atomOf s e] else res)"

text \<open>The character windows of an oversized word; the size is never 0.\<close>

function windows :: "nat \<Rightarrow> nat \<Rightarrow> nat \<Rightarrow> Atom list" where
  "windows maxLen s e =
     (if s < e \<and> 0 < maxLen then atomOf s (min (s + maxLen) e) # windows maxLen (s + maxLen) e else [])"
  by pat_completeness auto
termination by (relation "measure (\<lambda>(maxLen, s, e). e - s)") auto

declare windows.simps [simp del]

definition cutAtom :: "jstr \<Rightarrow> nat \<Rightarrow> Atom \<Rightarrow> Atom list" where
  "cutAtom text maxLen a =
     (if atomLength a \<le> maxLen then [a]
      else concat (map (\<lambda>w. if atomLength w \<le> maxLen then [w] else windows maxLen (at_start w) (at_end w))
             (wordAtomsInRange text (at_start a) (at_end a))))"

definition enforceMaxAtomSize :: "jstr \<Rightarrow> Atom list \<Rightarrow> nat \<Rightarrow> Atom list" where
  "enforceMaxAtomSize text atoms maxLen = concat (map (cutAtom text maxLen) atoms)"

section \<open>Chunks\<close>

text \<open>How many atoms fit, given the size packed so far.\<close>

fun packCount :: "nat \<Rightarrow> nat \<Rightarrow> Atom list \<Rightarrow> nat" where
  "packCount chunkSize packed [] = 0"
| "packCount chunkSize packed (a # atoms) =
     (if packed > 0 \<and> packed + atomLength a > chunkSize then 0
      else 1 + packCount chunkSize (packed + atomLength a) atoms)"

text \<open>The first atom of the next chunk: back over the tail until the overlap is reached, never to the first atom.\<close>

fun stepBack :: "Atom list \<Rightarrow> nat \<Rightarrow> nat \<Rightarrow> nat \<Rightarrow> nat \<Rightarrow> nat" where
  "stepBack atoms i overlap 0 ov = 0"
| "stepBack atoms i overlap (Suc pos) ov =
     (if Suc pos > i + 1 \<and> ov < overlap then stepBack atoms i overlap pos (ov + atomLength (atoms ! pos)) else Suc pos)"

lemma stepBack_ge: "i < pos \<Longrightarrow> i < stepBack atoms i overlap pos ov"
  by (induction atoms i overlap pos ov rule: stepBack.induct) auto

lemma packCount_pos: "atoms \<noteq> [] \<Longrightarrow> 0 < packCount chunkSize 0 atoms"
  by (cases atoms) simp_all

lemma stepBack_less:
  assumes "\<not> length atoms \<le> i"
  shows "length atoms - stepBack atoms i overlap (i + packCount chunkSize 0 (drop i atoms)) 0 < length atoms - i"
  using assms packCount_pos [of "drop i atoms" chunkSize]
    stepBack_ge [of i "i + packCount chunkSize 0 (drop i atoms)" atoms overlap 0] by simp

function chunkLoop :: "jstr \<Rightarrow> Atom list \<Rightarrow> nat \<Rightarrow> nat \<Rightarrow> nat \<Rightarrow> nat \<Rightarrow> nat option \<Rightarrow> RawChunk list" where
  "chunkLoop text atoms chunkSize overlap i index prevEnd =
     (if length atoms \<le> i then []
      else (let j = i + packCount chunkSize 0 (drop i atoms);
                s = at_start (atoms ! i); e = at_end (atoms ! (j - 1));
                c = \<lparr>rc_index = index, rc_content = slice text s e, rc_startOffset = s, rc_endOffset = e,
                     rc_overlapChars = (case prevEnd of Some p \<Rightarrow> p - s | None \<Rightarrow> 0)\<rparr>
            in c # (if length atoms \<le> j then []
                    else chunkLoop text atoms chunkSize overlap (stepBack atoms i overlap j 0) (index + 1) (Some e))))"
  by pat_completeness auto
termination
  by (relation "measure (\<lambda>(text, atoms, chunkSize, overlap, i, index, prevEnd). length atoms - i)")
    (auto intro!: stepBack_less)

declare chunkLoop.simps [simp del]

definition chunkSizeOf :: "ChunkOptions \<Rightarrow> int" where
  "chunkSizeOf opts = clamp (case co_chunkSize opts of Some n \<Rightarrow> n | None \<Rightarrow> DEFAULT_CHUNK_SIZE) MIN_CHUNK_SIZE MAX_CHUNK_SIZE"

definition chunk :: "jstr \<Rightarrow> ChunkOptions \<Rightarrow> RawChunk list" where
  "chunk text opts =
     (let chunkSize = chunkSizeOf opts;
          overlap = max 0 (min (case co_chunkOverlap opts of Some n \<Rightarrow> n | None \<Rightarrow> DEFAULT_CHUNK_OVERLAP) (chunkSize div 2));
          granularity = (case co_granularity opts of Some g \<Rightarrow> g | None \<Rightarrow> BySentence);
          atoms = enforceMaxAtomSize text (splitAtoms text granularity) (nat chunkSize)
      in chunkLoop text atoms (nat chunkSize) (nat overlap) 0 0 None)"

section \<open>Rows\<close>

record RagChunkRow =
  rr_id :: jstr
  rr_documentId :: jstr
  rr_projectId :: jstr
  rr_chunkIndex :: nat
  rr_content :: jstr
  rr_contentHash :: jstr
  rr_startOffset :: nat
  rr_endOffset :: nat
  rr_overlapChars :: nat
  rr_tokenCount :: nat
  rr_prevChunkId :: "jstr option"
  rr_embeddingRecordId :: "jstr option"

fun buildChunkRows :: "(jstr \<Rightarrow> jstr) \<Rightarrow> (jstr \<Rightarrow> jstr \<Rightarrow> nat \<Rightarrow> 'e + jstr option) \<Rightarrow> jstr \<Rightarrow> jstr \<Rightarrow> (nat \<Rightarrow> jstr) \<Rightarrow> nat \<Rightarrow>
    jstr option \<Rightarrow> RawChunk list \<Rightarrow> 'e + RagChunkRow list" where
  "buildChunkRows sha256 embedChunk documentId projectId genId n prevChunkId [] = Inr []"
| "buildChunkRows sha256 embedChunk documentId projectId genId n prevChunkId (rc # rcs) =
     (let i = genId n in
      bindr (embedChunk (rc_content rc) i (rc_index rc)) (\<lambda>embeddingRecordId.
      bindr (buildChunkRows sha256 embedChunk documentId projectId genId (n + 1) (Some i) rcs) (\<lambda>rows.
        Inr (\<lparr>rr_id = i, rr_documentId = documentId, rr_projectId = projectId, rr_chunkIndex = rc_index rc,
             rr_content = rc_content rc, rr_contentHash = sha256 (rc_content rc), rr_startOffset = rc_startOffset rc,
             rr_endOffset = rc_endOffset rc, rr_overlapChars = rc_overlapChars rc, rr_tokenCount = estimateTokens (rc_content rc),
             rr_prevChunkId = prevChunkId, rr_embeddingRecordId = embeddingRecordId\<rparr> # rows))))"

end
