(* ===== verification/RagChunkRules.thy ===== *)
theory RagChunkRules
  imports RagChunker
begin

text \<open>
  What the chunker guarantees.  At every stage the atoms tile the text: they are in order, disjoint and not
  empty, and what lies between them is white space.  From this follow that no visible character is lost, that
  chunks advance, and that a chunk has at most the configured number of visible characters.
\<close>

section \<open>Tilings\<close>

definition blank :: "jstr \<Rightarrow> nat \<Rightarrow> nat \<Rightarrow> bool" where
  "blank doc p q \<longleftrightarrow> p \<le> q \<and> (\<forall>k. p \<le> k \<and> k < q \<longrightarrow> is_js_space (doc ! k))"

fun tiling :: "jstr \<Rightarrow> nat \<Rightarrow> nat \<Rightarrow> Atom list \<Rightarrow> bool" where
  "tiling doc p q [] \<longleftrightarrow> blank doc p q"
| "tiling doc p q (a # ats) \<longleftrightarrow> blank doc p (at_start a) \<and> at_start a < at_end a \<and> tiling doc (at_end a) q ats"

lemma atomOf_simps [simp]:
  "at_start (atomOf s e) = s" "at_end (atomOf s e) = e" "atomLength (atomOf s e) = e - s"
  by (simp_all add: atomOf_def atomLength_def)

lemma blank_refl [simp]: "blank doc p p"
  by (auto simp: blank_def)

lemma blank_trans: "blank doc p m \<Longrightarrow> blank doc m q \<Longrightarrow> blank doc p q"
  by (auto simp: blank_def) (meson not_le_imp_less)

lemma tiling_after_blank: "blank doc p m \<Longrightarrow> tiling doc m q ats \<Longrightarrow> tiling doc p q ats"
  by (cases ats) (auto intro: blank_trans)

lemma tiling_append: "tiling doc p m xs \<Longrightarrow> tiling doc m q ys \<Longrightarrow> tiling doc p q (xs @ ys)"
  by (induction doc p m xs rule: tiling.induct) (auto intro: tiling_after_blank)

lemma tiling_concat:
  "tiling doc p q ats \<Longrightarrow> (\<And>a. a \<in> set ats \<Longrightarrow> tiling doc (at_start a) (at_end a) (f a)) \<Longrightarrow> tiling doc p q (concat (map f ats))"
proof (induction doc p q ats rule: tiling.induct)
  case (2 doc p q a ats)
  then have "tiling doc p (at_end a) (f a)" by (auto intro: tiling_after_blank)
  with 2 show ?case by (auto intro: tiling_append)
qed simp

lemma tiling_atom: "tiling doc p q ats \<Longrightarrow> p \<le> q \<and> (\<forall>a\<in>set ats. p \<le> at_start a \<and> at_start a < at_end a \<and> at_end a \<le> q)"
  by (induction doc p q ats rule: tiling.induct) (force simp: blank_def)+

lemma tiling_prefix: "tiling doc p q (xs @ ys) \<Longrightarrow> xs \<noteq> [] \<Longrightarrow> tiling doc p (at_end (last xs)) xs"
  by (induction xs arbitrary: p) auto

lemma tiling_suffix: "tiling doc p q (xs @ y # ys) \<Longrightarrow> tiling doc (at_start y) q (y # ys)"
  by (induction xs arbitrary: p) auto

lemma tiling_sorted:
  "tiling doc p q ats \<Longrightarrow> sorted_wrt (\<lambda>a b. at_end a \<le> at_start b) ats"
proof (induction doc p q ats rule: tiling.induct)
  case (2 doc p q a ats)
  then show ?case using tiling_atom [of doc "at_end a" q ats] by auto
qed simp

lemma tiling_nth_less:
  assumes "tiling doc p q ats" "a < b" "b < length ats"
  shows "at_start (ats ! a) < at_start (ats ! b)" "at_end (ats ! a) < at_end (ats ! b)" "at_end (ats ! a) \<le> at_start (ats ! b)"
proof -
  from tiling_sorted [OF assms(1)] assms(2,3) show 1: "at_end (ats ! a) \<le> at_start (ats ! b)" by (auto simp: sorted_wrt_iff_nth_less)
  from tiling_atom [OF assms(1)] assms(2,3) have "at_start (ats ! a) < at_end (ats ! a)" "at_start (ats ! b) < at_end (ats ! b)" by auto
  with 1 show "at_start (ats ! a) < at_start (ats ! b)" "at_end (ats ! a) < at_end (ats ! b)" by auto
qed

lemma tiling_part:
  assumes "tiling doc p q ats" "a < b" "b \<le> length ats"
  shows "tiling doc (at_start (ats ! a)) (at_end (ats ! (b - 1))) (take (b - a) (drop a ats))"
proof -
  let ?xs = "take (b - a) (drop a ats)"
  from assms have "ats = take a ats @ ats ! a # drop (Suc a) ats" by (simp add: id_take_nth_drop)
  with assms(1) have "tiling doc (at_start (ats ! a)) q (ats ! a # drop (Suc a) ats)" by (metis tiling_suffix)
  then have "tiling doc (at_start (ats ! a)) q (?xs @ drop (b - a) (drop a ats))"
    using assms by (simp add: Cons_nth_drop_Suc del: drop_drop)
  moreover have "?xs \<noteq> []" "last ?xs = ats ! (b - 1)" using assms by (auto simp: last_conv_nth)
  ultimately show ?thesis using tiling_prefix by metis
qed

lemma tiling_covers:
  "tiling doc p q ats \<Longrightarrow> p \<le> x \<Longrightarrow> x < q \<Longrightarrow> \<not> is_js_space (doc ! x) \<Longrightarrow> \<exists>a\<in>set ats. at_start a \<le> x \<and> x < at_end a"
proof (induction doc p q ats rule: tiling.induct)
  case (2 doc p q a ats)
  then show ?case by (cases "x < at_end a"; cases "at_start a \<le> x") (auto simp: blank_def)
qed (auto simp: blank_def)

section \<open>Atoms tile the text\<close>

lemma visible_iff: "visible s \<longleftrightarrow> (\<exists>c\<in>set s. \<not> is_js_space c)"
proof -
  have "(\<forall>c\<in>set (dropWhile is_js_space s). is_js_space c) \<longleftrightarrow> (\<forall>c\<in>set s. is_js_space c)"
    by (induction s) auto
  then show ?thesis by (auto simp: visible_def js_trim_def)
qed

lemma invisible_blank: "p \<le> q \<Longrightarrow> q \<le> length doc \<Longrightarrow> \<not> visible (slice doc p q) \<Longrightarrow> blank doc p q"
  unfolding blank_def visible_iff slice_def
  by (metis (no_types, lifting) add_diff_inverse_nat diff_less_mono drop_drop in_set_conv_nth length_drop length_take
      less_imp_le_nat linorder_not_less min.absorb2 nth_drop nth_take order_trans diff_le_mono)

lemma takeWhile_blank: "p \<le> length doc \<Longrightarrow> blank doc p (p + length (takeWhile is_js_space (drop p doc)))"
  unfolding blank_def
proof (intro conjI allI impI)
  fix k assume "p \<le> length doc" "p \<le> k \<and> k < p + length (takeWhile is_js_space (drop p doc))"
  then obtain d where "k = p + d" "d < length (takeWhile is_js_space (drop p doc))" by (metis add_less_cancel_left le_Suc_ex)
  moreover from this have "is_js_space (takeWhile is_js_space (drop p doc) ! d)" by (meson nth_mem set_takeWhileD)
  ultimately show "is_js_space (doc ! k)" using \<open>p \<le> length doc\<close> by (simp add: takeWhile_nth)
qed simp

lemma execAt_gap:
  assumes "p \<le> length doc" "execAt pat doc p = Some (s, e)"
  shows "blank doc p s"
proof (cases pat)
  case WordPattern
  with assms takeWhile_blank show ?thesis by (auto simp: Let_def split: if_splits)
qed (use assms in \<open>auto split: if_splits\<close>)

lemma execAt_None:
  assumes "p \<le> length doc" "execAt pat doc p = None"
  shows "blank doc p (length doc)"
proof (cases pat)
  case WordPattern
  let ?n = "length (takeWhile is_js_space (drop p doc))"
  have "drop (p + ?n) doc = dropWhile is_js_space (drop p doc)"
    by (metis add.commute drop_drop dropWhile_eq_drop)
  moreover have "takeWhile (\<lambda>c. \<not> is_js_space c) (drop (p + ?n) doc) = []"
    using assms WordPattern by (auto simp: Let_def split: if_splits)
  ultimately have "dropWhile is_js_space (drop p doc) = []"
    by (cases "dropWhile is_js_space (drop p doc)") (auto simp: dropWhile_eq_Cons_conv split: if_splits)
  then have "p + ?n = length doc" using assms(1) by (metis append.right_neutral le_add_diff_inverse length_drop takeWhile_dropWhile_id)
  with takeWhile_blank [OF assms(1)] show ?thesis by simp
qed (use assms in \<open>auto split: if_splits\<close>)

lemma execAt_empty:
  assumes "p \<le> length doc" "execAt pat doc p = Some (s, s)"
  shows "s = length doc"
proof (cases pat)
  case SentencePattern
  then have "sentenceLength (drop p doc) = 0" "s = p" using assms by (auto split: if_splits)
  then have "drop p doc = []" by (cases "drop p doc") (auto simp: Let_def split: if_splits)
  with \<open>s = p\<close> assms(1) show ?thesis by simp
qed (use assms in \<open>auto simp: Let_def paragraphLength_def split: if_splits list.splits\<close>)

lemma boundaryLoop_tiling: "p \<le> length doc \<Longrightarrow> tiling doc p (length doc) (boundaryLoop pat doc p)"
proof (induction pat doc p rule: boundaryLoop.induct)
  case (1 pat doc p)
  show ?case
  proof (cases "execAt pat doc p")
    case None
    with 1(3) show ?thesis by (simp add: boundaryLoop.simps [of pat doc p] execAt_None)
  next
    case (Some se)
    obtain s e where se: "se = (s, e)" by (cases se)
    from execAt_bounds Some se have b: "p \<le> s" "s \<le> e" "e \<le> length doc" by auto
    have gap: "blank doc p s" using execAt_gap 1(3) Some se by blast
    show ?thesis
    proof (cases "e = s")
      case True
      with execAt_empty [OF 1(3)] Some se have "s = length doc" by blast
      with True Some se gap 1(3) show ?thesis
        by (simp add: boundaryLoop.simps [of pat doc p]) (simp add: boundaryLoop.simps)
    next
      case False
      let ?here = "if visible (slice doc s e) then [atomOf s e] else []"
      have "tiling doc p e ?here"
        using gap b False invisible_blank [of s e doc] blank_trans by (auto dest: blank_trans)
      moreover have "tiling doc e (length doc) (if length doc \<le> e then [] else boundaryLoop pat doc e)"
        using 1(2) [OF _ Some [unfolded se] refl False] 1(3) b by auto
      ultimately have "tiling doc p (length doc) (?here @ (if length doc \<le> e then [] else boundaryLoop pat doc e))"
        by (rule tiling_append)
      with Some se False 1(3) show ?thesis by (simp add: boundaryLoop.simps [of pat doc p])
    qed
  qed
qed

text \<open>The repair of a lost tail at the end of \<open>boundaryAtoms\<close> is never needed.\<close>

lemma boundaryAtoms_loop: "boundaryAtoms doc pat = boundaryLoop pat doc 0"
proof -
  let ?ats = "boundaryLoop pat doc 0"
  have t: "tiling doc 0 (length doc) ?ats" by (rule boundaryLoop_tiling) simp
  have "\<not> visible (drop (at_end (last ?ats)) doc)" if "?ats \<noteq> []"
  proof
    assume "visible (drop (at_end (last ?ats)) doc)"
    then obtain d where d: "at_end (last ?ats) + d < length doc" "\<not> is_js_space (doc ! (at_end (last ?ats) + d))"
      by (auto simp: visible_iff in_set_conv_nth less_diff_conv2) (metis add.commute less_diff_conv nth_drop)
    with tiling_covers [OF t] obtain a where a: "a \<in> set ?ats" "at_end (last ?ats) + d < at_end a" by blast
    then obtain k where "k < length ?ats" "a = ?ats ! k" by (auto simp: in_set_conv_nth)
    moreover from this a that have "k \<noteq> length ?ats - 1" by (auto simp: last_conv_nth)
    ultimately have "at_end a < at_end (last ?ats)"
      using that tiling_nth_less(2) [OF t, of k "length ?ats - 1"] by (simp add: last_conv_nth)
    with a show False by simp
  qed
  then show ?thesis by (auto simp: boundaryAtoms_def Let_def)
qed

lemma splitAtoms_tiling: "tiling doc 0 (length doc) (splitAtoms doc granularity)"
  using boundaryLoop_tiling [of 0 doc] blank_refl
  by (auto simp: splitAtoms_def sentenceAtoms_def boundaryAtoms_loop Let_def split: RagGranularity.splits)

section \<open>No atom exceeds the size\<close>

lemma windows_tiling: "s \<le> e \<Longrightarrow> 0 < maxLen \<Longrightarrow> tiling doc s e (windows maxLen s e) \<and> (\<forall>a\<in>set (windows maxLen s e). atomLength a \<le> maxLen)"
proof (induction maxLen s e rule: windows.induct)
  case (1 maxLen s e)
  show ?case
  proof (cases "s + maxLen < e")
    case True
    with 1 show ?thesis by (simp add: windows.simps [of maxLen s e])
  next
    case False
    then have "windows maxLen (s + maxLen) e = []" by (simp add: windows.simps)
    with 1(2,3) False show ?thesis by (auto simp: windows.simps [of maxLen s e])
  qed
qed

lemma blank_shift:
  assumes "blank (slice doc s e) p q" "q \<le> e - s" "e \<le> length doc"
  shows "blank doc (s + p) (s + q)"
  unfolding blank_def
proof (intro conjI allI impI)
  fix k assume k: "s + p \<le> k \<and> k < s + q"
  then obtain d where d: "k = s + d" using le_Suc_ex [of s k] by auto
  with k have "is_js_space (slice doc s e ! d)" using assms(1) by (simp add: blank_def)
  moreover have "slice doc s e ! d = doc ! k" proof -
    have "s \<le> length doc" using d k assms(2,3) by linarith
    with d k assms(2,3) show ?thesis by (simp add: slice_def)
  qed
  ultimately show "is_js_space (doc ! k)" by simp
qed (use assms in \<open>simp add: blank_def\<close>)

lemma tiling_shift:
  "tiling (slice doc s e) p q ats \<Longrightarrow> q \<le> e - s \<Longrightarrow> e \<le> length doc \<Longrightarrow> tiling doc (s + p) (s + q) (map (shiftAtom s) ats)"
proof (induction "slice doc s e" p q ats rule: tiling.induct)
  case (1 p q)
  then show ?case using blank_shift [of doc s e p q] by simp
next
  case (2 p q a ats)
  then have "at_start a \<le> e - s" using tiling_atom by fastforce
  with 2 blank_shift [of doc s e p "at_start a"] show ?case by (simp add: shiftAtom_def)
qed

lemma wordAtomsInRange_tiling:
  assumes "s < e" "e \<le> length doc"
  shows "tiling doc s e (wordAtomsInRange doc s e)"
proof -
  have "length (slice doc s e) = e - s" using assms by (simp add: slice_def)
  then have "tiling doc (s + 0) (s + (e - s)) (map (shiftAtom s) (boundaryLoop WordPattern (slice doc s e) 0))"
    using boundaryLoop_tiling [of 0 "slice doc s e" WordPattern] assms by (intro tiling_shift) auto
  with assms show ?thesis by (auto simp: wordAtomsInRange_def Let_def)
qed

lemma cutAtom_tiling:
  assumes "at_start a < at_end a" "at_end a \<le> length doc" "0 < maxLen"
  shows "tiling doc (at_start a) (at_end a) (cutAtom doc maxLen a) \<and> (\<forall>b\<in>set (cutAtom doc maxLen a). atomLength b \<le> maxLen)"
proof (cases "atomLength a \<le> maxLen")
  case False
  define g where "g = (\<lambda>w. if atomLength w \<le> maxLen then [w] else windows maxLen (at_start w) (at_end w))"
  let ?ws = "wordAtomsInRange doc (at_start a) (at_end a)"
  have ws: "tiling doc (at_start a) (at_end a) ?ws" using assms by (intro wordAtomsInRange_tiling)
  have g: "tiling doc (at_start w) (at_end w) (g w) \<and> (\<forall>b\<in>set (g w). atomLength b \<le> maxLen)" if "w \<in> set ?ws" for w
  proof -
    from tiling_atom [OF ws] that have "at_start w < at_end w" by blast
    with assms(3) windows_tiling [of "at_start w" "at_end w" maxLen doc] show ?thesis by (simp add: g_def)
  qed
  have "tiling doc (at_start a) (at_end a) (concat (map g ?ws))"
    by (rule tiling_concat [OF ws]) (rule conjunct1 [OF g])
  moreover have "\<forall>b\<in>set (concat (map g ?ws)). atomLength b \<le> maxLen" using g by auto
  moreover have "cutAtom doc maxLen a = concat (map g ?ws)" using False by (simp add: cutAtom_def g_def)
  ultimately show ?thesis by simp
qed (use assms in \<open>simp add: cutAtom_def\<close>)

lemma enforceMaxAtomSize_ok:
  assumes "tiling doc 0 (length doc) ats" "0 < maxLen"
  shows "tiling doc 0 (length doc) (enforceMaxAtomSize doc ats maxLen)"
    "\<forall>a\<in>set (enforceMaxAtomSize doc ats maxLen). atomLength a \<le> maxLen"
proof -
  have *: "tiling doc (at_start a) (at_end a) (cutAtom doc maxLen a) \<and> (\<forall>b\<in>set (cutAtom doc maxLen a). atomLength b \<le> maxLen)"
    if "a \<in> set ats" for a using tiling_atom [OF assms(1)] that assms(2) by (intro cutAtom_tiling) auto
  then show "tiling doc 0 (length doc) (enforceMaxAtomSize doc ats maxLen)"
    unfolding enforceMaxAtomSize_def using assms(1) by (intro tiling_concat) auto
  from * show "\<forall>a\<in>set (enforceMaxAtomSize doc ats maxLen). atomLength a \<le> maxLen" by (auto simp: enforceMaxAtomSize_def)
qed

section \<open>Packing\<close>

abbreviation weight :: "Atom list \<Rightarrow> nat" where
  "weight ats \<equiv> sum_list (map atomLength ats)"

lemma packCount_le: "packCount chunkSize packed ats \<le> length ats"
  by (induction chunkSize packed ats rule: packCount.induct) auto

lemma packCount_weight:
  "\<forall>a\<in>set ats. atomLength a \<le> chunkSize \<Longrightarrow> packed \<le> chunkSize \<Longrightarrow>
    packed + weight (take (packCount chunkSize packed ats) ats) \<le> chunkSize"
  by (induction chunkSize packed ats rule: packCount.induct) (auto simp: add.assoc)

lemma packCount_ge:
  "packed + weight (take n ats) \<le> chunkSize \<Longrightarrow> n \<le> length ats \<Longrightarrow> n \<le> packCount chunkSize packed ats"
proof (induction chunkSize packed ats arbitrary: n rule: packCount.induct)
  case (2 chunkSize packed a atoms)
  then show ?case by (cases n) (auto simp: add.assoc)
qed simp

lemma stepBack_le: "stepBack atoms i overlap pos ov \<le> pos"
  by (induction atoms i overlap pos ov rule: stepBack.induct) auto

lemma weight_part:
  assumes "i \<le> m" "m \<le> j"
  shows "weight (take (j - m) (drop m ats)) \<le> weight (take (j - i) (drop i ats))"
proof -
  have "take (j - i) (drop i ats) = take (m - i) (drop i ats) @ take (j - m) (drop (m - i) (drop i ats))"
    using assms by (metis Nat.diff_add_assoc2 add.commute le_add_diff_inverse2 take_add diff_add_inverse2 le_add_diff_inverse)
  with assms show ?thesis by simp
qed

section \<open>The chain of chunks\<close>

definition pieceOf :: "jstr \<Rightarrow> Atom list \<Rightarrow> nat \<Rightarrow> RawChunk \<Rightarrow> bool" where
  "pieceOf doc ats chunkSize c \<longleftrightarrow> (\<exists>a b. a < b \<and> b \<le> length ats \<and> rc_startOffset c = at_start (ats ! a) \<and>
     rc_endOffset c = at_end (ats ! (b - 1)) \<and> weight (take (b - a) (drop a ats)) \<le> chunkSize \<and>
     rc_content c = slice doc (rc_startOffset c) (rc_endOffset c))"

definition follows :: "RawChunk \<Rightarrow> RawChunk \<Rightarrow> bool" where
  "follows c d \<longleftrightarrow> rc_index d = rc_index c + 1 \<and> rc_startOffset c < rc_startOffset d \<and>
     rc_endOffset c \<le> rc_endOffset d \<and> rc_overlapChars d = rc_endOffset c - rc_startOffset d"

definition holdsAtom :: "RawChunk list \<Rightarrow> Atom \<Rightarrow> bool" where
  "holdsAtom cs a \<longleftrightarrow> (\<exists>c\<in>set cs. rc_startOffset c \<le> at_start a \<and> at_end a \<le> rc_endOffset c)"

abbreviation packEnd :: "Atom list \<Rightarrow> nat \<Rightarrow> nat \<Rightarrow> nat" where
  "packEnd ats chunkSize i \<equiv> i + packCount chunkSize 0 (drop i ats)"

definition chunkAt :: "jstr \<Rightarrow> Atom list \<Rightarrow> nat \<Rightarrow> nat \<Rightarrow> nat \<Rightarrow> nat option \<Rightarrow> RawChunk" where
  "chunkAt doc ats i j index prevEnd =
     \<lparr>rc_index = index, rc_content = slice doc (at_start (ats ! i)) (at_end (ats ! (j - 1))), rc_startOffset = at_start (ats ! i),
       rc_endOffset = at_end (ats ! (j - 1)), rc_overlapChars = (case prevEnd of Some p \<Rightarrow> p - at_start (ats ! i) | None \<Rightarrow> 0)\<rparr>"

lemma chunkLoop_step:
  "i < length ats \<Longrightarrow> chunkLoop doc ats chunkSize overlap i index prevEnd =
     chunkAt doc ats i (packEnd ats chunkSize i) index prevEnd #
     (if length ats \<le> packEnd ats chunkSize i then []
      else chunkLoop doc ats chunkSize overlap (stepBack ats i overlap (packEnd ats chunkSize i) 0) (index + 1)
        (Some (at_end (ats ! (packEnd ats chunkSize i - 1)))))"
  by (subst chunkLoop.simps) (simp add: chunkAt_def Let_def)

lemma packEnd_bounds: "i < length ats \<Longrightarrow> i < packEnd ats chunkSize i \<and> packEnd ats chunkSize i \<le> length ats"
  using packCount_pos [of "drop i ats" chunkSize] packCount_le [of chunkSize 0 "drop i ats"] by simp

lemma packEnd_weight:
  "\<forall>a\<in>set ats. atomLength a \<le> chunkSize \<Longrightarrow> weight (take (packEnd ats chunkSize i - i) (drop i ats)) \<le> chunkSize"
  using packCount_weight [of "drop i ats" chunkSize 0] by (simp add: in_set_dropD)

lemma packEnd_grows:
  assumes "\<forall>a\<in>set ats. atomLength a \<le> chunkSize" "i < length ats" "i \<le> m" "m \<le> packEnd ats chunkSize i"
  shows "packEnd ats chunkSize i \<le> packEnd ats chunkSize m"
proof -
  let ?j = "packEnd ats chunkSize i"
  have "weight (take (?j - m) (drop m ats)) \<le> chunkSize"
    using packEnd_weight [OF assms(1), of i] weight_part [OF assms(3,4), of ats] by linarith
  then have "?j - m \<le> packCount chunkSize 0 (drop m ats)"
    using packEnd_bounds [OF assms(2), of chunkSize] by (intro packCount_ge) auto
  then show ?thesis by simp
qed

lemma chunkAt_piece:
  assumes "\<forall>a\<in>set ats. atomLength a \<le> chunkSize" "i < length ats"
  shows "pieceOf doc ats chunkSize (chunkAt doc ats i (packEnd ats chunkSize i) index prevEnd)"
  unfolding pieceOf_def
  using packEnd_bounds [OF assms(2), of chunkSize] packEnd_weight [OF assms(1), of i]
  by (intro exI [of _ i] exI [of _ "packEnd ats chunkSize i"]) (simp add: chunkAt_def)

lemma tiling_nth_le:
  "tiling doc p q ats \<Longrightarrow> a \<le> b \<Longrightarrow> b < length ats \<Longrightarrow>
    at_start (ats ! a) \<le> at_start (ats ! b) \<and> at_end (ats ! a) \<le> at_end (ats ! b)"
  using tiling_nth_less [of doc p q ats a b] by (cases "a = b") auto

lemma chunkAt_holds:
  assumes "tiling doc p q ats" "j \<le> length ats" "i \<le> k" "k < j"
  shows "holdsAtom (chunkAt doc ats i j index prevEnd # cs) (ats ! k)"
  using tiling_nth_le [OF assms(1), of i k] tiling_nth_le [OF assms(1), of k "j - 1"] assms(2-4)
  by (auto simp: holdsAtom_def chunkAt_def)

lemma chunkLoop_ok:
  assumes "tiling doc 0 (length doc) ats" "\<forall>a\<in>set ats. atomLength a \<le> chunkSize" "i < length ats"
  shows "(\<forall>c\<in>set (chunkLoop doc ats chunkSize overlap i index prevEnd). pieceOf doc ats chunkSize c) \<and>
    successively follows (chunkLoop doc ats chunkSize overlap i index prevEnd) \<and>
    (\<forall>k. i \<le> k \<and> k < length ats \<longrightarrow> holdsAtom (chunkLoop doc ats chunkSize overlap i index prevEnd) (ats ! k))"
  using assms
proof (induction doc ats chunkSize overlap i index prevEnd rule: chunkLoop.induct)
  case (1 doc ats chunkSize overlap i index prevEnd)
  let ?j = "packEnd ats chunkSize i" and ?c = "chunkAt doc ats i (packEnd ats chunkSize i) index prevEnd"
  note piece = chunkAt_piece [OF 1(3,4), of doc index prevEnd] and j = packEnd_bounds [OF 1(4), of chunkSize]
  note held = chunkAt_holds [OF 1(2), of ?j i]
  show ?case
  proof (cases "length ats \<le> ?j")
    case True
    then have "holdsAtom [?c] (ats ! k)" if "i \<le> k" "k < length ats" for k using held [of k] that j by simp
    with True 1(4) piece show ?thesis by (simp add: chunkLoop_step)
  next
    case False
    let ?m = "stepBack ats i overlap ?j 0"
    let ?cs = "chunkLoop doc ats chunkSize overlap ?m (index + 1) (Some (at_end (ats ! (?j - 1))))"
    have m: "i < ?m" "?m \<le> ?j" using j stepBack_ge [of i ?j ats overlap 0] stepBack_le [of ats i overlap ?j 0] by auto
    have ih: "(\<forall>c\<in>set ?cs. pieceOf doc ats chunkSize c) \<and> successively follows ?cs \<and>
        (\<forall>k. ?m \<le> k \<and> k < length ats \<longrightarrow> holdsAtom ?cs (ats ! k))"
      using 1(1) [OF _ refl refl refl refl] 1(2-4) False m by (simp add: chunkAt_def)
    have "?m < length ats" using m False by simp
    then obtain rest where rest: "?cs = chunkAt doc ats ?m (packEnd ats chunkSize ?m) (index + 1) (Some (at_end (ats ! (?j - 1)))) # rest"
      by (simp add: chunkLoop_step)
    have "?j \<le> packEnd ats chunkSize ?m" using packEnd_grows [OF 1(3,4), of ?m] m by simp
    then have "at_end (ats ! (?j - 1)) \<le> at_end (ats ! (packEnd ats chunkSize ?m - 1))"
      using tiling_nth_le [OF 1(2), of "?j - 1" "packEnd ats chunkSize ?m - 1"] packEnd_bounds [OF \<open>?m < length ats\<close>, of chunkSize] by auto
    moreover have "at_start (ats ! i) < at_start (ats ! ?m)" using tiling_nth_less(1) [OF 1(2) m(1)] \<open>?m < length ats\<close> by simp
    ultimately have "follows ?c (chunkAt doc ats ?m (packEnd ats chunkSize ?m) (index + 1) (Some (at_end (ats ! (?j - 1)))))"
      by (simp add: follows_def chunkAt_def)
    with ih have "successively follows (?c # ?cs)" unfolding rest by simp
    moreover have "holdsAtom (?c # ?cs) (ats ! k)" if "i \<le> k" "k < length ats" for k
      using held [of k] ih that m j by (cases "k < ?j") (auto simp: holdsAtom_def)
    ultimately show ?thesis using piece ih False 1(4) by (simp add: chunkLoop_step)
  qed
qed

section \<open>What a caller gets\<close>

abbreviation atomsOf :: "jstr \<Rightarrow> ChunkOptions \<Rightarrow> Atom list" where
  "atomsOf doc opts \<equiv> enforceMaxAtomSize doc
     (splitAtoms doc (case co_granularity opts of Some g \<Rightarrow> g | None \<Rightarrow> BySentence)) (nat (chunkSizeOf opts))"

lemma chunkSizeOf_bounds: "MIN_CHUNK_SIZE \<le> chunkSizeOf opts \<and> chunkSizeOf opts \<le> MAX_CHUNK_SIZE"
  by (auto simp: chunkSizeOf_def clamp_def MIN_CHUNK_SIZE_def MAX_CHUNK_SIZE_def)

lemma atomsOf_ok:
  "tiling doc 0 (length doc) (atomsOf doc opts)" "\<forall>a\<in>set (atomsOf doc opts). atomLength a \<le> nat (chunkSizeOf opts)"
  using chunkSizeOf_bounds [of opts] enforceMaxAtomSize_ok [OF splitAtoms_tiling] by (auto simp: MIN_CHUNK_SIZE_def)

lemma chunk_ok:
  "(\<forall>c\<in>set (chunk doc opts). pieceOf doc (atomsOf doc opts) (nat (chunkSizeOf opts)) c) \<and> successively follows (chunk doc opts) \<and>
    (\<forall>a\<in>set (atomsOf doc opts). holdsAtom (chunk doc opts) a) \<and> (chunk doc opts \<noteq> [] \<longrightarrow> rc_index (hd (chunk doc opts)) = 0)"
proof -
  obtain overlap where eq: "chunk doc opts = chunkLoop doc (atomsOf doc opts) (nat (chunkSizeOf opts)) overlap 0 0 None"
    by (simp add: chunk_def Let_def)
  show ?thesis
  proof (cases "atomsOf doc opts = []")
    case True
    then show ?thesis unfolding eq by (simp add: chunkLoop.simps)
  next
    case False
    then have "0 < length (atomsOf doc opts)" by simp
    note ok = chunkLoop_ok [OF atomsOf_ok this, of overlap 0 None]
    have "holdsAtom (chunk doc opts) a" if "a \<in> set (atomsOf doc opts)" for a
      using ok that unfolding eq by (metis in_set_conv_nth le0)
    moreover have "rc_index (hd (chunk doc opts)) = 0" using False unfolding eq by (simp add: chunkLoop_step chunkAt_def)
    ultimately show ?thesis using ok unfolding eq by simp
  qed
qed

lemma slice_split: "p \<le> m \<Longrightarrow> m \<le> q \<Longrightarrow> slice xs p q = slice xs p m @ slice xs m q"
  using take_add [of "m - p" "q - m" "drop p xs"] by (simp add: slice_def)

lemma blank_invisible:
  assumes "blank doc p q" "q \<le> length doc"
  shows "filter (\<lambda>c. \<not> is_js_space c) (slice doc p q) = []"
proof -
  have "is_js_space (slice doc p q ! d)" if "d < length (slice doc p q)" for d
  proof -
    have "p + d < q" using that assms(2) by (simp add: slice_def)
    moreover have "slice doc p q ! d = doc ! (p + d)" using that assms(2) by (simp add: slice_def)
    ultimately show ?thesis using assms(1) by (simp add: blank_def)
  qed
  then show ?thesis by (auto simp: filter_empty_conv in_set_conv_nth)
qed

lemma visible_weight:
  "tiling doc p q ats \<Longrightarrow> q \<le> length doc \<Longrightarrow> length (filter (\<lambda>c. \<not> is_js_space c) (slice doc p q)) \<le> weight ats"
proof (induction doc p q ats rule: tiling.induct)
  case (1 doc p q)
  then show ?case by (simp add: blank_invisible)
next
  case (2 doc p q a ats)
  have le: "p \<le> at_start a" "at_start a < at_end a" "at_end a \<le> q" using tiling_atom [OF 2(2)] by auto
  have "slice doc p q = slice doc p (at_start a) @ slice doc (at_start a) (at_end a) @ slice doc (at_end a) q"
    using slice_split [of p "at_start a" q doc] slice_split [of "at_start a" "at_end a" q doc] le by simp
  moreover have "filter (\<lambda>c. \<not> is_js_space c) (slice doc p (at_start a)) = []"
    using 2(2,3) le by (intro blank_invisible) auto
  moreover have "length (filter (\<lambda>c. \<not> is_js_space c) (slice doc (at_start a) (at_end a))) \<le> atomLength a"
    by (rule le_trans [OF length_filter_le]) (simp add: slice_def atomLength_def)
  moreover have "length (filter (\<lambda>c. \<not> is_js_space c) (slice doc (at_end a) q)) \<le> weight ats" using 2 by simp
  ultimately show ?case by simp
qed

lemma piece_bounds:
  assumes "pieceOf doc ats n c" "tiling doc 0 (length doc) ats"
  shows "rc_startOffset c < rc_endOffset c \<and> rc_endOffset c \<le> length doc \<and>
    rc_content c = slice doc (rc_startOffset c) (rc_endOffset c) \<and>
    length (filter (\<lambda>x. \<not> is_js_space x) (rc_content c)) \<le> n"
proof -
  from assms(1) obtain a b where ab: "a < b" "b \<le> length ats" "rc_startOffset c = at_start (ats ! a)"
    "rc_endOffset c = at_end (ats ! (b - 1))" "weight (take (b - a) (drop a ats)) \<le> n"
    "rc_content c = slice doc (rc_startOffset c) (rc_endOffset c)" by (auto simp: pieceOf_def)
  have part: "tiling doc (rc_startOffset c) (rc_endOffset c) (take (b - a) (drop a ats))"
    using tiling_part [OF assms(2) ab(1,2)] ab(3,4) by simp
  have last: "at_start (ats ! (b - 1)) < at_end (ats ! (b - 1)) \<and> at_end (ats ! (b - 1)) \<le> length doc"
    using tiling_atom [OF assms(2)] ab(1,2) by simp
  have "a \<le> b - 1" "b - 1 < length ats" using ab(1,2) by linarith+
  with tiling_nth_le [OF assms(2), of a "b - 1"] last ab(3,4) have "rc_startOffset c < rc_endOffset c" by simp
  with visible_weight [OF part] ab last show ?thesis by simp
qed

lemma follows_numbered:
  "successively follows (c # cs) \<Longrightarrow> map rc_index (c # cs) = [rc_index c..<rc_index c + length (c # cs)]"
proof (induction cs arbitrary: c)
  case (Cons d cs)
  from Cons.prems have d: "rc_index d = Suc (rc_index c)" "successively follows (d # cs)" by (simp_all add: follows_def)
  with Cons.IH [OF d(2)] show ?case by (simp add: upt_conv_Cons del: upt_Suc)
qed simp

lemma follows_sorted:
  assumes "successively follows cs"
  shows "sorted_wrt (\<lambda>c d. rc_startOffset c < rc_startOffset d \<and> rc_endOffset c \<le> rc_endOffset d) cs"
proof -
  have "transp (\<lambda>c d. rc_startOffset c < rc_startOffset d \<and> rc_endOffset c \<le> rc_endOffset d)" by (auto intro!: transpI)
  moreover have "successively (\<lambda>c d. rc_startOffset c < rc_startOffset d \<and> rc_endOffset c \<le> rc_endOffset d) cs"
    using assms by (rule successively_mono) (simp add: follows_def)
  ultimately show ?thesis using successively_conv_sorted_wrt by blast
qed

text \<open>C5.  Chunks are numbered from 0, begin in strictly ascending and end in ascending positions, are cut
  out of the text as their offsets say and record what they share with the chunk before; none has more
  visible characters than the configured size, which lies between 100 and 8000 whatever was asked for.\<close>

theorem chunks_are_ordered_and_bounded:
  "map rc_index (chunk doc opts) = [0..<length (chunk doc opts)] \<and>
   sorted_wrt (\<lambda>c d. rc_startOffset c < rc_startOffset d \<and> rc_endOffset c \<le> rc_endOffset d) (chunk doc opts) \<and>
   successively (\<lambda>c d. rc_overlapChars d = rc_endOffset c - rc_startOffset d) (chunk doc opts) \<and>
   list_all (\<lambda>c. rc_startOffset c < rc_endOffset c \<and> rc_endOffset c \<le> length doc \<and>
     rc_content c = slice doc (rc_startOffset c) (rc_endOffset c) \<and>
     int (length (filter (\<lambda>x. \<not> is_js_space x) (rc_content c))) \<le> chunkSizeOf opts) (chunk doc opts) \<and>
   100 \<le> chunkSizeOf opts \<and> chunkSizeOf opts \<le> 8000"
proof -
  let ?cs = "chunk doc opts"
  have chain: "successively follows ?cs" using chunk_ok by blast
  have "map rc_index ?cs = [0..<length ?cs]"
    using follows_numbered [of "hd ?cs" "tl ?cs"] chain chunk_ok [of doc opts] by (cases "?cs = []") simp_all
  moreover have "successively (\<lambda>c d. rc_overlapChars d = rc_endOffset c - rc_startOffset d) ?cs"
    using chain by (rule successively_mono) (simp add: follows_def)
  moreover have "list_all (\<lambda>c. rc_startOffset c < rc_endOffset c \<and> rc_endOffset c \<le> length doc \<and>
     rc_content c = slice doc (rc_startOffset c) (rc_endOffset c) \<and>
     int (length (filter (\<lambda>x. \<not> is_js_space x) (rc_content c))) \<le> chunkSizeOf opts) ?cs"
    unfolding list_all_iff
  proof
    fix c assume "c \<in> set ?cs"
    with chunk_ok [of doc opts] have "pieceOf doc (atomsOf doc opts) (nat (chunkSizeOf opts)) c" by blast
    from piece_bounds [OF this atomsOf_ok(1)] chunkSizeOf_bounds [of opts]
    show "rc_startOffset c < rc_endOffset c \<and> rc_endOffset c \<le> length doc \<and>
        rc_content c = slice doc (rc_startOffset c) (rc_endOffset c) \<and>
        int (length (filter (\<lambda>x. \<not> is_js_space x) (rc_content c))) \<le> chunkSizeOf opts"
      by (auto simp: MIN_CHUNK_SIZE_def)
  qed
  ultimately show ?thesis using follows_sorted [OF chain] chunkSizeOf_bounds [of opts] by (simp add: MIN_CHUNK_SIZE_def MAX_CHUNK_SIZE_def)
qed

text \<open>C28.  No visible character of a document is lost: it lies in a chunk whose content shows it.\<close>

theorem no_visible_character_is_lost:
  assumes "x < length doc" "\<not> is_js_space (doc ! x)"
  shows "\<exists>c\<in>set (chunk doc opts). rc_startOffset c \<le> x \<and> x < rc_endOffset c \<and> rc_content c ! (x - rc_startOffset c) = doc ! x"
proof -
  from tiling_covers [OF atomsOf_ok(1) [of doc opts]] assms obtain a where
    a: "a \<in> set (atomsOf doc opts)" "at_start a \<le> x" "x < at_end a" by auto
  with chunk_ok [of doc opts] obtain c where
    c: "c \<in> set (chunk doc opts)" "rc_startOffset c \<le> at_start a" "at_end a \<le> rc_endOffset c" by (auto simp: holdsAtom_def)
  with chunk_ok [of doc opts] have "rc_content c = slice doc (rc_startOffset c) (rc_endOffset c)"
    using piece_bounds [OF _ atomsOf_ok(1)] by blast
  with a c assms(1) show ?thesis by (intro bexI [of _ c]) (auto simp: slice_def)
qed

definition sampleOptions :: ChunkOptions where
  "sampleOptions = \<lparr>co_chunkSize = Some 100, co_chunkOverlap = Some 50, co_granularity = Some ByWord\<rparr>"

theorem no_visible_character_is_lost_witness:
  "\<exists>c\<in>set (chunk (js ''a b'') sampleOptions). rc_startOffset c \<le> 2 \<and> 2 < rc_endOffset c \<and>
    rc_content c ! (2 - rc_startOffset c) = js ''a b'' ! 2"
  by (rule no_visible_character_is_lost) (simp_all add: is_js_space_def)

section \<open>What is not promised\<close>

definition wordOf :: "nat \<Rightarrow> jstr" where
  "wordOf n = replicate n 97"

definition spansOf :: "RawChunk list \<Rightarrow> (nat \<times> nat \<times> nat) list" where
  "spansOf = map (\<lambda>c. (rc_startOffset c, rc_endOffset c, rc_overlapChars c))"

text \<open>The comment says that with an overlap configured every later chunk begins strictly before the end of
  the one before.  An oversized word is cut into windows that share nothing.\<close>

lemma chain_without_overlap:
  "spansOf (chunk (wordOf 120) sampleOptions) = [(0, 100, 0), (100, 120, 0)]"
  by code_simp

text \<open>The atoms carried over can fill a chunk alone: it then repeats the end of the chunk before.\<close>

lemma chunk_inside_the_one_before:
  "spansOf (chunk (wordOf 59 @ [32] @ wordOf 39 @ [32] @ wordOf 80) sampleOptions) =
    [(0, 100, 0), (60, 100, 40), (100, 180, 0)]"
  by code_simp

text \<open>White space that belongs to no atom is not counted: a chunk can be longer than the size.\<close>

lemma chunk_longer_than_its_size:
  "spansOf (chunk (js ''a'' @ [10, 10] @ replicate 200 32 @ js ''b'') (sampleOptions\<lparr>co_granularity := Some ByContext\<rparr>)) =
    [(0, 204, 0)]"
  by code_simp

end
