(* ===== verification/Totp.thy ===== *)
theory Totp
  imports Prelude "HOL-Library.Word"
begin

unbundle bit_operations_syntax

text \<open>
  One-time passwords, \<open>common/crypto/totp.ts\<close>: base32, HOTP, TOTP with its replay guard, recovery codes.

  Bytes are 8-bit words, the accumulator of the base32 loops and the truncated digest are 32-bit words, as
  JavaScript's bit operations are.  The keyed digest, the plain digest and random bytes are arguments.
  \<open>otpauthUri\<close> is string building with library encoders and is left out.
\<close>

section \<open>Base32\<close>

type_synonym bytes = "8 word list"

definition TOTP_DIGITS :: nat where "TOTP_DIGITS = 6"
definition TOTP_PERIOD :: int where "TOTP_PERIOD = 30"

definition BASE32_ALPHABET :: jstr where
  "BASE32_ALPHABET = js ''ABCDEFGHIJKLMNOPQRSTUVWXYZ234567''"

definition base32Char :: "32 word \<Rightarrow> int" where
  "base32Char w = BASE32_ALPHABET ! unat (w AND 31)"

text \<open>The inner loop of \<open>base32Encode\<close>: the characters it appends and the bits it leaves.\<close>

fun emitQuintets :: "nat \<Rightarrow> 32 word \<Rightarrow> jstr \<times> nat" where
  "emitQuintets bits value =
     (if 5 \<le> bits
      then (case emitQuintets (bits - 5) value of (out, left) \<Rightarrow> (base32Char (drop_bit (bits - 5) value) # out, left))
      else ([], bits))"

declare emitQuintets.simps [simp del]

definition lowBits :: "nat \<Rightarrow> 32 word \<Rightarrow> 32 word" where
  "lowBits bits value = value AND (push_bit bits 1 - 1)"

fun encodeLoop :: "nat \<Rightarrow> 32 word \<Rightarrow> bytes \<Rightarrow> jstr" where
  "encodeLoop bits value [] = (if 0 < bits then [base32Char (push_bit (5 - bits) value)] else [])"
| "encodeLoop bits value (b # bs) =
     (let v = push_bit 8 value OR ucast b in
      case emitQuintets (bits + 8) v of (out, left) \<Rightarrow> out @ encodeLoop left (lowBits left v) bs)"

definition base32Encode :: "bytes \<Rightarrow> jstr" where
  "base32Encode buf = encodeLoop 0 0 buf"

datatype TotpError = InvalidBase32 | CounterOutOfRange

fun decodeLoop :: "nat \<Rightarrow> 32 word \<Rightarrow> jstr \<Rightarrow> TotpError + bytes" where
  "decodeLoop bits value [] = Inr []"
| "decodeLoop bits value (c # s) =
     (case index_of c BASE32_ALPHABET of
        None \<Rightarrow> Inl InvalidBase32
      | Some idx \<Rightarrow>
          (let v = push_bit 5 value OR word_of_nat idx; k = bits + 5 in
           if 8 \<le> k
           then bindr (decodeLoop (k - 8) (lowBits (k - 8) v) s) (\<lambda>out. Inr (ucast (drop_bit (k - 8) v AND 255) # out))
           else decodeLoop k v s))"

definition isSeparator :: "int \<Rightarrow> bool" where
  "isSeparator c \<longleftrightarrow> is_js_space c \<or> c = ch CHR ''='' \<or> c = ch CHR ''-''"

definition base32Decode :: "jstr \<Rightarrow> TotpError + bytes" where
  "base32Decode input = decodeLoop 0 0 (filter (\<lambda>c. \<not> isSeparator c) (js_upper input))"

section \<open>HOTP and TOTP\<close>

type_synonym hmac = "bytes \<Rightarrow> bytes \<Rightarrow> bytes"

text \<open>\<open>writeBigUInt64BE\<close>, which throws on a value that is no 64-bit number.\<close>

definition counterBytes :: "int \<Rightarrow> TotpError + bytes" where
  "counterBytes counter =
     (if 0 \<le> counter \<and> counter < 2 ^ 64 then Inr (map (\<lambda>i. word_of_int (counter div 256 ^ (7 - i))) [0..<8])
      else Inl CounterOutOfRange)"

text \<open>A read past the end of the digest is \<open>undefined\<close>, which the bit operations take as 0.\<close>

definition byteAt :: "bytes \<Rightarrow> nat \<Rightarrow> 32 word" where
  "byteAt digest i = (if i < length digest then ucast (digest ! i) else 0)"

definition truncated :: "bytes \<Rightarrow> 32 word" where
  "truncated digest =
     (let offset = unat (byteAt digest (length digest - 1) AND 15) in
      push_bit 24 (byteAt digest offset AND 127) OR push_bit 16 (byteAt digest (offset + 1)) OR
      push_bit 8 (byteAt digest (offset + 2)) OR byteAt digest (offset + 3))"

definition padStart :: "nat \<Rightarrow> jstr \<Rightarrow> jstr" where
  "padStart n s = replicate (n - length s) 48 @ s"

definition hotp :: "hmac \<Rightarrow> bytes \<Rightarrow> int \<Rightarrow> nat \<Rightarrow> TotpError + jstr" where
  "hotp hmacSha1 secret counter digits =
     bindr (counterBytes counter) (\<lambda>msg. Inr (padStart digits (show_nat (unat (truncated (hmacSha1 secret msg)) mod 10 ^ digits))))"

definition totpStep :: "int \<Rightarrow> int \<Rightarrow> int" where
  "totpStep nowMs period = nowMs div (1000 * period)"

definition totpCode :: "hmac \<Rightarrow> jstr \<Rightarrow> int \<Rightarrow> nat \<Rightarrow> TotpError + jstr" where
  "totpCode hmacSha1 secretBase32 stepNo digits = bindr (base32Decode secretBase32) (\<lambda>secret. hotp hmacSha1 secret stepNo digits)"

record VerifyTotpOptions =
  vo_window :: "int option"
  vo_minStep :: "int option"
  vo_digits :: "nat option"
  vo_period :: "int option"

record VerifyTotpResult =
  vr_ok :: bool
  vr_step :: "int option"

definition withoutSpaces :: "jstr \<Rightarrow> jstr" where
  "withoutSpaces s = filter (\<lambda>c. \<not> is_js_space c) s"

definition candidateSteps :: "int \<Rightarrow> int \<Rightarrow> int list" where
  "candidateSteps current window = map (\<lambda>delta. current + delta) [- window..window]"

definition verifyTotp :: "hmac \<Rightarrow> jstr \<Rightarrow> jstr \<Rightarrow> int \<Rightarrow> VerifyTotpOptions \<Rightarrow> TotpError + VerifyTotpResult" where
  "verifyTotp hmacSha1 secretBase32 code nowMs opts =
     (let digits = (case vo_digits opts of Some d \<Rightarrow> d | None \<Rightarrow> TOTP_DIGITS);
          window = (case vo_window opts of Some w \<Rightarrow> w | None \<Rightarrow> 1);
          normalized = withoutSpaces code in
      if length normalized \<noteq> digits \<or> \<not> list_all is_digit normalized then Inr \<lparr>vr_ok = False, vr_step = None\<rparr>
      else
        (let current = totpStep nowMs (case vo_period opts of Some p \<Rightarrow> p | None \<Rightarrow> TOTP_PERIOD) in
         bindr (base32Decode secretBase32) (\<lambda>secret.
         bindr (mapr (\<lambda>s. bindr (hotp hmacSha1 secret s digits) (\<lambda>c. Inr (s, c))) (candidateSteps current window)) (\<lambda>codes.
           (case find (\<lambda>(s, c). c = normalized) codes of
              None \<Rightarrow> Inr \<lparr>vr_ok = False, vr_step = None\<rparr>
            | Some (matched, _) \<Rightarrow>
                Inr \<lparr>vr_ok = (case vo_minStep opts of Some m \<Rightarrow> m < matched | None \<Rightarrow> True), vr_step = Some matched\<rparr>)))))"

section \<open>Secrets and recovery codes\<close>

definition generateTotpSecret :: "bytes \<Rightarrow> jstr" where
  "generateTotpSecret random = base32Encode random"

definition RECOVERY_CODE_LENGTH :: nat where "RECOVERY_CODE_LENGTH = 10"

definition isRecoveryChar :: "int \<Rightarrow> bool" where
  "isRecoveryChar c \<longleftrightarrow> (65 \<le> c \<and> c \<le> 90) \<or> (50 \<le> c \<and> c \<le> 55)"

definition normalizeRecoveryCode :: "jstr \<Rightarrow> jstr" where
  "normalizeRecoveryCode code = filter isRecoveryChar (js_upper code)"

definition hashRecoveryCode :: "(jstr \<Rightarrow> jstr) \<Rightarrow> jstr \<Rightarrow> jstr" where
  "hashRecoveryCode sha256 code = sha256 (normalizeRecoveryCode code)"

definition recoveryCode :: "bytes \<Rightarrow> jstr" where
  "recoveryCode random = (let raw = take RECOVERY_CODE_LENGTH (base32Encode random) in take 5 raw @ [ch CHR ''-''] @ drop 5 raw)"

definition generateRecoveryCodes :: "bytes list \<Rightarrow> jstr list" where
  "generateRecoveryCodes randoms = map recoveryCode randoms"

end
