(* ===== verification/MfaService.thy ===== *)
theory MfaService
  imports Totp
begin

text \<open>
  The second factor of project users: \<open>modules/projects/project-mfa.service.ts\<close>, the part of
  \<open>project-sdk-auth.service.ts\<close> that drives it, and the at-rest encryption of \<open>common/crypto/field-crypto.ts\<close>.

  A handler is a program: a tree of requests to the database, to Redis and to the clock, each with what
  follows its answer.  \<open>run\<close> executes one handler without interruption; \<open>mfaStep\<close> interleaves any number of
  them, one request at a time, as the event loop does.  Random bytes, new ids, the cipher and the digests are
  arguments; the stored challenge is kept as a value, its JSON and its cipher text are not.
\<close>

section \<open>Data\<close>

record MfaTokens =
  mt_accessToken :: jstr
  mt_refreshToken :: jstr
  mt_expiresIn :: int
  mt_tokenType :: jstr

datatype MfaChallengeKind = KVerify | KEnroll

record StoredMfaChallenge =
  sc_kind :: MfaChallengeKind
  sc_userId :: jstr
  sc_realm :: jstr
  sc_tokens :: MfaTokens
  sc_emailVerified :: bool
  sc_account :: "jstr option"
  sc_createdAt :: int

record MfaChallengeResponse =
  cr_challengeId :: jstr
  cr_methods :: "jstr list"
  cr_expiresIn :: int
  cr_enrollmentRequired :: bool

record MfaStatus =
  st_enrolled :: bool
  st_enrollmentRequired :: bool
  st_recoveryCodesLeft :: nat
  st_verifiedAt :: "int option"

record MfaEnrollment =
  en_secret :: jstr
  en_issuer :: jstr
  en_account :: jstr
  en_digits :: nat
  en_period :: int

record MfaFactorInput =
  fi_code :: "jstr option"
  fi_recoveryCode :: "jstr option"

record MfaRow =
  mr_id :: jstr
  mr_projectId :: jstr
  mr_userId :: jstr
  mr_totpSecretEnc :: "jstr option"
  mr_pendingSecretEnc :: "jstr option"
  mr_pendingCreatedAt :: "int option"
  mr_verifiedAt :: "int option"
  mr_lastUsedStep :: "int option"
  mr_lastUsedAt :: "int option"
  mr_recoveryCodeHashes :: "jstr list"
  mr_enrollmentRequiredAt :: "int option"

definition newRow :: "jstr \<Rightarrow> jstr \<times> jstr \<Rightarrow> MfaRow" where
  "newRow newId user = \<lparr>mr_id = newId, mr_projectId = fst user, mr_userId = snd user, mr_totpSecretEnc = None,
     mr_pendingSecretEnc = None, mr_pendingCreatedAt = None, mr_verifiedAt = None, mr_lastUsedStep = None,
     mr_lastUsedAt = None, mr_recoveryCodeHashes = [], mr_enrollmentRequiredAt = None\<rparr>"

definition rowKey :: "MfaRow \<Rightarrow> jstr \<times> jstr" where
  "rowKey r = (mr_projectId r, mr_userId r)"

definition enrolled :: "MfaRow option \<Rightarrow> bool" where
  "enrolled row \<longleftrightarrow> (case row of Some r \<Rightarrow> mr_verifiedAt r \<noteq> None | None \<Rightarrow> False)"

text \<open>Every \<open>throw\<close> of the two services, with its HTTP status.\<close>

datatype MfaRefusal =
    EncryptionKeyMissing | AlreadyEnrolled | NoEnrollment | CodeMismatch | ChallengeIdRequired | ChallengeExpired
  | ChallengeWantsEnrollment | ChallengeWantsCode | TooManyCodes | InvalidCode | NothingEnrolled | FactorMissing
  | TooManyAttempts | ActorMissing | InternalFailure

primrec refusalStatus :: "MfaRefusal \<Rightarrow> nat" where
  "refusalStatus EncryptionKeyMissing = 503"
| "refusalStatus AlreadyEnrolled = 409"
| "refusalStatus NoEnrollment = 400"
| "refusalStatus CodeMismatch = 400"
| "refusalStatus ChallengeIdRequired = 400"
| "refusalStatus ChallengeExpired = 401"
| "refusalStatus ChallengeWantsEnrollment = 400"
| "refusalStatus ChallengeWantsCode = 400"
| "refusalStatus TooManyCodes = 401"
| "refusalStatus InvalidCode = 401"
| "refusalStatus NothingEnrolled = 400"
| "refusalStatus FactorMissing = 400"
| "refusalStatus TooManyAttempts = 403"
| "refusalStatus ActorMissing = 403"
| "refusalStatus InternalFailure = 500"

section \<open>What lies outside, and the settings\<close>

record MfaEnv =
  me_keyPresent :: bool
  me_seal :: "jstr \<Rightarrow> jstr \<Rightarrow> jstr"
  me_open :: "jstr \<Rightarrow> jstr option"
  me_hmac :: hmac
  me_sha256 :: "jstr \<Rightarrow> jstr"
  me_challengeTtl :: "int option"
  me_maxAttempts :: "int option"

definition DEFAULT_CHALLENGE_TTL_SECONDS :: int where "DEFAULT_CHALLENGE_TTL_SECONDS = 300"
definition DEFAULT_MAX_ATTEMPTS :: int where "DEFAULT_MAX_ATTEMPTS = 5"
definition USER_ATTEMPT_LIMIT :: nat where "USER_ATTEMPT_LIMIT = 10"
definition USER_ATTEMPT_WINDOW_SECONDS :: int where "USER_ATTEMPT_WINDOW_SECONDS = 900"

definition intSetting :: "int option \<Rightarrow> int \<Rightarrow> int" where
  "intSetting raw fallback = (case raw of Some n \<Rightarrow> if n > 0 then n else fallback | None \<Rightarrow> fallback)"

definition challengeTtlSeconds :: "MfaEnv \<Rightarrow> int" where
  "challengeTtlSeconds env = intSetting (me_challengeTtl env) DEFAULT_CHALLENGE_TTL_SECONDS"

definition maxAttempts :: "MfaEnv \<Rightarrow> int" where
  "maxAttempts env = intSetting (me_maxAttempts env) DEFAULT_MAX_ATTEMPTS"

definition PREFIX :: jstr where "PREFIX = js ''enc:v1:''"

definition isEncrypted :: "jstr \<Rightarrow> bool" where
  "isEncrypted s \<longleftrightarrow> starts_with PREFIX s"

definition encryptField :: "MfaEnv \<Rightarrow> jstr \<Rightarrow> jstr \<Rightarrow> MfaRefusal + jstr" where
  "encryptField env iv s =
     (if s = [] \<or> isEncrypted s then Inr s
      else if \<not> me_keyPresent env then Inl InternalFailure
      else Inr (PREFIX @ me_seal env iv s))"

definition decryptField :: "MfaEnv \<Rightarrow> jstr \<Rightarrow> MfaRefusal + jstr" where
  "decryptField env s =
     (if \<not> isEncrypted s \<or> \<not> me_keyPresent env then Inr s
      else (case me_open env (drop (length PREFIX) s) of Some t \<Rightarrow> Inr t | None \<Rightarrow> Inl InternalFailure))"

definition protect :: "MfaEnv \<Rightarrow> jstr \<Rightarrow> jstr \<Rightarrow> MfaRefusal + jstr" where
  "protect env iv s = (if \<not> me_keyPresent env then Inl EncryptionKeyMissing else encryptField env iv s)"

definition reveal :: "MfaEnv \<Rightarrow> jstr option \<Rightarrow> MfaRefusal + jstr option" where
  "reveal env s = (case s of None \<Rightarrow> Inr None | Some t \<Rightarrow> bindr (decryptField env t) (\<lambda>u. Inr (Some u)))"

text \<open>A code against a secret, as the service calls \<open>verifyTotp\<close>: default digits, period and window.\<close>

definition checkCode :: "MfaEnv \<Rightarrow> jstr \<Rightarrow> jstr \<Rightarrow> int option \<Rightarrow> int \<Rightarrow> MfaRefusal + VerifyTotpResult" where
  "checkCode env secret code minStep now =
     (case verifyTotp (me_hmac env) secret code now \<lparr>vo_window = None, vo_minStep = minStep, vo_digits = None, vo_period = None\<rparr> of
        Inl _ \<Rightarrow> Inl InternalFailure
      | Inr r \<Rightarrow> Inr r)"

text \<open>\<open>matchFactor\<close>: the update of the row that a valid factor asks for.  The clock is read for codes.\<close>

definition given :: "jstr option \<Rightarrow> bool" where
  "given s \<longleftrightarrow> s \<noteq> None \<and> s \<noteq> Some []"

definition useRecoveryCode :: "MfaEnv \<Rightarrow> MfaRow \<Rightarrow> jstr \<Rightarrow> int \<Rightarrow> (MfaRow \<Rightarrow> MfaRow) option" where
  "useRecoveryCode env row code now =
     (let h = hashRecoveryCode (me_sha256 env) code in
      if normalizeRecoveryCode code = [] \<or> h \<notin> set (mr_recoveryCodeHashes row) then None
      else Some (\<lambda>r. r\<lparr>mr_recoveryCodeHashes := filter (\<lambda>x. x \<noteq> h) (mr_recoveryCodeHashes row), mr_lastUsedAt := Some now\<rparr>))"

definition useCode :: "MfaEnv \<Rightarrow> MfaRow \<Rightarrow> jstr \<Rightarrow> int \<Rightarrow> MfaRefusal + (MfaRow \<Rightarrow> MfaRow) option" where
  "useCode env row code now =
     bindr (reveal env (mr_totpSecretEnc row)) (\<lambda>secret.
       if \<not> given secret then Inr None
       else bindr (checkCode env (the secret) code (mr_lastUsedStep row) now) (\<lambda>result.
         if \<not> vr_ok result then Inr None
         else Inr (Some (\<lambda>r. r\<lparr>mr_lastUsedStep := vr_step result, mr_lastUsedAt := Some now\<rparr>))))"

definition matchFactor :: "MfaEnv \<Rightarrow> MfaRow \<Rightarrow> MfaFactorInput \<Rightarrow> int \<Rightarrow> MfaRefusal + (MfaRow \<Rightarrow> MfaRow) option" where
  "matchFactor env row input now =
     (if given (fi_recoveryCode input) then Inr (useRecoveryCode env row (the (fi_recoveryCode input)) now)
      else if given (fi_code input) then useCode env row (the (fi_code input)) now
      else Inl FactorMissing)"

section \<open>Programs and the stores they ask\<close>

type_synonym user_key = "jstr \<times> jstr"
type_synonym challenge_key = "jstr \<times> jstr"

datatype CounterKey = ChallengeAttempts jstr jstr | UserAttempts jstr jstr

datatype 'r prog =
    Return 'r
  | FindRow user_key "MfaRow option \<Rightarrow> 'r prog"
  | FindEnrolled jstr "MfaRow list \<Rightarrow> 'r prog"
  | UpsertRow user_key MfaRow "MfaRow \<Rightarrow> MfaRow" "'r prog"
  | UpdateRow user_key "MfaRow \<Rightarrow> MfaRow" "bool \<Rightarrow> 'r prog"
  | DeleteRow user_key "'r prog"
  | SetChallenge challenge_key StoredMfaChallenge int "'r prog"
  | GetChallenge challenge_key "StoredMfaChallenge option \<Rightarrow> 'r prog"
  | TakeChallenge challenge_key "StoredMfaChallenge option \<Rightarrow> 'r prog"
  | DelChallenge challenge_key "'r prog"
  | Incr CounterKey "nat \<Rightarrow> 'r prog"
  | Expire CounterKey int "'r prog"
  | DelCounter CounterKey "'r prog"
  | Revoke StoredMfaChallenge "'r prog"
  | Now "int \<Rightarrow> 'r prog"

text \<open>Entries of Redis carry the time at which they expire; the clock is in milliseconds.\<close>

record MfaState =
  ms_clock :: int
  ms_rows :: "MfaRow list"
  ms_challenges :: "challenge_key \<Rightarrow> (StoredMfaChallenge \<times> int) option"
  ms_counters :: "CounterKey \<Rightarrow> (nat \<times> int option) option"
  ms_revoked :: "StoredMfaChallenge list"

definition findRow :: "user_key \<Rightarrow> MfaState \<Rightarrow> MfaRow option" where
  "findRow u st = find (\<lambda>r. rowKey r = u) (ms_rows st)"

definition updateRow :: "user_key \<Rightarrow> (MfaRow \<Rightarrow> MfaRow) \<Rightarrow> MfaState \<Rightarrow> MfaState" where
  "updateRow u f st = st\<lparr>ms_rows := map (\<lambda>r. if rowKey r = u then f r else r) (ms_rows st)\<rparr>"

definition upsertRow :: "user_key \<Rightarrow> MfaRow \<Rightarrow> (MfaRow \<Rightarrow> MfaRow) \<Rightarrow> MfaState \<Rightarrow> MfaState" where
  "upsertRow u new f st =
     (if findRow u st = None then st\<lparr>ms_rows := ms_rows st @ [new]\<rparr> else updateRow u f st)"

definition deleteRow :: "user_key \<Rightarrow> MfaState \<Rightarrow> MfaState" where
  "deleteRow u st = st\<lparr>ms_rows := filter (\<lambda>r. rowKey r \<noteq> u) (ms_rows st)\<rparr>"

definition liveChallenge :: "challenge_key \<Rightarrow> MfaState \<Rightarrow> StoredMfaChallenge option" where
  "liveChallenge k st = (case ms_challenges st k of Some (c, until) \<Rightarrow> if ms_clock st < until then Some c else None | None \<Rightarrow> None)"

definition setChallenge :: "challenge_key \<Rightarrow> StoredMfaChallenge \<Rightarrow> int \<Rightarrow> MfaState \<Rightarrow> MfaState" where
  "setChallenge k c ttl st = st\<lparr>ms_challenges := (ms_challenges st)(k \<mapsto> (c, ms_clock st + 1000 * ttl))\<rparr>"

definition delChallenge :: "challenge_key \<Rightarrow> MfaState \<Rightarrow> MfaState" where
  "delChallenge k st = st\<lparr>ms_challenges := (ms_challenges st)(k := None)\<rparr>"

definition liveCounter :: "CounterKey \<Rightarrow> MfaState \<Rightarrow> (nat \<times> int option) option" where
  "liveCounter k st = (case ms_counters st k of
     Some (n, until) \<Rightarrow> if (case until of Some t \<Rightarrow> ms_clock st < t | None \<Rightarrow> True) then Some (n, until) else None
   | None \<Rightarrow> None)"

definition incr :: "CounterKey \<Rightarrow> MfaState \<Rightarrow> nat \<times> MfaState" where
  "incr k st = (case (case liveCounter k st of Some e \<Rightarrow> e | None \<Rightarrow> (0, None)) of (n, until) \<Rightarrow>
     (n + 1, st\<lparr>ms_counters := (ms_counters st)(k \<mapsto> (n + 1, until))\<rparr>))"

definition expire :: "CounterKey \<Rightarrow> int \<Rightarrow> MfaState \<Rightarrow> MfaState" where
  "expire k ttl st = (case liveCounter k st of
     Some (n, _) \<Rightarrow> st\<lparr>ms_counters := (ms_counters st)(k \<mapsto> (n, Some (ms_clock st + 1000 * ttl)))\<rparr>
   | None \<Rightarrow> st)"

definition delCounter :: "CounterKey \<Rightarrow> MfaState \<Rightarrow> MfaState" where
  "delCounter k st = st\<lparr>ms_counters := (ms_counters st)(k := None)\<rparr>"

definition revoke :: "StoredMfaChallenge \<Rightarrow> MfaState \<Rightarrow> MfaState" where
  "revoke c st = st\<lparr>ms_revoked := ms_revoked st @ [c]\<rparr>"

text \<open>One request, and a whole handler without interruption.\<close>

fun perform :: "'r prog \<Rightarrow> MfaState \<Rightarrow> 'r prog \<times> MfaState" where
  "perform (Return r) st = (Return r, st)"
| "perform (FindRow u k) st = (k (findRow u st), st)"
| "perform (FindEnrolled p k) st = (k (filter (\<lambda>r. mr_projectId r = p \<and> mr_verifiedAt r \<noteq> None) (ms_rows st)), st)"
| "perform (UpsertRow u new f k) st = (k, upsertRow u new f st)"
| "perform (UpdateRow u f k) st = (k (findRow u st \<noteq> None), updateRow u f st)"
| "perform (DeleteRow u k) st = (k, deleteRow u st)"
| "perform (SetChallenge key c ttl k) st = (k, setChallenge key c ttl st)"
| "perform (GetChallenge key k) st = (k (liveChallenge key st), st)"
| "perform (TakeChallenge key k) st = (k (liveChallenge key st), delChallenge key st)"
| "perform (DelChallenge key k) st = (k, delChallenge key st)"
| "perform (Incr key k) st = (case incr key st of (n, st') \<Rightarrow> (k n, st'))"
| "perform (Expire key ttl k) st = (k, expire key ttl st)"
| "perform (DelCounter key k) st = (k, delCounter key st)"
| "perform (Revoke c k) st = (k, revoke c st)"
| "perform (Now k) st = (k (ms_clock st), st)"

primrec run :: "'r prog \<Rightarrow> MfaState \<Rightarrow> 'r \<times> MfaState" where
  "run (Return r) st = (r, st)"
| "run (FindRow u k) st = run (k (findRow u st)) st"
| "run (FindEnrolled p k) st = run (k (filter (\<lambda>r. mr_projectId r = p \<and> mr_verifiedAt r \<noteq> None) (ms_rows st))) st"
| "run (UpsertRow u new f k) st = run k (upsertRow u new f st)"
| "run (UpdateRow u f k) st = run (k (findRow u st \<noteq> None)) (updateRow u f st)"
| "run (DeleteRow u k) st = run k (deleteRow u st)"
| "run (SetChallenge key c ttl k) st = run k (setChallenge key c ttl st)"
| "run (GetChallenge key k) st = run (k (liveChallenge key st)) st"
| "run (TakeChallenge key k) st = run (k (liveChallenge key st)) (delChallenge key st)"
| "run (DelChallenge key k) st = run k (delChallenge key st)"
| "run (Incr key k) st = run (k (fst (incr key st))) (snd (incr key st))"
| "run (Expire key ttl k) st = run k (expire key ttl st)"
| "run (DelCounter key k) st = run k (delCounter key st)"
| "run (Revoke c k) st = run k (revoke c st)"
| "run (Now k) st = run (k (ms_clock st)) st"

text \<open>Awaiting another handler: a thrown error ends both.\<close>

type_synonym 'a handler = "(MfaRefusal + 'a) prog"

primrec andThen :: "'a handler \<Rightarrow> ('a \<Rightarrow> 'b handler) \<Rightarrow> 'b handler" where
  "andThen (Return r) f = (case r of Inl e \<Rightarrow> Return (Inl e) | Inr v \<Rightarrow> f v)"
| "andThen (FindRow u k) f = FindRow u (\<lambda>r. andThen (k r) f)"
| "andThen (FindEnrolled p k) f = FindEnrolled p (\<lambda>r. andThen (k r) f)"
| "andThen (UpsertRow u new g k) f = UpsertRow u new g (andThen k f)"
| "andThen (UpdateRow u g k) f = UpdateRow u g (\<lambda>b. andThen (k b) f)"
| "andThen (DeleteRow u k) f = DeleteRow u (andThen k f)"
| "andThen (SetChallenge key c ttl k) f = SetChallenge key c ttl (andThen k f)"
| "andThen (GetChallenge key k) f = GetChallenge key (\<lambda>c. andThen (k c) f)"
| "andThen (TakeChallenge key k) f = TakeChallenge key (\<lambda>c. andThen (k c) f)"
| "andThen (DelChallenge key k) f = DelChallenge key (andThen k f)"
| "andThen (Incr key k) f = Incr key (\<lambda>n. andThen (k n) f)"
| "andThen (Expire key ttl k) f = Expire key ttl (andThen k f)"
| "andThen (DelCounter key k) f = DelCounter key (andThen k f)"
| "andThen (Revoke c k) f = Revoke c (andThen k f)"
| "andThen (Now k) f = Now (\<lambda>t. andThen (k t) f)"

definition raise :: "MfaRefusal \<Rightarrow> 'a handler" where "raise e = Return (Inl e)"
definition answer :: "'a \<Rightarrow> 'a handler" where "answer v = Return (Inr v)"

text \<open>A pure computation that may throw, and an update of a row that must exist.\<close>

definition pureR :: "MfaRefusal + 'a \<Rightarrow> ('a \<Rightarrow> 'b handler) \<Rightarrow> 'b handler" where
  "pureR r f = (case r of Inl e \<Rightarrow> raise e | Inr v \<Rightarrow> f v)"

definition mustUpdate :: "user_key \<Rightarrow> (MfaRow \<Rightarrow> MfaRow) \<Rightarrow> 'b handler \<Rightarrow> 'b handler" where
  "mustUpdate u f k = UpdateRow u f (\<lambda>found. if found then k else raise InternalFailure)"

section \<open>Rows: status and administration\<close>

definition mfaStatus :: "jstr \<Rightarrow> jstr \<Rightarrow> MfaStatus handler" where
  "mfaStatus projectId userId = FindRow (projectId, userId) (\<lambda>row. answer
     \<lparr>st_enrolled = enrolled row, st_enrollmentRequired = (case row of Some r \<Rightarrow> mr_enrollmentRequiredAt r \<noteq> None | None \<Rightarrow> False),
      st_recoveryCodesLeft = (case row of Some r \<Rightarrow> length (mr_recoveryCodeHashes r) | None \<Rightarrow> 0),
      st_verifiedAt = (case row of Some r \<Rightarrow> mr_verifiedAt r | None \<Rightarrow> None)\<rparr>)"

definition listEnrolled :: "jstr \<Rightarrow> (jstr \<times> int option \<times> int option \<times> nat) list handler" where
  "listEnrolled projectId = FindEnrolled projectId (\<lambda>rows.
     answer (map (\<lambda>r. (mr_userId r, mr_verifiedAt r, mr_lastUsedAt r, length (mr_recoveryCodeHashes r))) rows))"

definition setEnrollmentRequired :: "jstr \<Rightarrow> jstr \<Rightarrow> bool \<Rightarrow> jstr \<Rightarrow> unit handler" where
  "setEnrollmentRequired projectId userId enabled newId = Now (\<lambda>t.
     let at = (if enabled then Some t else None); u = (projectId, userId) in
     UpsertRow u ((newRow newId u)\<lparr>mr_enrollmentRequiredAt := at\<rparr>) (\<lambda>r. r\<lparr>mr_enrollmentRequiredAt := at\<rparr>) (answer ()))"

definition forgetUser :: "jstr \<Rightarrow> jstr \<Rightarrow> unit handler" where
  "forgetUser projectId userId = DeleteRow (projectId, userId) (answer ())"

section \<open>Attempts of a signed-in user\<close>

definition countUserAttempt :: "jstr \<Rightarrow> jstr \<Rightarrow> unit handler" where
  "countUserAttempt projectId userId = Incr (UserAttempts projectId userId) (\<lambda>n.
     let check = (if USER_ATTEMPT_LIMIT < n then raise TooManyAttempts else answer ()) in
     if n = 1 then Expire (UserAttempts projectId userId) USER_ATTEMPT_WINDOW_SECONDS check else check)"

definition clearUserAttempts :: "jstr \<Rightarrow> jstr \<Rightarrow> unit handler" where
  "clearUserAttempts projectId userId = DelCounter (UserAttempts projectId userId) (answer ())"

section \<open>Enrollment\<close>

definition beginEnrollment :: "MfaEnv \<Rightarrow> jstr \<Rightarrow> jstr \<Rightarrow> jstr \<Rightarrow> jstr \<Rightarrow> bytes \<Rightarrow> jstr \<Rightarrow> jstr \<Rightarrow> MfaEnrollment handler" where
  "beginEnrollment env projectId userId issuer account random iv newId =
     (let u = (projectId, userId) in FindRow u (\<lambda>existing.
      if enrolled existing then raise AlreadyEnrolled
      else
        (let secret = generateTotpSecret random in
         pureR (protect env iv secret) (\<lambda>sealed. Now (\<lambda>t.
           UpsertRow u ((newRow newId u)\<lparr>mr_pendingSecretEnc := Some sealed, mr_pendingCreatedAt := Some t\<rparr>)
             (\<lambda>r. r\<lparr>mr_pendingSecretEnc := Some sealed, mr_pendingCreatedAt := Some t\<rparr>)
             (answer \<lparr>en_secret = secret, en_issuer = issuer, en_account = account, en_digits = TOTP_DIGITS, en_period = TOTP_PERIOD\<rparr>))))))"

definition confirmedRow :: "MfaEnv \<Rightarrow> MfaRow \<Rightarrow> int option \<Rightarrow> jstr list \<Rightarrow> int \<Rightarrow> MfaRow \<Rightarrow> MfaRow" where
  "confirmedRow env row stepNo recoveryCodes t r =
     r\<lparr>mr_totpSecretEnc := mr_pendingSecretEnc row, mr_pendingSecretEnc := None, mr_pendingCreatedAt := None,
       mr_verifiedAt := Some t, mr_lastUsedStep := stepNo, mr_lastUsedAt := Some t,
       mr_recoveryCodeHashes := map (hashRecoveryCode (me_sha256 env)) recoveryCodes, mr_enrollmentRequiredAt := None\<rparr>"

definition confirmEnrollment :: "MfaEnv \<Rightarrow> jstr \<Rightarrow> jstr \<Rightarrow> jstr \<Rightarrow> bytes list \<Rightarrow> jstr list handler" where
  "confirmEnrollment env projectId userId code randoms =
     (let u = (projectId, userId) in FindRow u (\<lambda>row.
      pureR (case row of Some r \<Rightarrow> reveal env (mr_pendingSecretEnc r) | None \<Rightarrow> Inr None) (\<lambda>pending.
      if \<not> given pending then raise NoEnrollment
      else if enrolled row then raise AlreadyEnrolled
      else andThen (countUserAttempt projectId userId) (\<lambda>_. Now (\<lambda>t.
        pureR (checkCode env (the pending) code None t) (\<lambda>result.
        if \<not> vr_ok result then raise CodeMismatch
        else
          (let recoveryCodes = generateRecoveryCodes randoms in
           mustUpdate u (confirmedRow env (the row) (vr_step result) recoveryCodes t)
             (andThen (clearUserAttempts projectId userId) (\<lambda>_. answer recoveryCodes)))))))))"

section \<open>Challenges\<close>

definition createChallenge :: "MfaEnv \<Rightarrow> jstr \<Rightarrow> jstr \<Rightarrow> jstr \<Rightarrow> MfaTokens \<Rightarrow> MfaChallengeKind \<Rightarrow> bool \<Rightarrow> jstr option \<Rightarrow> jstr \<Rightarrow>
    MfaChallengeResponse handler" where
  "createChallenge env projectId realm userId tokens kind emailVerified account challengeId = Now (\<lambda>t.
     SetChallenge (projectId, challengeId)
       \<lparr>sc_kind = kind, sc_userId = userId, sc_realm = realm, sc_tokens = tokens, sc_emailVerified = emailVerified,
        sc_account = account, sc_createdAt = t\<rparr>
       (challengeTtlSeconds env)
       (answer \<lparr>cr_challengeId = challengeId,
          cr_methods = (if kind = KVerify then [js ''totp'', js ''recovery''] else [js ''totp'']),
          cr_expiresIn = challengeTtlSeconds env, cr_enrollmentRequired = (kind = KEnroll)\<rparr>))"

definition peekChallenge :: "jstr \<Rightarrow> jstr \<Rightarrow> StoredMfaChallenge handler" where
  "peekChallenge projectId challengeId =
     (if challengeId = [] then raise ChallengeIdRequired
      else GetChallenge (projectId, challengeId) (\<lambda>raw. case raw of None \<Rightarrow> raise ChallengeExpired | Some c \<Rightarrow> answer c))"

definition consumeChallenge :: "jstr \<Rightarrow> jstr \<Rightarrow> StoredMfaChallenge handler" where
  "consumeChallenge projectId challengeId = TakeChallenge (projectId, challengeId) (\<lambda>raw. case raw of
       None \<Rightarrow> raise ChallengeExpired
     | Some c \<Rightarrow> DelCounter (ChallengeAttempts projectId challengeId) (answer c))"

definition exhaust :: "jstr \<Rightarrow> jstr \<Rightarrow> StoredMfaChallenge \<Rightarrow> 'a handler" where
  "exhaust projectId challengeId stored =
     DelChallenge (projectId, challengeId) (DelCounter (ChallengeAttempts projectId challengeId) (Revoke stored (raise TooManyCodes)))"

definition checkAttempt :: "MfaEnv \<Rightarrow> jstr \<Rightarrow> jstr \<Rightarrow> MfaFactorInput \<Rightarrow> StoredMfaChallenge \<Rightarrow> nat \<Rightarrow> (MfaTokens \<times> jstr \<times> bool) handler" where
  "checkAttempt env projectId challengeId input stored attempts =
     (let u = (projectId, sc_userId stored) in
      FindRow u (\<lambda>row. Now (\<lambda>t.
      pureR (case row of Some r \<Rightarrow> matchFactor env r input t | None \<Rightarrow> Inr None) (\<lambda>found.
      case found of
        None \<Rightarrow> if maxAttempts env \<le> int attempts then exhaust projectId challengeId stored else raise InvalidCode
      | Some f \<Rightarrow> mustUpdate u f (andThen (consumeChallenge projectId challengeId) (\<lambda>released.
          answer (sc_tokens released, sc_userId released, sc_emailVerified released)))))))"

definition verifyChallenge :: "MfaEnv \<Rightarrow> jstr \<Rightarrow> jstr \<Rightarrow> MfaFactorInput \<Rightarrow> (MfaTokens \<times> jstr \<times> bool) handler" where
  "verifyChallenge env projectId challengeId input = andThen (peekChallenge projectId challengeId) (\<lambda>stored.
     if sc_kind stored \<noteq> KVerify then raise ChallengeWantsEnrollment
     else Incr (ChallengeAttempts projectId challengeId) (\<lambda>attempts.
       let rest = (if maxAttempts env < int attempts then exhaust projectId challengeId stored
                   else checkAttempt env projectId challengeId input stored attempts)
       in if attempts = 1 then Expire (ChallengeAttempts projectId challengeId) (challengeTtlSeconds env) rest else rest))"

section \<open>Self-service\<close>

definition disable :: "MfaEnv \<Rightarrow> jstr \<Rightarrow> jstr \<Rightarrow> MfaFactorInput \<Rightarrow> bool \<Rightarrow> unit handler" where
  "disable env projectId userId input force =
     (let u = (projectId, userId) in FindRow u (\<lambda>row.
      if \<not> enrolled row then (if force then forgetUser projectId userId else raise NothingEnrolled)
      else if force then forgetUser projectId userId
      else andThen (countUserAttempt projectId userId) (\<lambda>_. Now (\<lambda>t.
        pureR (matchFactor env (the row) input t) (\<lambda>found.
        if found = None then raise InvalidCode
        else andThen (clearUserAttempts projectId userId) (\<lambda>_. forgetUser projectId userId))))))"

definition regenerateRecoveryCodes :: "MfaEnv \<Rightarrow> jstr \<Rightarrow> jstr \<Rightarrow> jstr \<Rightarrow> bytes list \<Rightarrow> jstr list handler" where
  "regenerateRecoveryCodes env projectId userId code randoms =
     (let u = (projectId, userId) in FindRow u (\<lambda>row.
      if \<not> enrolled row then raise NothingEnrolled
      else andThen (countUserAttempt projectId userId) (\<lambda>_. Now (\<lambda>t.
        pureR (matchFactor env (the row) \<lparr>fi_code = Some code, fi_recoveryCode = None\<rparr> t) (\<lambda>found.
        case found of
          None \<Rightarrow> raise InvalidCode
        | Some f \<Rightarrow> andThen (clearUserAttempts projectId userId) (\<lambda>_.
            let recoveryCodes = generateRecoveryCodes randoms in
            mustUpdate u (\<lambda>r. (f r)\<lparr>mr_recoveryCodeHashes := map (hashRecoveryCode (me_sha256 env)) recoveryCodes\<rparr>)
              (answer recoveryCodes)))))))"

section \<open>The flows of the SDK\<close>

text \<open>The end of \<open>signInUser\<close>, once Keycloak has granted the tokens for a password.\<close>

datatype SignIn = Session MfaTokens jstr bool bool | Challenged MfaChallengeResponse

definition finishSignIn :: "MfaEnv \<Rightarrow> jstr \<Rightarrow> jstr \<Rightarrow> jstr \<Rightarrow> MfaTokens \<Rightarrow> bool \<Rightarrow> jstr \<Rightarrow> bool \<Rightarrow> jstr \<Rightarrow> SignIn handler" where
  "finishSignIn env projectId realm userId tokens emailVerified account enforceEnrollment challengeId =
     (if userId = [] then answer (Session tokens userId emailVerified False)
      else FindRow (projectId, userId) (\<lambda>mfa.
        let challenge = (\<lambda>kind. andThen (createChallenge env projectId realm userId tokens kind emailVerified (Some account) challengeId)
                           (\<lambda>c. answer (Challenged c)));
            required = (case mfa of Some r \<Rightarrow> mr_enrollmentRequiredAt r \<noteq> None | None \<Rightarrow> False)
        in if enrolled mfa then challenge KVerify
           else if required \<and> enforceEnrollment then challenge KEnroll
           else answer (Session tokens userId emailVerified required)))"

record MfaActor =
  ac_userId :: "jstr option"
  ac_email :: "jstr option"
  ac_challengeId :: "jstr option"

definition resolveMfaActor :: "jstr \<Rightarrow> MfaActor \<Rightarrow> (jstr \<times> jstr \<times> jstr option) handler" where
  "resolveMfaActor projectId actor =
     (if given (ac_userId actor)
      then (let u = the (ac_userId actor) in answer (u, case ac_email actor of Some e \<Rightarrow> e | None \<Rightarrow> u, None))
      else if given (ac_challengeId actor)
      then andThen (peekChallenge projectId (the (ac_challengeId actor))) (\<lambda>stored.
        if sc_kind stored \<noteq> KEnroll then raise ChallengeWantsCode
        else answer (sc_userId stored, case sc_account stored of Some a \<Rightarrow> a | None \<Rightarrow> sc_userId stored, ac_challengeId actor))
      else raise ActorMissing)"

definition beginMfaEnrollment :: "MfaEnv \<Rightarrow> jstr \<Rightarrow> MfaActor \<Rightarrow> jstr \<Rightarrow> bytes \<Rightarrow> jstr \<Rightarrow> jstr \<Rightarrow> MfaEnrollment handler" where
  "beginMfaEnrollment env projectId actor projectName random iv newId =
     andThen (resolveMfaActor projectId actor) (\<lambda>(userId, account, _). beginEnrollment env projectId userId projectName account random iv newId)"

definition confirmMfaEnrollment :: "MfaEnv \<Rightarrow> jstr \<Rightarrow> MfaActor \<Rightarrow> jstr \<Rightarrow> bytes list \<Rightarrow> (jstr list \<times> StoredMfaChallenge option) handler" where
  "confirmMfaEnrollment env projectId actor code randoms =
     andThen (resolveMfaActor projectId actor) (\<lambda>(userId, _, challengeId).
     andThen (confirmEnrollment env projectId userId code randoms) (\<lambda>codes.
       case challengeId of
         None \<Rightarrow> answer (codes, None)
       | Some c \<Rightarrow> andThen (consumeChallenge projectId c) (\<lambda>released. answer (codes, Some released))))"

section \<open>Calls\<close>

datatype MfaCall =
    CSignIn jstr jstr jstr MfaTokens bool jstr bool jstr
  | CVerify jstr jstr MfaFactorInput
  | CBegin jstr MfaActor jstr bytes jstr jstr
  | CConfirm jstr MfaActor jstr "bytes list"
  | CDisable jstr jstr MfaFactorInput bool
  | CRegenerate jstr jstr jstr "bytes list"
  | CRequire jstr jstr bool jstr
  | CForget jstr jstr
  | CStatus jstr jstr
  | CList jstr

datatype MfaReply =
    RSignIn SignIn
  | RTokens MfaTokens jstr bool
  | REnrollment MfaEnrollment
  | RConfirmed "jstr list" "StoredMfaChallenge option"
  | RCodes "jstr list"
  | RStatus MfaStatus
  | RList "(jstr \<times> int option \<times> int option \<times> nat) list"
  | RDone

primrec handlerOf :: "MfaEnv \<Rightarrow> MfaCall \<Rightarrow> MfaReply handler" where
  "handlerOf env (CSignIn p realm u tokens ev account enforce c) =
     andThen (finishSignIn env p realm u tokens ev account enforce c) (\<lambda>s. answer (RSignIn s))"
| "handlerOf env (CVerify p c input) = andThen (verifyChallenge env p c input) (\<lambda>(tokens, u, ev). answer (RTokens tokens u ev))"
| "handlerOf env (CBegin p actor name random iv newId) =
     andThen (beginMfaEnrollment env p actor name random iv newId) (\<lambda>e. answer (REnrollment e))"
| "handlerOf env (CConfirm p actor code randoms) =
     andThen (confirmMfaEnrollment env p actor code randoms) (\<lambda>(codes, released). answer (RConfirmed codes released))"
| "handlerOf env (CDisable p u input force) = andThen (disable env p u input force) (\<lambda>_. answer RDone)"
| "handlerOf env (CRegenerate p u code randoms) = andThen (regenerateRecoveryCodes env p u code randoms) (\<lambda>codes. answer (RCodes codes))"
| "handlerOf env (CRequire p u enabled newId) = andThen (setEnrollmentRequired p u enabled newId) (\<lambda>_. answer RDone)"
| "handlerOf env (CForget p u) = andThen (forgetUser p u) (\<lambda>_. answer RDone)"
| "handlerOf env (CStatus p u) = andThen (mfaStatus p u) (\<lambda>s. answer (RStatus s))"
| "handlerOf env (CList p) = andThen (listEnrolled p) (\<lambda>l. answer (RList l))"

section \<open>Histories\<close>

text \<open>What a running handler has seen is kept in a trace, the latest first.\<close>

datatype MfaEvent =
    Started nat MfaCall
  | Saw nat user_key "MfaRow option"
  | Clock nat int
  | Peeked nat challenge_key "StoredMfaChallenge option"
  | Took nat challenge_key "StoredMfaChallenge option"
  | Parked nat challenge_key StoredMfaChallenge

primrec actorOf :: "MfaEvent \<Rightarrow> nat" where
  "actorOf (Started i call) = i"
| "actorOf (Saw i u r) = i"
| "actorOf (Clock i t) = i"
| "actorOf (Peeked i k c) = i"
| "actorOf (Took i k c) = i"
| "actorOf (Parked i k c) = i"

fun eventsOf :: "nat \<Rightarrow> 'r prog \<Rightarrow> MfaState \<Rightarrow> MfaEvent list" where
  "eventsOf i (FindRow u k) st = [Saw i u (findRow u st)]"
| "eventsOf i (GetChallenge key k) st = [Peeked i key (liveChallenge key st)]"
| "eventsOf i (TakeChallenge key k) st = [Took i key (liveChallenge key st)]"
| "eventsOf i (SetChallenge key c ttl k) st = [Parked i key c]"
| "eventsOf i (Now k) st = [Clock i (ms_clock st)]"
| "eventsOf i _ st = []"

record MfaSystem =
  sy_state :: MfaState
  sy_running :: "(nat \<times> MfaReply handler) list"
  sy_trace :: "MfaEvent list"

definition startCall :: "MfaEnv \<Rightarrow> nat \<Rightarrow> MfaCall \<Rightarrow> MfaSystem \<Rightarrow> MfaSystem" where
  "startCall env i call sys = sys\<lparr>sy_running := sy_running sys @ [(i, handlerOf env call)], sy_trace := Started i call # sy_trace sys\<rparr>"

definition moveOn :: "nat \<Rightarrow> MfaReply handler \<Rightarrow> MfaSystem \<Rightarrow> MfaSystem" where
  "moveOn i p sys = (case perform p (sy_state sys) of (p', st') \<Rightarrow>
     sys\<lparr>sy_state := st', sy_running := map (\<lambda>(j, q). if j = i then (j, p') else (j, q)) (sy_running sys),
         sy_trace := eventsOf i p (sy_state sys) @ sy_trace sys\<rparr>)"

definition tick :: "int \<Rightarrow> MfaState \<Rightarrow> MfaState" where
  "tick d st = st\<lparr>ms_clock := ms_clock st + d\<rparr>"

text \<open>A challenge id is 32 random bytes: a sign-in does not draw one that was drawn before.\<close>

fun drawnKey :: "MfaCall \<Rightarrow> challenge_key option" where
  "drawnKey (CSignIn p realm u tokens ev account enforce c) = Some (p, c)"
| "drawnKey _ = None"

definition freshCall :: "nat \<Rightarrow> MfaCall \<Rightarrow> MfaSystem \<Rightarrow> bool" where
  "freshCall i call sys \<longleftrightarrow> (\<forall>j old. Started j old \<in> set (sy_trace sys) \<longrightarrow> j \<noteq> i \<and> (drawnKey call = None \<or> drawnKey old \<noteq> drawnKey call))"

inductive mfaStep :: "MfaEnv \<Rightarrow> MfaSystem \<Rightarrow> MfaSystem \<Rightarrow> bool" for env where
  start: "freshCall i call sys \<Longrightarrow> mfaStep env sys (startCall env i call sys)"
| move: "(i, p) \<in> set (sy_running sys) \<Longrightarrow> mfaStep env sys (moveOn i p sys)"
| time: "0 \<le> d \<Longrightarrow> mfaStep env sys (sys\<lparr>sy_state := tick d (sy_state sys)\<rparr>)"

definition noMfaCalls :: "MfaSystem \<Rightarrow> bool" where
  "noMfaCalls sys \<longleftrightarrow> sy_running sys = [] \<and> sy_trace sys = [] \<and> ms_challenges (sy_state sys) = Map.empty"

end
