(* ===== verification/MfaRules.thy ===== *)
theory MfaRules
  imports MfaService
begin

text \<open>
  What the second factor guarantees when handlers interleave in any way: parked tokens leave Redis at most once,
  and only after the very factor of the user they belong to has been checked.
\<close>

section \<open>Programs that are watched\<close>

text \<open>\<open>watch take park i h p\<close>: whatever the answers, the program takes and parks challenges only when \<open>take\<close>
  and \<open>park\<close> hold of what it has seen.\<close>

primrec watch :: "(MfaEvent list \<Rightarrow> challenge_key \<Rightarrow> bool) \<Rightarrow> (MfaEvent list \<Rightarrow> challenge_key \<Rightarrow> StoredMfaChallenge \<Rightarrow> bool) \<Rightarrow>
    nat \<Rightarrow> 'r prog \<Rightarrow> MfaEvent list \<Rightarrow> bool" where
  "watch tk pk i (Return r) h \<longleftrightarrow> True"
| "watch tk pk i (FindRow u k) h \<longleftrightarrow> (\<forall>r. watch tk pk i (k r) (Saw i u r # h))"
| "watch tk pk i (FindEnrolled p k) h \<longleftrightarrow> (\<forall>rs. watch tk pk i (k rs) h)"
| "watch tk pk i (UpsertRow u new f k) h \<longleftrightarrow> watch tk pk i k h"
| "watch tk pk i (UpdateRow u f k) h \<longleftrightarrow> (\<forall>b. watch tk pk i (k b) h)"
| "watch tk pk i (DeleteRow u k) h \<longleftrightarrow> watch tk pk i k h"
| "watch tk pk i (SetChallenge key c ttl k) h \<longleftrightarrow> pk h key c \<and> watch tk pk i k (Parked i key c # h)"
| "watch tk pk i (GetChallenge key k) h \<longleftrightarrow> (\<forall>c. watch tk pk i (k c) (Peeked i key c # h))"
| "watch tk pk i (TakeChallenge key k) h \<longleftrightarrow> tk h key \<and> (\<forall>c. watch tk pk i (k c) (Took i key c # h))"
| "watch tk pk i (DelChallenge key k) h \<longleftrightarrow> watch tk pk i k h"
| "watch tk pk i (Incr key k) h \<longleftrightarrow> (\<forall>n. watch tk pk i (k n) h)"
| "watch tk pk i (Expire key ttl k) h \<longleftrightarrow> watch tk pk i k h"
| "watch tk pk i (DelCounter key k) h \<longleftrightarrow> watch tk pk i k h"
| "watch tk pk i (Revoke c k) h \<longleftrightarrow> watch tk pk i k h"
| "watch tk pk i (Now k) h \<longleftrightarrow> (\<forall>t. watch tk pk i (k t) (Clock i t # h))"

lemma watch_perform:
  "watch tk pk i p h \<Longrightarrow> watch tk pk i (fst (perform p st)) (eventsOf i p st @ h)"
  by (cases p) (auto split: prod.splits)

text \<open>The factor that a call has checked before it takes a challenge of \<open>user\<close>.\<close>

definition factorChecked :: "MfaEnv \<Rightarrow> MfaCall \<Rightarrow> nat \<Rightarrow> MfaEvent list \<Rightarrow> challenge_key \<Rightarrow> jstr \<Rightarrow> bool" where
  "factorChecked env call i h key userId \<longleftrightarrow> (\<exists>row t. Saw i (fst key, userId) (Some row) \<in> set h \<and> Clock i t \<in> set h \<and>
     (case call of
        CVerify p cid input \<Rightarrow> key = (p, cid) \<and> (\<exists>f. matchFactor env row input t = Inr (Some f))
      | CConfirm p actor code _ \<Rightarrow> fst key = p \<and> ac_challengeId actor = Some (snd key) \<and> mr_verifiedAt row = None \<and>
          (\<exists>secret r. reveal env (mr_pendingSecretEnc row) = Inr (Some secret) \<and> checkCode env secret code None t = Inr r \<and> vr_ok r)
      | _ \<Rightarrow> False))"

definition mayTake :: "MfaEnv \<Rightarrow> MfaCall \<Rightarrow> nat \<Rightarrow> MfaEvent list \<Rightarrow> challenge_key \<Rightarrow> bool" where
  "mayTake env call i h key \<longleftrightarrow> (\<exists>c. Peeked i key (Some c) \<in> set h \<and> factorChecked env call i h key (sc_userId c))"

definition mayPark :: "MfaCall \<Rightarrow> nat \<Rightarrow> MfaEvent list \<Rightarrow> challenge_key \<Rightarrow> StoredMfaChallenge \<Rightarrow> bool" where
  "mayPark call i h key c \<longleftrightarrow> drawnKey call = Some key \<and> (\<forall>k d. Parked i k d \<notin> set h)"

lemmas handlers = createChallenge_def peekChallenge_def consumeChallenge_def exhaust_def checkAttempt_def verifyChallenge_def
  disable_def regenerateRecoveryCodes_def finishSignIn_def resolveMfaActor_def beginMfaEnrollment_def confirmMfaEnrollment_def
  mfaStatus_def listEnrolled_def setEnrollmentRequired_def forgetUser_def countUserAttempt_def clearUserAttempts_def
  beginEnrollment_def confirmEnrollment_def raise_def answer_def pureR_def mustUpdate_def

lemma verify_watched: "watch (mayTake env (CVerify p c input) i) pk i (handlerOf env (CVerify p c input)) h"
  by (auto simp: handlers Let_def mayTake_def factorChecked_def split: option.splits sum.splits if_splits prod.splits)

lemma confirm_watched:
  "watch (mayTake env (CConfirm p actor code randoms) i) pk i (handlerOf env (CConfirm p actor code randoms)) h"
  by (auto simp: handlers Let_def mayTake_def factorChecked_def enrolled_def given_def split: option.splits sum.splits if_splits prod.splits) blast+

lemma sign_in_watched:
  "\<forall>k d. Parked i k d \<notin> set h \<Longrightarrow>
    watch tk (mayPark (CSignIn p realm u tokens ev account enforce c) i) i (handlerOf env (CSignIn p realm u tokens ev account enforce c)) h"
  by (auto simp: handlers Let_def mayPark_def split: option.splits sum.splits if_splits prod.splits)

text \<open>The other calls neither take nor park a challenge.\<close>

lemma others_watched:
  "watch tk pk i (handlerOf env (CBegin p actor name random iv newId)) h"
  "watch tk pk i (handlerOf env (CDisable p u input force)) h"
  "watch tk pk i (handlerOf env (CRegenerate p u code randoms)) h"
  "watch tk pk i (handlerOf env (CRequire p u enabled newId)) h"
  "watch tk pk i (handlerOf env (CForget p u)) h"
  "watch tk pk i (handlerOf env (CStatus p u)) h"
  "watch tk pk i (handlerOf env (CList p)) h"
  by (auto simp: handlers Let_def split: option.splits sum.splits if_splits prod.splits)

lemma handler_watched:
  assumes "\<forall>k d. Parked i k d \<notin> set h"
  shows "watch (mayTake env call i) (mayPark call i) i (handlerOf env call) h"
proof (cases call)
  case (CSignIn p realm u tokens ev account enforce c)
  then show ?thesis using sign_in_watched [OF assms] by blast
qed (simp_all only: verify_watched confirm_watched others_watched)

section \<open>The invariant of interleaved calls\<close>

definition own :: "nat \<Rightarrow> MfaEvent list \<Rightarrow> MfaEvent list" where
  "own i tr = filter (\<lambda>e. actorOf e = i) tr"

fun parkedKeys :: "MfaEvent list \<Rightarrow> challenge_key list" where
  "parkedKeys [] = []"
| "parkedKeys (Parked i k c # tr) = k # parkedKeys tr"
| "parkedKeys (_ # tr) = parkedKeys tr"

fun takenKeys :: "MfaEvent list \<Rightarrow> challenge_key list" where
  "takenKeys [] = []"
| "takenKeys (Took i k (Some c) # tr) = k # takenKeys tr"
| "takenKeys (_ # tr) = takenKeys tr"

fun startedCalls :: "MfaEvent list \<Rightarrow> (nat \<times> MfaCall) list" where
  "startedCalls [] = []"
| "startedCalls (Started i call # tr) = (i, call) # startedCalls tr"
| "startedCalls (_ # tr) = startedCalls tr"

lemma mem_parkedKeys: "k \<in> set (parkedKeys tr) \<longleftrightarrow> (\<exists>i c. Parked i k c \<in> set tr)"
  by (induction tr rule: parkedKeys.induct) auto

lemma mem_takenKeys: "k \<in> set (takenKeys tr) \<longleftrightarrow> (\<exists>i c. Took i k (Some c) \<in> set tr)"
  by (induction tr rule: takenKeys.induct) auto

lemma mem_startedCalls: "(i, call) \<in> set (startedCalls tr) \<longleftrightarrow> Started i call \<in> set tr"
  by (induction tr rule: startedCalls.induct) auto

definition runningOk :: "MfaEnv \<Rightarrow> MfaSystem \<Rightarrow> bool" where
  "runningOk env sys \<longleftrightarrow> distinct (map fst (sy_running sys)) \<and>
     (\<forall>(i, p)\<in>set (sy_running sys). \<exists>call. Started i call \<in> set (sy_trace sys) \<and>
        watch (mayTake env call i) (mayPark call i) i p (own i (sy_trace sys)))"

definition sameDraw :: "nat \<times> MfaCall \<Rightarrow> nat \<times> MfaCall \<Rightarrow> bool" where
  "sameDraw x y \<longleftrightarrow> fst x = fst y \<or> drawnKey (snd x) \<noteq> None \<and> drawnKey (snd x) = drawnKey (snd y)"

definition startedOnce :: "MfaEvent list \<Rightarrow> bool" where
  "startedOnce tr \<longleftrightarrow> (\<forall>x\<in>set (startedCalls tr). \<forall>y\<in>set (startedCalls tr). sameDraw x y \<longrightarrow> x = y)"

definition traceOk :: "MfaEnv \<Rightarrow> MfaEvent list \<Rightarrow> bool" where
  "traceOk env tr \<longleftrightarrow> startedOnce tr \<and> distinct (parkedKeys tr) \<and> distinct (takenKeys tr) \<and>
     (\<forall>e\<in>set tr. \<exists>call. Started (actorOf e) call \<in> set tr) \<and>
     (\<forall>i k c. Parked i k c \<in> set tr \<longrightarrow> (\<exists>call. Started i call \<in> set tr \<and> drawnKey call = Some k)) \<and>
     (\<forall>i k c. Peeked i k (Some c) \<in> set tr \<longrightarrow> (\<exists>j. Parked j k c \<in> set tr)) \<and>
     (\<forall>i k c. Took i k (Some c) \<in> set tr \<longrightarrow> (\<exists>j. Parked j k c \<in> set tr) \<and>
        (\<exists>call. Started i call \<in> set tr \<and> mayTake env call i (own i tr) k))"

definition storeOk :: "MfaSystem \<Rightarrow> bool" where
  "storeOk sys \<longleftrightarrow> (\<forall>k c until. ms_challenges (sy_state sys) k = Some (c, until) \<longrightarrow>
     (\<exists>j. Parked j k c \<in> set (sy_trace sys)) \<and> k \<notin> set (takenKeys (sy_trace sys)))"

definition mfaInv :: "MfaEnv \<Rightarrow> MfaSystem \<Rightarrow> bool" where
  "mfaInv env sys \<longleftrightarrow> runningOk env sys \<and> traceOk env (sy_trace sys) \<and> storeOk sys"

lemma own_Cons [simp]: "own i (e # tr) = (if actorOf e = i then e # own i tr else own i tr)"
  by (simp add: own_def)

lemma mem_own: "e \<in> set (own i tr) \<longleftrightarrow> e \<in> set tr \<and> actorOf e = i"
  by (auto simp: own_def)

lemma mayTake_mono: "mayTake env call i h key \<Longrightarrow> set h \<subseteq> set h' \<Longrightarrow> mayTake env call i h' key"
  unfolding mayTake_def factorChecked_def by (meson subsetD)

lemma mayTake_later: "mayTake env call i (own i tr) key \<Longrightarrow> mayTake env call i (own i (e # tr)) key"
  by (erule mayTake_mono) auto

text \<open>What an event has to satisfy to extend a good trace.\<close>

primrec goodEvent :: "MfaEnv \<Rightarrow> MfaEvent list \<Rightarrow> MfaEvent \<Rightarrow> bool" where
  "goodEvent env tr (Started i call) \<longleftrightarrow> (\<forall>x\<in>set (startedCalls tr). \<not> sameDraw (i, call) x)"
| "goodEvent env tr (Saw i u r) \<longleftrightarrow> (\<exists>call. Started i call \<in> set tr)"
| "goodEvent env tr (Clock i t) \<longleftrightarrow> (\<exists>call. Started i call \<in> set tr)"
| "goodEvent env tr (Peeked i k c) \<longleftrightarrow> (\<exists>call. Started i call \<in> set tr) \<and> (c \<noteq> None \<longrightarrow> (\<exists>j. Parked j k (the c) \<in> set tr))"
| "goodEvent env tr (Took i k c) \<longleftrightarrow> (\<exists>call. Started i call \<in> set tr \<and> mayTake env call i (own i tr) k) \<and>
     (c \<noteq> None \<longrightarrow> (\<exists>j. Parked j k (the c) \<in> set tr) \<and> k \<notin> set (takenKeys tr))"
| "goodEvent env tr (Parked i k c) \<longleftrightarrow> (\<exists>call. Started i call \<in> set tr \<and> mayPark call i (own i tr) k c)"

lemma traceOk_parts:
  "traceOk env tr \<Longrightarrow> startedOnce tr" "traceOk env tr \<Longrightarrow> distinct (parkedKeys tr)" "traceOk env tr \<Longrightarrow> distinct (takenKeys tr)"
  "traceOk env tr \<Longrightarrow> e \<in> set tr \<Longrightarrow> \<exists>call. Started (actorOf e) call \<in> set tr"
  "traceOk env tr \<Longrightarrow> Parked i k c \<in> set tr \<Longrightarrow> \<exists>call. Started i call \<in> set tr \<and> drawnKey call = Some k"
  "traceOk env tr \<Longrightarrow> Peeked i k (Some c) \<in> set tr \<Longrightarrow> \<exists>j. Parked j k c \<in> set tr"
  "traceOk env tr \<Longrightarrow> Took i k (Some c) \<in> set tr \<Longrightarrow> \<exists>j. Parked j k c \<in> set tr"
  "traceOk env tr \<Longrightarrow> Took i k (Some c) \<in> set tr \<Longrightarrow> \<exists>call. Started i call \<in> set tr \<and> mayTake env call i (own i tr) k"
  unfolding traceOk_def by blast+

lemma sameDraw_sym: "sameDraw x y \<Longrightarrow> sameDraw y x"
  unfolding sameDraw_def by metis

lemma one_start:
  assumes "startedOnce tr" "Started i call \<in> set tr" "Started j call' \<in> set tr" "sameDraw (i, call) (j, call')"
  shows "i = j \<and> call = call'"
proof -
  have "(i, call) = (j, call')" using assms unfolding startedOnce_def mem_startedCalls [symmetric] by blast
  then show ?thesis by simp
qed

lemma park_is_new:
  assumes "traceOk env tr" "Started i call \<in> set tr" "mayPark call i (own i tr) k c"
  shows "k \<notin> set (parkedKeys tr)" "k \<notin> set (takenKeys tr)"
proof -
  show 1: "k \<notin> set (parkedKeys tr)"
  proof
    assume "k \<in> set (parkedKeys tr)"
    then obtain j d where j: "Parked j k d \<in> set tr" unfolding mem_parkedKeys by blast
    from traceOk_parts(5) [OF assms(1) this] obtain call' where
      call': "Started j call' \<in> set tr" "drawnKey call' = Some k" by blast
    have "drawnKey call = Some k" using assms(3) by (simp add: mayPark_def)
    with call' have "sameDraw (i, call) (j, call')" by (simp add: sameDraw_def)
    with one_start [OF traceOk_parts(1) [OF assms(1)] assms(2) call'(1)] have "i = j" by blast
    with j have "Parked i k d \<in> set (own i tr)" by (simp add: mem_own)
    with assms(3) show False unfolding mayPark_def by blast
  qed
  show "k \<notin> set (takenKeys tr)"
  proof
    assume "k \<in> set (takenKeys tr)"
    then obtain j d where "Took j k (Some d) \<in> set tr" unfolding mem_takenKeys by blast
    from traceOk_parts(7) [OF assms(1) this] 1 show False unfolding mem_parkedKeys by blast
  qed
qed

lemma good_starter: "goodEvent env tr e \<Longrightarrow> \<exists>call. Started (actorOf e) call \<in> set (e # tr)"
  by (cases e) auto

lemma traceOk_Cons:
  assumes ok: "traceOk env tr" and e: "goodEvent env tr e"
  shows "traceOk env (e # tr)"
proof -
  have "startedOnce (e # tr)"
  proof (cases e)
    case (Started i call)
    with e have "\<not> sameDraw (i, call) x \<and> \<not> sameDraw x (i, call)" if "x \<in> set (startedCalls tr)" for x
      using that sameDraw_sym [of x] by auto
    with Started traceOk_parts(1) [OF ok] show ?thesis unfolding startedOnce_def by simp
  qed (use traceOk_parts(1) [OF ok] in \<open>simp_all add: startedOnce_def\<close>)
  moreover have "distinct (parkedKeys (e # tr))"
    using traceOk_parts(2) [OF ok] e park_is_new(1) [OF ok] by (cases e) auto
  moreover have "distinct (takenKeys (e # tr))"
  proof (cases e)
    case (Took i k c)
    then show ?thesis using traceOk_parts(3) [OF ok] e by (cases c) auto
  qed (use traceOk_parts(3) [OF ok] in auto)
  moreover have "\<exists>call. Started (actorOf a) call \<in> set (e # tr)" if "a \<in> set (e # tr)" for a
    using that traceOk_parts(4) [OF ok, of a] good_starter [OF e] by auto
  moreover have "\<exists>call. Started i call \<in> set (e # tr) \<and> drawnKey call = Some k" if "Parked i k c \<in> set (e # tr)" for i k c
  proof (cases "e = Parked i k c")
    case True
    with e show ?thesis by (auto simp: mayPark_def)
  next
    case False
    with that have "Parked i k c \<in> set tr" by simp
    from traceOk_parts(5) [OF ok this] show ?thesis by auto
  qed
  moreover have "\<exists>j. Parked j k c \<in> set (e # tr)" if "Peeked i k (Some c) \<in> set (e # tr)" for i k c
  proof (cases "e = Peeked i k (Some c)")
    case True
    with e show ?thesis by auto
  next
    case False
    with that have "Peeked i k (Some c) \<in> set tr" by simp
    from traceOk_parts(6) [OF ok this] show ?thesis by auto
  qed
  moreover have "(\<exists>j. Parked j k c \<in> set (e # tr)) \<and> (\<exists>call. Started i call \<in> set (e # tr) \<and> mayTake env call i (own i (e # tr)) k)"
    if "Took i k (Some c) \<in> set (e # tr)" for i k c
  proof -
    have "(\<exists>j. Parked j k c \<in> set tr) \<and> (\<exists>call. Started i call \<in> set tr \<and> mayTake env call i (own i tr) k)"
    proof (cases "e = Took i k (Some c)")
      case True
      with e show ?thesis by auto
    next
      case False
      with that have "Took i k (Some c) \<in> set tr" by simp
      from traceOk_parts(7,8) [OF ok this] show ?thesis by blast
    qed
    then show ?thesis using mayTake_later by (meson list.set_intros(2))
  qed
  ultimately show ?thesis unfolding traceOk_def by blast
qed

lemma event_cases: "eventsOf i p st = [] \<or> (\<exists>e. eventsOf i p st = [e] \<and> actorOf e = i)"
  by (cases p) auto

lemma performed_event_good:
  assumes ok: "traceOk env tr" and store: "\<And>k c until. ms_challenges st k = Some (c, until) \<Longrightarrow> (\<exists>j. Parked j k c \<in> set tr) \<and> k \<notin> set (takenKeys tr)"
    and call: "Started i call \<in> set tr" and watched: "watch (mayTake env call i) (mayPark call i) i p (own i tr)"
    and e: "e \<in> set (eventsOf i p st)"
  shows "goodEvent env tr e"
proof -
  have live: "\<exists>j. Parked j k c \<in> set tr" "k \<notin> set (takenKeys tr)" if "liveChallenge k st = Some c" for k c
    using that store [of k] by (auto simp: liveChallenge_def split: option.splits if_splits)
  from e show ?thesis using call watched live by (cases p) auto
qed

lemma performed_store:
  assumes ok: "traceOk env tr" and store: "\<And>k c until. ms_challenges st k = Some (c, until) \<Longrightarrow> (\<exists>j. Parked j k c \<in> set tr) \<and> k \<notin> set (takenKeys tr)"
    and call: "Started i call \<in> set tr" and watched: "watch (mayTake env call i) (mayPark call i) i p (own i tr)"
    and new: "ms_challenges (snd (perform p st)) k = Some (c, until)"
  shows "(\<exists>j. Parked j k c \<in> set (eventsOf i p st @ tr)) \<and> k \<notin> set (takenKeys (eventsOf i p st @ tr))"
proof (cases p)
  case (SetChallenge key d ttl q)
  with watched have "mayPark call i (own i tr) key d" by simp
  from park_is_new(2) [OF ok call this] SetChallenge new store [of k c until] show ?thesis
    by (cases "k = key") (auto simp: setChallenge_def)
next
  case (TakeChallenge key q)
  with new have "k \<noteq> key" "ms_challenges st k = Some (c, until)" by (auto simp: delChallenge_def split: if_splits)
  with store [of k c until] TakeChallenge show ?thesis by (cases "liveChallenge key st") auto
next
  case (DelChallenge key q)
  with new have "ms_challenges st k = Some (c, until)" by (auto simp: delChallenge_def split: if_splits)
  with store [of k c until] DelChallenge show ?thesis by auto
qed (use new store [of k c until] in \<open>auto simp: upsertRow_def updateRow_def deleteRow_def incr_def expire_def delCounter_def
      revoke_def split: if_splits option.splits prod.splits\<close>)

lemma own_other: "\<forall>e\<in>set evs. actorOf e = i \<Longrightarrow> j \<noteq> i \<Longrightarrow> own j (evs @ tr) = own j tr"
  by (auto simp: own_def filter_empty_conv)

lemma own_same: "\<forall>e\<in>set evs. actorOf e = i \<Longrightarrow> own i (evs @ tr) = evs @ own i tr"
  by (simp add: own_def)

lemma startCall_inv:
  assumes inv: "mfaInv env sys" and fresh: "freshCall i call sys"
  shows "mfaInv env (startCall env i call sys)"
proof -
  let ?tr = "sy_trace sys"
  have tr: "traceOk env ?tr" and run: "runningOk env sys" and store: "storeOk sys" using inv by (simp_all add: mfaInv_def)
  have new: "\<not> sameDraw (i, call) x" if "x \<in> set (startedCalls ?tr)" for x
  proof (cases x)
    case (Pair j old)
    with that have "Started j old \<in> set ?tr" by (simp add: mem_startedCalls)
    with fresh have "j \<noteq> i \<and> (drawnKey call = None \<or> drawnKey old \<noteq> drawnKey call)" unfolding freshCall_def by blast
    with Pair show ?thesis unfolding sameDraw_def by auto
  qed
  then have tr': "traceOk env (Started i call # ?tr)" using tr by (intro traceOk_Cons) auto
  have unused: "own i ?tr = []"
  proof -
    have "actorOf e \<noteq> i" if "e \<in> set ?tr" for e
      using traceOk_parts(4) [OF tr that] fresh by (auto simp: freshCall_def)
    then show ?thesis by (auto simp: own_def filter_empty_conv)
  qed
  have idle: "i \<notin> fst ` set (sy_running sys)"
    using run fresh by (fastforce simp: runningOk_def freshCall_def)
  have first: "watch (mayTake env call i) (mayPark call i) i (handlerOf env call) [Started i call]"
    by (rule handler_watched) simp
  have "runningOk env (startCall env i call sys)"
    unfolding runningOk_def
  proof (intro conjI ballI)
    show "distinct (map fst (sy_running (startCall env i call sys)))"
      using run idle by (auto simp: runningOk_def startCall_def)
  next
    fix jq assume "jq \<in> set (sy_running (startCall env i call sys))"
    then consider "jq = (i, handlerOf env call)" | "jq \<in> set (sy_running sys)" by (auto simp: startCall_def)
    then show "case jq of (j, q) \<Rightarrow> \<exists>call'. Started j call' \<in> set (sy_trace (startCall env i call sys)) \<and>
        watch (mayTake env call' j) (mayPark call' j) j q (own j (sy_trace (startCall env i call sys)))"
    proof cases
      case 1
      with first unused show ?thesis by (auto simp: startCall_def)
    next
      case 2
      with run obtain j q old where jq: "jq = (j, q)" "Started j old \<in> set ?tr"
        "watch (mayTake env old j) (mayPark old j) j q (own j ?tr)" by (auto simp: runningOk_def)
      with 2 idle have "j \<noteq> i" by (auto simp: in_fst_image)
      with jq show ?thesis by (auto simp: startCall_def)
    qed
  qed
  moreover have "storeOk (startCall env i call sys)" using store by (fastforce simp: storeOk_def startCall_def)
  ultimately show ?thesis using tr' by (simp add: mfaInv_def startCall_def)
qed

lemma moveOn_inv:
  assumes inv: "mfaInv env sys" and p: "(i, p) \<in> set (sy_running sys)"
  shows "mfaInv env (moveOn i p sys)"
proof -
  let ?tr = "sy_trace sys" and ?st = "sy_state sys"
  let ?evs = "eventsOf i p ?st" and ?p' = "fst (perform p ?st)"
  have tr: "traceOk env ?tr" and run: "runningOk env sys" and store: "storeOk sys" using inv by (simp_all add: mfaInv_def)
  from run p obtain call where call: "Started i call \<in> set ?tr"
    and watched: "watch (mayTake env call i) (mayPark call i) i p (own i ?tr)" by (auto simp: runningOk_def)
  have st: "(\<exists>j. Parked j k c \<in> set ?tr) \<and> k \<notin> set (takenKeys ?tr)" if "ms_challenges ?st k = Some (c, until)" for k c until
    using store that unfolding storeOk_def by blast
  have mine: "\<forall>e\<in>set ?evs. actorOf e = i" using event_cases [of i p ?st] by auto
  have good: "goodEvent env ?tr e" if "e \<in> set ?evs" for e
    by (rule performed_event_good [OF tr _ call watched that]) (rule st)
  have tr': "traceOk env (?evs @ ?tr)"
    using event_cases [of i p ?st] good tr by (auto intro: traceOk_Cons)
  have moved: "moveOn i p sys = sys\<lparr>sy_state := snd (perform p ?st),
      sy_running := map (\<lambda>(j, q). if j = i then (j, ?p') else (j, q)) (sy_running sys), sy_trace := ?evs @ ?tr\<rparr>"
    by (simp add: moveOn_def split: prod.split)
  have "storeOk (moveOn i p sys)"
    unfolding storeOk_def
  proof (intro allI impI)
    fix k c until assume "ms_challenges (sy_state (moveOn i p sys)) k = Some (c, until)"
    then have "ms_challenges (snd (perform p ?st)) k = Some (c, until)" by (simp add: moved)
    from performed_store [OF tr _ call watched this] st
    show "(\<exists>j. Parked j k c \<in> set (sy_trace (moveOn i p sys))) \<and> k \<notin> set (takenKeys (sy_trace (moveOn i p sys)))"
      by (simp add: moved)
  qed
  moreover have "runningOk env (moveOn i p sys)"
    unfolding runningOk_def
  proof (intro conjI ballI)
    have "map fst (sy_running (moveOn i p sys)) = map fst (sy_running sys)" by (auto simp: moved)
    with run show "distinct (map fst (sy_running (moveOn i p sys)))" by (simp add: runningOk_def)
  next
    fix jq assume "jq \<in> set (sy_running (moveOn i p sys))"
    then obtain j q q0 where jq: "jq = (j, q)" "(j, q0) \<in> set (sy_running sys)" "q = (if j = i then ?p' else q0)"
      by (auto simp: moved split: if_splits)
    from jq(2) run obtain old where old: "Started j old \<in> set ?tr" "watch (mayTake env old j) (mayPark old j) j q0 (own j ?tr)"
      by (auto simp: runningOk_def)
    have "\<exists>call. Started j call \<in> set (?evs @ ?tr) \<and> watch (mayTake env call j) (mayPark call j) j q (own j (?evs @ ?tr))"
    proof (cases "j = i")
      case True
      with jq(3) watch_perform [OF watched, of ?st] call own_same [OF mine, of ?tr] show ?thesis by auto
    next
      case False
      with jq(3) old own_other [OF mine False, of ?tr] show ?thesis by auto
    qed
    with jq(1) show "case jq of (j, q) \<Rightarrow> \<exists>call. Started j call \<in> set (sy_trace (moveOn i p sys)) \<and>
        watch (mayTake env call j) (mayPark call j) j q (own j (sy_trace (moveOn i p sys)))" by (simp add: moved)
  qed
  ultimately show ?thesis using tr' by (simp add: mfaInv_def moved)
qed

lemma mfaStep_inv:
  assumes inv: "mfaInv env sys" and step: "mfaStep env sys sys'"
  shows "mfaInv env sys'"
  using step
proof cases
  case (time d)
  with inv show ?thesis by (simp add: mfaInv_def runningOk_def storeOk_def tick_def)
qed (use inv in \<open>simp_all add: startCall_inv moveOn_inv\<close>)

lemma noMfaCalls_inv: "noMfaCalls sys \<Longrightarrow> mfaInv env sys"
  by (simp add: noMfaCalls_def mfaInv_def runningOk_def storeOk_def traceOk_def startedOnce_def)

interpretation mfa: step_system noMfaCalls "mfaStep env" "mfaInv env" for env
  by unfold_locales (simp_all add: noMfaCalls_inv mfaStep_inv)

lemma parked_once: "distinct (parkedKeys tr) \<Longrightarrow> Parked i k c \<in> set tr \<Longrightarrow> Parked j k d \<in> set tr \<Longrightarrow> c = d"
proof (induction tr rule: parkedKeys.induct)
  case (2 l key e tr)
  then show ?case by (auto simp: mem_parkedKeys)
qed auto

lemma distinct_count_one: "distinct xs \<Longrightarrow> x \<in> set xs \<Longrightarrow> length (filter (\<lambda>k. k = x) xs) = 1"
proof (induction xs)
  case (Cons y ys)
  then show ?case by (cases "y = x") (auto simp: filter_empty_conv)
qed simp

end
