(* ===== verification/MfaUse.thy ===== *)
theory MfaUse
  imports MfaRules
begin

text \<open>
  The release of parked tokens, with histories that run: what interleaving can and cannot do.
\<close>

text \<open>C27.  However handlers interleave, a challenge's tokens leave Redis at most once, and whoever takes them has
  read the factor of the user they belong to and found it to match: the code or recovery code of a
  verification, or the first code of a factor that the user had to enrol.\<close>

theorem tokens_need_the_factor:
  assumes "noMfaCalls sys" "(mfaStep env)\<^sup>*\<^sup>* sys sys'" "Took i (p, cid) (Some c) \<in> set (sy_trace sys')"
  shows "(\<exists>call. Started i call \<in> set (sy_trace sys') \<and> factorChecked env call i (sy_trace sys') (p, cid) (sc_userId c)) \<and>
    length (filter (\<lambda>k. k = (p, cid)) (takenKeys (sy_trace sys'))) = 1"
proof -
  have tr: "traceOk env (sy_trace sys')" using mfa.reachable_inv [OF assms(1,2)] by (simp add: mfaInv_def)
  from traceOk_parts(8) [OF tr assms(3)] obtain call c' where call: "Started i call \<in> set (sy_trace sys')"
    "Peeked i (p, cid) (Some c') \<in> set (own i (sy_trace sys'))" "factorChecked env call i (own i (sy_trace sys')) (p, cid) (sc_userId c')"
    by (auto simp: mayTake_def)
  have "c' = c"
  proof -
    from call(2) have "Peeked i (p, cid) (Some c') \<in> set (sy_trace sys')" by (simp add: mem_own)
    from traceOk_parts(6) [OF tr this] obtain j where "Parked j (p, cid) c' \<in> set (sy_trace sys')" by blast
    moreover obtain l where "Parked l (p, cid) c \<in> set (sy_trace sys')" using traceOk_parts(7) [OF tr assms(3)] by blast
    ultimately show ?thesis using parked_once [OF traceOk_parts(2) [OF tr]] by blast
  qed
  moreover have "factorChecked env call i (sy_trace sys') (p, cid) (sc_userId c')"
    using call(3) unfolding factorChecked_def mem_own by blast
  moreover have "(p, cid) \<in> set (takenKeys (sy_trace sys'))" using assms(3) by (auto simp: mem_takenKeys)
  ultimately show ?thesis using call(1) traceOk_parts(3) [OF tr] by (auto simp: distinct_count_one)
qed

section \<open>Histories that run\<close>

datatype Move = Begin nat MfaCall | Go nat

definition playMove :: "MfaEnv \<Rightarrow> MfaSystem \<Rightarrow> Move \<Rightarrow> MfaSystem" where
  "playMove env sys m = (case m of
     Begin i call \<Rightarrow>
       if list_all (\<lambda>(j, old). j \<noteq> i \<and> (drawnKey call = None \<or> drawnKey old \<noteq> drawnKey call)) (startedCalls (sy_trace sys))
       then startCall env i call sys else sys
   | Go i \<Rightarrow> (case map_of (sy_running sys) i of Some p \<Rightarrow> moveOn i p sys | None \<Rightarrow> sys))"

definition play :: "MfaEnv \<Rightarrow> Move list \<Rightarrow> MfaSystem \<Rightarrow> MfaSystem" where
  "play env ms sys = foldl (playMove env) sys ms"

lemma playMove_step: "(mfaStep env)\<^sup>*\<^sup>* sys (playMove env sys m)"
proof (cases m)
  case (Begin i call)
  have "freshCall i call sys" if "list_all (\<lambda>(j, old). j \<noteq> i \<and> (drawnKey call = None \<or> drawnKey old \<noteq> drawnKey call)) (startedCalls (sy_trace sys))"
    using that by (auto simp: freshCall_def list_all_iff mem_startedCalls [symmetric])
  with Begin show ?thesis by (auto simp: playMove_def intro: mfaStep.start)
next
  case (Go i)
  then show ?thesis by (auto simp: playMove_def split: option.splits dest: map_of_SomeD intro: mfaStep.move)
qed

lemma play_reachable: "(mfaStep env)\<^sup>*\<^sup>* sys (play env ms sys)"
  unfolding play_def
proof (induction ms arbitrary: sys)
  case (Cons m ms)
  then show ?case using playMove_step by (simp, meson rtranclp_trans)
qed simp

text \<open>A key stretched to nothing: every code is 000000.  The cipher is the identity.\<close>

definition sampleEnv :: MfaEnv where
  "sampleEnv = \<lparr>me_keyPresent = True, me_seal = (\<lambda>iv s. s), me_open = Some, me_hmac = (\<lambda>secret msg. replicate 20 0),
     me_sha256 = id, me_challengeTtl = None, me_maxAttempts = None\<rparr>"

definition sampleCode :: jstr where "sampleCode = js ''000000''"

lemma sample_truncated: "truncated (replicate 20 0) = 0"
  by (simp add: truncated_def byteAt_def Let_def)

lemma sample_padded: "padStart 6 [48] = sampleCode"
  by (simp add: padStart_def sampleCode_def js_def eval_nat_numeral)

lemma sample_hotp: "0 \<le> c \<Longrightarrow> c < 2 ^ 64 \<Longrightarrow> hotp (\<lambda>secret msg. replicate 20 0) key c 6 = Inr sampleCode"
  by (simp add: hotp_def counterBytes_def sample_truncated sample_padded show_nat.simps)

lemma sample_check:
  assumes "60000 \<le> now" "now < 1000000000" "base32Decode secret = Inr key"
  shows "checkCode sampleEnv secret sampleCode minStep now =
    Inr \<lparr>vr_ok = (case minStep of Some m \<Rightarrow> m < now div 30000 - 1 | None \<Rightarrow> True), vr_step = Some (now div 30000 - 1)\<rparr>"
proof -
  let ?n = "now div 30000"
  have n: "2 \<le> ?n" "?n < 2 ^ 64 - 2" using assms(1,2) by simp_all
  have window: "candidateSteps ?n 1 = [?n - 1, ?n, ?n + 1]" by (simp add: candidateSteps_def upto.simps)
  have "hotp (\<lambda>secret msg. replicate 20 0) key c 6 = Inr sampleCode" if "c \<in> {?n - 1, ?n, ?n + 1}" for c
    using that n by (intro sample_hotp) auto
  moreover have "withoutSpaces sampleCode = sampleCode" "length sampleCode = 6" "list_all is_digit sampleCode"
    by (simp_all add: sampleCode_def js_def withoutSpaces_def is_js_space_def is_digit_def)
  ultimately show ?thesis using assms(3) window
    by (simp add: checkCode_def verifyTotp_def sampleEnv_def TOTP_DIGITS_def TOTP_PERIOD_def totpStep_def Let_def split: option.splits)
qed

definition sampleSecret :: jstr where "sampleSecret = js ''AA''"

lemma sample_decode: "\<exists>key. base32Decode sampleSecret = Inr key"
  by (simp add: base32Decode_def sampleSecret_def BASE32_ALPHABET_def js_def js_upper_unit_def isSeparator_def is_js_space_def Let_def)

definition sampleRow :: MfaRow where
  "sampleRow = (newRow (js ''r'') (js ''p'', js ''u''))\<lparr>mr_totpSecretEnc := Some sampleSecret, mr_verifiedAt := Some 0,
     mr_recoveryCodeHashes := [js ''AB'', js ''CD'']\<rparr>"

definition sampleTokens :: MfaTokens where
  "sampleTokens = \<lparr>mt_accessToken = js ''a'', mt_refreshToken = js ''f'', mt_expiresIn = 300, mt_tokenType = js ''Bearer''\<rparr>"

definition sampleSystem :: MfaSystem where
  "sampleSystem = \<lparr>sy_state = \<lparr>ms_clock = 60000, ms_rows = [sampleRow], ms_challenges = Map.empty, ms_counters = Map.empty,
     ms_revoked = []\<rparr>, sy_running = [], sy_trace = []\<rparr>"

definition sampleSignIn :: "string \<Rightarrow> MfaCall" where
  "sampleSignIn c = CSignIn (js ''p'') (js ''m'') (js ''u'') sampleTokens True (js ''e'') True (js c)"

definition sampleVerify :: "string \<Rightarrow> MfaCall" where
  "sampleVerify c = CVerify (js ''p'') (js c) \<lparr>fi_code = Some sampleCode, fi_recoveryCode = None\<rparr>"

definition sampleParked :: StoredMfaChallenge where
  "sampleParked = \<lparr>sc_kind = KVerify, sc_userId = js ''u'', sc_realm = js ''m'', sc_tokens = sampleTokens, sc_emailVerified = True,
     sc_account = Some (js ''e''), sc_createdAt = 60000\<rparr>"

lemma sample_match:
  "matchFactor sampleEnv row \<lparr>fi_code = Some sampleCode, fi_recoveryCode = None\<rparr> 60000 =
    Inr (if mr_lastUsedStep row = None then Some (\<lambda>r. r\<lparr>mr_lastUsedStep := Some 1, mr_lastUsedAt := Some 60000\<rparr>) else None)"
  if "mr_totpSecretEnc row = Some sampleSecret" "mr_lastUsedStep row \<in> {None, Some 1}"
  using that sample_decode sample_check [of 60000 sampleSecret]
  by (auto simp: matchFactor_def given_def sampleCode_def js_def useCode_def reveal_def decryptField_def isEncrypted_def PREFIX_def
      starts_with_def sampleSecret_def)

lemma sample_settings [simp]: "me_challengeTtl sampleEnv = None" "me_maxAttempts sampleEnv = None"
  by (simp_all add: sampleEnv_def)

lemmas playing = play_def playMove_def startCall_def moveOn_def sampleSystem_def sampleSignIn_def sampleVerify_def handlers
  findRow_def updateRow_def liveChallenge_def setChallenge_def delChallenge_def incr_def liveCounter_def expire_def
  delCounter_def rowKey_def challengeTtlSeconds_def maxAttempts_def intSetting_def
  DEFAULT_CHALLENGE_TTL_SECONDS_def DEFAULT_MAX_ATTEMPTS_def enrolled_def Let_def

lemma sample_row_simps [simp]:
  "mr_projectId sampleRow = js ''p''" "mr_userId sampleRow = js ''u''" "mr_verifiedAt sampleRow = Some 0"
  "mr_totpSecretEnc sampleRow = Some sampleSecret" "mr_lastUsedStep sampleRow = None"
  "mr_recoveryCodeHashes sampleRow = [js ''AB'', js ''CD'']"
  by (simp_all add: sampleRow_def newRow_def)

definition sampleParking :: "Move list" where
  "sampleParking = [Begin 0 (sampleSignIn ''c''), Go 0, Go 0, Go 0]"

definition released :: "nat \<Rightarrow> MfaSystem \<Rightarrow> bool" where
  "released i sys \<longleftrightarrow> map_of (sy_running sys) i = Some (Return (Inr (RTokens sampleTokens (js ''u'') True)))"

definition sampleSteps :: "Move list" where
  "sampleSteps = sampleParking @ Begin 1 (sampleVerify ''c'') # replicate 8 (Go 1)"

lemma sample_history:
  "Took 1 (js ''p'', js ''c'') (Some sampleParked) \<in> set (sy_trace (play sampleEnv sampleSteps sampleSystem))"
  by (simp add: sampleSteps_def sampleParking_def playing sample_match sample_settings sampleParked_def eval_nat_numeral)

theorem tokens_need_the_factor_witness:
  "\<exists>call. Started 1 call \<in> set (sy_trace (play sampleEnv sampleSteps sampleSystem)) \<and>
    factorChecked sampleEnv call 1 (sy_trace (play sampleEnv sampleSteps sampleSystem)) (js ''p'', js ''c'') (js ''u'')"
proof -
  have "noMfaCalls sampleSystem" by (simp add: noMfaCalls_def sampleSystem_def)
  from tokens_need_the_factor [OF this play_reachable sample_history] show ?thesis by (simp add: sampleParked_def)
qed

section \<open>What interleaving breaks\<close>

text \<open>One code opens two sign-ins: the row is read, the code compared with its last step, and the row written
  back without asking whether the step has moved on.\<close>

lemma one_code_opens_two_sign_ins:
  "let sys = play sampleEnv ([Begin 0 (sampleSignIn ''c''), Go 0, Go 0, Go 0, Begin 1 (sampleSignIn ''d''), Go 1, Go 1, Go 1,
       Begin 2 (sampleVerify ''c''), Begin 3 (sampleVerify ''d'')] @ replicate 5 (Go 2) @ replicate 5 (Go 3) @
       replicate 3 (Go 2) @ replicate 3 (Go 3)) sampleSystem
   in released 2 sys \<and> released 3 sys"
  by (simp add: playing sample_match sample_settings eval_nat_numeral released_def)

text \<open>A spent recovery code comes back: the second request writes the list it read before the first one
  removed its code.\<close>

definition sampleRecover :: "string \<Rightarrow> string \<Rightarrow> MfaCall" where
  "sampleRecover c code = CVerify (js ''p'') (js c) \<lparr>fi_code = None, fi_recoveryCode = Some (js code)\<rparr>"

lemma sample_recover:
  "matchFactor sampleEnv row \<lparr>fi_code = None, fi_recoveryCode = Some code\<rparr> now =
    Inr (if code \<in> set (mr_recoveryCodeHashes row)
      then Some (\<lambda>r. r\<lparr>mr_recoveryCodeHashes := filter (\<lambda>x. x \<noteq> code) (mr_recoveryCodeHashes row), mr_lastUsedAt := Some now\<rparr>) else None)"
  if "normalizeRecoveryCode code = code" "code \<noteq> []"
  using that by (simp add: matchFactor_def given_def useRecoveryCode_def hashRecoveryCode_def sampleEnv_def)

lemma spent_recovery_code_returns:
  "let sys = play sampleEnv ([Begin 0 (sampleSignIn ''c''), Go 0, Go 0, Go 0, Begin 1 (sampleSignIn ''d''), Go 1, Go 1, Go 1,
       Begin 2 (sampleRecover ''c'' ''AB''), Begin 3 (sampleRecover ''d'' ''CD'')] @ replicate 5 (Go 2) @ replicate 5 (Go 3) @
       replicate 3 (Go 2) @ replicate 3 (Go 3)) sampleSystem
   in released 2 sys \<and> released 3 sys \<and> map mr_recoveryCodeHashes (ms_rows (sy_state sys)) = [[js ''AB'']]"
proof -
  have "normalizeRecoveryCode (js ''AB'') = js ''AB''" "normalizeRecoveryCode (js ''CD'') = js ''CD''"
    by (simp_all add: normalizeRecoveryCode_def js_def js_upper_unit_def isRecoveryChar_def)
  then have *: "matchFactor sampleEnv row \<lparr>fi_code = None, fi_recoveryCode = Some code\<rparr> now =
    Inr (if code \<in> set (mr_recoveryCodeHashes row)
      then Some (\<lambda>r. r\<lparr>mr_recoveryCodeHashes := filter (\<lambda>x. x \<noteq> code) (mr_recoveryCodeHashes row), mr_lastUsedAt := Some now\<rparr>) else None)"
    if "code = [65, 66] \<or> code = [67, 68]" for row code now
    using that sample_recover [of code] by (auto simp: js_def)
  show ?thesis by (simp add: playing sampleRecover_def * sample_settings eval_nat_numeral released_def)
qed

end
