(* ===== verification/TotpRules.thy ===== *)
theory TotpRules
  imports Totp
begin

unbundle bit_operations_syntax

text \<open>
  What the one-time passwords guarantee: base32 round trips, codes that are recognised however they are
  typed, and what a verified code says.
\<close>

section \<open>Words as bits, the highest first\<close>

definition bitsOf :: "nat \<Rightarrow> 'a::len word \<Rightarrow> bool list" where
  "bitsOf k w = map (bit w) (rev [0..<k])"

lemma bitsOf_0 [simp]: "bitsOf 0 w = []"
  by (simp add: bitsOf_def)

lemma length_bitsOf [simp]: "length (bitsOf k w) = k"
  by (simp add: bitsOf_def)

lemma bitsOf_append:
  assumes "\<And>i. i < j \<Longrightarrow> bit w (i + k) = bit u i" "\<And>i. i < k \<Longrightarrow> bit w i = bit v i"
  shows "bitsOf (j + k) w = bitsOf j u @ bitsOf k v"
proof -
  have "[0..<j + k] = [0..<k] @ map (\<lambda>i. i + k) [0..<j]" 
    using upt_add_eq_append [of 0 k j] by (simp add: map_add_upt add.commute)
  then have "bitsOf (j + k) w = map (\<lambda>i. bit w (i + k)) (rev [0..<j]) @ map (bit w) (rev [0..<k])"
    by (simp add: bitsOf_def rev_map comp_def)
  with assms show ?thesis by (simp add: bitsOf_def)
qed

lemma bitsOf_8_inject: "bitsOf 8 (v :: 8 word) = bitsOf 8 w \<Longrightarrow> v = w"
  by (auto simp: bitsOf_def intro!: bit_word_eqI)

lemma byte_bits:
  "k \<le> 24 \<Longrightarrow> bitsOf (k + 8) (push_bit 8 (acc :: 32 word) OR ucast (b :: 8 word)) = bitsOf k acc @ bitsOf 8 b"
  by (rule bitsOf_append) (auto simp: bit_simps dest: bit_imp_le_length)

lemma lowBits_bits: "k \<le> 32 \<Longrightarrow> bitsOf k (lowBits k acc) = bitsOf k acc"
  by (simp add: bitsOf_def lowBits_def bit_simps flip: mask_eq_exp_minus_1)

lemma alphabet_simps: "length BASE32_ALPHABET = 32" "distinct BASE32_ALPHABET"
  by (simp_all add: BASE32_ALPHABET_def js_def)

definition charBits :: "int \<Rightarrow> bool list" where
  "charBits c = (case index_of c BASE32_ALPHABET of Some i \<Rightarrow> bitsOf 5 (word_of_nat i :: 32 word) | None \<Rightarrow> [])"

lemma index_of_nth: "distinct xs \<Longrightarrow> i < length xs \<Longrightarrow> index_of (xs ! i) xs = Some i"
proof (induction xs arbitrary: i)
  case (Cons x xs)
  then show ?case by (cases i) auto
qed simp

lemma index_of_bound: "index_of c xs = Some i \<Longrightarrow> i < length xs \<and> c \<in> set xs"
  by (induction xs arbitrary: i) (auto split: if_splits)

lemma base32Char_index: "index_of (base32Char w) BASE32_ALPHABET = Some (unat (w AND 31))"
proof -
  have "w AND 31 \<le> 31" by (rule word_and_le1)
  then have "unat (w AND 31) \<le> 31" by (simp add: word_le_nat_alt)
  then show ?thesis unfolding base32Char_def by (intro index_of_nth) (simp_all add: alphabet_simps)
qed

lemma base32Char_in: "base32Char w \<in> set BASE32_ALPHABET"
  using index_of_bound [OF base32Char_index] by simp

lemma mask5: "(31 :: 32 word) = mask 5"
  by (simp add: mask_eq_exp_minus_1)

lemma charBits_char: "charBits (base32Char w) = bitsOf 5 w"
  unfolding charBits_def base32Char_index option.case
  by (auto simp: bitsOf_def mask5 bit_simps)

lemma emit_bits:
  "emitQuintets k v = (out, left) \<Longrightarrow> k \<le> 32 \<Longrightarrow>
    concat (map charBits out) @ bitsOf left v = bitsOf k v \<and> left < 5 \<and> set out \<subseteq> set BASE32_ALPHABET"
proof (induction k v arbitrary: out left rule: emitQuintets.induct)
  case (1 k v)
  show ?case
  proof (cases "5 \<le> k")
    case True
    with 1(2) obtain out' where e: "emitQuintets (k - 5) v = (out', left)" "out = base32Char (drop_bit (k - 5) v) # out'"
      by (auto simp: emitQuintets.simps [of k v] split: prod.splits)
    have "bitsOf (5 + (k - 5)) v = bitsOf 5 (drop_bit (k - 5) v) @ bitsOf (k - 5) v"
      by (rule bitsOf_append) (simp_all add: bit_drop_bit_eq add.commute)
    with 1(1) [OF True e(1)] 1(3) True e(2) show ?thesis by (simp add: charBits_char base32Char_in)
  next
    case False
    with 1(2) show ?thesis by (simp add: emitQuintets.simps [of k v])
  qed
qed

lemma encodeLoop_bits:
  "k < 5 \<Longrightarrow> \<exists>pad<5. concat (map charBits (encodeLoop k acc bs)) = bitsOf k acc @ concat (map (bitsOf 8) bs) @ replicate pad False"
  "k < 5 \<Longrightarrow> set (encodeLoop k acc bs) \<subseteq> set BASE32_ALPHABET"
proof (induction k acc bs rule: encodeLoop.induct)
  case (1 k acc)
  {
    case 1
    have "bitsOf (k + (5 - k)) (push_bit (5 - k) acc) = bitsOf k acc @ bitsOf (5 - k) (0 :: 32 word)"
      using 1 by (intro bitsOf_append) (auto simp: bit_simps)
    moreover have "bitsOf (5 - k) (0 :: 32 word) = replicate (5 - k) False" by (rule replicate_eqI) (auto simp: bitsOf_def)
    ultimately show ?case using 1 by (cases "k = 0") (auto simp: charBits_char intro!: exI [of _ "5 - k"])
  next
    case 2
    then show ?case by (auto simp: base32Char_in)
  }
next
  case (2 k acc b bs)
  define v where "v = push_bit 8 acc OR ucast b"
  obtain out left where e: "emitQuintets (k + 8) v = (out, left)" by (cases "emitQuintets (k + 8) v")
  {
    case 1
    then have k: "k \<le> 24" "k + 8 \<le> 32" by simp_all
    from emit_bits [OF e k(2)] byte_bits [OF k(1), of acc b] have out:
      "concat (map charBits out) @ bitsOf left v = bitsOf k acc @ bitsOf 8 b" "left < 5" by (simp_all add: v_def)
    from "2.IH"(1) [OF v_def e [symmetric] out(2)] obtain pad where
      "pad < 5" "concat (map charBits (encodeLoop left (lowBits left v) bs)) = bitsOf left v @ concat (map (bitsOf 8) bs) @ replicate pad False"
      using out(2) by (auto simp: lowBits_bits)
    with out e show ?case by (intro exI [of _ pad]) (simp add: v_def [symmetric])
  next
    case 2
    with emit_bits [OF e] "2.IH"(2) [OF v_def e [symmetric]] e show ?case by (simp add: v_def [symmetric])
  }
qed

text \<open>Decoding cuts the bits of the characters into bytes; fewer than eight are left over.\<close>

lemma quintet_bits:
  assumes "index_of c BASE32_ALPHABET = Some idx" "k \<le> 24"
  shows "bitsOf (k + 5) (push_bit 5 acc OR word_of_nat idx :: 32 word) = bitsOf k acc @ charBits c"
proof -
  have "idx < 32" using index_of_bound [OF assms(1)] by (simp add: alphabet_simps)
  have small: "\<not> bit (word_of_nat idx :: 32 word) (i + 5)" for i
  proof -
    have "idx < 2 ^ (i + 5)" using \<open>idx < 32\<close> power_increasing [of 5 "i + 5" "2 :: nat"] by simp
    then have "\<not> bit idx (i + 5)" by (simp add: bit_iff_odd)
    then show ?thesis by (simp add: bit_of_nat_iff)
  qed
  show ?thesis using assms(1)
    unfolding charBits_def by (simp, intro bitsOf_append) (use assms(2) small in \<open>auto simp: bit_simps\<close>)
qed

lemma mask8: "(255 :: 32 word) = mask 8"
  by (simp add: mask_eq_exp_minus_1)

lemma octet_bits:
  assumes "8 \<le> k" "k \<le> 32"
  shows "bitsOf k (v :: 32 word) = bitsOf 8 (ucast (drop_bit (k - 8) v AND 255) :: 8 word) @ bitsOf (k - 8) v"
proof -
  have "bitsOf (8 + (k - 8)) v = bitsOf 8 (ucast (drop_bit (k - 8) v AND 255) :: 8 word) @ bitsOf (k - 8) v"
    by (intro bitsOf_append) (auto simp: mask8 bit_simps add.commute)
  with assms(1) show ?thesis by simp
qed

lemma decodeLoop_bits:
  "k < 8 \<Longrightarrow> set s \<subseteq> set BASE32_ALPHABET \<Longrightarrow>
    \<exists>bs left. decodeLoop k acc s = Inr bs \<and> length left < 8 \<and>
      bitsOf k acc @ concat (map charBits s) = concat (map (bitsOf 8) bs) @ left"
proof (induction k acc s rule: decodeLoop.induct)
  case (2 k acc c s)
  from 2(4) obtain idx where idx: "index_of c BASE32_ALPHABET = Some idx"
    by (cases "index_of c BASE32_ALPHABET") (auto simp: BASE32_ALPHABET_def js_def split: if_splits)
  define v where "v = push_bit 5 acc OR (word_of_nat idx :: 32 word)"
  have v: "bitsOf (k + 5) v = bitsOf k acc @ charBits c" unfolding v_def using quintet_bits [OF idx] 2(3) by simp
  show ?case
  proof (cases "8 \<le> k + 5")
    case True
    have "k + 5 - 8 < 8" using 2(3) by simp
    with 2(1) [OF idx v_def refl True] 2(3,4) obtain bs left where
      *: "decodeLoop (k + 5 - 8) (lowBits (k + 5 - 8) v) s = Inr bs" "length left < 8"
      "bitsOf (k + 5 - 8) v @ concat (map charBits s) = concat (map (bitsOf 8) bs) @ left"
      by (auto simp: lowBits_bits)
    let ?b = "ucast (drop_bit (k + 5 - 8) v AND 255) :: 8 word"
    have "bitsOf k acc @ charBits c = bitsOf 8 ?b @ bitsOf (k + 5 - 8) v" using octet_bits [OF True, of v] v 2(3) by simp
    then have "bitsOf k acc @ charBits c @ concat (map charBits s) = bitsOf 8 ?b @ concat (map (bitsOf 8) bs) @ left"
      using *(3) by (metis append_assoc)
    moreover have "decodeLoop k acc (c # s) = Inr (?b # bs)" using idx True *(1) by (simp add: v_def [symmetric])
    ultimately show ?thesis using *(2) by (intro exI [of _ "?b # bs"] exI [of _ left]) simp
  next
    case False
    with 2(2) [OF idx v_def refl False] 2(3,4) obtain bs left where
      "decodeLoop (k + 5) v s = Inr bs" "length left < 8" "bitsOf (k + 5) v @ concat (map charBits s) = concat (map (bitsOf 8) bs) @ left"
      by auto
    with idx False v show ?thesis by (intro exI [of _ bs] exI [of _ left]) (simp add: v_def [symmetric])
  qed
qed auto

lemma octets_unique:
  "concat (map (bitsOf 8) (xs :: bytes)) @ l = concat (map (bitsOf 8) ys) @ r \<Longrightarrow> length l < 8 \<Longrightarrow> length r < 8 \<Longrightarrow> xs = ys"
proof (induction xs arbitrary: ys)
  case Nil
  then show ?case by (cases ys) (auto dest: arg_cong [of _ _ length])
next
  case (Cons x xs)
  then show ?case by (cases ys) (auto dest: arg_cong [of _ _ length] bitsOf_8_inject)
qed

lemma decodeLoop_encode: "decodeLoop 0 0 (base32Encode bs) = Inr bs"
proof -
  obtain pad where pad: "pad < 5" "concat (map charBits (base32Encode bs)) = concat (map (bitsOf 8) bs) @ replicate pad False"
    using encodeLoop_bits(1) [of 0 0 bs] by (auto simp: base32Encode_def)
  obtain bs' left where "decodeLoop 0 0 (base32Encode bs) = Inr bs'" "length left < 8"
    "concat (map charBits (base32Encode bs)) = concat (map (bitsOf 8) bs') @ left"
    using decodeLoop_bits [of 0 "base32Encode bs" 0] encodeLoop_bits(2) [of 0 0 bs] by (auto simp: base32Encode_def)
  with pad octets_unique [of bs' left bs "replicate pad False"] show ?thesis by simp
qed

text \<open>Letters survive being typed in either case; separators are dropped.\<close>

lemma alphabet_typed:
  "list_all (\<lambda>c. js_upper_unit c = [c] \<and> js_upper (js_lower_unit c) = [c] \<and> \<not> isSeparator c \<and> isRecoveryChar c) BASE32_ALPHABET"
  by (simp add: BASE32_ALPHABET_def js_def js_upper_unit_def js_lower_unit_def isSeparator_def is_js_space_def isRecoveryChar_def)

lemma alphabet_upper:
  "c \<in> set BASE32_ALPHABET \<Longrightarrow> js_upper_unit c = [c] \<and> js_upper (js_lower_unit c) = [c] \<and> \<not> isSeparator c \<and> isRecoveryChar c"
  using alphabet_typed by (auto simp: list_all_iff)

lemma low_separator: "65 \<le> c \<Longrightarrow> c < 160 \<Longrightarrow> \<not> isSeparator c"
  by (simp add: isSeparator_def is_js_space_def)
lemma separator_cases: "js_upper_unit c = [c] \<or> \<not> isSeparator c \<and> list_all (\<lambda>d. \<not> isSeparator d) (js_upper_unit c)"
proof (cases "97 \<le> c \<and> c \<le> 122")
  case True
  then show ?thesis by (simp add: js_upper_unit_def low_separator)
next
  case False
  then have "js_upper_unit c = [c] \<or> c \<in> {223, 305, 329, 383, 496, 7830, 7831, 7832, 7833, 7834, 64256, 64257, 64258, 64259, 64260, 64261, 64262}"
    unfolding js_upper_unit_def by simp
  then show ?thesis by (elim disjE insertE emptyE) (simp_all add: js_upper_unit_def isSeparator_def is_js_space_def)
qed

lemma separators_upper:
  "filter (\<lambda>c. \<not> isSeparator c) (js_upper s) = js_upper (filter (\<lambda>c. \<not> isSeparator c) s)"
proof (induction s)
  case (Cons c s)
  have "filter (\<lambda>c. \<not> isSeparator c) (js_upper_unit c) = (if isSeparator c then [] else js_upper_unit c)"
    using separator_cases [of c] by (auto simp: list_all_iff filter_id_conv)
  with Cons show ?case by simp
qed simp

definition typedAs :: "int \<Rightarrow> int \<Rightarrow> bool" where
  "typedAs c d \<longleftrightarrow> c = d \<or> js_lower_unit d = [c]"

lemma upper_typed: "list_all2 typedAs t s \<Longrightarrow> set s \<subseteq> set BASE32_ALPHABET \<Longrightarrow> js_upper t = s"
proof (induction rule: list_all2_induct)
  case (Cons c t d s)
  then show ?case using alphabet_upper [of d] by (auto simp: typedAs_def)
qed simp

text \<open>C34.  A secret printed in base32 is read back to its bytes, however it is typed: letters in either case,
  with spaces, dashes and padding anywhere.\<close>

theorem base32_round_trip:
  assumes "list_all2 typedAs (filter (\<lambda>c. \<not> isSeparator c) typed) (base32Encode bs)"
  shows "base32Decode typed = Inr bs"
proof -
  have "set (base32Encode bs) \<subseteq> set BASE32_ALPHABET" using encodeLoop_bits(2) by (simp add: base32Encode_def)
  from upper_typed [OF assms this] show ?thesis by (simp add: base32Decode_def separators_upper decodeLoop_encode)
qed

theorem base32_round_trip_witness: "base32Decode (js ''jb-uQ ='') = Inr [72, 105]"
proof (rule base32_round_trip)
  have "base32Encode [72, 105] = js ''JBUQ''"
    by (simp add: base32Encode_def emitQuintets.simps base32Char_def lowBits_def BASE32_ALPHABET_def js_def Let_def)
  then show "list_all2 typedAs (filter (\<lambda>c. \<not> isSeparator c) (js ''jb-uQ ='')) (base32Encode [72, 105])"
    by (simp add: js_def isSeparator_def is_js_space_def typedAs_def js_lower_unit_def)
qed

text \<open>A recovery code is normalised to the letters it was made of, in lower case too.\<close>

lemma normalize_typed:
  "list_all2 typedAs t s \<Longrightarrow> set s \<subseteq> set BASE32_ALPHABET \<Longrightarrow> normalizeRecoveryCode t = s"
  using upper_typed [of t s] alphabet_upper by (auto simp: normalizeRecoveryCode_def filter_id_conv)

lemma recovery_code_normalized: "normalizeRecoveryCode (recoveryCode random) = take RECOVERY_CODE_LENGTH (base32Encode random)"
proof -
  let ?raw = "take RECOVERY_CODE_LENGTH (base32Encode random)"
  have "set ?raw \<subseteq> set BASE32_ALPHABET"
    using encodeLoop_bits(2) [of 0 0 random] set_take_subset [of RECOVERY_CODE_LENGTH "base32Encode random"]
    by (auto simp: base32Encode_def)
  moreover have "list_all2 typedAs ?raw ?raw" by (simp add: list_all2_conv_all_nth typedAs_def)
  ultimately have "normalizeRecoveryCode ?raw = ?raw" by (rule normalize_typed [rotated])
  then have "normalizeRecoveryCode (take 5 ?raw @ drop 5 ?raw) = ?raw" by (simp del: take_take)
  moreover have "normalizeRecoveryCode (a @ [ch CHR ''-''] @ b) = normalizeRecoveryCode (a @ b)" for a b
    by (simp add: normalizeRecoveryCode_def js_upper_append js_upper_unit_def isRecoveryChar_def)
  ultimately show ?thesis by (simp add: recoveryCode_def Let_def del: append.simps take_take)
qed

end
