(* ===== verification/MfaTries.thy ===== *)
theory MfaTries
  imports MfaReplay
begin

text \<open>
  A challenge bears a bounded number of tries: Redis counts them before the code is compared, and the counter
  outlives the challenge.
\<close>

fun tries :: "MfaEnv \<Rightarrow> jstr \<Rightarrow> jstr \<Rightarrow> (int \<times> MfaFactorInput) list \<Rightarrow> MfaState \<Rightarrow> (MfaRefusal + MfaTokens \<times> jstr \<times> bool) list" where
  "tries env p cid [] st = []"
| "tries env p cid ((d, input) # rest) st =
     (case run (verifyChallenge env p cid input) (tick d st) of (res, st') \<Rightarrow> res # tries env p cid rest st')"

text \<open>After \<open>n\<close> tries: the challenge is gone, or Redis has counted them all until after the challenge expires.\<close>

definition counted :: "MfaEnv \<Rightarrow> jstr \<Rightarrow> jstr \<Rightarrow> nat \<Rightarrow> int \<Rightarrow> MfaState \<Rightarrow> bool" where
  "counted env p cid n until st \<longleftrightarrow> (case ms_counters st (ChallengeAttempts p cid) of
     None \<Rightarrow> n = 0 \<and> until \<le> ms_clock st + 1000 * challengeTtlSeconds env
   | Some (m, exp) \<Rightarrow> m = n \<and> 0 < n \<and> exp \<noteq> None \<and> until \<le> the exp)"

definition budget :: "MfaEnv \<Rightarrow> jstr \<Rightarrow> jstr \<Rightarrow> nat \<Rightarrow> MfaState \<Rightarrow> bool" where
  "budget env p cid n st \<longleftrightarrow> (case ms_challenges st (p, cid) of
     None \<Rightarrow> True
   | Some (c, until) \<Rightarrow> sc_kind c = KVerify \<and> (until \<le> ms_clock st \<or> int n \<le> maxAttempts env \<and> counted env p cid n until st))"

lemma counted_cong:
  "ms_counters s' = ms_counters s \<Longrightarrow> ms_clock s' = ms_clock s \<Longrightarrow> counted env p cid n until s' = counted env p cid n until s"
  by (simp add: counted_def split: option.split)

lemma budget_tick: "budget env p cid n st \<Longrightarrow> 0 \<le> d \<Longrightarrow> budget env p cid n (tick d st)"
  by (auto simp: budget_def counted_def tick_def split: option.splits)

lemma counted_next:
  assumes "counted env p cid n until st" "ms_clock st < until"
  shows "fst (incr (ChallengeAttempts p cid) st) = n + 1"
    "counted env p cid (n + 1) until (if n = 0 then expire (ChallengeAttempts p cid) (challengeTtlSeconds env) (snd (incr (ChallengeAttempts p cid) st))
       else snd (incr (ChallengeAttempts p cid) st))"
  using assms by (auto simp: counted_def incr_def expire_def liveCounter_def split: option.splits if_splits)

lemma stores_challenges [simp]:
  "ms_challenges (snd (incr ctr st)) = ms_challenges st" "ms_challenges (expire ctr ttl st) = ms_challenges st"
  "ms_challenges (delCounter ctr st) = ms_challenges st" "ms_challenges (updateRow u f st) = ms_challenges st"
  "ms_challenges (revoke c st) = ms_challenges st" "ms_challenges (delChallenge k st) = (ms_challenges st)(k := None)"
  by (auto simp: incr_def expire_def delCounter_def updateRow_def delChallenge_def revoke_def split: option.splits prod.splits)

lemma try_dead:
  "cid \<noteq> [] \<Longrightarrow> liveChallenge (p, cid) st = None \<Longrightarrow> run (verifyChallenge env p cid input) st = (Inl ChallengeExpired, st)"
  by (simp add: handlers)

text \<open>What a comparison leaves: nothing of the challenge, or an error and an untouched counter.\<close>

lemma checkAttempt_result:
  assumes "run (checkAttempt env p cid input c attempts) s = (res, s')"
  shows "ms_challenges s' (p, cid) = None \<or>
    ms_challenges s' = ms_challenges s \<and> ms_counters s' = ms_counters s \<and> ms_clock s' = ms_clock s \<and> (\<forall>v. res \<noteq> Inr v)"
  using assms
  by (auto simp: handlers Let_def updateRow_def split: option.splits if_splits sum.splits)

lemma try_live:
  assumes "cid \<noteq> []" "liveChallenge (p, cid) st = Some c" "budget env p cid n st"
    and "run (verifyChallenge env p cid input) st = (res, st')"
  shows "budget env p cid (n + 1) st' \<and> (maxAttempts env \<le> int n \<longrightarrow> res = Inl TooManyCodes) \<and>
    (ms_challenges st' (p, cid) = None \<or> (\<forall>v. res \<noteq> Inr v))"
proof -
  let ?ctr = "ChallengeAttempts p cid"
  from assms(2) obtain until where c: "ms_challenges st (p, cid) = Some (c, until)" "ms_clock st < until"
    by (auto simp: liveChallenge_def split: option.splits if_splits)
  with assms(3) have b: "sc_kind c = KVerify" "int n \<le> maxAttempts env" "counted env p cid n until st" by (auto simp: budget_def)
  note cnt = counted_next [OF b(3) c(2)]
  let ?s = "if n = 0 then expire ?ctr (challengeTtlSeconds env) (snd (incr ?ctr st)) else snd (incr ?ctr st)"
  have s: "ms_challenges ?s = ms_challenges st" "ms_clock ?s = ms_clock st" by auto
  show ?thesis
  proof (cases "maxAttempts env \<le> int n")
    case True
    then have "run (verifyChallenge env p cid input) st = run (exhaust p cid c) ?s"
      using assms(1,2) b(1) cnt(1) by (simp add: verifyChallenge_def peekChallenge_def answer_def Let_def)
    with assms(4) True show ?thesis by (auto simp: exhaust_def raise_def budget_def)
  next
    case False
    then have "run (verifyChallenge env p cid input) st = run (checkAttempt env p cid input c (n + 1)) ?s"
      using assms(1,2) b(1) cnt(1) by (simp add: verifyChallenge_def peekChallenge_def answer_def Let_def)
    with assms(4) have "run (checkAttempt env p cid input c (n + 1)) ?s = (res, st')" by simp
    from checkAttempt_result [OF this] show ?thesis
    proof
      assume "ms_challenges st' (p, cid) = None"
      with False show ?thesis by (simp add: budget_def)
    next
      assume kept: "ms_challenges st' = ms_challenges ?s \<and> ms_counters st' = ms_counters ?s \<and> ms_clock st' = ms_clock ?s \<and> (\<forall>v. res \<noteq> Inr v)"
      then have "ms_challenges st' (p, cid) = Some (c, until)" using s(1) c(1) by metis
      moreover have "counted env p cid (n + 1) until st'" using kept cnt(2) counted_cong by blast
      ultimately show ?thesis using kept False b(1) by (simp add: budget_def)
    qed
  qed
qed

lemma tries_after_end:
  "cid \<noteq> [] \<Longrightarrow> ms_challenges st (p, cid) = None \<Longrightarrow> r \<in> set (tries env p cid ts st) \<Longrightarrow> r = Inl ChallengeExpired"
proof (induction ts arbitrary: st)
  case (Cons t ts)
  obtain d input where t: "t = (d, input)" by (cases t)
  have "liveChallenge (p, cid) (tick d st) = None" "ms_challenges (tick d st) (p, cid) = None"
    using Cons.prems(2) by (simp_all add: liveChallenge_def tick_def)
  with Cons t show ?case by (auto simp: try_dead)
qed simp

lemma tries_budget:
  assumes "cid \<noteq> []" "list_all (\<lambda>(d, _). 0 \<le> d) ts" "budget env p cid n st"
  shows "(\<forall>k<length ts. (maxAttempts env \<le> int (n + k) \<longrightarrow> tries env p cid ts st ! k \<in> {Inl TooManyCodes, Inl ChallengeExpired}) \<and>
      (maxAttempts env < int (n + k) \<longrightarrow> tries env p cid ts st ! k = Inl ChallengeExpired)) \<and>
    length (filter (\<lambda>r. r \<notin> range Inl) (tries env p cid ts st)) \<le> 1"
  using assms(2,3)
proof (induction ts arbitrary: n st)
  case (Cons t ts)
  obtain d input where t: "t = (d, input)" by (cases t)
  let ?st = "tick d st"
  obtain res st' where run: "run (verifyChallenge env p cid input) ?st = (res, st')" by (cases "run (verifyChallenge env p cid input) ?st")
  have b: "budget env p cid n ?st" using Cons.prems t by (simp add: budget_tick)
  show ?case
  proof (cases "liveChallenge (p, cid) ?st")
    case None
    then have "res = Inl ChallengeExpired" "st' = ?st" using try_dead [OF assms(1) None] run by auto
    moreover have "budget env p cid (n + 1) ?st" using None b
      by (auto simp: budget_def liveChallenge_def split: option.splits if_splits)
    ultimately show ?thesis using Cons.IH [of "n + 1" ?st] Cons.prems t run
      by (auto simp: nth_Cons split: nat.splits)
  next
    case (Some c)
    from try_live [OF assms(1) Some b run] have r: "budget env p cid (n + 1) st'" "maxAttempts env \<le> int n \<longrightarrow> res = Inl TooManyCodes"
      "ms_challenges st' (p, cid) = None \<or> (\<forall>v. res \<noteq> Inr v)" by auto
    have "\<not> maxAttempts env < int n" using Some b by (auto simp: budget_def liveChallenge_def split: option.splits if_splits)
    moreover have "filter (\<lambda>r. r \<notin> range Inl) (tries env p cid ts st') = [] \<or> res \<in> range Inl"
      using r(3) tries_after_end [OF assms(1), of st' p _ env ts] by (cases res) (auto simp: filter_empty_conv)
    ultimately show ?thesis using Cons.IH [OF _ r(1)] Cons.prems t run r(2)
      by (auto simp: nth_Cons split: nat.splits)
  qed
qed simp


abbreviation sampleGuess :: "int \<times> MfaFactorInput" where
  "sampleGuess \<equiv> (1000, byCode (js ''1''))"


end
