(* ===== verification/TypeInferrer.thy ===== *)
theory TypeInferrer
  imports Json JsNumber
begin

text \<open>
  Column types from samples, \<open>modules/data-import/lib/type-inferrer.ts\<close>: the tests of the candidate types, safe
  and distinct column names, inference over a sample, and the cast of one cell on import.

  A cell is what the readers of CSV, XLSX and JSON deliver: a string, a number with the text of its
  \<open>toString()\<close>, a boolean, a date with the text of its \<open>toISOString()\<close>, or an object with the text of
  \<open>JSON.stringify\<close>.  \<open>JSON.parse\<close> is an argument.  The regular expressions match ASCII only, so their \<open>i\<close>
  flag is the ASCII case fold.
\<close>

section \<open>Data\<close>

datatype InferredType =
    TBoolean | TInteger | TBigint | TNumeric | TUuid | TDate | TTimestamptz | TJsonb | TText

record InferredColumn =
  ic_name :: jstr
  ic_originalName :: jstr
  ic_type :: InferredType
  ic_nullable :: bool
  ic_sampleValues :: "jstr list"

datatype Cell = CNull | CUndefined | CStr jstr | CNum jstr | CBoolean bool | CDate jstr | CObject jstr

section \<open>The tests\<close>

definition asciiLower :: "jstr \<Rightarrow> jstr" where
  "asciiLower s = map (\<lambda>c. if 65 \<le> c \<and> c \<le> 90 then c + 32 else c) s"

text \<open>A pattern of fixed length: one class per character.\<close>

definition shaped :: "(int \<Rightarrow> bool) list \<Rightarrow> jstr \<Rightarrow> bool" where
  "shaped classes s \<longleftrightarrow> list_all2 (\<lambda>p c. p c) classes s"

definition isHex :: "int \<Rightarrow> bool" where
  "isHex c \<longleftrightarrow> is_digit c \<or> (97 \<le> c \<and> c \<le> 102)"

abbreviation lit :: "char \<Rightarrow> int \<Rightarrow> bool" where
  "lit c x \<equiv> x = ch c"

definition UUID_RE :: "jstr \<Rightarrow> bool" where
  "UUID_RE s \<longleftrightarrow> shaped (replicate 8 isHex @ [lit CHR ''-''] @ replicate 4 isHex @ [lit CHR ''-'', \<lambda>c. 49 \<le> c \<and> c \<le> 53] @
     replicate 3 isHex @ [lit CHR ''-'', \<lambda>c. c \<in> set (js ''89ab'')] @ replicate 3 isHex @ [lit CHR ''-''] @ replicate 12 isHex) (asciiLower s)"

abbreviation dateClasses :: "(int \<Rightarrow> bool) list" where
  "dateClasses \<equiv> replicate 4 is_digit @ [lit CHR ''-'', is_digit, is_digit, lit CHR ''-'', is_digit, is_digit]"

definition ISO_DATE_RE :: "jstr \<Rightarrow> bool" where
  "ISO_DATE_RE s \<longleftrightarrow> shaped dateClasses s"

definition isZone :: "jstr \<Rightarrow> bool" where
  "isZone s \<longleftrightarrow> s = [] \<or> s = js ''Z'' \<or>
     shaped [\<lambda>c. c = ch CHR ''+'' \<or> c = ch CHR ''-'', is_digit, is_digit, is_digit, is_digit] s \<or>
     shaped [\<lambda>c. c = ch CHR ''+'' \<or> c = ch CHR ''-'', is_digit, is_digit, lit CHR '':'', is_digit, is_digit] s"

definition afterMinutes :: "jstr \<Rightarrow> bool" where
  "afterMinutes s \<longleftrightarrow> isZone s \<or>
     (shaped [lit CHR '':'', is_digit, is_digit] (take 3 s) \<and>
      (isZone (drop 3 s) \<or>
       (nth_opt s 3 = Some (ch CHR ''.'') \<and> takeWhile is_digit (drop 4 s) \<noteq> [] \<and> isZone (dropWhile is_digit (drop 4 s)))))"

definition ISO_TIMESTAMP_RE :: "jstr \<Rightarrow> bool" where
  "ISO_TIMESTAMP_RE s \<longleftrightarrow> shaped (dateClasses @ [\<lambda>c. c = ch CHR ''T'' \<or> c = 32, is_digit, is_digit, lit CHR '':'', is_digit, is_digit]) (take 16 s) \<and>
     afterMinutes (drop 16 s)"

definition unsigned :: "jstr \<Rightarrow> jstr" where
  "unsigned s = (if nth_opt s 0 = Some (ch CHR ''-'') then tl s else s)"

definition INTEGER_RE :: "jstr \<Rightarrow> bool" where
  "INTEGER_RE s \<longleftrightarrow> (let d = unsigned s in d \<noteq> [] \<and> length d \<le> 18 \<and> list_all is_digit d)"

definition NUMERIC_RE :: "jstr \<Rightarrow> bool" where
  "NUMERIC_RE s \<longleftrightarrow> (let d = unsigned s; rest = dropWhile is_digit d in
     takeWhile is_digit d \<noteq> [] \<and> (rest = [] \<or> (hd rest = ch CHR ''.'' \<and> tl rest \<noteq> [] \<and> list_all is_digit (tl rest))))"

definition TRUE_RE :: "jstr \<Rightarrow> bool" where
  "TRUE_RE s \<longleftrightarrow> asciiLower s \<in> {js ''true'', js ''t'', js ''yes'', js ''y'', js ''1''}"

definition FALSE_RE :: "jstr \<Rightarrow> bool" where
  "FALSE_RE s \<longleftrightarrow> asciiLower s \<in> {js ''false'', js ''f'', js ''no'', js ''n'', js ''0''}"

definition SAFE_INT_ABS_LIMIT :: rat where "SAFE_INT_ABS_LIMIT = 10 ^ 15"

definition nullWord :: "jstr \<Rightarrow> bool" where
  "nullWord s \<longleftrightarrow> (let t = js_trim s in t = [] \<or> js_lower t = js ''null'')"

definition isNull :: "Cell \<Rightarrow> bool" where
  "isNull raw \<longleftrightarrow> (case raw of CNull \<Rightarrow> True | CUndefined \<Rightarrow> True | CStr s \<Rightarrow> nullWord s | _ \<Rightarrow> False)"

definition tryBoolean :: "jstr \<Rightarrow> bool option" where
  "tryBoolean v = (if TRUE_RE v then Some True else if FALSE_RE v then Some False else None)"

text \<open>\<open>Number(v)\<close> rounded to a double; \<open>None\<close> is not finite.\<close>

definition integerText :: "jstr \<Rightarrow> rat option" where
  "integerText v = Option.bind (js_number v) toDouble"

definition tryInteger :: "jstr \<Rightarrow> bool" where
  "tryInteger v \<longleftrightarrow> INTEGER_RE v \<and> (case integerText v of Some n \<Rightarrow> \<bar>n\<bar> < SAFE_INT_ABS_LIMIT | None \<Rightarrow> False)"

definition tryBigint :: "jstr \<Rightarrow> bool" where
  "tryBigint v \<longleftrightarrow> (let d = unsigned v in d \<noteq> [] \<and> list_all is_digit d)"

definition tryJsonb :: "(jstr \<Rightarrow> json option) \<Rightarrow> jstr \<Rightarrow> bool" where
  "tryJsonb parseJson v \<longleftrightarrow> (let t = js_trim v in (starts_with (js ''{'') t \<or> starts_with (js ''['') t) \<and> parseJson t \<noteq> None)"

definition coerce :: "Cell \<Rightarrow> jstr option" where
  "coerce raw = (if isNull raw then None else (case raw of
       CDate t \<Rightarrow> Some t
     | CNum t \<Rightarrow> Some t
     | CBoolean b \<Rightarrow> Some (if b then js ''true'' else js ''false'')
     | CStr s \<Rightarrow> Some (js_trim s)
     | CObject t \<Rightarrow> Some t
     | _ \<Rightarrow> None))"

section \<open>Names\<close>

definition isNameChar :: "int \<Rightarrow> bool" where
  "isNameChar c \<longleftrightarrow> (97 \<le> c \<and> c \<le> 122) \<or> is_digit c \<or> c = 95"

function collapse :: "jstr \<Rightarrow> jstr" where
  "collapse [] = []"
| "collapse (c # s) = (if isNameChar c then c # collapse s else 95 # collapse (dropWhile (\<lambda>d. \<not> isNameChar d) s))"
  by pat_completeness auto
termination by (relation "measure length") (auto simp: less_Suc_eq_le length_dropWhile_le)

definition stripUnderscores :: "jstr \<Rightarrow> jstr" where
  "stripUnderscores s = rev (dropWhile (\<lambda>c. c = 95) (rev (dropWhile (\<lambda>c. c = 95) s)))"

definition sanitizeColumnName :: "jstr \<Rightarrow> nat \<Rightarrow> jstr" where
  "sanitizeColumnName header idx =
     (let t = stripUnderscores (collapse (js_lower (js_trim header)));
          cleaned = (case t of c # _ \<Rightarrow> if is_digit c then 95 # t else t | [] \<Rightarrow> [])
      in if cleaned = [] then js ''column_'' @ show_nat (idx + 1) else cleaned)"

fun dedupeLoop :: "(jstr \<Rightarrow> nat) \<Rightarrow> jstr list \<Rightarrow> jstr list" where
  "dedupeLoop seen [] = []"
| "dedupeLoop seen (base # names) =
     (let used = seen base;
          name = (if used = 0 then base else base @ js ''_'' @ show_nat used);
          seen1 = seen(base := used + 1);
          seen2 = (if used > 0 then seen1(name := 1) else seen1)
      in name # dedupeLoop seen2 names)"

definition dedupeColumnNames :: "jstr list \<Rightarrow> jstr list" where
  "dedupeColumnNames names = dedupeLoop (\<lambda>_. 0) names"

section \<open>Inference\<close>

definition typeCandidates :: "(jstr \<Rightarrow> json option) \<Rightarrow> (InferredType \<times> (jstr \<Rightarrow> bool)) list" where
  "typeCandidates parseJson =
     [(TBoolean, \<lambda>v. tryBoolean v \<noteq> None), (TUuid, UUID_RE), (TTimestamptz, ISO_TIMESTAMP_RE), (TDate, ISO_DATE_RE),
      (TInteger, tryInteger), (TBigint, tryBigint), (TNumeric, NUMERIC_RE), (TJsonb, tryJsonb parseJson)]"

definition inferColumnType :: "(jstr \<Rightarrow> json option) \<Rightarrow> Cell list \<Rightarrow> InferredType \<times> bool \<times> jstr list" where
  "inferColumnType parseJson values =
     (let nonNull = List.map_filter coerce values;
          sawNull = list_ex (\<lambda>v. coerce v = None) values;
          sampleValues = take 5 nonNull
      in if nonNull = [] then (TText, True, sampleValues)
         else (case find (\<lambda>(ty, test). list_all test nonNull) (typeCandidates parseJson) of
                 Some (ty, _) \<Rightarrow> (ty, sawNull, sampleValues)
               | None \<Rightarrow> (TText, sawNull, sampleValues)))"

text \<open>A row shorter than the header reads \<open>undefined\<close>.\<close>

definition cellAt :: "Cell list \<Rightarrow> nat \<Rightarrow> Cell" where
  "cellAt row i = (if i < length row then row ! i else CUndefined)"

definition inferSchema :: "(jstr \<Rightarrow> json option) \<Rightarrow> jstr list \<Rightarrow> Cell list list \<Rightarrow> InferredColumn list" where
  "inferSchema parseJson headers rows =
     (let sanitized = dedupeColumnNames (map (\<lambda>(h, i). sanitizeColumnName h i) (zip headers [0..<length headers]))
      in map (\<lambda>i. case inferColumnType parseJson (map (\<lambda>r. cellAt r i) rows) of (ty, nullable, samples) \<Rightarrow>
           \<lparr>ic_name = sanitized ! i, ic_originalName = headers ! i, ic_type = ty, ic_nullable = nullable, ic_sampleValues = samples\<rparr>)
         [0..<length headers])"

section \<open>Casting\<close>

datatype CastValue = VNull | VBool bool | VInt int | VNum "rat option" | VText jstr | VJson json

datatype CastError = NullNotAllowed | NotA InferredType jstr | InvalidJson

definition castText :: "(jstr \<Rightarrow> json option) \<Rightarrow> InferredType \<Rightarrow> jstr \<Rightarrow> CastError + CastValue" where
  "castText parseJson ty s = (case ty of
       TBoolean \<Rightarrow> (case tryBoolean s of None \<Rightarrow> Inl (NotA TBoolean s) | Some b \<Rightarrow> Inr (VBool b))
     | TInteger \<Rightarrow> if \<not> tryInteger s then Inl (NotA TInteger s)
                   else Inr (VInt ((if unsigned s = s then 1 else -1) * (case digitsIn 10 (unsigned s) of Some n \<Rightarrow> n | None \<Rightarrow> 0)))
     | TBigint \<Rightarrow> if \<not> tryBigint s then Inl (NotA TBigint s) else Inr (VText s)
     | TNumeric \<Rightarrow> if \<not> NUMERIC_RE s then Inl (NotA TNumeric s) else Inr (VNum (integerText s))
     | TUuid \<Rightarrow> if \<not> UUID_RE s then Inl (NotA TUuid s) else Inr (VText s)
     | TDate \<Rightarrow> if \<not> ISO_DATE_RE s then Inl (NotA TDate s) else Inr (VText s)
     | TTimestamptz \<Rightarrow> if \<not> ISO_TIMESTAMP_RE s then Inl (NotA TTimestamptz s) else Inr (VText s)
     | TJsonb \<Rightarrow> (case parseJson s of Some v \<Rightarrow> Inr (VJson v) | None \<Rightarrow> Inl InvalidJson)
     | TText \<Rightarrow> Inr (VText s))"

definition castValue :: "(jstr \<Rightarrow> json option) \<Rightarrow> Cell \<Rightarrow> InferredType \<Rightarrow> bool \<Rightarrow> CastError + CastValue" where
  "castValue parseJson raw ty nullable =
     (if isNull raw then (if nullable then Inr VNull else Inl NullNotAllowed)
      else (case coerce raw of
              None \<Rightarrow> if nullable then Inr VNull else Inl NullNotAllowed
            | Some s \<Rightarrow> castText parseJson ty s))"

end
