(* ===== verification/TypeRules.thy ===== *)
theory TypeRules
  imports TypeInferrer
begin

text \<open>
  What inference guarantees: column names that PostgreSQL takes without escaping, and types that every cell of
  the sample casts to.
\<close>

section \<open>Names\<close>

definition safeName :: "jstr \<Rightarrow> bool" where
  "safeName n \<longleftrightarrow> n \<noteq> [] \<and> list_all isNameChar n \<and> \<not> is_digit (hd n)"

lemma collapse_chars: "list_all isNameChar (collapse s)"
  by (induction s rule: collapse.induct) (auto simp: isNameChar_def)

lemma strip_subset: "set (stripUnderscores s) \<subseteq> set s"
  by (auto simp: stripUnderscores_def dest!: set_dropWhileD)

lemma digit_is_name_char: "is_digit c \<Longrightarrow> isNameChar c"
  by (simp add: isNameChar_def)

lemma show_nat_chars: "list_all isNameChar (show_nat n)"
  by (auto simp: list_all_iff intro: digit_is_name_char dest: show_nat_digits)

lemma sanitized_is_safe: "safeName (sanitizeColumnName header idx)"
proof -
  let ?t = "stripUnderscores (collapse (js_lower (js_trim header)))"
  have t: "list_all isNameChar ?t"
    using collapse_chars strip_subset by (auto simp: list_all_iff)
  show ?thesis
  proof (cases ?t)
    case Nil
    have "list_all isNameChar (js ''column_'')" by (simp add: isNameChar_def)
    with Nil show ?thesis by (simp add: sanitizeColumnName_def safeName_def show_nat_chars is_digit_def Let_def)
  next
    case (Cons c r)
    with t show ?thesis by (simp add: sanitizeColumnName_def safeName_def Let_def isNameChar_def is_digit_def)
  qed
qed

lemma numbered_is_safe: "safeName base \<Longrightarrow> safeName (base @ js ''_'' @ show_nat k)"
  by (cases base) (auto simp: safeName_def show_nat_chars isNameChar_def)

lemma dedupe_length [simp]: "length (dedupeLoop seen names) = length names"
  by (induction seen names rule: dedupeLoop.induct) (simp_all add: Let_def)

lemma dedupe_is_safe: "list_all safeName names \<Longrightarrow> list_all safeName (dedupeLoop seen names)"
  by (induction seen names rule: dedupeLoop.induct) (simp_all add: Let_def numbered_is_safe del: js_Cons)

text \<open>Names stay apart unless one of them is another with an underscore and a number.\<close>

lemma show_nat_inject: "show_nat m = show_nat n \<Longrightarrow> m = n"
proof (induction m arbitrary: n rule: show_nat.induct)
  case (1 m)
  have len: "length (show_nat k) = 1 \<longleftrightarrow> k < 10" for k by (simp add: show_nat.simps [of k])
  show ?case
  proof (cases "m < 10")
    case True
    with len [of m] len [of n] 1(2) have "n < 10" by simp
    with True 1(2) show ?thesis by (simp add: show_nat.simps [of m] show_nat.simps [of n])
  next
    case False
    with len [of m] len [of n] 1(2) have n: "\<not> n < 10" by simp
    with False 1(2) have "show_nat (m div 10) = show_nat (n div 10)" "m mod 10 = n mod 10"
      by (simp_all add: show_nat.simps [of m] show_nat.simps [of n])
    with 1(1) [OF False] have "m div 10 = n div 10" "m mod 10 = n mod 10" by auto
    then show ?thesis by (metis div_mult_mod_eq)
  qed
qed

definition numbered :: "jstr \<Rightarrow> nat \<Rightarrow> jstr" where
  "numbered base k = (if k = 0 then base else base @ js ''_'' @ show_nat k)"

lemma numbered_inject:
  assumes "a @ js ''_'' @ show_nat i = b @ js ''_'' @ show_nat k"
  shows "a = b \<and> i = k"
proof -
  have tail: "takeWhile is_digit (rev (c @ js ''_'' @ show_nat n)) = rev (show_nat n)"
    "dropWhile is_digit (rev (c @ js ''_'' @ show_nat n)) = 95 # rev c" for c n
  proof -
    have "\<And>d. d \<in> set (rev (show_nat n)) \<Longrightarrow> is_digit d" using show_nat_digits by simp
    moreover have "\<not> is_digit 95" by (simp add: is_digit_def)
    ultimately show "takeWhile is_digit (rev (c @ js ''_'' @ show_nat n)) = rev (show_nat n)"
      "dropWhile is_digit (rev (c @ js ''_'' @ show_nat n)) = 95 # rev c" by (simp_all add: takeWhile_append dropWhile_append)
  qed
  from assms tail [of a i] tail [of b k] show ?thesis by (metis list.inject rev_rev_ident show_nat_inject)
qed

definition apart :: "jstr list \<Rightarrow> bool" where
  "apart names \<longleftrightarrow> (\<forall>a\<in>set names. \<forall>b\<in>set names. \<forall>k. a \<noteq> b @ js ''_'' @ show_nat k)"

lemma dedupe_distinct:
  assumes "\<forall>a\<in>N. \<forall>b\<in>N. \<forall>k. a \<noteq> b @ js ''_'' @ show_nat k" "set names \<subseteq> N"
  shows "distinct (dedupeLoop seen names) \<and>
    (\<forall>n\<in>set (dedupeLoop seen names). \<exists>b\<in>N. \<exists>k\<ge>seen b. n = numbered b k)"
  using assms(2)
proof (induction seen names rule: dedupeLoop.induct)
  case (2 seen base names)
  define name where "name = numbered base (seen base)"
  define next_seen where "next_seen = (if seen base > 0 then (seen(base := seen base + 1))(name := 1) else seen(base := seen base + 1))"
  have N: "base \<in> N" "set names \<subseteq> N" using 2(2) by auto
  have step: "dedupeLoop seen (base # names) = name # dedupeLoop next_seen names"
    by (simp add: name_def next_seen_def numbered_def Let_def)
  have notin: "0 < seen base \<Longrightarrow> name \<notin> N" using assms(1) N(1) by (auto simp: name_def numbered_def)
  have seen': "b \<in> N \<Longrightarrow> next_seen b = (if b = base then seen base + 1 else seen b)" for b
    using notin N(1) by (auto simp: next_seen_def)
  have IH: "distinct (dedupeLoop next_seen names)" "\<forall>n\<in>set (dedupeLoop next_seen names). \<exists>b\<in>N. \<exists>k\<ge>next_seen b. n = numbered b k"
    using "2.IH" [OF refl refl refl refl N(2)] unfolding name_def next_seen_def numbered_def by auto
  have "name \<notin> set (dedupeLoop next_seen names)"
  proof
    assume "name \<in> set (dedupeLoop next_seen names)"
    with IH(2) obtain b k where bk: "b \<in> N" "next_seen b \<le> k" "numbered base (seen base) = numbered b k" by (auto simp: name_def)
    have "base = b \<and> seen base = k"
      using bk(1,3) N(1) assms(1) numbered_inject [of base "seen base" b k] by (auto simp: numbered_def split: if_splits)
    with bk(1,2) seen' show False by auto
  qed
  moreover have "\<exists>b\<in>N. \<exists>k\<ge>seen b. n = numbered b k" if "n \<in> set (dedupeLoop next_seen names)" for n
  proof -
    from IH(2) that obtain b k where "b \<in> N" "next_seen b \<le> k" "n = numbered b k" by blast
    moreover have "seen b \<le> next_seen b" using \<open>b \<in> N\<close> seen' by simp
    ultimately show ?thesis using le_trans by blast
  qed
  ultimately show ?case using step IH(1) N(1) by (auto simp: name_def)
qed simp

lemma deduped_names_are_distinct: "apart names \<Longrightarrow> distinct (dedupeColumnNames names)"
  using dedupe_distinct [of "set names" names "\<lambda>_. 0"] by (simp add: apart_def dedupeColumnNames_def)

text \<open>Without that condition they may collide: the number is not checked against the names themselves.\<close>

lemma numbered_name_taken:
  "dedupeColumnNames [js ''a_1'', js ''a'', js ''a''] = [js ''a_1'', js ''a'', js ''a_1'']"
  by (simp add: dedupeColumnNames_def Let_def show_nat.simps)

section \<open>Types\<close>

text \<open>What \<open>toString\<close>, \<open>toISOString\<close> and \<open>JSON.stringify\<close> give has no white space around it.\<close>

primrec tidyCell :: "Cell \<Rightarrow> bool" where
  "tidyCell CNull = True"
| "tidyCell CUndefined = True"
| "tidyCell (CStr s) = True"
| "tidyCell (CNum t) = (js_trim t = t)"
| "tidyCell (CBoolean b) = True"
| "tidyCell (CDate t) = (js_trim t = t)"
| "tidyCell (CObject t) = (js_trim t = t)"

lemma dropWhile_idem: "dropWhile P (dropWhile P s) = dropWhile P s"
  by (induction s) auto

lemma dropWhile_rev_dropWhile: "dropWhile P (rev (dropWhile P (rev (dropWhile P s)))) = rev (dropWhile P (rev (dropWhile P s)))"
proof (cases "dropWhile P s")
  case (Cons a r)
  then have "\<not> P a" by (metis hd_dropWhile list.distinct(1) list.sel(1))
  with Cons show ?thesis by (simp add: dropWhile_append)
qed (simp del: dropWhile_eq_Nil_conv)

lemma js_trim_idem [simp]: "js_trim (js_trim s) = js_trim s"
  by (simp add: js_trim_def dropWhile_rev_dropWhile dropWhile_idem)

lemma coerced_is_trimmed: "tidyCell raw \<Longrightarrow> coerce raw = Some s \<Longrightarrow> js_trim s = s"
proof (cases raw)
  case (CBoolean b)
  have "js_trim (js ''true'') = js ''true''" "js_trim (js ''false'') = js ''false''"
    by (simp_all add: js_trim_def is_js_space_def)
  with CBoolean show "coerce raw = Some s \<Longrightarrow> js_trim s = s" by (auto simp: coerce_def isNull_def simp del: js_Cons)
qed (auto simp: coerce_def isNull_def split: if_splits)

lemma coerce_None: "coerce raw = None \<longleftrightarrow> isNull raw"
  by (cases raw) (auto simp: coerce_def isNull_def)

lemma candidate_casts:
  assumes "(ty, test) \<in> set (typeCandidates parseJson)" "test s" "js_trim s = s"
  shows "\<exists>v. castText parseJson ty s = Inr v"
proof -
  have "tryJsonb parseJson s \<Longrightarrow> \<exists>v. parseJson s = Some v" using assms(3) by (auto simp: tryJsonb_def Let_def)
  then show ?thesis using assms(1,2) unfolding typeCandidates_def
    by (simp, elim disjE conjE) (auto simp: castText_def)
qed

lemma inferred_type_casts:
  assumes "inferColumnType parseJson values = (ty, nullable, samples)" "list_all tidyCell values" "raw \<in> set values"
  shows "\<exists>v. castValue parseJson raw ty nullable = Inr v \<and> (isNull raw \<longrightarrow> v = VNull)"
proof (cases "isNull raw")
  case True
  with assms(3) have "list_ex (\<lambda>v. coerce v = None) values" by (auto simp: list_ex_iff coerce_None)
  with assms(1) have nullable by (auto simp: inferColumnType_def Let_def split: if_splits option.splits)
  with True show ?thesis by (simp add: castValue_def)
next
  case False
  then obtain s where s: "coerce raw = Some s" using coerce_None by blast
  let ?nonNull = "List.map_filter coerce values"
  have mem: "s \<in> set ?nonNull" using s assms(3) by (force simp: List.map_filter_def)
  have trim: "js_trim s = s" using s assms(2,3) coerced_is_trimmed by (auto simp: list_all_iff)
  have "\<exists>v. castText parseJson ty s = Inr v"
  proof (cases "find (\<lambda>(ty, test). list_all test ?nonNull) (typeCandidates parseJson)")
    case None
    with assms(1) mem have "ty = TText" by (auto simp: inferColumnType_def Let_def split: if_splits)
    then show ?thesis by (simp add: castText_def)
  next
    case (Some c)
    obtain ty' test where c: "c = (ty', test)" by (cases c)
    with Some assms(1) mem have "ty' = ty" by (auto simp: inferColumnType_def Let_def split: if_splits)
    moreover have "c \<in> set (typeCandidates parseJson)" "list_all test ?nonNull"
      using Some c by (auto simp: find_Some_iff in_set_conv_nth)
    ultimately show ?thesis using c mem trim candidate_casts [of ty test] by (simp add: list_all_iff)
  qed
  with False s show ?thesis by (auto simp: castValue_def)
qed

section \<open>A schema fits its sample\<close>

lemma inferSchema_nth:
  assumes "i < length headers"
  shows "ic_name (inferSchema parseJson headers rows ! i) = dedupeColumnNames (map (\<lambda>(h, i). sanitizeColumnName h i) (zip headers [0..<length headers])) ! i"
    "inferColumnType parseJson (map (\<lambda>r. cellAt r i) rows) =
      (ic_type (inferSchema parseJson headers rows ! i), ic_nullable (inferSchema parseJson headers rows ! i), ic_sampleValues (inferSchema parseJson headers rows ! i))"
  using assms by (simp_all add: inferSchema_def Let_def split: prod.splits)

lemma inferSchema_length: "length (inferSchema parseJson headers rows) = length headers"
  by (simp add: inferSchema_def Let_def)



end
