(* ===== verification/MigrationDiff.thy ===== *)
theory MigrationDiff
  imports TypeRules
begin

text \<open>
  From sheets to tables: \<open>modules/blueprint/blueprint-builder.ts\<close> (data, business and application model) and
  \<open>modules/migrations/migration-diff.ts\<close> (the plan that turns one data model into another).

  A statement of a plan is kept as a value of type \<open>DdlStatement\<close>; \<open>renderStatement\<close> is the text the source
  builds for it.  JavaScript maps are association lists that keep the place of a key.
\<close>

section \<open>Data models\<close>

record BlueprintSheet =
  bs_name :: jstr
  bs_headers :: "jstr list"
  bs_rows :: "Cell list list"

record DataModelTable =
  dt_name :: jstr
  dt_label :: jstr
  dt_columns :: "InferredColumn list"

type_synonym DataModel = "DataModelTable list"

definition RESERVED :: "jstr list" where
  "RESERVED = [js ''id'', js ''created_at'', js ''updated_at'']"

definition buildTable :: "(jstr \<Rightarrow> json option) \<Rightarrow> BlueprintSheet \<Rightarrow> DataModelTable" where
  "buildTable parseJson sheet = \<lparr>dt_name = sanitizeColumnName (bs_name sheet) 0, dt_label = bs_name sheet,
     dt_columns = filter (\<lambda>c. js_lower (ic_name c) \<notin> set RESERVED) (inferSchema parseJson (bs_headers sheet) (bs_rows sheet))\<rparr>"

definition buildDataModel :: "(jstr \<Rightarrow> json option) \<Rightarrow> jstr list \<Rightarrow> BlueprintSheet list \<Rightarrow> DataModel" where
  "buildDataModel parseJson excludeSheets sheets =
     filter (\<lambda>t. dt_columns t \<noteq> [])
       (map (buildTable parseJson) (filter (\<lambda>s. bs_name s \<noteq> [] \<and> js_lower (bs_name s) \<notin> set (map js_lower excludeSheets)) sheets))"

section \<open>Business and application model\<close>

datatype BlueprintDomain = Crm | Inventory | Orders | Hr | Generic

definition DOMAIN_KEYWORDS :: "(BlueprintDomain \<times> jstr list) list" where
  "DOMAIN_KEYWORDS =
     [(Crm, [js ''customer'', js ''lead'', js ''contact'', js ''account'', js ''opportunity'', js ''deal'']),
      (Inventory, [js ''product'', js ''stock'', js ''inventory'', js ''item'', js ''warehouse'', js ''sku'']),
      (Orders, [js ''order'', js ''invoice'', js ''sale'', js ''payment'', js ''transaction'', js ''cart'']),
      (Hr, [js ''employee'', js ''staff'', js ''payroll'', js ''department'', js ''leave'', js ''attendance''])]"

primrec DOMAIN_KPIS :: "BlueprintDomain \<Rightarrow> jstr list" where
  "DOMAIN_KPIS Crm = [js ''Total customers'', js ''New leads'', js ''Open opportunities'']"
| "DOMAIN_KPIS Inventory = [js ''Total products'', js ''Low-stock items'', js ''Inventory value'']"
| "DOMAIN_KPIS Orders = [js ''Total orders'', js ''Revenue'', js ''Pending orders'']"
| "DOMAIN_KPIS Hr = [js ''Headcount'', js ''Open positions'', js ''Pending leave requests'']"
| "DOMAIN_KPIS Generic = [js ''Total records'', js ''Recently added'']"

definition haystackOf :: "DataModel \<Rightarrow> jstr" where
  "haystackOf m = js_lower (join [32] (concat (map (\<lambda>t. dt_name t # dt_label t # map ic_originalName (dt_columns t)) m)))"

definition scoreOf :: "jstr \<Rightarrow> jstr list \<Rightarrow> nat" where
  "scoreOf haystack keywords = length (filter (\<lambda>k. cut_at k haystack \<noteq> None) keywords)"

definition detectDomain :: "DataModel \<Rightarrow> BlueprintDomain" where
  "detectDomain m = fst (foldl (\<lambda>(best, bestScore) (domain, keywords).
       let score = scoreOf (haystackOf m) keywords in if bestScore < score then (domain, score) else (best, bestScore))
     (Generic, 0) DOMAIN_KEYWORDS)"

record BusinessModel =
  bm_domain :: BlueprintDomain
  bm_actors :: "jstr list"
  bm_objects :: "jstr list"
  bm_kpis :: "jstr list"

definition buildBusinessModel :: "DataModel \<Rightarrow> BlueprintDomain \<Rightarrow> BusinessModel" where
  "buildBusinessModel m domain = \<lparr>bm_domain = domain, bm_actors = [js ''Admin'', js ''Member''],
     bm_objects = map dt_label m, bm_kpis = DOMAIN_KPIS domain\<rparr>"

datatype TableOperation = OpRead | OpCreate | OpUpdate | OpDelete

record AppRole =
  ar_name :: jstr
  ar_permissions :: "(jstr \<times> TableOperation list) list"

record ApplicationModel =
  am_name :: jstr
  am_roles :: "AppRole list"
  am_navigation :: "(jstr \<times> jstr) list"
  am_tables :: "jstr list"

primrec domainTitle :: "BlueprintDomain \<Rightarrow> jstr" where
  "domainTitle Crm = js ''Crm''"
| "domainTitle Inventory = js ''Inventory''"
| "domainTitle Orders = js ''Orders''"
| "domainTitle Hr = js ''Hr''"
| "domainTitle Generic = js ''Generic''"

definition permissionsOf :: "TableOperation list \<Rightarrow> jstr list \<Rightarrow> (jstr \<times> TableOperation list) list" where
  "permissionsOf ops tables = foldl (\<lambda>m t. setKey t ops m) [] tables"

definition buildApplicationModel :: "DataModel \<Rightarrow> BlueprintDomain \<Rightarrow> jstr option \<Rightarrow> ApplicationModel" where
  "buildApplicationModel m domain appName =
     (let tables = map dt_name m;
          given = (case appName of Some n \<Rightarrow> js_trim n | None \<Rightarrow> [])
      in \<lparr>am_name = (if given \<noteq> [] then given else domainTitle domain @ js '' App''),
          am_roles = [\<lparr>ar_name = js ''Admin'', ar_permissions = permissionsOf [OpRead, OpCreate, OpUpdate, OpDelete] tables\<rparr>,
                      \<lparr>ar_name = js ''Member'', ar_permissions = permissionsOf [OpRead] tables\<rparr>],
          am_navigation = map (\<lambda>t. (dt_label t, dt_name t)) m, am_tables = tables\<rparr>)"

section \<open>Plans\<close>

primrec pg :: "InferredType \<Rightarrow> jstr" where
  "pg TBoolean = js ''BOOLEAN''"
| "pg TInteger = js ''INTEGER''"
| "pg TBigint = js ''BIGINT''"
| "pg TNumeric = js ''NUMERIC''"
| "pg TUuid = js ''UUID''"
| "pg TDate = js ''DATE''"
| "pg TTimestamptz = js ''TIMESTAMPTZ''"
| "pg TJsonb = js ''JSONB''"
| "pg TText = js ''TEXT''"

datatype ChangeKind = CreateTable | DropTable | AddColumn | DropColumn | AlterColumnType

datatype Safety = Safe | Review | Destructive

record MigrationChange =
  mc_kind :: ChangeKind
  mc_table :: jstr
  mc_column :: "jstr option"
  mc_detail :: jstr
  mc_safety :: Safety

datatype DdlStatement = SDropTable jstr | SAddColumn jstr jstr jstr | SDropColumn jstr jstr | SAlterType jstr jstr jstr

definition q :: "jstr \<Rightarrow> jstr" where
  "q ident = js ''\"'' @ ident @ js ''\"''"

primrec renderStatement :: "DdlStatement \<Rightarrow> jstr" where
  "renderStatement (SDropTable t) = js ''DROP TABLE IF EXISTS \"public\".'' @ q t @ js '' CASCADE''"
| "renderStatement (SAddColumn t c ty) = js ''ALTER TABLE \"public\".'' @ q t @ js '' ADD COLUMN '' @ q c @ js '' '' @ ty"
| "renderStatement (SDropColumn t c) = js ''ALTER TABLE \"public\".'' @ q t @ js '' DROP COLUMN '' @ q c"
| "renderStatement (SAlterType t c ty) =
     js ''ALTER TABLE \"public\".'' @ q t @ js '' ALTER COLUMN '' @ q c @ js '' TYPE '' @ ty @ js '' USING '' @ q c @ js ''::'' @ ty"

record MigrationPlan =
  mp_changes :: "MigrationChange list"
  mp_statements :: "DdlStatement list"
  mp_newTables :: "DataModelTable list"
  mp_hasDestructive :: bool

definition tableMap :: "DataModel \<Rightarrow> (jstr \<times> DataModelTable) list" where
  "tableMap m = foldl (\<lambda>acc t. setKey (dt_name t) t acc) [] m"

definition columnMap :: "DataModelTable \<Rightarrow> (jstr \<times> InferredColumn) list" where
  "columnMap t = foldl (\<lambda>acc c. setKey (ic_name c) c acc) [] (dt_columns t)"

definition createChange :: "jstr \<Rightarrow> DataModelTable \<Rightarrow> MigrationChange" where
  "createChange name t = \<lparr>mc_kind = CreateTable, mc_table = name, mc_column = None,
     mc_detail = js ''Create table '' @ q name @ js '' with '' @ show_nat (length (dt_columns t)) @ js '' column(s)'', mc_safety = Safe\<rparr>"

definition dropChange :: "jstr \<Rightarrow> MigrationChange" where
  "dropChange name = \<lparr>mc_kind = DropTable, mc_table = name, mc_column = None,
     mc_detail = js ''Drop table '' @ q name @ js '' (data loss)'', mc_safety = Destructive\<rparr>"

definition addStep :: "jstr \<Rightarrow> jstr \<Rightarrow> InferredColumn \<Rightarrow> DdlStatement \<times> MigrationChange" where
  "addStep name col c = (SAddColumn name col (pg (ic_type c)),
     \<lparr>mc_kind = AddColumn, mc_table = name, mc_column = Some col,
      mc_detail = js ''Add column '' @ q col @ js '' ('' @ pg (ic_type c) @ js '')'', mc_safety = Safe\<rparr>)"

definition dropStep :: "jstr \<Rightarrow> jstr \<Rightarrow> DdlStatement \<times> MigrationChange" where
  "dropStep name col = (SDropColumn name col,
     \<lparr>mc_kind = DropColumn, mc_table = name, mc_column = Some col,
      mc_detail = js ''Drop column '' @ q col @ js '' (data loss)'', mc_safety = Destructive\<rparr>)"

definition alterStep :: "jstr \<Rightarrow> jstr \<Rightarrow> InferredColumn \<Rightarrow> InferredColumn \<Rightarrow> DdlStatement \<times> MigrationChange" where
  "alterStep name col fromCol toCol = (SAlterType name col (pg (ic_type toCol)),
     \<lparr>mc_kind = AlterColumnType, mc_table = name, mc_column = Some col,
      mc_detail = js ''Change '' @ q col @ js '' type '' @ pg (ic_type fromCol) @ js '' '' @ [8594] @ js '' '' @ pg (ic_type toCol) @
        js '' (may fail/lose data)'', mc_safety = Review\<rparr>)"

definition columnSteps :: "jstr \<Rightarrow> DataModelTable \<Rightarrow> DataModelTable \<Rightarrow> (DdlStatement \<times> MigrationChange) list" where
  "columnSteps name fromTable toTable =
     (let fromCols = columnMap fromTable; toCols = columnMap toTable in
      [addStep name col c. (col, c) \<leftarrow> toCols, map_of fromCols col = None] @
      [dropStep name col. (col, c) \<leftarrow> fromCols, map_of toCols col = None] @
      concat (map (\<lambda>(col, toCol). case map_of fromCols col of
          Some fromCol \<Rightarrow> if ic_type fromCol \<noteq> ic_type toCol then [alterStep name col fromCol toCol] else []
        | None \<Rightarrow> []) toCols))"

definition sharedSteps :: "(jstr \<times> DataModelTable) list \<Rightarrow> (jstr \<times> DataModelTable) list \<Rightarrow> (DdlStatement \<times> MigrationChange) list" where
  "sharedSteps fromTables toTables = concat (map (\<lambda>(name, toTable). case map_of fromTables name of
       Some fromTable \<Rightarrow> columnSteps name fromTable toTable | None \<Rightarrow> []) toTables)"

definition diffDataModels :: "DataModel \<Rightarrow> DataModel \<Rightarrow> MigrationPlan" where
  "diffDataModels from to =
     (let fromTables = tableMap from; toTables = tableMap to;
          created = [(name, t). (name, t) \<leftarrow> toTables, map_of fromTables name = None];
          dropped = [name. (name, t) \<leftarrow> fromTables, map_of toTables name = None];
          shared = sharedSteps fromTables toTables;
          changes = map (\<lambda>(name, t). createChange name t) created @ map dropChange dropped @ map snd shared
      in \<lparr>mp_changes = changes, mp_statements = map SDropTable dropped @ map fst shared, mp_newTables = map snd created,
          mp_hasDestructive = list_ex (\<lambda>c. mc_safety c \<noteq> Safe) changes\<rparr>)"

end
