(* ===== verification/MigrationService.thy ===== *)
theory MigrationService
  imports MigrationDiff
begin

text \<open>
  Blueprints and the migrations of their tables: \<open>modules/blueprint/blueprint.service.ts\<close>,
  \<open>modules/migrations/migration.service.ts\<close> and the two operations of \<open>projects/collection.service.ts\<close> that
  they call.

  The platform's tables are maps by id.  A project database is a map from table names to its columns with
  their PostgreSQL types; \<open>execStatement\<close> says what a statement does to it, and \<open>allow\<close> whether the stored rows
  permit it.  New ids are arguments; time stamps, row level policies and grants are left out.  The operations
  run one at a time.
\<close>

section \<open>Project databases\<close>

type_synonym Columns = "jstr \<Rightarrow> jstr option"
type_synonym Db = "jstr \<Rightarrow> Columns option"

definition VALID_COLLECTION_RE :: "jstr \<Rightarrow> bool" where
  "VALID_COLLECTION_RE s \<longleftrightarrow> (case s of [] \<Rightarrow> False
     | c # r \<Rightarrow> (is_alpha c \<or> c = 95) \<and> list_all (\<lambda>d. is_alpha d \<or> is_digit d \<or> d = 95) r)"

definition reservedColumns :: "(jstr \<times> jstr) list" where
  "reservedColumns = [(js ''id'', js ''UUID''), (js ''created_at'', js ''TIMESTAMPTZ''), (js ''updated_at'', js ''TIMESTAMPTZ'')]"

datatype MwError =
    AuthenticationRequired | NotAMember | BlueprintNotFound | RunNotFound | TeamIdRequired | SheetsRequired | NoUsableTables
  | InvalidApplicationModel | NoTargetProject | NotApproved | NoTables | AlreadyRun | NeedsForce | InvalidName jstr
  | CreateFailed jstr | StatementFailed

definition validNames :: "jstr list \<Rightarrow> MwError + unit" where
  "validNames names = (case find (\<lambda>n. \<not> VALID_COLLECTION_RE n) names of Some n \<Rightarrow> Inl (InvalidName n) | None \<Rightarrow> Inr ())"

text \<open>Whether the table was created; a table that exists is skipped.\<close>

definition createRelationalTable :: "jstr \<Rightarrow> (jstr \<times> jstr) list \<Rightarrow> Db \<Rightarrow> (MwError + bool) \<times> Db" where
  "createRelationalTable tableName columns db = (case validNames (tableName # map fst columns) of
       Inl e \<Rightarrow> (Inl e, db)
     | Inr _ \<Rightarrow>
         if \<not> distinct (map fst (reservedColumns @ columns)) then (Inl (CreateFailed tableName), db)
         else if db tableName \<noteq> None then (Inr False, db)
         else (Inr True, db(tableName \<mapsto> map_of (reservedColumns @ columns))))"

definition execStatement :: "(DdlStatement \<Rightarrow> bool) \<Rightarrow> DdlStatement \<Rightarrow> Db \<Rightarrow> Db option" where
  "execStatement allow s db = (case s of
       SDropTable t \<Rightarrow> Some (db(t := None))
     | SAddColumn t c ty \<Rightarrow> (case db t of Some cols \<Rightarrow> if cols c = None then Some (db(t \<mapsto> cols(c \<mapsto> ty))) else None | None \<Rightarrow> None)
     | SDropColumn t c \<Rightarrow> (case db t of Some cols \<Rightarrow> if cols c \<noteq> None then Some (db(t \<mapsto> cols(c := None))) else None | None \<Rightarrow> None)
     | SAlterType t c ty \<Rightarrow> (case db t of
           Some cols \<Rightarrow> if cols c \<noteq> None \<and> allow s then Some (db(t \<mapsto> cols(c \<mapsto> ty))) else None
         | None \<Rightarrow> None))"

fun execAll :: "(DdlStatement \<Rightarrow> bool) \<Rightarrow> DdlStatement list \<Rightarrow> Db \<Rightarrow> Db option" where
  "execAll allow [] db = Some db"
| "execAll allow (s # ss) db = (case execStatement allow s db of Some db' \<Rightarrow> execAll allow ss db' | None \<Rightarrow> None)"

definition runStatements :: "(DdlStatement \<Rightarrow> bool) \<Rightarrow> DdlStatement list \<Rightarrow> Db \<Rightarrow> (MwError + nat) \<times> Db" where
  "runStatements allow ss db = (case execAll allow ss db of Some db' \<Rightarrow> (Inr (length ss), db') | None \<Rightarrow> (Inl StatementFailed, db))"

section \<open>The platform's records\<close>

datatype BlueprintStatus = Draft | Approved | Generating | Generated | BlueprintFailed

record Blueprint =
  bp_teamId :: jstr
  bp_projectId :: "jstr option"
  bp_name :: jstr
  bp_status :: BlueprintStatus
  bp_domain :: BlueprintDomain
  bp_dataModel :: DataModel
  bp_businessModel :: BusinessModel
  bp_applicationModel :: ApplicationModel
  bp_generatedDataModel :: "DataModel option"
  bp_createdBy :: "jstr option"
  bp_versions :: "(nat \<times> ApplicationModel) list"

datatype MigrationStatus = RunPending | RunApplied | RunFailed

record MigrationRun =
  rn_blueprintId :: jstr
  rn_projectId :: jstr
  rn_status :: MigrationStatus
  rn_plan :: MigrationPlan
  rn_appliedCount :: nat

record MigrationWorld =
  mw_members :: "(jstr \<times> jstr) list"
  mw_blueprints :: "jstr \<Rightarrow> Blueprint option"
  mw_runs :: "jstr \<Rightarrow> MigrationRun option"
  mw_dbs :: "jstr \<Rightarrow> Db"

definition putBlueprint :: "jstr \<Rightarrow> Blueprint \<Rightarrow> MigrationWorld \<Rightarrow> MigrationWorld" where
  "putBlueprint i b w = w\<lparr>mw_blueprints := (mw_blueprints w)(i \<mapsto> b)\<rparr>"

definition putRun :: "jstr \<Rightarrow> MigrationRun \<Rightarrow> MigrationWorld \<Rightarrow> MigrationWorld" where
  "putRun i r w = w\<lparr>mw_runs := (mw_runs w)(i \<mapsto> r)\<rparr>"

definition putDb :: "jstr \<Rightarrow> Db \<Rightarrow> MigrationWorld \<Rightarrow> MigrationWorld" where
  "putDb p db w = w\<lparr>mw_dbs := (mw_dbs w)(p := db)\<rparr>"

definition assertTeam :: "MigrationWorld \<Rightarrow> jstr \<Rightarrow> jstr option \<Rightarrow> MwError + unit" where
  "assertTeam w teamId userId = (case userId of
       None \<Rightarrow> Inl AuthenticationRequired
     | Some u \<Rightarrow> if u = [] then Inl AuthenticationRequired else if (teamId, u) \<in> set (mw_members w) then Inr () else Inl NotAMember)"

definition getBlueprint :: "MigrationWorld \<Rightarrow> jstr \<Rightarrow> jstr option \<Rightarrow> MwError + Blueprint" where
  "getBlueprint w i userId = (case mw_blueprints w i of
       None \<Rightarrow> Inl BlueprintNotFound
     | Some b \<Rightarrow> bindr (assertTeam w (bp_teamId b) userId) (\<lambda>_. Inr b))"

section \<open>Blueprints\<close>

definition analyze :: "(jstr \<Rightarrow> json option) \<Rightarrow> jstr \<Rightarrow> jstr option \<Rightarrow> jstr option \<Rightarrow> jstr list \<Rightarrow> BlueprintSheet list \<Rightarrow> jstr option \<Rightarrow> jstr \<Rightarrow>
    MigrationWorld \<Rightarrow> (MwError + jstr) \<times> MigrationWorld" where
  "analyze parseJson teamId name projectId excludeSheets sheets userId newId w =
     (if teamId = [] then (Inl TeamIdRequired, w)
      else if sheets = [] then (Inl SheetsRequired, w)
      else case assertTeam w teamId userId of
        Inl e \<Rightarrow> (Inl e, w)
      | Inr _ \<Rightarrow>
         (let m = buildDataModel parseJson excludeSheets sheets; domain = detectDomain m;
              application = buildApplicationModel m domain name in
          if m = [] then (Inl NoUsableTables, w)
          else (Inr newId, putBlueprint newId
            \<lparr>bp_teamId = teamId, bp_projectId = projectId, bp_name = am_name application, bp_status = Draft, bp_domain = domain,
             bp_dataModel = m, bp_businessModel = buildBusinessModel m domain, bp_applicationModel = application,
             bp_generatedDataModel = None, bp_createdBy = userId, bp_versions = []\<rparr> w)))"

definition lastVersion :: "Blueprint \<Rightarrow> nat" where
  "lastVersion b = foldl max 0 (map fst (bp_versions b))"

definition approve :: "jstr \<Rightarrow> ApplicationModel \<Rightarrow> jstr option \<Rightarrow> MigrationWorld \<Rightarrow> (MwError + unit) \<times> MigrationWorld" where
  "approve i application userId w = (case getBlueprint w i userId of
       Inl e \<Rightarrow> (Inl e, w)
     | Inr b \<Rightarrow>
         if am_name application = [] then (Inl InvalidApplicationModel, w)
         else (Inr (), putBlueprint i (b\<lparr>bp_status := Approved, bp_name := am_name application, bp_applicationModel := application,
                 bp_versions := bp_versions b @ [(lastVersion b + 1, application)]\<rparr>) w))"

fun createTables :: "DataModelTable list \<Rightarrow> Db \<Rightarrow> (MwError + (jstr \<times> bool) list) \<times> Db" where
  "createTables [] db = (Inr [], db)"
| "createTables (t # ts) db =
     (case createRelationalTable (dt_name t) (map (\<lambda>c. (ic_name c, pg (ic_type c))) (dt_columns t)) db of
        (Inl e, db') \<Rightarrow> (Inl e, db')
      | (Inr made, db') \<Rightarrow> (case createTables ts db' of
            (Inl e, db2) \<Rightarrow> (Inl e, db2)
          | (Inr results, db2) \<Rightarrow> (Inr ((dt_name t, made) # results), db2)))"

definition generate :: "jstr \<Rightarrow> jstr option \<Rightarrow> jstr option \<Rightarrow> MigrationWorld \<Rightarrow> (MwError + (jstr \<times> bool) list) \<times> MigrationWorld" where
  "generate i projectId userId w = (case getBlueprint w i userId of
       Inl e \<Rightarrow> (Inl e, w)
     | Inr b \<Rightarrow> (case (if projectId = None \<or> projectId = Some [] then bp_projectId b else projectId) of
           None \<Rightarrow> (Inl NoTargetProject, w)
         | Some p \<Rightarrow>
             if p = [] then (Inl NoTargetProject, w)
             else if bp_status b \<noteq> Approved \<and> bp_status b \<noteq> Generated then (Inl NotApproved, w)
             else if bp_dataModel b = [] then (Inl NoTables, w)
             else (let b1 = b\<lparr>bp_status := Generating, bp_projectId := Some p\<rparr> in
                   case createTables (bp_dataModel b) (mw_dbs w p) of
                     (Inl e, db) \<Rightarrow> (Inl e, putBlueprint i (b1\<lparr>bp_status := BlueprintFailed\<rparr>) (putDb p db w))
                   | (Inr results, db) \<Rightarrow>
                       (Inr results, putBlueprint i (b1\<lparr>bp_status := Generated, bp_generatedDataModel := Some (bp_dataModel b)\<rparr>) (putDb p db w)))))"

definition resync :: "(jstr \<Rightarrow> json option) \<Rightarrow> jstr \<Rightarrow> BlueprintSheet list \<Rightarrow> jstr option \<Rightarrow> jstr option \<Rightarrow> MigrationWorld \<Rightarrow>
    (MwError + unit) \<times> MigrationWorld" where
  "resync parseJson i sheets name userId w = (case getBlueprint w i userId of
       Inl e \<Rightarrow> (Inl e, w)
     | Inr b \<Rightarrow>
         if sheets = [] then (Inl SheetsRequired, w)
         else (let m = buildDataModel parseJson [] sheets; domain = detectDomain m;
                   appName = (if name = None \<or> name = Some [] then Some (bp_name b) else name) in
               if m = [] then (Inl NoUsableTables, w)
               else (Inr (), putBlueprint i (b\<lparr>bp_domain := domain, bp_dataModel := m, bp_businessModel := buildBusinessModel m domain,
                       bp_applicationModel := buildApplicationModel m domain appName,
                       bp_status := (if bp_generatedDataModel b \<noteq> None then Approved else Draft)\<rparr>) w)))"

definition removeBlueprint :: "jstr \<Rightarrow> jstr option \<Rightarrow> MigrationWorld \<Rightarrow> (MwError + unit) \<times> MigrationWorld" where
  "removeBlueprint i userId w = (case getBlueprint w i userId of
       Inl e \<Rightarrow> (Inl e, w)
     | Inr b \<Rightarrow> (Inr (), w\<lparr>mw_blueprints := (mw_blueprints w)(i := None)\<rparr>))"

section \<open>Migrations\<close>

definition planMigration :: "jstr \<Rightarrow> jstr option \<Rightarrow> jstr \<Rightarrow> MigrationWorld \<Rightarrow> (MwError + MigrationRun) \<times> MigrationWorld" where
  "planMigration i userId newId w = (case getBlueprint w i userId of
       Inl e \<Rightarrow> (Inl e, w)
     | Inr b \<Rightarrow> (case bp_projectId b of
           None \<Rightarrow> (Inl NoTargetProject, w)
         | Some p \<Rightarrow>
             if p = [] then (Inl NoTargetProject, w)
             else (let from = (case bp_generatedDataModel b of Some m \<Rightarrow> m | None \<Rightarrow> []);
                       run = \<lparr>rn_blueprintId = i, rn_projectId = p, rn_status = RunPending,
                              rn_plan = diffDataModels from (bp_dataModel b), rn_appliedCount = 0\<rparr>
                   in (Inr run, putRun newId run w))))"

definition getRun :: "MigrationWorld \<Rightarrow> jstr \<Rightarrow> jstr option \<Rightarrow> MwError + MigrationRun" where
  "getRun w r userId = (case mw_runs w r of
       None \<Rightarrow> Inl RunNotFound
     | Some run \<Rightarrow> bindr (getBlueprint w (rn_blueprintId run) userId) (\<lambda>_. Inr run))"

definition failRun :: "jstr \<Rightarrow> MigrationRun \<Rightarrow> MigrationWorld \<Rightarrow> MigrationWorld" where
  "failRun r run w = putRun r (run\<lparr>rn_status := RunFailed\<rparr>) w"

definition applyMigration :: "(DdlStatement \<Rightarrow> bool) \<Rightarrow> jstr \<Rightarrow> bool \<Rightarrow> jstr option \<Rightarrow> MigrationWorld \<Rightarrow> (MwError + nat) \<times> MigrationWorld" where
  "applyMigration allow r force userId w = (case getRun w r userId of
       Inl e \<Rightarrow> (Inl e, w)
     | Inr run \<Rightarrow>
         if rn_status run \<noteq> RunPending then (Inl AlreadyRun, w)
         else if mp_hasDestructive (rn_plan run) \<and> \<not> force then (Inl NeedsForce, w)
         else (case createTables (mp_newTables (rn_plan run)) (mw_dbs w (rn_projectId run)) of
             (Inl e, db) \<Rightarrow> (Inl e, failRun r run (putDb (rn_projectId run) db w))
           | (Inr results, db) \<Rightarrow> (case runStatements allow (mp_statements (rn_plan run)) db of
               (Inl e, db2) \<Rightarrow> (Inl e, failRun r run (putDb (rn_projectId run) db2 w))
             | (Inr n, db2) \<Rightarrow> (case getBlueprint w (rn_blueprintId run) userId of
                   Inl e \<Rightarrow> (Inl e, failRun r run (putDb (rn_projectId run) db2 w))
                 | Inr b \<Rightarrow>
                     (let applied = length (filter snd results) + n in
                      (Inr applied, putRun r (run\<lparr>rn_status := RunApplied, rn_appliedCount := applied\<rparr>)
                         (putBlueprint (rn_blueprintId run) (b\<lparr>bp_generatedDataModel := Some (bp_dataModel b)\<rparr>) (putDb (rn_projectId run) db2 w))))))))"

end
