(* ===== verification/MigrationRules.thy ===== *)
theory MigrationRules
  imports MigrationService
begin

text \<open>
  What plans and their application guarantee: a plan turns a database with the tables of one data model into
  one with the tables of the other, and nothing is lost unless it is forced.
\<close>

section \<open>Models as maps\<close>

lemma foldl_setKey_acc:
  "distinct (map fst acc @ map f xs) \<Longrightarrow> foldl (\<lambda>acc x. setKey (f x) x acc) acc xs = acc @ map (\<lambda>x. (f x, x)) xs"
proof (induction xs arbitrary: acc)
  case (Cons x xs)
  then have *: "setKey (f x) x acc = acc @ [(f x, x)]" by (auto simp: setKey_def)
  have "distinct (map fst (acc @ [(f x, x)]) @ map f xs)" using Cons.prems by auto
  from Cons.IH [OF this] show ?case unfolding foldl_Cons * by simp
qed simp

lemma map_add_Cons: "fst e \<notin> fst ` set es \<Longrightarrow> m(fst e \<mapsto> snd e) ++ map_of es = m ++ map_of (e # es)"
proof -
  assume "fst e \<notin> fst ` set es"
  then have "map_of es (fst e) = None" by (simp add: map_of_eq_None_iff)
  then show ?thesis by (auto simp: map_add_def fun_eq_iff split: option.splits)
qed

lemma foldl_setKey_keys:
  "distinct (map fst acc) \<Longrightarrow> \<forall>e\<in>set acc. fst e = f (snd e) \<and> P (snd e) \<Longrightarrow> list_all P xs \<Longrightarrow>
    (let m = foldl (\<lambda>acc x. setKey (f x) x acc) acc xs in distinct (map fst m) \<and> (\<forall>e\<in>set m. fst e = f (snd e) \<and> P (snd e)))"
proof (induction xs arbitrary: acc)
  case (Cons x xs)
  have "distinct (map fst (setKey (f x) x acc))" using Cons.prems(1) by (rule distinct_setKey)
  moreover have "\<forall>e\<in>set (setKey (f x) x acc). fst e = f (snd e) \<and> P (snd e)"
    using Cons.prems(2,3) by (auto dest!: set_setKey)
  ultimately show ?case using Cons.IH Cons.prems(3) by simp
qed simp

definition wfTable :: "DataModelTable \<Rightarrow> bool" where
  "wfTable t \<longleftrightarrow> VALID_COLLECTION_RE (dt_name t) \<and> distinct (map ic_name (dt_columns t)) \<and>
     list_all (\<lambda>c. VALID_COLLECTION_RE (ic_name c) \<and> ic_name c \<notin> set RESERVED) (dt_columns t)"

definition wfModel :: "DataModel \<Rightarrow> bool" where
  "wfModel m \<longleftrightarrow> list_all wfTable m"

lemma tableMap_keys:
  assumes "list_all P m"
  shows "distinct (map fst (tableMap m))" "(n, t) \<in> set (tableMap m) \<Longrightarrow> n = dt_name t \<and> P t"
  using foldl_setKey_keys [of "[]" dt_name P m] assms by (auto simp: tableMap_def Let_def)

lemma columnMap_wf: "wfTable t \<Longrightarrow> columnMap t = map (\<lambda>c. (ic_name c, c)) (dt_columns t)"
  using foldl_setKey_acc [of "[]" ic_name "dt_columns t"] by (simp add: wfTable_def columnMap_def)

definition columnsOf :: "DataModelTable \<Rightarrow> Columns" where
  "columnsOf t = (\<lambda>c. case map_of reservedColumns c of Some ty \<Rightarrow> Some ty
     | None \<Rightarrow> map_option (\<lambda>col. pg (ic_type col)) (map_of (columnMap t) c))"

definition schemaOf :: "DataModel \<Rightarrow> Db" where
  "schemaOf m = (\<lambda>n. map_option columnsOf (map_of (tableMap m) n))"

definition tableNames :: "DataModel \<Rightarrow> jstr set" where
  "tableNames m = fst ` set (tableMap m)"

lemma reserved_names: "map fst reservedColumns = RESERVED" "distinct RESERVED" "list_all VALID_COLLECTION_RE RESERVED"
  by (simp_all add: reservedColumns_def RESERVED_def VALID_COLLECTION_RE_def is_alpha_def)

lemma columnsOf_created:
  assumes "wfTable t"
  shows "columnsOf t = map_of (reservedColumns @ map (\<lambda>c. (ic_name c, pg (ic_type c))) (dt_columns t))"
proof
  fix c
  have "map_of (map (\<lambda>c. (ic_name c, pg (ic_type c))) cols) x = map_option (\<lambda>col. pg (ic_type col)) (map_of (map (\<lambda>c. (ic_name c, c)) cols) x)" for cols x
    by (induction cols) auto
  note * = this [of "dt_columns t" c]
  show "columnsOf t c = map_of (reservedColumns @ map (\<lambda>c. (ic_name c, pg (ic_type c))) (dt_columns t)) c"
    by (simp add: columnsOf_def columnMap_wf [OF assms] map_add_def * split: option.splits)
qed

section \<open>Creating and changing tables\<close>

lemma create_new:
  assumes "wfTable t" "db (dt_name t) = None"
  shows "createRelationalTable (dt_name t) (map (\<lambda>c. (ic_name c, pg (ic_type c))) (dt_columns t)) db =
    (Inr True, db(dt_name t \<mapsto> columnsOf t))"
proof -
  have "validNames (dt_name t # map fst (map (\<lambda>c. (ic_name c, pg (ic_type c))) (dt_columns t))) = Inr ()"
    using assms(1) by (auto simp: validNames_def wfTable_def list_all_iff find_None_iff split: option.splits)
  moreover have "distinct (map fst (reservedColumns @ map (\<lambda>c. (ic_name c, pg (ic_type c))) (dt_columns t)))"
    using assms(1) reserved_names by (auto simp: wfTable_def list_all_iff comp_def)
  ultimately show ?thesis using assms by (simp add: createRelationalTable_def columnsOf_created)
qed

lemma create_all_new:
  "list_all wfTable ts \<Longrightarrow> distinct (map dt_name ts) \<Longrightarrow> \<forall>t\<in>set ts. db (dt_name t) = None \<Longrightarrow>
    createTables ts db = (Inr (map (\<lambda>t. (dt_name t, True)) ts), db ++ map_of (map (\<lambda>t. (dt_name t, columnsOf t)) ts))"
proof (induction ts arbitrary: db)
  case (Cons t ts)
  let ?db = "db(dt_name t \<mapsto> columnsOf t)"
  have "createTables ts ?db = (Inr (map (\<lambda>t. (dt_name t, True)) ts), ?db ++ map_of (map (\<lambda>t. (dt_name t, columnsOf t)) ts))"
    using Cons.prems by (intro Cons.IH) (auto simp: image_iff)
  moreover have "?db ++ map_of (map (\<lambda>t. (dt_name t, columnsOf t)) ts) = db ++ map_of (map (\<lambda>t. (dt_name t, columnsOf t)) (t # ts))"
    using Cons.prems(2) map_add_Cons [of "(dt_name t, columnsOf t)" _ db] by (simp add: image_image)
  moreover have "createRelationalTable (dt_name t) (map (\<lambda>c. (ic_name c, pg (ic_type c))) (dt_columns t)) db = (Inr True, ?db)"
    using Cons.prems by (intro create_new) simp_all
  ultimately show ?case by (simp only: createTables.simps prod.case sum.case list.map)
qed simp

lemma execAll_append: "execAll allow (ss @ ts) db = (case execAll allow ss db of Some db' \<Rightarrow> execAll allow ts db' | None \<Rightarrow> None)"
  by (induction ss arbitrary: db) (auto split: option.splits)

lemma exec_drop_tables: "execAll allow (map SDropTable ds) db = Some (\<lambda>t. if t \<in> set ds then None else db t)"
  by (induction ds arbitrary: db) (auto simp: execStatement_def)

lemma exec_step: "execStatement allow s db = Some db' \<Longrightarrow> execAll allow (s # ss) db = execAll allow ss db'"
  by simp

lemma exec_adds:
  "db n = Some cols \<Longrightarrow> distinct (map fst cs) \<Longrightarrow> \<forall>c\<in>fst ` set cs. cols c = None \<Longrightarrow>
    execAll allow (map (\<lambda>e. SAddColumn n (fst e) (snd e)) cs) db = Some (db(n \<mapsto> cols ++ map_of cs))"
proof (induction cs arbitrary: db cols)
  case (Cons e cs)
  let ?cols = "cols(fst e \<mapsto> snd e)"
  have "execStatement allow (SAddColumn n (fst e) (snd e)) db = Some (db(n \<mapsto> ?cols))"
    using Cons.prems by (auto simp: execStatement_def)
  moreover have "execAll allow (map (\<lambda>e. SAddColumn n (fst e) (snd e)) cs) (db(n \<mapsto> ?cols)) = Some ((db(n \<mapsto> ?cols))(n \<mapsto> ?cols ++ map_of cs))"
    using Cons.prems by (intro Cons.IH) (auto simp: image_iff)
  moreover have "?cols ++ map_of cs = cols ++ map_of (e # cs)" using Cons.prems(2) by (intro map_add_Cons) auto
  ultimately show ?case by (simp only: list.map exec_step fun_upd_upd)
qed (auto simp: fun_upd_idem)

lemma exec_drops:
  "db n = Some cols \<Longrightarrow> distinct ds \<Longrightarrow> \<forall>c\<in>set ds. cols c \<noteq> None \<Longrightarrow>
    execAll allow (map (SDropColumn n) ds) db = Some (db(n \<mapsto> (\<lambda>c. if c \<in> set ds then None else cols c)))"
proof (induction ds arbitrary: db cols)
  case (Cons d ds)
  let ?cols = "cols(d := None)"
  have "execStatement allow (SDropColumn n d) db = Some (db(n \<mapsto> ?cols))"
    using Cons.prems by (auto simp: execStatement_def)
  moreover have "execAll allow (map (SDropColumn n) ds) (db(n \<mapsto> ?cols)) =
      Some ((db(n \<mapsto> ?cols))(n \<mapsto> (\<lambda>c. if c \<in> set ds then None else ?cols c)))"
    using Cons.prems by (intro Cons.IH) auto
  moreover have "(\<lambda>c. if c \<in> set ds then None else ?cols c) = (\<lambda>c. if c \<in> set (d # ds) then None else cols c)" by auto
  ultimately show ?case by (simp only: list.map exec_step fun_upd_upd)
qed (auto simp: fun_upd_idem)

lemma exec_alters:
  "db n = Some cols \<Longrightarrow> distinct (map fst cs) \<Longrightarrow> \<forall>c\<in>fst ` set cs. cols c \<noteq> None \<Longrightarrow> \<forall>s. allow s \<Longrightarrow>
    execAll allow (map (\<lambda>e. SAlterType n (fst e) (snd e)) cs) db = Some (db(n \<mapsto> cols ++ map_of cs))"
proof (induction cs arbitrary: db cols)
  case (Cons e cs)
  let ?cols = "cols(fst e \<mapsto> snd e)"
  have "execStatement allow (SAlterType n (fst e) (snd e)) db = Some (db(n \<mapsto> ?cols))"
    using Cons.prems by (auto simp: execStatement_def)
  moreover have "execAll allow (map (\<lambda>e. SAlterType n (fst e) (snd e)) cs) (db(n \<mapsto> ?cols)) = Some ((db(n \<mapsto> ?cols))(n \<mapsto> ?cols ++ map_of cs))"
    using Cons.prems by (intro Cons.IH) auto
  moreover have "?cols ++ map_of cs = cols ++ map_of (e # cs)" using Cons.prems(2) by (intro map_add_Cons) auto
  ultimately show ?case by (simp only: list.map exec_step fun_upd_upd)
qed (auto simp: fun_upd_idem)

section \<open>A plan reaches its target\<close>

definition keyed :: "DataModelTable \<Rightarrow> bool" where
  "keyed t \<longleftrightarrow> distinct (map fst (columnMap t)) \<and> (\<forall>c\<in>fst ` set (columnMap t). map_of reservedColumns c = None)"

lemma wfTable_keyed: "wfTable t \<Longrightarrow> keyed t"
proof -
  assume wf: "wfTable t"
  have "fst ` set reservedColumns = set RESERVED" using reserved_names(1) by (metis set_map)
  moreover have "map fst (columnMap t) = map ic_name (dt_columns t)" using wf by (simp add: columnMap_wf comp_def)
  moreover from this have "fst ` set (columnMap t) = ic_name ` set (dt_columns t)" by (metis set_map)
  ultimately show ?thesis using wf by (auto simp: keyed_def wfTable_def list_all_iff map_of_eq_None_iff)
qed

lemma columnsOf_at: "keyed t \<Longrightarrow> c \<in> fst ` set (columnMap t) \<Longrightarrow> columnsOf t c = map_option (\<lambda>col. pg (ic_type col)) (map_of (columnMap t) c)"
  by (auto simp: keyed_def columnsOf_def)

lemma pg_inject: "pg a = pg b \<longleftrightarrow> a = b"
  by (cases a; cases b) simp_all

definition addedColumns :: "DataModelTable \<Rightarrow> DataModelTable \<Rightarrow> (jstr \<times> jstr) list" where
  "addedColumns ft tt = map (\<lambda>(c, col). (c, pg (ic_type col))) (filter (\<lambda>(c, col). map_of (columnMap ft) c = None) (columnMap tt))"

definition droppedColumns :: "DataModelTable \<Rightarrow> DataModelTable \<Rightarrow> jstr list" where
  "droppedColumns ft tt = map fst (filter (\<lambda>(c, col). map_of (columnMap tt) c = None) (columnMap ft))"

definition changedColumns :: "DataModelTable \<Rightarrow> DataModelTable \<Rightarrow> (jstr \<times> jstr) list" where
  "changedColumns ft tt = map (\<lambda>(c, col). (c, pg (ic_type col)))
     (filter (\<lambda>(c, col). \<exists>old. map_of (columnMap ft) c = Some old \<and> ic_type old \<noteq> ic_type col) (columnMap tt))"

lemma statements_of_columns:
  "map fst (columnSteps n ft tt) = map (\<lambda>e. SAddColumn n (fst e) (snd e)) (addedColumns ft tt) @
     map (SDropColumn n) (droppedColumns ft tt) @ map (\<lambda>e. SAlterType n (fst e) (snd e)) (changedColumns ft tt)"
proof -
  have adds: "map fst [addStep n col c. (col, c) \<leftarrow> xs, P col] = map (\<lambda>e. SAddColumn n (fst e) (snd e)) (map (\<lambda>(c, col). (c, pg (ic_type col))) (filter (\<lambda>(c, col). P c) xs))"
    for xs P by (induction xs) (auto simp: addStep_def)
  have drops: "map fst [dropStep n col. (col, c) \<leftarrow> xs, P col] = map (SDropColumn n) (map fst (filter (\<lambda>(c, col). P c) xs))"
    for xs :: "(jstr \<times> InferredColumn) list" and P by (induction xs) (auto simp: dropStep_def)
  have alters: "map fst (concat (map (\<lambda>(col, toCol). case M col of
          Some fromCol \<Rightarrow> if ic_type fromCol \<noteq> ic_type toCol then [alterStep n col fromCol toCol] else [] | None \<Rightarrow> []) xs)) =
      map (\<lambda>e. SAlterType n (fst e) (snd e)) (map (\<lambda>(c, col). (c, pg (ic_type col))) (filter (\<lambda>(c, col). \<exists>old. M c = Some old \<and> ic_type old \<noteq> ic_type col) xs))"
    for xs M by (induction xs) (auto simp: alterStep_def split: option.splits)
  show ?thesis unfolding columnSteps_def Let_def map_append adds drops alters addedColumns_def droppedColumns_def changedColumns_def ..
qed

lemma map_of_filter_type:
  "distinct (map fst xs) \<Longrightarrow> map_of (map (\<lambda>(c, col). (c, pg (ic_type col))) (filter (\<lambda>(c, col). P c col) xs)) c =
    (case map_of xs c of Some col \<Rightarrow> if P c col then Some (pg (ic_type col)) else None | None \<Rightarrow> None)"
proof (induction xs)
  case (Cons e xs)
  then show ?case
    by (cases e) (auto simp: map_of_eq_None_iff image_iff split: option.splits dest: map_of_SomeD)
qed simp

lemma columns_reach_target:
  assumes "keyed ft" "keyed tt" "db n = Some (columnsOf ft)" "\<forall>s. allow s"
  shows "execAll allow (map fst (columnSteps n ft tt)) db = Some (db(n \<mapsto> columnsOf tt))"
proof -
  let ?F = "map_of (columnMap ft)" and ?T = "map_of (columnMap tt)"
  let ?A = "addedColumns ft tt" and ?D = "droppedColumns ft tt" and ?C = "changedColumns ft tt"
  have dist: "distinct (map fst (columnMap ft))" "distinct (map fst (columnMap tt))" using assms by (simp_all add: keyed_def)
  have A: "map_of ?A c = (case ?T c of Some col \<Rightarrow> if ?F c = None then Some (pg (ic_type col)) else None | None \<Rightarrow> None)" for c
    using map_of_filter_type [OF dist(2), of "\<lambda>c col. ?F c = None"] by (simp add: addedColumns_def)
  have C: "map_of ?C c = (case ?T c of Some col \<Rightarrow> if \<exists>old. ?F c = Some old \<and> ic_type old \<noteq> ic_type col then Some (pg (ic_type col)) else None | None \<Rightarrow> None)" for c
    using map_of_filter_type [OF dist(2), of "\<lambda>c col. \<exists>old. ?F c = Some old \<and> ic_type old \<noteq> ic_type col"] by (simp add: changedColumns_def)
  have D: "c \<in> set ?D \<longleftrightarrow> ?F c \<noteq> None \<and> ?T c = None" for c
    by (force simp: droppedColumns_def map_of_eq_None_iff image_iff)
  have distinct_parts: "distinct (map fst ?A)" "distinct ?D" "distinct (map fst ?C)"
    using dist by (auto simp: addedColumns_def droppedColumns_def changedColumns_def comp_def case_prod_beta distinct_map_filter)
  have res: "?F c \<noteq> None \<Longrightarrow> map_of reservedColumns c = None" "?T c \<noteq> None \<Longrightarrow> map_of reservedColumns c = None" for c
    using assms(1,2) by (auto simp: keyed_def map_of_eq_None_iff)
  let ?c1 = "columnsOf ft ++ map_of ?A"
  have "\<forall>c\<in>fst ` set ?A. columnsOf ft c = None"
  proof
    fix c assume "c \<in> fst ` set ?A"
    then have "map_of ?A c \<noteq> None" by (simp add: map_of_eq_None_iff)
    with A [of c] have "?F c = None" "?T c \<noteq> None" by (auto split: option.splits if_splits)
    with res(2) show "columnsOf ft c = None" by (simp add: columnsOf_def)
  qed
  then have 1: "execAll allow (map (\<lambda>e. SAddColumn n (fst e) (snd e)) ?A) db = Some (db(n \<mapsto> ?c1))"
    using exec_adds assms(3) distinct_parts(1) by blast
  let ?c2 = "\<lambda>c. if c \<in> set ?D then None else ?c1 c"
  have "\<forall>c\<in>set ?D. ?c1 c \<noteq> None" using D res by (auto simp: columnsOf_def map_add_def split: option.splits)
  then have 2: "execAll allow (map (SDropColumn n) ?D) (db(n \<mapsto> ?c1)) = Some (db(n \<mapsto> ?c2))"
    using exec_drops [of "db(n \<mapsto> ?c1)" n ?c1 ?D allow] distinct_parts(2) by simp
  have "\<forall>c\<in>fst ` set ?C. ?c2 c \<noteq> None"
  proof
    fix c assume "c \<in> fst ` set ?C"
    then have "map_of ?C c \<noteq> None" by (simp add: map_of_eq_None_iff)
    with C [of c] have "?F c \<noteq> None" "?T c \<noteq> None" by (auto split: option.splits if_splits)
    with D [of c] res(1) show "?c2 c \<noteq> None" by (auto simp: columnsOf_def map_add_def split: option.splits)
  qed
  then have 3: "execAll allow (map (\<lambda>e. SAlterType n (fst e) (snd e)) ?C) (db(n \<mapsto> ?c2)) = Some (db(n \<mapsto> ?c2 ++ map_of ?C))"
    using exec_alters [of "db(n \<mapsto> ?c2)" n ?c2 ?C allow] distinct_parts(3) assms(4) by simp
  have "?c2 ++ map_of ?C = columnsOf tt"
  proof
    fix c
    show "(?c2 ++ map_of ?C) c = columnsOf tt c"
    proof (cases "?F c")
      case None
      then have "map_of ?C c = None" "c \<notin> set ?D" by (simp_all add: C D split: option.split)
      with None res(2) [of c] show ?thesis by (cases "?T c") (simp_all add: map_add_def A columnsOf_def split: option.split)
    next
      case (Some old)
      then have "map_of ?A c = None" "map_of reservedColumns c = None" using res(1) [of c] by (simp_all add: A split: option.split)
      with Some show ?thesis by (cases "?T c") (simp_all add: map_add_def C D columnsOf_def)
    qed
  qed
  with 1 2 3 show ?thesis by (simp add: statements_of_columns execAll_append)
qed

lemma shared_reach_target:
  assumes "distinct (map fst xs)" "\<forall>(n, tt)\<in>set xs. keyed tt" "\<forall>(n, tt)\<in>set xs. \<forall>ft. map_of F n = Some ft \<longrightarrow> keyed ft \<and> db n = Some (columnsOf ft)"
    and "\<forall>s. allow s"
  shows "execAll allow (map fst (sharedSteps F xs)) db =
    Some (\<lambda>n. if map_of F n \<noteq> None \<and> map_of xs n \<noteq> None then map_option columnsOf (map_of xs n) else db n)"
  using assms(1-3)
proof (induction xs arbitrary: db)
  case (Cons e xs)
  obtain n tt where e: "e = (n, tt)" by (cases e)
  have steps: "map fst (sharedSteps F ((n, tt) # xs)) = (case map_of F n of Some ft \<Rightarrow> map fst (columnSteps n ft tt) | None \<Rightarrow> []) @ map fst (sharedSteps F xs)"
    by (simp add: sharedSteps_def split: option.split)
  have n: "map_of xs n = None" using Cons.prems(1) e by (simp add: map_of_eq_None_iff)
  show ?case
  proof (cases "map_of F n")
    case None
    have "execAll allow (map fst (sharedSteps F xs)) db =
        Some (\<lambda>n. if map_of F n \<noteq> None \<and> map_of xs n \<noteq> None then map_option columnsOf (map_of xs n) else db n)"
      using Cons.prems by (intro Cons.IH) auto
    with None e show ?thesis by (auto simp: steps fun_eq_iff)
  next
    case (Some ft)
    let ?db = "db(n \<mapsto> columnsOf tt)"
    have ft: "keyed ft" "db n = Some (columnsOf ft)" "keyed tt" using Cons.prems(2,3) e Some by auto
    have "execAll allow (map fst (sharedSteps F xs)) ?db =
        Some (\<lambda>n. if map_of F n \<noteq> None \<and> map_of xs n \<noteq> None then map_option columnsOf (map_of xs n) else ?db n)"
      using Cons.prems e by (intro Cons.IH) force+
    with columns_reach_target [of ft tt db n allow, OF ft(1,3,2) assms(4)] Some e n show ?thesis
      by (auto simp: steps execAll_append fun_eq_iff)
  qed
qed (simp add: sharedSteps_def)

text \<open>The parts of a plan.\<close>

abbreviation createdIn :: "DataModel \<Rightarrow> DataModel \<Rightarrow> (jstr \<times> DataModelTable) list" where
  "createdIn from to \<equiv> filter (\<lambda>(n, t). map_of (tableMap from) n = None) (tableMap to)"

abbreviation droppedIn :: "DataModel \<Rightarrow> DataModel \<Rightarrow> jstr list" where
  "droppedIn from to \<equiv> map fst (filter (\<lambda>(n, t). map_of (tableMap to) n = None) (tableMap from))"

lemma plan_parts:
  "mp_newTables (diffDataModels from to) = map snd (createdIn from to)"
  "mp_statements (diffDataModels from to) = map SDropTable (droppedIn from to) @ map fst (sharedSteps (tableMap from) (tableMap to))"
  "mp_changes (diffDataModels from to) = map (\<lambda>(n, t). createChange n t) (createdIn from to) @ map dropChange (droppedIn from to) @
     map snd (sharedSteps (tableMap from) (tableMap to))"
  "mp_hasDestructive (diffDataModels from to) = list_ex (\<lambda>c. mc_safety c \<noteq> Safe) (mp_changes (diffDataModels from to))"
proof -
  have created: "[(n, t). (n, t) \<leftarrow> xs, P n] = filter (\<lambda>(n, t). P n) xs" for xs :: "(jstr \<times> DataModelTable) list" and P by (induction xs) auto
  have dropped: "[n. (n, t) \<leftarrow> xs, P n] = map fst (filter (\<lambda>(n, t). P n) xs)" for xs :: "(jstr \<times> DataModelTable) list" and P by (induction xs) auto
  show "mp_newTables (diffDataModels from to) = map snd (createdIn from to)"
    "mp_statements (diffDataModels from to) = map SDropTable (droppedIn from to) @ map fst (sharedSteps (tableMap from) (tableMap to))"
    "mp_changes (diffDataModels from to) = map (\<lambda>(n, t). createChange n t) (createdIn from to) @ map dropChange (droppedIn from to) @
     map snd (sharedSteps (tableMap from) (tableMap to))"
    "mp_hasDestructive (diffDataModels from to) = list_ex (\<lambda>c. mc_safety c \<noteq> Safe) (mp_changes (diffDataModels from to))"
    unfolding diffDataModels_def Let_def MigrationPlan.select_convs created dropped by (rule refl)+
qed

lemma plan_reaches_target:
  assumes "wfModel from" "wfModel to" "\<forall>n\<in>tableNames from \<union> tableNames to. db n = schemaOf from n" "\<forall>s. allow s"
  shows "\<exists>db1 results db2. createTables (mp_newTables (diffDataModels from to)) db = (Inr results, db1) \<and>
    execAll allow (mp_statements (diffDataModels from to)) db1 = Some db2 \<and>
    (\<forall>n. db2 n = (if n \<in> tableNames from \<union> tableNames to then schemaOf to n else db n))"
proof -
  let ?F = "map_of (tableMap from)" and ?T = "map_of (tableMap to)" and ?C = "createdIn from to"
  have keys: "distinct (map fst (tableMap from))" "distinct (map fst (tableMap to))"
    and entry: "\<And>n t. (n, t) \<in> set (tableMap from) \<Longrightarrow> n = dt_name t \<and> wfTable t" "\<And>n t. (n, t) \<in> set (tableMap to) \<Longrightarrow> n = dt_name t \<and> wfTable t"
    using tableMap_keys [of wfTable "from"] tableMap_keys [of wfTable to] assms(1,2) by (auto simp: wfModel_def)
  have names: "map fst ?C = map dt_name (map snd ?C)" using entry(2) by (auto simp: case_prod_beta)
  have distinctC: "distinct (map fst ?C)" using keys(2) by (simp add: distinct_map_filter)
  have absent: "\<forall>t\<in>set (map snd ?C). db (dt_name t) = None"
  proof
    fix t assume "t \<in> set (map snd ?C)"
    then obtain n where n: "(n, t) \<in> set (tableMap to)" "?F n = None" by auto
    with entry(2) have "n = dt_name t" "n \<in> tableNames to" by (force simp: tableNames_def)+
    with n assms(3) show "db (dt_name t) = None" by (auto simp: schemaOf_def)
  qed
  define db1 where "db1 = db ++ map_of (map (\<lambda>t. (dt_name t, columnsOf t)) (map snd ?C))"
  have "list_all wfTable (map snd ?C)" using entry(2) by (auto simp: list_all_iff)
  moreover have "distinct (map dt_name (map snd ?C))" using names distinctC by metis
  ultimately have create: "createTables (map snd ?C) db = (Inr (map (\<lambda>t. (dt_name t, True)) (map snd ?C)), db1)"
    unfolding db1_def using absent by (intro create_all_new) blast+
  have db1: "db1 n = (if ?F n = None \<and> ?T n \<noteq> None then map_option columnsOf (?T n) else db n)" for n
  proof -
    have "map_of (map (\<lambda>t. (dt_name t, columnsOf t)) (map snd xs)) n = map_option columnsOf (map_of xs n)"
      if "\<forall>(n, t)\<in>set xs. n = dt_name t" for xs using that by (induction xs) auto
    moreover have "map_of (filter (\<lambda>(n, t). P n) xs) n = (if P n then map_of xs n else None)" for P and xs :: "(jstr \<times> DataModelTable) list"
      by (induction xs) auto
    ultimately have "map_of (map (\<lambda>t. (dt_name t, columnsOf t)) (map snd ?C)) n = (if ?F n = None then map_option columnsOf (?T n) else None)"
      using entry(2) by (auto simp: case_prod_beta)
    then show ?thesis by (simp add: db1_def map_add_def split: option.split)
  qed
  define db1' where "db1' = (\<lambda>n. if n \<in> set (droppedIn from to) then None else db1 n)"
  have drop: "execAll allow (map SDropTable (droppedIn from to)) db1 = Some db1'"
    by (simp only: exec_drop_tables db1'_def)
  have dropped: "n \<in> set (droppedIn from to) \<longleftrightarrow> ?F n \<noteq> None \<and> ?T n = None" for n
    by (force simp: map_of_eq_None_iff image_iff)
  have "\<forall>(n, tt)\<in>set (tableMap to). \<forall>ft. ?F n = Some ft \<longrightarrow> keyed ft \<and> db1' n = Some (columnsOf ft)"
  proof (intro ballI, clarify)
    fix n tt ft assume *: "(n, tt) \<in> set (tableMap to)" "?F n = Some ft"
    then have "?T n \<noteq> None" using weak_map_of_SomeI by fastforce
    moreover have "n \<in> tableNames to" using * by (force simp: tableNames_def)
    ultimately show "keyed ft \<and> db1' n = Some (columnsOf ft)"
      using * assms(3) entry(1) [of n ft] wfTable_keyed dropped by (auto simp: db1'_def db1 schemaOf_def dest: map_of_SomeD)
  qed
  moreover have "\<forall>(n, tt)\<in>set (tableMap to). keyed tt" using entry(2) wfTable_keyed by auto
  ultimately have shared: "execAll allow (map fst (sharedSteps (tableMap from) (tableMap to))) db1' =
      Some (\<lambda>n. if ?F n \<noteq> None \<and> ?T n \<noteq> None then map_option columnsOf (?T n) else db1' n)"
    using keys(2) assms(4) by (intro shared_reach_target) auto
  have "(if ?F n \<noteq> None \<and> ?T n \<noteq> None then map_option columnsOf (?T n) else db1' n) =
      (if n \<in> tableNames from \<union> tableNames to then schemaOf to n else db n)" for n
    by (cases "?F n"; cases "?T n")
      (auto simp: db1'_def dropped db1 schemaOf_def tableNames_def map_of_eq_None_iff dest: map_of_SomeD intro: rev_image_eqI)
  with create drop shared show ?thesis unfolding plan_parts by (auto simp: execAll_append)
qed

end
