(* ===== verification/MigrationUse.thy ===== *)
theory MigrationUse
  imports MigrationRules
begin

text \<open>
  Migrations in the service: a plan applied to the state it was made for, what no unforced call does, and two
  histories in which the snapshot of a blueprint stops describing its database.
\<close>

section \<open>Applying a plan where it was made\<close>

definition snapshotOf :: "Blueprint \<Rightarrow> DataModel" where
  "snapshotOf b = (case bp_generatedDataModel b of Some m \<Rightarrow> m | None \<Rightarrow> [])"

lemma get_after_putRun [simp]: "getBlueprint (putRun r run w) i user = getBlueprint w i user"
  by (simp add: getBlueprint_def putRun_def assertTeam_def split: option.split)


section \<open>Nothing is lost without force\<close>

datatype MigCall =
    MAnalyze jstr "jstr option" "jstr option" "jstr list" "BlueprintSheet list" "jstr option" jstr
  | MApprove jstr ApplicationModel "jstr option"
  | MGenerate jstr "jstr option" "jstr option"
  | MResync jstr "BlueprintSheet list" "jstr option" "jstr option"
  | MRemove jstr "jstr option"
  | MPlan jstr "jstr option" jstr
  | MApply "DdlStatement \<Rightarrow> bool" jstr bool "jstr option"

primrec migCall :: "(jstr \<Rightarrow> json option) \<Rightarrow> MigCall \<Rightarrow> MigrationWorld \<Rightarrow> MigrationWorld" where
  "migCall parseJson (MAnalyze teamId name projectId excludeSheets sheets userId newId) w =
     snd (analyze parseJson teamId name projectId excludeSheets sheets userId newId w)"
| "migCall parseJson (MApprove i application userId) w = snd (approve i application userId w)"
| "migCall parseJson (MGenerate i projectId userId) w = snd (generate i projectId userId w)"
| "migCall parseJson (MResync i sheets name userId) w = snd (resync parseJson i sheets name userId w)"
| "migCall parseJson (MRemove i userId) w = snd (removeBlueprint i userId w)"
| "migCall parseJson (MPlan i userId newId) w = snd (planMigration i userId newId w)"
| "migCall parseJson (MApply allow r force userId) w = snd (applyMigration allow r force userId w)"

inductive migStep :: "(jstr \<Rightarrow> json option) \<Rightarrow> MigrationWorld \<Rightarrow> MigrationWorld \<Rightarrow> bool" for parseJson where
  call: "migStep parseJson w (migCall parseJson c w)"

definition noRuns :: "MigrationWorld \<Rightarrow> bool" where
  "noRuns w \<longleftrightarrow> mw_runs w = Map.empty"

definition runsArePlans :: "MigrationWorld \<Rightarrow> bool" where
  "runsArePlans w \<longleftrightarrow> (\<forall>r run. mw_runs w r = Some run \<longrightarrow> (\<exists>from to. rn_plan run = diffDataModels from to))"

lemmas migrationHandlers = analyze_def approve_def generate_def resync_def removeBlueprint_def planMigration_def applyMigration_def
  failRun_def putRun_def putBlueprint_def putDb_def getRun_def Let_def

lemma call_keeps_plans:
  assumes "runsArePlans w"
  shows "runsArePlans (migCall parseJson c w)"
proof (cases c)
  case (MApply allow r force user)
  then show ?thesis using assms
    by (auto simp: runsArePlans_def migrationHandlers bindr_eq_Inr split: sum.splits prod.splits option.splits if_splits)
qed (use assms in \<open>auto simp: runsArePlans_def migrationHandlers split: sum.splits prod.splits option.splits if_splits\<close>)

lemma no_runs_are_plans: "noRuns w \<Longrightarrow> runsArePlans w"
  by (simp add: noRuns_def runsArePlans_def)

interpretation migrations: step_system noRuns "migStep parseJson" runsArePlans for parseJson
  by unfold_locales (auto elim!: migStep.cases intro: call_keeps_plans no_runs_are_plans)

text \<open>Tables and columns that are there stay, with their types.\<close>

definition grows :: "Db \<Rightarrow> Db \<Rightarrow> bool" where
  "grows db db' \<longleftrightarrow> (\<forall>n cols. db n = Some cols \<longrightarrow> (\<exists>cols'. db' n = Some cols' \<and> cols \<subseteq>\<^sub>m cols'))"

lemma grows_refl [simp]: "grows db db"
  by (simp add: grows_def)

lemma grows_trans: "grows a b \<Longrightarrow> grows b c \<Longrightarrow> grows a c"
  unfolding grows_def by (meson map_le_trans)

lemma create_grows: "grows db (snd (createRelationalTable n cols db))"
  by (auto simp: createRelationalTable_def grows_def split: sum.splits)

lemma creates_grow: "grows db (snd (createTables ts db))"
proof (induction ts arbitrary: db)
  case (Cons t ts)
  show ?case using create_grows [of db "dt_name t" "map (\<lambda>c. (ic_name c, pg (ic_type c))) (dt_columns t)"] Cons
    by (auto split: prod.splits sum.splits) (metis grows_trans snd_conv)+
qed simp

lemma adds_grow:
  "\<forall>s\<in>set ss. \<exists>t c ty. s = SAddColumn t c ty \<Longrightarrow> execAll allow ss db = Some db' \<Longrightarrow> grows db db'"
proof (induction ss arbitrary: db)
  case (Cons s ss)
  then obtain t c ty db1 where s: "s = SAddColumn t c ty" "execStatement allow s db = Some db1" "execAll allow ss db1 = Some db'"
    by (auto split: option.splits)
  then have "grows db db1" by (auto simp: execStatement_def grows_def map_le_def split: option.splits if_splits)
  with Cons s(3) show ?case using grows_trans by fastforce
qed simp

lemma calm_plan_only_adds:
  assumes "\<not> mp_hasDestructive (diffDataModels from to)" "s \<in> set (mp_statements (diffDataModels from to))"
  shows "\<exists>t c ty. s = SAddColumn t c ty"
proof -
  have safe: "\<And>c. c \<in> set (mp_changes (diffDataModels from to)) \<Longrightarrow> mc_safety c = Safe"
    using assms(1) by (auto simp: plan_parts(4) list_ex_iff)
  have columns: "\<exists>t c ty. fst st = SAddColumn t c ty" if "st \<in> set (columnSteps n ft tt)" "mc_safety (snd st) = Safe" for st n ft tt
    using that by (auto simp: columnSteps_def Let_def addStep_def dropStep_def alterStep_def split: option.splits if_splits)
  have steps: "\<And>st. st \<in> set (sharedSteps F T) \<Longrightarrow> mc_safety (snd st) = Safe \<Longrightarrow> \<exists>t c ty. fst st = SAddColumn t c ty" for F T
    using columns by (fastforce simp: sharedSteps_def split: option.splits)
  from assms(2) consider n where "n \<in> set (droppedIn from to)" | st where "st \<in> set (sharedSteps (tableMap from) (tableMap to))" "s = fst st"
    unfolding plan_parts(2) set_append set_map by blast
  then show ?thesis
  proof cases
    case 1
    then have "dropChange n \<in> set (mp_changes (diffDataModels from to))" unfolding plan_parts(3) set_append set_map by blast
    from safe [OF this] show ?thesis by (simp add: dropChange_def)
  next
    case 2
    then have "snd st \<in> set (mp_changes (diffDataModels from to))" unfolding plan_parts(3) set_append set_map by blast
    from safe [OF this] steps [OF 2(1)] 2(2) show ?thesis by simp
  qed
qed

primrec unforced :: "MigCall \<Rightarrow> bool" where
  "unforced (MAnalyze teamId name projectId excludeSheets sheets userId newId) = True"
| "unforced (MApprove i application userId) = True"
| "unforced (MGenerate i projectId userId) = True"
| "unforced (MResync i sheets name userId) = True"
| "unforced (MRemove i userId) = True"
| "unforced (MPlan i userId newId) = True"
| "unforced (MApply allow r force userId) = (\<not> force)"

lemma unforced_grows:
  assumes "runsArePlans w" "unforced c"
  shows "grows (mw_dbs w p) (mw_dbs (migCall parseJson c w) p)"
proof (cases c)
  case (MGenerate i projectId user)
  then show ?thesis using creates_grow
    by (auto simp: migrationHandlers split: sum.splits prod.splits option.splits if_splits) (metis snd_conv)+
next
  case (MApply allow r force user)
  have "grows db db1" if "createTables ts db = (res, db1)" for ts db res db1 using creates_grow [of db ts] that by simp
  moreover have "grows db1 db2" if "mw_runs w r = Some run" "\<not> mp_hasDestructive (rn_plan run)"
    "runStatements allow (mp_statements (rn_plan run)) db1 = (res, db2)" for run db1 res db2
    using that assms(1) adds_grow calm_plan_only_adds
    unfolding runStatements_def runsArePlans_def by (fastforce split: option.splits)
  ultimately show ?thesis using MApply assms(2)
    by (auto simp: migrationHandlers bindr_eq_Inr split: sum.splits prod.splits option.splits if_splits) (blast intro: grows_trans)+
qed (auto simp: migrationHandlers split: sum.splits prod.splits option.splits if_splits)

lemma unforced_calls_grow:
  "runsArePlans w \<Longrightarrow> list_all unforced calls \<Longrightarrow> grows (mw_dbs w p) (mw_dbs (foldl (\<lambda>w c. migCall parseJson c w) w calls) p)"
proof (induction calls arbitrary: w)
  case (Cons c calls)
  then have "grows (mw_dbs (migCall parseJson c w) p) (mw_dbs (foldl (\<lambda>w c. migCall parseJson c w) w (c # calls)) p)"
    using call_keeps_plans by simp
  moreover have "grows (mw_dbs w p) (mw_dbs (migCall parseJson c w) p)" using Cons.prems by (intro unforced_grows) simp_all
  ultimately show ?case by (rule grows_trans [rotated])
qed simp

text \<open>C17.  After any history, calls without force lose no table and no column, and change no column's type, in any
  project database: not by plans applied late, failed or repeated, and not by generating again.\<close>

theorem nothing_is_lost_without_force:
  assumes "noRuns w0" "(migStep parseJson)\<^sup>*\<^sup>* w0 w" "list_all unforced calls" "mw_dbs w p n = Some cols"
  shows "\<exists>cols'. mw_dbs (foldl (\<lambda>w c. migCall parseJson c w) w calls) p n = Some cols' \<and> cols \<subseteq>\<^sub>m cols'"
  using unforced_calls_grow [OF migrations.reachable_inv [OF assms(1,2)] assms(3)] assms(4) by (auto simp: grows_def)

section \<open>Histories that run\<close>

definition sampleSheet :: "string list \<Rightarrow> BlueprintSheet" where
  "sampleSheet headers = \<lparr>bs_name = js ''t'', bs_headers = map js headers, bs_rows = []\<rparr>"

definition sampleColumn :: "string \<Rightarrow> InferredColumn" where
  "sampleColumn c = \<lparr>ic_name = js c, ic_originalName = js c, ic_type = TText, ic_nullable = True, ic_sampleValues = []\<rparr>"

definition sampleModel :: "string list \<Rightarrow> DataModel" where
  "sampleModel headers = [\<lparr>dt_name = js ''t'', dt_label = js ''t'', dt_columns = map sampleColumn headers\<rparr>]"

lemma sample_models:
  "buildDataModel (\<lambda>_. None) [] [sampleSheet [''a'']] = sampleModel [''a'']"
  "buildDataModel (\<lambda>_. None) [] [sampleSheet [''a'', ''b'']] = sampleModel [''a'', ''b'']"
  by (simp_all add: buildDataModel_def buildTable_def sampleSheet_def sampleModel_def sampleColumn_def inferSchema_def
      sanitizeColumnName_def stripUnderscores_def js_trim_def is_js_space_def js_lower_unit_def isNameChar_def is_digit_def
      dedupeColumnNames_def inferColumnType_def cellAt_def RESERVED_def List.map_filter_def upt_rec Let_def)

definition sI :: jstr where "sI = js ''i''"
definition sP :: jstr where "sP = js ''p''"
definition sT :: jstr where "sT = js ''t''"
definition sR :: jstr where "sR = js ''r''"
definition sM :: jstr where "sM = js ''m''"
definition sU :: jstr where "sU = js ''u''"

lemma sample_ids [simp]: "sP \<noteq> []" "sU \<noteq> []"
  by (simp_all add: sP_def sU_def)

definition sampleUser :: "jstr option" where "sampleUser = Some (sU)"

definition sampleBlueprint :: Blueprint where
  "sampleBlueprint = \<lparr>bp_teamId = sM, bp_projectId = Some sP, bp_name = js ''n'', bp_status = Approved, bp_domain = Generic,
     bp_dataModel = sampleModel [''a''], bp_businessModel = buildBusinessModel [] Generic,
     bp_applicationModel = buildApplicationModel [] Generic None, bp_generatedDataModel = None, bp_createdBy = None, bp_versions = []\<rparr>"

definition sampleMigration :: MigrationWorld where
  "sampleMigration = \<lparr>mw_members = [(sM, sU)], mw_blueprints = [sI \<mapsto> sampleBlueprint], mw_runs = Map.empty,
     mw_dbs = (\<lambda>_. Map.empty)\<rparr>"

lemma sample_created:
  "createTables (sampleModel [''a'']) Map.empty = (Inr [(sT, True)], [sT \<mapsto> map_of (reservedColumns @ [(js ''a'', js ''TEXT'')])])"
  "db sT \<noteq> None \<Longrightarrow> createTables (sampleModel [''a'', ''b'']) db = (Inr [(sT, False)], db)"
  by (simp_all add: sampleModel_def sampleColumn_def createRelationalTable_def validNames_def VALID_COLLECTION_RE_def is_alpha_def
      reservedColumns_def sT_def)

lemma sample_plan:
  "diffDataModels [] (sampleModel [''a'']) = \<lparr>mp_changes = [createChange sT (hd (sampleModel [''a'']))], mp_statements = [],
     mp_newTables = sampleModel [''a''], mp_hasDestructive = False\<rparr>"
  "mp_changes (diffDataModels (sampleModel [''a'', ''b'']) (sampleModel [''a'', ''b''])) = []"
  by (simp_all add: diffDataModels_def tableMap_def setKey_def sampleModel_def sharedSteps_def createChange_def columnSteps_def
      columnMap_def sampleColumn_def sT_def Let_def)

lemma sample_access [simp]:
  "mw_blueprints w i = Some b \<Longrightarrow> bp_teamId b = sM \<Longrightarrow> mw_members w = [(sM, sU)] \<Longrightarrow> getBlueprint w i sampleUser = Inr b"
  by (simp add: getBlueprint_def assertTeam_def sampleUser_def)

lemma sample_world [simp]:
  "mw_blueprints sampleMigration sI = Some sampleBlueprint" "mw_members sampleMigration = [(sM, sU)]"
  "mw_dbs sampleMigration p = Map.empty" "bp_teamId sampleBlueprint = sM" "bp_projectId sampleBlueprint = Some sP"
  "bp_status sampleBlueprint = Approved" "bp_dataModel sampleBlueprint = sampleModel [''a'']" "bp_generatedDataModel sampleBlueprint = None"
  "sampleModel hs \<noteq> []"
  by (simp_all add: sampleMigration_def sampleBlueprint_def sampleModel_def)

definition sampleRun :: MigrationRun where
  "sampleRun = \<lparr>rn_blueprintId = sI, rn_projectId = sP, rn_status = RunPending,
     rn_plan = diffDataModels [] (sampleModel [''a'']), rn_appliedCount = 0\<rparr>"

abbreviation sampleTable :: Columns where
  "sampleTable \<equiv> map_of (reservedColumns @ [(js ''a'', js ''TEXT'')])"

lemma sample_planned: "planMigration sI sampleUser sR sampleMigration = (Inr sampleRun, putRun sR sampleRun sampleMigration)"
  by (simp add: planMigration_def sampleRun_def Let_def)

lemma sample_resynced:
  assumes "getBlueprint w sI sampleUser = Inr b"
  shows "\<exists>b'. resync (\<lambda>_. None) sI [sampleSheet [''a'', ''b'']] None sampleUser w = (Inr (), putBlueprint sI b' w) \<and>
    bp_dataModel b' = sampleModel [''a'', ''b''] \<and> bp_generatedDataModel b' = bp_generatedDataModel b \<and>
    bp_projectId b' = bp_projectId b \<and> bp_teamId b' = bp_teamId b \<and>
    bp_status b' = (if bp_generatedDataModel b = None then Draft else Approved)"
  unfolding resync_def assms Let_def sample_models(2)
  by (rule exI [of _ "b\<lparr>bp_domain := detectDomain (sampleModel [''a'', ''b'']), bp_dataModel := sampleModel [''a'', ''b''],
        bp_businessModel := buildBusinessModel (sampleModel [''a'', ''b'']) (detectDomain (sampleModel [''a'', ''b''])),
        bp_applicationModel := buildApplicationModel (sampleModel [''a'', ''b'']) (detectDomain (sampleModel [''a'', ''b''])) (Some (bp_name b)),
        bp_status := (if bp_generatedDataModel b \<noteq> None then Approved else Draft)\<rparr>"]) simp

text \<open>A plan applied after the data model has moved on: the snapshot claims the new model, the database has the old one,
  and no further plan will tell them apart.\<close>

lemma snapshot_runs_ahead:
  "let w1 = snd (planMigration sI sampleUser sR sampleMigration);
       w2 = snd (resync (\<lambda>_. None) sI [sampleSheet [''a'', ''b'']] None sampleUser w1);
       w3 = snd (applyMigration (\<lambda>_. True) sR False sampleUser w2)
   in map_option bp_generatedDataModel (mw_blueprints w3 sI) = Some (Some (sampleModel [''a'', ''b''])) \<and>
      mw_dbs w3 sP sT = Some sampleTable \<and>
      mp_changes (diffDataModels (sampleModel [''a'', ''b'']) (sampleModel [''a'', ''b''])) = []"
proof -
  let ?w1 = "putRun sR sampleRun sampleMigration"
  have "getBlueprint ?w1 sI sampleUser = Inr sampleBlueprint" by simp
  from sample_resynced [OF this] obtain b where
    resynced: "resync (\<lambda>_. None) sI [sampleSheet [''a'', ''b'']] None sampleUser ?w1 = (Inr (), putBlueprint sI b ?w1)"
    and b: "bp_dataModel b = sampleModel [''a'', ''b'']" "bp_teamId b = sM" by auto
  let ?w2 = "putBlueprint sI b ?w1"
  have w2: "getBlueprint ?w2 sI sampleUser = Inr b" "mw_runs ?w2 sR = Some sampleRun" "mw_dbs ?w2 = mw_dbs sampleMigration"
    using b by (simp_all add: putBlueprint_def putRun_def)
  then have "getRun ?w2 sR sampleUser = Inr sampleRun" by (simp add: getRun_def sampleRun_def)
  then have "snd (applyMigration (\<lambda>_. True) sR False sampleUser ?w2) =
      putRun sR (sampleRun\<lparr>rn_status := RunApplied, rn_appliedCount := 1\<rparr>)
        (putBlueprint sI (b\<lparr>bp_generatedDataModel := Some (sampleModel [''a'', ''b''])\<rparr>) (putDb sP [sT \<mapsto> sampleTable] ?w2))"
    using w2 b sample_created(1) by (simp add: applyMigration_def sampleRun_def sample_plan runStatements_def Let_def)
  then show ?thesis unfolding Let_def sample_planned snd_conv resynced
    by (simp add: sample_plan putRun_def putBlueprint_def putDb_def)
qed

text \<open>Generating again after a change: the table exists and is skipped, and the snapshot is overwritten all the same.\<close>

lemma generate_skips_changes:
  "let w1 = snd (generate sI None sampleUser sampleMigration);
       w2 = snd (resync (\<lambda>_. None) sI [sampleSheet [''a'', ''b'']] None sampleUser w1);
       r3 = generate sI None sampleUser w2
   in fst r3 = Inr [(sT, False)] \<and>
      map_option bp_generatedDataModel (mw_blueprints (snd r3) sI) = Some (Some (sampleModel [''a'', ''b''])) \<and>
      mw_dbs (snd r3) sP sT = Some sampleTable"
proof -
  let ?b1 = "sampleBlueprint\<lparr>bp_projectId := Some sP, bp_status := Generated, bp_generatedDataModel := Some (sampleModel [''a''])\<rparr>"
  let ?w1 = "putBlueprint sI ?b1 (putDb sP [sT \<mapsto> sampleTable] sampleMigration)"
  have generated: "snd (generate sI None sampleUser sampleMigration) = ?w1"
    using sample_created(1) by (simp add: generate_def Let_def)
  have "getBlueprint ?w1 sI sampleUser = Inr ?b1" by (simp add: putBlueprint_def putDb_def)
  from sample_resynced [OF this] obtain b where
    resynced: "resync (\<lambda>_. None) sI [sampleSheet [''a'', ''b'']] None sampleUser ?w1 = (Inr (), putBlueprint sI b ?w1)"
    and b: "bp_dataModel b = sampleModel [''a'', ''b'']" "bp_teamId b = sM" "bp_projectId b = Some sP" "bp_status b = Approved" by auto
  let ?w2 = "putBlueprint sI b ?w1"
  have w2: "getBlueprint ?w2 sI sampleUser = Inr b" "mw_dbs ?w2 sP = [sT \<mapsto> sampleTable]"
    using b by (simp_all add: putBlueprint_def putDb_def)
  then have "generate sI None sampleUser ?w2 = (Inr [(sT, False)],
      putBlueprint sI (b\<lparr>bp_projectId := Some sP, bp_status := Generated, bp_generatedDataModel := Some (sampleModel [''a'', ''b''])\<rparr>)
        (putDb sP [sT \<mapsto> sampleTable] ?w2))"
    using b sample_created(2) [of "[sT \<mapsto> sampleTable]"] by (simp add: generate_def Let_def)
  then show ?thesis unfolding Let_def generated resynced snd_conv by (simp add: putBlueprint_def putDb_def)
qed

section \<open>Witnesses\<close>


abbreviation sampleCalls :: "MigCall list" where
  "sampleCalls \<equiv> [MPlan sI sampleUser sR, MApply (\<lambda>_. True) sR False sampleUser]"

theorem nothing_is_lost_without_force_witness:
  "\<exists>cols. mw_dbs (foldl (\<lambda>w c. migCall (\<lambda>_. None) c w) (migCall (\<lambda>_. None) (MGenerate sI None sampleUser) sampleMigration) sampleCalls)
    sP sT = Some cols \<and> sampleTable \<subseteq>\<^sub>m cols"
proof -
  let ?w = "migCall (\<lambda>_. None) (MGenerate sI None sampleUser) sampleMigration"
  have "noRuns sampleMigration" by (simp add: noRuns_def sampleMigration_def)
  moreover have "(migStep (\<lambda>_. None))\<^sup>*\<^sup>* sampleMigration ?w" by (rule r_into_rtranclp) (rule migStep.call)
  moreover have "list_all unforced sampleCalls" by simp
  moreover have "mw_dbs ?w sP sT = Some sampleTable"
    using sample_created(1) by (simp add: generate_def putBlueprint_def putDb_def Let_def)
  ultimately show ?thesis by (rule nothing_is_lost_without_force)
qed

end
