(* ===== verification/BackupCrypto.thy ===== *)
theory BackupCrypto
  imports Totp
begin

unbundle bit_operations_syntax

text \<open>
  Encrypted backups: \<open>modules/projects/backups/backup-crypto.ts\<close> and its stand-alone twin
  \<open>scripts/backup-decrypt.mjs\<close>.

  AES-256-GCM is a stream cipher with a tag: a byte is combined with the key stream at its position, and
  the tag is computed from the additional data and the cipher text.  The key stream, the tag and SHA-256 are
  arguments (\<open>Gcm\<close>); \<open>GcmObject\<close> is the state of a cipher or decipher object of \<open>crypto\<close>.  A transform stream is
  its state with one function per callback; what a callback pushes is its result.  Random bytes and base64
  decoding are arguments.
\<close>

section \<open>The library's cipher objects\<close>

record Gcm =
  gcm_stream :: "bytes \<Rightarrow> bytes \<Rightarrow> nat \<Rightarrow> 8 word"
  gcm_tag :: "bytes \<Rightarrow> bytes \<Rightarrow> bytes \<Rightarrow> bytes \<Rightarrow> bytes"
  gcm_sha256 :: "bytes \<Rightarrow> bytes"

record GcmObject =
  go_key :: bytes
  go_iv :: bytes
  go_aad :: bytes
  go_ciphertext :: bytes

fun crypt :: "Gcm \<Rightarrow> bytes \<Rightarrow> bytes \<Rightarrow> nat \<Rightarrow> bytes \<Rightarrow> bytes" where
  "crypt gcm key iv pos [] = []"
| "crypt gcm key iv pos (b # bs) = (b XOR gcm_stream gcm key iv pos) # crypt gcm key iv (pos + 1) bs"

definition cipherUpdate :: "Gcm \<Rightarrow> GcmObject \<Rightarrow> bytes \<Rightarrow> bytes \<times> GcmObject" where
  "cipherUpdate gcm obj chunk =
     (let out = crypt gcm (go_key obj) (go_iv obj) (length (go_ciphertext obj)) chunk
      in (out, obj\<lparr>go_ciphertext := go_ciphertext obj @ out\<rparr>))"

definition decipherUpdate :: "Gcm \<Rightarrow> GcmObject \<Rightarrow> bytes \<Rightarrow> bytes \<times> GcmObject" where
  "decipherUpdate gcm obj chunk =
     (crypt gcm (go_key obj) (go_iv obj) (length (go_ciphertext obj)) chunk, obj\<lparr>go_ciphertext := go_ciphertext obj @ chunk\<rparr>)"

definition tagOf :: "Gcm \<Rightarrow> GcmObject \<Rightarrow> bytes" where
  "tagOf gcm obj = gcm_tag gcm (go_key obj) (go_iv obj) (go_aad obj) (go_ciphertext obj)"

section \<open>Format and keys\<close>

definition BFENC_MAGIC :: bytes where "BFENC_MAGIC = [66, 70, 69, 78, 67, 49]"
definition BFENC_VERSION :: "8 word" where "BFENC_VERSION = 1"
definition IV_LENGTH :: nat where "IV_LENGTH = 12"
definition FINGERPRINT_LENGTH :: nat where "FINGERPRINT_LENGTH = 4"
definition BFENC_HEADER_LENGTH :: nat where "BFENC_HEADER_LENGTH = 6 + 1 + 4 + 12"
definition BFENC_TAG_LENGTH :: nat where "BFENC_TAG_LENGTH = 16"
definition BFENC_OVERHEAD :: nat where "BFENC_OVERHEAD = BFENC_HEADER_LENGTH + BFENC_TAG_LENGTH"

lemmas format_lengths = BFENC_HEADER_LENGTH_def BFENC_TAG_LENGTH_def BFENC_OVERHEAD_def IV_LENGTH_def FINGERPRINT_LENGTH_def

definition hexValue :: "int \<Rightarrow> int option" where
  "hexValue c = (if is_digit c then Some (c - 48) else if 97 \<le> c \<and> c \<le> 102 then Some (c - 87)
     else if 65 \<le> c \<and> c \<le> 70 then Some (c - 55) else None)"

fun hexBytes :: "jstr \<Rightarrow> bytes" where
  "hexBytes (a # b # s) = word_of_int (16 * the (hexValue a) + the (hexValue b)) # hexBytes s"
| "hexBytes _ = []"

definition parseBackupKey :: "(jstr \<Rightarrow> bytes) \<Rightarrow> jstr option \<Rightarrow> bytes option" where
  "parseBackupKey fromBase64 raw =
     (let v = (case raw of Some r \<Rightarrow> js_trim r | None \<Rightarrow> []) in
      if v = [] then None
      else if length v = 64 \<and> list_all (\<lambda>c. hexValue c \<noteq> None) v then Some (hexBytes v)
      else (let b = fromBase64 v in if length b = 32 then Some b else None))"

definition keyFingerprint :: "Gcm \<Rightarrow> bytes \<Rightarrow> bytes" where
  "keyFingerprint gcm key = take FINGERPRINT_LENGTH (gcm_sha256 gcm key)"

definition encryptedSize :: "nat \<Rightarrow> nat" where
  "encryptedSize plainBytes = plainBytes + BFENC_OVERHEAD"

definition plaintextSize :: "nat \<Rightarrow> nat" where
  "plaintextSize encryptedBytes = encryptedBytes - BFENC_OVERHEAD"

definition buildHeader :: "Gcm \<Rightarrow> bytes \<Rightarrow> bytes \<Rightarrow> bytes" where
  "buildHeader gcm key iv = BFENC_MAGIC @ [BFENC_VERSION] @ keyFingerprint gcm key @ iv"

datatype BackupError = BadKeyLength | NotEncrypted | UnsupportedVersion "8 word" | WrongKey | Truncated | Authentication

section \<open>Encrypting\<close>

record EncryptStream =
  es_header :: bytes
  es_cipher :: GcmObject
  es_headerSent :: bool

definition createEncryptStream :: "Gcm \<Rightarrow> bytes \<Rightarrow> bytes \<Rightarrow> BackupError + EncryptStream" where
  "createEncryptStream gcm key iv =
     (if length key \<noteq> 32 then Inl BadKeyLength
      else (let header = buildHeader gcm key iv in
        Inr \<lparr>es_header = header, es_cipher = \<lparr>go_key = key, go_iv = iv, go_aad = header, go_ciphertext = []\<rparr>, es_headerSent = False\<rparr>))"

definition sendHeader :: "EncryptStream \<Rightarrow> bytes list" where
  "sendHeader st = (if es_headerSent st then [] else [es_header st])"

definition encryptTransform :: "Gcm \<Rightarrow> EncryptStream \<Rightarrow> bytes \<Rightarrow> bytes list \<times> EncryptStream" where
  "encryptTransform gcm st chunk =
     (case cipherUpdate gcm (es_cipher st) chunk of (out, cipher) \<Rightarrow>
        (sendHeader st @ (if out \<noteq> [] then [out] else []), st\<lparr>es_cipher := cipher, es_headerSent := True\<rparr>))"

definition encryptFlush :: "Gcm \<Rightarrow> EncryptStream \<Rightarrow> bytes list" where
  "encryptFlush gcm st = sendHeader st @ [tagOf gcm (es_cipher st)]"

fun encryptFeed :: "Gcm \<Rightarrow> EncryptStream \<Rightarrow> bytes list \<Rightarrow> bytes list" where
  "encryptFeed gcm st [] = encryptFlush gcm st"
| "encryptFeed gcm st (c # cs) = (case encryptTransform gcm st c of (out, st') \<Rightarrow> out @ encryptFeed gcm st' cs)"

definition encryptBackup :: "Gcm \<Rightarrow> bytes \<Rightarrow> bytes \<Rightarrow> bytes list \<Rightarrow> BackupError + bytes list" where
  "encryptBackup gcm key iv chunks = bindr (createEncryptStream gcm key iv) (\<lambda>st. Inr (encryptFeed gcm st chunks))"

section \<open>Decrypting\<close>

record DecryptStream =
  ds_key :: bytes
  ds_header :: bytes
  ds_decipher :: "GcmObject option"
  ds_tail :: bytes

definition createDecryptStream :: "bytes \<Rightarrow> BackupError + DecryptStream" where
  "createDecryptStream key =
     (if length key \<noteq> 32 then Inl BadKeyLength
      else Inr \<lparr>ds_key = key, ds_header = [], ds_decipher = None, ds_tail = []\<rparr>)"

definition startDecipher :: "Gcm \<Rightarrow> bytes \<Rightarrow> bytes \<Rightarrow> BackupError + GcmObject" where
  "startDecipher gcm key header =
     (if take (length BFENC_MAGIC) header \<noteq> BFENC_MAGIC then Inl NotEncrypted
      else if header ! 6 \<noteq> BFENC_VERSION then Inl (UnsupportedVersion (header ! 6))
      else if Prelude.slice header 7 (7 + FINGERPRINT_LENGTH) \<noteq> keyFingerprint gcm key then Inl WrongKey
      else Inr \<lparr>go_key = key, go_iv = Prelude.slice header (7 + FINGERPRINT_LENGTH) BFENC_HEADER_LENGTH, go_aad = header, go_ciphertext = []\<rparr>)"

text \<open>The part of \<open>transform\<close> behind the header: all but the last 16 bytes are deciphered.\<close>

definition decryptBody :: "Gcm \<Rightarrow> DecryptStream \<Rightarrow> GcmObject \<Rightarrow> bytes \<Rightarrow> bytes list \<times> DecryptStream" where
  "decryptBody gcm st obj data =
     (let buf = ds_tail st @ data in
      if length buf \<le> BFENC_TAG_LENGTH then ([], st\<lparr>ds_decipher := Some obj, ds_tail := buf\<rparr>)
      else (let k = length buf - BFENC_TAG_LENGTH in
        case decipherUpdate gcm obj (take k buf) of (out, obj') \<Rightarrow>
          (if out \<noteq> [] then [out] else [], st\<lparr>ds_decipher := Some obj', ds_tail := drop k buf\<rparr>)))"

definition decryptTransform :: "Gcm \<Rightarrow> DecryptStream \<Rightarrow> bytes \<Rightarrow> BackupError + (bytes list \<times> DecryptStream)" where
  "decryptTransform gcm st chunk = (case ds_decipher st of
       Some obj \<Rightarrow> Inr (decryptBody gcm st obj chunk)
     | None \<Rightarrow>
         (let h = ds_header st @ chunk in
          if length h < BFENC_HEADER_LENGTH then Inr ([], st\<lparr>ds_header := h\<rparr>)
          else (let header = take BFENC_HEADER_LENGTH h in
            bindr (startDecipher gcm (ds_key st) header) (\<lambda>obj.
              Inr (decryptBody gcm (st\<lparr>ds_header := header\<rparr>) obj (drop BFENC_HEADER_LENGTH h))))))"

definition decryptFlush :: "Gcm \<Rightarrow> DecryptStream \<Rightarrow> BackupError option" where
  "decryptFlush gcm st = (case ds_decipher st of
       None \<Rightarrow> Some Truncated
     | Some obj \<Rightarrow>
         if length (ds_tail st) < BFENC_TAG_LENGTH then Some Truncated
         else if tagOf gcm obj = ds_tail st then None else Some Authentication)"

text \<open>A whole stream: what it pushed, and the error that ended it.\<close>

fun decryptFeed :: "Gcm \<Rightarrow> DecryptStream \<Rightarrow> bytes list \<Rightarrow> bytes list \<times> BackupError option" where
  "decryptFeed gcm st [] = ([], decryptFlush gcm st)"
| "decryptFeed gcm st (c # cs) = (case decryptTransform gcm st c of
       Inl e \<Rightarrow> ([], Some e)
     | Inr (out, st') \<Rightarrow> (case decryptFeed gcm st' cs of (outs, r) \<Rightarrow> (out @ outs, r)))"

definition decryptBackup :: "Gcm \<Rightarrow> bytes \<Rightarrow> bytes list \<Rightarrow> bytes list \<times> BackupError option" where
  "decryptBackup gcm key chunks = (case createDecryptStream key of Inl e \<Rightarrow> ([], Some e) | Inr st \<Rightarrow> decryptFeed gcm st chunks)"

section \<open>The stand-alone script\<close>

text \<open>It reads the file by offsets; the output appears only when the tag has verified.  \<open>createReadStream\<close> takes
  the last offset, not the one after it, and throws if that is before the first.\<close>

definition readRange :: "bytes \<Rightarrow> nat \<Rightarrow> nat \<Rightarrow> bytes option" where
  "readRange file start stop = (if stop < start then None else Some (Prelude.slice file start (Suc stop)))"

definition decryptFile :: "Gcm \<Rightarrow> bytes \<Rightarrow> bytes \<Rightarrow> BackupError + bytes" where
  "decryptFile gcm key file =
     (if length file < 23 + 16 then Inl Truncated
      else (let header = take 23 file; tag = drop (length file - 16) file; bodyEnd = length file - 16 - 1 in
        if take 6 header \<noteq> BFENC_MAGIC then Inl NotEncrypted
        else if header ! 6 \<noteq> BFENC_VERSION then Inl (UnsupportedVersion (header ! 6))
        else if Prelude.slice header 7 11 \<noteq> keyFingerprint gcm key then Inl WrongKey
        else (case (if bodyEnd \<ge> 23 then readRange file 23 bodyEnd else readRange file 23 (23 - 1)) of
          None \<Rightarrow> Inl Authentication
        | Some body \<Rightarrow> (case decipherUpdate gcm \<lparr>go_key = key, go_iv = Prelude.slice header 11 23, go_aad = header, go_ciphertext = []\<rparr> body of
          (out, obj) \<Rightarrow> if tagOf gcm obj = tag then Inr out else Inl Authentication))))"

end
