(* ===== verification/BackupRules.thy ===== *)
theory BackupRules
  imports BackupCrypto
begin

unbundle bit_operations_syntax

text \<open>
  What the backup format guarantees: decryption does not depend on how the stream was cut, gives back what was
  encrypted, and accepts nothing that was not encrypted under the key.
\<close>

section \<open>The key stream\<close>

lemma crypt_append: "crypt gcm key iv pos (a @ b) = crypt gcm key iv pos a @ crypt gcm key iv (pos + length a) b"
  by (induction a arbitrary: pos) simp_all

lemma crypt_length [simp]: "length (crypt gcm key iv pos bs) = length bs"
  by (induction bs arbitrary: pos) simp_all

lemma crypt_crypt [simp]: "crypt gcm key iv pos (crypt gcm key iv pos bs) = bs"
  by (induction bs arbitrary: pos) (simp_all add: xor.assoc)

section \<open>One shot\<close>

definition sealBackup :: "Gcm \<Rightarrow> bytes \<Rightarrow> bytes \<Rightarrow> bytes \<Rightarrow> bytes" where
  "sealBackup gcm key iv plain =
     (let header = buildHeader gcm key iv; ct = crypt gcm key iv 0 plain in header @ ct @ gcm_tag gcm key iv header ct)"

definition openBackup :: "Gcm \<Rightarrow> bytes \<Rightarrow> bytes \<Rightarrow> bytes \<times> BackupError option" where
  "openBackup gcm key data =
     (if length data < BFENC_HEADER_LENGTH then ([], Some Truncated)
      else case startDecipher gcm key (take BFENC_HEADER_LENGTH data) of
        Inl e \<Rightarrow> ([], Some e)
      | Inr obj \<Rightarrow>
         (let body = drop BFENC_HEADER_LENGTH data; k = length body - BFENC_TAG_LENGTH; ct = take k body in
          (crypt gcm key (go_iv obj) 0 ct,
           if length body < BFENC_TAG_LENGTH then Some Truncated
           else if gcm_tag gcm key (go_iv obj) (take BFENC_HEADER_LENGTH data) ct = drop k body then None else Some Authentication)))"

lemma encryptFeed_concat:
  "concat (encryptFeed gcm st cs) = concat (sendHeader st) @
     crypt gcm (go_key (es_cipher st)) (go_iv (es_cipher st)) (length (go_ciphertext (es_cipher st))) (concat cs) @
     tagOf gcm (es_cipher st\<lparr>go_ciphertext := go_ciphertext (es_cipher st) @
       crypt gcm (go_key (es_cipher st)) (go_iv (es_cipher st)) (length (go_ciphertext (es_cipher st))) (concat cs)\<rparr>)"
proof (induction cs arbitrary: st)
  case (Cons c cs)
  then show ?case by (simp add: encryptTransform_def cipherUpdate_def Let_def crypt_append sendHeader_def)
qed (simp add: encryptFlush_def)

lemma encrypt_seals:
  assumes "encryptBackup gcm key iv chunks = Inr outs"
  shows "concat outs = sealBackup gcm key iv (concat chunks) \<and> length key = 32"
  using assms
  by (auto simp: encryptBackup_def createEncryptStream_def bindr_eq_Inr encryptFeed_concat sendHeader_def sealBackup_def tagOf_def Let_def
      split: if_splits)

section \<open>Chunks do not matter\<close>

text \<open>The decrypting stream after some chunks whose concatenation is \<open>data\<close>, having pushed \<open>out\<close>.\<close>

definition reads :: "Gcm \<Rightarrow> bytes \<Rightarrow> bytes \<Rightarrow> bytes \<Rightarrow> DecryptStream \<Rightarrow> bool" where
  "reads gcm key data out st \<longleftrightarrow> ds_key st = key \<and>
     (if length data < BFENC_HEADER_LENGTH then ds_header st = data \<and> ds_decipher st = None \<and> ds_tail st = [] \<and> out = []
      else (\<exists>obj. startDecipher gcm key (take BFENC_HEADER_LENGTH data) = Inr obj \<and>
        (let body = drop BFENC_HEADER_LENGTH data; k = length body - BFENC_TAG_LENGTH in
          ds_decipher st = Some (obj\<lparr>go_ciphertext := take k body\<rparr>) \<and> ds_tail st = drop k body \<and> out = crypt gcm key (go_iv obj) 0 (take k body))))"

lemma started_object: "startDecipher gcm key h = Inr obj \<Longrightarrow> go_key obj = key \<and> go_aad obj = h \<and> go_ciphertext obj = []"
  by (auto simp: startDecipher_def split: if_splits)

lemma body_step:
  assumes "go_key obj = key" "out = crypt gcm key (go_iv obj) 0 (take k body)" "k = length body - BFENC_TAG_LENGTH" "ds_tail st = drop k body"
    and "decryptBody gcm st (obj\<lparr>go_ciphertext := take k body\<rparr>) chunk = (outs, st')"
  shows "ds_key st' = ds_key st \<and> (let body' = body @ chunk; k' = length body' - BFENC_TAG_LENGTH in
    ds_decipher st' = Some (obj\<lparr>go_ciphertext := take k' body'\<rparr>) \<and> ds_tail st' = drop k' body' \<and>
    out @ concat outs = crypt gcm key (go_iv obj) 0 (take k' body'))"
proof -
  let ?buf = "drop k body @ chunk"
  have len: "length ?buf = length body - k + length chunk" by simp
  show ?thesis
  proof (cases "length ?buf \<le> BFENC_TAG_LENGTH")
    case True
    have "k = 0 \<or> k + BFENC_TAG_LENGTH = length body" using assms(3) by auto
    with True len have "length (body @ chunk) - BFENC_TAG_LENGTH = k" using assms(3) by auto
    moreover from this True len have "take k (body @ chunk) = take k body" "drop k (body @ chunk) = ?buf" using assms(3) by auto
    ultimately show ?thesis using assms True by (auto simp: decryptBody_def Let_def)
  next
    case False
    define j where "j = length ?buf - BFENC_TAG_LENGTH"
    have k': "length (body @ chunk) - BFENC_TAG_LENGTH = k + j" using False assms(3) by (simp add: j_def)
    have "k \<le> length body" using assms(3) by simp
    have "take (k + j) (take k body @ ?buf) = take k body @ take j ?buf" "drop (k + j) (take k body @ ?buf) = drop j ?buf"
      using \<open>k \<le> length body\<close> by (simp_all del: append_take_drop_id append_assoc)
    then have parts: "take (k + j) (body @ chunk) = take k body @ take j ?buf" "drop (k + j) (body @ chunk) = drop j ?buf"
      by (simp_all flip: append_assoc)
    have "outs = (let o' = crypt gcm key (go_iv obj) k (take j ?buf) in if o' \<noteq> [] then [o'] else [])" 
      "st' = st\<lparr>ds_decipher := Some (obj\<lparr>go_ciphertext := take k body @ take j ?buf\<rparr>), ds_tail := drop j ?buf\<rparr>"
      using assms False \<open>k \<le> length body\<close> by (auto simp: decryptBody_def decipherUpdate_def j_def Let_def split: if_splits)
    then show ?thesis using assms(2) \<open>k \<le> length body\<close> unfolding Let_def k' parts
      by (auto simp: crypt_append)
  qed
qed

lemma transform_step:
  assumes "reads gcm key data out st" "decryptTransform gcm st chunk = Inr (outs, st')"
  shows "reads gcm key (data @ chunk) (out @ concat outs) st'"
proof (cases "length data < BFENC_HEADER_LENGTH")
  case True
  with assms(1) have st: "ds_key st = key" "ds_header st = data" "ds_decipher st = None" "ds_tail st = []" "out = []" by (simp_all add: reads_def)
  show ?thesis
  proof (cases "length (data @ chunk) < BFENC_HEADER_LENGTH")
    case True
    with st assms(2) show ?thesis by (auto simp: decryptTransform_def reads_def)
  next
    case False
    let ?h = "take BFENC_HEADER_LENGTH (data @ chunk)" and ?body = "drop BFENC_HEADER_LENGTH (data @ chunk)"
    from False st assms(2) obtain obj where obj: "startDecipher gcm key ?h = Inr obj"
      "decryptBody gcm (st\<lparr>ds_header := ?h\<rparr>) obj ?body = (outs, st')"
      by (auto simp: decryptTransform_def Let_def bindr_eq_Inr)
    have "obj\<lparr>go_ciphertext := take 0 []\<rparr> = obj" using started_object [OF obj(1)] by simp
    with obj have "decryptBody gcm (st\<lparr>ds_header := ?h\<rparr>) (obj\<lparr>go_ciphertext := take 0 []\<rparr>) ?body = (outs, st')" by simp
    from body_step [OF _ _ _ _ this, of key "[]"] st started_object [OF obj(1)] obj(1) False show ?thesis
      by (auto simp: reads_def Let_def)
  qed
next
  case False
  then have h: "take BFENC_HEADER_LENGTH (data @ chunk) = take BFENC_HEADER_LENGTH data"
    "drop BFENC_HEADER_LENGTH (data @ chunk) = drop BFENC_HEADER_LENGTH data @ chunk" by simp_all
  let ?body = "drop BFENC_HEADER_LENGTH data"
  from False assms(1) obtain obj where obj: "ds_key st = key" "startDecipher gcm key (take BFENC_HEADER_LENGTH data) = Inr obj"
    "ds_decipher st = Some (obj\<lparr>go_ciphertext := take (length ?body - BFENC_TAG_LENGTH) ?body\<rparr>)"
    "ds_tail st = drop (length ?body - BFENC_TAG_LENGTH) ?body" "out = crypt gcm key (go_iv obj) 0 (take (length ?body - BFENC_TAG_LENGTH) ?body)"
    by (auto simp: reads_def Let_def)
  with assms(2) have "decryptBody gcm st (obj\<lparr>go_ciphertext := take (length ?body - BFENC_TAG_LENGTH) ?body\<rparr>) chunk = (outs, st')"
    by (simp add: decryptTransform_def)
  from body_step [OF _ obj(5) refl obj(4) this] started_object [OF obj(2)] obj(1,2) False show ?thesis
    unfolding reads_def h by (auto simp: Let_def)
qed

lemma transform_error:
  assumes "reads gcm key data out st" "decryptTransform gcm st chunk = Inl e"
  shows "out = [] \<and> BFENC_HEADER_LENGTH \<le> length (data @ chunk) \<and> startDecipher gcm key (take BFENC_HEADER_LENGTH (data @ chunk)) = Inl e"
  using assms by (auto simp: reads_def decryptTransform_def Let_def bindr_eq_Inl split: if_splits)

lemma flush_result:
  assumes "reads gcm key data out st"
  shows "openBackup gcm key data = (out, decryptFlush gcm st)"
proof (cases "length data < BFENC_HEADER_LENGTH")
  case True
  with assms show ?thesis by (simp add: reads_def openBackup_def decryptFlush_def)
next
  case False
  let ?body = "drop BFENC_HEADER_LENGTH data"
  from False assms obtain obj where obj: "startDecipher gcm key (take BFENC_HEADER_LENGTH data) = Inr obj"
    "ds_decipher st = Some (obj\<lparr>go_ciphertext := take (length ?body - BFENC_TAG_LENGTH) ?body\<rparr>)"
    "ds_tail st = drop (length ?body - BFENC_TAG_LENGTH) ?body" "out = crypt gcm key (go_iv obj) 0 (take (length ?body - BFENC_TAG_LENGTH) ?body)"
    by (auto simp: reads_def Let_def)
  have "length (ds_tail st) < BFENC_TAG_LENGTH \<longleftrightarrow> length ?body < BFENC_TAG_LENGTH" using obj(3) by auto
  with False obj started_object [OF obj(1)] show ?thesis
    by (simp add: openBackup_def decryptFlush_def tagOf_def Let_def)
qed

lemma feed_result:
  "reads gcm key data out st \<Longrightarrow> decryptFeed gcm st cs = (outs, r) \<Longrightarrow> openBackup gcm key (data @ concat cs) = (out @ concat outs, r)"
proof (induction cs arbitrary: data out st outs r)
  case Nil
  then show ?case using flush_result by auto
next
  case (Cons c cs)
  show ?case
  proof (cases "decryptTransform gcm st c")
    case (Inl e)
    from transform_error [OF Cons.prems(1) Inl] Inl Cons.prems(2) show ?thesis by (auto simp: openBackup_def)
  next
    case (Inr v)
    obtain o1 st' where v: "v = (o1, st')" by (cases v)
    obtain o2 r2 where rest: "decryptFeed gcm st' cs = (o2, r2)" by (cases "decryptFeed gcm st' cs")
    from Cons.IH [OF transform_step [OF Cons.prems(1) Inr [unfolded v]] rest] Cons.prems(2) Inr v rest show ?thesis by auto
  qed
qed

lemma decrypt_opens:
  assumes "decryptBackup gcm key chunks = (outs, r)" "length key = 32"
  shows "openBackup gcm key (concat chunks) = (concat outs, r)"
proof -
  have "reads gcm key [] [] \<lparr>ds_key = key, ds_header = [], ds_decipher = None, ds_tail = []\<rparr>"
    by (simp add: reads_def format_lengths)
  from feed_result [OF this] assms show ?thesis by (auto simp: decryptBackup_def createDecryptStream_def)
qed

section \<open>What is opened was sealed\<close>

text \<open>What the code relies on: digests and tags of the lengths that SHA-256 and GCM have.\<close>

definition gcmSizes :: "Gcm \<Rightarrow> bool" where
  "gcmSizes gcm \<longleftrightarrow> (\<forall>key. length (gcm_sha256 gcm key) = 32) \<and> (\<forall>key iv aad ct. length (gcm_tag gcm key iv aad ct) = 16)"

lemma header_parts:
  assumes "gcmSizes gcm" "length iv = IV_LENGTH"
  shows "length (buildHeader gcm key iv) = BFENC_HEADER_LENGTH"
    "startDecipher gcm key (buildHeader gcm key iv) = Inr \<lparr>go_key = key, go_iv = iv, go_aad = buildHeader gcm key iv, go_ciphertext = []\<rparr>"
proof -
  have fp: "length (keyFingerprint gcm key) = 4" using assms(1) by (simp add: keyFingerprint_def gcmSizes_def format_lengths)
  then show "length (buildHeader gcm key iv) = BFENC_HEADER_LENGTH" using assms(2) by (simp add: buildHeader_def format_lengths BFENC_MAGIC_def)
  have "Prelude.slice (buildHeader gcm key iv) 7 11 = keyFingerprint gcm key" "Prelude.slice (buildHeader gcm key iv) 11 23 = iv"
    using fp assms(2) by (simp_all add: Prelude.slice_def buildHeader_def BFENC_MAGIC_def format_lengths)
  then show "startDecipher gcm key (buildHeader gcm key iv) = Inr \<lparr>go_key = key, go_iv = iv, go_aad = buildHeader gcm key iv, go_ciphertext = []\<rparr>"
    by (simp add: startDecipher_def format_lengths) (simp add: buildHeader_def BFENC_MAGIC_def)
qed

lemma started_header:
  assumes "startDecipher gcm key h = Inr obj" "length h = BFENC_HEADER_LENGTH"
  shows "h = buildHeader gcm key (go_iv obj) \<and> length (go_iv obj) = IV_LENGTH"
proof -
  have *: "take 6 h = BFENC_MAGIC" "h ! 6 = BFENC_VERSION" "take 4 (drop 7 h) = keyFingerprint gcm key" "go_iv obj = take 12 (drop 11 h)"
    using assms(1) by (auto simp: startDecipher_def Prelude.slice_def format_lengths BFENC_MAGIC_def eval_nat_numeral split: if_splits)
  have "h = take 6 h @ [h ! 6] @ take 4 (drop 7 h) @ take 12 (drop 11 h)"
  proof -
    have "drop 6 h = h ! 6 # drop 7 h" using assms(2) Cons_nth_drop_Suc [of 6 h] by (simp add: format_lengths)
    moreover have "drop 7 h = take 4 (drop 7 h) @ drop 11 h" using append_take_drop_id [of 4 "drop 7 h"] by simp
    moreover have "drop 11 h = take 12 (drop 11 h)" using assms(2) by (simp add: format_lengths)
    ultimately show ?thesis by (metis append.simps append_take_drop_id)
  qed
  with * assms(2) show ?thesis by (simp add: buildHeader_def format_lengths)
qed

lemma open_seal:
  assumes "gcmSizes gcm" "length iv = IV_LENGTH"
  shows "openBackup gcm key (sealBackup gcm key iv plain) = (plain, None)"
  using assms header_parts [OF assms]
  by (simp add: openBackup_def sealBackup_def gcmSizes_def Let_def) (simp add: format_lengths)

lemma opened_was_sealed:
  assumes "openBackup gcm key data = (plain, None)"
  shows "\<exists>iv. length iv = IV_LENGTH \<and> data = sealBackup gcm key iv plain"
proof -
  let ?h = "take BFENC_HEADER_LENGTH data" and ?body = "drop BFENC_HEADER_LENGTH data"
  let ?k = "length ?body - BFENC_TAG_LENGTH"
  from assms obtain obj where *: "BFENC_HEADER_LENGTH \<le> length data" "startDecipher gcm key ?h = Inr obj"
    "plain = crypt gcm key (go_iv obj) 0 (take ?k ?body)" "gcm_tag gcm key (go_iv obj) ?h (take ?k ?body) = drop ?k ?body"
    by (auto simp: openBackup_def Let_def split: if_splits sum.splits)
  from started_header [OF *(2)] *(1) have h: "?h = buildHeader gcm key (go_iv obj)" "length (go_iv obj) = IV_LENGTH" by simp_all
  have "data = ?h @ take ?k ?body @ drop ?k ?body" by (simp only: append_take_drop_id)
  with * h have "data = sealBackup gcm key (go_iv obj) plain" by (simp add: sealBackup_def Let_def)
  with h(2) show ?thesis by blast
qed

lemma encrypt_total: "length key = 32 \<Longrightarrow> \<exists>outs. encryptBackup gcm key iv chunks = Inr outs"
  by (simp add: encryptBackup_def createEncryptStream_def Let_def)

lemma crypt_Nil_iff: "crypt gcm key iv n bs = [] \<longleftrightarrow> bs = []"
  by (cases bs) simp_all

text \<open>The script reads the same format; it only names a short file first, and fails on an empty backup: the range of
  its bytes ends before it starts.\<close>

lemma script_opens: "decryptFile gcm key file = Inr plain \<longleftrightarrow> openBackup gcm key file = (plain, None) \<and> plain \<noteq> []"
proof (cases "length file < 23 + 16")
  case True
  then show ?thesis by (auto simp: decryptFile_def openBackup_def format_lengths Let_def split: sum.splits)
next
  case False
  let ?body = "drop 23 file" and ?h = "take 23 file"
  let ?ct = "take (length ?body - 16) ?body"
  have body: "(if length file - 16 - 1 \<ge> 23 then readRange file 23 (length file - 16 - 1) else readRange file 23 (23 - 1)) =
      (if ?ct = [] then None else Some ?ct)" "drop (length file - 16) file = drop (length ?body - 16) ?body"
    using False by (auto simp: readRange_def Prelude.slice_def)
  have "length ?body \<ge> 16" "length ?h = 23" "length BFENC_MAGIC = 6" using False by (simp_all add: BFENC_MAGIC_def)
  then show ?thesis using False
    unfolding decryptFile_def openBackup_def startDecipher_def body Let_def
    by (auto simp: format_lengths decipherUpdate_def tagOf_def crypt_Nil_iff split: if_splits)
qed

text \<open>C3.  A backup encrypted in any chunks and read back in any others is the plaintext again, and the encrypted
  object has the size that was announced for it.\<close>

theorem backups_round_trip:
  assumes "gcmSizes gcm" "length iv = IV_LENGTH" "encryptBackup gcm key iv chunks = Inr outs" "concat pieces = concat outs"
  shows "\<exists>plain. decryptBackup gcm key pieces = (plain, None) \<and> concat plain = concat chunks \<and>
    length (concat outs) = encryptedSize (length (concat chunks)) \<and> plaintextSize (length (concat outs)) = length (concat chunks)"
proof -
  have sealed: "concat outs = sealBackup gcm key iv (concat chunks)" "length key = 32" using encrypt_seals [OF assms(3)] by simp_all
  have size: "length (concat outs) = encryptedSize (length (concat chunks))"
    using sealed header_parts(1) [OF assms(1,2)] assms(1) by (simp add: sealBackup_def encryptedSize_def BFENC_OVERHEAD_def BFENC_TAG_LENGTH_def gcmSizes_def Let_def)
  obtain plain res where d: "decryptBackup gcm key pieces = (plain, res)" by (cases "decryptBackup gcm key pieces")
  from decrypt_opens [OF d sealed(2)] assms(4) sealed(1) open_seal [OF assms(1,2), of key "concat chunks"]
  have "concat plain = concat chunks" "res = None" by simp_all
  with d size show ?thesis by (simp add: encryptedSize_def plaintextSize_def)
qed

text \<open>C32.  Decryption fails or succeeds, with the same error and the same bytes, however the stream is cut; it succeeds
  exactly on what encryption under the key produces; and the stand-alone script opens the same files,
  the empty ones apart.\<close>

theorem only_backups_open:
  assumes "gcmSizes gcm" "length key = 32"
  shows "(snd (decryptBackup gcm key pieces) = None \<longleftrightarrow>
      (\<exists>iv plain outs. length iv = IV_LENGTH \<and> encryptBackup gcm key iv [plain] = Inr outs \<and> concat pieces = concat outs)) \<and>
    (concat pieces = concat others \<longrightarrow> snd (decryptBackup gcm key pieces) = snd (decryptBackup gcm key others) \<and>
      concat (fst (decryptBackup gcm key pieces)) = concat (fst (decryptBackup gcm key others))) \<and>
    (decryptFile gcm key (concat pieces) = Inr plain \<longleftrightarrow>
      snd (decryptBackup gcm key pieces) = None \<and> concat (fst (decryptBackup gcm key pieces)) = plain \<and> plain \<noteq> [])"
proof -
  have opens: "openBackup gcm key (concat ps) = (concat (fst (decryptBackup gcm key ps)), snd (decryptBackup gcm key ps))" for ps
    using decrypt_opens assms(2) by (metis prod.collapse)
  have "snd (decryptBackup gcm key pieces) = None \<longleftrightarrow>
      (\<exists>iv plain outs. length iv = IV_LENGTH \<and> encryptBackup gcm key iv [plain] = Inr outs \<and> concat pieces = concat outs)"
  proof
    assume "snd (decryptBackup gcm key pieces) = None"
    with opens have "openBackup gcm key (concat pieces) = (concat (fst (decryptBackup gcm key pieces)), None)" by simp
    from opened_was_sealed [OF this] obtain iv where iv: "length iv = IV_LENGTH"
      "concat pieces = sealBackup gcm key iv (concat (fst (decryptBackup gcm key pieces)))" by blast
    obtain outs where outs: "encryptBackup gcm key iv [concat (fst (decryptBackup gcm key pieces))] = Inr outs" using encrypt_total assms(2) by blast
    moreover from encrypt_seals [OF outs] iv(2) have "concat pieces = concat outs" by simp
    ultimately show "\<exists>iv plain outs. length iv = IV_LENGTH \<and> encryptBackup gcm key iv [plain] = Inr outs \<and> concat pieces = concat outs"
      using iv(1) by blast
  next
    assume "\<exists>iv plain outs. length iv = IV_LENGTH \<and> encryptBackup gcm key iv [plain] = Inr outs \<and> concat pieces = concat outs"
    then obtain iv plain outs where *: "length iv = IV_LENGTH" "encryptBackup gcm key iv [plain] = Inr outs" "concat pieces = concat outs" by blast
    from open_seal [OF assms(1) *(1)] encrypt_seals [OF *(2)] *(3) opens [of pieces] show "snd (decryptBackup gcm key pieces) = None" by simp
  qed
  moreover have "concat pieces = concat others \<Longrightarrow> snd (decryptBackup gcm key pieces) = snd (decryptBackup gcm key others) \<and>
      concat (fst (decryptBackup gcm key pieces)) = concat (fst (decryptBackup gcm key others))"
    using opens [of pieces] opens [of others] by simp
  moreover have "decryptFile gcm key (concat pieces) = Inr plain \<longleftrightarrow>
      snd (decryptBackup gcm key pieces) = None \<and> concat (fst (decryptBackup gcm key pieces)) = plain \<and> plain \<noteq> []"
    using script_opens opens by auto
  ultimately show ?thesis by blast
qed

definition sampleGcm :: Gcm where
  "sampleGcm = \<lparr>gcm_stream = (\<lambda>key iv pos. of_nat pos + 1), gcm_tag = (\<lambda>key iv aad ct. replicate 16 (of_nat (length ct))),
     gcm_sha256 = (\<lambda>key. replicate 32 7)\<rparr>"

abbreviation sampleKey :: bytes where "sampleKey \<equiv> replicate 32 1"
abbreviation sampleIv :: bytes where "sampleIv \<equiv> replicate 12 2"

lemma sample_sizes: "gcmSizes sampleGcm"
  by (simp add: gcmSizes_def sampleGcm_def)

text \<open>A backup of nothing: the service reads it back, the script answers that authentication failed.\<close>

lemma empty_backup_not_opened:
  "\<exists>outs. encryptBackup sampleGcm sampleKey sampleIv [] = Inr outs \<and> decryptBackup sampleGcm sampleKey [concat outs] = ([], None) \<and>
     decryptFile sampleGcm sampleKey (concat outs) = Inl Authentication"
proof -
  have "encryptBackup sampleGcm sampleKey sampleIv [] = Inr [buildHeader sampleGcm sampleKey sampleIv, replicate 16 0]"
    by code_simp
  moreover have "decryptBackup sampleGcm sampleKey [concat [buildHeader sampleGcm sampleKey sampleIv, replicate 16 0]] = ([], None)"
    by code_simp
  moreover have "decryptFile sampleGcm sampleKey (concat [buildHeader sampleGcm sampleKey sampleIv, replicate 16 0]) = Inl Authentication"
    by code_simp
  ultimately show ?thesis by blast
qed

theorem backups_round_trip_witness:
  "\<exists>outs plain. encryptBackup sampleGcm sampleKey sampleIv [[3, 4], [], [5]] = Inr outs \<and>
    decryptBackup sampleGcm sampleKey (map (\<lambda>b. [b]) (concat outs)) = (plain, None) \<and> concat plain = [3, 4, 5]"
proof -
  obtain outs where outs: "encryptBackup sampleGcm sampleKey sampleIv [[3, 4], [], [5]] = Inr outs" using encrypt_total by fastforce
  have "length sampleIv = IV_LENGTH" "concat (map (\<lambda>b. [b]) (concat outs)) = concat outs" by (simp_all add: IV_LENGTH_def)
  from backups_round_trip [OF sample_sizes this(1) outs this(2)] outs show ?thesis by auto
qed

theorem only_backups_open_witness: "snd (decryptBackup sampleGcm sampleKey [replicate 23 0]) \<noteq> None"
proof
  assume "snd (decryptBackup sampleGcm sampleKey [replicate 23 0]) = None"
  moreover have "length sampleKey = 32" by simp
  ultimately obtain iv plain outs where
    "length iv = IV_LENGTH" "encryptBackup sampleGcm sampleKey iv [plain] = Inr outs" "concat [replicate 23 0] = concat outs"
    using only_backups_open [OF sample_sizes, of sampleKey "[replicate 23 0]"] by blast
  with encrypt_seals [of sampleGcm sampleKey iv "[plain]" outs] have "replicate 23 (0 :: 8 word) = sealBackup sampleGcm sampleKey iv plain" by simp
  then have "hd (replicate 23 (0 :: 8 word)) = hd (sealBackup sampleGcm sampleKey iv plain)" by simp
  then show False by (simp add: sealBackup_def buildHeader_def BFENC_MAGIC_def Let_def)
qed

end
