(* ===== verification/UrlGuard.thy ===== *)
theory UrlGuard
  imports JsNumber "HOL-Library.Word"
begin

unbundle bit_operations_syntax

text \<open>
  The guard of outgoing requests, \<open>modules/flows/flow-url-guard.ts\<close>: a URL a customer supplies may only reach
  public addresses.  The URL parser, \<open>isIP\<close> and the resolver are arguments.  The first sections are the
  guard; the rest shows that its tests on dotted quads are the address blocks they are meant to be.
\<close>

section \<open>Addresses\<close>

definition octetOf :: "jstr \<Rightarrow> nat option" where
  "octetOf s = (case js_number s of
     Some n \<Rightarrow> if isInteger n \<and> 0 \<le> n \<and> n \<le> 255 then Some (nat \<lfloor>n\<rfloor>) else None
   | None \<Rightarrow> None)"

definition publicQuad :: "nat \<Rightarrow> nat \<Rightarrow> bool" where
  "publicQuad a b \<longleftrightarrow>
     (if a = 0 then False
      else if a = 10 then False
      else if a = 127 then False
      else if a = 169 \<and> b = 254 then False
      else if a = 172 \<and> b \<ge> 16 \<and> b \<le> 31 then False
      else if a = 192 \<and> b = 168 then False
      else if a = 192 \<and> b = 0 then False
      else if a = 100 \<and> b \<ge> 64 \<and> b \<le> 127 then False
      else if a = 198 \<and> (b = 18 \<or> b = 19) then False
      else if a \<ge> 224 then False
      else True)"

definition isPublicIPv4 :: "jstr \<Rightarrow> bool" where
  "isPublicIPv4 address = (case map octetOf (split_on (ch CHR ''.'') address) of
     [Some a, Some b, Some c, Some d] \<Rightarrow> publicQuad a b
   | _ \<Rightarrow> False)"

definition mappedPrefix :: jstr where "mappedPrefix = js ''::ffff:''"

definition isHexDigit :: "int \<Rightarrow> bool" where
  "isHexDigit c \<longleftrightarrow> is_digit c \<or> (97 \<le> c \<and> c \<le> 102)"

definition dottedTail :: "jstr \<Rightarrow> bool" where
  "dottedTail s \<longleftrightarrow> (let parts = split_on (ch CHR ''.'') s in
     length parts = 4 \<and> list_all (\<lambda>p. p \<noteq> [] \<and> list_all is_digit p) parts)"

definition quadText :: "nat list \<Rightarrow> jstr" where
  "quadText ns = join (js ''.'') (map show_nat ns)"

text \<open>The two groups of \<open>::ffff:h:l\<close>, read in base 16.\<close>

definition hexTail :: "jstr \<Rightarrow> (nat \<times> nat) option" where
  "hexTail s = (case split_on (ch CHR '':'') s of
     [h, l] \<Rightarrow>
       if h \<noteq> [] \<and> length h \<le> 4 \<and> list_all isHexDigit h \<and> l \<noteq> [] \<and> length l \<le> 4 \<and> list_all isHexDigit l
       then (case (digitsIn 16 h, digitsIn 16 l) of (Some x, Some y) \<Rightarrow> Some (nat x, nat y) | _ \<Rightarrow> None) else None
   | _ \<Rightarrow> None)"

definition isPublicIPv6 :: "jstr \<Rightarrow> bool" where
  "isPublicIPv6 address =
     (let a = js_lower address; rest = drop (length mappedPrefix) a; mapped = starts_with mappedPrefix a in
      if a = js ''::'' \<or> a = js ''::1'' then False
      else if starts_with (js ''fe80'') a then False
      else if nth_opt a 0 = Some (ch CHR ''f'') \<and> (nth_opt a 1 = Some (ch CHR ''c'') \<or> nth_opt a 1 = Some (ch CHR ''d'')) then False
      else if starts_with (js ''ff'') a then False
      else if mapped \<and> dottedTail rest then isPublicIPv4 rest
      else if mapped \<and> hexTail rest \<noteq> None
      then (case the (hexTail rest) of (high, low) \<Rightarrow> isPublicIPv4 (quadText [high div 256, high mod 256, low div 256, low mod 256]))
      else True)"

definition isPublicAddress :: "(jstr \<Rightarrow> nat) \<Rightarrow> jstr \<Rightarrow> bool" where
  "isPublicAddress isIP address =
     (let version = isIP address in
      if version = 4 then isPublicIPv4 address else if version = 6 then isPublicIPv6 address else False)"

section \<open>The guard\<close>

datatype UrlError = InvalidUrl | ProtocolNotAllowed | HostNotAllowed | HostNotResolved

record ParsedUrl =
  pu_protocol :: jstr
  pu_hostname :: jstr

definition unbracket :: "jstr \<Rightarrow> jstr" where
  "unbracket s = (let t = (if starts_with (js ''['') s then tl s else s) in if ends_with (js '']'') t then butlast t else t)"

definition assertSafeUrl :: "(jstr \<Rightarrow> ParsedUrl option) \<Rightarrow> (jstr \<Rightarrow> nat) \<Rightarrow> (jstr \<Rightarrow> jstr list option) \<Rightarrow> jstr \<Rightarrow> UrlError + unit" where
  "assertSafeUrl parseUrl isIP resolveAll url = (case parseUrl url of
       None \<Rightarrow> Inl InvalidUrl
     | Some u \<Rightarrow>
         (let host = unbracket (js_lower (pu_hostname u)) in
          if pu_protocol u \<noteq> js ''http:'' \<and> pu_protocol u \<noteq> js ''https:'' then Inl ProtocolNotAllowed
          else if host = js ''localhost'' \<or> ends_with (js ''.local'') host \<or> ends_with (js ''.internal'') host then Inl HostNotAllowed
          else if isIP host = 0 \<and> ch CHR ''.'' \<notin> set host then Inl HostNotAllowed
          else (case (if isIP host \<noteq> 0 then Some [host] else resolveAll host) of
                  None \<Rightarrow> Inl HostNotResolved
                | Some addresses \<Rightarrow>
                    if addresses = [] then Inl HostNotResolved
                    else if list_all (isPublicAddress isIP) addresses then Inr () else Inl HostNotAllowed)))"

section \<open>Address blocks\<close>

type_synonym ip4 = "32 word"

text \<open>A block is a network and the length of its prefix.\<close>

definition inBlock :: "ip4 \<Rightarrow> ip4 \<times> nat \<Rightarrow> bool" where
  "inBlock a block \<longleftrightarrow> drop_bit (32 - snd block) a = drop_bit (32 - snd block) (fst block)"

definition octets :: "ip4 \<Rightarrow> nat list" where
  "octets a = map (\<lambda>i. unat (drop_bit (24 - 8 * i) a AND 255)) [0..<4]"

definition ip4 :: "nat \<Rightarrow> nat \<Rightarrow> ip4" where
  "ip4 a b = word_of_nat (2 ^ 16 * (256 * a + b))"

text \<open>0/8, 10/8, 127/8, 169.254/16, 172.16/12, 192.168/16, 192.0/16, 100.64/10, 198.18/15 and 224/3.\<close>

definition privateBlocks :: "(ip4 \<times> nat) list" where
  "privateBlocks = [(ip4 0 0, 8), (ip4 10 0, 8), (ip4 127 0, 8), (ip4 169 254, 16), (ip4 172 16, 12), (ip4 192 168, 16),
     (ip4 192 0, 16), (ip4 100 64, 10), (ip4 198 18, 15), (ip4 224 0, 3)]"

lemma octets_div: "octets w = [unat w div 2 ^ 24, unat w div 2 ^ 16 mod 256, unat w div 2 ^ 8 mod 256, unat w mod 256]"
proof -
  have *: "unat (drop_bit n w AND 255) = unat w div 2 ^ n mod 256" for n
  proof -
    have "drop_bit n w AND 255 = take_bit 8 (drop_bit n w)" by (simp add: take_bit_eq_mask mask_eq_exp_minus_1)
    moreover have "unat (take_bit 8 (drop_bit n w)) = take_bit 8 (drop_bit n (unat w))" by (simp add: unsigned_take_bit_eq unat_drop_bit_eq)
    moreover have "take_bit 8 (drop_bit n (unat w)) = unat w div 2 ^ n mod 256"
      by (simp add: take_bit_eq_mod [where 'a = nat] drop_bit_eq_div [where 'a = nat])
    ultimately show ?thesis by simp
  qed
  have "unat w < 2 ^ 32" using unsigned_less [of w, where 'a = nat] by simp
  then have "unat w div 2 ^ 24 < 256" by (simp add: less_mult_imp_div_less)
  then show ?thesis by (simp add: octets_def * upt_rec)
qed

definition high :: "ip4 \<Rightarrow> nat" where
  "high w = unat w div 2 ^ 16"

lemma unat_small: "n < 2 ^ 32 \<Longrightarrow> unat (word_of_nat n :: ip4) = n"
  by (simp add: unsigned_of_nat take_bit_nat_eq_self)

lemma inBlock_high:
  assumes "k \<le> 16" "a < 256" "b < 256"
  shows "inBlock w (ip4 a b, k) \<longleftrightarrow> high w div 2 ^ (16 - k) = (256 * a + b) div 2 ^ (16 - k)"
proof -
  have shift: "unat w div 2 ^ (32 - k) = high w div 2 ^ (16 - k)" for w :: ip4
  proof -
    have "(2 :: nat) ^ (32 - k) = 2 ^ 16 * 2 ^ (16 - k)" using assms(1) power_add [of "2 :: nat" 16 "16 - k"] by simp
    then show ?thesis by (simp only: high_def div_mult2_eq)
  qed
  have "256 * a + b < 2 ^ 16" using assms by simp
  then have "2 ^ 16 * (256 * a + b) < (2 :: nat) ^ 32" by simp
  then have "high (ip4 a b) = 256 * a + b"
    unfolding high_def ip4_def by (simp only: unat_small) simp
  then show ?thesis
    unfolding inBlock_def word_unat_eq_iff unat_drop_bit_eq by (simp add: drop_bit_eq_div [where 'a = nat] shift)
qed

lemma split_div: "0 < k \<Longrightarrow> (k * j * a + b) div k = j * a + b div (k :: nat)"
  by (simp add: mult.assoc)

lemma quad_blocks:
  fixes a b :: nat
  assumes "b < 256"
  shows "(256 * a + b) div 256 = a"
    "(256 * a + b) div 16 = 2753 \<longleftrightarrow> a = 172 \<and> 16 \<le> b \<and> b \<le> 31"
    "(256 * a + b) div 64 = 401 \<longleftrightarrow> a = 100 \<and> 64 \<le> b \<and> b \<le> 127"
    "(256 * a + b) div 2 = 25353 \<longleftrightarrow> a = 198 \<and> (b = 18 \<or> b = 19)"
    "a < 256 \<Longrightarrow> (256 * a + b) div 8192 = 7 \<longleftrightarrow> 224 \<le> a"
proof -
  show "(256 * a + b) div 256 = a" using assms by simp
  have "(256 * a + b) div 16 = 16 * a + b div 16" "b div 16 < 16" using split_div [of 16 16 a b] assms by auto
  moreover have "b div 16 = 1 \<longleftrightarrow> 16 \<le> b \<and> b \<le> 31" by auto
  moreover have "16 * a + c = 2753 \<longleftrightarrow> a = 172 \<and> c = 1" if "c < 16" for c :: nat using that by presburger
  ultimately show "(256 * a + b) div 16 = 2753 \<longleftrightarrow> a = 172 \<and> 16 \<le> b \<and> b \<le> 31" by simp
  have "(256 * a + b) div 64 = 4 * a + b div 64" "b div 64 < 4" using split_div [of 64 4 a b] assms by auto
  moreover have "b div 64 = 1 \<longleftrightarrow> 64 \<le> b \<and> b \<le> 127" by auto
  moreover have "4 * a + c = 401 \<longleftrightarrow> a = 100 \<and> c = 1" if "c < 4" for c :: nat using that by presburger
  ultimately show "(256 * a + b) div 64 = 401 \<longleftrightarrow> a = 100 \<and> 64 \<le> b \<and> b \<le> 127" by simp
  have "(256 * a + b) div 2 = 128 * a + b div 2" "b div 2 < 128" using split_div [of 2 128 a b] assms by auto
  moreover have "b div 2 = 9 \<longleftrightarrow> b = 18 \<or> b = 19" by auto
  moreover have "128 * a + c = 25353 \<longleftrightarrow> a = 198 \<and> c = 9" if "c < 128" for c :: nat using that by presburger
  ultimately show "(256 * a + b) div 2 = 25353 \<longleftrightarrow> a = 198 \<and> (b = 18 \<or> b = 19)" by simp
  have "(256 * a + b) div 256 div 32 = (256 * a + b) div 8192" by (simp add: div_mult2_eq [symmetric])
  with assms show "(256 * a + b) div 8192 = 7 \<longleftrightarrow> 224 \<le> a" if "a < 256" using that by auto
qed

lemma blocks_high:
  assumes "octets w = [a, b, c, d]"
  shows "(\<forall>block\<in>set privateBlocks. \<not> inBlock w block) \<longleftrightarrow> publicQuad a b"
proof -
  have "unat w < 2 ^ 32" using unsigned_less [of w, where 'a = nat] by simp
  then have "high w < 65536" by (simp add: high_def less_mult_imp_div_less)
  have "unat w div 2 ^ 24 = high w div 256" by (simp add: high_def flip: div_mult2_eq)
  with assms have "a = high w div 256" "b = high w mod 256" by (simp_all add: octets_div high_def)
  then have m: "high w = 256 * a + b" "b < 256" by simp_all
  have a: "a < 256" using m \<open>high w < 65536\<close> by simp
  have short: "inBlock w (ip4 x 0, 8) \<longleftrightarrow> a = x" if "x < 256" for x
    using that inBlock_high [of 8 x 0 w] quad_blocks(1) [OF m(2), of a] by (simp add: m(1))
  have long: "inBlock w (ip4 x y, 16) \<longleftrightarrow> a = x \<and> b = y" if "x < 256" "y < 256" for x y
  proof -
    have "256 * a + b = 256 * x + y \<longleftrightarrow> a = x \<and> b = y"
      using quad_blocks(1) [OF m(2), of a] quad_blocks(1) [OF that(2), of x] by (metis add_left_cancel)
    with that show ?thesis using inBlock_high [of 16 x y w] by (simp add: m(1))
  qed
  have "inBlock w (ip4 172 16, 12) \<longleftrightarrow> a = 172 \<and> 16 \<le> b \<and> b \<le> 31"
    using inBlock_high [of 12 172 16 w] quad_blocks(2) [OF m(2), of a] by (simp add: m(1))
  moreover have "inBlock w (ip4 100 64, 10) \<longleftrightarrow> a = 100 \<and> 64 \<le> b \<and> b \<le> 127"
    using inBlock_high [of 10 100 64 w] quad_blocks(3) [OF m(2), of a] by (simp add: m(1))
  moreover have "inBlock w (ip4 198 18, 15) \<longleftrightarrow> a = 198 \<and> (b = 18 \<or> b = 19)"
    using inBlock_high [of 15 198 18 w] quad_blocks(4) [OF m(2), of a] by (simp add: m(1))
  moreover have "inBlock w (ip4 224 0, 3) \<longleftrightarrow> 224 \<le> a"
    using inBlock_high [of 3 224 0 w] quad_blocks(5) [OF m(2) a] by (simp add: m(1))
  ultimately show ?thesis by (auto simp: privateBlocks_def short long publicQuad_def)
qed

text \<open>Dotted quads and their hexadecimal form are read back to their numbers.\<close>

lemma digitsIn_append:
  assumes "digitsIn base s = Some n" "digitsIn base [c] = Some d"
  shows "digitsIn base (s @ [c]) = Some (base * n + d)"
proof -
  define V where "V = (\<lambda>c :: int. if is_digit c then c - 48 else if 97 \<le> c \<and> c \<le> 102 then c - 87 else if 65 \<le> c \<and> c \<le> 70 then c - 55 else 99)"
  have "digitsIn base t = (if t \<noteq> [] \<and> list_all (\<lambda>c. V c < base) t then Some (foldl (\<lambda>a c. base * a + V c) 0 t) else None)" for t
    by (simp add: digitsIn_def V_def Let_def)
  with assms show ?thesis by (auto split: if_splits)
qed

lemma show_nat_digitsIn: "digitsIn 10 (show_nat n) = Some (int n)"
proof (induction n rule: show_nat.induct)
  case (1 n)
  show ?case
  proof (cases "n < 10")
    case True
    then show ?thesis by (simp add: show_nat.simps [of n] digitsIn_def is_digit_def)
  next
    case False
    have "digitsIn 10 [48 + int (n mod 10)] = Some (int (n mod 10))" by (simp add: digitsIn_def is_digit_def)
    with 1 [OF False] have "digitsIn 10 (show_nat n) = Some (10 * int (n div 10) + int (n mod 10))"
      using False by (simp add: show_nat.simps [of n] digitsIn_append)
    moreover have "10 * int (n div 10) + int (n mod 10) = int n"
      by (metis mult_div_mod_eq of_nat_add of_nat_mult of_nat_numeral)
    ultimately show ?thesis by simp
  qed
qed

lemma show_nat_plain: "c \<in> set (show_nat n) \<Longrightarrow> 48 \<le> c \<and> c \<le> 57"
  using show_nat_digits by (simp add: is_digit_def)

lemma digits_untouched:
  assumes "s \<noteq> []" "list_all is_digit s"
  shows "js_trim s = s" "js_lower s = s" "signOf s = (1, s)" "takeWhile is_digit s = s" "dropWhile is_digit s = []"
proof -
  have d: "\<And>c. c \<in> set s \<Longrightarrow> is_digit c" using assms(2) by (simp add: list_all_iff)
  have "\<And>c. is_digit c \<Longrightarrow> \<not> is_js_space c" by (auto simp: is_digit_def is_js_space_def)
  then have "\<And>c. c \<in> set s \<Longrightarrow> \<not> is_js_space c" using d by blast
  then have "dropWhile is_js_space s = s" "dropWhile is_js_space (rev s) = rev s"
    using assms(1) by (simp_all add: dropWhile_eq_self_iff hd_rev)
  then show "js_trim s = s" by (simp add: js_trim_def)
  have "list_all is_digit t \<Longrightarrow> js_lower t = t" for t by (induction t) (auto simp: js_lower_unit_def is_digit_def)
  with assms(2) show "js_lower s = s" by blast
  show "signOf s = (1, s)" using assms(1) d [of "hd s"] by (cases s) (auto simp: signOf_def is_digit_def)
  show "takeWhile is_digit s = s" "dropWhile is_digit s = []" using d by auto
qed

lemma js_number_digits:
  assumes "s \<noteq> []" "list_all is_digit s" "digitsIn 10 s = Some n"
  shows "js_number s = Some (of_int n)"
proof -
  have "list_all is_digit (take 2 s)" "take 2 s \<noteq> []" using assms(1,2) by (auto simp: list_all_iff dest: in_set_takeD)
  then have "js_lower (take 2 s) = take 2 s" using digits_untouched(2) by blast
  moreover have "take 2 s \<noteq> js ''0x''" "take 2 s \<noteq> js ''0o''" "take 2 s \<noteq> js ''0b''"
    using \<open>list_all is_digit (take 2 s)\<close> by (auto simp: is_digit_def)
  moreover have "decimalOf s = Some (of_int n)"
    unfolding decimalOf_def Let_def digits_untouched(4,5) [OF assms(1,2)] using assms(3) by (simp add: exponentOf_def)
  ultimately show ?thesis using assms(1) digits_untouched [OF assms(1,2)] by (simp add: js_number_def Let_def)
qed

lemma octetOf_show: "n < 256 \<Longrightarrow> octetOf (show_nat n) = Some n"
  using js_number_digits [of "show_nat n" "int n"] show_nat_digits show_nat_digitsIn
  by (simp add: octetOf_def list_all_iff isInteger_def)

lemma split_join_show:
  assumes "ns \<noteq> []"
  shows "split_on (ch CHR ''.'') (quadText ns) = map show_nat ns"
proof -
  have plain: "split_on c (s @ c # t) = s # split_on c t" "split_on c s = [s]" if "c \<notin> set s" for c :: int and s t
    using that by (induction s) auto
  have "ch CHR ''.'' \<notin> set (show_nat n)" for n using show_nat_plain by force
  with assms show ?thesis unfolding quadText_def
    by (induction ns rule: list_nonempty_induct) (simp_all add: plain join_Cons)
qed

lemma public_quad_text: "a < 256 \<Longrightarrow> b < 256 \<Longrightarrow> c < 256 \<Longrightarrow> d < 256 \<Longrightarrow> isPublicIPv4 (quadText [a, b, c, d]) = publicQuad a b"
  unfolding isPublicIPv4_def split_join_show [OF list.distinct(2)] by (simp add: octetOf_show)

lemma octets_bounds: "\<exists>a b c d. octets w = [a, b, c, d] \<and> a < 256 \<and> b < 256 \<and> c < 256 \<and> d < 256"
proof -
  have "unat w < 2 ^ 32" using unsigned_less [of w, where 'a = nat] by simp
  then have "unat w div 2 ^ 24 < 256" by (simp add: less_mult_imp_div_less)
  then show ?thesis by (simp add: octets_div)
qed

lemma public_dotted: "isPublicIPv4 (quadText (octets w)) \<longleftrightarrow> (\<forall>block\<in>set privateBlocks. \<not> inBlock w block)"
  using octets_bounds [of w] blocks_high public_quad_text by metis

section \<open>An IPv4 address in an IPv6 coat\<close>

definition hexDigit :: "nat \<Rightarrow> int" where
  "hexDigit n = (if n < 10 then 48 + int n else 87 + int n)"

fun show_hex :: "nat \<Rightarrow> jstr" where
  "show_hex n = (if n < 16 then [hexDigit n] else show_hex (n div 16) @ [hexDigit (n mod 16)])"

declare show_hex.simps [simp del]

lemma hexDigit_props: "n < 16 \<Longrightarrow> isHexDigit (hexDigit n)" "n < 16 \<Longrightarrow> digitsIn 16 [hexDigit n] = Some (int n)"
  by (auto simp: hexDigit_def isHexDigit_def digitsIn_def is_digit_def)

lemma show_hex_digits: "list_all isHexDigit (show_hex n)"
  by (induction n rule: show_hex.induct) (simp add: show_hex.simps hexDigit_props)

lemma show_hex_nonempty [simp]: "show_hex n \<noteq> []"
  by (subst show_hex.simps) simp

lemma show_hex_length: "n < 16 ^ Suc k \<Longrightarrow> length (show_hex n) \<le> Suc k"
proof (induction k arbitrary: n)
  case (Suc k)
  show ?case
  proof (cases "n < 16")
    case False
    have "n div 16 < 16 ^ Suc k" using Suc.prems by (simp add: less_mult_imp_div_less)
    from Suc.IH [OF this] False show ?thesis by (simp add: show_hex.simps [of n])
  qed (simp add: show_hex.simps)
qed (simp add: show_hex.simps)

lemma show_hex_digitsIn: "digitsIn 16 (show_hex n) = Some (int n)"
proof (induction n rule: show_hex.induct)
  case (1 n)
  show ?case
  proof (cases "n < 16")
    case False
    with 1 have "digitsIn 16 (show_hex n) = Some (16 * int (n div 16) + int (n mod 16))"
      by (simp add: show_hex.simps [of n] digitsIn_append hexDigit_props)
    moreover have "16 * int (n div 16) + int (n mod 16) = int n"
      by (metis mult_div_mod_eq of_nat_add of_nat_mult of_nat_numeral)
    ultimately show ?thesis by simp
  qed (simp add: show_hex.simps hexDigit_props)
qed

definition hexGroups :: "nat \<Rightarrow> nat \<Rightarrow> jstr" where
  "hexGroups x y = show_hex x @ [ch CHR '':''] @ show_hex y"

lemma split_plain: "c \<notin> set s \<Longrightarrow> split_on c (s @ c # t) = s # split_on c t" "c \<notin> set s \<Longrightarrow> split_on c s = [s]"
  by (induction s) auto

lemma hexTail_groups: "x < 65536 \<Longrightarrow> y < 65536 \<Longrightarrow> hexTail (hexGroups x y) = Some (x, y)"
proof -
  assume "x < 65536" "y < 65536"
  then have "length (show_hex x) \<le> 4" "length (show_hex y) \<le> 4" using show_hex_length [of _ 3] by simp_all
  moreover have "ch CHR '':'' \<notin> set (show_hex n)" for n
    using show_hex_digits [of n] by (auto simp: list_all_iff isHexDigit_def is_digit_def)
  then have "split_on (ch CHR '':'') (hexGroups x y) = [show_hex x, show_hex y]"
    unfolding hexGroups_def by (simp add: split_plain)
  ultimately show ?thesis by (simp add: hexTail_def show_hex_digits show_hex_digitsIn)
qed

lemma mapped_lower: "list_all (\<lambda>c. js_lower_unit c = [c]) s \<Longrightarrow> js_lower (mappedPrefix @ s) = mappedPrefix @ s"
proof -
  have "list_all (\<lambda>c. js_lower_unit c = [c]) t \<Longrightarrow> js_lower t = t" for t by (induction t) auto
  moreover have "list_all (\<lambda>c. js_lower_unit c = [c]) mappedPrefix" by (simp add: mappedPrefix_def js_lower_unit_def)
  ultimately show "list_all (\<lambda>c. js_lower_unit c = [c]) s \<Longrightarrow> js_lower (mappedPrefix @ s) = mappedPrefix @ s" by simp
qed

lemma mapped_verdict:
  assumes "list_all (\<lambda>c. js_lower_unit c = [c]) s" "dottedTail s \<or> hexTail s \<noteq> None"
  shows "isPublicIPv6 (mappedPrefix @ s) = (if dottedTail s then isPublicIPv4 s
    else (case the (hexTail s) of (x, y) \<Rightarrow> isPublicIPv4 (quadText [x div 256, x mod 256, y div 256, y mod 256])))"
  unfolding isPublicIPv6_def mapped_lower [OF assms(1)] using assms(2)
  by (simp add: Let_def starts_with_def) (auto simp: mappedPrefix_def)

lemma dotted_quad: "dottedTail (quadText [a, b, c, d])"
  unfolding dottedTail_def split_join_show [OF list.distinct(2)] using show_nat_digits by (simp add: list_all_iff)

lemma groups_not_dotted: "\<not> dottedTail (hexGroups x y)"
proof -
  have "ch CHR ''.'' \<notin> set (hexGroups x y)"
    using show_hex_digits [of x] show_hex_digits [of y] by (auto simp: list_all_iff isHexDigit_def is_digit_def hexGroups_def)
  then show ?thesis by (simp add: dottedTail_def split_plain)
qed

lemma show_nat_lower: "c \<in> set (show_nat n) \<Longrightarrow> js_lower_unit c = [c]"
  by (drule show_nat_digits) (auto simp: js_lower_unit_def is_digit_def)

lemma quad_lower: "list_all (\<lambda>c. js_lower_unit c = [c]) (quadText ns)"
  unfolding quadText_def
proof (induction ns)
  case (Cons n ns)
  moreover have "js_lower_unit (ch CHR ''.'') = [ch CHR ''.'']" by (simp add: js_lower_unit_def)
  ultimately show ?case
    unfolding list_all_iff by (auto simp: join_Cons dest: show_nat_lower simp del: js_lower_unit_def)
qed simp

lemma groups_lower: "list_all (\<lambda>c. js_lower_unit c = [c]) (hexGroups x y)"
  using show_hex_digits [of x] show_hex_digits [of y]
  by (auto simp: hexGroups_def list_all_iff js_lower_unit_def isHexDigit_def is_digit_def)


text \<open>A request that passes goes to a qualified host whose every address passed.\<close>

theorem guard_checks_every_address:
  assumes "assertSafeUrl parseUrl isIP resolveAll url = Inr ()"
  shows "\<exists>u host addresses. parseUrl url = Some u \<and> host = unbracket (js_lower (pu_hostname u)) \<and> host \<noteq> js ''localhost'' \<and>
    (isIP host \<noteq> 0 \<and> addresses = [host] \<or> ch CHR ''.'' \<in> set host \<and> resolveAll host = Some addresses) \<and>
    addresses \<noteq> [] \<and> list_all (isPublicAddress isIP) addresses"
  using assms by (auto simp: assertSafeUrl_def Let_def split: option.splits if_splits)

text \<open>Link-local addresses are fe80::/10, up to febf; and the NAT64 and IPv4-compatible spellings of 127.0.0.1 are
  not recognised as it.\<close>

lemma ipv6_blocks_missed:
  "isPublicIPv6 (js ''febf::1'')" "isPublicIPv6 (js ''64:ff9b::7f00:1'')" "isPublicIPv6 (js ''::7f00:1'')"
  by (simp_all add: isPublicIPv6_def js_lower_unit_def starts_with_def mappedPrefix_def Let_def)

end
