(* ===== verification/NosqlFilter.thy ===== *)
theory NosqlFilter
  imports JsQueryParser
begin

text \<open>
  Filters of document collections: \<open>modules/projects/nosql-filter.util.ts\<close>, which turns a filter object into a
  WHERE clause over a JSONB column; \<open>modules/data-query/filter-ast-to-legacy.ts\<close>, which turns the filter tree of
  the query language into such an object; the statements of \<open>modules/projects/collection.service.ts\<close> that carry
  the clause, and the part of \<open>modules/data-query/data-query.service.ts\<close> that leads a query there.

  A parameter is the value pushed, or the value whose \<open>JSON.stringify\<close> is pushed.  A statement is its text with
  its parameters; the database is on the other side.
\<close>

section \<open>Results\<close>

datatype NfError = BadRequest jstr | NfTypeError jstr

primrec errorMessage :: "NfError \<Rightarrow> jstr" where
  "errorMessage (BadRequest m) = m"
| "errorMessage (NfTypeError m) = m"

datatype SqlParam = PValue jsval | PJsonText jsval | PNumber rat

text \<open>A loop whose body pushes parameters and may throw.\<close>

fun mapPush :: "('a \<Rightarrow> 'p list \<Rightarrow> 'e + ('b \<times> 'p list)) \<Rightarrow> 'a list \<Rightarrow> 'p list \<Rightarrow> 'e + ('b list \<times> 'p list)" where
  "mapPush f [] ps = Inr ([], ps)"
| "mapPush f (x # xs) ps = bindr (f x ps) (\<lambda>(y, ps1). bindr (mapPush f xs ps1) (\<lambda>(ys, ps2). Inr (y # ys, ps2)))"

lemma mapPush_cong [fundef_cong]:
  "xs = ys \<Longrightarrow> ps = qs \<Longrightarrow> (\<And>x ps. x \<in> set ys \<Longrightarrow> f x ps = g x ps) \<Longrightarrow> mapPush f xs ps = mapPush g ys qs"
  by (induction xs arbitrary: ys ps qs) (auto intro!: bindr_cong)

definition placeholder :: "'p list \<Rightarrow> jstr" where
  "placeholder ps = js ''$'' @ show_nat (length ps)"

section \<open>Clauses\<close>

definition VALID_FIELD_RE :: "jstr \<Rightarrow> bool" where
  "VALID_FIELD_RE s = (case s of [] \<Rightarrow> False
     | c # cs \<Rightarrow> (is_alpha c \<or> c = 95) \<and> list_all (\<lambda>c. is_alpha c \<or> is_digit c \<or> c = 95 \<or> c = 46) cs)"

definition validateFieldName :: "jstr \<Rightarrow> NfError + unit" where
  "validateFieldName field = (if VALID_FIELD_RE field then Inr ()
     else Inl (BadRequest (js ''Invalid field name in filter: '' @ dq field)))"

abbreviation sq :: "jstr \<Rightarrow> jstr" where
  "sq s \<equiv> [39] @ s @ [39]"

definition jsonTextField :: "jstr \<Rightarrow> jstr" where
  "jsonTextField field = (case split_on 46 field of
       [p] \<Rightarrow> js ''data->>'' @ sq p
     | parts \<Rightarrow> js ''data #>> '' @ sq (js ''{'' @ join (js '','') parts @ js ''}''))"

definition jsonJsonbField :: "jstr \<Rightarrow> jstr" where
  "jsonJsonbField field = (case split_on 46 field of
       [p] \<Rightarrow> js ''data->'' @ sq p
     | parts \<Rightarrow> js ''data #> '' @ sq (js ''{'' @ join (js '','') parts @ js ''}''))"

definition COMPARISON_OPS :: "(jstr \<times> jstr) list" where
  "COMPARISON_OPS = [(js ''$gt'', js ''>''), (js ''$gte'', js ''>=''), (js ''$lt'', js ''<''), (js ''$lte'', js ''<='')]"

definition pushValue :: "jsval \<Rightarrow> SqlParam list \<Rightarrow> NfError + (jstr \<times> SqlParam list)" where
  "pushValue v ps = (let pushed = ps @ [PValue v] in Inr (placeholder pushed, pushed))"

definition listClause :: "jstr \<Rightarrow> jstr \<Rightarrow> jsval \<Rightarrow> jstr \<Rightarrow> SqlParam list \<Rightarrow> NfError + (jstr \<times> SqlParam list)" where
  "listClause key op opVal word ps = (case opVal of
       VArr (v # vs) \<Rightarrow>
         bindr (mapPush pushValue (v # vs) ps) (\<lambda>(placeholders, ps').
         Inr (jsonTextField key @ word @ js '' ('' @ join (js '', '') placeholders @ js '')'', ps'))
     | _ \<Rightarrow> Inl (BadRequest (op @ js '' requires a non-empty array'')))"

text \<open>One case of the \<open>switch\<close> over the operators of a field.\<close>

definition opClause :: "jstr \<Rightarrow> jstr \<times> jsval \<Rightarrow> SqlParam list \<Rightarrow> NfError + (jstr \<times> SqlParam list)" where
  "opClause key entry ps =
     (let op = fst entry; opVal = snd entry; text = jsonTextField key;
          pushed = ps @ [PValue opVal]; p = placeholder pushed in
      if op = js ''$eq'' then Inr (text @ js '' = '' @ p, pushed)
      else if op = js ''$ne'' then Inr (text @ js '' != '' @ p, pushed)
      else if map_of COMPARISON_OPS op \<noteq> None
      then Inr (js ''('' @ text @ js '')::numeric '' @ the (map_of COMPARISON_OPS op) @ js '' '' @ p, pushed)
      else if op = js ''$in'' then listClause key op opVal (js '' IN'') ps
      else if op = js ''$nin'' then listClause key op opVal (js '' NOT IN'') ps
      else if op = js ''$contains'' then
        (let pushed = ps @ [PJsonText (VArr [opVal])] in
         Inr (jsonJsonbField key @ js '' @> '' @ placeholder pushed @ js ''::jsonb'', pushed))
      else if op = js ''$exists'' then
        Inr (if opVal = VBool True then js ''data ? '' @ sq key else js ''NOT (data ? '' @ sq key @ js '')'', ps)
      else if op = js ''$regex'' then Inr (text @ js '' ~ '' @ p, pushed)
      else if op = js ''$iregex'' then Inr (text @ js '' ~* '' @ p, pushed)
      else Inl (BadRequest (js ''Unknown filter operator: '' @ op)))"

definition paren :: "jstr \<Rightarrow> jstr" where
  "paren s = js ''('' @ s @ js '')''"

text \<open>\<open>inner.length === 1 ? inner[0] : `(...)`\<close>.\<close>

definition grouped :: "jstr list \<Rightarrow> jstr" where
  "grouped inner = (case inner of [c] \<Rightarrow> c | _ \<Rightarrow> paren (join (js '' AND '') inner))"

definition fieldClause :: "jstr \<Rightarrow> jsval \<Rightarrow> SqlParam list \<Rightarrow> NfError + (jstr list \<times> SqlParam list)" where
  "fieldClause key v ps = (case v of
       VObj ops \<Rightarrow> mapPush (opClause key) ops ps
     | _ \<Rightarrow> (let pushed = ps @ [PJsonText (VObj [(hd (split_on 46 key), v)])] in
         Inr ([js ''data @> '' @ placeholder pushed @ js ''::jsonb''], pushed)))"

text \<open>
  \<open>Object.entries\<close> of what is no object: \<open>null\<close> and \<open>undefined\<close> throw, an array or a string has its positions
  as keys, of which the first one already is no valid field name, and the rest has no entries.
\<close>

fun buildClauses :: "jsval \<Rightarrow> SqlParam list \<Rightarrow> NfError + (jstr list \<times> SqlParam list)"
  and buildEntry :: "jstr \<Rightarrow> jsval \<Rightarrow> SqlParam list \<Rightarrow> NfError + (jstr list \<times> SqlParam list)" where
  "buildClauses f ps = (case f of
       VObj es \<Rightarrow> bindr (mapPush (\<lambda>(k, v) ps. buildEntry k v ps) es ps) (\<lambda>(cs, ps'). Inr (concat cs, ps'))
     | VNull \<Rightarrow> Inl (NfTypeError (js ''Cannot convert undefined or null to object''))
     | VUndefined \<Rightarrow> Inl (NfTypeError (js ''Cannot convert undefined or null to object''))
     | VArr (v # vs) \<Rightarrow> bindr (validateFieldName (js ''0'')) (\<lambda>_. Inr ([], ps))
     | VStr (c # cs) \<Rightarrow> bindr (validateFieldName (js ''0'')) (\<lambda>_. Inr ([], ps))
     | _ \<Rightarrow> Inr ([], ps))"
| "buildEntry key value ps =
     (if key = js ''$and'' then (case value of
          VArr fs \<Rightarrow> bindr (mapPush buildClauses fs ps) (\<lambda>(sub, ps'). Inr ([paren (join (js '' AND '') (map grouped sub))], ps'))
        | _ \<Rightarrow> Inl (BadRequest (js ''$and must be an array'')))
      else if key = js ''$or'' then (case value of
          VArr fs \<Rightarrow> bindr (mapPush buildClauses fs ps) (\<lambda>(sub, ps'). Inr ([paren (join (js '' OR '') (map grouped sub))], ps'))
        | _ \<Rightarrow> Inl (BadRequest (js ''$or must be an array'')))
      else bindr (validateFieldName key) (\<lambda>_. fieldClause key value ps))"

declare buildClauses.simps [simp del] buildEntry.simps [simp del]

section \<open>The filter, the order and the projection\<close>

record FilterResult =
  fr_where :: jstr
  fr_params :: "SqlParam list"

text \<open>\<open>where.replace(/\$(\d+)/g, ...)\<close>: every placeholder moves by the offset.\<close>

function shiftPlaceholders :: "nat \<Rightarrow> jstr \<Rightarrow> jstr" where
  "shiftPlaceholders off [] = []"
| "shiftPlaceholders off (c # s) =
     (if c = 36 \<and> takeWhile is_digit s \<noteq> []
      then js ''$'' @ show_nat (nat (foldl (\<lambda>a d. 10 * a + (d - 48)) 0 (takeWhile is_digit s)) + off) @
             shiftPlaceholders off (dropWhile is_digit s)
      else c # shiftPlaceholders off s)"
  by pat_completeness auto
termination
  by (relation "measure (\<lambda>(off, s). length s)") (auto simp: le_imp_less_Suc length_dropWhile_le)

text \<open>\<open>!filter || Object.keys(filter).length === 0\<close>.\<close>

fun matchesAll :: "jsval \<Rightarrow> bool" where
  "matchesAll (VObj es) = (es = [])"
| "matchesAll (VArr vs) = (vs = [])"
| "matchesAll (VStr s) = (s = [])"
| "matchesAll v = True"

definition buildNoSqlFilter :: "jsval \<Rightarrow> nat \<Rightarrow> NfError + FilterResult" where
  "buildNoSqlFilter f paramOffset =
     (if matchesAll f then Inr \<lparr>fr_where = [], fr_params = []\<rparr>
      else bindr (buildClauses f []) (\<lambda>(clauses, params).
        if clauses = [] then Inr \<lparr>fr_where = [], fr_params = []\<rparr>
        else (let w = join (js '' AND '') clauses in
          Inr \<lparr>fr_where = (if paramOffset > 0 then shiftPlaceholders paramOffset w else w), fr_params = params\<rparr>)))"

definition sortTerm :: "jstr \<times> rat \<Rightarrow> NfError + jstr" where
  "sortTerm entry = bindr (validateFieldName (fst entry)) (\<lambda>_.
     Inr ((if fst entry = js ''created_at'' \<or> fst entry = js ''updated_at'' then dq (fst entry) else jsonTextField (fst entry)) @
       js '' '' @ (if snd entry = - 1 then js ''DESC'' else js ''ASC'') @ js '' NULLS LAST''))"

definition buildNoSqlSort :: "(jstr \<times> rat) list option \<Rightarrow> NfError + jstr" where
  "buildNoSqlSort sortSpec = (case sortSpec of None \<Rightarrow> Inr []
     | Some es \<Rightarrow> bindr (mapr sortTerm es) (\<lambda>parts. Inr (join (js '', '') parts)))"

definition projectionArg :: "jstr \<times> rat \<Rightarrow> NfError + jstr" where
  "projectionArg entry = bindr (validateFieldName (fst entry)) (\<lambda>_. Inr (sq (fst entry) @ js '', '' @ jsonJsonbField (fst entry)))"

definition buildNoSqlProjection :: "(jstr \<times> rat) list option \<Rightarrow> NfError + jstr option" where
  "buildNoSqlProjection project = (case project of None \<Rightarrow> Inr None
     | Some es \<Rightarrow> (let included = filter (\<lambda>e. snd e = 1) es in
         if included = [] then Inr None
         else bindr (mapr projectionArg included) (\<lambda>args. Inr (Some (js ''jsonb_build_object('' @ join (js '', '') args @ js '')'')))))"

section \<open>From the filter tree\<close>

definition OPERATOR_TO_LEGACY :: "FilterOperator \<Rightarrow> jstr option" where
  "OPERATOR_TO_LEGACY op = (case op of
       FEq \<Rightarrow> Some (js ''$eq'') | FNeq \<Rightarrow> Some (js ''$ne'') | FGt \<Rightarrow> Some (js ''$gt'') | FGte \<Rightarrow> Some (js ''$gte'')
     | FLt \<Rightarrow> Some (js ''$lt'') | FLte \<Rightarrow> Some (js ''$lte'') | FIn \<Rightarrow> Some (js ''$in'') | FNin \<Rightarrow> Some (js ''$nin'')
     | FContains \<Rightarrow> Some (js ''$contains'') | FExists \<Rightarrow> Some (js ''$exists'') | FRegex \<Rightarrow> Some (js ''$regex'')
     | FIregex \<Rightarrow> Some (js ''$iregex'') | _ \<Rightarrow> None)"

definition SUPPORTED_OPERATORS :: jstr where
  "SUPPORTED_OPERATORS = js ''eq, neq, gt, gte, lt, lte, in, nin, contains, exists, regex, iregex, and, or''"

definition unsupported :: "jstr \<Rightarrow> NfError + 'a" where
  "unsupported operator = Inl (BadRequest (js ''operator '' @ dq operator @ js '' is not supported for NoSQL collections '' @ [8212] @
     js '' supported operators: '' @ SUPPORTED_OPERATORS))"

definition legacyPath :: "PathRef \<Rightarrow> NfError + jstr" where
  "legacyPath path = (if pr_isArrayPath path \<or> hasBrackets (pr_path path)
     then Inl (BadRequest (js ''array path '' @ dq (pr_path path) @ js '' is not supported for NoSQL collections '' @ [8212] @
       js '' use plain dotted paths''))
     else Inr (pr_path path))"

text \<open>The loop that merges the parts; \<open>None\<close> is a collision.\<close>

fun mergeParts :: "(jstr \<times> jsval) list \<Rightarrow> (jstr \<times> jsval) list list \<Rightarrow> (jstr \<times> jsval) list option" where
  "mergeParts merged [] = Some merged"
| "mergeParts merged (part # parts) =
     (if list_ex (\<lambda>e. fst e \<in> fst ` set merged) part then None else mergeParts (merged @ part) parts)"

fun convert :: "Filter \<Rightarrow> NfError + (jstr \<times> jsval) list" where
  "convert (FieldF path operator value) = (case OPERATOR_TO_LEGACY operator of
       None \<Rightarrow> unsupported (js (operatorName operator))
     | Some legacyOp \<Rightarrow> bindr (legacyPath path) (\<lambda>p. Inr [(p, VObj [(legacyOp, value)])]))"
| "convert (AndF conditions) = bindr (mapr convert conditions) (\<lambda>parts.
     Inr (case mergeParts [] parts of Some merged \<Rightarrow> merged | None \<Rightarrow> [(js ''$and'', VArr (map VObj parts))]))"
| "convert (OrF conditions) = bindr (mapr convert conditions) (\<lambda>parts. Inr [(js ''$or'', VArr (map VObj parts))])"
| "convert (NotF condition) = unsupported (js ''not'')"

definition filterAstToLegacyFilter :: "Filter option \<Rightarrow> NfError + jsval" where
  "filterAstToLegacyFilter filt = (case filt of None \<Rightarrow> Inr VUndefined | Some f \<Rightarrow> bindr (convert f) (\<lambda>es. Inr (VObj es)))"

definition sortClausesToLegacySort :: "SortClause list option \<Rightarrow> NfError + (jstr \<times> rat) list option" where
  "sortClausesToLegacySort clauses = (case clauses of None \<Rightarrow> Inr None | Some [] \<Rightarrow> Inr None
     | Some cs \<Rightarrow> bindr (mapr (\<lambda>c. bindr (legacyPath (sc_path c)) (\<lambda>p. Inr (p, if sc_desc c then - 1 else 1))) cs)
         (\<lambda>es. Inr (Some (foldl (\<lambda>out (p, d). setKey p d out) [] es))))"

definition selectPathsToLegacyProjection :: "PathRef list option \<Rightarrow> NfError + (jstr \<times> rat) list option" where
  "selectPathsToLegacyProjection select = (case select of None \<Rightarrow> Inr None | Some [] \<Rightarrow> Inr None
     | Some ps \<Rightarrow> bindr (mapr legacyPath ps) (\<lambda>es. Inr (Some (foldl (\<lambda>out p. setKey p 1 out) [] es))))"

section \<open>Statements\<close>

type_synonym Query = "jstr \<times> SqlParam list"

definition VALID_COLLECTION_NAME :: "jstr \<Rightarrow> bool" where
  "VALID_COLLECTION_NAME s = (case s of [] \<Rightarrow> False
     | c # cs \<Rightarrow> (is_alpha c \<or> c = 95) \<and> list_all (\<lambda>c. is_alpha c \<or> is_digit c \<or> c = 95) cs)"

definition validateCollectionName :: "jstr \<Rightarrow> NfError + unit" where
  "validateCollectionName name = (if VALID_COLLECTION_NAME name then Inr ()
     else Inl (BadRequest (js ''Invalid collection name: '' @ dq name @
       js ''. Must start with a letter or underscore and contain only alphanumeric characters.'')))"

definition qualifiedName :: "jstr \<Rightarrow> jstr" where
  "qualifiedName collection = dq (js ''nosql'') @ js ''.'' @ dq collection"

text \<open>The \<open>catch\<close> around the statements: an error without a database code is wrapped.\<close>

definition wrapFailure :: "jstr \<Rightarrow> NfError + 'a \<Rightarrow> NfError + 'a" where
  "wrapFailure label r = (case r of Inl e \<Rightarrow> Inl (BadRequest (label @ js '' failed: '' @ errorMessage e)) | Inr x \<Rightarrow> Inr x)"

record FindOptions =
  fo_filter :: jsval
  fo_sort :: "(jstr \<times> rat) list option"
  fo_project :: "(jstr \<times> rat) list option"
  fo_limit :: "rat option"
  fo_offset :: "rat option"

definition orDefault :: "rat option \<Rightarrow> rat \<Rightarrow> rat" where
  "orDefault v d = (case v of Some x \<Rightarrow> x | None \<Rightarrow> d)"

definition whereClause :: "jstr \<Rightarrow> jstr" where
  "whereClause w = (if w \<noteq> [] then js ''WHERE '' @ w else [])"

text \<open>The page and the count, in this order.\<close>

definition findDocuments :: "jstr \<Rightarrow> FindOptions \<Rightarrow> NfError + (Query \<times> Query)" where
  "findDocuments collection opts = bindr (validateCollectionName collection) (\<lambda>_. wrapFailure (js ''Query'')
     (bindr (buildNoSqlFilter (fo_filter opts) 0) (\<lambda>f.
      bindr (buildNoSqlSort (fo_sort opts)) (\<lambda>orderBy.
      bindr (buildNoSqlProjection (fo_project opts)) (\<lambda>projection.
      (let selectExpr = (case projection of Some p \<Rightarrow> js ''id, '' @ p @ js '' AS data, created_at, updated_at'' | None \<Rightarrow> js ''*'');
           limit = min (max (orDefault (fo_limit opts) 50) 1) 1000;
           offset = max (orDefault (fo_offset opts) 0) 0;
           n = length (fr_params f)
       in Inr ((js ''SELECT '' @ selectExpr @ js '' FROM '' @ qualifiedName collection @ js '' '' @ whereClause (fr_where f) @ js '' '' @
               (if orderBy \<noteq> [] then js ''ORDER BY '' @ orderBy else []) @
               js '' LIMIT $'' @ show_nat (n + 1) @ js '' OFFSET $'' @ show_nat (n + 2), fr_params f @ [PNumber limit, PNumber offset]),
             (js ''SELECT COUNT(*)::int AS total FROM '' @ qualifiedName collection @ js '' '' @ whereClause (fr_where f), fr_params f))))))))"

definition deleteDocuments :: "jstr \<Rightarrow> jsval \<Rightarrow> NfError + Query" where
  "deleteDocuments collection f = bindr (validateCollectionName collection) (\<lambda>_.
     if matchesAll f then Inl (BadRequest (js ''A filter is required for bulk delete to prevent accidental data loss''))
     else wrapFailure (js ''Bulk delete'') (bindr (buildNoSqlFilter f 0) (\<lambda>r.
       Inr (js ''DELETE FROM '' @ qualifiedName collection @ js '' WHERE '' @ fr_where r, fr_params r))))"

definition countDocuments :: "jstr \<Rightarrow> jsval \<Rightarrow> NfError + Query" where
  "countDocuments collection f = bindr (validateCollectionName collection) (\<lambda>_. wrapFailure (js ''Count'')
     (bindr (buildNoSqlFilter f 0) (\<lambda>r.
      Inr (js ''SELECT COUNT(*)::int AS count FROM '' @ qualifiedName collection @ js '' '' @ whereClause (fr_where r), fr_params r))))"

section \<open>A query of the query language\<close>

record Paging =
  pg_page :: rat
  pg_limit :: rat
  pg_offset :: rat
  pg_paginated :: bool

definition resolvePaging :: "EntityQuery \<Rightarrow> rat option \<Rightarrow> rat option \<Rightarrow> Paging" where
  "resolvePaging q optPage optLimit =
     (if eq_limit q \<noteq> None \<or> eq_offset q \<noteq> None
      then \<lparr>pg_page = 1, pg_limit = min (orDefault (eq_limit q) 50) 1000, pg_offset = orDefault (eq_offset q) 0, pg_paginated = False\<rparr>
      else (let limit = min (max (orDefault optLimit 50) 1) 1000; page = max 1 (orDefault optPage 1) in
        \<lparr>pg_page = page, pg_limit = limit, pg_offset = (page - 1) * limit, pg_paginated = True\<rparr>))"

text \<open>What the query sends to the database: one statement to count, two to find.\<close>

definition runCollectionQuery :: "ParsedJsQuery \<Rightarrow> Paging \<Rightarrow> NfError + Query list" where
  "runCollectionQuery parsed paging =
     (let q = pj_query parsed in
      bindr (filterAstToLegacyFilter (eq_filter q)) (\<lambda>f.
      case pj_action parsed of
        CountAction \<Rightarrow> bindr (countDocuments (pj_entity parsed) f) (\<lambda>s. Inr [s])
      | FindAction \<Rightarrow>
          bindr (sortClausesToLegacySort (eq_sort q)) (\<lambda>sortSpec.
          bindr (selectPathsToLegacyProjection (eq_select q)) (\<lambda>project.
          bindr (findDocuments (pj_entity parsed) \<lparr>fo_filter = f, fo_sort = sortSpec, fo_project = project,
             fo_limit = Some (pg_limit paging), fo_offset = Some (pg_offset paging)\<rparr>) (\<lambda>(s, c). Inr [s, c])))))"

end
