(* ===== verification/NosqlRules.thy ===== *)
theory NosqlRules
  imports NosqlFilter JsQueryRules RestParams
begin

text \<open>
  What the filters of collections guarantee: a query text keeps its meaning down to the clause PostgreSQL gets,
  the values stay out of the text, and placeholders and parameters agree.

  \<open>Cond\<close> is the clause as a tree, with the tests of single fields left open: \<open>printCond\<close> prints it with the
  operators' texts of the source, \<open>holds\<close> reads it.
\<close>

section \<open>Clauses as trees\<close>

datatype Cond = OpC jstr jstr jsval | EqC jstr jsval | AndC "Cond list list" | OrC "Cond list list"

fun printCond :: "Cond \<Rightarrow> SqlParam list \<Rightarrow> NfError + (jstr \<times> SqlParam list)" where
  "printCond (OpC key op v) ps = opClause key (op, v) ps"
| "printCond (EqC key v) ps = (let pushed = ps @ [PJsonText (VObj [(hd (split_on 46 key), v)])] in
     Inr (js ''data @> '' @ placeholder pushed @ js ''::jsonb'', pushed))"
| "printCond (AndC groups) ps = bindr (mapPush (mapPush printCond) groups ps) (\<lambda>(sub, ps').
     Inr (paren (join (js '' AND '') (map grouped sub)), ps'))"
| "printCond (OrC groups) ps = bindr (mapPush (mapPush printCond) groups ps) (\<lambda>(sub, ps').
     Inr (paren (join (js '' OR '') (map grouped sub)), ps'))"

fun holds :: "(jstr \<Rightarrow> jstr \<Rightarrow> jsval \<Rightarrow> bool) \<Rightarrow> Cond \<Rightarrow> bool" where
  "holds test (OpC key op v) = test key op v"
| "holds test (EqC key v) = test key [] v"
| "holds test (AndC groups) = list_all (list_all (holds test)) groups"
| "holds test (OrC groups) = list_ex (list_all (holds test)) groups"

text \<open>No empty pair of parentheses is printed.\<close>

fun filled :: "Cond \<Rightarrow> bool" where
  "filled (AndC groups) \<longleftrightarrow> groups \<noteq> [] \<and> list_all (\<lambda>g. g \<noteq> [] \<and> list_all filled g) groups"
| "filled (OrC groups) \<longleftrightarrow> groups \<noteq> [] \<and> list_all (\<lambda>g. g \<noteq> [] \<and> list_all filled g) groups"
| "filled c \<longleftrightarrow> True"

fun condsOf :: "jsval \<Rightarrow> Cond list" and entryConds :: "jstr \<Rightarrow> jsval \<Rightarrow> Cond list" where
  "condsOf f = (case f of VObj es \<Rightarrow> concat (map (\<lambda>(k, v). entryConds k v) es) | _ \<Rightarrow> [])"
| "entryConds key v = (case v of
       VArr fs \<Rightarrow> if key = js ''$and'' then [AndC (map condsOf fs)]
                 else if key = js ''$or'' then [OrC (map condsOf fs)] else [EqC key v]
     | VObj ops \<Rightarrow> map (\<lambda>(op, x). OpC key op x) ops
     | _ \<Rightarrow> [EqC key v])"

declare condsOf.simps [simp del] entryConds.simps [simp del]

lemma condsOf_VObj [simp]: "condsOf (VObj es) = concat (map (\<lambda>(k, v). entryConds k v) es)"
  by (simp add: condsOf.simps)

section \<open>The text is the printed tree\<close>

lemma mapPush_append:
  "mapPush f (xs @ ys) ps = bindr (mapPush f xs ps) (\<lambda>(as, ps1). bindr (mapPush f ys ps1) (\<lambda>(bs, ps2). Inr (as @ bs, ps2)))"
  by (induction xs arbitrary: ps) (auto simp: bindr_def split: sum.splits prod.splits)

lemma mapPush_concat:
  "mapPush f xs ps = Inr (css, ps') \<Longrightarrow>
   (\<And>x ps cs ps'. x \<in> set xs \<Longrightarrow> f x ps = Inr (cs, ps') \<Longrightarrow> mapPush g (h x) ps = Inr (cs, ps')) \<Longrightarrow>
   mapPush g (concat (map h xs)) ps = Inr (concat css, ps')"
proof (induction xs arbitrary: ps css ps')
  case (Cons x xs)
  from Cons.prems(1) obtain cs ps1 rest where *: "f x ps = Inr (cs, ps1)" "mapPush f xs ps1 = Inr (rest, ps')" "css = cs # rest"
    by (auto simp: bindr_eq_Inr split: prod.splits)
  have "mapPush g (h x) ps = Inr (cs, ps1)" using Cons.prems(2) [of x] *(1) by simp
  moreover have "mapPush g (concat (map h xs)) ps1 = Inr (concat rest, ps')" using Cons.IH [OF *(2)] Cons.prems(2) by simp
  ultimately show ?case using *(3) by (simp add: mapPush_append)
qed simp

lemma mapPush_map:
  "mapPush f xs ps = Inr (ys, ps') \<Longrightarrow> (\<And>x ps y ps'. x \<in> set xs \<Longrightarrow> f x ps = Inr (y, ps') \<Longrightarrow> g (h x) ps = Inr (y, ps')) \<Longrightarrow>
   mapPush g (map h xs) ps = Inr (ys, ps')"
proof (induction xs arbitrary: ps ys ps')
  case (Cons x xs)
  from Cons.prems(1) obtain y ps1 rest where *: "f x ps = Inr (y, ps1)" "mapPush f xs ps1 = Inr (rest, ps')" "ys = y # rest"
    by (auto simp: bindr_eq_Inr split: prod.splits)
  then show ?case using Cons.IH [OF *(2)] Cons.prems(2) by simp
qed simp

lemma clauses_are_printed:
  "buildClauses f ps = Inr (cs, ps') \<Longrightarrow> mapPush printCond (condsOf f) ps = Inr (cs, ps')"
  "buildEntry key v ps = Inr (cs, ps') \<Longrightarrow> mapPush printCond (entryConds key v) ps = Inr (cs, ps')"
proof (induction f ps and key v ps arbitrary: cs ps' and cs ps' rule: buildClauses_buildEntry.induct)
  case (1 f ps)
  show ?case
  proof (cases f)
    case (VObj es)
    with 1(2) obtain css where *: "mapPush (\<lambda>(k, v) ps. buildEntry k v ps) es ps = Inr (css, ps')" "cs = concat css"
      by (auto simp: buildClauses.simps [of "VObj es"] bindr_eq_Inr split: prod.splits)
    have "mapPush printCond (case e of (k, v) \<Rightarrow> entryConds k v) qs = Inr (ds, qs')"
      if "e \<in> set es" "(case e of (k, v) \<Rightarrow> buildEntry k v) qs = Inr (ds, qs')" for e qs ds qs'
      using 1(1) [OF VObj that(1)] that(2) by (cases e) auto
    from mapPush_concat [OF *(1) this] have "mapPush printCond (concat (map (\<lambda>(k, v). entryConds k v) es)) ps = Inr (concat css, ps')"
      by simp
    with VObj * show ?thesis by simp
  qed (use 1(2) in \<open>auto simp: buildClauses.simps condsOf.simps bindr_eq_Inr split: list.splits\<close>)
next
  case (2 key v ps)
  show ?case
  proof (cases "key = js ''$and'' \<or> key = js ''$or''")
    case True
    then obtain fs where fs: "v = VArr fs" using 2(3) by (auto simp: buildEntry.simps [of key] split: jsval.splits if_splits)
    let ?sep = "if key = js ''$and'' then js '' AND '' else js '' OR ''"
    from 2(3) True fs obtain sub where *: "mapPush buildClauses fs ps = Inr (sub, ps')" "cs = [paren (join ?sep (map grouped sub))]"
      by (auto simp: buildEntry.simps [of key] bindr_eq_Inr split: if_splits)
    have "mapPush printCond (condsOf e) qs = Inr (ds, qs')" if "e \<in> set fs" "buildClauses e qs = Inr (ds, qs')" for e qs ds qs'
      using 2(1) [OF _ fs that] 2(2) [OF _ _ fs that] True by blast
    then have "mapPush (mapPush printCond) (map condsOf fs) ps = Inr (sub, ps')"
      by (rule mapPush_map [where g = "mapPush printCond" and h = condsOf, OF *(1)])
    with True fs *(2) show ?thesis by (auto simp: entryConds.simps [of key])
  next
    case False
    with 2(3) have clause: "fieldClause key v ps = Inr (cs, ps')" by (auto simp: buildEntry.simps [of key] bindr_eq_Inr)
    show ?thesis
    proof (cases v)
      case (VObj ops)
      with clause have "mapPush (opClause key) ops ps = Inr (cs, ps')" by (simp add: fieldClause_def)
      then have "mapPush printCond (map (\<lambda>(op, x). OpC key op x) ops) ps = Inr (cs, ps')" by (rule mapPush_map) auto
      with VObj show ?thesis by (simp add: entryConds.simps [of key])
    qed (use clause False in \<open>auto simp: fieldClause_def entryConds.simps [of key] Let_def\<close>)
  qed
qed

section \<open>The tree means what the filter means\<close>

fun filterHolds :: "(jstr \<Rightarrow> jstr \<Rightarrow> jsval \<Rightarrow> bool) \<Rightarrow> Filter \<Rightarrow> bool" where
  "filterHolds test (FieldF path operator v) = test (pr_path path) (the (OPERATOR_TO_LEGACY operator)) v"
| "filterHolds test (AndF fs) = list_all (filterHolds test) fs"
| "filterHolds test (OrF fs) = list_ex (filterHolds test) fs"
| "filterHolds test (NotF f) = (\<not> filterHolds test f)"

abbreviation entriesConds :: "(jstr \<times> jsval) list \<Rightarrow> Cond list" where
  "entriesConds es \<equiv> concat (map (\<lambda>(k, v). entryConds k v) es)"

lemma mergeParts_concat: "mergeParts merged parts = Some r \<Longrightarrow> r = merged @ concat parts"
  by (induction merged parts rule: mergeParts.induct) (auto split: if_splits)

lemma entryConds_logic:
  "entryConds (js ''$and'') (VArr fs) = [AndC (map condsOf fs)]" "entryConds (js ''$or'') (VArr fs) = [OrC (map condsOf fs)]"
  by (subst entryConds.simps, simp)+

lemmas entryConds_logic_simps [simp] = entryConds_logic [simplified]

lemma entryConds_ops [simp]: "entryConds key (VObj ops) = map (\<lambda>(op, x). OpC key op x) ops"
  by (simp add: entryConds.simps [of key])

lemma concat_entries: "entriesConds (concat parts) = concat (map entriesConds parts)"
  by (induction parts) auto

lemma convert_keeps_meaning: "convert f = Inr es \<Longrightarrow> list_all (holds test) (entriesConds es) \<longleftrightarrow> filterHolds test f"
proof (induction f arbitrary: es)
  case (FieldF path operator v)
  then show ?case by (auto simp: bindr_eq_Inr legacyPath_def unsupported_def split: option.splits if_splits)
next
  case (AndF fs)
  then obtain parts where parts: "mapr convert fs = Inr parts"
    "es = (case mergeParts [] parts of Some merged \<Rightarrow> merged | None \<Rightarrow> [(js ''$and'', VArr (map VObj parts))])"
    by (auto simp: bindr_eq_Inr)
  have "list_all2 (\<lambda>f part. convert f = Inr part) fs parts" using mapr_Inr_list_all2 [OF parts(1)] .
  then have "list_all2 (\<lambda>f part. list_all (holds test) (entriesConds part) \<longleftrightarrow> filterHolds test f) fs parts"
    by (rule list.rel_mono_strong) (use AndF.IH in auto)
  then have all: "list_all (\<lambda>part. list_all (holds test) (entriesConds part)) parts \<longleftrightarrow> filterHolds test (AndF fs)"
    by (induction rule: list_all2_induct) auto
  show ?case
  proof (cases "mergeParts [] parts")
    case None
    with parts(2) all show ?thesis by (simp add: list_all_iff comp_def)
  next
    case (Some merged)
    then have "merged = concat parts" using mergeParts_concat by force
    with Some parts(2) all show ?thesis by (simp add: concat_entries list_all_iff)
  qed
next
  case (OrF fs)
  then obtain parts where parts: "mapr convert fs = Inr parts" "es = [(js ''$or'', VArr (map VObj parts))]"
    by (auto simp: bindr_eq_Inr)
  have "list_all2 (\<lambda>f part. convert f = Inr part) fs parts" using mapr_Inr_list_all2 [OF parts(1)] .
  then have "list_all2 (\<lambda>f part. list_all (holds test) (entriesConds part) \<longleftrightarrow> filterHolds test f) fs parts"
    by (rule list.rel_mono_strong) (use OrF.IH in auto)
  then have "list_ex (\<lambda>part. list_all (holds test) (entriesConds part)) parts \<longleftrightarrow> filterHolds test (OrF fs)"
    by (induction rule: list_all2_induct) auto
  with parts(2) show ?case by (simp add: list_ex_iff)
qed (simp add: unsupported_def)

lemma concat_filled: "list_all (\<lambda>q. q \<noteq> [] \<and> list_all P q) qs \<Longrightarrow> qs \<noteq> [] \<Longrightarrow> concat qs \<noteq> [] \<and> list_all P (concat qs)"
  by (cases qs) (auto simp: list_all_iff)

lemma convert_filled:
  "convert f = Inr es \<Longrightarrow> wfFilter rx f \<Longrightarrow> entriesConds es \<noteq> [] \<and> list_all filled (entriesConds es)"
proof (induction f arbitrary: es)
  case (FieldF path operator v)
  then show ?case by (auto simp: bindr_eq_Inr legacyPath_def unsupported_def split: option.splits if_splits)
next
  case (AndF fs)
  then obtain parts where parts: "mapr convert fs = Inr parts"
    "es = (case mergeParts [] parts of Some merged \<Rightarrow> merged | None \<Rightarrow> [(js ''$and'', VArr (map VObj parts))])"
    by (auto simp: bindr_eq_Inr)
  have "list_all2 (\<lambda>f part. convert f = Inr part) fs parts" using mapr_Inr_list_all2 [OF parts(1)] .
  then have "list_all2 (\<lambda>f part. entriesConds part \<noteq> [] \<and> list_all filled (entriesConds part)) fs parts"
    by (rule list.rel_mono_strong) (use AndF in \<open>auto simp: list_all_iff\<close>)
  then have all: "list_all (\<lambda>part. entriesConds part \<noteq> [] \<and> list_all filled (entriesConds part)) parts" "parts \<noteq> []"
    using AndF.prems by (auto simp: list_all2_conv_all_nth list_all_length)
  show ?case
  proof (cases "mergeParts [] parts")
    case None
    with parts(2) all show ?thesis by (simp add: list_all_iff)
  next
    case (Some merged)
    then have "merged = concat parts" using mergeParts_concat by force
    with Some parts(2) have "es = concat parts" by simp
    with all show ?thesis unfolding concat_entries by (auto intro!: concat_filled simp only: list.pred_map comp_def concat_entries map_is_Nil_conv)
  qed
next
  case (OrF fs)
  then obtain parts where parts: "mapr convert fs = Inr parts" "es = [(js ''$or'', VArr (map VObj parts))]"
    by (auto simp: bindr_eq_Inr)
  have "list_all2 (\<lambda>f part. convert f = Inr part) fs parts" using mapr_Inr_list_all2 [OF parts(1)] .
  then have "list_all2 (\<lambda>f part. entriesConds part \<noteq> [] \<and> list_all filled (entriesConds part)) fs parts"
    by (rule list.rel_mono_strong) (use OrF in \<open>auto simp: list_all_iff\<close>)
  then have "list_all (\<lambda>part. entriesConds part \<noteq> [] \<and> list_all filled (entriesConds part)) parts" "parts \<noteq> []"
    using OrF.prems by (auto simp: list_all2_conv_all_nth list_all_length)
  with parts(2) show ?case by (simp add: list_all_iff)
qed (simp add: unsupported_def)

section \<open>Values stay out of the text\<close>

text \<open>A condition without its values: what is left is their number, and whether a field must exist.\<close>

definition blankValue :: "jstr \<Rightarrow> jsval \<Rightarrow> jsval" where
  "blankValue op v = (if op = js ''$in'' \<or> op = js ''$nin'' then (case v of VArr vs \<Rightarrow> VArr (replicate (length vs) VNull) | _ \<Rightarrow> VNull)
     else if op = js ''$exists'' then VBool (v = VBool True) else VNull)"

primrec blank :: "Cond \<Rightarrow> Cond" where
  "blank (OpC key op v) = OpC key op (blankValue op v)"
| "blank (EqC key v) = EqC key VNull"
| "blank (AndC groups) = AndC (map (map blank) groups)"
| "blank (OrC groups) = OrC (map (map blank) groups)"

lemma mapPush_same_text:
  assumes "mapPush f xs ps = Inr (ys, ps')" "length ps = length qs"
    "\<And>x ps y ps' qs. x \<in> set xs \<Longrightarrow> f x ps = Inr (y, ps') \<Longrightarrow> length ps = length qs \<Longrightarrow>
       \<exists>qs'. g (h x) qs = Inr (y, qs') \<and> length ps' = length qs'"
  shows "\<exists>qs'. mapPush g (map h xs) qs = Inr (ys, qs') \<and> length ps' = length qs'"
  using assms
proof (induction xs arbitrary: ps qs ys ps')
  case (Cons x xs)
  from Cons.prems(1) obtain y ps1 rest where *: "f x ps = Inr (y, ps1)" "mapPush f xs ps1 = Inr (rest, ps')" "ys = y # rest"
    by (auto simp: bindr_eq_Inr split: prod.splits)
  obtain qs1 where q1: "g (h x) qs = Inr (y, qs1)" "length ps1 = length qs1" using Cons.prems(3) [OF _ *(1) Cons.prems(2)] by auto
  obtain qs' where "mapPush g (map h xs) qs1 = Inr (rest, qs')" "length ps' = length qs'"
    using Cons.IH [OF *(2) q1(2)] Cons.prems(3) by auto
  with q1(1) *(3) show ?case by simp
qed simp

lemma placeholder_length: "length ps = length qs \<Longrightarrow> placeholder ps = placeholder qs"
  by (simp add: placeholder_def)

lemma listClause_blank:
  assumes "listClause key op v word ps = Inr (t, ps')" "length ps = length qs"
  shows "\<exists>vs qs'. v = VArr vs \<and> listClause key op (VArr (replicate (length vs) VNull)) word qs = Inr (t, qs') \<and> length ps' = length qs'"
proof -
  from assms(1) obtain x xs where v: "v = VArr (x # xs)" by (auto simp: listClause_def split: jsval.splits list.splits)
  with assms(1) have sum: "bindr (mapPush pushValue (x # xs) ps) (\<lambda>(placeholders, ps').
      Inr (jsonTextField key @ word @ js '' ('' @ join (js '', '') placeholders @ js '')'', ps')) = Inr (t, ps')"
    by (simp add: listClause_def del: mapPush.simps)
  then obtain placeholders ps1 where "mapPush pushValue (x # xs) ps = Inr (placeholders, ps1)"
    by (cases "mapPush pushValue (x # xs) ps") (auto simp del: mapPush.simps)
  with sum have *: "mapPush pushValue (x # xs) ps = Inr (placeholders, ps')"
    "t = jsonTextField key @ word @ js '' ('' @ join (js '', '') placeholders @ js '')''"
    by (simp_all del: mapPush.simps)
  have "\<exists>qs'. mapPush pushValue (map (\<lambda>_. VNull) (x # xs)) qs = Inr (placeholders, qs') \<and> length ps' = length qs'"
    using *(1) assms(2) by (rule mapPush_same_text) (auto simp: pushValue_def Let_def intro!: placeholder_length)
  then obtain qs' where "mapPush pushValue (map (\<lambda>_. VNull) (x # xs)) qs = Inr (placeholders, qs')" "length ps' = length qs'" by blast
  moreover have "map (\<lambda>_. VNull) (x # xs) = replicate (length (x # xs)) VNull" by (rule map_replicate_const)
  ultimately have "listClause key op (VArr (replicate (length (x # xs)) VNull)) word qs = Inr (t, qs')"
    using *(2) by (simp add: listClause_def)
  with v \<open>length ps' = length qs'\<close> show ?thesis by blast
qed

lemma opClause_blank:
  assumes "opClause key (op, v) ps = Inr (t, ps')" "length ps = length qs"
  shows "\<exists>qs'. opClause key (op, blankValue op v) qs = Inr (t, qs') \<and> length ps' = length qs'"
proof -
  show ?thesis
  proof (cases "op = js ''$in'' \<or> op = js ''$nin''")
    case True
    then have "listClause key op v (if op = js ''$in'' then js '' IN'' else js '' NOT IN'') ps = Inr (t, ps')"
      using assms(1) by (auto simp: opClause_def COMPARISON_OPS_def)
    from listClause_blank [OF this assms(2)] True show ?thesis
      by (auto simp: opClause_def COMPARISON_OPS_def blankValue_def)
  next
    case False
    with assms show ?thesis
      by (auto simp: opClause_def blankValue_def Let_def placeholder_def js_inject simp del: js_Cons split: if_splits)
  qed
qed

lemma printCond_blank:
  "printCond c ps = Inr (t, ps') \<Longrightarrow> length ps = length qs \<Longrightarrow> \<exists>qs'. printCond (blank c) qs = Inr (t, qs') \<and> length ps' = length qs'"
proof (induction c ps arbitrary: t ps' qs rule: printCond.induct)
  case (1 key op v ps)
  then show ?case using opClause_blank by simp
next
  case (2 key v ps)
  then show ?case by (auto simp: Let_def placeholder_def)
next
  case (3 groups ps)
  from 3(2) obtain sub where *: "mapPush (mapPush printCond) groups ps = Inr (sub, ps')" "t = paren (join (js '' AND '') (map grouped sub))"
    by (auto simp: bindr_eq_Inr)
  have "\<exists>qs'. mapPush (mapPush printCond) (map (map blank) groups) qs = Inr (sub, qs') \<and> length ps' = length qs'"
    using *(1) 3(3) by (rule mapPush_same_text) (erule mapPush_same_text, use 3(1) in auto)
  with *(2) show ?case by auto
next
  case (4 groups ps)
  from 4(2) obtain sub where *: "mapPush (mapPush printCond) groups ps = Inr (sub, ps')" "t = paren (join (js '' OR '') (map grouped sub))"
    by (auto simp: bindr_eq_Inr)
  have "\<exists>qs'. mapPush (mapPush printCond) (map (map blank) groups) qs = Inr (sub, qs') \<and> length ps' = length qs'"
    using *(1) 4(3) by (rule mapPush_same_text) (erule mapPush_same_text, use 4(1) in auto)
  with *(2) show ?case by auto
qed

lemma clauses_blank: "mapPush printCond cs [] = Inr (clauses, ps) \<Longrightarrow> \<exists>qs. mapPush printCond (map blank cs) [] = Inr (clauses, qs)"
  using mapPush_same_text [of printCond cs "[]" clauses ps "[]" printCond blank] printCond_blank by (metis list.size(3))

section \<open>Placeholders and parameters agree\<close>

text \<open>A text that holds the placeholders \<open>n + 1 .. m\<close>, in this order; and a list of texts, one after the other.\<close>

definition numbered :: "nat \<Rightarrow> jstr \<Rightarrow> nat \<Rightarrow> bool" where
  "numbered n t m \<longleftrightarrow> n \<le> m \<and> refs t = [Suc n..<Suc m]"

fun chain :: "nat \<Rightarrow> jstr list \<Rightarrow> nat \<Rightarrow> bool" where
  "chain n [] m \<longleftrightarrow> n = m"
| "chain n (t # ts) m \<longleftrightarrow> (\<exists>k. numbered n t k \<and> chain k ts m)"

lemma chain_le: "chain n ts m \<Longrightarrow> n \<le> m"
  by (induction ts arbitrary: n) (fastforce simp: numbered_def)+

lemma chain_append: "chain n ts k \<Longrightarrow> chain k us m \<Longrightarrow> chain n (ts @ us) m"
  by (induction ts arbitrary: n) auto

lemma upt_glue: "i \<le> j \<Longrightarrow> j \<le> k \<Longrightarrow> [i..<j] @ [j..<k] = [i..<k]" for i :: nat
  by (metis le_add_diff_inverse upt_add_eq_append)

lemma numbered_join:
  assumes "chain n ts m" "plain sep" "sep \<noteq> []" "\<not> is_digit (hd sep)"
  shows "numbered n (join sep ts) m"
  using assms
proof (induction ts arbitrary: n)
  case (Cons t ts)
  then obtain k where *: "numbered n t k" "chain k ts m" by auto
  with Cons have rest: "numbered k (join sep ts) m" by simp
  show ?case
  proof (cases "ts = []")
    case False
    have "refs (join sep (t # ts)) = refs t @ refs (join sep ts)"
      using False Cons.prems(2-4) by (simp add: join_Cons refs_append refs_plain)
    moreover have "[Suc n..<Suc k] @ [Suc k..<Suc m] = [Suc n..<Suc m]"
      using * rest by (intro upt_glue) (simp_all add: numbered_def)
    ultimately show ?thesis using * rest by (simp add: numbered_def del: upt_Suc)
  qed (use * in simp)
qed (simp add: numbered_def)

lemma numbered_paren: "numbered n t m \<Longrightarrow> numbered n (paren t) m"
  by (simp add: numbered_def paren_def refs_append is_digit_def del: upt_Suc)

lemma numbered_and: "chain n ts m \<Longrightarrow> numbered n (join (js '' AND '') ts) m"
  and numbered_or: "chain n ts m \<Longrightarrow> numbered n (join (js '' OR '') ts) m"
  by (auto intro!: numbered_join simp: plain_def is_digit_def)

lemma numbered_grouped: "chain n ts m \<Longrightarrow> numbered n (grouped ts) m"
  using numbered_paren [OF numbered_and] unfolding grouped_def
  by (cases ts rule: remdups_adj.cases) (simp_all only: list.case, simp_all)

lemma refs_of_placeholder: "refs (placeholder ps) = [length ps]"
  using refs_placeholder [of "length ps"] by (simp add: placeholder_def)

lemma numbered_placeholder:
  "plain t \<Longrightarrow> plain u \<Longrightarrow> u = [] \<or> \<not> is_digit (hd u) \<Longrightarrow> numbered (length ps) (t @ placeholder (ps @ [x]) @ u) (Suc (length ps))"
  unfolding numbered_def refs_plain by (simp add: refs_append refs_of_placeholder refs_plain_Nil)

lemma numbered_plain: "plain t \<Longrightarrow> numbered n t n"
  by (simp add: numbered_def refs_plain_Nil)

lemma mapPush_chain:
  assumes "mapPush f xs ps = Inr (ts, ps')"
    "\<And>x ps t ps'. x \<in> set xs \<Longrightarrow> f x ps = Inr (t, ps') \<Longrightarrow> numbered (length ps) (g t) (length ps')"
  shows "chain (length ps) (map g ts) (length ps')"
  using assms
proof (induction xs arbitrary: ps ts)
  case (Cons x xs)
  from Cons.prems(1) obtain y ps1 rest where *: "f x ps = Inr (y, ps1)" "mapPush f xs ps1 = Inr (rest, ps')" "ts = y # rest"
    by (auto simp: bindr_eq_Inr split: prod.splits)
  with Cons.IH [OF *(2)] Cons.prems(2) show ?case by fastforce
qed simp

lemma mapPush_chains:
  assumes "mapPush f xs ps = Inr (tss, ps')"
    "\<And>x ps ts ps'. x \<in> set xs \<Longrightarrow> f x ps = Inr (ts, ps') \<Longrightarrow> chain (length ps) ts (length ps')"
  shows "chain (length ps) (concat tss) (length ps')"
  using assms
proof (induction xs arbitrary: ps tss)
  case (Cons x xs)
  from Cons.prems(1) obtain y ps1 rest where *: "f x ps = Inr (y, ps1)" "mapPush f xs ps1 = Inr (rest, ps')" "tss = y # rest"
    by (auto simp: bindr_eq_Inr split: prod.splits)
  with Cons.IH [OF *(2)] Cons.prems(2) show ?case by (fastforce intro: chain_append)
qed simp

lemma valid_field_plain: "VALID_FIELD_RE key \<Longrightarrow> plain key"
  by (auto simp: VALID_FIELD_RE_def plain_def list_all_iff is_alpha_def is_digit_def split: list.splits)

lemma split_plain_parts: "plain s \<Longrightarrow> list_all plain (split_on c s)"
  using split_on_parts [of _ c s] by (auto simp: plain_def list_all_iff)

lemma valid_field_texts: "VALID_FIELD_RE key \<Longrightarrow> plain (jsonTextField key) \<and> plain (jsonJsonbField key)"
  using split_plain_parts [OF valid_field_plain, of key 46] plain_join [of "js '',''" "split_on 46 key"]
  by (auto simp: jsonTextField_def jsonJsonbField_def split: list.splits)

lemma listClause_numbered:
  assumes "listClause key op v (js word) ps = Inr (t, ps')" "VALID_FIELD_RE key" "plain (js word)"
  shows "numbered (length ps) t (length ps')"
proof -
  from assms(1) obtain vs r where "v = VArr vs" and r: "mapPush pushValue vs ps = Inr r"
    and t: "t = jsonTextField key @ js word @ js '' ('' @ join (js '', '') (fst r) @ js '')''" "snd r = ps'"
    by (auto simp: listClause_def bindr_eq_Inr split: jsval.splits list.splits simp del: mapPush.simps)
  from r t(2) have "mapPush pushValue vs ps = Inr (fst r, ps')" by (metis prod.collapse)
  then have "chain (length ps) (map id (fst r)) (length ps')"
    by (rule mapPush_chain) (use numbered_placeholder [of "[]" "[]"] in \<open>auto simp: pushValue_def Let_def plain_def\<close>)
  then have "numbered (length ps) (join (js '', '') (fst r)) (length ps')"
    by (intro numbered_join) (simp_all add: plain_def is_digit_def)
  then show ?thesis using t(1) valid_field_texts [OF assms(2)] assms(3)
    by (simp add: numbered_def refs_plain refs_append is_digit_def del: upt_Suc)
qed

lemma opClause_numbered:
  assumes "opClause key e ps = Inr (t, ps')" "VALID_FIELD_RE key"
  shows "numbered (length ps) t (length ps')"
proof -
  note plain = valid_field_texts [OF assms(2)] valid_field_plain [OF assms(2)]
  have words: "plain (js '' = '')" "plain (js '' != '')" "plain (js '' ~ '')" "plain (js '' ~* '')" "plain (js '' @> '')" "plain (js ''::jsonb'')"
    "plain (js '')::numeric '')" "plain (js ''('')" "plain (js '' '')" by (simp_all add: plain_def)
  have op: "plain (the (map_of COMPARISON_OPS o1))" if "map_of COMPARISON_OPS o1 \<noteq> None" for o1
    using that by (auto simp: COMPARISON_OPS_def plain_def split: if_splits)
  note number = numbered_placeholder [of _ "[]", simplified append_Nil2]
  have contains: "numbered (length ps) (jsonJsonbField key @ js '' @> '' @ placeholder (ps @ [x]) @ js ''::jsonb'') (Suc (length ps))" for x
    using numbered_placeholder [of "jsonJsonbField key @ js '' @> ''" "js ''::jsonb''"] plain words by (simp add: is_digit_def)
  have exists: "numbered n (js ''data ? '' @ 39 # key @ [39]) n" "numbered n (js ''NOT (data ? '' @ 39 # key @ 39 # js '')'') n" for n
    using plain by (auto intro!: numbered_plain)
  have compare: "numbered (length ps) (js ''('' @ jsonTextField key @ js '')::numeric '' @ o1 @ js '' '' @ placeholder (ps @ [x])) (Suc (length ps))"
    if "map_of COMPARISON_OPS o2 = Some o1" for o1 o2 x
    using number [of "js ''('' @ jsonTextField key @ js '')::numeric '' @ o1 @ js '' ''"] op [of o2] plain that by simp
  have lists: "plain (js '' IN'')" "plain (js '' NOT IN'')" by (simp_all add: plain_def)
  show ?thesis
    using assms(1) plain
    unfolding opClause_def Let_def
    by (auto simp del: js_Cons simp: plain words contains exists compare split: if_splits
        intro!: number [of "jsonTextField key @ _", simplified append_assoc]
        elim: listClause_numbered [OF _ assms(2) lists(1)] listClause_numbered [OF _ assms(2) lists(2)])
qed

lemma clauses_numbered:
  "buildClauses f ps = Inr (cs, ps') \<Longrightarrow> chain (length ps) cs (length ps')"
  "buildEntry key v ps = Inr (cs, ps') \<Longrightarrow> chain (length ps) cs (length ps')"
proof (induction f ps and key v ps arbitrary: cs ps' and cs ps' rule: buildClauses_buildEntry.induct)
  case (1 f ps)
  show ?case
  proof (cases f)
    case (VObj es)
    with 1(2) obtain css where *: "mapPush (\<lambda>(k, v). buildEntry k v) es ps = Inr (css, ps')" "cs = concat css"
      by (auto simp: buildClauses.simps [of "VObj es"] bindr_eq_Inr split: prod.splits)
    have "chain (length qs) ds (length qs')" if "e \<in> set es" "(case e of (k, v) \<Rightarrow> buildEntry k v) qs = Inr (ds, qs')" for e qs ds qs'
      using 1(1) [OF VObj that(1)] that(2) by (cases e) auto
    from mapPush_chains [OF *(1) this] *(2) show ?thesis by simp
  qed (use 1(2) in \<open>auto simp: buildClauses.simps bindr_eq_Inr split: list.splits\<close>)
next
  case (2 key v ps)
  show ?case
  proof (cases "key = js ''$and'' \<or> key = js ''$or''")
    case True
    then obtain fs where fs: "v = VArr fs" using 2(3) by (auto simp: buildEntry.simps [of key] split: jsval.splits if_splits)
    let ?sep = "if key = js ''$and'' then js '' AND '' else js '' OR ''"
    from 2(3) True fs obtain sub where *: "mapPush buildClauses fs ps = Inr (sub, ps')" "cs = [paren (join ?sep (map grouped sub))]"
      by (auto simp: buildEntry.simps [of key] bindr_eq_Inr split: if_splits)
    have "numbered (length qs) (grouped ds) (length qs')" if "e \<in> set fs" "buildClauses e qs = Inr (ds, qs')" for e qs ds qs'
      using 2(1) [OF _ fs that] 2(2) [OF _ _ fs that] True numbered_grouped by blast
    then have "chain (length ps) (map grouped sub) (length ps')" by (rule mapPush_chain [OF *(1)])
    with *(2) show ?thesis by (auto intro!: numbered_paren dest: numbered_and numbered_or simp del: js_Cons)
  next
    case False
    with 2(3) have clause: "fieldClause key v ps = Inr (cs, ps')" and key: "VALID_FIELD_RE key"
      by (auto simp: buildEntry.simps [of key] bindr_eq_Inr validateFieldName_def split: if_splits)
    have eq: "chain (length ps) [js ''data @> '' @ placeholder (ps @ [x]) @ js ''::jsonb''] (Suc (length ps))" for x
      using numbered_placeholder [of "js ''data @> ''" "js ''::jsonb''"] by (simp add: is_digit_def)
    show ?thesis
    proof (cases v)
      case (VObj ops)
      with clause have "mapPush (opClause key) ops ps = Inr (cs, ps')" by (simp add: fieldClause_def)
      from mapPush_chain [OF this, of id] opClause_numbered [OF _ key] show ?thesis by simp
    qed (use clause eq in \<open>auto simp: fieldClause_def Let_def simp del: js_Cons chain.simps\<close>)
  qed
qed

lemma filter_numbered: "buildNoSqlFilter f 0 = Inr r \<Longrightarrow> numbered 0 (fr_where r) (length (fr_params r))"
  using clauses_numbered(1) [of f "[]"] numbered_plain [OF plain_Nil]
  by (fastforce simp: buildNoSqlFilter_def bindr_eq_Inr Let_def simp del: js_Cons intro: numbered_and split: if_splits prod.splits)

text \<open>A clause that is put behind other parameters has every placeholder moved.\<close>

lemma refs_digits: "list_all is_digit d \<Longrightarrow> refs (d @ s) = refs s"
  by (rule refs_plain) (auto simp: plain_def list_all_iff is_digit_def)

lemma read_number:
  "list_all is_digit d \<Longrightarrow> foldl (\<lambda>a c. 10 * a + nat (c - 48)) n d = nat (foldl (\<lambda>a c. 10 * a + (c - 48)) (int n) d)"
proof (induction d arbitrary: n)
  case (Cons c d)
  then have "int (10 * n + nat (c - 48)) = 10 * int n + (c - 48)" by (simp add: is_digit_def)
  with Cons show ?case by (simp del: of_nat_add of_nat_mult)
qed simp

lemma shift_hd: "hd (shiftPlaceholders off (c # s)) = c" "shiftPlaceholders off (c # s) \<noteq> []"
  by simp_all

lemma shift_head:
  "r = [] \<or> \<not> is_digit (hd r) \<Longrightarrow> shiftPlaceholders off r = [] \<or> \<not> is_digit (hd (shiftPlaceholders off r))"
  by (cases r) (simp_all add: shift_hd del: shiftPlaceholders.simps(2))

lemma shifted_placeholders: "0 \<notin> set (refs w) \<Longrightarrow> refs (shiftPlaceholders off w) = map (\<lambda>n. n + off) (refs w)"
proof (induction off w rule: shiftPlaceholders.induct)
  case (2 off c s)
  let ?d = "takeWhile is_digit s" and ?r = "dropWhile is_digit s"
  have digits: "list_all is_digit ?d" by (auto simp: list_all_iff dest: set_takeWhileD)
  show ?case
  proof (cases "c = 36 \<and> ?d \<noteq> []")
    case True
    have rest: "refs s = refs ?r" using refs_digits [OF digits, of ?r] by simp
    have number: "nat (foldl (\<lambda>a d. 10 * a + (d - 48)) 0 ?d) = digitsValue ?d"
      using read_number [OF digits, of 0] by (simp add: digitsValue_def)
    have "shiftPlaceholders off ?r = [] \<or> \<not> is_digit (hd (shiftPlaceholders off ?r))"
      using shift_head hd_dropWhile by blast
    then have "refs (shiftPlaceholders off (c # s)) = (digitsValue ?d + off) # refs (shiftPlaceholders off ?r)"
      using True refs_append [of "shiftPlaceholders off ?r" "js ''$'' @ show_nat (digitsValue ?d + off)"]
      by (simp only: shiftPlaceholders.simps number refs_placeholder if_True append_assoc) simp
    moreover have "refs (shiftPlaceholders off ?r) = map (\<lambda>n. n + off) (refs ?r)"
      using 2(1) True 2(3) rest by simp
    ultimately show ?thesis using True rest by simp
  next
    case False
    then have "c \<noteq> 36" using 2(3) by (auto simp: digitsValue_def)
    with 2(2) [OF False] 2(3) False show ?thesis by simp
  qed
qed simp

section \<open>Statements\<close>

lemma where_numbered: "numbered 0 w n \<Longrightarrow> numbered 0 (whereClause w) n"
  by (cases "w = []") (simp_all add: whereClause_def numbered_def refs_plain del: upt_Suc)

lemma sort_plain: "buildNoSqlSort s = Inr t \<Longrightarrow> plain t"
proof -
  have "plain t" if "sortTerm e = Inr t" for e t
    using that valid_field_texts [of "fst e"] valid_field_plain [of "fst e"]
    by (auto simp: sortTerm_def bindr_eq_Inr validateFieldName_def split: if_splits)
  then show "buildNoSqlSort s = Inr t \<Longrightarrow> plain t"
    by (fastforce simp: buildNoSqlSort_def bindr_eq_Inr list_all_iff intro: plain_join dest: mapr_Inr_elem split: option.splits)
qed

lemma projection_plain: "buildNoSqlProjection s = Inr (Some t) \<Longrightarrow> plain t"
proof -
  have field: "plain t" if "projectionArg e = Inr t" for e t
    using that valid_field_texts [of "fst e"] valid_field_plain [of "fst e"]
    by (auto simp: projectionArg_def bindr_eq_Inr validateFieldName_def split: if_splits)
  assume "buildNoSqlProjection s = Inr (Some t)"
  then have "\<exists>es args. mapr projectionArg es = Inr args \<and> t = js ''jsonb_build_object('' @ join (js '', '') args @ js '')''"
    unfolding buildNoSqlProjection_def Let_def
    by (cases s; cases "filter (\<lambda>e. snd e = 1) (the s) = []") (auto simp: bindr_eq_Inr simp del: js_Cons)
  then obtain es args where *: "mapr projectionArg es = Inr args" "t = js ''jsonb_build_object('' @ join (js '', '') args @ js '')''" by blast
  have "list_all plain args" unfolding list_all_iff using mapr_Inr_elem [OF *(1)] field by blast
  then have "plain (join (js '', '') args)" by (intro plain_join) simp_all
  with *(2) show "plain t" by simp
qed

lemma collection_plain: "VALID_COLLECTION_NAME c \<Longrightarrow> plain (qualifiedName c)"
  by (auto simp: VALID_COLLECTION_NAME_def qualifiedName_def plain_def list_all_iff is_alpha_def is_digit_def split: list.splits)

definition agrees :: "Query \<Rightarrow> bool" where
  "agrees q \<longleftrightarrow> refs (fst q) = [1..<Suc (length (snd q))]"

lemma wrapFailure_Inr [simp]: "wrapFailure l r = Inr x \<longleftrightarrow> r = Inr x"
  by (simp add: wrapFailure_def split: sum.splits)

lemma found_documents:
  assumes "findDocuments collection opts = Inr (page, tally)"
  shows "agrees page \<and> agrees tally \<and> VALID_COLLECTION_NAME collection \<and>
    (\<exists>r shown rest. buildNoSqlFilter (fo_filter opts) 0 = Inr r \<and>
      page = (js ''SELECT '' @ shown @ js '' FROM '' @ qualifiedName collection @ js '' '' @ whereClause (fr_where r) @ js '' '' @ rest,
        fr_params r @ [PNumber (min (max (orDefault (fo_limit opts) 50) 1) 1000), PNumber (max (orDefault (fo_offset opts) 0) 0)]) \<and>
      tally = (js ''SELECT COUNT(*)::int AS total FROM '' @ qualifiedName collection @ js '' '' @ whereClause (fr_where r), fr_params r))"
proof -
  from assms obtain r orderBy projection where *: "VALID_COLLECTION_NAME collection" "buildNoSqlFilter (fo_filter opts) 0 = Inr r"
    "buildNoSqlSort (fo_sort opts) = Inr orderBy" "buildNoSqlProjection (fo_project opts) = Inr projection"
    and stmts: "page = (js ''SELECT '' @ (case projection of Some p \<Rightarrow> js ''id, '' @ p @ js '' AS data, created_at, updated_at'' | None \<Rightarrow> js ''*'') @
        js '' FROM '' @ qualifiedName collection @ js '' '' @ whereClause (fr_where r) @ js '' '' @
        (if orderBy \<noteq> [] then js ''ORDER BY '' @ orderBy else []) @
        js '' LIMIT $'' @ show_nat (length (fr_params r) + 1) @ js '' OFFSET $'' @ show_nat (length (fr_params r) + 2),
        fr_params r @ [PNumber (min (max (orDefault (fo_limit opts) 50) 1) 1000), PNumber (max (orDefault (fo_offset opts) 0) 0)])"
      "tally = (js ''SELECT COUNT(*)::int AS total FROM '' @ qualifiedName collection @ js '' '' @ whereClause (fr_where r), fr_params r)"
    by (auto simp: findDocuments_def validateCollectionName_def bindr_eq_Inr Let_def simp del: js_Cons split: if_splits)
  let ?n = "length (fr_params r)"
  have w: "numbered 0 (whereClause (fr_where r)) ?n" using filter_numbered [OF *(2)] by (rule where_numbered)
  have shown: "plain (case projection of Some p \<Rightarrow> js ''id, '' @ p @ js '' AS data, created_at, updated_at'' | None \<Rightarrow> js ''*'')"
    using *(4) projection_plain by (auto split: option.splits)
  have order: "plain (if orderBy \<noteq> [] then js ''ORDER BY '' @ orderBy else [])" using sort_plain [OF *(3)] by simp
  have limit: "refs (js '' LIMIT $'' @ show_nat (?n + 1) @ js '' OFFSET $'' @ show_nat (?n + 2)) = [?n + 1, ?n + 2]"
    using refs_append [of "js '' OFFSET $'' @ show_nat (?n + 2)" "js ''$'' @ show_nat (?n + 1)"] refs_placeholder [of "?n + 1"] refs_placeholder [of "?n + 2"]
    by (simp add: is_digit_def)
  have "refs (fst page) = [1..<Suc ?n] @ [?n + 1, ?n + 2]"
    unfolding stmts fst_conv using w
    by (simp only: numbered_def refs_plain [OF shown] refs_plain [OF collection_plain [OF *(1)]] refs_plain [OF order]) 
       (simp add: refs_append refs_plain_Nil [OF order] refs_plain_Nil [OF shown] refs_plain_Nil [OF collection_plain [OF *(1)]]
          limit [simplified] is_digit_def del: upt_Suc)
  then have "agrees page" by (simp add: agrees_def stmts)
  moreover have "agrees tally"
    using w by (simp add: agrees_def stmts refs_plain [OF collection_plain [OF *(1)]] numbered_def del: upt_Suc)
  ultimately show ?thesis using * stmts by blast
qed

lemma counted_documents:
  assumes "countDocuments collection f = Inr q"
  shows "agrees q \<and> (\<exists>r. buildNoSqlFilter f 0 = Inr r \<and>
    q = (js ''SELECT COUNT(*)::int AS count FROM '' @ qualifiedName collection @ js '' '' @ whereClause (fr_where r), fr_params r))"
proof -
  from assms obtain r where *: "VALID_COLLECTION_NAME collection" "buildNoSqlFilter f 0 = Inr r"
    "q = (js ''SELECT COUNT(*)::int AS count FROM '' @ qualifiedName collection @ js '' '' @ whereClause (fr_where r), fr_params r)"
    by (auto simp: countDocuments_def validateCollectionName_def bindr_eq_Inr simp del: js_Cons split: if_splits)
  have "numbered 0 (whereClause (fr_where r)) (length (fr_params r))" using filter_numbered [OF *(2)] by (rule where_numbered)
  with * show ?thesis by (simp add: agrees_def refs_plain [OF collection_plain [OF *(1)]] numbered_def del: upt_Suc)
qed

text \<open>A bulk delete carries its filter, or is refused.\<close>

lemma deleted_documents:
  assumes "deleteDocuments collection f = Inr q"
  shows "agrees q \<and> (\<exists>r. buildNoSqlFilter f 0 = Inr r \<and>
    q = (js ''DELETE FROM '' @ qualifiedName collection @ js '' WHERE '' @ fr_where r, fr_params r))"
proof -
  from assms obtain r where *: "VALID_COLLECTION_NAME collection" "buildNoSqlFilter f 0 = Inr r"
    "q = (js ''DELETE FROM '' @ qualifiedName collection @ js '' WHERE '' @ fr_where r, fr_params r)"
    by (auto simp: deleteDocuments_def validateCollectionName_def bindr_eq_Inr simp del: js_Cons split: if_splits)
  with filter_numbered [OF *(2)] show ?thesis
    by (simp add: agrees_def refs_plain [OF collection_plain [OF *(1)]] numbered_def del: upt_Suc)
qed

lemma filter_of_tree:
  assumes "filterAstToLegacyFilter filt = Inr f" "buildNoSqlFilter f 0 = Inr r" "case filt of None \<Rightarrow> True | Some t \<Rightarrow> wfFilter rx t"
  shows "\<exists>cs clauses. mapPush printCond cs [] = Inr (clauses, fr_params r) \<and> fr_where r = join (js '' AND '') clauses \<and>
    list_all filled cs \<and> (\<forall>test. list_all (holds test) cs \<longleftrightarrow> (case filt of None \<Rightarrow> True | Some t \<Rightarrow> filterHolds test t))"
proof (cases filt)
  case None
  with assms have "r = \<lparr>fr_where = [], fr_params = []\<rparr>" by (simp add: filterAstToLegacyFilter_def buildNoSqlFilter_def)
  with None show ?thesis by (intro exI [of _ "[]"]) simp
next
  case (Some t)
  with assms(1) obtain es where es: "convert t = Inr es" "f = VObj es" by (auto simp: filterAstToLegacyFilter_def bindr_eq_Inr)
  from convert_filled [OF es(1)] Some assms(3) have filled: "entriesConds es \<noteq> []" "list_all filled (entriesConds es)" by auto
  then have "es \<noteq> []" by auto
  with assms(2) es(2) obtain clauses params where built: "buildClauses f [] = Inr (clauses, params)"
    "fr_where r = (if clauses = [] then [] else join (js '' AND '') clauses)" "fr_params r = (if clauses = [] then [] else params)"
    by (auto simp: buildNoSqlFilter_def bindr_eq_Inr Let_def simp del: js_Cons split: if_splits)
  from clauses_are_printed(1) [OF built(1)] es(2) have printed: "mapPush printCond (entriesConds es) [] = Inr (clauses, params)" by simp
  with filled(1) have "clauses \<noteq> []" by (cases "entriesConds es") (auto simp: bindr_eq_Inr simp del: concat_map_singleton split: prod.splits)
  with built printed filled(2) convert_keeps_meaning [OF es(1)] Some show ?thesis by auto
qed


section \<open>A concrete query\<close>

definition collectionQuery :: ParsedJsQuery where
  "collectionQuery =
     \<lparr>pj_entity = js ''orders'', pj_action = FindAction,
      pj_query = \<lparr>eq_entity = js ''orders'',
        eq_filter = Some (FieldF \<lparr>pr_path = js ''name'', pr_isArrayPath = False\<rparr> FEq (VStr (js ''a'')))
        , eq_sort = None, eq_limit = None, eq_offset = None, eq_select = None\<rparr>\<rparr>"

definition collectionText :: jstr where
  "collectionText = js ''db.orders.find({name: \"a\"})''"

definition collectionTokens :: "JToken list" where
  "collectionTokens = map (\<lambda>(t, c). tokenAt t 1 c)
     [(QIdent (js ''db''), 1), (QPunct 46, 3), (QIdent (js ''orders''), 4), (QPunct 46, 10), (QIdent (js ''find''), 11),
      (QPunct 40, 15), (QPunct 123, 16), (QIdent (js ''name''), 17), (QPunct 58, 21), (QStr (js ''a''), 23),
      (QPunct 125, 26), (QPunct 41, 27), (QEof, 28)]"

lemma collection_tokens: "tokenizeQuery collectionText = Inr collectionTokens"
  by code_simp

lemma collection_filter:
  "compileFilterObject (\<lambda>s. True) (VObj [(js ''name'', VStr (js ''a''))]) (js ''find()'') =
     Inr (Some (FieldF \<lparr>pr_path = js ''name'', pr_isArrayPath = False\<rparr> FEq (VStr (js ''a''))))"
  by code_simp

lemma collection_parsed: "parseJsQuery (\<lambda>s. True) collectionText = Some (Inr collectionQuery)"
proof -
  have "length collectionText = 27" by (simp add: collectionText_def)
  then show ?thesis
    unfolding parseJsQuery_def collection_tokens collectionTokens_def collectionQuery_def
    by (simp add: run_parser collection_filter [simplified] cong: let_weak_cong bindP_weak bindr_weak map_option_weak)
qed

definition collectionQueries :: "Query list" where
  "collectionQueries =
     [(js ''SELECT * FROM \"nosql\".\"orders\" WHERE data->>'' @ sq (js ''name'') @ js '' = $1  LIMIT $2 OFFSET $3'',
        [PValue (VStr (js ''a'')), PNumber 50, PNumber 0]),
      (js ''SELECT COUNT(*)::int AS total FROM \"nosql\".\"orders\" WHERE data->>'' @ sq (js ''name'') @ js '' = $1'',
        [PValue (VStr (js ''a''))])]"

lemma collection_run: "runCollectionQuery collectionQuery (resolvePaging (pj_query collectionQuery) None None) = Inr collectionQueries"
  by code_simp


section \<open>Where the code does not do what it means to\<close>

text \<open>Every \<open>$contains\<close> of the query language is refused: the parser marks its path as an array path.\<close>

lemma contains_never_arrives: "wfFilter rx (FieldF path FContains v) \<Longrightarrow> \<exists>m. convert (FieldF path FContains v) = Inl m"
  by (auto simp: OPERATOR_TO_LEGACY_def legacyPath_def)

text \<open>Equality on a dotted path compares the value of its first segment.\<close>

lemma dotted_equality:
  "buildNoSqlFilter (VObj [(js ''address.city'', VStr (js ''Rome''))]) 0 =
     Inr \<lparr>fr_where = js ''data @> $1::jsonb'', fr_params = [PJsonText (VObj [(js ''address'', VStr (js ''Rome''))])]\<rparr>"
  by code_simp

text \<open>\<open>$exists\<close> on a dotted path asks for a member with that name at the top.\<close>

lemma dotted_exists:
  "buildNoSqlFilter (VObj [(js ''address.city'', VObj [(js ''$exists'', VBool True)])]) 0 =
     Inr \<lparr>fr_where = js ''data ? '' @ sq (js ''address.city''), fr_params = []\<rparr>"
  by code_simp

text \<open>An empty group, or a field without operators in a bulk delete, yields a text that is no SQL.\<close>

lemma empty_group:
  "buildNoSqlFilter (VObj [(js ''$and'', VArr [])]) 0 = Inr \<lparr>fr_where = js ''()'', fr_params = []\<rparr>"
  "deleteDocuments (js ''users'') (VObj [(js ''age'', VObj [])]) = Inr (js ''DELETE FROM \"nosql\".\"users\" WHERE '', [])"
  by code_simp+

text \<open>A query with \<open>.limit(0)\<close> is answered with a row.\<close>

lemma limit_zero:
  "pg_limit (resolvePaging \<lparr>eq_entity = js ''users'', eq_filter = None, eq_sort = None, eq_limit = Some 0, eq_offset = None, eq_select = None\<rparr> None None) = 0"
  "findDocuments (js ''users'') \<lparr>fo_filter = VUndefined, fo_sort = None, fo_project = None, fo_limit = Some 0, fo_offset = Some 0\<rparr> =
     Inr ((js ''SELECT * FROM \"nosql\".\"users\"   LIMIT $1 OFFSET $2'', [PNumber 1, PNumber 0]),
       (js ''SELECT COUNT(*)::int AS total FROM \"nosql\".\"users\" '', []))"
  by code_simp+

end
