(* ===== verification/PgEngine.thy ===== *)
theory PgEngine
  imports NosqlFilter
begin

text \<open>
  The data engine on PostgreSQL, \<open>packages/data-engine/src/providers/postgres/postgres-engine.ts\<close>: documents of
  all tenants in one table of records, written through one statement per operation, and the compiler from the
  filter tree to SQL; with its twin in \<open>providers/nosql/nosql-engine.ts\<close>.

  The table is a map from ids to rows, and a statement on it is one step.  Times are their ISO texts.  The size of
  a document in bytes of JSON is an argument.  An object is the list of its members; \<open>...\<close> overwrites in place.
\<close>

section \<open>Rows and documents\<close>

type_synonym Members = "(jstr \<times> jsval) list"

record PgRow =
  rw_entity :: jstr
  rw_projectId :: jstr
  rw_version :: int
  rw_eventSequence :: int
  rw_lastEventId :: "jstr option"
  rw_schemaVersion :: int
  rw_status :: jstr
  rw_data :: Members
  rw_createdBy :: "jstr option"
  rw_createdAt :: jstr
  rw_updatedAt :: jstr
  rw_deletedAt :: "jstr option"

type_synonym Records = "jstr \<Rightarrow> PgRow option"

datatype EngineError = DocumentNotFound jstr jstr | ConcurrencyConflict jstr jstr int int | DocumentTooLarge nat nat | DuplicateKey
  | NotAnArray

record WriteOpts =
  wo_userId :: "jstr option"
  wo_ifMatch :: "int option"
  wo_status :: "jstr option"

definition spread :: "Members \<Rightarrow> Members \<Rightarrow> Members" where
  "spread base over = foldl (\<lambda>m (k, v). setKey k v m) base over"

definition DELETED :: jstr where "DELETED = js ''deleted''"

definition orNull :: "jstr option \<Rightarrow> jsval" where
  "orNull s = (case s of Some t \<Rightarrow> VStr t | None \<Rightarrow> VNull)"

definition toDocResult :: "jstr \<Rightarrow> PgRow \<Rightarrow> Members" where
  "toDocResult i row = spread (rw_data row)
     [(js ''_id'', VStr i), (js ''_entity'', VStr (rw_entity row)), (js ''_projectId'', VStr (rw_projectId row)),
      (js ''_schemaVersion'', VNum (of_int (rw_schemaVersion row))), (js ''_version'', VNum (of_int (rw_version row))),
      (js ''_lastEventId'', orNull (rw_lastEventId row)), (js ''_eventSequence'', VNum (of_int (rw_eventSequence row))),
      (js ''_status'', VStr (rw_status row)), (js ''_createdAt'', VStr (rw_createdAt row)), (js ''_updatedAt'', VStr (rw_updatedAt row)),
      (js ''_createdBy'', VStr (case rw_createdBy row of Some u \<Rightarrow> u | None \<Rightarrow> [])), (js ''_deletedAt'', orNull (rw_deletedAt row))]"

definition checkDocSize :: "nat \<Rightarrow> nat \<Rightarrow> EngineError + unit" where
  "checkDocSize maxDocumentKb docBytes = (if docBytes > maxDocumentKb * 1024
     then Inl (DocumentTooLarge ((docBytes + 1023) div 1024) maxDocumentKb) else Inr ())"

section \<open>Operations\<close>

text \<open>A handle of a project and an entity; the limit of its configuration.\<close>

record Handle =
  hd_projectId :: jstr
  hd_entity :: jstr
  hd_maxDocumentKb :: nat

definition owns :: "Handle \<Rightarrow> PgRow \<Rightarrow> bool" where
  "owns h row \<longleftrightarrow> rw_projectId row = hd_projectId h \<and> rw_entity row = hd_entity h"

definition insertDoc :: "(jsval \<Rightarrow> nat) \<Rightarrow> Handle \<Rightarrow> jstr \<Rightarrow> jstr \<Rightarrow> Members \<Rightarrow> WriteOpts \<Rightarrow> Records \<Rightarrow> (EngineError + Members) \<times> Records" where
  "insertDoc bytes h i now doc opts T = (case checkDocSize (hd_maxDocumentKb h) (bytes (VObj doc)) of
       Inl e \<Rightarrow> (Inl e, T)
     | Inr _ \<Rightarrow> if T i \<noteq> None then (Inl DuplicateKey, T)
       else (let row = \<lparr>rw_entity = hd_entity h, rw_projectId = hd_projectId h, rw_version = 1, rw_eventSequence = 1,
               rw_lastEventId = None, rw_schemaVersion = 1,
               rw_status = (case wo_status opts of Some s \<Rightarrow> s | None \<Rightarrow> js ''active''), rw_data = doc,
               rw_createdBy = Some (case wo_userId opts of Some u \<Rightarrow> u | None \<Rightarrow> []),
               rw_createdAt = now, rw_updatedAt = now, rw_deletedAt = None\<rparr>
             in (Inr (toDocResult i row), T(i \<mapsto> row))))"

definition getDoc :: "Handle \<Rightarrow> jstr \<Rightarrow> Records \<Rightarrow> Members option" where
  "getDoc h i T = (case T i of
       Some row \<Rightarrow> if owns h row \<and> rw_status row \<noteq> DELETED then Some (toDocResult i row) else None
     | None \<Rightarrow> None)"

text \<open>The first statement of a write with \<open>ifMatch\<close>.\<close>

definition checkMatch :: "Handle \<Rightarrow> jstr \<Rightarrow> WriteOpts \<Rightarrow> Records \<Rightarrow> EngineError + unit" where
  "checkMatch h i opts T = (case wo_ifMatch opts of None \<Rightarrow> Inr ()
     | Some wanted \<Rightarrow> (case T i of
         Some row \<Rightarrow> if \<not> owns h row then Inl (DocumentNotFound (hd_entity h) i)
           else if rw_version row \<noteq> wanted then Inl (ConcurrencyConflict (hd_entity h) i wanted (rw_version row))
           else Inr ()
       | None \<Rightarrow> Inl (DocumentNotFound (hd_entity h) i)))"

text \<open>The second one.\<close>

definition writeRow :: "Handle \<Rightarrow> jstr \<Rightarrow> jstr \<Rightarrow> (PgRow \<Rightarrow> PgRow) \<Rightarrow> Records \<Rightarrow> (EngineError + Members) \<times> Records" where
  "writeRow h i now change T = (case T i of
       Some row \<Rightarrow> if owns h row \<and> rw_status row \<noteq> DELETED
         then (let row' = (change row)\<lparr>rw_version := rw_version row + 1, rw_eventSequence := rw_eventSequence row + 1, rw_updatedAt := now\<rparr>
           in (Inr (toDocResult i row'), T(i \<mapsto> row')))
         else (Inl (DocumentNotFound (hd_entity h) i), T)
     | None \<Rightarrow> (Inl (DocumentNotFound (hd_entity h) i), T))"

definition patched :: "Members \<Rightarrow> PgRow \<Rightarrow> PgRow" where
  "patched p row = row\<lparr>rw_data := spread (rw_data row) p\<rparr>"

definition replaced :: "Members \<Rightarrow> PgRow \<Rightarrow> PgRow" where
  "replaced doc row = row\<lparr>rw_data := doc\<rparr>"

definition deletedAt :: "jstr \<Rightarrow> PgRow \<Rightarrow> PgRow" where
  "deletedAt now row = row\<lparr>rw_status := DELETED, rw_deletedAt := Some now\<rparr>"

definition updateDoc :: "(jsval \<Rightarrow> nat) \<Rightarrow> Handle \<Rightarrow> jstr \<Rightarrow> jstr \<Rightarrow> Members \<Rightarrow> WriteOpts \<Rightarrow> Records \<Rightarrow> (EngineError + Members) \<times> Records" where
  "updateDoc bytes h i now p opts T = (case checkDocSize (hd_maxDocumentKb h) (bytes (VObj p)) of
       Inl e \<Rightarrow> (Inl e, T)
     | Inr _ \<Rightarrow> (case checkMatch h i opts T of Inl e \<Rightarrow> (Inl e, T) | Inr _ \<Rightarrow> writeRow h i now (patched p) T))"

definition replaceDoc :: "(jsval \<Rightarrow> nat) \<Rightarrow> Handle \<Rightarrow> jstr \<Rightarrow> jstr \<Rightarrow> Members \<Rightarrow> WriteOpts \<Rightarrow> Records \<Rightarrow> (EngineError + Members) \<times> Records" where
  "replaceDoc bytes h i now doc opts T = (case checkDocSize (hd_maxDocumentKb h) (bytes (VObj doc)) of
       Inl e \<Rightarrow> (Inl e, T)
     | Inr _ \<Rightarrow> (case checkMatch h i opts T of Inl e \<Rightarrow> (Inl e, T) | Inr _ \<Rightarrow> writeRow h i now (replaced doc) T))"

definition deleteDoc :: "Handle \<Rightarrow> jstr \<Rightarrow> jstr \<Rightarrow> Records \<Rightarrow> (EngineError + unit) \<times> Records" where
  "deleteDoc h i now T = (case writeRow h i now (deletedAt now) T of
       (Inl e, T') \<Rightarrow> (Inl e, T') | (Inr _, T') \<Rightarrow> (Inr (), T'))"

definition deprovisionTenant :: "jstr \<Rightarrow> jstr \<Rightarrow> Records \<Rightarrow> Records" where
  "deprovisionTenant projectId now T = (\<lambda>i. map_option (\<lambda>row.
     if rw_projectId row = projectId \<and> rw_status row \<noteq> DELETED then deletedAt now row else row) (T i))"

section \<open>The filter compiler\<close>

datatype EngineParam = EText jsval | ERaw jsval | EJson jsval | ENum rat

text \<open>\<open>$\<close> with the number the code computes, and one parameter more.\<close>

definition numberedClause :: "nat \<Rightarrow> EngineParam \<Rightarrow> EngineParam list \<Rightarrow> jstr \<Rightarrow> jstr \<Rightarrow> EngineError + (jstr \<times> EngineParam list)" where
  "numberedClause currentIdx p ps before after = Inr (before @ js ''$'' @ show_nat (currentIdx + 1) @ after, ps @ [p])"

text \<open>\<open>arr.map\<close> over the items of \<open>in\<close>.\<close>

definition itemPlaceholders :: "nat \<Rightarrow> nat \<Rightarrow> jstr" where
  "itemPlaceholders currentIdx n = join (js '', '') (map (\<lambda>i. js ''$'' @ show_nat (currentIdx + 1 + i)) [0..<n])"

definition jsonPathSql :: "jstr \<Rightarrow> jstr" where
  "jsonPathSql path = js ''data->>'' @ sq (join (sq (js ''->'')) (split_on 46 path))"

text \<open>\<open>filter.value\<close> as a condition.\<close>

fun jsTruthy :: "jsval \<Rightarrow> bool" where
  "jsTruthy VNull = False" | "jsTruthy VUndefined = False" | "jsTruthy (VBool b) = b"
| "jsTruthy (VNum n) = (n \<noteq> 0)" | "jsTruthy (VStr s) = (s \<noteq> [])" | "jsTruthy v = True"

definition fieldFilterToSql :: "PathRef \<Rightarrow> FilterOperator \<Rightarrow> jsval \<Rightarrow> nat \<Rightarrow> EngineParam list \<Rightarrow> EngineError + (jstr \<times> EngineParam list)" where
  "fieldFilterToSql pathRef operator v startIdx params =
     (let path = pr_path pathRef; jsonPath = jsonPathSql path; currentIdx = startIdx + length params in
      case operator of
        FEq \<Rightarrow> numberedClause currentIdx (EText v) params (jsonPath @ js '' = '') []
      | FNeq \<Rightarrow> numberedClause currentIdx (EText v) params (jsonPath @ js '' != '') []
      | FGt \<Rightarrow> numberedClause currentIdx (ERaw v) params (js ''('' @ jsonPath @ js '')::numeric > '') []
      | FGte \<Rightarrow> numberedClause currentIdx (ERaw v) params (js ''('' @ jsonPath @ js '')::numeric >= '') []
      | FLt \<Rightarrow> numberedClause currentIdx (ERaw v) params (js ''('' @ jsonPath @ js '')::numeric < '') []
      | FLte \<Rightarrow> numberedClause currentIdx (ERaw v) params (js ''('' @ jsonPath @ js '')::numeric <= '') []
      | FContains \<Rightarrow> numberedClause currentIdx (EJson (VArr [v])) params (js ''data->'' @ sq path @ js '' @> '') (js ''::jsonb'')
      | FExists \<Rightarrow> Inr (if jsTruthy v then js ''data ? '' @ sq path else js ''NOT (data ? '' @ sq path @ js '')'', params)
      | FIn \<Rightarrow> (case v of
            VArr vs \<Rightarrow> Inr (jsonPath @ js '' IN ('' @ itemPlaceholders currentIdx (length vs) @ js '')'', params @ map EText vs)
          | _ \<Rightarrow> Inl NotAnArray)
      | _ \<Rightarrow> numberedClause currentIdx (EText v) params (jsonPath @ js '' = '') [])"

fun filterToSql :: "Filter \<Rightarrow> nat \<Rightarrow> EngineParam list \<Rightarrow> EngineError + (jstr \<times> EngineParam list)" where
  "filterToSql (FieldF path operator v) idx params = fieldFilterToSql path operator v idx params"
| "filterToSql (AndF conditions) idx params = bindr (mapPush (\<lambda>c ps. filterToSql c (idx + length ps) ps) conditions params)
     (\<lambda>(clauses, ps). Inr (paren (join (js '' AND '') clauses), ps))"
| "filterToSql (OrF conditions) idx params = bindr (mapPush (\<lambda>c ps. filterToSql c (idx + length ps) ps) conditions params)
     (\<lambda>(clauses, ps). Inr (paren (join (js '' OR '') clauses), ps))"
| "filterToSql (NotF condition) idx params = bindr (filterToSql condition idx params) (\<lambda>(inner, ps). Inr (js ''NOT '' @ paren inner, ps))"

definition compileFilter :: "Filter \<Rightarrow> nat \<Rightarrow> EngineError + (jstr \<times> EngineParam list)" where
  "compileFilter filt startIdx = filterToSql filt startIdx []"

section \<open>Queries\<close>

definition RECORDS :: jstr where "RECORDS = js ''data_engine.records''"

definition envelopeColumns :: "(jstr \<times> jstr) list" where
  "envelopeColumns = [(js ''_createdAt'', js ''created_at''), (js ''_updatedAt'', js ''updated_at''), (js ''_version'', js ''version''), (js ''_status'', js ''status'')]"

definition sortPathToSql :: "SortClause \<Rightarrow> jstr" where
  "sortPathToSql s = (let path = pr_path (sc_path s) in
     if starts_with (js ''_'') path then (case map_of envelopeColumns path of Some c \<Rightarrow> c | None \<Rightarrow> js ''created_at'')
     else js ''data->>'' @ sq path)"

definition orderBySql :: "SortClause list option \<Rightarrow> jstr" where
  "orderBySql clauses = (case clauses of
       Some (c # cs) \<Rightarrow> js ''ORDER BY '' @ join (js '', '') (map (\<lambda>s. sortPathToSql s @ js '' '' @ (if sc_desc s then js ''DESC'' else js ''ASC'') @ js '' NULLS LAST'') (c # cs))
     | _ \<Rightarrow> js ''ORDER BY created_at DESC'')"

text \<open>The clause of the handle, then the user's filter in parentheses.\<close>

definition whereSql :: "bool \<Rightarrow> Filter option \<Rightarrow> EngineError + (jstr \<times> EngineParam list)" where
  "whereSql includeDeleted filt =
     (let tenant = js ''project_id = $1 AND entity = $2'' @ (if includeDeleted then [] else js '' AND status != '' @ sq DELETED) in
      case filt of None \<Rightarrow> Inr (tenant, [])
      | Some f \<Rightarrow> bindr (compileFilter f 3) (\<lambda>(clause, ps). Inr (tenant @ js '' AND ('' @ clause @ js '')'', ps)))"

definition queryStatements :: "Handle \<Rightarrow> bool \<Rightarrow> EntityQuery \<Rightarrow> EngineError + (jstr \<times> EngineParam list) \<times> (jstr \<times> EngineParam list)" where
  "queryStatements h includeDeleted q = bindr (whereSql includeDeleted (eq_filter q)) (\<lambda>(w, filterParams).
     (let params = [ERaw (VStr (hd_projectId h)), ERaw (VStr (hd_entity h))] @ filterParams;
          limit = min (max (orDefault (eq_limit q) 50) 1) 1000; offset = max (orDefault (eq_offset q) 0) 0;
          limitIdx = 3 + length filterParams in
      Inr ((js ''SELECT * FROM '' @ RECORDS @ js '' WHERE '' @ w @ js '' '' @ orderBySql (eq_sort q) @ js '' LIMIT $'' @ show_nat limitIdx @
              js '' OFFSET $'' @ show_nat (limitIdx + 1), params @ [ENum limit, ENum offset]),
           (js ''SELECT COUNT(*)::int AS total FROM '' @ RECORDS @ js '' WHERE '' @ w, params))))"

definition countStatement :: "Handle \<Rightarrow> Filter option \<Rightarrow> EngineError + (jstr \<times> EngineParam list)" where
  "countStatement h filt = bindr (whereSql False filt) (\<lambda>(w, filterParams).
     Inr (js ''SELECT COUNT(*)::int AS total FROM '' @ RECORDS @ js '' WHERE '' @ w,
       [ERaw (VStr (hd_projectId h)), ERaw (VStr (hd_entity h))] @ filterParams))"

text \<open>\<open>hasMore\<close> and \<open>nextCursor\<close> of a page.\<close>

definition nextCursor :: "rat \<Rightarrow> rat \<Rightarrow> rat \<Rightarrow> rat option" where
  "nextCursor limit offset tally = (if offset + limit < tally then Some (offset + limit) else None)"

section \<open>The same compiler for N1QL\<close>

definition fieldFilterToN1ql :: "PathRef \<Rightarrow> FilterOperator \<Rightarrow> jsval \<Rightarrow> nat \<Rightarrow> EngineParam list \<Rightarrow> EngineError + (jstr \<times> EngineParam list)" where
  "fieldFilterToN1ql pathRef operator v idx params =
     (let path = [96] @ pr_path pathRef @ [96]; currentIdx = idx + length params in
      case operator of
        FEq \<Rightarrow> numberedClause currentIdx (ERaw v) params (path @ js '' = '') []
      | FNeq \<Rightarrow> numberedClause currentIdx (ERaw v) params (path @ js '' != '') []
      | FGt \<Rightarrow> numberedClause currentIdx (ERaw v) params (path @ js '' > '') []
      | FGte \<Rightarrow> numberedClause currentIdx (ERaw v) params (path @ js '' >= '') []
      | FLt \<Rightarrow> numberedClause currentIdx (ERaw v) params (path @ js '' < '') []
      | FLte \<Rightarrow> numberedClause currentIdx (ERaw v) params (path @ js '' <= '') []
      | FContains \<Rightarrow> numberedClause currentIdx (ERaw v) params [] (js '' IN '' @ path)
      | FExists \<Rightarrow> Inr (path @ (if jsTruthy v then js '' IS NOT MISSING'' else js '' IS MISSING''), params)
      | FIn \<Rightarrow> (case v of
            VArr vs \<Rightarrow> Inr (path @ js '' IN ['' @ itemPlaceholders currentIdx (length vs) @ js '']'', params @ map ERaw vs)
          | _ \<Rightarrow> Inl NotAnArray)
      | _ \<Rightarrow> numberedClause currentIdx (ERaw v) params (path @ js '' = '') [])"

fun filterToN1ql :: "Filter \<Rightarrow> nat \<Rightarrow> EngineParam list \<Rightarrow> EngineError + (jstr \<times> EngineParam list)" where
  "filterToN1ql (FieldF path operator v) idx params = fieldFilterToN1ql path operator v idx params"
| "filterToN1ql (AndF conditions) idx params = bindr (mapPush (\<lambda>c ps. filterToN1ql c (idx + length ps) ps) conditions params)
     (\<lambda>(clauses, ps). Inr (paren (join (js '' AND '') clauses), ps))"
| "filterToN1ql (OrF conditions) idx params = bindr (mapPush (\<lambda>c ps. filterToN1ql c (idx + length ps) ps) conditions params)
     (\<lambda>(clauses, ps). Inr (paren (join (js '' OR '') clauses), ps))"
| "filterToN1ql (NotF condition) idx params = bindr (filterToN1ql condition (idx + length params) params)
     (\<lambda>(inner, ps). Inr (js ''NOT '' @ paren inner, ps))"

end
