(* ===== verification/PgEngineRules.thy ===== *)
theory PgEngineRules
  imports PgEngine NosqlRules
begin

text \<open>
  What the data engine on PostgreSQL guarantees: tenants do not see each other whatever statements come between,
  a record keeps its place, its version counts its writes and a deleted one stays as it is; a filter cannot leave
  the parentheses behind the tenant's condition.  And what it does not: a filter's operands are never compared.
\<close>

section \<open>Every interleaving of statements\<close>

text \<open>One statement that changes the table, on behalf of a project.  A write with \<open>ifMatch\<close> has read the version
  before, with any number of other statements in between.\<close>

inductive engineStep :: "jstr \<Rightarrow> Records \<Rightarrow> Records \<Rightarrow> bool" where
  insert: "insertDoc bytes h i now doc opts T = (r, T') \<Longrightarrow> engineStep (hd_projectId h) T T'"
| update: "writeRow h i now (patched p) T = (r, T') \<Longrightarrow> engineStep (hd_projectId h) T T'"
| replace: "writeRow h i now (replaced doc) T = (r, T') \<Longrightarrow> engineStep (hd_projectId h) T T'"
| delete: "writeRow h i now (deletedAt now) T = (r, T') \<Longrightarrow> engineStep (hd_projectId h) T T'"
| deprovision: "engineStep projectId T (deprovisionTenant projectId now T)"

text \<open>What a step may do to one record.\<close>

definition keepsPlace :: "PgRow \<Rightarrow> PgRow \<Rightarrow> bool" where
  "keepsPlace row row' \<longleftrightarrow> rw_projectId row' = rw_projectId row \<and> rw_entity row' = rw_entity row \<and> rw_createdAt row' = rw_createdAt row \<and>
     rw_createdBy row' = rw_createdBy row \<and> rw_version row \<le> rw_version row' \<and> (rw_status row = DELETED \<longrightarrow> row' = row)"

lemma keepsPlace_refl [simp]: "keepsPlace row row"
  by (simp add: keepsPlace_def)

lemma keepsPlace_trans: "keepsPlace a b \<Longrightarrow> keepsPlace b c \<Longrightarrow> keepsPlace a c"
  by (auto simp: keepsPlace_def)

lemma written:
  assumes "writeRow h i now change T = (r, T')"
  shows "T' = T \<or> (\<exists>row. T i = Some row \<and> owns h row \<and> rw_status row \<noteq> DELETED \<and>
    T' = T(i \<mapsto> (change row)\<lparr>rw_version := rw_version row + 1, rw_eventSequence := rw_eventSequence row + 1, rw_updatedAt := now\<rparr>))"
  using assms by (auto simp: writeRow_def Let_def split: option.splits if_splits)

lemma inserted:
  assumes "insertDoc bytes h i now doc opts T = (r, T')"
  shows "T' = T \<or> (T i = None \<and> (\<exists>row. T' = T(i \<mapsto> row) \<and> owns h row \<and> rw_version row = 1 \<and> rw_eventSequence row = 1 \<and> rw_deletedAt row = None))"
  using assms by (auto simp: insertDoc_def Let_def owns_def split: sum.splits if_splits)

lemmas row_changes = patched_def replaced_def deletedAt_def

lemma step_keeps:
  assumes "engineStep p T T'" "T j = Some row"
  shows "\<exists>row'. T' j = Some row' \<and> keepsPlace row row' \<and> (rw_projectId row \<noteq> p \<longrightarrow> row' = row)"
  using assms
  by (cases rule: engineStep.cases)
    (force simp: row_changes keepsPlace_def owns_def deprovisionTenant_def dest!: written inserted split: if_splits)+

lemma step_adds:
  assumes "engineStep p T T'" "T j = None" "T' j = Some row"
  shows "rw_projectId row = p"
  using assms
  by (cases rule: engineStep.cases)
    (auto simp: owns_def deprovisionTenant_def dest!: written inserted split: if_splits)

abbreviation anyStep :: "Records \<Rightarrow> Records \<Rightarrow> bool" where
  "anyStep T T' \<equiv> \<exists>p. engineStep p T T'"

abbreviation foreignStep :: "jstr \<Rightarrow> Records \<Rightarrow> Records \<Rightarrow> bool" where
  "foreignStep p T T' \<equiv> \<exists>q. q \<noteq> p \<and> engineStep q T T'"

definition soundRow :: "PgRow \<Rightarrow> bool" where
  "soundRow row \<longleftrightarrow> rw_version row \<ge> 1 \<and> rw_eventSequence row = rw_version row \<and> (rw_deletedAt row \<noteq> None \<longrightarrow> rw_status row = DELETED)"

definition soundRecords :: "Records \<Rightarrow> bool" where
  "soundRecords T \<longleftrightarrow> (\<forall>i row. T i = Some row \<longrightarrow> soundRow row)"

lemma step_sound: "soundRecords T \<Longrightarrow> anyStep T T' \<Longrightarrow> soundRecords T'"
  by (elim exE engineStep.cases)
    (fastforce simp: soundRecords_def soundRow_def row_changes deprovisionTenant_def dest!: written inserted split: if_splits)+

interpretation records: step_system "\<lambda>T. T = Map.empty" anyStep soundRecords
  by (unfold_locales, simp add: soundRecords_def, rule step_sound)

text \<open>From an empty table, versions count the writes and only deleted records have a time of deletion.\<close>

theorem versions_count_writes: "anyStep\<^sup>*\<^sup>* Map.empty T \<Longrightarrow> T i = Some row \<Longrightarrow> soundRow row"
  using records.reachable_inv [OF refl] by (simp add: soundRecords_def)

text \<open>A record keeps its place: no statement of anyone moves it, takes its version back, or touches it once it is
  deleted.\<close>

theorem records_keep_their_place: "anyStep\<^sup>*\<^sup>* T T' \<Longrightarrow> T i = Some row \<Longrightarrow> \<exists>row'. T' i = Some row' \<and> keepsPlace row row'"
proof (induction rule: rtranclp_induct)
  case (step T1 T2)
  then show ?case using step_keeps keepsPlace_trans by meson
qed simp

lemma foreign_step_keeps:
  assumes "foreignStep p T T'"
  shows "(T i = Some row \<and> rw_projectId row = p) \<longleftrightarrow> (T' i = Some row \<and> rw_projectId row = p)"
proof -
  from assms obtain q where q: "q \<noteq> p" "engineStep q T T'" by blast
  show ?thesis
  proof (cases "T i")
    case None
    with step_adds [OF q(2)] q(1) show ?thesis by auto
  next
    case (Some r)
    from step_keeps [OF q(2) Some] obtain r' where "T' i = Some r'" "keepsPlace r r'" "rw_projectId r \<noteq> q \<longrightarrow> r' = r" by blast
    with Some q(1) show ?thesis by (auto simp: keepsPlace_def)
  qed
qed

lemma foreign_steps_keep:
  "(foreignStep p)\<^sup>*\<^sup>* T T' \<Longrightarrow> (T i = Some row \<and> rw_projectId row = p) \<longleftrightarrow> (T' i = Some row \<and> rw_projectId row = p)"
  by (induction rule: rtranclp_induct) (simp, meson foreign_step_keeps)

lemma getDoc_iff:
  "getDoc h i T = Some doc \<longleftrightarrow> (\<exists>row. (T i = Some row \<and> rw_projectId row = hd_projectId h) \<and> rw_entity row = hd_entity h \<and>
     rw_status row \<noteq> DELETED \<and> doc = toDocResult i row)"
  by (auto simp: getDoc_def owns_def split: option.splits if_splits)

lemma envelope_wins:
  "map_of (toDocResult i row) (js ''_projectId'') = Some (VStr (rw_projectId row))"
  "map_of (toDocResult i row) (js ''_entity'') = Some (VStr (rw_entity row))"
  "map_of (toDocResult i row) (js ''_id'') = Some (VStr i)"
  "map_of (toDocResult i row) (js ''_version'') = Some (VNum (of_int (rw_version row)))"
  by (simp_all add: toDocResult_def spread_def)

text \<open>C25.  What other tenants do is invisible: whatever statements of other projects run, a handle reads the same documents
  as before; and a document that is read names the project, the entity and the id it was asked for, whatever members
  it was stored with.\<close>

theorem tenants_are_separate:
  assumes "(foreignStep (hd_projectId h))\<^sup>*\<^sup>* T T'"
  shows "getDoc h i T' = getDoc h i T \<and>
    (\<forall>doc. getDoc h i T' = Some doc \<longrightarrow> map_of doc (js ''_projectId'') = Some (VStr (hd_projectId h)) \<and>
       map_of doc (js ''_entity'') = Some (VStr (hd_entity h)) \<and> map_of doc (js ''_id'') = Some (VStr i))"
proof -
  have "getDoc h i T' = Some doc \<longleftrightarrow> getDoc h i T = Some doc" for doc
    unfolding getDoc_iff using foreign_steps_keep [OF assms, of i] by blast
  then have "getDoc h i T' = getDoc h i T" by (metis not_Some_eq)
  moreover have "map_of doc (js ''_projectId'') = Some (VStr (hd_projectId h)) \<and>
       map_of doc (js ''_entity'') = Some (VStr (hd_entity h)) \<and> map_of doc (js ''_id'') = Some (VStr i)"
    if "getDoc h i T' = Some doc" for doc
    using that unfolding getDoc_iff by (elim exE conjE) (simp only: envelope_wins simp_thms)
  ultimately show ?thesis by blast
qed

section \<open>Matching versions\<close>

text \<open>A write that runs alone and asks for a version finds it, and leaves the next one.\<close>

lemma uncontended_write:
  assumes "updateDoc bytes h i now p opts T = (Inr doc, T')" "wo_ifMatch opts = Some v"
  shows "\<exists>row row'. T i = Some row \<and> rw_version row = v \<and> T' i = Some row' \<and> rw_version row' = v + 1 \<and>
    rw_data row' = spread (rw_data row) p \<and> doc = toDocResult i row'"
  using assms
  by (auto simp: updateDoc_def checkMatch_def writeRow_def patched_def Let_def split: sum.splits option.splits if_splits)

definition sampleHandle :: Handle where
  "sampleHandle = \<lparr>hd_projectId = js ''p1'', hd_entity = js ''orders'', hd_maxDocumentKb = 64\<rparr>"

definition sampleRecords :: Records where
  "sampleRecords = snd (insertDoc (\<lambda>_. 10) sampleHandle (js ''d1'') (js ''t0'') [(js ''_projectId'', VStr (js ''p2''))]
     \<lparr>wo_userId = None, wo_ifMatch = None, wo_status = None\<rparr> Map.empty)"

definition sampleWrite :: WriteOpts where
  "sampleWrite = \<lparr>wo_userId = None, wo_ifMatch = Some 1, wo_status = None\<rparr>"

text \<open>The version is compared by a statement of its own: of two writers that both ask for version 1, both are told that
  they have won, and the first one's value is lost.\<close>

lemma both_writers_win:
  assumes "T i = Some row" "owns h row" "rw_status row \<noteq> DELETED" "wo_ifMatch opts = Some (rw_version row)"
    and "writeRow h i t1 (patched p) T = (first, T1)" "writeRow h i t2 (patched q) T1 = (second, T2)"
  shows "checkMatch h i opts T = Inr ()" "\<exists>d. first = Inr d" "\<exists>d. second = Inr d" "map_option rw_version (T2 i) = Some (rw_version row + 2)"
  using assms by (auto simp: checkMatch_def writeRow_def patched_def owns_def Let_def)

theorem tenants_are_separate_witness:
  "getDoc sampleHandle (js ''d1'') (deprovisionTenant (js ''p2'') (js ''t1'') sampleRecords) = getDoc sampleHandle (js ''d1'') sampleRecords \<and>
   (\<exists>doc. getDoc sampleHandle (js ''d1'') sampleRecords = Some doc \<and> map_of doc (js ''_projectId'') = Some (VStr (js ''p1'')))"
proof -
  have "js ''p2'' \<noteq> hd_projectId sampleHandle" by (simp add: sampleHandle_def)
  then have "foreignStep (hd_projectId sampleHandle) sampleRecords (deprovisionTenant (js ''p2'') (js ''t1'') sampleRecords)"
    using engineStep.deprovision by blast
  then have steps: "(foreignStep (hd_projectId sampleHandle))\<^sup>*\<^sup>* sampleRecords (deprovisionTenant (js ''p2'') (js ''t1'') sampleRecords)"
    by (rule r_into_rtranclp [of "foreignStep (hd_projectId sampleHandle)"])
  have "getDoc sampleHandle (js ''d1'') sampleRecords \<noteq> None"
    by (simp add: sampleRecords_def sampleHandle_def insertDoc_def checkDocSize_def getDoc_def owns_def DELETED_def Let_def)
  then show ?thesis using tenants_are_separate [OF steps, of "js ''d1''"] by (auto simp: sampleHandle_def)
qed

section \<open>The tenant's condition stands\<close>

text \<open>The nesting of parentheses; \<open>None\<close> when one closes that was not opened.\<close>

fun nest :: "nat \<Rightarrow> jstr \<Rightarrow> nat option" where
  "nest d [] = Some d"
| "nest d (c # s) = (if c = 40 then nest (Suc d) s else if c = 41 then (if d = 0 then None else nest (d - 1) s) else nest d s)"

lemma nest_append: "nest d (a @ b) = Option.bind (nest d a) (\<lambda>e. nest e b)"
  by (induction d a rule: nest.induct) auto

definition level :: "jstr \<Rightarrow> bool" where
  "level t \<longleftrightarrow> (\<forall>d. nest d t = Some d)"

lemma mapPush_list_all:
  "mapPush f xs ps = Inr (ts, qs) \<Longrightarrow> (\<And>x ps t qs. x \<in> set xs \<Longrightarrow> f x ps = Inr (t, qs) \<Longrightarrow> P t) \<Longrightarrow> list_all P ts"
  by (induction xs arbitrary: ps ts) (fastforce simp: bindr_eq_Inr split: prod.splits)+

named_theorems level_intros \<open>texts whose parentheses match\<close>

lemma level_append [level_intros]: "level a \<Longrightarrow> level b \<Longrightarrow> level (a @ b)"
  by (simp add: level_def nest_append)

lemma level_plain: "40 \<notin> set t \<Longrightarrow> 41 \<notin> set t \<Longrightarrow> level t"
proof -
  have "40 \<notin> set t \<Longrightarrow> 41 \<notin> set t \<Longrightarrow> nest d t = Some d" for d by (induction t) auto
  then show "40 \<notin> set t \<Longrightarrow> 41 \<notin> set t \<Longrightarrow> ?thesis" by (simp add: level_def)
qed

lemma level_paren [level_intros]: "level t \<Longrightarrow> level (paren t)"
  by (simp add: level_def paren_def nest_append)

lemma level_join [level_intros]: "level sep \<Longrightarrow> list_all level ts \<Longrightarrow> level (join sep ts)"
proof (induction ts)
  case (Cons t ts)
  then show ?case by (auto simp: join_Cons intro!: level_append)
qed (simp add: level_def)

lemma level_number [level_intros]: "level (show_nat n)"
  by (rule level_plain) (auto dest!: show_nat_digits simp: is_digit_def)

lemma level_js: "CHR ''('' \<notin> set s \<Longrightarrow> CHR '')'' \<notin> set s \<Longrightarrow> level (js s)"
proof (rule level_plain)
  have "inj (of_char :: char \<Rightarrow> int)" by (simp add: inj_on_def)
  then have *: "of_char c \<in> set (js s) \<longleftrightarrow> c \<in> set s" for c
    by (simp add: js_def inj_image_mem_iff)
  show "CHR ''('' \<notin> set s \<Longrightarrow> 40 \<notin> set (js s)" using * [of "CHR ''(''"] by simp
  show "CHR '')'' \<notin> set s \<Longrightarrow> 41 \<notin> set (js s)" using * [of "CHR '')''"] by simp
qed

lemma level_sq [level_intros]: "level t \<Longrightarrow> level (39 # t @ [39])"
  by (simp add: level_def nest_append)

lemma level_safe: "safePath p \<Longrightarrow> level p"
  by (rule level_plain) (auto dest!: safePath_units simp: isPathChar_def isPathStart_def is_alpha_def is_digit_def)

lemma level_jsonPath: "safePath p \<Longrightarrow> level (jsonPathSql p)"
proof -
  assume "safePath p"
  then have "40 \<notin> set p" "41 \<notin> set p" by (auto dest!: safePath_units simp: isPathChar_def isPathStart_def is_alpha_def is_digit_def)
  then have "list_all level (split_on 46 p)"
    using split_on_parts [of _ 46 p] unfolding list_all_iff by (blast intro: level_plain)
  then show ?thesis unfolding jsonPathSql_def
    by (intro level_append level_join) (simp_all add: level_plain)
qed

lemma level_items: "level (itemPlaceholders n k)"
  unfolding itemPlaceholders_def
  by (intro level_join) (auto simp: list_all_iff level_plain intro!: level_append [OF level_js level_number, of "''$''", simplified])

lemma field_level:
  assumes "fieldFilterToSql path operator v idx ps = Inr (t, qs)" "safePath (pr_path path)"
  shows "level t"
proof -
  note level_jsonPath [OF assms(2), unfolded level_def, THEN spec, simp] level_safe [OF assms(2), unfolded level_def, THEN spec, simp]
    level_items [unfolded level_def, THEN spec, simp] level_number [unfolded level_def, THEN spec, simp]
  show ?thesis using assms(1)
    by (cases operator)
      (auto simp: fieldFilterToSql_def numberedClause_def Let_def level_def nest_append split: jsval.splits if_splits)
qed

lemma filter_level: "filterToSql f idx ps = Inr (t, qs) \<Longrightarrow> wfFilter rx f \<Longrightarrow> level t"
proof (induction f idx ps arbitrary: t qs rule: filterToSql.induct)
  case (1 path operator v idx params)
  then show ?case using field_level by simp
next
  case (2 conditions idx params)
  then obtain ts where *: "mapPush (\<lambda>c ps. filterToSql c (idx + length ps) ps) conditions params = Inr (ts, qs)" "t = paren (join (js '' AND '') ts)"
    by (auto simp: bindr_eq_Inr)
  have "list_all level ts"
    using *(1) by (rule mapPush_list_all) (use 2 in \<open>auto simp: list_all_iff\<close>)
  then show ?case unfolding *(2) by (intro level_paren level_join level_js) simp_all
next
  case (3 conditions idx params)
  then obtain ts where *: "mapPush (\<lambda>c ps. filterToSql c (idx + length ps) ps) conditions params = Inr (ts, qs)" "t = paren (join (js '' OR '') ts)"
    by (auto simp: bindr_eq_Inr)
  have "list_all level ts"
    using *(1) by (rule mapPush_list_all) (use 3 in \<open>auto simp: list_all_iff\<close>)
  then show ?case unfolding *(2) by (intro level_paren level_join level_js) simp_all
next
  case (4 condition idx params)
  then show ?case by (auto simp del: js_Cons simp: bindr_eq_Inr intro!: level_append level_paren level_js)
qed

text \<open>A compiled filter never leaves the parentheses behind the condition on project and entity: no \<open>OR\<close> of the
  filter is beside it.\<close>

theorem tenant_condition_stands:
  assumes "whereSql includeDeleted (Some f) = Inr (w, ps)" "wfFilter rx f"
  shows "\<exists>clause. w = js ''project_id = $1 AND entity = $2'' @ (if includeDeleted then [] else js '' AND status != '' @ sq DELETED) @
    js '' AND ('' @ clause @ js '')'' \<and> (\<forall>d. nest d clause = Some d)"
proof -
  from assms(1) obtain clause where c: "compileFilter f 3 = Inr (clause, ps)"
    "w = (js ''project_id = $1 AND entity = $2'' @ (if includeDeleted then [] else js '' AND status != '' @ sq DELETED)) @ js '' AND ('' @ clause @ js '')''"
    by (auto simp del: js_Cons simp: whereSql_def Let_def bindr_eq_Inr)
  have "level clause" using filter_level c(1) assms(2) unfolding compileFilter_def by blast
  with c(2) show ?thesis unfolding level_def by (intro exI [of _ clause]) simp
qed

section \<open>Operands are never compared\<close>

text \<open>The first parameter of a filter is the third of the statement, and the clause names the fourth: the limit of the page,
  and nothing at all in the count.\<close>

lemma operand_off_by_one:
  "compileFilter (FieldF path FEq v) 3 = Inr (jsonPathSql (pr_path path) @ js '' = $4'', [EText v])"
  by (simp add: compileFilter_def fieldFilterToSql_def numberedClause_def Let_def show_nat.simps)

lemma filter_compares_with_the_limit:
  assumes "queryStatements h False q = Inr ((page, params), (tally, countParams))" "eq_filter q = Some (FieldF path FEq v)"
  shows "params ! 3 = ENum (min (max (orDefault (eq_limit q) 50) 1) 1000)" "length countParams = 3" "params ! 2 = EText v"
  using assms by (auto simp del: js_Cons simp: queryStatements_def whereSql_def operand_off_by_one Let_def)

text \<open>Inside a conjunction the parameters before a condition are counted twice.\<close>

lemma nested_operands_skip:
  "compileFilter (AndF [FieldF a FEq v, FieldF b FEq u]) 3 =
     Inr (paren (jsonPathSql (pr_path a) @ js '' = $4 AND '' @ jsonPathSql (pr_path b) @ js '' = $6''), [EText v, EText u])"
  by (simp add: compileFilter_def fieldFilterToSql_def numberedClause_def Let_def show_nat.simps)

text \<open>Below the first segment a path asks for a member of a text.\<close>

lemma dotted_path_is_text_of_text: "jsonPathSql (js ''a.b'') = js ''data->>'' @ sq (js ''a'') @ js ''->'' @ sq (js ''b'')"
  by (simp add: jsonPathSql_def)

text \<open>Operators the compiler does not know are equality, also the negative one.\<close>

lemma not_in_is_equality:
  "fieldFilterToSql path FNin v idx ps = fieldFilterToSql path FEq v idx ps"
  "fieldFilterToN1ql path FNin v idx ps = fieldFilterToN1ql path FEq v idx ps"
  by (simp_all add: fieldFilterToSql_def fieldFilterToN1ql_def Let_def)

end
