(* ===== verification/CbEngine.thy ===== *)
theory CbEngine
  imports PgEngine
begin

text \<open>
  The data engine on Couchbase, \<open>packages/data-engine/src/providers/nosql/nosql-engine.ts\<close>: one collection for the
  documents of all tenants, each stored with its envelope in the same object, and compare-and-swap on every write.
  An operation reads and then writes; between the two the store may change, so they are two functions.

  The store is a map from ids to a content and its CAS.  The CAS a write hands out is an argument, as is the text
  that \<open>+\<close> makes of an array or an object.
\<close>

type_synonym Bucket = "jstr \<Rightarrow> (Members \<times> int) option"

datatype CbError = Engine EngineError | CasMismatch | KeyExists | KeyMissing

definition optionalMember :: "Members \<Rightarrow> jstr \<Rightarrow> jsval" where
  "optionalMember content k = (case map_of content k of Some v \<Rightarrow> v | None \<Rightarrow> VUndefined)"

text \<open>What is left of an object after its way through JSON.\<close>

definition storedMembers :: "Members \<Rightarrow> Members" where
  "storedMembers content = filter (\<lambda>(k, v). v \<noteq> VUndefined) content"

text \<open>\<open>(content._eventSequence ?? 0) + 1\<close>; the member is in the user's reach.\<close>

definition nextSequence :: "(jsval \<Rightarrow> jstr) \<Rightarrow> Members \<Rightarrow> jsval" where
  "nextSequence textOf content = (case optionalMember content (js ''_eventSequence'') of
       VNum n \<Rightarrow> VNum (n + 1) | VNull \<Rightarrow> VNum 1 | VUndefined \<Rightarrow> VNum 1
     | VBool b \<Rightarrow> VNum (if b then 2 else 1) | VStr s \<Rightarrow> VStr (s @ js ''1'') | v \<Rightarrow> VStr (textOf v @ js ''1''))"

definition buildEnvelope :: "Handle \<Rightarrow> jstr \<Rightarrow> jstr \<Rightarrow> Members \<Rightarrow> int \<Rightarrow> WriteOpts \<Rightarrow> Members" where
  "buildEnvelope h i now doc cas opts = spread
     [(js ''_id'', VStr i), (js ''_entity'', VStr (hd_entity h)), (js ''_projectId'', VStr (hd_projectId h)),
      (js ''_schemaVersion'', VNum 1), (js ''_version'', VNum (of_int cas)), (js ''_lastEventId'', VNull), (js ''_eventSequence'', VNum 1),
      (js ''_status'', VStr (case wo_status opts of Some s \<Rightarrow> s | None \<Rightarrow> js ''active'')),
      (js ''_createdAt'', VStr now), (js ''_updatedAt'', VStr now),
      (js ''_createdBy'', VStr (case wo_userId opts of Some u \<Rightarrow> u | None \<Rightarrow> [])), (js ''_deletedAt'', VNull)] doc"

definition sized :: "(jsval \<Rightarrow> nat) \<Rightarrow> Handle \<Rightarrow> Members \<Rightarrow> CbError + unit" where
  "sized bytes h doc = (case checkDocSize (hd_maxDocumentKb h) (bytes (VObj doc)) of Inl e \<Rightarrow> Inl (Engine e) | Inr u \<Rightarrow> Inr u)"

definition cbInsert :: "(jsval \<Rightarrow> nat) \<Rightarrow> Handle \<Rightarrow> jstr \<Rightarrow> jstr \<Rightarrow> int \<Rightarrow> Members \<Rightarrow> WriteOpts \<Rightarrow> Bucket \<Rightarrow> (CbError + Members) \<times> Bucket" where
  "cbInsert bytes h i now cas doc opts B = (case sized bytes h doc of
       Inl e \<Rightarrow> (Inl e, B)
     | Inr _ \<Rightarrow> if B i \<noteq> None then (Inl KeyExists, B)
       else (let envelope = buildEnvelope h i now doc 0 opts
             in (Inr (setKey (js ''_version'') (VNum (of_int cas)) envelope), B(i \<mapsto> (storedMembers envelope, cas)))))"

definition holds :: "Members \<Rightarrow> jstr \<Rightarrow> jstr \<Rightarrow> bool" where
  "holds content k s \<longleftrightarrow> map_of content k = Some (VStr s)"

definition cbGet :: "Handle \<Rightarrow> jstr \<Rightarrow> Bucket \<Rightarrow> Members option" where
  "cbGet h i B = (case B i of None \<Rightarrow> None
     | Some (content, cas) \<Rightarrow>
        if \<not> holds content (js ''_projectId'') (hd_projectId h) then None
        else if \<not> holds content (js ''_entity'') (hd_entity h) then None
        else if holds content (js ''_status'') DELETED then None
        else Some (setKey (js ''_version'') (VNum (of_int cas)) content))"

text \<open>The document an operation starts from.\<close>

definition cbCurrent :: "Handle \<Rightarrow> jstr \<Rightarrow> Bucket \<Rightarrow> CbError + (Members \<times> int)" where
  "cbCurrent h i B = (case B i of None \<Rightarrow> Inl (Engine (DocumentNotFound (hd_entity h) i))
     | Some (content, cas) \<Rightarrow>
        if \<not> holds content (js ''_projectId'') (hd_projectId h) then Inl (Engine (DocumentNotFound (hd_entity h) i))
        else Inr (content, cas))"

definition casCheck :: "Handle \<Rightarrow> jstr \<Rightarrow> WriteOpts \<Rightarrow> int \<Rightarrow> CbError + unit" where
  "casCheck h i opts cas = (case wo_ifMatch opts of None \<Rightarrow> Inr ()
     | Some wanted \<Rightarrow> if cas \<noteq> wanted then Inl (Engine (ConcurrencyConflict (hd_entity h) i wanted cas)) else Inr ())"

text \<open>What \<open>update\<close>, \<open>replace\<close> and \<open>delete\<close> will write, from what they read, with the CAS they read.\<close>

definition updateContent :: "(jsval \<Rightarrow> nat) \<Rightarrow> (jsval \<Rightarrow> jstr) \<Rightarrow> Handle \<Rightarrow> jstr \<Rightarrow> jstr \<Rightarrow> Members \<Rightarrow> WriteOpts \<Rightarrow> Bucket \<Rightarrow> CbError + (Members \<times> int)" where
  "updateContent bytes textOf h i now p opts B = bindr (sized bytes h p) (\<lambda>_. bindr (cbCurrent h i B) (\<lambda>(content, cas).
     if holds content (js ''_status'') DELETED then Inl (Engine (DocumentNotFound (hd_entity h) i))
     else bindr (casCheck h i opts cas) (\<lambda>_.
       Inr (spread (spread content p) [(js ''_updatedAt'', VStr now), (js ''_eventSequence'', nextSequence textOf content)], cas))))"

definition replaceContent :: "(jsval \<Rightarrow> nat) \<Rightarrow> (jsval \<Rightarrow> jstr) \<Rightarrow> Handle \<Rightarrow> jstr \<Rightarrow> jstr \<Rightarrow> Members \<Rightarrow> WriteOpts \<Rightarrow> Bucket \<Rightarrow> CbError + (Members \<times> int)" where
  "replaceContent bytes textOf h i now doc opts B = bindr (sized bytes h doc) (\<lambda>_. bindr (cbCurrent h i B) (\<lambda>(content, cas).
     bindr (casCheck h i opts cas) (\<lambda>_.
       Inr (spread
         [(js ''_id'', optionalMember content (js ''_id'')), (js ''_entity'', VStr (hd_entity h)), (js ''_projectId'', VStr (hd_projectId h)),
          (js ''_schemaVersion'', optionalMember content (js ''_schemaVersion'')), (js ''_version'', VNum 0),
          (js ''_lastEventId'', optionalMember content (js ''_lastEventId'')), (js ''_eventSequence'', nextSequence textOf content),
          (js ''_status'', optionalMember content (js ''_status'')), (js ''_createdAt'', optionalMember content (js ''_createdAt'')),
          (js ''_updatedAt'', VStr now), (js ''_createdBy'', optionalMember content (js ''_createdBy'')), (js ''_deletedAt'', VNull)] doc, cas))))"

definition deleteContent :: "(jsval \<Rightarrow> jstr) \<Rightarrow> Handle \<Rightarrow> jstr \<Rightarrow> jstr \<Rightarrow> Bucket \<Rightarrow> CbError + (Members \<times> int)" where
  "deleteContent textOf h i now B = bindr (cbCurrent h i B) (\<lambda>(content, cas).
     Inr (spread content [(js ''_status'', VStr DELETED), (js ''_deletedAt'', VStr now), (js ''_updatedAt'', VStr now),
       (js ''_eventSequence'', nextSequence textOf content)], cas))"

text \<open>\<open>col.replace\<close> with a CAS, and the answer \<open>update\<close> and \<open>replace\<close> give; \<open>delete\<close> lets the error through.\<close>

definition casReplace :: "jstr \<Rightarrow> Members \<Rightarrow> int \<Rightarrow> int \<Rightarrow> Bucket \<Rightarrow> (CbError + unit) \<times> Bucket" where
  "casReplace i content cas newCas B = (case B i of None \<Rightarrow> (Inl KeyMissing, B)
     | Some (_, stored) \<Rightarrow> if stored \<noteq> cas then (Inl CasMismatch, B) else (Inr (), B(i \<mapsto> (storedMembers content, newCas))))"

definition casWrite :: "Handle \<Rightarrow> jstr \<Rightarrow> WriteOpts \<Rightarrow> Members \<Rightarrow> int \<Rightarrow> int \<Rightarrow> Bucket \<Rightarrow> (CbError + Members) \<times> Bucket" where
  "casWrite h i opts content cas newCas B = (case casReplace i content cas newCas B of
       (Inr _, B') \<Rightarrow> (Inr (setKey (js ''_version'') (VNum (of_int newCas)) content), B')
     | (Inl CasMismatch, B') \<Rightarrow> (Inl (Engine (ConcurrencyConflict (hd_entity h) i (case wo_ifMatch opts of Some m \<Rightarrow> m | None \<Rightarrow> 0) 0)), B')
     | (Inl e, B') \<Rightarrow> (Inl e, B'))"

section \<open>Writers and tenants\<close>

text \<open>Of two writers that read the same document, one wins: the second is told, and changes nothing.\<close>

theorem second_writer_is_refused:
  assumes "casWrite h i opts content cas newCas B = (Inr doc, B1)" "newCas \<noteq> cas"
  shows "casWrite h' i opts' content' cas newCas' B1 =
    (Inl (Engine (ConcurrencyConflict (hd_entity h') i (case wo_ifMatch opts' of Some m \<Rightarrow> m | None \<Rightarrow> 0) 0)), B1)"
  using assms by (auto simp: casWrite_def casReplace_def split: option.splits prod.splits if_splits)

text \<open>The envelope is spread under the document, so a member \<open>_projectId\<close> of a document or a patch decides whose it is: a
  handle of one project puts a document before the readers of another.\<close>

theorem insert_reaches_another_tenant:
  assumes "cbInsert bytes h i now cas [(js ''_projectId'', VStr victim)] opts B = (Inr doc, B')" "wo_status opts = None"
  shows "\<exists>doc. cbGet \<lparr>hd_projectId = victim, hd_entity = hd_entity h, hd_maxDocumentKb = 0\<rparr> i B' = Some doc"
  using assms
  by (auto simp: cbInsert_def cbGet_def holds_def buildEnvelope_def spread_def storedMembers_def setKey_def DELETED_def Let_def split: sum.splits if_splits)

text \<open>A change asks for the project of a document and not for its entity.\<close>

lemma update_ignores_entity:
  "updateContent bytes textOf h i now p opts B = Inr r \<Longrightarrow> updateContent bytes textOf (h\<lparr>hd_entity := e\<rparr>) i now p opts B = Inr r"
  by (auto simp: updateContent_def sized_def cbCurrent_def casCheck_def bindr_eq_Inr split: sum.splits option.splits if_splits)

end
