(* ===== verification/Spec2Isabelle.thy ===== *)
theory Spec2Isabelle
  imports SqlPolicy TopoSort ProvisioningScope Planner RestParams RestErrors RestWire Admission MongoRules JsQueryRules StorageRules UploadRules RagChunkRules MfaTries TotpRules
    MigrationUse BackupRules UrlGuard NosqlRules PgEngineRules CbEngine
begin

text \<open>
  basefyio: a verification library for the backend platform of this repository.

  \<^bold>\<open>The program.\<close> basefyio is a backend as a service.  \<open>apps/platform-api\<close> is the server: it runs SQL
  typed into a console (\<open>modules/sql\<close>), answers a PostgREST-compatible data API
  (\<open>modules/projects/postgrest\<close>), holds the second factor of the users of a project
  (\<open>modules/projects/project-mfa.service.ts\<close>), cuts documents into chunks for retrieval
  (\<open>modules/rag\<close>), turns spreadsheets into database schemas and migrates them (\<open>modules/data-import\<close>,
  \<open>modules/blueprint\<close>, \<open>modules/migrations\<close>), encrypts backups (\<open>modules/projects/backups\<close>), keeps the
  requests of flows away from inner addresses (\<open>modules/flows\<close>), builds and executes plans for infrastructure
  (\<open>modules/provisioning\<close>), admits or refuses every tenant request (\<open>modules/admission\<close>) and guards
  the objects of a project in an S3-compatible store (\<open>modules/storage\<close>).
  \<open>packages/data-engine\<close> is the document database behind collections: it checks untrusted filters,
  pipelines and query texts and translates them for the stores.  A request passes admission first, then
  its text or object is checked and compiled, and only the compiled form reaches a database; an
  object is read or changed after the rule of its location is checked against the caller.  The
  library models these compilers and gates; the code around them is I/O.

  \<^bold>\<open>The theories\<close>, each after the ones it uses.

  \<^item> \<open>Prelude\<close>: JavaScript strings as lists of UTF-16 code units with the string operations of the source;
    errors as sums with \<open>bindr\<close>; Kleene search; the two collections \<open>progress\<close> (a scanner consumes its
    input) and \<open>consumed\<close>.  \<open>Json\<close>: JSON values with the text of a number kept.
  \<^item> \<open>SqlLexer\<close> models \<open>modules/sql/sql-lexer.ts\<close>, function by function; \<open>SqlGuard\<close> models
    \<open>modules/sql/sql-guard.ts\<close>: streams, symbols, the forbidden patterns and the allowlist.
    \<open>SqlTokens\<close> and \<open>SqlPolicy\<close> hold what they guarantee: tokens cover the text, comments hide
    nothing, quoted content is data, an accepted query keeps the session identity.
  \<^item> \<open>TopoSort\<close>, \<open>Planner\<close> and \<open>Provisioning\<close> model \<open>modules/provisioning\<close>: the order of a plan,
    the planner, and the service with executor and projection as handlers on a database record.
    \<open>ProvisioningRules\<close> holds the invariants of every history of calls, \<open>ProvisioningScope\<close> how far
    one execution reaches and the cases in which it loses track of the provider.
  \<^item> \<open>RestParser\<close>, \<open>RestSchema\<close>, \<open>RestBuilder\<close>, \<open>RestErrors\<close> and \<open>RestWire\<close> model
    \<open>modules/projects/postgrest\<close>: \<open>parser.ts\<close> and \<open>types.ts\<close>, \<open>schema-cache.ts\<close>, \<open>builder.ts\<close>,
    \<open>errors.ts\<close>, \<open>compat.ts\<close> and the overloads of \<open>rpc.ts\<close>.  \<open>RestQuery\<close> (well-formed queries and the
    round trip of filters), \<open>RestSql\<close> (operands never become text) and \<open>RestParams\<close> (placeholders and
    parameters agree) hold what they guarantee.
  \<^item> \<open>TokenBucket\<close>, \<open>ConcurrencyGate\<close> and \<open>Admission\<close> model \<open>modules/admission\<close>: the bucket in
    memory and as the Redis script, the gate as a state machine over requests, the service that
    combines them per tenant and lane.
  \<^item> \<open>JsNumber\<close>: doubles as rationals, with rounding and printing.  \<open>DataFilter\<close>, \<open>DataAggregation\<close>,
    \<open>JsQueryLexer\<close> and \<open>JsQueryParser\<close> model \<open>query/filter-object.ts\<close>,
    \<open>query/aggregation-validator.ts\<close> and \<open>query/js-query-parser.ts\<close> of \<open>packages/data-engine/src\<close>,
    with their part of \<open>interfaces/query.ts\<close>; \<open>MongoTranslate\<close> models
    \<open>providers/mongodb/mongo-translate.ts\<close>.  \<open>DataFilterRules\<close>, \<open>MongoRules\<close> and \<open>JsQueryRules\<close>
    hold what they guarantee.
  \<^item> \<open>StorageAccess\<close>, \<open>StorageObjects\<close> and \<open>UploadSession\<close> model \<open>modules/storage\<close>:
    \<open>storage-caller.ts\<close> and \<open>storage-access.service.ts\<close>; names, deletion and moves of
    \<open>storage.service.ts\<close> with their routes; \<open>upload-session.service.ts\<close>, every request split where it
    waits for the store so that others come between.  \<open>StorageRules\<close> holds what the access rules
    guarantee, \<open>UploadRules\<close> the invariants of every interleaving of uploads.
  \<^item> \<open>RagChunker\<close> models \<open>modules/rag/rag-chunker.ts\<close> and \<open>rag-chunk-builder.ts\<close>; \<open>RagChunkRules\<close> shows that
    the atoms of every granularity tile the text, that chunks are ordered and bounded and that no visible
    character is lost.
  \<^item> \<open>Totp\<close> models \<open>common/crypto/totp.ts\<close> on bytes and 32-bit words; \<open>MfaService\<close> models
    \<open>project-mfa.service.ts\<close>, the flows of \<open>project-sdk-auth.service.ts\<close> that drive it and
    \<open>common/crypto/field-crypto.ts\<close>.  \<open>TotpRules\<close>: base32 read back to its bytes.  \<open>MfaRules\<close> and \<open>MfaUse\<close>: what
    every interleaving keeps, above all that parked tokens need the factor.  \<open>MfaReplay\<close>: no code is accepted
    twice when handlers run one after the other.  \<open>MfaTries\<close>: the tries of a challenge are bounded.

  \<^item> \<open>TypeInferrer\<close> models \<open>modules/data-import/lib/type-inferrer.ts\<close>; \<open>MigrationDiff\<close> models
    \<open>blueprint/blueprint-builder.ts\<close> and \<open>migrations/migration-diff.ts\<close>; \<open>MigrationService\<close> the two services over them
    and the two operations of \<open>projects/collection.service.ts\<close> that touch a project database.  \<open>TypeRules\<close>: what
    inference guarantees of names and types.  \<open>MigrationRules\<close>: a plan, carried out, reaches the target.
    \<open>MigrationUse\<close>: the same through the services, and what no history of calls without force loses.
  \<^item> \<open>BackupCrypto\<close> models \<open>modules/projects/backups/backup-crypto.ts\<close>, its transform streams as a state with a
    function per callback, and \<open>scripts/backup-decrypt.mjs\<close>; \<open>BackupRules\<close> shows that all three agree on one format.
  \<^item> \<open>NosqlFilter\<close> models \<open>modules/projects/nosql-filter.util.ts\<close>, \<open>modules/data-query/filter-ast-to-legacy.ts\<close>, the
    statements of \<open>collection.service.ts\<close> that carry a filter and the way from a query text to them;
    \<open>NosqlRules\<close> reads the clause as a tree and shows that it means what the query means.
  \<^item> \<open>PgEngine\<close> models \<open>providers/postgres/postgres-engine.ts\<close> of \<open>packages/data-engine/src\<close>, documents as rows of one
    table with one step per statement, its compiler from filters to SQL and the one of \<open>providers/nosql/nosql-engine.ts\<close> to
    N1QL; \<open>CbEngine\<close> models the documents of the latter, each operation split between its read and its write.
    \<open>PgEngineRules\<close>: what every interleaving of statements keeps, and what a compiled filter can and cannot do.
  \<^item> \<open>UrlGuard\<close> models \<open>modules/flows/flow-url-guard.ts\<close> and shows its IPv4 tests to be address blocks.

  \<^bold>\<open>How state and effects are modelled.\<close>  A class with fields is a record passed through its methods;
  a thrown error is the left of a sum, with the message of the source where the caller sees it; the
  database of the provisioning service is a record of tables and a history of calls is an inductive
  relation.  A handler of the second factor is a tree with a request to the database, to Redis or to the
  clock at every node and what follows each answer below it, so one definition serves both an
  uninterrupted run and the interleaving of any number of handlers.  Parameters stand for what is outside the repository: what an infrastructure
  provider answers, catalogue rows, the cipher and the hash functions, the URL parser and name resolution, which
  change of type the data in a column allows, the plan of a tenant, the clock and the order in which requests
  reach Redis, environment variables, and \<open>rx\<close>, which says whether a text is a regular expression.

  \<^bold>\<open>Bounds and fuel.\<close>  The lexers, the planner and the filter compiler recurse on what is left of their
  input and are total.  The REST parsers and the query parser recurse through each other on tokens:
  they take fuel and answer \<open>None\<close> without it.  \<open>parseJsQuery\<close> starts with one unit more than there are
  tokens, which is enough because every round consumes a token (\<open>parser_always_answers\<close>); literals nest
  32 deep at most, as the code says, and the nesting of values recurses on what remains of that.
  Literals that run as SQL are followed three deep, as in \<open>sql-guard.ts\<close>.

  \<^bold>\<open>Interfaces.\<close>  A locale states a contract wherever several operations or clients share one:
  \<open>step_system\<close> (a step relation with an invariant; the histories of the concurrency gate, of the
  provisioning service, of the uploads, of the second factor and of migrations), \<open>token_bucket\<close> and \<open>bucket_pair\<close> (the bucket in memory, the Redis script and
  their equivalence), \<open>arc_lists\<close> (a graph as Kahn's algorithm walks it).  Each is interpreted on the
  model's own definitions, and the properties rest on the facts of those interpretations.

  \<^bold>\<open>What modelling showed.\<close>  Where the code does not do what it means to, a lemma on a concrete input
  shows it, and the theorem beside it says exactly what does hold: an exclusion in a \<open>$project\<close>
  that names no stored field, composite group keys that collide, names found in
  \<open>Object.prototype\<close>, a junction table with two keys to one table, a filter on an embed that is not
  selected, a provider failure that only deleted resources, a folder above a rule, a move that
  overwrites, an upload lock that expires, a one-time code that two requests both
  redeem, a spent recovery code that comes back, a schema snapshot that runs ahead of its database, column names that
  collide after they were told apart, IPv6 spellings the URL guard misses, an empty backup the script cannot open, a
  dotted path of which only the first segment is compared, and others.

  \<^bold>\<open>Not modelled.\<close>  Services that move rows between clients and databases, Keycloak, Stripe, object
  stores, model providers and message brokers: their behaviour is that of the other side.  User
  interfaces and command-line tools: presentation.  Within the modelled parts: the JSON and the cipher text
  of a parked challenge (its value is kept), the URI of a QR code, timeouts, logging.
\<close>

end
